(* ===== verification/Prelude.thy ===== *)
theory Prelude
  imports Main "HOL-Library.Word"
begin

unbundle bit_operations_syntax

text \<open>
  Shared vocabulary of the development: the machine integer types of the firmware and of the
  robot controller, the outcome type of C code, C strings kept inside fixed-size buffers, the
  bit operations the drivers use, and the list lemmas that several components need.

  \<^item> \<open>u8\<close>, \<open>u16\<close>, \<open>u32\<close> are the fixed-width unsigned integers; \<open>+\<close> and \<open>-\<close> wrap.
  \<^item> \<open>'a outcome\<close> is what running a piece of C code gives: a value, a write outside of the array
    it was meant for, or a loop that never ends (the firmware uses such loops on purpose, to let
    the watchdog reset the part).
  \<^item> A \<open>char\<close> array that holds a C string is represented by the characters before its
    terminator; every store states how many bytes the array has from the place it writes to,
    and storing a string needs one byte more than its length.
\<close>

section \<open>Machine integers\<close>

type_synonym u8 = "8 word"
type_synonym u16 = "16 word"
type_synonym u32 = "32 word"

named_theorems outcome_simps \<open>unfolding of outcomes and buffer stores\<close>
named_theorems hex_simps \<open>hexadecimal printing and scanning\<close>
named_theorems frame_simps \<open>what an operation leaves unchanged\<close>
named_theorems inv_intros \<open>an operation keeps an invariant\<close>

section \<open>Outcomes of C code\<close>

datatype 'a outcome = Ret 'a | Overrun | Spin

fun obind :: "'a outcome \<Rightarrow> ('a \<Rightarrow> 'b outcome) \<Rightarrow> 'b outcome" where
  "obind (Ret x) f = f x"
| "obind Overrun f = Overrun"
| "obind Spin f = Spin"

fun returns :: "'a outcome \<Rightarrow> bool" where
  "returns (Ret _) = True"
| "returns _ = False"

lemma obind_eq_Ret:
  "obind m f = Ret y \<longleftrightarrow> (\<exists>x. m = Ret x \<and> f x = Ret y)"
  by (cases m) auto

lemma obind_eq_Overrun:
  "obind m f = Overrun \<longleftrightarrow> m = Overrun \<or> (\<exists>x. m = Ret x \<and> f x = Overrun)"
  by (cases m) auto

lemma obind_assoc: "obind (obind m f) g = obind m (\<lambda>x. obind (f x) g)"
  by (cases m) auto

lemma returns_iff: "returns m \<longleftrightarrow> (\<exists>x. m = Ret x)"
  by (cases m) auto

section \<open>C strings in buffers\<close>

abbreviation NUL :: char where
  "NUL \<equiv> CHR 0x00"

text \<open>\<open>store room s\<close> writes the characters \<open>s\<close> and the terminator at an address from which
  \<open>room\<close> bytes belong to the array.\<close>

definition store :: "nat \<Rightarrow> string \<Rightarrow> string outcome" where
  "store room s = (if length s < room then Ret s else Overrun)"

lemma store_Ret [simp]: "store room s = Ret t \<longleftrightarrow> length s < room \<and> t = s"
  by (auto simp: store_def)

lemma store_Overrun [simp]: "store room s = Overrun \<longleftrightarrow> room \<le> length s"
  by (auto simp: store_def)

lemma store_not_Spin [simp]: "store room s \<noteq> Spin"
  by (simp add: store_def)

lemma store_fits [outcome_simps]: "length s < room \<Longrightarrow> store room s = Ret s"
  by simp

text \<open>A \<open>char\<close> of the C code and the byte that stands for it.\<close>

definition chr :: "u8 \<Rightarrow> char" where
  "chr w = char_of (unat w)"

definition ord :: "char \<Rightarrow> u8" where
  "ord c = of_nat (of_char c)"

lemma unat_u8_less: "unat (w :: u8) < 256"
proof -
  have "(unsigned w :: nat) < 2 ^ LENGTH(8)" by (rule unsigned_less)
  then show ?thesis by simp
qed

lemma unat_u16_less: "unat (w :: u16) < 65536"
proof -
  have "(unsigned w :: nat) < 2 ^ LENGTH(16)" by (rule unsigned_less)
  then show ?thesis by simp
qed

lemma unat_ucast_u8 [simp]: "unat (ucast (v :: u8) :: u16) = unat v"
  using unat_u8_less [of v] by (simp add: unsigned_ucast_eq take_bit_nat_eq_self)

lemma ucast_u8_less: "ucast (v :: u8) < (256 :: u16)"
  using unat_u8_less [of v] by (simp add: word_less_nat_alt)

lemma ucast_u8_zero: "(ucast (v :: u8) :: u16) = 0 \<longleftrightarrow> v = 0"
  by (metis unat_ucast_u8 unat_eq_0)

lemma chr_ord [simp]: "chr (ord c) = c"
  by (simp add: chr_def ord_def unat_of_nat)

lemma ord_chr [simp]: "ord (chr w) = w"
proof -
  have "unat w mod 256 = unat w"
    using unat_u8_less [of w] by simp
  then show ?thesis by (simp add: chr_def ord_def)
qed

lemma ord_eq_iff: "ord c = ord d \<longleftrightarrow> c = d"
  by (metis chr_ord)

lemma chr_eq_iff: "chr v = chr w \<longleftrightarrow> v = w"
  by (metis ord_chr)

section \<open>Bits\<close>

text \<open>\<open>w & (1 << k)\<close>, \<open>w | (1 << k)\<close> and \<open>w & ~(1 << k)\<close> of the drivers.\<close>

definition bit_test :: "'a::len word \<Rightarrow> nat \<Rightarrow> bool" where
  "bit_test w k = (w AND push_bit k 1 \<noteq> 0)"

definition bit_on :: "nat \<Rightarrow> 'a::len word \<Rightarrow> 'a word" where
  "bit_on k w = w OR push_bit k 1"

definition bit_off :: "nat \<Rightarrow> 'a::len word \<Rightarrow> 'a word" where
  "bit_off k w = w AND NOT (push_bit k 1)"

lemma bit_test_iff: "bit_test w k \<longleftrightarrow> bit w k"
proof -
  have "bit_test w k \<longleftrightarrow> (\<exists>n. bit (w AND push_bit k 1) n)"
    unfolding bit_test_def by (metis bit_0_eq bit_eqI bot_apply bot_bool_def)
  also have "\<dots> \<longleftrightarrow> bit w k"
    by (auto simp: bit_simps dest: bit_imp_le_length)
  finally show ?thesis .
qed

lemma bit_bit_on: "bit (bit_on k (w :: 'a::len word)) n \<longleftrightarrow> (n = k \<and> n < LENGTH('a)) \<or> bit w n"
  by (auto simp: bit_on_def bit_simps)

lemma bit_bit_off: "bit (bit_off k (w :: 'a::len word)) n \<longleftrightarrow> n \<noteq> k \<and> bit w n"
  by (auto simp: bit_off_def bit_simps dest: bit_imp_le_length)

lemma u8_bit_push: "bit (push_bit m (w :: u8)) k \<longleftrightarrow> m \<le> k \<and> k < 8 \<and> bit w (k - m)"
  using bit_push_bit_iff [of m w k] by (simp only: possible_bit_word) auto

lemma u8_bit_80: "bit (0x80 :: u8) k \<longleftrightarrow> k = 7"
proof -
  have "(0x80 :: u8) = push_bit 7 1" by simp
  then show ?thesis by (simp only: u8_bit_push) (auto simp: bit_1_iff)
qed

text \<open>Case analysis on a small word, for the tables indexed by nybbles, bits and addresses.\<close>

lemma word_lt_of_natE:
  fixes w :: "'a::len word"
  assumes "w < of_nat n" and "n < 2 ^ LENGTH('a)"
  obtains k where "k < n" and "w = of_nat k"
proof
  show "unat w < n"
    using assms by (simp add: word_less_nat_alt unat_of_nat take_bit_nat_eq_self)
  show "w = of_nat (unat w)" by simp
qed

lemma u8_mask4: "(15 :: u8) = mask 4" "(0xF0 :: u8) = push_bit 4 (mask 4)"
  by (simp_all add: mask_eq_exp_minus_1)

lemma u16_mask4:
  "(0x000F :: u16) = mask 4" "(0x00F0 :: u16) = push_bit 4 (mask 4)"
  "(0x0F00 :: u16) = push_bit 8 (mask 4)" "(0xF000 :: u16) = push_bit 12 (mask 4)"
  by (simp_all add: mask_eq_exp_minus_1)

section \<open>Lists\<close>

lemma takeWhile_all: "(\<And>x. x \<in> set xs \<Longrightarrow> P x) \<Longrightarrow> takeWhile P xs = xs"
  by (induction xs) auto

lemma nth_map_update: "i < length xs \<Longrightarrow> map f (xs[i := x]) = (map f xs)[i := f x]"
  by (simp add: map_update)

text \<open>The index of the first element with a property: the shape of every table search.\<close>

fun first_index :: "('a \<Rightarrow> bool) \<Rightarrow> 'a list \<Rightarrow> nat option" where
  "first_index P [] = None"
| "first_index P (x # xs) = (if P x then Some 0 else map_option Suc (first_index P xs))"

lemma first_index_None: "first_index P xs = None \<longleftrightarrow> (\<forall>x \<in> set xs. \<not> P x)"
  by (induction xs) auto

lemma first_index_Some:
  "first_index P xs = Some i \<Longrightarrow> i < length xs \<and> P (xs ! i) \<and> (\<forall>j < i. \<not> P (xs ! j))"
proof (induction xs arbitrary: i)
  case (Cons x xs)
  show ?case
  proof (cases "P x")
    case False
    with Cons.prems obtain k where k: "first_index P xs = Some k" "i = Suc k" by auto
    from Cons.IH [OF k(1)] k(2) False show ?thesis
      by (auto simp: nth_Cons split: nat.splits)
  qed (use Cons.prems in auto)
qed simp

lemma first_index_complete:
  "i < length xs \<Longrightarrow> P (xs ! i) \<Longrightarrow> \<exists>k. first_index P xs = Some k \<and> k \<le> i"
proof (induction xs arbitrary: i)
  case (Cons x xs)
  show ?case
  proof (cases i)
    case 0
    with Cons.prems show ?thesis by simp
  next
    case (Suc j)
    with Cons.prems Cons.IH [of j] show ?thesis by auto
  qed
qed simp

end
