(* ===== verification/HwUart.thy ===== *)
theory HwUart
  imports Prelude
begin

unbundle bit_operations_syntax

text \<open>
  The polled UART driver of the odroid shield, \<^verbatim>\<open>hw/odroid_shield_v2/firmware/mlib2/hwuart.c\<close>
  with the accessors of \<^verbatim>\<open>hwuart.h\<close>, in the configuration that the shield's \<^verbatim>\<open>hw.h\<close> selects for
  the ATmega644P (divisor 16, high speed, transmitter control, receive interrupt).

  The registers the driver writes are fields of \<open>uart\<close>; \<open>tx_data\<close> collects the bytes stored in
  the data register, in order. The status register \<open>UCSR0A\<close> is set by the hardware, so what a read
  of it gives is a parameter: \<open>ucsra n\<close> is the value of the \<open>n\<close>-th read. The two busy-wait loops
  are bounded by fuel; running out of it is \<open>Spin\<close>, and \<open>wait_tx_empty_Ret\<close> says how much is enough.
\<close>

section \<open>Registers\<close>

record uart =
  UBRR :: u16
  UCSRA :: u8
  UCSRB :: u8
  UCSRC :: u8
  tx_busy_flag :: u8
  tx_data :: "u8 list"
  a_reads :: nat

abbreviation (input) "RXC_bit \<equiv> (7 :: nat)"
abbreviation (input) "TXC_bit \<equiv> (6 :: nat)"
abbreviation (input) "UDRE_bit \<equiv> (5 :: nat)"
abbreviation (input) "U2X_bit \<equiv> (1 :: nat)"
abbreviation (input) "RXCIE_bit \<equiv> (7 :: nat)"
abbreviation (input) "RXEN_bit \<equiv> (4 :: nat)"
abbreviation (input) "TXEN_bit \<equiv> (3 :: nat)"
abbreviation (input) "USBS_bit \<equiv> (3 :: nat)"
abbreviation (input) "UCSZ0_bit \<equiv> (1 :: nat)"

definition hwuart_write_UCSRA :: "u8 \<Rightarrow> uart \<Rightarrow> uart" where
  "hwuart_write_UCSRA val u = u\<lparr>UCSRA := val OR push_bit U2X_bit 1\<rparr>"

definition hwuart_init :: "uart \<Rightarrow> uart" where
  "hwuart_init u =
     hwuart_write_UCSRA 0
       (u\<lparr>UBRR := 16,
          UCSRB := push_bit RXEN_bit 1 OR push_bit RXCIE_bit 1,
          UCSRC := push_bit USBS_bit 1 OR push_bit UCSZ0_bit 3\<rparr>)"

definition hwuart_tx_is_enabled :: "uart \<Rightarrow> bool" where
  "hwuart_tx_is_enabled u = bit_test (UCSRB u) TXEN_bit"

text \<open>A read of the status register: its value and the state after it.\<close>

definition read_ucsra :: "(nat \<Rightarrow> u8) \<Rightarrow> uart \<Rightarrow> u8 \<times> uart" where
  "read_ucsra ucsra u = (ucsra (a_reads u), u\<lparr>a_reads := Suc (a_reads u)\<rparr>)"

definition hwuart_tx_is_full :: "(nat \<Rightarrow> u8) \<Rightarrow> uart \<Rightarrow> bool \<times> uart" where
  "hwuart_tx_is_full ucsra u =
     (if \<not> hwuart_tx_is_enabled u then (False, u)
      else (let (a, u') = read_ucsra ucsra u in (\<not> bit_test a UDRE_bit, u')))"

definition hwuart_tx_is_busy :: "(nat \<Rightarrow> u8) \<Rightarrow> uart \<Rightarrow> u8 \<times> uart" where
  "hwuart_tx_is_busy ucsra u =
     (if \<not> hwuart_tx_is_enabled u then (0, u)
      else
        (let (a, u1) = read_ucsra ucsra u;
             u2 = (if bit_test a TXC_bit
                   then hwuart_write_UCSRA (push_bit TXC_bit 1) (u1\<lparr>tx_busy_flag := 0\<rparr>)
                   else u1)
         in (tx_busy_flag u2, u2)))"

section \<open>Busy waiting\<close>

text \<open>The loop \<open>while (!_HWUART_TX_EMPTY()) {}\<close>.\<close>

fun wait_tx_empty :: "(nat \<Rightarrow> u8) \<Rightarrow> nat \<Rightarrow> uart \<Rightarrow> uart outcome" where
  "wait_tx_empty ucsra 0 u = Spin"
| "wait_tx_empty ucsra (Suc fuel) u =
     (let (a, u') = read_ucsra ucsra u in
      if bit_test a UDRE_bit then Ret u' else wait_tx_empty ucsra fuel u')"

text \<open>The loop \<open>while (hwuart_tx_is_busy()) {}\<close>.\<close>

fun wait_tx_idle :: "(nat \<Rightarrow> u8) \<Rightarrow> nat \<Rightarrow> uart \<Rightarrow> uart outcome" where
  "wait_tx_idle ucsra 0 u = Spin"
| "wait_tx_idle ucsra (Suc fuel) u =
     (let (b, u') = hwuart_tx_is_busy ucsra u in
      if b = 0 then Ret u' else wait_tx_idle ucsra fuel u')"

definition hwuart_tx_enable :: "(nat \<Rightarrow> u8) \<Rightarrow> nat \<Rightarrow> bool \<Rightarrow> uart \<Rightarrow> uart outcome" where
  "hwuart_tx_enable ucsra fuel enable u =
     (if enable then Ret (u\<lparr>UCSRB := bit_on TXEN_bit (UCSRB u)\<rparr>)
      else
        obind (if hwuart_tx_is_enabled u then wait_tx_idle ucsra fuel u else Ret u)
          (\<lambda>u. Ret (u\<lparr>UCSRB := bit_off TXEN_bit (UCSRB u)\<rparr>)))"

definition hwuart_tx :: "(nat \<Rightarrow> u8) \<Rightarrow> nat \<Rightarrow> u8 \<Rightarrow> uart \<Rightarrow> uart outcome" where
  "hwuart_tx ucsra fuel c u =
     (if \<not> hwuart_tx_is_enabled u then Ret u
      else obind (wait_tx_empty ucsra fuel u)
             (\<lambda>u. Ret (u\<lparr>tx_busy_flag := 1, tx_data := tx_data u @ [c]\<rparr>)))"

text \<open>The non-blocking receive; \<open>udr\<close> is what the data register holds.\<close>

definition hwuart_recv :: "(nat \<Rightarrow> u8) \<Rightarrow> u8 \<Rightarrow> uart \<Rightarrow> u8 \<times> uart" where
  "hwuart_recv ucsra udr u =
     (let (a, u') = read_ucsra ucsra u in (if bit_test a RXC_bit then udr else 0, u'))"

section \<open>Transmission\<close>

text \<open>The transmitter is ready at every poll: the situation of a line that drains.\<close>

definition always_ready :: "(nat \<Rightarrow> u8) \<Rightarrow> bool" where
  "always_ready ucsra \<longleftrightarrow> (\<forall>n. bit (ucsra n) UDRE_bit \<and> bit (ucsra n) TXC_bit)"

fun tx_all :: "(nat \<Rightarrow> u8) \<Rightarrow> nat \<Rightarrow> u8 list \<Rightarrow> uart \<Rightarrow> uart outcome" where
  "tx_all ucsra fuel [] u = Ret u"
| "tx_all ucsra fuel (c # cs) u = obind (hwuart_tx ucsra fuel c u) (tx_all ucsra fuel cs)"

text \<open>\<open>wait_tx_empty\<close> stops at the first read that shows the flag, and changes nothing but the
  number of reads.\<close>

lemma wait_tx_empty_Ret:
  assumes "bit (ucsra (a_reads u + k)) UDRE_bit" and "k < fuel"
  shows "\<exists>j \<le> k. wait_tx_empty ucsra fuel u = Ret (u\<lparr>a_reads := Suc (a_reads u + j)\<rparr>)"
  using assms
proof (induction k arbitrary: fuel u)
  case 0
  then show ?case by (cases fuel) (auto simp: read_ucsra_def bit_test_iff)
next
  case (Suc k)
  then obtain f where f: "fuel = Suc f" "k < f" by (cases fuel) auto
  show ?case
  proof (cases "bit (ucsra (a_reads u)) UDRE_bit")
    case True
    then show ?thesis by (auto simp: f read_ucsra_def bit_test_iff)
  next
    case False
    let ?u = "u\<lparr>a_reads := Suc (a_reads u)\<rparr>"
    from Suc.prems(1) have "bit (ucsra (a_reads ?u + k)) UDRE_bit" by simp
    from Suc.IH [OF this f(2)] obtain j where "j \<le> k"
      "wait_tx_empty ucsra f ?u = Ret (?u\<lparr>a_reads := Suc (a_reads ?u + j)\<rparr>)" by blast
    with False show ?thesis
      by (intro exI [of _ "Suc j"]) (simp add: f read_ucsra_def bit_test_iff)
  qed
qed

lemma hwuart_tx_disabled: "\<not> hwuart_tx_is_enabled u \<Longrightarrow> hwuart_tx ucsra fuel c u = Ret u"
  by (simp add: hwuart_tx_def)

lemma hwuart_tx_Ret:
  "hwuart_tx ucsra fuel c u = Ret u' \<Longrightarrow> hwuart_tx_is_enabled u \<Longrightarrow>
     tx_data u' = tx_data u @ [c] \<and> UCSRB u' = UCSRB u"
proof -
  assume h: "hwuart_tx ucsra fuel c u = Ret u'" and en: "hwuart_tx_is_enabled u"
  have keep: "wait_tx_empty ucsra fuel v = Ret w \<Longrightarrow> tx_data w = tx_data v \<and> UCSRB w = UCSRB v" for v w
    by (induction ucsra fuel v rule: wait_tx_empty.induct)
       (auto simp: read_ucsra_def Let_def split: if_splits)
  from h en show ?thesis
    by (auto simp: hwuart_tx_def obind_eq_Ret dest!: keep)
qed

lemma tx_all_Ret:
  "tx_all ucsra fuel cs u = Ret u' \<Longrightarrow> hwuart_tx_is_enabled u \<Longrightarrow>
     tx_data u' = tx_data u @ cs \<and> UCSRB u' = UCSRB u"
proof (induction cs arbitrary: u)
  case (Cons c cs)
  then obtain v where v: "hwuart_tx ucsra fuel c u = Ret v" "tx_all ucsra fuel cs v = Ret u'"
    by (auto simp: obind_eq_Ret)
  from hwuart_tx_Ret [OF v(1) Cons.prems(2)] Cons.IH [OF v(2)] Cons.prems(2)
  show ?case by (simp add: hwuart_tx_is_enabled_def)
qed simp

lemma wait_tx_idle_keeps:
  "wait_tx_idle ucsra fuel u = Ret u' \<Longrightarrow> tx_data u' = tx_data u \<and> UCSRB u' = UCSRB u"
  by (induction ucsra fuel u rule: wait_tx_idle.induct)
     (auto simp: hwuart_tx_is_busy_def read_ucsra_def hwuart_write_UCSRA_def Let_def
           split: if_splits prod.splits)

lemma hwuart_tx_ready:
  assumes "always_ready ucsra" "0 < fuel" "hwuart_tx_is_enabled u"
  shows "\<exists>u'. hwuart_tx ucsra fuel c u = Ret u'"
  using assms wait_tx_empty_Ret [of ucsra u 0 fuel]
  by (auto simp: always_ready_def hwuart_tx_def)

lemma tx_all_ready:
  assumes "always_ready ucsra" "0 < fuel" "hwuart_tx_is_enabled u"
  shows "\<exists>u'. tx_all ucsra fuel cs u = Ret u'"
  using assms(3)
proof (induction cs arbitrary: u)
  case (Cons c cs)
  from hwuart_tx_ready [OF assms(1,2) Cons.prems] obtain v where
    v: "hwuart_tx ucsra fuel c u = Ret v" by blast
  with hwuart_tx_Ret [OF v Cons.prems] Cons.prems have "hwuart_tx_is_enabled v"
    by (simp add: hwuart_tx_is_enabled_def)
  from Cons.IH [OF this] v show ?case by auto
qed simp

lemma wait_tx_idle_ready:
  assumes "always_ready ucsra" "0 < fuel"
  shows "\<exists>u'. wait_tx_idle ucsra fuel u = Ret u'"
  using assms
  by (cases fuel)
     (auto simp: always_ready_def hwuart_tx_is_busy_def read_ucsra_def hwuart_write_UCSRA_def
        bit_test_iff Let_def)

end
