(* ===== verification/OdroidShield.thy ===== *)
theory OdroidShield
  imports HwUart
begin

unbundle bit_operations_syntax

text \<open>
  The weapon controller on the odroid shield, \<^verbatim>\<open>hw/odroid_shield_v2/firmware/avr_odroid.c\<close>: it
  pretends to be a Herculex servo at address 99, assembles packets in the receive interrupt, and
  turns register writes into LED, laser and motor outputs in its main loop.

  \<^item> The union \<open>rx\<close> is the list \<open>rawdata\<close> of 16 bytes; its struct view is \<open>size\<close> (byte 0), \<open>pID\<close>,
    \<open>cmd\<close>, \<open>cs1\<close>, \<open>cs2\<close> and \<open>data\<close> (bytes 5 to 15). Reading or writing \<open>data[i]\<close> with \<open>i \<ge> 11\<close>
    leaves the union and is the outcome \<open>Overrun\<close>.
  \<^item> \<open>rx_isr\<close> is the body of \<open>HWUART_RX_VECT\<close>; \<open>handle_packet\<close> and \<open>handle_tick\<close> are the two halves
    of the body of the main loop. The interrupt leaves the state alone while a packet waits
    (\<open>rx_isr_ready\<close>), so the main loop owns the buffer while it handles it.
\<close>

section \<open>State\<close>

datatype rx_state = RXS_READY | RXS_RX | RXS_BAD

definition SERVO_ADDR :: u8 where "SERVO_ADDR = 99"

record shield =
  rawdata :: "u8 list"
  rx_len :: u8
  rx_ff_count :: u8
  rx_status :: rx_state
  servo_status_err :: u8
  servo_status_det :: u8
  servo_leds :: u8
  servo_leds_timeout :: u8
  servo_fire_time :: u8
  servo_fire_pwm :: u8
  servo_agitator_pwm :: u8
  PORTC :: u8
  DDRD :: u8
  OCR1A :: u16
  OCR1B :: u16
  step :: u16
  uart :: uart

definition kSSEInvalidPacket :: u8 where "kSSEInvalidPacket = 0x08"
definition kSSDChecksumError :: u8 where "kSSDChecksumError = 0x04"
definition kSSDUnknownCommand :: u8 where "kSSDUnknownCommand = 0x08"
definition kSSDExceedRegRange :: u8 where "kSSDExceedRegRange = 0x10"

abbreviation rx_size :: "shield \<Rightarrow> u8" where "rx_size s \<equiv> rawdata s ! 0"
abbreviation rx_pID :: "shield \<Rightarrow> u8" where "rx_pID s \<equiv> rawdata s ! 1"
abbreviation rx_cmd :: "shield \<Rightarrow> u8" where "rx_cmd s \<equiv> rawdata s ! 2"
abbreviation rx_cs1 :: "shield \<Rightarrow> u8" where "rx_cs1 s \<equiv> rawdata s ! 3"
abbreviation rx_cs2 :: "shield \<Rightarrow> u8" where "rx_cs2 s \<equiv> rawdata s ! 4"

definition set_raw :: "nat \<Rightarrow> u8 \<Rightarrow> shield \<Rightarrow> shield" where
  "set_raw i v s = s\<lparr>rawdata := (rawdata s)[i := v]\<rparr>"

text \<open>\<open>rx.val.data[i]\<close>, read and written.\<close>

definition get_data :: "nat \<Rightarrow> shield \<Rightarrow> u8 outcome" where
  "get_data i s = (if i < 11 then Ret (rawdata s ! (5 + i)) else Overrun)"

definition put_data :: "nat \<Rightarrow> u8 \<Rightarrow> shield \<Rightarrow> shield outcome" where
  "put_data i v s = (if i < 11 then Ret (set_raw (5 + i) v s) else Overrun)"

section \<open>Receive interrupt\<close>

definition rx_count_ff :: "u8 \<Rightarrow> shield \<Rightarrow> shield" where
  "rx_count_ff c s =
     (if c \<noteq> 0xFF then s\<lparr>rx_ff_count := 0\<rparr> else s\<lparr>rx_ff_count := rx_ff_count s + 1\<rparr>)"

text \<open>Storing a byte of the body, and deciding whether the packet is bad or complete.\<close>

definition rx_store :: "u8 \<Rightarrow> shield \<Rightarrow> shield" where
  "rx_store c s =
     (if 16 \<le> rx_len s then s\<lparr>rx_status := RXS_BAD\<rparr>
      else
        (let s2 = (set_raw (unat (rx_len s)) c s)\<lparr>rx_len := rx_len s + 1\<rparr>
         in if rx_len s2 = 2 \<and> c \<noteq> SERVO_ADDR \<and> c \<noteq> 0xFE then s2\<lparr>rx_status := RXS_BAD\<rparr>
            else if 5 \<le> rx_len s2 \<and> unat (rx_len s2) + 2 = unat (rx_size s2)
            then s2\<lparr>rx_status := RXS_READY\<rparr>
            else s2))"

definition rx_isr :: "u8 \<Rightarrow> shield \<Rightarrow> shield" where
  "rx_isr c s =
     (if rx_status s = RXS_READY then s
      else
        (let s1 = rx_count_ff c s
         in if c = 0xFF \<and> 2 \<le> rx_ff_count s1 then s1\<lparr>rx_len := 0, rx_status := RXS_RX\<rparr>
            else if rx_status s1 \<noteq> RXS_RX then s1
            else rx_store c s1))"

section \<open>Checksums and replies\<close>

text \<open>The loop of \<open>calculate_cs1\<close>: \<open>n\<close> more data bytes from index \<open>i\<close> on.\<close>

fun cs1_loop :: "nat \<Rightarrow> nat \<Rightarrow> u8 \<Rightarrow> shield \<Rightarrow> u8 outcome" where
  "cs1_loop i 0 cs1 s = Ret cs1"
| "cs1_loop i (Suc n) cs1 s = obind (get_data i s) (\<lambda>d. cs1_loop (Suc i) n (cs1 XOR d) s)"

definition calculate_cs1 :: "shield \<Rightarrow> u8 outcome" where
  "calculate_cs1 s =
     (let datalen = rx_size s - 7
      in cs1_loop 0 (unat datalen) (rx_size s XOR rx_pID s XOR rx_cmd s) s)"

definition enable_tx :: "(nat \<Rightarrow> u8) \<Rightarrow> nat \<Rightarrow> shield \<Rightarrow> shield outcome" where
  "enable_tx ucsra fuel s =
     (let s1 = s\<lparr>DDRD := bit_on 1 (DDRD s)\<rparr>
      in obind (hwuart_tx_enable ucsra fuel True (uart s1)) (\<lambda>u. Ret (s1\<lparr>uart := u\<rparr>)))"

definition disable_tx :: "(nat \<Rightarrow> u8) \<Rightarrow> nat \<Rightarrow> shield \<Rightarrow> shield outcome" where
  "disable_tx ucsra fuel s =
     obind (hwuart_tx_enable ucsra fuel False (uart s))
       (\<lambda>u. Ret (s\<lparr>uart := u, DDRD := bit_off 1 (DDRD s)\<rparr>))"

definition shield_tx :: "(nat \<Rightarrow> u8) \<Rightarrow> nat \<Rightarrow> u8 \<Rightarrow> shield \<Rightarrow> shield outcome" where
  "shield_tx ucsra fuel c s =
     obind (hwuart_tx ucsra fuel c (uart s)) (\<lambda>u. Ret (s\<lparr>uart := u\<rparr>))"

text \<open>The loop that sends \<open>rx.rawdata[i]\<close>, \<open>n\<close> bytes from index \<open>i\<close> on.\<close>

fun send_loop :: "(nat \<Rightarrow> u8) \<Rightarrow> nat \<Rightarrow> nat \<Rightarrow> nat \<Rightarrow> shield \<Rightarrow> shield outcome" where
  "send_loop ucsra fuel i 0 s = Ret s"
| "send_loop ucsra fuel i (Suc n) s =
     (if i < 16
      then obind (shield_tx ucsra fuel (rawdata s ! i) s) (send_loop ucsra fuel (Suc i) n)
      else Overrun)"

definition send_rx_buffer :: "(nat \<Rightarrow> u8) \<Rightarrow> nat \<Rightarrow> shield \<Rightarrow> shield outcome" where
  "send_rx_buffer ucsra fuel s0 =
     (let s = set_raw 1 SERVO_ADDR s0 in
      obind (calculate_cs1 s) (\<lambda>cs1.
      let s = set_raw 4 ((cs1 XOR 0xFF) AND 0xFE) (set_raw 3 (cs1 AND 0xFE) s) in
      obind (enable_tx ucsra fuel s) (\<lambda>s.
      obind (shield_tx ucsra fuel 0xFF s) (\<lambda>s.
      obind (shield_tx ucsra fuel 0xFF s) (\<lambda>s.
      obind (send_loop ucsra fuel 0 (unat (rx_size s - 2)) s) (\<lambda>s.
      obind (shield_tx ucsra fuel 0 s)
        (disable_tx ucsra fuel)))))))"

definition handle_STAT_command :: "(nat \<Rightarrow> u8) \<Rightarrow> nat \<Rightarrow> shield \<Rightarrow> shield outcome" where
  "handle_STAT_command ucsra fuel s =
     (let s = set_raw 2 0x47 (set_raw 0 9 s) in
      obind (put_data 0 (servo_status_err s) s) (\<lambda>s.
      obind (put_data 1 (servo_status_det s) s)
        (send_rx_buffer ucsra fuel)))"

definition verify_rx_checksum :: "shield \<Rightarrow> bool outcome" where
  "verify_rx_checksum s =
     obind (calculate_cs1 s) (\<lambda>cs1.
       Ret (rx_cs1 s = cs1 AND 0xFE \<and> rx_cs2 s = (cs1 XOR 0xFF) AND 0xFE))"

section \<open>Registers\<close>

text \<open>\<open>handle_ram_write\<close> returns the error flag and the state.\<close>

definition moving_flag :: "shield \<Rightarrow> shield" where
  "moving_flag s = (if servo_fire_pwm s \<noteq> 0 \<and> servo_fire_time s \<noteq> 0
     then s\<lparr>servo_status_det := servo_status_det s OR 0x01\<rparr> else s)"

definition handle_ram_write :: "u8 \<Rightarrow> u8 \<Rightarrow> shield \<Rightarrow> bool \<times> shield" where
  "handle_ram_write addr val s =
     (if addr = 84 then (True, s)
      else
        (False, moving_flag
          (if addr = 43 then s\<lparr>servo_status_err := val\<rparr>
           else if addr = 44 then s\<lparr>servo_status_det := val\<rparr>
           else if addr = 53 \<or> addr = 83 then s\<lparr>servo_leds_timeout := 200, servo_leds := val\<rparr>
           else if addr = 80 then s\<lparr>servo_fire_time := val\<rparr>
           else if addr = 81 then s\<lparr>servo_fire_pwm := val\<rparr>
           else if addr = 82 then s\<lparr>servo_agitator_pwm := val\<rparr>
           else s)))"

text \<open>The loop of \<open>handle_RAMWRITE_cmd\<close>: data bytes \<open>i\<close> to \<open>i + n - 1\<close>, to addresses from \<open>addr\<close> on.\<close>

fun ramwrite_loop :: "nat \<Rightarrow> nat \<Rightarrow> u8 \<Rightarrow> shield \<Rightarrow> shield outcome" where
  "ramwrite_loop i 0 addr s = Ret s"
| "ramwrite_loop i (Suc n) addr s =
     obind (get_data i s) (\<lambda>d.
       let (err, s1) = handle_ram_write addr d s;
           s2 = (if err
                 then s1\<lparr>servo_status_err := servo_status_err s1 OR kSSEInvalidPacket,
                         servo_status_det := servo_status_det s1 OR kSSDExceedRegRange\<rparr>
                 else s1)
       in ramwrite_loop (Suc i) n (addr + 1) s2)"

definition handle_RAMWRITE_cmd :: "shield \<Rightarrow> shield outcome" where
  "handle_RAMWRITE_cmd s =
     (let datalen = rx_size s - 7 in
      obind (get_data 0 s) (\<lambda>addr. ramwrite_loop 2 (unat datalen - 2) addr s))"

definition handle_ram_read :: "u8 \<Rightarrow> shield \<Rightarrow> u8" where
  "handle_ram_read addr s =
     (if addr = 7 then SERVO_ADDR
      else if addr = 43 then servo_status_err s
      else if addr = 44 then servo_status_det s
      else if addr = 53 \<or> addr = 83 then servo_leds s
      else if addr = 80 then servo_fire_time s
      else if addr = 81 then servo_fire_pwm s
      else if addr = 82 then servo_agitator_pwm s
      else 0)"

fun ramread_loop :: "nat \<Rightarrow> nat \<Rightarrow> u8 \<Rightarrow> shield \<Rightarrow> shield outcome" where
  "ramread_loop i 0 addr s = Ret s"
| "ramread_loop i (Suc n) addr s =
     obind (put_data (i + 2) (handle_ram_read addr s) s) (ramread_loop (Suc i) n (addr + 1))"

text \<open>The number of registers a reply holds: more than fit are cut down to nine.\<close>

definition clip_count :: "u8 \<Rightarrow> u8" where
  "clip_count count = (if unat count + 2 > 11 then 9 else count)"

definition handle_RAMREAD_cmd :: "(nat \<Rightarrow> u8) \<Rightarrow> nat \<Rightarrow> shield \<Rightarrow> shield outcome" where
  "handle_RAMREAD_cmd ucsra fuel s =
     obind (get_data 0 s) (\<lambda>addr.
     obind (get_data 1 s) (\<lambda>count0.
       let count = clip_count count0;
           s = set_raw 2 0x44 (set_raw 0 (count + 11) s)
       in obind (put_data 0 addr s) (\<lambda>s.
          obind (put_data 1 count s) (\<lambda>s.
          obind (ramread_loop 0 (unat count) addr s) (\<lambda>s.
          obind (put_data (unat count + 1) (servo_status_err s) s) (\<lambda>s.
          obind (put_data (unat count + 2) (servo_status_det s) s)
            (send_rx_buffer ucsra fuel)))))))"

section \<open>Main loop\<close>

definition bitvar :: "nat \<Rightarrow> bool \<Rightarrow> u8 \<Rightarrow> u8" where
  "bitvar k b w = (if b then bit_on k w else bit_off k w)"

definition apply_servo_values :: "shield \<Rightarrow> shield" where
  "apply_servo_values s =
     s\<lparr>PORTC :=
         bitvar 4 (servo_fire_pwm s \<noteq> 0 \<or> servo_agitator_pwm s \<noteq> 0)
          (bitvar 6 (servo_leds s AND 4 \<noteq> 0)
            (bitvar 7 (servo_leds s AND 2 \<noteq> 0)
              (bitvar 3 (servo_leds s AND 1 \<noteq> 0) (PORTC s)))),
       OCR1B := ucast (servo_fire_pwm s),
       OCR1A := ucast (servo_agitator_pwm s)\<rparr>"

definition handle_packet :: "(nat \<Rightarrow> u8) \<Rightarrow> nat \<Rightarrow> shield \<Rightarrow> shield outcome" where
  "handle_packet ucsra fuel s =
     (if rx_status s \<noteq> RXS_READY then Ret s
      else
        obind (verify_rx_checksum s) (\<lambda>ok.
        obind
          (if \<not> ok
           then Ret (s\<lparr>servo_status_err := servo_status_err s OR kSSEInvalidPacket,
                       servo_status_det := servo_status_det s OR kSSDChecksumError\<rparr>)
           else if rx_cmd s = 0x09
           then Ret (apply_servo_values
                  (s\<lparr>servo_status_err := 0, servo_status_det := 0, servo_leds := 0,
                     servo_fire_time := 0, servo_fire_pwm := 0, servo_agitator_pwm := 0\<rparr>))
           else if rx_cmd s = 0x07 then handle_STAT_command ucsra fuel s
           else if rx_cmd s = 0x03 \<and> 8 \<le> rx_size s then handle_RAMWRITE_cmd s
           else if rx_cmd s = 0x04 \<and> rx_size s = 9 then handle_RAMREAD_cmd ucsra fuel s
           else if rx_cmd s = 0x05 \<or> rx_cmd s = 0x06 \<or> rx_cmd s = 0x08 then Ret s
           else Ret (s\<lparr>servo_status_err := servo_status_err s OR kSSEInvalidPacket,
                       servo_status_det := servo_status_det s OR kSSDUnknownCommand\<rparr>))
          (\<lambda>s. Ret (s\<lparr>rx_status := RXS_BAD\<rparr>))))"

definition expire_leds :: "shield \<Rightarrow> shield" where
  "expire_leds s =
     (if servo_leds_timeout s \<noteq> 0 then s\<lparr>servo_leds_timeout := servo_leds_timeout s - 1\<rparr>
      else s\<lparr>servo_leds := 0, servo_agitator_pwm := 0\<rparr>)"

definition expire_fire :: "shield \<Rightarrow> shield" where
  "expire_fire s =
     (if servo_fire_time s \<noteq> 0 then s\<lparr>servo_fire_time := servo_fire_time s - 1\<rparr>
      else s\<lparr>servo_fire_pwm := 0, servo_status_det := servo_status_det s AND NOT 0x01\<rparr>)"

definition blink :: "shield \<Rightarrow> shield" where
  "blink s =
     (if servo_leds_timeout s \<noteq> 0 then s
      else if step s = 10 then s\<lparr>PORTC := bitvar 7 False (PORTC s)\<rparr>
      else if 1000 \<le> step s then s\<lparr>PORTC := bitvar 7 True (PORTC s), step := 0\<rparr>
      else s)"

text \<open>The part of the loop body that runs when the 10 ms flag is set.\<close>

definition handle_tick :: "shield \<Rightarrow> shield" where
  "handle_tick s =
     (let s = expire_fire (apply_servo_values (expire_leds s))
      in blink (s\<lparr>step := step s + 1\<rparr>))"

definition main_iteration :: "(nat \<Rightarrow> u8) \<Rightarrow> nat \<Rightarrow> bool \<Rightarrow> shield \<Rightarrow> shield outcome" where
  "main_iteration ucsra fuel elapsed s =
     obind (handle_packet ucsra fuel s) (\<lambda>s. Ret (if elapsed then handle_tick s else s))"

text \<open>What \<open>main\<close> sets up before its loop; \<open>uart0\<close> is the serial port after reset.\<close>

definition shield_init :: "(nat \<Rightarrow> u8) \<Rightarrow> nat \<Rightarrow> uart \<Rightarrow> shield outcome" where
  "shield_init ucsra fuel uart0 =
     (let ddrc = push_bit 2 1 OR push_bit 4 1 OR push_bit 6 1 OR push_bit 7 (1 :: u8);
          ddrd = push_bit 4 1 OR push_bit 5 (1 :: u8);
          s = \<lparr>rawdata = replicate 16 0, rx_len = 7, rx_ff_count = 0, rx_status = RXS_BAD,
               servo_status_err = 0, servo_status_det = 0, servo_leds = 0,
               servo_leds_timeout = 0, servo_fire_time = 0, servo_fire_pwm = 0,
               servo_agitator_pwm = 0, PORTC = NOT ddrc, DDRD = ddrd, OCR1A = 0, OCR1B = 0,
               step = 0, uart = hwuart_init uart0\<rparr>
      in obind (disable_tx ucsra fuel s) (\<lambda>s.
           Ret (s\<lparr>PORTC := bitvar 2 False (bitvar 4 True (PORTC s))\<rparr>)))"

section \<open>The receive buffer invariant\<close>

text \<open>The buffer has 16 bytes, the write position stays inside it while a packet is received, and
  a finished packet is as long as its size byte says.\<close>

definition rx_inv :: "shield \<Rightarrow> bool" where
  "rx_inv s \<longleftrightarrow>
     length (rawdata s) = 16 \<and>
     (rx_status s = RXS_RX \<longrightarrow> rx_len s \<le> 16) \<and>
     (rx_status s = RXS_READY \<longrightarrow>
        5 \<le> rx_len s \<and> rx_len s \<le> 16 \<and> unat (rx_len s) + 2 = unat (rx_size s))"

lemma set_raw_simps [simp]:
  "rx_status (set_raw i v s) = rx_status s" "rx_len (set_raw i v s) = rx_len s"
  "rx_ff_count (set_raw i v s) = rx_ff_count s" "length (rawdata (set_raw i v s)) = length (rawdata s)"
  "servo_status_err (set_raw i v s) = servo_status_err s"
  "servo_status_det (set_raw i v s) = servo_status_det s"
  "uart (set_raw i v s) = uart s"
  by (simp_all add: set_raw_def)

lemma rx_isr_ready [simp]: "rx_status s = RXS_READY \<Longrightarrow> rx_isr c s = s"
  by (simp add: rx_isr_def)

lemma rx_len_incr: "\<not> 16 \<le> n \<Longrightarrow> n + 1 \<le> (16 :: u8)"
  by unat_arith

lemma rx_isr_inv [inv_intros]: "rx_inv s \<Longrightarrow> rx_inv (rx_isr c s)"
  unfolding rx_inv_def rx_isr_def rx_count_ff_def rx_store_def Let_def
  by (auto simp: rx_len_incr)

lemma ready_size: 
  assumes "rx_inv s" "rx_status s = RXS_READY"
  shows "7 \<le> unat (rx_size s)" "unat (rx_size s) \<le> 18" "unat (rx_size s - 7) = unat (rx_size s) - 7"
proof -
  from assms show 1: "7 \<le> unat (rx_size s)" and "unat (rx_size s) \<le> 18"
    by (auto simp: rx_inv_def word_le_nat_alt)
  from 1 show "unat (rx_size s - 7) = unat (rx_size s) - 7"
    by (subst unat_sub) (simp_all add: word_le_nat_alt)
qed

section \<open>Stores outside of the buffer\<close>

lemma cs1_loop_eq:
  "i \<le> 11 \<Longrightarrow> cs1_loop i n acc s =
     (if i + n \<le> 11 then Ret (fold (\<lambda>j a. a XOR rawdata s ! (5 + j)) [i..<i + n] acc) else Overrun)"
proof (induction n arbitrary: i acc)
  case (Suc n)
  show ?case
  proof (cases "i < 11")
    case True
    then have "cs1_loop i (Suc n) acc s = cs1_loop (Suc i) n (acc XOR rawdata s ! (5 + i)) s"
      by (simp add: get_data_def)
    with Suc.IH [of "Suc i"] True show ?thesis
      by (simp add: upt_conv_Cons del: upt_Suc)
  qed (use Suc.prems in \<open>simp add: get_data_def\<close>)
qed simp

lemma calculate_cs1_Overrun:
  "calculate_cs1 s = Overrun \<longleftrightarrow> 11 < unat (rx_size s - 7)"
  by (simp add: calculate_cs1_def cs1_loop_eq Let_def)

lemma calculate_cs1_not_Spin [simp]: "calculate_cs1 s \<noteq> Spin"
  by (simp add: calculate_cs1_def cs1_loop_eq Let_def)

lemma wait_tx_empty_not_Overrun [simp]: "wait_tx_empty ucsra fuel u \<noteq> Overrun"
  by (induction ucsra fuel u rule: wait_tx_empty.induct) (auto simp: Let_def split: prod.splits)

lemma wait_tx_idle_not_Overrun [simp]: "wait_tx_idle ucsra fuel u \<noteq> Overrun"
  by (induction ucsra fuel u rule: wait_tx_idle.induct) (auto simp: Let_def split: prod.splits)

lemma hwuart_not_Overrun [simp]:
  "hwuart_tx ucsra fuel c u \<noteq> Overrun" "hwuart_tx_enable ucsra fuel e u \<noteq> Overrun"
  by (simp_all add: hwuart_tx_def hwuart_tx_enable_def obind_eq_Overrun)

lemma tx_not_Overrun [simp]:
  "shield_tx ucsra fuel c s \<noteq> Overrun" "enable_tx ucsra fuel s \<noteq> Overrun"
  "disable_tx ucsra fuel s \<noteq> Overrun"
  by (simp_all add: shield_tx_def enable_tx_def disable_tx_def obind_eq_Overrun)

lemma shield_tx_keeps:
  "shield_tx ucsra fuel c s = Ret s' \<Longrightarrow> rawdata s' = rawdata s"
  "enable_tx ucsra fuel s = Ret s' \<Longrightarrow> rawdata s' = rawdata s"
  by (auto simp: shield_tx_def enable_tx_def obind_eq_Ret)

lemma send_loop_not_Overrun: "i + n \<le> 16 \<Longrightarrow> send_loop ucsra fuel i n s \<noteq> Overrun"
  by (induction n arbitrary: i s) (auto simp: obind_eq_Overrun)

lemma unat_minus2: "2 \<le> unat (v :: u8) \<Longrightarrow> unat (v - 2) = unat v - 2"
  by (subst unat_sub) (simp_all add: word_le_nat_alt)

lemma set_raw_size [simp]:
  "0 < i \<Longrightarrow> rx_size (set_raw i v s) = rx_size s"
  "length (rawdata s) = 16 \<Longrightarrow> rx_size (set_raw 0 v s) = v"
  by (simp_all add: set_raw_def)

text \<open>A reply is sent without leaving the buffer exactly when its data part fits.\<close>

lemma send_rx_buffer_Overrun:
  assumes "length (rawdata s) = 16" "7 \<le> unat (rx_size s)"
  shows "send_rx_buffer ucsra fuel s = Overrun \<longleftrightarrow> 18 < unat (rx_size s)"
proof -
  have size7: "unat (rx_size s - 7) = unat (rx_size s) - 7"
    using assms by (subst unat_sub) (simp_all add: word_le_nat_alt)
  show ?thesis
  proof (cases "18 < unat (rx_size s)")
    case True
    then have "calculate_cs1 (set_raw 1 SERVO_ADDR s) = Overrun"
      using size7 by (simp add: calculate_cs1_Overrun)
    with True show ?thesis by (simp add: send_rx_buffer_def)
  next
    case False
    have "unat (rx_size s - 2) \<le> 16"
      using False assms(2) by (simp add: unat_minus2)
    then show ?thesis
      using False size7
      by (auto simp: send_rx_buffer_def Let_def obind_eq_Overrun calculate_cs1_Overrun
          send_loop_not_Overrun dest!: shield_tx_keeps)
  qed
qed

lemma ramwrite_loop_not_Overrun: "i + n \<le> 11 \<Longrightarrow> ramwrite_loop i n a s \<noteq> Overrun"
  by (induction n arbitrary: i a s)
     (auto simp: obind_eq_Overrun get_data_def Let_def split: prod.splits)

lemma ramread_loop_Ret:
  "i + n \<le> 9 \<Longrightarrow> length (rawdata s) = 16 \<Longrightarrow>
     \<exists>s'. ramread_loop i n a s = Ret s' \<and> length (rawdata s') = 16 \<and> rx_size s' = rx_size s"
proof (induction n arbitrary: i a s)
  case (Suc n)
  let ?t = "set_raw (5 + (i + 2)) (handle_ram_read a s) s"
  from Suc.IH [of "Suc i" ?t "a + 1"] Suc.prems show ?case
    by (simp add: put_data_def)
qed simp

lemma put_data_Ret [simp]:
  "put_data i v s = Ret s' \<longleftrightarrow> i < 11 \<and> s' = set_raw (5 + i) v s"
  "put_data i v s = Overrun \<longleftrightarrow> 11 \<le> i" "put_data i v s \<noteq> Spin"
  by (auto simp: put_data_def)

lemma get_data_Ret [simp]:
  "get_data i s = Ret d \<longleftrightarrow> i < 11 \<and> d = rawdata s ! (5 + i)"
  "get_data i s = Overrun \<longleftrightarrow> 11 \<le> i"
  by (auto simp: get_data_def)

lemma handle_STAT_not_Overrun:
  assumes "length (rawdata s) = 16"
  shows "handle_STAT_command ucsra fuel s \<noteq> Overrun"
  using assms by (simp add: handle_STAT_command_def Let_def obind_eq_Overrun send_rx_buffer_Overrun)

lemma handle_RAMWRITE_not_Overrun:
  assumes "rx_inv s" "rx_status s = RXS_READY"
  shows "handle_RAMWRITE_cmd s \<noteq> Overrun"
proof -
  have "2 + (unat (rx_size s - 7) - 2) \<le> 11"
    using ready_size [OF assms] by linarith
  from ramwrite_loop_not_Overrun [OF this] show ?thesis
    by (simp add: handle_RAMWRITE_cmd_def Let_def obind_eq_Overrun)
qed

lemma unat_plus11: "unat (v :: u8) \<le> 9 \<Longrightarrow> unat (v + 11) = unat v + 11"
  by (subst unat_add_lem [THEN iffD1]) simp_all

lemma handle_RAMREAD_Overrun:
  assumes len: "length (rawdata s) = 16"
  shows "handle_RAMREAD_cmd ucsra fuel s = Overrun \<longleftrightarrow> 8 \<le> rawdata s ! 6"
proof -
  define count where "count = clip_count (rawdata s ! 6)"
  have c9: "unat count \<le> 9" by (simp add: count_def clip_count_def)
  define t where "t = set_raw 6 count (set_raw 5 (rawdata s ! 5) (set_raw 2 0x44 (set_raw 0 (count + 11) s)))"
  have t: "length (rawdata t) = 16" "rx_size t = count + 11"
    using len by (simp_all add: t_def)
  from ramread_loop_Ret [of 0 "unat count" t "rawdata s ! 5"] c9 t obtain u where
    u: "ramread_loop 0 (unat count) (rawdata s ! 5) t = Ret u" "length (rawdata u) = 16"
       "rx_size u = count + 11" by auto
  have eq: "handle_RAMREAD_cmd ucsra fuel s =
     obind (put_data (unat count + 1) (servo_status_err u) u) (\<lambda>v.
       obind (put_data (unat count + 2) (servo_status_det v) v) (send_rx_buffer ucsra fuel))"
    using u(1) unfolding handle_RAMREAD_cmd_def
    by (simp add: get_data_def put_data_def Let_def count_def [symmetric] t_def)
  have "handle_RAMREAD_cmd ucsra fuel s = Overrun \<longleftrightarrow> 8 \<le> unat count"
    using u(2,3) c9 unfolding eq
    by (auto simp: obind_eq_Overrun send_rx_buffer_Overrun unat_plus11)
  also have "\<dots> \<longleftrightarrow> 8 \<le> rawdata s ! 6"
    by (auto simp: count_def clip_count_def word_le_nat_alt)
  finally show ?thesis .
qed

lemma verify_ready:
  assumes "rx_inv s" "rx_status s = RXS_READY"
  shows "\<exists>ok. verify_rx_checksum s = Ret ok"
proof -
  have "calculate_cs1 s \<noteq> Overrun"
    using ready_size [OF assms] by (simp add: calculate_cs1_Overrun)
  then show ?thesis
    by (cases "calculate_cs1 s") (auto simp: verify_rx_checksum_def)
qed

lemma packet_overrun:
  assumes "rx_inv s"
  shows "handle_packet ucsra fuel s = Overrun \<longleftrightarrow>
     rx_status s = RXS_READY \<and> verify_rx_checksum s = Ret True \<and>
     rx_cmd s = 0x04 \<and> rx_size s = 9 \<and> 8 \<le> rawdata s ! 6"
proof (cases "rx_status s = RXS_READY")
  case True
  from verify_ready [OF assms True] obtain ok where ok: "verify_rx_checksum s = Ret ok" by blast
  have len: "length (rawdata s) = 16" using assms by (simp add: rx_inv_def)
  show ?thesis
    using True ok handle_STAT_not_Overrun [OF len] handle_RAMWRITE_not_Overrun [OF assms True]
      handle_RAMREAD_Overrun [OF len]
    by (auto simp: handle_packet_def obind_eq_Overrun)
qed (simp add: handle_packet_def)

text \<open>C1 (safety). The receive buffer is left in one case only. Whatever bytes came in through the
  interrupt (\<open>rx_inv\<close> is all that is assumed), the handling of a packet reads or writes outside of
  \<open>rx\<close> exactly when the packet is a valid RAM READ that asks for eight or more registers.\<close>

theorem handle_packet_overrun_iff:
  assumes "rx_inv s"
  shows "handle_packet ucsra fuel s = Overrun \<longleftrightarrow>
     rx_status s = RXS_READY \<and> verify_rx_checksum s = Ret True \<and>
     rx_cmd s = 0x04 \<and> rx_size s = 9 \<and> 8 \<le> rawdata s ! 6"
  by (rule packet_overrun [OF assms])

text \<open>A shield with a given receive buffer, for the examples.\<close>

definition idle_uart :: uart where
  "idle_uart = \<lparr>UBRR = 16, UCSRA = 2, UCSRB = 0x90, UCSRC = 0x0E, tx_busy_flag = 0, tx_data = [],
     a_reads = 0\<rparr>"

definition shield_with :: "u8 list \<Rightarrow> shield" where
  "shield_with raw =
     \<lparr>rawdata = raw, rx_len = raw ! 0 - 2, rx_ff_count = 0, rx_status = RXS_READY,
      servo_status_err = 0, servo_status_det = 0, servo_leds = 0, servo_leds_timeout = 0,
      servo_fire_time = 0, servo_fire_pwm = 0, servo_agitator_pwm = 0, PORTC = 0x2B, DDRD = 0x30,
      OCR1A = 0, OCR1B = 0, step = 0, uart = idle_uart\<rparr>"

definition read8_packet :: "u8 list" where
  "read8_packet = [9, 99, 4, 0x66, 0x98, 0, 8] @ replicate 9 0"

lemma read8_inv: "rx_inv (shield_with read8_packet)"
  by (simp add: rx_inv_def shield_with_def read8_packet_def)

lemma read8_checksum: "verify_rx_checksum (shield_with read8_packet) = Ret True"
  by (simp add: verify_rx_checksum_def calculate_cs1_def cs1_loop_eq shield_with_def read8_packet_def)

theorem handle_packet_overrun_iff_witness:
  "rx_inv (shield_with read8_packet) \<and>
   handle_packet (\<lambda>_. 0x60) 1 (shield_with read8_packet) = Overrun"
proof -
  have "handle_packet (\<lambda>_. 0x60) 1 (shield_with read8_packet) = Overrun"
    using read8_checksum
    by (simp add: handle_packet_overrun_iff [OF read8_inv]) (simp add: shield_with_def read8_packet_def)
  with read8_inv show ?thesis by blast
qed

section \<open>Assembling a packet\<close>

text \<open>A packet body (what follows the two synchronisation bytes) that the protocol can carry: its
  first byte counts the body and the synchronisation bytes, it is addressed to this device or to
  all, and no two neighbours are \<open>0xFF\<close>, which would be read as a new synchronisation.\<close>

definition frame_ok :: "u8 list \<Rightarrow> bool" where
  "frame_ok body \<longleftrightarrow>
     5 \<le> length body \<and> length body \<le> 16 \<and> unat (body ! 0) = length body + 2 \<and>
     (body ! 1 = SERVO_ADDR \<or> body ! 1 = 0xFE) \<and>
     (\<forall>i < length body - 1. \<not> (body ! i = 0xFF \<and> body ! Suc i = 0xFF))"

definition rx_run :: "u8 list \<Rightarrow> shield \<Rightarrow> shield" where
  "rx_run cs s = fold rx_isr cs s"

text \<open>The state after \<open>k\<close> bytes of the body.\<close>

definition receiving :: "u8 list \<Rightarrow> nat \<Rightarrow> shield \<Rightarrow> bool" where
  "receiving body k s \<longleftrightarrow>
     length (rawdata s) = 16 \<and> rx_status s = RXS_RX \<and> unat (rx_len s) = k \<and>
     take k (rawdata s) = take k body \<and>
     (0 < k \<longrightarrow> rx_ff_count s = (if body ! (k - 1) = 0xFF then 1 else 0))"

lemma take_Suc_update:
  "k < length xs \<Longrightarrow> k < length ys \<Longrightarrow> take k xs = take k ys \<Longrightarrow>
     take (Suc k) (xs[k := ys ! k]) = take (Suc k) ys"
  by (simp add: take_Suc_conv_app_nth)

lemma unat_succ_len: "unat (n :: u8) = k \<Longrightarrow> k < 16 \<Longrightarrow> unat (n + 1) = Suc k"
  by (subst unat_add_lem [THEN iffD1]) simp_all

lemma rx_isr_body_byte:
  assumes "frame_ok body" "receiving body k s" "k < length body"
  defines "s' \<equiv> rx_isr (body ! k) s"
  shows "if Suc k = length body
         then rx_status s' = RXS_READY \<and> length (rawdata s') = 16 \<and>
              take (length body) (rawdata s') = body \<and> unat (rx_len s') = length body
         else receiving body (Suc k) s'"
proof -
  note f = assms(1) [unfolded frame_ok_def] and r = assms(2) [unfolded receiving_def]
  let ?c = "body ! k"
  define s1 where "s1 = rx_count_ff ?c s"
  have keep1: "rx_len s1 = rx_len s" "rx_status s1 = rx_status s" "rawdata s1 = rawdata s"
    by (simp_all add: s1_def rx_count_ff_def)
  define s2 where "s2 = (set_raw (unat (rx_len s1)) ?c s1)\<lparr>rx_len := rx_len s1 + 1\<rparr>"
  have size_not_ff: "body ! 0 \<noteq> 0xFF" using f by auto
  have nosync: "\<not> (?c = 0xFF \<and> 2 \<le> rx_ff_count s1)"
  proof (cases k)
    case 0
    with size_not_ff show ?thesis by simp
  next
    case (Suc j)
    with f r assms(3) show ?thesis by (auto simp: s1_def rx_count_ff_def word_le_nat_alt)
  qed
  have ff: "rx_ff_count s2 = (if ?c = 0xFF then 1 else 0)"
  proof (cases k)
    case 0
    with size_not_ff show ?thesis by (simp add: s2_def s1_def rx_count_ff_def)
  next
    case (Suc j)
    with f r assms(3) show ?thesis by (auto simp: s2_def s1_def rx_count_ff_def)
  qed
  have len2: "unat (rx_len s2) = Suc k"
    using r f assms(3) by (simp add: s2_def keep1 unat_succ_len)
  have raw2: "take (Suc k) (rawdata s2) = take (Suc k) body" "length (rawdata s2) = 16"
    using r f assms(3) by (simp_all add: s2_def keep1 set_raw_def take_Suc_update)
  have size2: "rx_size s2 = body ! 0"
    using raw2(1) by (metis nth_take zero_less_Suc)
  have fits: "\<not> 16 \<le> rx_len s1"
    using r f assms(3) by (simp add: keep1 word_le_nat_alt)
  have "s' = rx_store ?c s1"
    unfolding s'_def rx_isr_def Let_def s1_def [symmetric] if_not_P [OF nosync]
    using r keep1(2) by simp
  also have "\<dots> = (if rx_len s2 = 2 \<and> ?c \<noteq> SERVO_ADDR \<and> ?c \<noteq> 0xFE then s2\<lparr>rx_status := RXS_BAD\<rparr>
       else if 5 \<le> rx_len s2 \<and> unat (rx_len s2) + 2 = unat (rx_size s2)
       then s2\<lparr>rx_status := RXS_READY\<rparr> else s2)"
    unfolding rx_store_def if_not_P [OF fits] Let_def s2_def [symmetric] ..
  finally have s': "s' = \<dots>" .
  have "rx_len s2 = 2 \<Longrightarrow> k = 1"
    using len2 by simp
  then have no_bad: "\<not> (rx_len s2 = 2 \<and> ?c \<noteq> SERVO_ADDR \<and> ?c \<noteq> 0xFE)"
    using f by auto
  have ready: "5 \<le> rx_len s2 \<and> unat (rx_len s2) + 2 = unat (rx_size s2) \<longleftrightarrow> Suc k = length body"
    using f len2 by (auto simp: size2 word_le_nat_alt)
  show ?thesis
    using r raw2 len2 ff ready no_bad
    by (auto simp: s' receiving_def s2_def keep1)
qed

lemma receive_prefix:
  assumes "frame_ok body" "receiving body 0 s" "k < length body"
  shows "receiving body k (rx_run (take k body) s)"
  using assms(3)
proof (induction k)
  case 0
  with assms(2) show ?case by (simp add: rx_run_def)
next
  case (Suc k)
  then have "receiving body k (rx_run (take k body) s)" by simp
  from rx_isr_body_byte [OF assms(1) this] Suc.prems show ?case
    by (simp add: rx_run_def take_Suc_conv_app_nth)
qed

lemma receive_body:
  assumes "frame_ok body" "receiving body 0 s"
  shows "rx_status (rx_run body s) = RXS_READY" "length (rawdata (rx_run body s)) = 16"
    "take (length body) (rawdata (rx_run body s)) = body" "unat (rx_len (rx_run body s)) = length body"
proof -
  have n: "5 \<le> length body" using assms(1) by (simp add: frame_ok_def)
  then obtain k where k: "length body = Suc k" by (cases "length body") auto
  have split: "body = take k body @ [body ! k]"
    using k by (metis lessI take_Suc_conv_app_nth take_all_iff order_refl)
  have "receiving body k (rx_run (take k body) s)"
    using receive_prefix [OF assms] k by simp
  from rx_isr_body_byte [OF assms(1) this] k
  have *: "rx_run body s = rx_isr (body ! k) (rx_run (take k body) s)"
    by (subst split) (simp add: rx_run_def)
  from rx_isr_body_byte [OF assms(1) \<open>receiving body k _\<close>] k
  show "rx_status (rx_run body s) = RXS_READY" "length (rawdata (rx_run body s)) = 16"
    "take (length body) (rawdata (rx_run body s)) = body" "unat (rx_len (rx_run body s)) = length body"
    by (simp_all add: *)
qed

lemma sync_receiving:
  assumes "rx_status s = RXS_BAD" "length (rawdata s) = 16" "rx_ff_count s \<le> 253"
  shows "receiving body 0 (rx_run [0xFF, 0xFF] s)"
proof -
  have b: "2 \<le> rx_ff_count s + 2"
    using assms(3) by (simp add: word_le_nat_alt unat_word_ariths)
  then show ?thesis
    using assms
    by (auto simp: rx_run_def receiving_def rx_isr_def rx_count_ff_def Let_def add.assoc)
qed

text \<open>Packet assembly: a device that waits for a packet and receives the two
  synchronisation bytes and a body the protocol can carry ends with exactly that body in its
  buffer, marked ready for the main loop.\<close>

theorem rx_run_frame:
  assumes "rx_status s = RXS_BAD" "length (rawdata s) = 16" "rx_ff_count s \<le> 253" "frame_ok body"
  shows "rx_status (rx_run ([0xFF, 0xFF] @ body) s) = RXS_READY \<and>
     take (length body) (rawdata (rx_run ([0xFF, 0xFF] @ body) s)) = body"
proof -
  have "rx_run ([0xFF, 0xFF] @ body) s = rx_run body (rx_run [0xFF, 0xFF] s)"
    by (simp add: rx_run_def)
  then show ?thesis
    using receive_body [OF assms(4) sync_receiving [OF assms(1-3)]] by simp
qed

definition stat_frame :: "u8 list" where
  "stat_frame = [7, 99, 7, 0x62, 0x9C]"

lemma stat_frame_ok: "frame_ok stat_frame"
  by (auto simp: frame_ok_def stat_frame_def SERVO_ADDR_def nth_Cons split: nat.splits)

theorem rx_run_frame_witness:
  "frame_ok stat_frame \<and>
   rx_status (rx_run ([0xFF, 0xFF] @ stat_frame)
     ((shield_with (replicate 16 0))\<lparr>rx_status := RXS_BAD\<rparr>)) = RXS_READY"
  using stat_frame_ok
    rx_run_frame [of "(shield_with (replicate 16 0))\<lparr>rx_status := RXS_BAD\<rparr>" stat_frame]
  by (simp add: shield_with_def)

section \<open>Replies\<close>

lemma shield_tx_Ret:
  assumes "shield_tx ucsra fuel c s = Ret s'" "hwuart_tx_is_enabled (uart s)"
  shows "rawdata s' = rawdata s \<and> tx_data (uart s') = tx_data (uart s) @ [c] \<and>
    hwuart_tx_is_enabled (uart s')"
  using assms hwuart_tx_Ret [of ucsra fuel c "uart s"]
  by (auto simp: shield_tx_def obind_eq_Ret hwuart_tx_is_enabled_def)

lemma send_loop_Ret:
  assumes "send_loop ucsra fuel i n s = Ret s'" "hwuart_tx_is_enabled (uart s)"
  shows "rawdata s' = rawdata s \<and> hwuart_tx_is_enabled (uart s') \<and>
    tx_data (uart s') = tx_data (uart s) @ map ((!) (rawdata s)) [i..<i + n]"
  using assms
proof (induction n arbitrary: i s)
  case (Suc n)
  then obtain t where t: "shield_tx ucsra fuel (rawdata s ! i) s = Ret t"
    "send_loop ucsra fuel (Suc i) n t = Ret s'"
    by (auto simp: obind_eq_Ret split: if_splits)
  from shield_tx_Ret [OF t(1) Suc.prems(2)] Suc.IH [OF t(2)] show ?case
    by (simp add: upt_conv_Cons del: upt_Suc)
qed simp

lemma enable_tx_Ret:
  assumes "enable_tx ucsra fuel s = Ret s'"
  shows "rawdata s' = rawdata s \<and> tx_data (uart s') = tx_data (uart s) \<and>
    hwuart_tx_is_enabled (uart s')"
  using assms
  by (auto simp: enable_tx_def hwuart_tx_enable_def hwuart_tx_is_enabled_def bit_test_iff bit_bit_on)

lemma disable_tx_Ret:
  assumes "disable_tx ucsra fuel s = Ret s'"
  shows "rawdata s' = rawdata s \<and> tx_data (uart s') = tx_data (uart s) \<and>
    \<not> hwuart_tx_is_enabled (uart s')"
  using assms wait_tx_idle_keeps [of ucsra fuel "uart s"]
  by (auto simp: disable_tx_def hwuart_tx_enable_def hwuart_tx_is_enabled_def bit_test_iff
      bit_bit_off obind_eq_Ret split: if_splits)

text \<open>The buffer that is sent: the address and the checksums are filled in.\<close>

definition reply_raw :: "u8 \<Rightarrow> u8 list \<Rightarrow> u8 list" where
  "reply_raw cs1 raw = raw[1 := SERVO_ADDR, 3 := cs1 AND 0xFE, 4 := (cs1 XOR 0xFF) AND 0xFE]"

lemma send_rx_buffer_Ret:
  assumes "send_rx_buffer ucsra fuel s = Ret s'"
  shows "\<exists>cs1. calculate_cs1 (set_raw 1 SERVO_ADDR s) = Ret cs1 \<and>
     rawdata s' = reply_raw cs1 (rawdata s) \<and> \<not> hwuart_tx_is_enabled (uart s') \<and>
     tx_data (uart s') = tx_data (uart s) @ [0xFF, 0xFF] @
       map ((!) (reply_raw cs1 (rawdata s))) [0..<unat (rx_size s - 2)] @ [0]"
proof -
  from assms obtain cs1 s1 s2 s3 s4 s5 where
    cs: "calculate_cs1 (set_raw 1 SERVO_ADDR s) = Ret cs1" and
    s1: "enable_tx ucsra fuel (set_raw 4 ((cs1 XOR 0xFF) AND 0xFE)
           (set_raw 3 (cs1 AND 0xFE) (set_raw 1 SERVO_ADDR s))) = Ret s1" and
    s2: "shield_tx ucsra fuel 0xFF s1 = Ret s2" and s3: "shield_tx ucsra fuel 0xFF s2 = Ret s3" and
    s4: "send_loop ucsra fuel 0 (unat (rx_size s3 - 2)) s3 = Ret s4" and
    s5: "shield_tx ucsra fuel 0 s4 = Ret s5" and s6: "disable_tx ucsra fuel s5 = Ret s'"
    by (auto simp: send_rx_buffer_def Let_def obind_eq_Ret)
  note e = enable_tx_Ret [OF s1]
  from e have e1: "rawdata s1 = reply_raw cs1 (rawdata s)" "tx_data (uart s1) = tx_data (uart s)"
    by (simp_all add: set_raw_def reply_raw_def)
  note t2 = shield_tx_Ret [OF s2 e [THEN conjunct2, THEN conjunct2]]
  note t3 = shield_tx_Ret [OF s3 t2 [THEN conjunct2, THEN conjunct2]]
  note t4 = send_loop_Ret [OF s4 t3 [THEN conjunct2, THEN conjunct2]]
  note t5 = shield_tx_Ret [OF s5 t4 [THEN conjunct2, THEN conjunct1]]
  note t6 = disable_tx_Ret [OF s6]
  have "rx_size s3 = rx_size s"
    using e1 t2 t3 by (simp add: reply_raw_def)
  with cs e1 t2 t3 t4 t5 t6 show ?thesis
    by (intro exI [of _ cs1]) auto
qed

lemma calculate_cs1_cong:
  assumes nth: "\<And>i. i < unat (rx_size s) - 2 \<Longrightarrow> i \<noteq> 3 \<Longrightarrow> i \<noteq> 4 \<Longrightarrow> rawdata s ! i = rawdata t ! i"
    and "7 \<le> unat (rx_size s)"
  shows "calculate_cs1 s = calculate_cs1 t"
proof -
  have sz: "rx_size t = rx_size s" "rx_pID t = rx_pID s" "rx_cmd t = rx_cmd s"
    using nth [of 0] nth [of 1] nth [of 2] assms(2) by auto
  have e: "unat (rx_size s - 7) = unat (rx_size s) - 7"
    using assms(2) by (subst unat_sub) (simp_all add: word_le_nat_alt)
  have data: "rawdata s ! (5 + j) = rawdata t ! (5 + j)" if "j < unat (rx_size s - 7)" for j
    by (rule nth) (use that e in auto)
  have "fold (\<lambda>j a. a XOR rawdata s ! (5 + j)) [0..<0 + unat (rx_size s - 7)] x =
        fold (\<lambda>j a. a XOR rawdata t ! (5 + j)) [0..<0 + unat (rx_size s - 7)] x" for x
    by (intro fold_cong refl ext) (simp add: data)
  then show ?thesis
    by (simp add: calculate_cs1_def cs1_loop_eq Let_def sz [unfolded One_nat_def])
qed

definition no_ff_pair :: "u8 list \<Rightarrow> bool" where
  "no_ff_pair body \<longleftrightarrow> (\<forall>i < length body - 1. \<not> (body ! i = 0xFF \<and> body ! Suc i = 0xFF))"

lemma map_nth_upt: "n \<le> length xs \<Longrightarrow> map ((!) xs) [0..<n] = take n xs"
  by (rule nth_equalityI) auto

text \<open>What \<open>send_rx_buffer\<close> puts on the wire is a packet that the receive
  interrupt of such a device accepts: the bytes sent are two synchronisation bytes, the first
  \<open>size - 2\<close> bytes of the buffer and a filler; a waiting device that receives them has the packet
  ready, and the checksum test of its main loop succeeds. The hypothesis \<open>no_ff_pair\<close> is a limit of
  the protocol: two neighbouring \<open>0xFF\<close> bytes would restart the reception.\<close>

theorem reply_accepted:
  assumes sent: "send_rx_buffer ucsra fuel s = Ret s'"
    and len: "length (rawdata s) = 16" and size: "7 \<le> unat (rx_size s)" "unat (rx_size s) \<le> 18"
    and body: "body = take (unat (rx_size s) - 2) (rawdata s')" "no_ff_pair body"
    and recv: "rx_status r = RXS_BAD" "length (rawdata r) = 16" "rx_ff_count r \<le> 253"
  shows "tx_data (uart s') = tx_data (uart s) @ [0xFF, 0xFF] @ body @ [0] \<and>
     rx_status (rx_run ([0xFF, 0xFF] @ body) r) = RXS_READY \<and>
     verify_rx_checksum (rx_run ([0xFF, 0xFF] @ body) r) = Ret True"
proof -
  from send_rx_buffer_Ret [OF sent] obtain cs1 where
    cs: "calculate_cs1 (set_raw 1 SERVO_ADDR s) = Ret cs1" and
    raw: "rawdata s' = reply_raw cs1 (rawdata s)" and
    tx: "tx_data (uart s') = tx_data (uart s) @ [0xFF, 0xFF] @
       map ((!) (reply_raw cs1 (rawdata s))) [0..<unat (rx_size s - 2)] @ [0]" by blast
  have size2: "unat (rx_size s - 2) = unat (rx_size s) - 2"
    using size by (simp add: unat_minus2)
  have rawlen: "length (rawdata s') = 16" and sz: "rx_size s' = rx_size s"
    using raw len by (simp_all add: reply_raw_def)
  have blen: "length body = unat (rx_size s) - 2" using body(1) rawlen size by simp
  have nth: "body ! i = rawdata s' ! i" if "i < unat (rx_size s) - 2" for i
    using that body(1) by simp
  have "frame_ok body"
    using body(2) blen nth [of 0] nth [of 1] size len raw sz
    by (auto simp: frame_ok_def no_ff_pair_def reply_raw_def)
  let ?q = "rx_run ([0xFF, 0xFF] @ body) r"
  have q: "?q = rx_run body (rx_run [0xFF, 0xFF] r)" by (simp add: rx_run_def)
  note got = receive_body [OF \<open>frame_ok body\<close> sync_receiving [OF recv], folded q]
  have qn: "rawdata ?q ! i = rawdata s' ! i" if "i < unat (rx_size s) - 2" for i
    using got(3) that blen nth by (metis nth_take)
  have qs: "rx_size ?q = rx_size s" using qn [of 0] size sz by simp
  have qc: "rx_cs1 ?q = cs1 AND 0xFE" "rx_cs2 ?q = (cs1 XOR 0xFF) AND 0xFE"
    using qn [of 3] qn [of 4] size len by (simp_all add: raw reply_raw_def)
  have same: "rawdata ?q ! i = rawdata (set_raw 1 SERVO_ADDR s) ! i"
    if "i < unat (rx_size ?q) - 2" "i \<noteq> 3" "i \<noteq> 4" for i
    using qn [of i] qs that by (simp add: raw reply_raw_def set_raw_def nth_list_update)
  have "calculate_cs1 ?q = calculate_cs1 (set_raw 1 SERVO_ADDR s)"
    by (rule calculate_cs1_cong) (fact same, use size qs in simp)
  then have "verify_rx_checksum ?q = Ret True"
    using qc cs by (simp add: verify_rx_checksum_def)
  moreover have "tx_data (uart s') = tx_data (uart s) @ [0xFF, 0xFF] @ body @ [0]"
    using tx size2 body(1) raw rawlen size by (simp add: map_nth_upt)
  ultimately show ?thesis using got(1) by blast
qed

text \<open>With a transmitter that drains, the reply goes out: no wait of the driver lasts forever.\<close>

lemma shield_tx_ready:
  assumes "always_ready ucsra" "0 < fuel" "hwuart_tx_is_enabled (uart s)"
  shows "\<exists>s'. shield_tx ucsra fuel c s = Ret s' \<and> rawdata s' = rawdata s \<and> hwuart_tx_is_enabled (uart s')"
  using hwuart_tx_ready [OF assms, of c] hwuart_tx_Ret [of ucsra fuel c "uart s"] assms(3)
  by (auto simp: shield_tx_def hwuart_tx_is_enabled_def)

lemma send_loop_ready:
  assumes "always_ready ucsra" "0 < fuel" "hwuart_tx_is_enabled (uart s)" "i + n \<le> 16"
  shows "\<exists>s'. send_loop ucsra fuel i n s = Ret s' \<and> hwuart_tx_is_enabled (uart s')"
  using assms(3,4)
proof (induction n arbitrary: i s)
  case (Suc n)
  from shield_tx_ready [OF assms(1,2) Suc.prems(1)] obtain t where
    "shield_tx ucsra fuel (rawdata s ! i) s = Ret t" "hwuart_tx_is_enabled (uart t)" by blast
  with Suc.IH [of t "Suc i"] Suc.prems show ?case by auto
qed simp

lemma disable_tx_ready:
  assumes "always_ready ucsra" "0 < fuel"
  shows "\<exists>s'. disable_tx ucsra fuel s = Ret s'"
  using wait_tx_idle_ready [OF assms, of "uart s"]
  by (auto simp: disable_tx_def hwuart_tx_enable_def)

lemma send_rx_buffer_ready:
  assumes rdy: "always_ready ucsra" "0 < fuel"
    and size: "7 \<le> unat (rx_size s)" "unat (rx_size s) \<le> 18"
  shows "\<exists>s'. send_rx_buffer ucsra fuel s = Ret s'"
proof -
  have "calculate_cs1 (set_raw 1 SERVO_ADDR s) \<noteq> Overrun"
    using size by (simp add: calculate_cs1_Overrun unat_sub word_le_nat_alt)
  then obtain cs1 where cs: "calculate_cs1 (set_raw 1 SERVO_ADDR s) = Ret cs1"
    by (cases "calculate_cs1 (set_raw 1 SERVO_ADDR s)") auto
  let ?s = "set_raw 4 ((cs1 XOR 0xFF) AND 0xFE) (set_raw 3 (cs1 AND 0xFE) (set_raw 1 SERVO_ADDR s))"
  obtain s1 where s1: "enable_tx ucsra fuel ?s = Ret s1"
    by (simp add: enable_tx_def hwuart_tx_enable_def)
  note e1 = enable_tx_Ret [OF s1]
  from shield_tx_ready [OF rdy, of s1] e1 obtain s2 where s2: "shield_tx ucsra fuel 0xFF s1 = Ret s2"
    "rawdata s2 = rawdata s1" "hwuart_tx_is_enabled (uart s2)" by blast
  from shield_tx_ready [OF rdy s2(3)] obtain s3 where s3: "shield_tx ucsra fuel 0xFF s2 = Ret s3"
    "rawdata s3 = rawdata s2" "hwuart_tx_is_enabled (uart s3)" by blast
  have "rx_size s3 = rx_size s" using s2 s3 e1 by simp
  then have "0 + unat (rx_size s3 - 2) \<le> 16" using size by (simp add: unat_minus2)
  from send_loop_ready [OF rdy s3(3) this] obtain s4 where
    s4: "send_loop ucsra fuel 0 (unat (rx_size s3 - 2)) s3 = Ret s4" "hwuart_tx_is_enabled (uart s4)"
    by blast
  from shield_tx_ready [OF rdy s4(2)] obtain s5 where s5: "shield_tx ucsra fuel 0 s4 = Ret s5" by blast
  from disable_tx_ready [OF rdy] show ?thesis
    using cs s1 s2 s3 s4 s5 by (simp add: send_rx_buffer_def Let_def)
qed

definition stat_reply :: "u8 list" where
  "stat_reply = [9, 99, 0x47, 0, 0, 0, 0] @ replicate 9 0"

lemma always_ready_60: "always_ready (\<lambda>_. 0x60)"
  by (simp add: always_ready_def bit_numeral_rec)

theorem reply_accepted_witness:
  "\<exists>s' body. send_rx_buffer (\<lambda>_. 0x60) 1 (shield_with stat_reply) = Ret s' \<and>
     body = [9, 99, 0x47, 0x2C, 0xD2, 0, 0] \<and>
     tx_data (uart s') = [0xFF, 0xFF] @ body @ [0] \<and>
     verify_rx_checksum (rx_run ([0xFF, 0xFF] @ body)
       ((shield_with (replicate 16 0))\<lparr>rx_status := RXS_BAD\<rparr>)) = Ret True"
proof -
  let ?s = "shield_with stat_reply" and ?r = "(shield_with (replicate 16 0))\<lparr>rx_status := RXS_BAD\<rparr>"
  have raw: "length (rawdata ?s) = 16" "rx_size ?s = 9"
    by (simp_all add: shield_with_def stat_reply_def)
  then obtain s' where s': "send_rx_buffer (\<lambda>_. 0x60) 1 ?s = Ret s'"
    using send_rx_buffer_ready [OF always_ready_60, of 1 ?s] by auto
  have cs: "calculate_cs1 (set_raw 1 SERVO_ADDR ?s) = Ret 0x2D"
    by (simp add: calculate_cs1_def cs1_loop_eq set_raw_def SERVO_ADDR_def shield_with_def
        stat_reply_def)
  then have "rawdata s' = reply_raw 0x2D stat_reply"
    using send_rx_buffer_Ret [OF s'] by (simp add: shield_with_def)
  then have body: "take (unat (rx_size ?s) - 2) (rawdata s') = [9, 99, 0x47, 0x2C, 0xD2, 0, 0]"
    using raw by (simp add: reply_raw_def stat_reply_def SERVO_ADDR_def)
  have nf: "no_ff_pair [9, 99, 0x47, 0x2C, 0xD2, 0, 0]"
    by (auto simp: no_ff_pair_def nth_Cons split: nat.splits)
  have r: "rx_status ?r = RXS_BAD" "length (rawdata ?r) = 16" "rx_ff_count ?r \<le> 253"
    by (simp_all add: shield_with_def)
  show ?thesis
    using reply_accepted [OF s' raw(1) _ _ body [symmetric] nf r] s' raw(2)
    by (auto simp: shield_with_def idle_uart_def)
qed

section \<open>Timeouts\<close>

lemma expire_simps [frame_simps]:
  "servo_fire_time (handle_tick s) = (if servo_fire_time s = 0 then 0 else servo_fire_time s - 1)"
  "servo_fire_pwm (handle_tick s) = (if servo_fire_time s = 0 then 0 else servo_fire_pwm s)"
  "servo_leds_timeout (handle_tick s) =
     (if servo_leds_timeout s = 0 then 0 else servo_leds_timeout s - 1)"
  "servo_agitator_pwm (handle_tick s) =
     (if servo_leds_timeout s = 0 then 0 else servo_agitator_pwm s)"
  "OCR1B (handle_tick s) = ucast (servo_fire_pwm s)"
  "OCR1A (handle_tick s) = ucast (if servo_leds_timeout s = 0 then 0 else servo_agitator_pwm s)"
  by (simp_all add: handle_tick_def blink_def expire_fire_def expire_leds_def apply_servo_values_def
      Let_def)

lemma unat_dec: "v \<noteq> 0 \<Longrightarrow> unat (v - 1 :: u8) = unat v - 1"
  by (subst unat_sub) (simp_all add: word_le_nat_alt Suc_le_eq unat_gt_0)

lemma ticks_fire:
  "OCR1B ((handle_tick ^^ Suc n) s) =
     (if n \<le> unat (servo_fire_time s) then ucast (servo_fire_pwm s) else 0)"
proof (induction n arbitrary: s)
  case (Suc n)
  show ?case
    using Suc.IH [of "handle_tick s"] unat_dec [of "servo_fire_time s"]
    by (auto simp: funpow_swap1 expire_simps unat_eq_0 [symmetric])
qed (simp add: expire_simps)

lemma ticks_agitator:
  "OCR1A ((handle_tick ^^ Suc n) s) =
     (if n < unat (servo_leds_timeout s) then ucast (servo_agitator_pwm s) else 0)"
proof (induction n arbitrary: s)
  case (Suc n)
  show ?case
    using Suc.IH [of "handle_tick s"] unat_dec [of "servo_leds_timeout s"]
    by (auto simp: funpow_swap1 expire_simps unat_eq_0 [symmetric])
qed (auto simp: expire_simps unat_gt_0)

text \<open>The motor watchdogs, with no packet coming in: after \<open>n + 1\<close> ticks of 10 ms
  the fire motor still runs with the requested duty cycle exactly when \<open>n\<close> is at most the fire time,
  and the agitator exactly when \<open>n\<close> is below the LED timeout; afterwards both duty cycles are
  zero. (With a fire time of zero the fire motor is still driven for one tick.)\<close>

theorem motor_watchdog:
  "OCR1B ((handle_tick ^^ Suc n) s) =
     (if n \<le> unat (servo_fire_time s) then ucast (servo_fire_pwm s) else 0) \<and>
   OCR1A ((handle_tick ^^ Suc n) s) =
     (if n < unat (servo_leds_timeout s) then ucast (servo_agitator_pwm s) else 0)"
  using ticks_fire ticks_agitator by blast

section \<open>The contents of a RAM READ reply\<close>

lemma handle_ram_read_raw [simp]: "handle_ram_read a (s\<lparr>rawdata := r\<rparr>) = handle_ram_read a s"
  by (simp add: handle_ram_read_def)

definition regs :: "u8 \<Rightarrow> nat \<Rightarrow> shield \<Rightarrow> u8 list" where
  "regs a n s = map (\<lambda>j. handle_ram_read (a + of_nat j) s) [0..<n]"

lemma regs_Suc: "regs a (Suc n) s = handle_ram_read a s # regs (a + 1) n s"
  by (simp add: regs_def upt_conv_Cons map_Suc_upt [symmetric] add.assoc del: upt_Suc)

lemma length_regs [simp]: "length (regs a n s) = n"
  by (simp add: regs_def)

lemma regs_raw [simp]: "regs a n (s\<lparr>rawdata := r\<rparr>) = regs a n s"
  by (simp add: regs_def)

lemma take_update_snoc: "k < length xs \<Longrightarrow> take (Suc k) (xs[k := v]) = take k xs @ [v]"
  by (simp add: take_Suc_conv_app_nth)

lemma ramread_loop_eq:
  "i + n \<le> 9 \<Longrightarrow> length (rawdata s) = 16 \<Longrightarrow>
   ramread_loop i n a s =
     Ret (s\<lparr>rawdata := take (7 + i) (rawdata s) @ regs a n s @ drop (7 + i + n) (rawdata s)\<rparr>)"
proof (induction n arbitrary: i a s)
  case 0
  then show ?case by (simp add: regs_def)
next
  case (Suc n)
  let ?t = "set_raw (5 + (i + 2)) (handle_ram_read a s) s"
  have "ramread_loop i (Suc n) a s = ramread_loop (Suc i) n (a + 1) ?t"
    using Suc.prems by (simp add: put_data_def)
  also have "\<dots> = Ret (?t\<lparr>rawdata := take (7 + Suc i) (rawdata ?t) @ regs (a + 1) n ?t
      @ drop (7 + Suc i + n) (rawdata ?t)\<rparr>)"
    using Suc.prems by (intro Suc.IH) simp_all
  also have "\<dots> = Ret (s\<lparr>rawdata := take (7 + i) (rawdata s) @ regs a (Suc n) s
      @ drop (7 + i + Suc n) (rawdata s)\<rparr>)"
    using Suc.prems take_update_snoc [of "7 + i" "rawdata s" "handle_ram_read a s"]
    by (simp add: set_raw_def regs_Suc drop_update_cancel ac_simps)
  finally show ?case .
qed

lemma reply_raw_data [simp]: "drop 5 (reply_raw cs1 raw) = drop 5 raw"
  by (simp add: reply_raw_def drop_update_cancel)

lemma overwrite_last_two:
  assumes "length xs = Suc k" "2 \<le> length ys"
  shows "take (k + 3) ((xs @ ys)[k := e, Suc k := d]) = take k xs @ [e, d, ys ! 1]"
proof -
  from assms(1) obtain us x where xs: "xs = us @ [x]" "length us = k"
    by (metis length_append_singleton length_Suc_conv_rev)
  from assms(2) obtain y z zs where ys: "ys = y # z # zs"
    by (cases ys) (auto simp: neq_Nil_conv Suc_le_eq numeral_2_eq_2)
  have "k + 3 = length (us @ [e, d, z])" using xs by simp
  then show ?thesis using xs by (simp add: ys list_update_append)
qed

text \<open>The buffer a request for fewer than eight registers sends.\<close>

lemma handle_RAMREAD_send:
  assumes len: "length (rawdata s) = 16" and count: "count = rawdata s ! 6" "count < 8"
  shows "\<exists>v. handle_RAMREAD_cmd ucsra fuel s = send_rx_buffer ucsra fuel v \<and>
     length (rawdata v) = 16 \<and> rx_size v = count + 11 \<and>
     take (unat count + 4) (drop 5 (rawdata v)) =
       take (unat count + 1) ([rawdata s ! 5, count] @ regs (rawdata s ! 5) (unat count) s)
       @ [servo_status_err s, servo_status_det s, rawdata s ! (unat count + 8)]"
proof -
  let ?a = "rawdata s ! 5" and ?n = "unat count"
  have n7: "?n \<le> 7" using count(2) by unat_arith
  have clip: "clip_count count = count" using n7 by (simp add: clip_count_def)
  define t where "t = set_raw 6 count (set_raw 5 ?a (set_raw 2 0x44 (set_raw 0 (count + 11) s)))"
  have t: "length (rawdata t) = 16" "rx_size t = count + 11" using len by (simp_all add: t_def)
  define u where "u = t\<lparr>rawdata := take 7 (rawdata t) @ regs ?a ?n t @ drop (7 + ?n) (rawdata t)\<rparr>"
  have loop: "ramread_loop 0 ?n ?a t = Ret u"
    using ramread_loop_eq [of 0 ?n t ?a] n7 t by (simp add: u_def)
  have ut: "regs ?a ?n t = regs ?a ?n s" "servo_status_err u = servo_status_err s"
    "servo_status_det u = servo_status_det s"
    by (simp_all add: u_def t_def set_raw_def regs_def handle_ram_read_def)
  define v where
    "v = set_raw (5 + (?n + 2)) (servo_status_det u) (set_raw (5 + (?n + 1)) (servo_status_err u) u)"
  have send: "handle_RAMREAD_cmd ucsra fuel s = send_rx_buffer ucsra fuel v"
    using loop n7 unfolding handle_RAMREAD_cmd_def
    by (simp add: get_data_def put_data_def Let_def count(1) [symmetric] clip t_def v_def)
  have "drop 5 (rawdata u) = ([?a, count] @ regs ?a ?n s) @ drop (7 + ?n) (rawdata s)"
    using len n7 by (simp add: u_def ut t_def set_raw_def drop_update_cancel take_Suc_conv_app_nth
        eval_nat_numeral)
  then have "drop 5 (rawdata v) = (([?a, count] @ regs ?a ?n s) @ drop (7 + ?n) (rawdata s))
      [?n + 1 := servo_status_err s, Suc (?n + 1) := servo_status_det s]"
    using ut by (simp add: v_def set_raw_def drop_update_swap)
  then have "take (?n + 4) (drop 5 (rawdata v)) = take (?n + 1) ([?a, count] @ regs ?a ?n s)
      @ [servo_status_err s, servo_status_det s, rawdata s ! (?n + 8)]"
    using overwrite_last_two [of "[?a, count] @ regs ?a ?n s" "?n + 1" "drop (7 + ?n) (rawdata s)"] len n7
    by (simp add: ac_simps)
  moreover have "length (rawdata v) = 16" "rx_size v = count + 11"
    using t n7 by (simp_all add: v_def u_def nth_append)
  ultimately show ?thesis using send by blast
qed

text \<open>The reply to a RAM READ of \<open>count < 8\<close> registers from address \<open>addr\<close>: its data
  part holds \<open>addr\<close>, \<open>count\<close> and the register values, but the last byte of these is overwritten by
  the error status; the detail status follows, and the final byte of the packet is whatever the
  receive buffer held there.\<close>

theorem ram_read_reply:
  assumes "handle_RAMREAD_cmd ucsra fuel s = Ret s'"
    and "length (rawdata s) = 16" and "count = rawdata s ! 6" "count < 8"
  shows "rx_size s' = count + 11 \<and>
     take (unat count + 4) (drop 5 (rawdata s')) =
     take (unat count + 1) ([rawdata s ! 5, count] @ regs (rawdata s ! 5) (unat count) s)
     @ [servo_status_err s, servo_status_det s, rawdata s ! (unat count + 8)]"
proof -
  from handle_RAMREAD_send [OF assms(2-4), of ucsra fuel] assms(1) obtain v where
    v: "send_rx_buffer ucsra fuel v = Ret s'" "rx_size v = count + 11"
     "take (unat count + 4) (drop 5 (rawdata v)) =
       take (unat count + 1) ([rawdata s ! 5, count] @ regs (rawdata s ! 5) (unat count) s)
       @ [servo_status_err s, servo_status_det s, rawdata s ! (unat count + 8)]" by auto
  from send_rx_buffer_Ret [OF v(1)] obtain cs1 where "rawdata s' = reply_raw cs1 (rawdata v)" by blast
  then show ?thesis using v(2,3) by (simp add: reply_raw_def drop_update_cancel)
qed

definition read_leds_packet :: "u8 list" where
  "read_leds_packet = [9, 99, 4, 0x3C, 0xC2, 83, 1] @ replicate 9 0xAA"

theorem ram_read_reply_witness:
  "\<exists>s'. handle_RAMREAD_cmd (\<lambda>_. 0x60) 1 ((shield_with read_leds_packet)\<lparr>servo_leds := 7\<rparr>) = Ret s' \<and>
     take 5 (drop 5 (rawdata s')) = [83, 1, 0, 0, 0xAA]"
proof -
  let ?s = "(shield_with read_leds_packet)\<lparr>servo_leds := 7\<rparr>"
  have len: "length (rawdata ?s) = 16" and count: "rawdata ?s ! 6 = 1"
    by (simp_all add: shield_with_def read_leds_packet_def)
  have lt: "rawdata ?s ! 6 < 8" unfolding count by simp
  from handle_RAMREAD_send [OF len refl lt, of "\<lambda>_. 0x60" 1] obtain v where
    v: "handle_RAMREAD_cmd (\<lambda>_. 0x60) 1 ?s = send_rx_buffer (\<lambda>_. 0x60) 1 v" "rx_size v = 12"
    unfolding count by auto
  with send_rx_buffer_ready [OF always_ready_60, of 1 v] obtain s' where
    s': "handle_RAMREAD_cmd (\<lambda>_. 0x60) 1 ?s = Ret s'" by auto
  from ram_read_reply [OF s' len refl lt] s' show ?thesis
    by (auto simp: shield_with_def read_leds_packet_def count regs_def)
qed

section \<open>Interrupt and main loop together\<close>

text \<open>The interrupt may strike at any point of the main loop. While a packet is handled the buffer
  is marked ready, so the interrupt does nothing; it commutes with the tick, which it shares no
  state with. Interrupts between whole loop iterations are therefore all there is to consider.\<close>

text \<open>Every part of the tick leaves the fields of the receiver alone and does not read them.\<close>

lemma expire_leds_rx [simp]:
  "rawdata (expire_leds s) = rawdata s" "rx_len (expire_leds s) = rx_len s"
  "rx_ff_count (expire_leds s) = rx_ff_count s" "rx_status (expire_leds s) = rx_status s"
  "expire_leds (s\<lparr>rawdata := r\<rparr>) = (expire_leds s)\<lparr>rawdata := r\<rparr>" "expire_leds (s\<lparr>rx_len := n\<rparr>) = (expire_leds s)\<lparr>rx_len := n\<rparr>"
  "expire_leds (s\<lparr>rx_ff_count := n\<rparr>) = (expire_leds s)\<lparr>rx_ff_count := n\<rparr>"
  "expire_leds (s\<lparr>rx_status := st\<rparr>) = (expire_leds s)\<lparr>rx_status := st\<rparr>"
  by (simp_all add: expire_leds_def)

lemma apply_servo_values_rx [simp]:
  "rawdata (apply_servo_values s) = rawdata s" "rx_len (apply_servo_values s) = rx_len s"
  "rx_ff_count (apply_servo_values s) = rx_ff_count s" "rx_status (apply_servo_values s) = rx_status s"
  "apply_servo_values (s\<lparr>rawdata := r\<rparr>) = (apply_servo_values s)\<lparr>rawdata := r\<rparr>" "apply_servo_values (s\<lparr>rx_len := n\<rparr>) = (apply_servo_values s)\<lparr>rx_len := n\<rparr>"
  "apply_servo_values (s\<lparr>rx_ff_count := n\<rparr>) = (apply_servo_values s)\<lparr>rx_ff_count := n\<rparr>"
  "apply_servo_values (s\<lparr>rx_status := st\<rparr>) = (apply_servo_values s)\<lparr>rx_status := st\<rparr>"
  by (simp_all add: apply_servo_values_def)

lemma expire_fire_rx [simp]:
  "rawdata (expire_fire s) = rawdata s" "rx_len (expire_fire s) = rx_len s"
  "rx_ff_count (expire_fire s) = rx_ff_count s" "rx_status (expire_fire s) = rx_status s"
  "expire_fire (s\<lparr>rawdata := r\<rparr>) = (expire_fire s)\<lparr>rawdata := r\<rparr>" "expire_fire (s\<lparr>rx_len := n\<rparr>) = (expire_fire s)\<lparr>rx_len := n\<rparr>"
  "expire_fire (s\<lparr>rx_ff_count := n\<rparr>) = (expire_fire s)\<lparr>rx_ff_count := n\<rparr>"
  "expire_fire (s\<lparr>rx_status := st\<rparr>) = (expire_fire s)\<lparr>rx_status := st\<rparr>"
  by (simp_all add: expire_fire_def)

lemma blink_rx [simp]:
  "rawdata (blink s) = rawdata s" "rx_len (blink s) = rx_len s"
  "rx_ff_count (blink s) = rx_ff_count s" "rx_status (blink s) = rx_status s"
  "blink (s\<lparr>rawdata := r\<rparr>) = (blink s)\<lparr>rawdata := r\<rparr>" "blink (s\<lparr>rx_len := n\<rparr>) = (blink s)\<lparr>rx_len := n\<rparr>"
  "blink (s\<lparr>rx_ff_count := n\<rparr>) = (blink s)\<lparr>rx_ff_count := n\<rparr>"
  "blink (s\<lparr>rx_status := st\<rparr>) = (blink s)\<lparr>rx_status := st\<rparr>"
  by (simp_all add: blink_def)

lemma blink_step [simp]:
  "blink (s\<lparr>rawdata := r, step := k\<rparr>) = (blink (s\<lparr>step := k\<rparr>))\<lparr>rawdata := r\<rparr>"
  "blink (s\<lparr>rx_len := n, step := k\<rparr>) = (blink (s\<lparr>step := k\<rparr>))\<lparr>rx_len := n\<rparr>"
  "blink (s\<lparr>rx_ff_count := n, step := k\<rparr>) = (blink (s\<lparr>step := k\<rparr>))\<lparr>rx_ff_count := n\<rparr>"
  "blink (s\<lparr>rx_status := st, step := k\<rparr>) = (blink (s\<lparr>step := k\<rparr>))\<lparr>rx_status := st\<rparr>"
  by (simp_all add: blink_def)

lemma handle_tick_rx [simp]:
  "rawdata (handle_tick s) = rawdata s" "rx_len (handle_tick s) = rx_len s"
  "rx_ff_count (handle_tick s) = rx_ff_count s" "rx_status (handle_tick s) = rx_status s"
  "handle_tick (s\<lparr>rawdata := r\<rparr>) = (handle_tick s)\<lparr>rawdata := r\<rparr>" "handle_tick (s\<lparr>rx_len := n\<rparr>) = (handle_tick s)\<lparr>rx_len := n\<rparr>"
  "handle_tick (s\<lparr>rx_ff_count := n\<rparr>) = (handle_tick s)\<lparr>rx_ff_count := n\<rparr>"
  "handle_tick (s\<lparr>rx_status := st\<rparr>) = (handle_tick s)\<lparr>rx_status := st\<rparr>"
  by (simp_all add: handle_tick_def Let_def)

lemma rx_count_ff_handle_tick: "rx_count_ff c (handle_tick s) = handle_tick (rx_count_ff c s)"
  by (simp add: rx_count_ff_def)

lemma rx_store_handle_tick: "rx_store c (handle_tick s) = handle_tick (rx_store c s)"
  by (simp add: rx_store_def set_raw_def Let_def)

lemma rx_isr_handle_tick: "rx_isr c (handle_tick s) = handle_tick (rx_isr c s)"
proof -
  have "rx_status (rx_count_ff c s) = rx_status s" by (simp add: rx_count_ff_def)
  then show ?thesis
    by (cases "c = 0xFF \<and> 2 \<le> rx_ff_count (rx_count_ff c s)")
       (simp_all add: rx_isr_def Let_def rx_count_ff_handle_tick rx_store_handle_tick
         if_not_P del: de_Morgan_conj)
qed

lemma send_rx_buffer_length:
  "send_rx_buffer ucsra fuel s = Ret s' \<Longrightarrow> length (rawdata s') = length (rawdata s)"
  by (auto dest!: send_rx_buffer_Ret simp: reply_raw_def)

lemma ramwrite_loop_raw: "ramwrite_loop i n a s = Ret s' \<Longrightarrow> rawdata s' = rawdata s"
  by (induction n arbitrary: i a s)
     (fastforce simp: obind_eq_Ret Let_def handle_ram_write_def moving_flag_def
        split: prod.splits if_splits)+

lemma ramread_loop_length:
  "ramread_loop i n a s = Ret s' \<Longrightarrow> length (rawdata s') = length (rawdata s)"
proof (induction n arbitrary: i a s)
  case (Suc n)
  then obtain t where t: "put_data (i + 2) (handle_ram_read a s) s = Ret t"
    "ramread_loop (Suc i) n (a + 1) t = Ret s'" by (auto simp: obind_eq_Ret)
  from Suc.IH [OF t(2)] t(1) show ?case by simp
qed simp

lemma handler_length:
  "handle_STAT_command ucsra fuel s = Ret s' \<Longrightarrow> length (rawdata s') = length (rawdata s)"
  "handle_RAMWRITE_cmd s = Ret s' \<Longrightarrow> length (rawdata s') = length (rawdata s)"
  "handle_RAMREAD_cmd ucsra fuel s = Ret s' \<Longrightarrow> length (rawdata s') = length (rawdata s)"
  by (auto simp: handle_STAT_command_def handle_RAMWRITE_cmd_def handle_RAMREAD_cmd_def Let_def
      obind_eq_Ret dest!: send_rx_buffer_length ramwrite_loop_raw ramread_loop_length)

lemma apply_servo_values_raw: "rawdata (apply_servo_values s) = rawdata s"
  by simp

lemma handle_packet_Ret:
  assumes "handle_packet ucsra fuel s = Ret s'" "rx_status s = RXS_READY"
  shows "rx_status s' = RXS_BAD \<and> length (rawdata s') = length (rawdata s)"
  using assms
  by (auto simp: handle_packet_def obind_eq_Ret split: if_splits dest: handler_length)

lemma handle_packet_idle: "rx_status s \<noteq> RXS_READY \<Longrightarrow> handle_packet ucsra fuel s = Ret s"
  by (simp add: handle_packet_def)

lemma rx_inv_handle_packet [inv_intros]:
  "handle_packet ucsra fuel s = Ret s' \<Longrightarrow> rx_inv s \<Longrightarrow> rx_inv s'"
  by (cases "rx_status s = RXS_READY")
     (auto simp: rx_inv_def handle_packet_idle dest: handle_packet_Ret)

lemma rx_inv_handle_tick [inv_intros]: "rx_inv (handle_tick s) = rx_inv s"
  by (simp add: rx_inv_def)

text \<open>The motor driver is enabled whenever a duty cycle is set, and a duty cycle fits the 8-bit timer.\<close>

definition motor_inv :: "shield \<Rightarrow> bool" where
  "motor_inv s \<longleftrightarrow> ((OCR1A s \<noteq> 0 \<or> OCR1B s \<noteq> 0) \<longrightarrow> bit (PORTC s) 4) \<and> OCR1A s < 256 \<and> OCR1B s < 256"

lemma bit_bitvar: "bit (bitvar k b w) n \<longleftrightarrow> (if n = k \<and> n < 8 then b else bit w n)"
  using bit_imp_le_length [of w n] by (auto simp: bitvar_def bit_bit_on bit_bit_off)

lemma motor_inv_apply: "motor_inv (apply_servo_values s)"
  by (auto simp: motor_inv_def apply_servo_values_def bit_bitvar ucast_u8_less ucast_u8_zero)

text \<open>The handlers of STAT, RAM WRITE and RAM READ do not touch the outputs.\<close>

definition outputs :: "shield \<Rightarrow> u8 \<times> u16 \<times> u16" where
  "outputs s = (PORTC s, OCR1A s, OCR1B s)"

lemma outputs_tx [frame_simps]:
  "outputs (set_raw i v s) = outputs s"
  "shield_tx ucsra fuel c s = Ret s' \<Longrightarrow> outputs s' = outputs s"
  "enable_tx ucsra fuel s = Ret s' \<Longrightarrow> outputs s' = outputs s"
  "disable_tx ucsra fuel s = Ret s' \<Longrightarrow> outputs s' = outputs s"
  by (auto simp: outputs_def set_raw_def shield_tx_def enable_tx_def disable_tx_def Let_def obind_eq_Ret)

lemma outputs_send_loop: "send_loop ucsra fuel i n s = Ret s' \<Longrightarrow> outputs s' = outputs s"
  by (induction n arbitrary: i s)
     (auto simp: obind_eq_Ret split: if_splits dest: outputs_tx(2) split: if_splits)

lemma outputs_send_rx_buffer: "send_rx_buffer ucsra fuel s = Ret s' \<Longrightarrow> outputs s' = outputs s"
  by (auto simp: send_rx_buffer_def Let_def obind_eq_Ret outputs_tx(1)
      dest!: outputs_tx(2-4) outputs_send_loop)

lemma outputs_ram_write: "outputs (snd (handle_ram_write a v s)) = outputs s"
  by (simp add: handle_ram_write_def moving_flag_def outputs_def)

lemma outputs_ramwrite_loop: "ramwrite_loop i n a s = Ret s' \<Longrightarrow> outputs s' = outputs s"
proof (induction n arbitrary: i a s)
  case (Suc n)
  then obtain d where d: "get_data i s = Ret d" by (auto simp: obind_eq_Ret)
  obtain e t where t: "handle_ram_write a d s = (e, t)" by fastforce
  have "outputs t = outputs s" using outputs_ram_write [of a d s] t by simp
  with Suc d t show ?case by (fastforce simp: outputs_def split: if_splits)
qed simp

lemma outputs_ramread_loop: "ramread_loop i n a s = Ret s' \<Longrightarrow> outputs s' = outputs s"
  by (induction n arbitrary: i a s) (fastforce simp: obind_eq_Ret outputs_tx(1))+

lemma outputs_handlers:
  "handle_STAT_command ucsra fuel s = Ret s' \<Longrightarrow> outputs s' = outputs s"
  "handle_RAMWRITE_cmd s = Ret s' \<Longrightarrow> outputs s' = outputs s"
  "handle_RAMREAD_cmd ucsra fuel s = Ret s' \<Longrightarrow> outputs s' = outputs s"
  by (auto simp: handle_STAT_command_def handle_RAMWRITE_cmd_def handle_RAMREAD_cmd_def Let_def
      obind_eq_Ret outputs_tx(1)
      dest!: outputs_send_rx_buffer outputs_ramwrite_loop outputs_ramread_loop)

lemma motor_inv_outputs: "outputs s' = outputs s \<Longrightarrow> motor_inv s \<Longrightarrow> motor_inv s'"
  by (simp add: motor_inv_def outputs_def)

lemma motor_inv_handle_packet [inv_intros]:
  assumes "handle_packet ucsra fuel s = Ret s'" "motor_inv s"
  shows "motor_inv s'"
proof (cases "rx_status s = RXS_READY")
  case True
  then obtain ok t where t: "s' = t\<lparr>rx_status := RXS_BAD\<rparr>"
    "outputs t = outputs s \<or> (\<exists>r. t = apply_servo_values r)"
    using assms(1)
    by (auto simp: handle_packet_def obind_eq_Ret outputs_def
        split: if_splits dest: outputs_handlers [unfolded outputs_def])
  moreover have "outputs s' = outputs t" using t(1) by (simp add: outputs_def)
  ultimately show ?thesis
    using assms(2) motor_inv_outputs motor_inv_apply by metis
qed (use assms in \<open>simp add: handle_packet_idle\<close>)

lemma motor_inv_handle_tick [inv_intros]: "motor_inv (handle_tick s)"
proof -
  let ?t = "apply_servo_values (expire_leds s)"
  have "motor_inv (expire_fire ?t)"
    by (rule motor_inv_outputs [OF _ motor_inv_apply [of "expire_leds s"]]) (simp add: outputs_def expire_fire_def)
  then show ?thesis
    by (auto simp: handle_tick_def blink_def motor_inv_def Let_def bit_bitvar)
qed

lemma motor_inv_rx_isr [inv_intros]: "motor_inv (rx_isr c s) = motor_inv s"
  by (simp add: motor_inv_def rx_isr_def rx_count_ff_def rx_store_def set_raw_def Let_def)

text \<open>What can happen to the device: power-up, a received byte, a pass of the main loop that finds
  the 10 ms flag set or not.\<close>

inductive shield_reach :: "(nat \<Rightarrow> u8) \<Rightarrow> nat \<Rightarrow> shield \<Rightarrow> bool"
  for ucsra fuel where
  power_up: "shield_init ucsra fuel uart0 = Ret s \<Longrightarrow> shield_reach ucsra fuel s"
| byte: "shield_reach ucsra fuel s \<Longrightarrow> shield_reach ucsra fuel (rx_isr c s)"
| pass: "shield_reach ucsra fuel s \<Longrightarrow> main_iteration ucsra fuel elapsed s = Ret s' \<Longrightarrow>
    shield_reach ucsra fuel s'"

inductive_cases shield_reachE: "shield_reach ucsra fuel s"

lemma shield_init_inv:
  assumes "shield_init ucsra fuel uart0 = Ret s"
  shows "rx_inv s" "motor_inv s"
  using assms
  by (auto simp: shield_init_def Let_def obind_eq_Ret disable_tx_def rx_inv_def motor_inv_def)

lemma shield_reach_inv: "shield_reach ucsra fuel s \<Longrightarrow> rx_inv s \<and> motor_inv s"
proof (induction rule: shield_reach.induct)
  case (power_up uart0 s)
  then show ?case using shield_init_inv by blast
next
  case (byte s c)
  then show ?case using rx_isr_inv motor_inv_rx_isr by blast
next
  case (pass s elapsed s')
  then show ?case
    using rx_inv_handle_packet motor_inv_handle_packet motor_inv_handle_tick rx_inv_handle_tick
    by (fastforce simp: main_iteration_def obind_eq_Ret split: if_splits)
qed

text \<open>C19 (invariant). In every state the device can reach, by any interleaving of received bytes and
  loop passes: the buffer invariant holds; a motor is driven only with the motor driver enabled and
  with a duty cycle of eight bits; and a pass of the main loop leaves the receive buffer only for a
  RAM READ of eight or more registers.\<close>

theorem shield_reach_safety:
  assumes "shield_reach ucsra fuel s"
  shows "rx_inv s \<and> motor_inv s \<and>
     (main_iteration ucsra fuel elapsed s = Overrun \<longrightarrow>
        rx_status s = RXS_READY \<and> rx_cmd s = 0x04 \<and> 8 \<le> rawdata s ! 6)"
proof -
  have inv: "rx_inv s" "motor_inv s" using shield_reach_inv [OF assms] by auto
  have "handle_packet ucsra fuel s = Overrun" if "main_iteration ucsra fuel elapsed s = Overrun"
    using that by (auto simp: main_iteration_def obind_eq_Overrun)
  then show ?thesis
    using inv handle_RAMREAD_Overrun [of s] packet_overrun [OF inv(1)] by blast
qed

definition started :: shield where
  "started = \<lparr>rawdata = replicate 16 0, rx_len = 7, rx_ff_count = 0, rx_status = RXS_BAD,
     servo_status_err = 0, servo_status_det = 0, servo_leds = 0, servo_leds_timeout = 0,
     servo_fire_time = 0, servo_fire_pwm = 0, servo_agitator_pwm = 0, PORTC = 0x3B, DDRD = 0x30,
     OCR1A = 0, OCR1B = 0, step = 0, uart = idle_uart\<rparr>"

lemma shield_init_started: "shield_init (\<lambda>_. 0x60) 1 idle_uart = Ret started"
  by (simp add: shield_init_def Let_def disable_tx_def hwuart_tx_enable_def hwuart_init_def
      hwuart_write_UCSRA_def idle_uart_def hwuart_tx_is_enabled_def bit_test_def bit_off_def
      bit_on_def bitvar_def started_def)

theorem shield_reach_safety_witness:
  "shield_reach (\<lambda>_. 0x60) 1 (rx_isr 0xFF started) \<and> motor_inv (rx_isr 0xFF started)"
proof -
  have "shield_reach (\<lambda>_. 0x60) 1 (rx_isr 0xFF started)"
    by (rule shield_reach.byte, rule shield_reach.power_up, rule shield_init_started)
  with shield_reach_safety [OF this] show ?thesis by blast
qed

text \<open>The receive interrupt and the timer tick of the main loop commute, so it does
  not matter where inside the tick a byte arrives.\<close>

theorem isr_tick_commute:
  "fold rx_isr cs (handle_tick s) = handle_tick (fold rx_isr cs s)"
  by (induction cs arbitrary: s) (simp_all add: rx_isr_handle_tick)

end
