(* ===== verification/HexUtil.thy ===== *)
theory HexUtil
  imports Prelude
begin

unbundle bit_operations_syntax

text \<open>
  The hexadecimal helpers of the AVR firmware, \<^verbatim>\<open>hw/pressure_foot/firmware/util.c\<close> (the panel
  firmware has the same printers in \<^verbatim>\<open>hw/panel_qual/firmware/util.c\<close>), the \<open>%x\<close> and \<open>%c\<close>
  conversions of \<open>sscanf_P\<close> that the command parsers call, and \<^verbatim>\<open>base/format_hex.cc\<close>.
  A printer returns the characters it stores through its \<open>char**\<close> argument; a scanner returns
  what is left of the string its argument points to.
\<close>

section \<open>Printing\<close>

definition nyb_to_hex :: "u8 \<Rightarrow> char" where
  "nyb_to_hex value = (if value < 10 then chr (value + 48) else chr (value + 65 - 10))"

definition uint8_to_hex :: "u8 \<Rightarrow> string" where
  "uint8_to_hex value =
     [nyb_to_hex (drop_bit 4 (value AND 0xF0)), nyb_to_hex (value AND 0x0F)]"

definition uint16_to_hex :: "u16 \<Rightarrow> string" where
  "uint16_to_hex value =
     [nyb_to_hex (ucast (drop_bit 12 (value AND 0xF000))),
      nyb_to_hex (ucast (drop_bit 8 (value AND 0x0F00))),
      nyb_to_hex (ucast (drop_bit 4 (value AND 0x00F0))),
      nyb_to_hex (ucast (value AND 0x000F))]"

lemma length_uint8_to_hex [simp]: "length (uint8_to_hex v) = 2"
  by (simp add: uint8_to_hex_def)

lemma length_uint16_to_hex [simp]: "length (uint16_to_hex v) = 4"
  by (simp add: uint16_to_hex_def)

section \<open>Scanning two digits\<close>

text \<open>The value of one hexadecimal digit; \<open>None\<close> where \<open>parse_hex2\<close> takes its last branch.\<close>

definition hex_digit :: "char \<Rightarrow> u8 option" where
  "hex_digit c =
     (let n = ord c in
      if 48 \<le> n \<and> n \<le> 57 then Some (n - 48)
      else if 97 \<le> n \<and> n \<le> 102 then Some (n - 97 + 10)
      else if 65 \<le> n \<and> n \<le> 70 then Some (n - 65 + 10)
      else None)"

definition is_skip :: "char \<Rightarrow> bool" where
  "is_skip c \<longleftrightarrow> c = CHR '' '' \<or> c = CHR '':''"

text \<open>The loop of \<open>parse_hex2\<close>, \<open>n\<close> digits still to read; the result is the error code, the
  value accumulated in \<open>*val\<close> and the text \<open>*arg\<close> points to afterwards.\<close>

fun parse_hex_loop :: "nat \<Rightarrow> u8 \<Rightarrow> string \<Rightarrow> u8 \<times> u8 \<times> string" where
  "parse_hex_loop 0 val arg = (0, val, arg)"
| "parse_hex_loop (Suc n) val arg =
     (case dropWhile is_skip arg of
        [] \<Rightarrow> (1, val, [])
      | c # rest \<Rightarrow>
          (case hex_digit c of
             None \<Rightarrow> (1, val, c # rest)
           | Some d \<Rightarrow> parse_hex_loop n (push_bit 4 val OR d) rest))"

definition parse_hex2 :: "string \<Rightarrow> u8 \<times> u8 \<times> string" where
  "parse_hex2 arg = parse_hex_loop 2 0 arg"

section \<open>The sscanf conversions\<close>

text \<open>
  \<open>skip_ws\<close> is a blank of the format, which matches any amount of white space.
  \<open>scan_x\<close> is \<open>%x\<close> of avr-libc for a 16-bit \<open>int\<close>: it skips white space, takes a sign, an
  optional \<open>0x\<close>, and hexadecimal digits; the value is kept modulo \<open>2 ^ 16\<close>. \<open>scan_c\<close> is \<open>%c\<close>.
  The value \<open>None\<close> means that the conversion fails and \<open>sscanf\<close> returns.
\<close>

definition is_space :: "char \<Rightarrow> bool" where
  "is_space c \<longleftrightarrow> c = CHR '' '' \<or> (let n = (of_char c :: nat) in 9 \<le> n \<and> n \<le> 13)"

definition skip_ws :: "string \<Rightarrow> string" where
  "skip_ws s = dropWhile is_space s"

fun scan_digits :: "u16 \<Rightarrow> string \<Rightarrow> u16 \<times> string" where
  "scan_digits acc [] = (acc, [])"
| "scan_digits acc (c # cs) =
     (case hex_digit c of
        None \<Rightarrow> (acc, c # cs)
      | Some d \<Rightarrow> scan_digits (acc * 16 + ucast d) cs)"

definition scan_sign :: "string \<Rightarrow> bool \<times> string" where
  "scan_sign s = (case s of
       [] \<Rightarrow> (False, [])
     | c # cs \<Rightarrow> if c = CHR ''-'' then (True, cs) else if c = CHR ''+'' then (False, cs) else (False, s))"

definition scan_prefix :: "string \<Rightarrow> string option" where
  "scan_prefix s = (case s of
       c # x # cs \<Rightarrow>
         if c = CHR ''0'' \<and> (x = CHR ''x'' \<or> x = CHR ''X'') then Some cs else None
     | _ \<Rightarrow> None)"

definition scan_x :: "string \<Rightarrow> (u16 \<times> string) option" where
  "scan_x s =
     (let (neg, s1) = scan_sign (skip_ws s) in
      case scan_prefix s1 of
        Some s2 \<Rightarrow> (let (v, r) = scan_digits 0 s2 in Some (if neg then - v else v, r))
      | None \<Rightarrow>
          (case s1 of
             [] \<Rightarrow> None
           | c # _ \<Rightarrow>
               if hex_digit c = None then None
               else (let (v, r) = scan_digits 0 s1 in Some (if neg then - v else v, r))))"

definition scan_c :: "string \<Rightarrow> (char \<times> string) option" where
  "scan_c s = (case s of [] \<Rightarrow> None | c # cs \<Rightarrow> Some (c, cs))"

section \<open>Digits are inverse to their values\<close>

lemma less_16_cases:
  "n < 16 \<Longrightarrow> n \<in> {0, 1, 2, 3, 4, 5, 6, 7, 8, 9, 10, 11, 12, 13, 14, 15 :: nat}"
  by (simp, presburger)

lemma hex_digit_nyb_to_hex [hex_simps]:
  assumes "v < 16" shows "hex_digit (nyb_to_hex v) = Some v"
proof -
  from assms have "v < of_nat 16" by simp
  then obtain k where k: "k < 16" "v = of_nat k" by (rule word_lt_of_natE) simp
  from less_16_cases [OF k(1)] show ?thesis
    unfolding k(2) by (elim insertE emptyE) (simp_all add: hex_digit_def nyb_to_hex_def)
qed

lemma nyb_to_hex_not_NUL [hex_simps]: "v < 16 \<Longrightarrow> nyb_to_hex v \<noteq> NUL"
  using hex_digit_nyb_to_hex [of v] by (auto simp: hex_digit_def ord_def)

lemma hex_digit_lt: "hex_digit c = Some d \<Longrightarrow> d < 16"
  unfolding hex_digit_def Let_def by (simp split: if_splits) unat_arith+

lemma hex_digit_not_skip: "hex_digit c = Some d \<Longrightarrow> \<not> is_skip c"
  by (auto simp: hex_digit_def is_skip_def ord_def)

lemma ord_space: "is_space c \<Longrightarrow> ord c \<le> 32"
  by (auto simp: is_space_def ord_def Let_def word_le_nat_alt unat_of_nat)

lemma hex_digit_not_space: "hex_digit c = Some d \<Longrightarrow> \<not> is_space c"
  using ord_space [of c]
  by (auto simp: hex_digit_def Let_def split: if_splits) unat_arith+

lemma low_nybble_lt: "v AND 0x0F < (16 :: u8)"
  by (rule le_less_trans [OF word_and_le1]) simp

lemma nybbles_join: "push_bit 4 (drop_bit 4 (v AND 0xF0)) OR (v AND 0x0F) = (v :: u8)"
  unfolding u8_mask4 by (rule bit_eqI) (auto simp: bit_simps)

lemma high_nybble_lt: "drop_bit 4 (v AND 0xF0) < (16 :: u8)"
  using unat_u8_less [of "v AND 0xF0"]
  by (simp add: word_less_nat_alt unat_div_distrib drop_bit_eq_div)

lemma parse_hex2_print: "parse_hex2 (uint8_to_hex v @ rest) = (0, v, rest)"
proof -
  let ?h = "drop_bit 4 (v AND 0xF0)" and ?l = "v AND 0x0F"
  have h: "hex_digit (nyb_to_hex ?h) = Some ?h" "\<not> is_skip (nyb_to_hex ?h)"
    using hex_digit_nyb_to_hex [OF high_nybble_lt] by (auto dest: hex_digit_not_skip)
  have l: "hex_digit (nyb_to_hex ?l) = Some ?l" "\<not> is_skip (nyb_to_hex ?l)"
    using hex_digit_nyb_to_hex [OF low_nybble_lt] by (auto dest: hex_digit_not_skip)
  from h l nybbles_join [of v] show ?thesis
    by (simp add: parse_hex2_def uint8_to_hex_def numeral_2_eq_2)
qed

text \<open>What \<open>uint8_to_hex\<close> prints, \<open>parse_hex2\<close> reads back: the byte, no error,
  and the rest of the line untouched.\<close>

theorem parse_hex2_uint8_to_hex: "parse_hex2 (uint8_to_hex v @ rest) = (0, v, rest)"
  by (rule parse_hex2_print)

section \<open>Printed words are scanned back\<close>

lemma nybble16_lt:
  "drop_bit 12 (v AND 0xF000) < (16 :: u16)" "drop_bit 8 (v AND 0x0F00) < (16 :: u16)"
  "drop_bit 4 (v AND 0x00F0) < (16 :: u16)" "v AND 0x000F < (16 :: u16)"
  using unat_u16_less [of "v AND 0xF000"] word_and_le1 [of v "0x0F00"] word_and_le1 [of v "0x00F0"]
    word_and_le1 [of v "0x000F"]
  by (simp_all add: word_less_nat_alt word_le_nat_alt unat_div_distrib drop_bit_eq_div)

lemma nybble16_eq:
  "drop_bit 12 (v AND 0xF000) = drop_bit 12 (v :: u16)"
  "drop_bit 8 (v AND 0x0F00) = take_bit 4 (drop_bit 8 (v :: u16))"
  "drop_bit 4 (v AND 0x00F0) = take_bit 4 (drop_bit 4 (v :: u16))"
  "v AND 0x000F = take_bit 4 (v :: u16)"
  unfolding u16_mask4 by (auto intro!: bit_eqI simp: bit_simps) (drule bit_imp_le_length, simp)

lemma nybble16_join:
  "((drop_bit 12 (v AND 0xF000) * 16 + drop_bit 8 (v AND 0x0F00)) * 16
     + drop_bit 4 (v AND 0x00F0)) * 16 + (v AND 0x000F) = (v :: u16)"
proof -
  have step: "drop_bit (k + 4) v * 16 + take_bit 4 (drop_bit k v) = drop_bit k v" for k
    using bits_ident [of 4 "drop_bit k v"] by (simp add: push_bit_eq_mult add.commute)
  from step [of 8] step [of 4] step [of 0] show ?thesis
    unfolding nybble16_eq by simp
qed

lemma ucast_nybble:
  assumes "w < 16"
  shows "(ucast w :: u8) < 16" "ucast (ucast w :: u8) = (w :: u16)"
proof -
  from assms have "w < of_nat 16" by simp
  then obtain k where k: "k < 16" "w = of_nat k" by (rule word_lt_of_natE) simp
  from less_16_cases [OF k(1)] show "(ucast w :: u8) < 16" "ucast (ucast w :: u8) = w"
    unfolding k(2) by (elim insertE emptyE; simp)+
qed

lemma hex_digit_uint16 [hex_simps]:
  assumes "w < (16 :: u16)"
  shows "hex_digit (nyb_to_hex (ucast w)) = Some (ucast w)"
  using assms by (intro hex_digit_nyb_to_hex ucast_nybble)

lemma scan_digits_uint16:
  "scan_digits 0 (uint16_to_hex v @ rest) = scan_digits v rest"
  using nybble16_join [of v]
  by (simp add: uint16_to_hex_def hex_digit_uint16 nybble16_lt ucast_nybble del: nybble16_eq)

lemma scan_x_digit:
  assumes "hex_digit c = Some d" "hex_digit e = Some f"
  shows "scan_x (c # e # cs) = Some (scan_digits 0 (c # e # cs))"
proof -
  have "e \<noteq> CHR ''x''" "e \<noteq> CHR ''X''" "c \<noteq> CHR ''-''" "c \<noteq> CHR ''+''"
    using assms by (auto simp: hex_digit_def ord_def)
  then show ?thesis
    using assms hex_digit_not_space [OF assms(1)]
    by (simp add: scan_x_def skip_ws_def scan_sign_def scan_prefix_def split: prod.splits)
qed

text \<open>A word printed by \<open>uint16_to_hex\<close> is what the \<open>%x\<close> conversion of the
  command parsers reads back, and the text after it is left for the next conversion, when that
  text does not go on with a hexadecimal digit.\<close>

theorem scan_x_uint16_to_hex:
  assumes "case rest of [] \<Rightarrow> True | c # _ \<Rightarrow> hex_digit c = None"
  shows "scan_x (uint16_to_hex v @ rest) = Some (v, rest)"
proof -
  from assms have "scan_digits v rest = (v, rest)"
    by (cases rest) auto
  then show ?thesis
    using scan_digits_uint16 [of v rest] scan_x_digit nybble16_lt [of v]
    by (simp add: uint16_to_hex_def hex_digit_uint16)
qed

theorem scan_x_uint16_to_hex_witness:
  "hex_digit CHR '' '' = None \<and>
   scan_x (uint16_to_hex 0x1A2B @ '' PNG'') = Some (0x1A2B, '' PNG'')"
proof
  show h: "hex_digit CHR '' '' = None" by (simp add: hex_digit_def ord_def)
  then show "scan_x (uint16_to_hex 0x1A2B @ '' PNG'') = Some (0x1A2B, '' PNG'')"
    by (intro scan_x_uint16_to_hex) simp
qed

section \<open>Scanners consume their input\<close>

lemma skip_ws_shorter: "length (skip_ws s) \<le> length s"
  unfolding skip_ws_def by (rule length_dropWhile_le)

lemma scan_digits_shorter: "scan_digits v s = (w, r) \<Longrightarrow> length r \<le> length s"
  by (induction v s arbitrary: w r rule: scan_digits.induct) (fastforce split: option.splits)+

lemma scan_x_shorter: "scan_x s = Some (v, r) \<Longrightarrow> length r \<le> length s"
  using skip_ws_shorter [of s]
  by (auto simp: scan_x_def scan_sign_def scan_prefix_def Let_def
      split: option.splits list.splits prod.splits if_splits dest!: scan_digits_shorter)

end
