(* ===== verification/I2cMaster.thy ===== *)
theory I2cMaster
  imports HexUtil
begin

unbundle bit_operations_syntax

text \<open>
  The bit-banged I2C master of the pressure foot, \<^verbatim>\<open>hw/pressure_foot/firmware/i2c.c\<close>, in the
  configuration its Makefile builds (the clock line is released, not driven high).

  \<^item> \<open>i2c\<close> holds the two port registers the driver writes, its state variable, the time spent in
    delays, and \<open>wave\<close>: the levels \<open>(SCL, SDA)\<close> the master puts on the open-drain bus after each
    register write, newest first. \<open>True\<close> is a released line (high, unless another device pulls it).
  \<^item> What a read of \<open>PINB\<close> gives is decided by the devices on the bus, so it is a parameter:
    \<open>pin n w\<close> is the value of the \<open>n\<close>-th read when the waveform so far is \<open>w\<close>.
  \<^item> \<open>decode\<close> is the view of a listener: start and stop conditions and the bits sampled at rising
    clock edges. The properties say what a listener sees of each operation.
  \<^item> \<open>run_command\<close> interprets a command string; \<open>step_command\<close> is one pass of its loop.
\<close>

section \<open>Bus state\<close>

type_synonym level = "bool \<times> bool"
type_synonym pins = "nat \<Rightarrow> level list \<Rightarrow> u8"

abbreviation (input) "SCL_BIT \<equiv> (4 :: nat)"
abbreviation (input) "SDA_BIT \<equiv> (3 :: nat)"

record i2c =
  DDRB :: u8
  PORTB :: u8
  i2c_active :: bool
  elapsed_us :: nat
  pin_reads :: nat
  wave :: "level list"

definition I2C_ERR_TIMEOUT :: u8 where "I2C_ERR_TIMEOUT = 0x01"
definition I2C_ERR_WRITE_COLL :: u8 where "I2C_ERR_WRITE_COLL = 0x02"
definition I2C_ERR_RXBUFF_FULL :: u8 where "I2C_ERR_RXBUFF_FULL = 0x03"
definition I2C_ERR_BADHEX :: u8 where "I2C_ERR_BADHEX = 0x04"
definition I2C_ERR_BADCMD :: u8 where "I2C_ERR_BADCMD = 0x05"
definition I2C_ERR_BUSY :: u8 where "I2C_ERR_BUSY = 0x07"
definition I2C_ERR_BADADDR :: u8 where "I2C_ERR_BADADDR = 0x08"
definition I2C_ERR_OUTPUT_FULL :: u8 where "I2C_ERR_OUTPUT_FULL = 0x09"
definition I2C_ERR_ADDR_NACK :: u8 where "I2C_ERR_ADDR_NACK = 0x0A"
definition I2C_ERR_DATA_NACK :: u8 where "I2C_ERR_DATA_NACK = 0x0B"

lemmas i2c_err_defs = I2C_ERR_TIMEOUT_def I2C_ERR_WRITE_COLL_def I2C_ERR_RXBUFF_FULL_def
  I2C_ERR_BADHEX_def I2C_ERR_BADCMD_def I2C_ERR_BUSY_def I2C_ERR_BADADDR_def
  I2C_ERR_OUTPUT_FULL_def I2C_ERR_ADDR_NACK_def I2C_ERR_DATA_NACK_def

text \<open>A line is low when its pin is an output and its port bit is clear.\<close>

definition line :: "nat \<Rightarrow> i2c \<Rightarrow> bool" where
  "line k b \<longleftrightarrow> \<not> (bit (DDRB b) k \<and> \<not> bit (PORTB b) k)"

definition observe :: "i2c \<Rightarrow> i2c" where
  "observe b = b\<lparr>wave := (line SCL_BIT b, line SDA_BIT b) # wave b\<rparr>"

definition write_ddr :: "u8 \<Rightarrow> i2c \<Rightarrow> i2c" where
  "write_ddr v b = observe (b\<lparr>DDRB := v\<rparr>)"

definition write_port :: "u8 \<Rightarrow> i2c \<Rightarrow> i2c" where
  "write_port v b = observe (b\<lparr>PORTB := v\<rparr>)"

definition read_pin :: "pins \<Rightarrow> nat \<Rightarrow> i2c \<Rightarrow> bool \<times> i2c" where
  "read_pin pin k b =
     (bit_test (pin (pin_reads b) (wave b)) k, b\<lparr>pin_reads := Suc (pin_reads b)\<rparr>)"

section \<open>Line operations\<close>

definition i2c_delay :: "i2c \<Rightarrow> i2c" where
  "i2c_delay b = b\<lparr>elapsed_us := elapsed_us b + 5\<rparr>"

definition i2c_sda_high :: "pins \<Rightarrow> i2c \<Rightarrow> bool \<times> i2c" where
  "i2c_sda_high pin b =
     (let b = write_ddr (bit_off SDA_BIT (DDRB b)) b;
          b = write_port (bit_on SDA_BIT (PORTB b)) b
      in read_pin pin SDA_BIT b)"

definition i2c_sda_low :: "i2c \<Rightarrow> i2c" where
  "i2c_sda_low b =
     (let b = write_port (bit_off SDA_BIT (PORTB b)) b
      in write_ddr (bit_on SDA_BIT (DDRB b)) b)"

definition i2c_scl_high :: "pins \<Rightarrow> i2c \<Rightarrow> bool \<times> i2c" where
  "i2c_scl_high pin b =
     (let b = write_ddr (bit_off SCL_BIT (DDRB b)) b;
          b = write_port (bit_on SCL_BIT (PORTB b)) b
      in read_pin pin SCL_BIT b)"

definition i2c_scl_low :: "i2c \<Rightarrow> i2c" where
  "i2c_scl_low b =
     (let b = write_port (bit_off SCL_BIT (PORTB b)) b
      in write_ddr (bit_on SCL_BIT (DDRB b)) b)"

definition i2c_init :: "pins \<Rightarrow> i2c \<Rightarrow> i2c" where
  "i2c_init pin b =
     (let (_, b) = i2c_sda_high pin b;
          (_, b) = i2c_scl_high pin b
      in b\<lparr>i2c_active := False\<rparr>)"

definition i2c_start :: "pins \<Rightarrow> i2c \<Rightarrow> u8 \<times> i2c" where
  "i2c_start pin b =
     (let begin_start = (\<lambda>b. (0, (i2c_delay (i2c_scl_low (i2c_delay (i2c_sda_low b))))\<lparr>i2c_active := True\<rparr>))
      in if i2c_active b
         then (let (_, b) = i2c_sda_high pin b;
                   (_, b) = i2c_scl_high pin (i2c_delay b)
               in begin_start (i2c_delay b))
         else (let (sda, b) = i2c_sda_high pin b
               in if \<not> sda then (I2C_ERR_BUSY, b)
                  else (let (scl, b) = i2c_scl_high pin b
                        in if \<not> scl then (I2C_ERR_BUSY, b) else begin_start b)))"

definition i2c_stop :: "pins \<Rightarrow> i2c \<Rightarrow> u8 \<times> i2c" where
  "i2c_stop pin b =
     (let b = i2c_delay (i2c_sda_low b);
          (_, b) = i2c_scl_high pin b;
          (_, b) = i2c_sda_high pin (i2c_delay b);
          b = i2c_delay b
      in if \<not> i2c_active b then (I2C_ERR_BADCMD, b)
         else (let (scl, b) = read_pin pin SCL_BIT b
               in if \<not> scl then (I2C_ERR_BUSY, b)
                  else (let (sda, b) = read_pin pin SDA_BIT b
                        in if \<not> sda then (I2C_ERR_BUSY, b) else (0, b\<lparr>i2c_active := False\<rparr>))))"

section \<open>Bits and bytes\<close>

definition i2c_write_bit :: "pins \<Rightarrow> bool \<Rightarrow> i2c \<Rightarrow> u8 \<times> i2c" where
  "i2c_write_bit pin v b =
     (let b = (if v then snd (i2c_sda_high pin b) else i2c_sda_low b);
          (_, b) = i2c_scl_high pin (i2c_delay b);
          (sda, b) = (if v then i2c_sda_high pin b else (True, b))
      in if v \<and> \<not> sda then (I2C_ERR_WRITE_COLL, b)
         else (0, i2c_scl_low (i2c_delay b)))"

definition i2c_read_bit :: "pins \<Rightarrow> i2c \<Rightarrow> bool \<times> i2c" where
  "i2c_read_bit pin b =
     (let (_, b) = i2c_sda_high pin b;
          (_, b) = i2c_scl_high pin (i2c_delay b);
          (v, b) = i2c_sda_high pin b
      in (v, i2c_scl_low (i2c_delay b)))"

text \<open>The loop of \<open>i2c_write_byte\<close>, \<open>n\<close> bits to go.\<close>

fun write_bits :: "pins \<Rightarrow> nat \<Rightarrow> u8 \<Rightarrow> i2c \<Rightarrow> u8 \<times> i2c" where
  "write_bits pin 0 data b = (0, b)"
| "write_bits pin (Suc n) data b =
     (let (err, b) = i2c_write_bit pin (data AND 0x80 \<noteq> 0) b
      in if err \<noteq> 0 then (err, b) else write_bits pin n (push_bit 1 data) b)"

definition i2c_write_byte :: "pins \<Rightarrow> u8 \<Rightarrow> i2c \<Rightarrow> u8 \<times> i2c" where
  "i2c_write_byte pin data b =
     (if \<not> i2c_active b then (I2C_ERR_BADCMD, b)
      else
        (let (err, b) = write_bits pin 8 data b
         in if err \<noteq> 0 then (err, b)
            else (let (nack, b) = i2c_read_bit pin b in (if nack then 0xFF else 0, b))))"

fun read_bits :: "pins \<Rightarrow> nat \<Rightarrow> u8 \<Rightarrow> i2c \<Rightarrow> u8 \<times> i2c" where
  "read_bits pin 0 result b = (result, b)"
| "read_bits pin (Suc n) result b =
     (let (v, b) = i2c_read_bit pin b;
          result = push_bit 1 result
      in read_bits pin n (if v then result OR 1 else result) b)"

text \<open>The error, the byte read (\<open>None\<close> when \<open>*data\<close> is not stored) and the bus.\<close>

definition i2c_read_byte :: "pins \<Rightarrow> bool \<Rightarrow> i2c \<Rightarrow> u8 \<times> u8 option \<times> i2c" where
  "i2c_read_byte pin nack b =
     (if \<not> i2c_active b then (I2C_ERR_BADCMD, None, b)
      else
        (let (result, b) = read_bits pin 8 0 b;
             (err, b) = i2c_write_bit pin nack b
         in if err \<noteq> 0 then (err, None, b) else (0, Some result, b)))"

section \<open>A listener on the bus\<close>

datatype bus_event = START | STOP | BIT bool

fun edge :: "level \<Rightarrow> level \<Rightarrow> bus_event list" where
  "edge (c, d) (c', d') =
     (if c \<and> c' then (if d \<and> \<not> d' then [START] else if \<not> d \<and> d' then [STOP] else [])
      else if \<not> c \<and> c' then [BIT d'] else [])"

fun decode :: "level list \<Rightarrow> bus_event list" where
  "decode (n # o' # w) = decode (o' # w) @ edge o' n"
| "decode w = []"

definition seen :: "i2c \<Rightarrow> bus_event list" where
  "seen b = decode (wave b)"

text \<open>The pins are used as open-drain outputs, and the listener knows the present levels.\<close>

definition bus_ok :: "i2c \<Rightarrow> bool" where
  "bus_ok b \<longleftrightarrow>
     (bit (DDRB b) SCL_BIT \<longrightarrow> \<not> bit (PORTB b) SCL_BIT) \<and>
     (bit (DDRB b) SDA_BIT \<longrightarrow> \<not> bit (PORTB b) SDA_BIT) \<and>
     wave b \<noteq> [] \<and> hd (wave b) = (line SCL_BIT b, line SDA_BIT b)"

abbreviation scl :: "i2c \<Rightarrow> bool" where "scl b \<equiv> line SCL_BIT b"
abbreviation sda :: "i2c \<Rightarrow> bool" where "sda b \<equiv> line SDA_BIT b"

lemma seen_Cons: "wave b \<noteq> [] \<Longrightarrow> decode (n # wave b) = seen b @ edge (hd (wave b)) n"
  by (cases "wave b") (auto simp: seen_def)

lemma edge_same [simp]: "edge l l = []"
  by (cases l) simp

lemma edge_low [simp]: "edge (c, d) (False, d') = []"
  by simp

definition sda_to :: "bool \<Rightarrow> i2c \<Rightarrow> i2c \<Rightarrow> bool" where
  "sda_to v b b' \<longleftrightarrow> bus_ok b' \<and> sda b' = v \<and> scl b' = scl b \<and> i2c_active b' = i2c_active b \<and>
     seen b' = seen b @ edge (scl b, sda b) (scl b, v)"

definition scl_to :: "bool \<Rightarrow> i2c \<Rightarrow> i2c \<Rightarrow> bool" where
  "scl_to v b b' \<longleftrightarrow> bus_ok b' \<and> scl b' = v \<and> sda b' = sda b \<and> i2c_active b' = i2c_active b \<and>
     seen b' = seen b @ edge (scl b, sda b) (v, sda b)"

lemmas pin_write_defs = write_ddr_def write_port_def observe_def read_pin_def line_def Let_def
  bit_bit_on bit_bit_off

lemma sda_high_effect: "bus_ok b \<Longrightarrow> sda_to True b (snd (i2c_sda_high pin b))"
  unfolding i2c_sda_high_def sda_to_def bus_ok_def
  by (auto simp: pin_write_defs seen_def seen_Cons)

lemma sda_low_effect: "bus_ok b \<Longrightarrow> sda_to False b (i2c_sda_low b)"
  unfolding i2c_sda_low_def sda_to_def bus_ok_def
  by (auto simp: pin_write_defs seen_def seen_Cons)

lemma scl_high_effect: "bus_ok b \<Longrightarrow> scl_to True b (snd (i2c_scl_high pin b))"
  unfolding i2c_scl_high_def scl_to_def bus_ok_def
  by (auto simp: pin_write_defs seen_def seen_Cons)

lemma scl_low_effect: "bus_ok b \<Longrightarrow> scl_to False b (i2c_scl_low b)"
  unfolding i2c_scl_low_def scl_to_def bus_ok_def
  by (auto simp: pin_write_defs seen_def seen_Cons)

lemma i2c_delay_frame [simp]:
  "bus_ok (i2c_delay b) = bus_ok b" "line k (i2c_delay b) = line k b" "seen (i2c_delay b) = seen b"
  "i2c_active (i2c_delay b) = i2c_active b" "wave (i2c_delay b) = wave b"
  by (simp_all add: i2c_delay_def bus_ok_def line_def seen_def)

text \<open>What \<open>i2c_sda_high\<close> and \<open>i2c_scl_high\<close> return is a read at the waveform they leave.\<close>

lemma high_value:
  "fst (i2c_sda_high pin b) = bit (pin (pin_reads b) (wave (snd (i2c_sda_high pin b)))) SDA_BIT"
  "fst (i2c_scl_high pin b) = bit (pin (pin_reads b) (wave (snd (i2c_scl_high pin b)))) SCL_BIT"
  by (simp_all add: i2c_sda_high_def i2c_scl_high_def write_ddr_def write_port_def observe_def
      read_pin_def Let_def bit_test_iff)

text \<open>A sample: the SDA level read while the clock is high and the listener has seen \<open>evs\<close>.\<close>

definition sample :: "pins \<Rightarrow> bus_event list \<Rightarrow> bool \<Rightarrow> bool" where
  "sample pin evs v \<longleftrightarrow>
     (\<exists>n w. w \<noteq> [] \<and> hd w = (True, True) \<and> decode w = evs \<and> v = bit (pin n w) SDA_BIT)"

lemma bus_ok_wave: "bus_ok b \<Longrightarrow> wave b \<noteq> [] \<and> hd (wave b) = (scl b, sda b)"
  by (simp add: bus_ok_def)

lemma clocked_sda_high:
  assumes "bus_ok b" "scl b" "sda b"
  shows "sample pin (seen b) (fst (i2c_sda_high pin b))"
proof -
  let ?b = "snd (i2c_sda_high pin b)"
  have "sda_to True b ?b" using assms(1) by (rule sda_high_effect)
  then have "bus_ok ?b" "scl ?b" "sda ?b" "seen ?b = seen b"
    using assms(2,3) by (auto simp: sda_to_def)
  then show ?thesis
    using bus_ok_wave [of ?b] unfolding sample_def high_value by (auto simp: seen_def)
qed

lemma write_bit_effect:
  assumes ok: "bus_ok b" and low: "\<not> scl b" and run: "i2c_write_bit pin v b = (err, b')"
  shows "bus_ok b' \<and> i2c_active b' = i2c_active b \<and> seen b' = seen b @ [BIT v] \<and> sda b' = v \<and>
    (if err = 0 then \<not> scl b' else err = I2C_ERR_WRITE_COLL \<and> v) \<and>
    (v \<longrightarrow> sample pin (seen b @ [BIT True]) (err = 0))"
proof -
  define b1 where "b1 = (if v then snd (i2c_sda_high pin b) else i2c_sda_low b)"
  define b2 where "b2 = snd (i2c_scl_high pin (i2c_delay b1))"
  have b1: "bus_ok b1" "sda b1 = v" "\<not> scl b1" "i2c_active b1 = i2c_active b" "seen b1 = seen b"
    using sda_high_effect [OF ok] sda_low_effect [OF ok] low by (auto simp: b1_def sda_to_def)
  have b2: "bus_ok b2" "sda b2 = v" "scl b2" "i2c_active b2 = i2c_active b"
    "seen b2 = seen b @ [BIT v]"
    using scl_high_effect [of "i2c_delay b1" pin] b1 by (auto simp: b2_def scl_to_def)
  define b3 where "b3 = (if v then snd (i2c_sda_high pin b2) else b2)"
  have b3: "bus_ok b3" "sda b3 = v" "scl b3" "i2c_active b3 = i2c_active b"
    "seen b3 = seen b @ [BIT v]"
    using sda_high_effect [OF b2(1), of pin] b2 by (auto simp: b3_def sda_to_def)
  have b4: "scl_to False (i2c_delay b3) (i2c_scl_low (i2c_delay b3))"
    using b3(1) by (intro scl_low_effect) simp
  have smp: "v \<longrightarrow> sample pin (seen b @ [BIT True]) (fst (i2c_sda_high pin b2))"
    using clocked_sda_high [OF b2(1,3), of pin] b2(2,5) by auto
  have eq: "i2c_write_bit pin v b =
    (if v \<and> \<not> fst (i2c_sda_high pin b2) then (I2C_ERR_WRITE_COLL, b3)
     else (0, i2c_scl_low (i2c_delay b3)))"
    by (auto simp: i2c_write_bit_def Let_def b1_def b2_def b3_def split: prod.splits)
  show ?thesis
    using run b3 b4 smp unfolding eq
    by (auto simp: scl_to_def I2C_ERR_WRITE_COLL_def split: if_splits)
qed

lemma read_bit_effect:
  assumes ok: "bus_ok b" and low: "\<not> scl b" and run: "i2c_read_bit pin b = (v, b')"
  shows "bus_ok b' \<and> i2c_active b' = i2c_active b \<and> seen b' = seen b @ [BIT True] \<and> sda b' \<and>
    \<not> scl b' \<and> sample pin (seen b @ [BIT True]) v"
proof -
  define b1 where "b1 = snd (i2c_sda_high pin b)"
  define b2 where "b2 = snd (i2c_scl_high pin (i2c_delay b1))"
  define b3 where "b3 = snd (i2c_sda_high pin b2)"
  have b1: "bus_ok b1" "sda b1" "\<not> scl b1" "i2c_active b1 = i2c_active b" "seen b1 = seen b"
    using sda_high_effect [OF ok, of pin] low by (auto simp: b1_def sda_to_def)
  have b2: "bus_ok b2" "sda b2" "scl b2" "i2c_active b2 = i2c_active b"
    "seen b2 = seen b @ [BIT True]"
    using scl_high_effect [of "i2c_delay b1" pin] b1 by (auto simp: b2_def scl_to_def)
  have b3: "bus_ok b3" "sda b3" "scl b3" "i2c_active b3 = i2c_active b"
    "seen b3 = seen b @ [BIT True]"
    using sda_high_effect [OF b2(1), of pin] b2 by (auto simp: b3_def sda_to_def)
  have b4: "scl_to False (i2c_delay b3) (i2c_scl_low (i2c_delay b3))"
    using b3(1) by (intro scl_low_effect) simp
  have eq: "i2c_read_bit pin b = (fst (i2c_sda_high pin b2), i2c_scl_low (i2c_delay b3))"
    by (auto simp: i2c_read_bit_def Let_def b1_def b2_def b3_def split: prod.splits)
  show ?thesis
    using run b3 b4 clocked_sda_high [OF b2(1,3,2), of pin] b2(5) unfolding eq
    by (auto simp: scl_to_def)
qed

section \<open>What a byte looks like\<close>

definition msb_first :: "u8 \<Rightarrow> bus_event list" where
  "msb_first d = map (\<lambda>i. BIT (bit d (7 - i))) [0..<8]"

text \<open>The state between two bytes: the clock is held low.\<close>

definition between :: "i2c \<Rightarrow> bool" where
  "between b \<longleftrightarrow> bus_ok b \<and> \<not> scl b \<and> i2c_active b"

lemma top_bit: "(d AND 0x80 \<noteq> 0) = bit (d :: u8) 7"
  using bit_test_iff [of d 7] by (simp add: bit_test_def)

lemma bit_shl1:
  assumes "i < 7" shows "bit (push_bit 1 (d :: u8)) (7 - i) = bit d (7 - Suc i)"
proof -
  have "possible_bit TYPE(u8) (7 - i)" by (simp add: possible_bit_word)
  then have "bit (push_bit 1 d) (7 - i) = (1 \<le> 7 - i \<and> bit d (7 - i - 1))"
    by (simp only: bit_push_bit_iff) simp
  moreover have "1 \<le> 7 - i" using assms by simp
  ultimately show ?thesis by (simp del: push_bit_Suc)
qed

lemma write_bits_effect:
  assumes "between b" "write_bits pin n d b = (0, b')" "n \<le> 8"
  shows "between b' \<and> seen b' = seen b @ map (\<lambda>i. BIT (bit d (7 - i))) [0..<n]"
  using assms
proof (induction n arbitrary: d b)
  case (Suc n)
  obtain err b1 where 1: "i2c_write_bit pin (bit d 7) b = (err, b1)" by fastforce
  have b1: "bus_ok b1" "i2c_active b1" "seen b1 = seen b @ [BIT (bit d 7)]" and
    err: "if err = 0 then \<not> scl b1 else err = I2C_ERR_WRITE_COLL \<and> bit d 7"
    using write_bit_effect [OF _ _ 1] Suc.prems(1) by (auto simp: between_def)
  have e0: "err = 0" using Suc.prems(2) 1 by (auto simp: top_bit split: if_splits)
  then have r: "write_bits pin n (push_bit 1 d) b1 = (0, b')"
    using Suc.prems(2) 1 by (simp add: top_bit)
  have "between b1" using b1 err e0 by (simp add: between_def)
  from Suc.IH [OF this r] Suc.prems(3) have
    IH: "between b'" "seen b' = seen b1 @ map (\<lambda>i. BIT (bit (push_bit 1 d) (7 - i))) [0..<n]" by auto
  have "map (\<lambda>i. BIT (bit (push_bit 1 d) (7 - i))) [0..<n] = map (\<lambda>i. BIT (bit d (7 - Suc i))) [0..<n]"
    using Suc.prems(3) by (intro map_cong refl arg_cong [of _ _ BIT] bit_shl1) auto
  also have "\<dots> = map (\<lambda>i. BIT (bit d (7 - i))) [1..<Suc n]"
    by (simp add: map_Suc_upt [symmetric] del: upt_Suc)
  finally show ?case
    using IH b1(3) by (simp add: upt_conv_Cons del: upt_Suc)
qed (auto)

lemma write_bits_err:
  "bus_ok b \<Longrightarrow> \<not> scl b \<Longrightarrow> write_bits pin n d b = (err, b') \<Longrightarrow>
     bus_ok b' \<and> i2c_active b' = i2c_active b \<and> (err = 0 \<or> err = I2C_ERR_WRITE_COLL)"
proof (induction n arbitrary: d b)
  case (Suc n)
  obtain e b1 where 1: "i2c_write_bit pin (d AND 0x80 \<noteq> 0) b = (e, b1)" by fastforce
  note w = write_bit_effect [OF Suc.prems(1,2) 1]
  show ?case
  proof (cases "e = 0")
    case True
    with w have "bus_ok b1" "\<not> scl b1" by auto
    with Suc.IH [OF this] Suc.prems(3) 1 True w show ?thesis by auto
  next
    case False
    with w Suc.prems(3) 1 show ?thesis by (auto split: if_splits)
  qed
qed auto

lemma write_byte_effect:
  assumes "between b" "i2c_write_byte pin d b = (err, b')" "err \<noteq> I2C_ERR_WRITE_COLL"
  shows "between b' \<and> seen b' = seen b @ msb_first d @ [BIT True] \<and>
    (err = 0 \<or> err = 0xFF) \<and> sample pin (seen b') (err = 0xFF)"
proof -
  obtain e b1 where 1: "write_bits pin 8 d b = (e, b1)" by fastforce
  obtain v b2 where 2: "i2c_read_bit pin b1 = (v, b2)" by fastforce
  have act: "i2c_active b" "bus_ok b" "\<not> scl b" using assms(1) by (simp_all add: between_def)
  have e0: "e = 0"
    using assms(2,3) 1 act write_bits_err [OF act(2,3) 1]
    by (auto simp: i2c_write_byte_def split: if_splits)
  have run: "(if v then 0xFF else 0) = err" "b2 = b'"
    using assms(2) act(1) 1 2 e0 by (auto simp: i2c_write_byte_def)
  from write_bits_effect [OF assms(1) 1 [unfolded e0]] have
    w: "between b1" "seen b1 = seen b @ msb_first d" by (auto simp: msb_first_def)
  from read_bit_effect [OF _ _ 2] w run show ?thesis
    by (auto simp: between_def split: if_splits)
qed

text \<open>A byte on the wire: when the clock is held low and \<open>i2c_write_byte\<close> ends
  without a collision, a listener has sampled exactly the eight bits of the byte, most significant
  first, and the released acknowledge bit; the result tells whether the acknowledge was missing,
  and the bus is ready for the next byte.\<close>

theorem i2c_write_byte_wire:
  assumes "between b" "i2c_write_byte pin d b = (err, b')" "err \<noteq> I2C_ERR_WRITE_COLL"
  shows "between b' \<and> seen b' = seen b @ msb_first d @ [BIT True] \<and>
    (err = 0 \<or> err = 0xFF) \<and> sample pin (seen b') (err = 0xFF)"
  using assms by (rule write_byte_effect)

section \<open>Start and stop\<close>

definition bus_idle :: "i2c \<Rightarrow> bool" where
  "bus_idle b \<longleftrightarrow> bus_ok b \<and> scl b \<and> sda b"

lemma active_update_frame [simp]:
  "bus_ok (b\<lparr>i2c_active := a\<rparr>) = bus_ok b" "line k (b\<lparr>i2c_active := a\<rparr>) = line k b"
  "seen (b\<lparr>i2c_active := a\<rparr>) = seen b"
  by (simp_all add: bus_ok_def line_def seen_def)

lemma begin_start_effect:
  assumes "bus_ok b" "scl b" "sda b"
  shows "between ((i2c_delay (i2c_scl_low (i2c_delay (i2c_sda_low b))))\<lparr>i2c_active := True\<rparr>)"
    "seen ((i2c_delay (i2c_scl_low (i2c_delay (i2c_sda_low b))))\<lparr>i2c_active := True\<rparr>) = seen b @ [START]"
proof -
  have 1: "sda_to False b (i2c_sda_low b)" using assms(1) by (rule sda_low_effect)
  then have "scl_to False (i2c_delay (i2c_sda_low b)) (i2c_scl_low (i2c_delay (i2c_sda_low b)))"
    by (intro scl_low_effect) (simp add: sda_to_def)
  with 1 assms show "between ((i2c_delay (i2c_scl_low (i2c_delay (i2c_sda_low b))))\<lparr>i2c_active := True\<rparr>)"
    "seen ((i2c_delay (i2c_scl_low (i2c_delay (i2c_sda_low b))))\<lparr>i2c_active := True\<rparr>) = seen b @ [START]"
    by (auto simp: between_def sda_to_def scl_to_def)
qed

lemma both_high_effect:
  fixes pin :: pins
  assumes "bus_ok b"
  defines "b1 \<equiv> snd (i2c_sda_high pin b)"
  defines "b2 \<equiv> snd (i2c_scl_high pin b1)"
  shows "bus_ok b1" "sda b1" "scl b1 = scl b" "i2c_active b1 = i2c_active b"
    "bus_ok b2" "sda b2" "scl b2" "i2c_active b2 = i2c_active b"
    "seen b2 = seen b @ edge (scl b, sda b) (scl b, True) @ edge (scl b, True) (True, True)"
  using sda_high_effect [OF assms(1), of pin] scl_high_effect [of b1 pin]
  by (auto simp: b1_def b2_def sda_to_def scl_to_def)

text \<open>The first start of a transaction: from released lines it succeeds exactly when both lines
  read high, and then the listener sees a start condition.\<close>

lemma first_start_effect:
  assumes "bus_idle b" "\<not> i2c_active b" "i2c_start pin b = (err, b')"
  shows "if err = 0 then between b' \<and> seen b' = seen b @ [START]
         else err = I2C_ERR_BUSY \<and> bus_ok b' \<and> \<not> i2c_active b'"
proof -
  have ok: "bus_ok b" "scl b" "sda b" using assms(1) by (simp_all add: bus_idle_def)
  define b1 where "b1 = snd (i2c_sda_high pin b)"
  define b2 where "b2 = snd (i2c_scl_high pin b1)"
  note h = both_high_effect [OF ok(1), of pin, folded b1_def, folded b2_def]
  have eq: "i2c_start pin b = (if \<not> fst (i2c_sda_high pin b) then (I2C_ERR_BUSY, b1)
     else if \<not> fst (i2c_scl_high pin b1) then (I2C_ERR_BUSY, b2)
     else (0, (i2c_delay (i2c_scl_low (i2c_delay (i2c_sda_low b2))))\<lparr>i2c_active := True\<rparr>))"
    using assms(2) by (auto simp: i2c_start_def Let_def b1_def b2_def split: prod.splits)
  show ?thesis
    using assms(2,3) h ok begin_start_effect [OF h(5,7,6)] unfolding eq
    by (auto simp: I2C_ERR_BUSY_def split: if_splits)
qed

lemma bus_ok_start: "bus_ok b \<Longrightarrow> bus_ok (snd (i2c_start pin b))"
proof -
  assume ok: "bus_ok b"
  define b1 where "b1 = snd (i2c_sda_high pin b)"
  define b2 where "b2 = snd (i2c_scl_high pin b1)"
  define b2' where "b2' = snd (i2c_scl_high pin (i2c_delay b1))"
  note h = both_high_effect [OF ok(1), of pin, folded b1_def, folded b2_def]
  have h': "scl_to True (i2c_delay b1) b2'"
    unfolding b2'_def using h(1) by (intro scl_high_effect) simp
  then have "between ((i2c_delay (i2c_scl_low (i2c_delay (i2c_sda_low (i2c_delay b2')))))\<lparr>i2c_active := True\<rparr>)"
    using h(2) by (intro begin_start_effect) (auto simp: scl_to_def)
  then show ?thesis
    using h begin_start_effect(1) [OF h(5,7,6)]
    by (auto simp: i2c_start_def Let_def b1_def b2_def b2'_def between_def split: prod.splits)
qed

lemma i2c_stop_effect:
  assumes ok: "bus_ok b" and run: "i2c_stop pin b = (err, b')"
  shows "bus_idle b' \<and> (\<not> scl b \<longrightarrow> seen b' = seen b @ [BIT False, STOP]) \<and>
    (err = 0 \<longrightarrow> \<not> i2c_active b')"
proof -
  define b1 where "b1 = i2c_delay (i2c_sda_low b)"
  define b2 where "b2 = snd (i2c_scl_high pin b1)"
  define b3 where "b3 = i2c_delay (snd (i2c_sda_high pin (i2c_delay b2)))"
  have b1: "bus_ok b1" "\<not> sda b1" "scl b1 = scl b" "\<not> scl b \<longrightarrow> seen b1 = seen b"
    using sda_low_effect [OF ok] by (auto simp: b1_def sda_to_def)
  have b2: "bus_ok b2" "\<not> sda b2" "scl b2" "\<not> scl b \<longrightarrow> seen b2 = seen b @ [BIT False]"
    using scl_high_effect [OF b1(1), of pin] b1 by (auto simp: b2_def scl_to_def)
  have b3: "bus_ok b3" "sda b3" "scl b3" "\<not> scl b \<longrightarrow> seen b3 = seen b @ [BIT False, STOP]"
    using sda_high_effect [of "i2c_delay b2" pin] b2 by (auto simp: b3_def sda_to_def)
  have rd: "bus_ok (snd (read_pin pin k c)) = bus_ok c" "line j (snd (read_pin pin k c)) = line j c"
    "seen (snd (read_pin pin k c)) = seen c" for k j c
    by (simp_all add: read_pin_def bus_ok_def line_def seen_def)
  have eq: "i2c_stop pin b =
     (if \<not> i2c_active b3 then (I2C_ERR_BADCMD, b3)
      else if \<not> fst (read_pin pin SCL_BIT b3) then (I2C_ERR_BUSY, snd (read_pin pin SCL_BIT b3))
      else let c = snd (read_pin pin SCL_BIT b3)
           in if \<not> fst (read_pin pin SDA_BIT c) then (I2C_ERR_BUSY, snd (read_pin pin SDA_BIT c))
              else (0, (snd (read_pin pin SDA_BIT c))\<lparr>i2c_active := False\<rparr>))"
    by (auto simp: i2c_stop_def Let_def b1_def b2_def b3_def split: prod.splits)
  show ?thesis
    using run b3 unfolding eq
    by (auto simp: bus_idle_def rd Let_def i2c_err_defs split: if_splits)
qed

section \<open>The command interpreter\<close>

definition is_hex :: "char \<Rightarrow> bool" where
  "is_hex val \<longleftrightarrow> hex_digit val \<noteq> None \<or> val = CHR '' '' \<or> val = CHR '':''"

text \<open>The locals of \<open>run_command\<close> that live across commands; \<open>resp\<close> is \<open>resp_buffer\<close> up to
  \<open>resp_len\<close>.\<close>

record i2c_run =
  bus :: i2c
  addr :: int
  resp :: "u8 list"
  in_transaction :: bool
  last_read :: bool
  last_nack :: bool

definition addr_byte :: "bool \<Rightarrow> int \<Rightarrow> u8" where
  "addr_byte rd a = of_int (a * 2 + (if rd then 1 else 0))"

text \<open>The block that starts a transaction in the wanted direction unless one is running.\<close>

definition ensure_started :: "pins \<Rightarrow> bool \<Rightarrow> i2c_run \<Rightarrow> u8 \<times> i2c_run" where
  "ensure_started pin rd st =
     (if \<not> in_transaction st \<or> last_read st \<noteq> rd
      then
        (let (err, b) = i2c_start pin (bus st); st = st\<lparr>bus := b\<rparr>
         in if err \<noteq> 0 then (err, st)
            else
              (let (err, b) = i2c_write_byte pin (addr_byte rd (addr st)) b
               in (if err = 0xFF then I2C_ERR_ADDR_NACK else err, st\<lparr>bus := b\<rparr>)))
      else (0, st))"

text \<open>The read loop with \<open>n\<close> bytes to go.\<close>

fun read_loop :: "pins \<Rightarrow> nat \<Rightarrow> bool \<Rightarrow> nat \<Rightarrow> i2c_run \<Rightarrow> (u8 \<times> i2c_run) outcome" where
  "read_loop pin resp_size final_nack 0 st = Ret (0, st)"
| "read_loop pin resp_size final_nack (Suc n) st =
     (let nack = (final_nack \<and> n = 0);
          (err, data, b) = i2c_read_byte pin nack (bus st);
          st = st\<lparr>last_nack := nack, bus := b\<rparr>
      in case data of
           None \<Rightarrow> Ret (err, st)
         | Some d \<Rightarrow>
             if resp_size \<le> length (resp st) then Overrun
             else
               (let st = st\<lparr>resp := resp st @ [d]\<rparr>
                in if resp_size \<le> length (resp st) then Ret (I2C_ERR_RXBUFF_FULL, st)
                   else read_loop pin resp_size final_nack n st))"

lemma parse_hex_loop_shorter:
  "parse_hex_loop n v arg = (0, v', rest) \<Longrightarrow> length rest + n \<le> length arg"
proof (induction n arbitrary: v arg)
  case (Suc n)
  have "length (dropWhile is_skip arg) \<le> length arg" by (rule length_dropWhile_le)
  with Suc show ?case by (fastforce split: list.splits option.splits)
qed simp

lemma parse_hex2_shorter: "parse_hex2 arg = (0, v, rest) \<Longrightarrow> length rest + 2 \<le> length arg"
  unfolding parse_hex2_def by (rule parse_hex_loop_shorter)

text \<open>The loop that writes data bytes as long as the command goes on with a hexadecimal digit, a
  blank or a colon.\<close>

function write_loop :: "pins \<Rightarrow> string \<Rightarrow> i2c_run \<Rightarrow> u8 \<times> string \<times> i2c_run" where
  "write_loop pin arg st =
     (if arg = [] \<or> \<not> is_hex (hd arg) then (0, arg, st)
      else
        (case parse_hex2 arg of (err, val, rest) \<Rightarrow>
           if err \<noteq> 0 then (err, rest, st)
           else
             (case i2c_write_byte pin val (bus st) of (err, b) \<Rightarrow>
                if err = 0xFF then (I2C_ERR_DATA_NACK, rest, st\<lparr>bus := b\<rparr>)
                else if err \<noteq> 0 then (err, rest, st\<lparr>bus := b\<rparr>)
                else write_loop pin rest (st\<lparr>bus := b\<rparr>))))"
  by auto
termination
  by (relation "measure (\<lambda>(pin, arg, st). length arg)") (auto dest!: sym [of _ "parse_hex2 _"] parse_hex2_shorter)

declare write_loop.simps [simp del]

lemma write_loop_shorter: "write_loop pin arg st = (err, rest, st') \<Longrightarrow> err = 0 \<Longrightarrow> length rest \<le> length arg"
proof (induction pin arg st rule: write_loop.induct)
  case (1 pin arg st)
  show ?case
    using 1 parse_hex2_shorter [of arg]
    by (subst (asm) (2) write_loop.simps)
       (fastforce split: if_splits prod.splits simp: i2c_err_defs)
qed

text \<open>One pass of the loop, for a command that starts with the given character: the error code,
  the rest of the command and the new locals.\<close>

definition cmd_address :: "string \<Rightarrow> i2c_run \<Rightarrow> u8 \<times> string \<times> i2c_run" where
  "cmd_address arg st =
     (let (err, val, rest) = parse_hex2 arg
      in if err \<noteq> 0 then (err, rest, st) else (0, rest, st\<lparr>addr := uint val\<rparr>))"

definition cmd_read :: "pins \<Rightarrow> nat \<Rightarrow> bool \<Rightarrow> string \<Rightarrow> i2c_run \<Rightarrow> (u8 \<times> string \<times> i2c_run) outcome" where
  "cmd_read pin resp_size final_nack arg st =
     (let (err, val, rest) = parse_hex2 arg
      in if err \<noteq> 0 then Ret (err, rest, st)
         else if addr st < 0 \<or> addr st > 0x7F then Ret (I2C_ERR_BADADDR, rest, st)
         else
           (let (err, st) = ensure_started pin True st
            in if err \<noteq> 0 then Ret (err, rest, st)
               else
                 obind (read_loop pin resp_size final_nack (unat val)
                         (st\<lparr>in_transaction := True, last_read := True\<rparr>))
                   (\<lambda>(err, st).
                      if err \<noteq> 0 then Ret (err, rest, st)
                      else Ret (0, rest, if final_nack then st\<lparr>in_transaction := False\<rparr> else st))))"

definition cmd_write :: "pins \<Rightarrow> string \<Rightarrow> i2c_run \<Rightarrow> u8 \<times> string \<times> i2c_run" where
  "cmd_write pin arg st =
     (if addr st < 0 \<or> addr st > 0x7F then (I2C_ERR_BADADDR, arg, st)
      else
        (let (err, st) = ensure_started pin False st
         in if err \<noteq> 0 then (err, arg, st)
            else write_loop pin arg (st\<lparr>in_transaction := True, last_read := False\<rparr>)))"

definition cmd_poll :: "string \<Rightarrow> i2c_run \<Rightarrow> u8 \<times> string \<times> i2c_run" where
  "cmd_poll arg st =
     (let (err, mask, rest) = parse_hex2 arg
      in if err \<noteq> 0 then (err, rest, st)
         else
           (let (err, val, rest) = parse_hex2 rest
            in if err \<noteq> 0 then (err, rest, st)
               else if resp st = [] then (I2C_ERR_BADCMD, rest, st)
               else if last (resp st) AND mask \<noteq> val AND mask
               then (if last_nack st then 0xFF else 0xFE, rest, st)
               else (0, rest, st)))"

definition step_command :: "pins \<Rightarrow> nat \<Rightarrow> char \<Rightarrow> string \<Rightarrow> i2c_run \<Rightarrow> (u8 \<times> string \<times> i2c_run) outcome" where
  "step_command pin resp_size c rest st =
     (if c = CHR ''s'' then Ret (cmd_address rest st)
      else if c = CHR ''n'' \<or> c = CHR ''r'' then cmd_read pin resp_size (c = CHR ''r'') rest st
      else if c = CHR ''w'' then Ret (cmd_write pin rest st)
      else if c = CHR ''p'' then Ret (cmd_poll rest st)
      else if c = CHR '' '' \<or> c = CHR '':'' then Ret (0, rest, st)
      else if c = CHR '';''
      then Ret (0, rest, st\<lparr>bus := snd (i2c_stop pin (bus st)), in_transaction := False\<rparr>)
      else Ret (I2C_ERR_BADCMD, c # rest, st))"

lemma step_command_shorter:
  "step_command pin resp_size c arg st = Ret (0, rest, st') \<Longrightarrow> length rest \<le> length arg"
  by (auto simp: step_command_def cmd_address_def cmd_read_def cmd_write_def cmd_poll_def Let_def
      obind_eq_Ret i2c_err_defs
      dest!: parse_hex2_shorter write_loop_shorter split: if_splits prod.splits)

lemma obind_cong [fundef_cong]:
  "m = m' \<Longrightarrow> (\<And>x. m' = Ret x \<Longrightarrow> f x = f' x) \<Longrightarrow> obind m f = obind m' f'"
  by (cases m') auto

function run_command :: "pins \<Rightarrow> nat \<Rightarrow> string \<Rightarrow> i2c_run \<Rightarrow> (u8 \<times> i2c_run) outcome" where
  "run_command pin resp_size [] st = Ret (0, st)"
| "run_command pin resp_size (c # arg) st =
     obind (step_command pin resp_size c arg st) (\<lambda>(err, rest, st').
       if err \<noteq> 0 then Ret (err, st') else run_command pin resp_size rest st')"
  by pat_completeness auto
termination
  by (relation "measure (\<lambda>(pin, resp_size, arg, st). length arg)")
     (auto dest: step_command_shorter simp: less_Suc_eq_le)

definition err_table :: "string list" where
  "err_table = [''i2c-no-error'', ''i2c-timeout'', ''i2c-write-coll'', ''i2c-rxbuff-full'', ''i2c-badhex'',
     ''i2c-badcmd'', ''i2c-stuck-pin'', ''i2c-busy'', ''i2c-badaddr'', ''i2c-out-full'',
     ''i2c-nack-addr'', ''i2c-nack-data-tx'']"

definition get_errstr_P :: "u8 \<Rightarrow> string" where
  "get_errstr_P err = (if err > I2C_ERR_DATA_NACK then ''i2c-unknown'' else err_table ! unat err)"

text \<open>The loop that prints the bytes read; \<open>None\<close> when it finds no place left.\<close>

fun resp_hex :: "nat \<Rightarrow> nat \<Rightarrow> u8 list \<Rightarrow> string \<Rightarrow> string option outcome" where
  "resp_hex room response_len [] out = obind (store room out) (\<lambda>s. Ret (Some s))"
| "resp_hex room response_len (d # ds) out =
     (if response_len \<le> length out then Ret None
      else if room < length out + 2 then Overrun
      else resp_hex room response_len ds (out @ uint8_to_hex d))"

text \<open>\<open>response\<close> is the string the buffer holds at the start, \<open>room\<close> the bytes that belong to it.\<close>

definition i2c_command ::
    "pins \<Rightarrow> string \<Rightarrow> nat \<Rightarrow> nat \<Rightarrow> string \<Rightarrow> i2c \<Rightarrow> (u8 \<times> string \<times> i2c) outcome" where
  "i2c_command pin cmd room response_len response b =
     obind (run_command pin 10 cmd
             \<lparr>bus = b, addr = -1, resp = [], in_transaction = False, last_read = False, last_nack = False\<rparr>)
       (\<lambda>(err, st).
          let b = snd (i2c_stop pin (bus st))
          in if err = 0xFF
             then obind (store room (response @ '' poll early'')) (\<lambda>s. Ret (err, s, b))
             else if err \<noteq> 0
             then obind (store room (response @ '' ERR '' @ get_errstr_P err)) (\<lambda>s. Ret (err, s, b))
             else
               obind (store room (response @ '' OK '')) (\<lambda>s.
               obind (resp_hex room response_len (resp st) s) (\<lambda>r.
                 case r of
                   Some s \<Rightarrow> Ret (0, s, b)
                 | None \<Rightarrow> obind (store room '' ERR OVERFLOW'') (\<lambda>s. Ret (I2C_ERR_OUTPUT_FULL, s, b)))))"

section \<open>Commands keep to their buffers and release the bus\<close>

lemma scl_low_between:
  "bus_ok b \<Longrightarrow> bus_ok (snd (i2c_scl_high pin b)) \<and> bus_ok (snd (i2c_sda_high pin b)) \<and>
     bus_ok (i2c_scl_low b) \<and> bus_ok (i2c_sda_low b)"
  using sda_high_effect sda_low_effect scl_high_effect scl_low_effect
  by (auto simp: sda_to_def scl_to_def)

lemma bus_ok_write_bit: "bus_ok b \<Longrightarrow> bus_ok (snd (i2c_write_bit pin v b))"
  using scl_low_between
  by (auto simp: i2c_write_bit_def Let_def split: prod.splits) (metis i2c_delay_frame(1) snd_conv)+

lemma bus_ok_read_bit: "bus_ok b \<Longrightarrow> bus_ok (snd (i2c_read_bit pin b))"
  using scl_low_between
  by (auto simp: i2c_read_bit_def Let_def split: prod.splits) (metis i2c_delay_frame(1) snd_conv)+

lemma bus_ok_write_bits: "bus_ok b \<Longrightarrow> bus_ok (snd (write_bits pin n d b))"
proof (induction n arbitrary: d b)
  case (Suc n)
  show ?case
    using Suc.IH bus_ok_write_bit [OF Suc.prems, of pin "d AND 0x80 \<noteq> 0"]
    by (auto split: prod.splits)
qed simp

lemma bus_ok_write_byte: "bus_ok b \<Longrightarrow> bus_ok (snd (i2c_write_byte pin d b))"
  using bus_ok_write_bits [of b pin 8 d] bus_ok_read_bit [of "snd (write_bits pin 8 d b)" pin]
  by (auto simp: i2c_write_byte_def split: prod.splits)

lemma bus_ok_read_bits: "bus_ok b \<Longrightarrow> bus_ok (snd (read_bits pin n r b))"
proof (induction n arbitrary: r b)
  case (Suc n)
  show ?case
    using Suc.IH bus_ok_read_bit [OF Suc.prems, of pin] by (auto simp: Let_def split: prod.splits)
qed simp

lemma bus_ok_read_byte: "bus_ok b \<Longrightarrow> bus_ok (snd (snd (i2c_read_byte pin nack b)))"
  using bus_ok_read_bits [of b pin 8 0] bus_ok_write_bit [of "snd (read_bits pin 8 0 b)" pin nack]
  by (auto simp: i2c_read_byte_def split: prod.splits)

lemmas bus_ok_intros = bus_ok_start bus_ok_write_byte bus_ok_read_byte

lemma bus_ok_stop: "bus_ok b \<Longrightarrow> bus_ok (snd (i2c_stop pin b))"
  using i2c_stop_effect [of b pin] by (cases "i2c_stop pin b") (auto simp: bus_idle_def)

text \<open>While commands run there is room for one more byte; after an error the buffer may be full.\<close>

definition run_inv :: "nat \<Rightarrow> u8 \<times> i2c_run \<Rightarrow> bool" where
  "run_inv resp_size = (\<lambda>(err, st). bus_ok (bus st) \<and> length (resp st) \<le> resp_size \<and>
     (err = 0 \<longrightarrow> length (resp st) < resp_size))"

lemma ensure_started_inv:
  assumes "run_inv n (0, st)" "ensure_started pin rd st = (err, st')"
  shows "run_inv n (0, st')"
proof -
  obtain e b where 1: "i2c_start pin (bus st) = (e, b)" by fastforce
  obtain e2 b2 where
    2: "i2c_write_byte pin (addr_byte rd (addr st)) b = (e2, b2)" by fastforce
  have "bus_ok b" "bus_ok b2"
    using assms(1) bus_ok_start [of "bus st" pin]
      bus_ok_write_byte [of b pin "addr_byte rd (addr st)"] 1 2
    by (auto simp: run_inv_def)
  then show ?thesis
    using assms 1 2 by (auto simp: ensure_started_def run_inv_def Let_def split: if_splits)
qed

lemma run_inv_weaken: "run_inv n (0, st) \<Longrightarrow> run_inv n (err, st)"
  by (auto simp: run_inv_def)

lemma read_loop_inv:
  "run_inv n (0, st) \<Longrightarrow> \<exists>r. read_loop pin n final_nack k st = Ret r \<and> run_inv n r"
proof (induction k arbitrary: st)
  case (Suc k)
  define nack where "nack = (final_nack \<and> k = 0)"
  obtain err data b where 1: "i2c_read_byte pin nack (bus st) = (err, data, b)"
    by (metis prod.exhaust)
  have b: "bus_ok b" using bus_ok_read_byte [of "bus st" pin nack] Suc.prems 1 by (simp add: run_inv_def)
  have len: "length (resp st) < n" using Suc.prems by (simp add: run_inv_def)
  show ?case
  proof (cases data)
    case None
    then show ?thesis
      using 1 b len by (auto simp: nack_def [symmetric] run_inv_def)
  next
    case (Some d)
    let ?st = "st\<lparr>last_nack := nack, bus := b, resp := resp st @ [d]\<rparr>"
    show ?thesis
    proof (cases "n \<le> length (resp ?st)")
      case True
      then show ?thesis using 1 b len Some
        by (auto simp: nack_def [symmetric] run_inv_def I2C_ERR_RXBUFF_FULL_def)
    next
      case False
      then have "run_inv n (0, ?st)" using b by (simp add: run_inv_def)
      from Suc.IH [OF this] False len show ?thesis
        using 1 Some by (simp add: nack_def [symmetric])
    qed
  qed
qed simp

lemma write_loop_inv:
  "run_inv n (0, st) \<Longrightarrow> write_loop pin arg st = (err, rest, st') \<Longrightarrow> run_inv n (0, st')"
proof (induction pin arg st rule: write_loop.induct)
  case (1 pin arg st)
  have step: "run_inv n (0, st\<lparr>bus := snd (i2c_write_byte pin v (bus st))\<rparr>)" for v
    using bus_ok_write_byte [of "bus st" pin v] 1(2) by (simp add: run_inv_def)
  have step': "i2c_write_byte pin v (bus st) = (e, b) \<Longrightarrow> run_inv n (0, st\<lparr>bus := b\<rparr>)" for v e b
    using step [of v] by simp
  show ?case
    using 1(3) 1(2)
    by (subst (asm) write_loop.simps)
       (auto split: if_splits prod.splits intro: step' 1(1))
qed

lemma cmd_read_inv:
  assumes "run_inv n (0, st)"
  shows "\<exists>err rest st'. cmd_read pin n final_nack arg st = Ret (err, rest, st') \<and> run_inv n (err, st')"
proof -
  obtain e v rest where 1: "parse_hex2 arg = (e, v, rest)" by (metis prod.exhaust)
  obtain e2 st2 where 2: "ensure_started pin True st = (e2, st2)" by fastforce
  have inv2: "run_inv n (0, st2\<lparr>in_transaction := True, last_read := True\<rparr>)"
    using ensure_started_inv [OF assms 2] by (simp add: run_inv_def)
  obtain e3 st3 where 3: "read_loop pin n final_nack (unat v)
      (st2\<lparr>in_transaction := True, last_read := True\<rparr>) = Ret (e3, st3)" "run_inv n (e3, st3)"
    using read_loop_inv [OF inv2, of pin final_nack "unat v"] by (metis prod.exhaust)
  show ?thesis
    using assms 1 2 3 ensure_started_inv [OF assms 2]
    by (auto simp: cmd_read_def Let_def run_inv_def)
qed

lemma step_command_inv:
  assumes "run_inv n (0, st)"
  shows "\<exists>err rest st'. step_command pin n c arg st = Ret (err, rest, st') \<and> run_inv n (err, st')"
proof -
  have "run_inv n (e, st')" if "cmd_address arg st = (e, rest, st')" for e rest st'
    using assms that by (auto simp: cmd_address_def run_inv_def Let_def split: prod.splits if_splits)
  moreover have "run_inv n (e, st')" if "cmd_poll arg st = (e, rest, st')" for e rest st'
    using assms that by (auto simp: cmd_poll_def run_inv_def Let_def split: prod.splits if_splits)
  moreover have "run_inv n (e, st')" if w: "cmd_write pin arg st = (e, rest, st')" for e rest st'
  proof -
    obtain e2 st2 where 2: "ensure_started pin False st = (e2, st2)" by fastforce
    have "run_inv n (0, st2\<lparr>in_transaction := True, last_read := False\<rparr>)"
      using ensure_started_inv [OF assms 2] by (simp add: run_inv_def)
    from write_loop_inv [OF this] w 2 ensure_started_inv [OF assms 2] assms show ?thesis
      by (auto simp: cmd_write_def intro: run_inv_weaken split: if_splits)
  qed
  moreover have "run_inv n (0, st\<lparr>bus := snd (i2c_stop pin (bus st)), in_transaction := False\<rparr>)"
    using assms bus_ok_stop by (simp add: run_inv_def)
  ultimately show ?thesis
    using cmd_read_inv [OF assms] run_inv_weaken [OF assms] assms
    unfolding step_command_def by (simp, metis prod.exhaust)
qed

lemma run_command_inv:
  "run_inv n (0, st) \<Longrightarrow> \<exists>r. run_command pin n arg st = Ret r \<and> run_inv n r"
proof (induction pin n arg st rule: run_command.induct)
  case (2 pin n c arg st)
  from step_command_inv [OF 2(2), of pin c arg] obtain err rest st' where
    1: "step_command pin n c arg st = Ret (err, rest, st')" "run_inv n (err, st')" by blast
  show ?case
    using 1 2(1) [OF 1(1) refl refl] by auto
qed simp

lemma resp_hex_Ret:
  "length out + 2 * length ds < room \<Longrightarrow> length out + 2 * length ds \<le> response_len + 1 \<Longrightarrow>
     resp_hex room response_len ds out = Ret (Some (out @ concat (map uint8_to_hex ds)))"
  by (induction ds arbitrary: out) (auto simp: outcome_simps)

lemma err_table_lengths: "list_all (\<lambda>s. length s \<le> 16) err_table"
  by (simp add: err_table_def)

lemma errstr_length: "length (get_errstr_P err) \<le> 16"
proof (cases "err > I2C_ERR_DATA_NACK")
  case False
  then have "unat err < length err_table"
    by (simp add: err_table_def I2C_ERR_DATA_NACK_def word_less_nat_alt)
  with err_table_lengths False show ?thesis
    by (simp add: get_errstr_P_def list_all_length)
qed (simp add: get_errstr_P_def)

text \<open>The locals at the start of a command.\<close>

abbreviation start_run :: "i2c \<Rightarrow> i2c_run" where
  "start_run b \<equiv> \<lparr>bus = b, addr = -1, resp = [], in_transaction = False, last_read = False,
     last_nack = False\<rparr>"

lemma i2c_command_Ret:
  assumes "bus_ok b" "22 < room" "21 \<le> response_len"
  shows "\<exists>err out b'. i2c_command pin cmd room response_len [] b = Ret (err, out, b') \<and>
     length out \<le> 22 \<and> bus_idle b'"
proof -
  have "run_inv 10 (0, start_run b)" using assms(1) by (simp add: run_inv_def)
  from run_command_inv [OF this, of pin cmd] obtain err st where
    1: "run_command pin 10 cmd (start_run b) = Ret (err, st)" "run_inv 10 (err, st)" by fastforce
  let ?b = "snd (i2c_stop pin (bus st))"
  have idle: "bus_idle ?b"
    using i2c_stop_effect [of "bus st" pin] 1(2) by (cases "i2c_stop pin (bus st)") (auto simp: run_inv_def)
  have len: "length (resp st) \<le> 9" if "err = 0" using that 1(2) by (simp add: run_inv_def)
  show ?thesis
  proof (cases "err = 0")
    case True
    then have "resp_hex room response_len (resp st) '' OK '' =
        Ret (Some ('' OK '' @ concat (map uint8_to_hex (resp st))))"
      using len assms(2,3) by (intro resp_hex_Ret) auto
    moreover have "length (concat (map uint8_to_hex (resp st))) = 2 * length (resp st)"
      by (induction "resp st" rule: list.induct) (auto simp: length_concat sum_list_triv o_def)
    ultimately show ?thesis
      using 1(1) True idle len assms(2) by (auto simp: i2c_command_def Let_def outcome_simps)
  next
    case False
    with 1(1) idle assms(2) errstr_length [of err] show ?thesis
      by (auto simp: i2c_command_def Let_def outcome_simps)
  qed
qed

text \<open>Every I2C command, whatever its text and whatever the devices on the bus do, comes
  to an end without leaving its buffers: it returns a reply of at most 22 characters, and both lines
  are released afterwards. The room of 23 bytes is what both callers provide.\<close>

theorem i2c_command_safe:
  assumes "bus_ok b" "22 < room" "21 \<le> response_len"
  shows "\<exists>err out b'. i2c_command pin cmd room response_len [] b = Ret (err, out, b') \<and>
     length out \<le> 22 \<and> bus_idle b'"
  using assms by (rule i2c_command_Ret)

definition released_bus :: i2c where
  "released_bus = \<lparr>DDRB = 0xE6, PORTB = 0x1C, i2c_active = False, elapsed_us = 0, pin_reads = 0,
     wave = [(True, True)]\<rparr>"

lemma released_bus_idle: "bus_idle released_bus"
  by (simp add: released_bus_def bus_idle_def bus_ok_def line_def bit_numeral_rec)

theorem i2c_command_safe_witness:
  "bus_ok released_bus \<and>
   (\<exists>err out b'. i2c_command (\<lambda>_ _. 0) ''s3cr06w'' 28 25 [] released_bus = Ret (err, out, b') \<and>
     length out \<le> 22 \<and> bus_idle b')"
proof -
  have ok: "bus_ok released_bus" using released_bus_idle by (simp add: bus_idle_def)
  show ?thesis using ok i2c_command_safe [OF ok, of 28 25 "\<lambda>_ _. 0" "''s3cr06w''"] by auto
qed

section \<open>A bus with a device that acknowledges\<close>

definition is_BIT :: "bus_event \<Rightarrow> bool" where
  "is_BIT e \<longleftrightarrow> (\<exists>v \<in> {True, False}. e = BIT v)"

definition bits_since :: "bus_event list \<Rightarrow> nat" where
  "bits_since evs = length (takeWhile is_BIT (rev evs))"

lemma is_BIT_simps [simp]: "is_BIT (BIT v)" "\<not> is_BIT START" "\<not> is_BIT STOP"
  by (auto simp: is_BIT_def)

lemma bits_since_simps [simp]:
  "bits_since (evs @ [BIT v]) = Suc (bits_since evs)" "bits_since (evs @ [START]) = 0"
  "bits_since (evs @ [STOP]) = 0" "bits_since [] = 0"
  by (simp_all add: bits_since_def)

lemma bits_since_BITs: "bits_since (evs @ map (\<lambda>i. BIT (f i)) xs) = bits_since evs + length xs"
proof (induction xs arbitrary: evs)
  case (Cons x xs)
  have "evs @ map (\<lambda>i. BIT (f i)) (x # xs) = (evs @ [BIT (f x)]) @ map (\<lambda>i. BIT (f i)) xs" by simp
  then show ?case using Cons.IH [of "evs @ [BIT (f x)]"] by simp
qed simp

text \<open>Every ninth bit after a start condition is the slot in which the device pulls SDA low; at all
  other times the lines have the levels of the master.\<close>

definition ack_slot :: "bus_event list \<Rightarrow> bool" where
  "ack_slot evs \<longleftrightarrow> 0 < bits_since evs \<and> bits_since evs mod 9 = 0"

definition acking :: "pins \<Rightarrow> bool" where
  "acking pin \<longleftrightarrow> (\<forall>n w. w \<noteq> [] \<longrightarrow> bit (pin n w) SCL_BIT = fst (hd w) \<and>
     bit (pin n w) SDA_BIT = (snd (hd w) \<and> \<not> (fst (hd w) \<and> ack_slot (decode w))))"

definition slave_pins :: pins where
  "slave_pins n w =
     (if fst (hd w) then 0x10 else 0) OR
     (if snd (hd w) \<and> \<not> (fst (hd w) \<and> ack_slot (decode w)) then 0x08 else 0)"

lemma acking_slave: "acking slave_pins"
  by (simp add: acking_def slave_pins_def bit_or_iff bit_numeral_rec)

lemma sample_acking: "acking pin \<Longrightarrow> sample pin evs v \<Longrightarrow> v = (\<not> ack_slot evs)"
  by (fastforce simp: sample_def acking_def)

lemma write_bits_acked:
  assumes "acking pin"
  shows "between b \<Longrightarrow> bits_since (seen b) mod 9 + n \<le> 8 \<Longrightarrow> fst (write_bits pin n d b) = 0"
proof (induction n arbitrary: d b)
  case (Suc n)
  obtain err b1 where 1: "i2c_write_bit pin (d AND 0x80 \<noteq> 0) b = (err, b1)" by fastforce
  have ok: "bus_ok b" "\<not> scl b" using Suc.prems(1) by (simp_all add: between_def)
  note w = write_bit_effect [OF ok 1]
  have step: "Suc (bits_since (seen b)) mod 9 = Suc (bits_since (seen b) mod 9)"
    using Suc.prems(2) by (simp add: mod_Suc)
  have "\<not> ack_slot (seen b @ [BIT True])"
    using step by (simp add: ack_slot_def)
  then have e0: "err = 0"
    using w sample_acking [OF assms] by (auto split: if_splits)
  have "between b1" "bits_since (seen b1) mod 9 + n \<le> 8"
    using w e0 Suc.prems step by (simp_all add: between_def)
  from Suc.IH [OF this] 1 e0 show ?case by simp
qed simp

lemma write_byte_acked:
  assumes "acking pin" "between b" "bits_since (seen b) mod 9 = 0"
  shows "\<exists>b'. i2c_write_byte pin d b = (0, b') \<and> between b' \<and>
    seen b' = seen b @ msb_first d @ [BIT True] \<and> bits_since (seen b') mod 9 = 0"
proof -
  obtain err b' where 1: "i2c_write_byte pin d b = (err, b')" by fastforce
  have f: "fst (write_bits pin 8 d b) = 0" using write_bits_acked [OF assms(1,2)] assms(3) by simp
  have "err \<noteq> I2C_ERR_WRITE_COLL"
    using 1 f assms(2) by (auto simp: i2c_write_byte_def between_def I2C_ERR_WRITE_COLL_def
        split: prod.splits if_splits)
  note w = write_byte_effect [OF assms(2) 1 this]
  have "bits_since (seen b @ msb_first d) = bits_since (seen b) + 8"
    by (simp add: msb_first_def bits_since_BITs del: upt_rec_numeral)
  then have n: "bits_since (seen b') = bits_since (seen b) + 9"
    using w by (metis append_assoc bits_since_simps(1) add_Suc_right eval_nat_numeral(3) add.commute
        numeral_eq_Suc pred_numeral_simps(3))
  then have "bits_since (seen b') mod 9 = 0" "ack_slot (seen b')"
    using assms(3) by (simp_all add: ack_slot_def)
  moreover have "(err = 0xFF) = (\<not> ack_slot (seen b'))"
    using sample_acking [OF assms(1)] w by blast
  ultimately show ?thesis
    using w 1 by auto
qed

theorem i2c_write_byte_wire_witness:
  "\<exists>b err b'. between b \<and> i2c_write_byte slave_pins 0xA5 b = (err, b') \<and>
     seen b' = seen b @ msb_first 0xA5 @ [BIT True]"
proof -
  define b where "b = released_bus\<lparr>DDRB := 0xF6, PORTB := 0x0C, i2c_active := True, wave := [(False, True)]\<rparr>"
  have "between b" "seen b = []"
    by (simp_all add: b_def released_bus_def between_def bus_ok_def line_def seen_def bit_numeral_rec)
  with write_byte_acked [OF acking_slave, of b "0xA5"] obtain b' where
    1: "i2c_write_byte slave_pins 0xA5 b = (0, b')" by auto
  from i2c_write_byte_wire [OF \<open>between b\<close> 1] 1 \<open>between b\<close> show ?thesis
    by (auto simp: I2C_ERR_WRITE_COLL_def)
qed

lemma first_start_acked:
  assumes "acking pin" "bus_idle b" "\<not> i2c_active b" "\<not> ack_slot (seen b)"
  shows "\<exists>b'. i2c_start pin b = (0, b') \<and> between b' \<and> seen b' = seen b @ [START]"
proof -
  have ok: "bus_ok b" "scl b" "sda b" using assms(2) by (simp_all add: bus_idle_def)
  define b1 where "b1 = snd (i2c_sda_high pin b)"
  define b2 where "b2 = snd (i2c_scl_high pin b1)"
  note h = both_high_effect [OF ok(1), of pin, folded b1_def, folded b2_def]
  have "sda_to True b b1" unfolding b1_def using ok(1) by (rule sda_high_effect)
  then have s1: "seen b1 = seen b" "scl b1" using ok by (simp_all add: sda_to_def)
  have v1: "fst (i2c_sda_high pin b)"
    using assms(1,4) bus_ok_wave [OF h(1)] s1 h(2)
    unfolding high_value b1_def [symmetric] by (simp add: acking_def seen_def)
  have v2: "fst (i2c_scl_high pin b1)"
    using assms(1) bus_ok_wave [OF h(5)] h(7)
    unfolding high_value b2_def [symmetric] by (simp add: acking_def)
  obtain err b' where 1: "i2c_start pin b = (err, b')" by fastforce
  moreover have "err = 0"
    using 1 v1 v2 assms(3) by (auto simp: i2c_start_def Let_def b1_def split: prod.splits if_splits)
  ultimately show ?thesis using first_start_effect [OF assms(2,3) 1] by simp
qed

lemma i2c_stop_acked:
  assumes "acking pin" "between b"
  shows "\<not> i2c_active (snd (i2c_stop pin b))"
proof -
  define b1 where "b1 = i2c_delay (i2c_sda_low b)"
  define b2 where "b2 = snd (i2c_scl_high pin b1)"
  define b3 where "b3 = i2c_delay (snd (i2c_sda_high pin (i2c_delay b2)))"
  have ok: "bus_ok b" "\<not> scl b" using assms(2) by (simp_all add: between_def)
  have b1: "bus_ok b1" "\<not> sda b1" "\<not> scl b1" "seen b1 = seen b"
    using sda_low_effect [OF ok(1)] ok(2) by (auto simp: b1_def sda_to_def)
  have b2: "bus_ok b2" "\<not> sda b2" "scl b2" "seen b2 = seen b @ [BIT False]"
    using scl_high_effect [OF b1(1), of pin] b1 by (auto simp: b2_def scl_to_def)
  have b3: "bus_ok b3" "sda b3" "scl b3" "seen b3 = (seen b @ [BIT False]) @ [STOP]"
    using sda_high_effect [of "i2c_delay b2" pin] b2 by (auto simp: b3_def sda_to_def)
  have "\<not> ack_slot (decode (wave b3))"
    using b3(4) bits_since_simps(3) [of "seen b @ [BIT False]"]
    by (simp add: seen_def [symmetric] ack_slot_def)
  then have "bit (pin n (wave b3)) SCL_BIT" "bit (pin n (wave b3)) SDA_BIT" for n
    using assms(1) bus_ok_wave [OF b3(1)] b3 by (auto simp: acking_def)
  then show ?thesis
    by (auto simp: i2c_stop_def Let_def b1_def b2_def b3_def read_pin_def bit_test_iff split: prod.splits)
qed

lemma hex_print_nonempty: "uint8_to_hex d \<noteq> [] \<and> is_hex (hd (uint8_to_hex d))"
  using hex_digit_nyb_to_hex [OF high_nybble_lt] by (auto simp: uint8_to_hex_def is_hex_def)

abbreviation frames :: "u8 list \<Rightarrow> bus_event list" where
  "frames ds \<equiv> concat (map (\<lambda>d. msb_first d @ [BIT True]) ds)"

lemma write_loop_acked:
  assumes "acking pin"
  shows "between (bus st) \<Longrightarrow> bits_since (seen (bus st)) mod 9 = 0 \<Longrightarrow>
    \<exists>b'. write_loop pin (concat (map uint8_to_hex ds)) st = (0, [], st\<lparr>bus := b'\<rparr>) \<and> between b' \<and>
      seen b' = seen (bus st) @ frames ds"
proof (induction ds arbitrary: st)
  case Nil
  then show ?case by (intro exI [of _ "bus st"]) (simp add: write_loop.simps)
next
  case (Cons d ds)
  let ?rest = "concat (map uint8_to_hex ds)"
  from write_byte_acked [OF assms Cons.prems, of d] obtain b1 where
    b1: "i2c_write_byte pin d (bus st) = (0, b1)" "between b1"
        "seen b1 = seen (bus st) @ msb_first d @ [BIT True]" "bits_since (seen b1) mod 9 = 0"
    by (elim exE conjE) (rule that)
  have "write_loop pin (uint8_to_hex d @ ?rest) st = write_loop pin ?rest (st\<lparr>bus := b1\<rparr>)"
    using hex_print_nonempty [of d] b1(1)
    by (subst write_loop.simps) (simp add: parse_hex2_print)
  with Cons.IH [of "st\<lparr>bus := b1\<rparr>"] b1 show ?case by auto
qed

lemma run_command_write:
  assumes pin: "acking pin" and b: "bus_idle b" "\<not> i2c_active b" "\<not> ack_slot (seen b)" and a: "a \<le> 0x7F"
  shows "\<exists>st. run_command pin n (''s'' @ uint8_to_hex a @ ''w'' @ concat (map uint8_to_hex ds)) (start_run b)
      = Ret (0, st) \<and> between (bus st) \<and> resp st = [] \<and>
    seen (bus st) = seen b @ [START] @ frames (addr_byte False (uint a) # ds)"
proof -
  define data where "data = concat (map uint8_to_hex ds)"
  let ?st1 = "(start_run b)\<lparr>addr := uint a\<rparr>"
  have s1: "step_command pin n CHR ''s'' (uint8_to_hex a @ ''w'' @ data) (start_run b) = Ret (0, ''w'' @ data, ?st1)"
    by (simp add: step_command_def cmd_address_def parse_hex2_print)
  from first_start_acked [OF pin b] obtain b1 where
    b1: "i2c_start pin b = (0, b1)" "between b1" "seen b1 = seen b @ [START]" by blast
  have "bits_since (seen b1) mod 9 = 0" by (simp add: b1(3))
  from write_byte_acked [OF pin b1(2) this, of "addr_byte False (uint a)"] obtain b2 where
    b2: "i2c_write_byte pin (addr_byte False (uint a)) b1 = (0, b2)" "between b2"
        "seen b2 = seen b1 @ msb_first (addr_byte False (uint a)) @ [BIT True]"
        "bits_since (seen b2) mod 9 = 0"
    by (elim exE conjE) (rule that)
  let ?st2 = "?st1\<lparr>bus := b2, in_transaction := True, last_read := False\<rparr>"
  from write_loop_acked [OF pin, of ?st2 ds] b2 obtain b3 where
    b3: "write_loop pin data ?st2 = (0, [], ?st2\<lparr>bus := b3\<rparr>)" "between b3" "seen b3 = seen b2 @ frames ds"
    by (auto simp: data_def)
  have "uint a \<le> 0x7F" using a by (simp add: word_le_def)
  then have s2: "step_command pin n CHR ''w'' data ?st1 = Ret (0, [], ?st2\<lparr>bus := b3\<rparr>)"
    using b1(1) b2(1) b3(1) by (simp add: step_command_def cmd_write_def ensure_started_def)
  have "run_command pin n (''s'' @ uint8_to_hex a @ ''w'' @ data) (start_run b) = Ret (0, ?st2\<lparr>bus := b3\<rparr>)"
    using s1 s2 by simp
  then show ?thesis using b1 b2 b3 by (auto simp: data_def)
qed

text \<open>C37 (functional). A whole write transaction: on a released bus with a device that acknowledges,
  the command that names an address and any number of data bytes returns success with an empty
  answer; a listener has seen the start condition, the address with a clear read bit and the data
  bytes, each most significant bit first and acknowledged, and the stop condition; the bus is
  released and idle again.\<close>

theorem i2c_write_transaction:
  assumes "acking pin" "bus_idle b" "\<not> i2c_active b" "\<not> ack_slot (seen b)" "a \<le> 0x7F" "4 < room"
  shows "\<exists>b'. i2c_command pin (''s'' @ uint8_to_hex a @ ''w'' @ concat (map uint8_to_hex ds))
       room response_len [] b = Ret (0, '' OK '', b') \<and>
     seen b' = seen b @ [START] @ frames (addr_byte False (uint a) # ds) @ [BIT False, STOP] \<and>
     bus_idle b' \<and> \<not> i2c_active b'"
proof -
  from run_command_write [OF assms(1-5), of 10 ds] obtain st where
    st: "run_command pin 10 (''s'' @ uint8_to_hex a @ ''w'' @ concat (map uint8_to_hex ds)) (start_run b)
      = Ret (0, st)" "between (bus st)" "resp st = []"
      "seen (bus st) = seen b @ [START] @ frames (addr_byte False (uint a) # ds)" by blast
  have ok: "bus_ok (bus st)" "\<not> scl (bus st)" using st(2) by (simp_all add: between_def)
  obtain e b' where b': "i2c_stop pin (bus st) = (e, b')" by fastforce
  note e = i2c_stop_effect [OF ok(1) b'] and idle = i2c_stop_acked [OF assms(1) st(2)]
  have "i2c_command pin (''s'' @ uint8_to_hex a @ ''w'' @ concat (map uint8_to_hex ds)) room response_len [] b
      = Ret (0, '' OK '', b')"
    using st(1,3) b' assms(6) unfolding i2c_command_def by (simp add: outcome_simps)
  then show ?thesis using e idle ok(2) st(4) b' by auto
qed

theorem i2c_write_transaction_witness:
  "acking slave_pins \<and>
   (\<exists>b'. i2c_command slave_pins (''s'' @ uint8_to_hex 0x60 @ ''w'' @ concat (map uint8_to_hex [0x26, 0xB9]))
       28 25 [] released_bus = Ret (0, '' OK '', b') \<and> bus_idle b')"
proof -
  have idle: "\<not> i2c_active released_bus" "\<not> ack_slot (seen released_bus)"
    by (simp_all add: released_bus_def seen_def ack_slot_def)
  show ?thesis
    using acking_slave i2c_write_transaction [OF acking_slave released_bus_idle idle, of "0x60" 28 "[0x26, 0xB9]" 25]
    by auto
qed

section \<open>Reading a byte\<close>

definition shift_in :: "bool \<Rightarrow> u8 \<Rightarrow> u8" where
  "shift_in v r = (if v then push_bit 1 r OR 1 else push_bit 1 r)"

lemma read_bits_effect:
  assumes "between b" "read_bits pin n r b = (r', b')"
  shows "between b' \<and> seen b' = seen b @ replicate n (BIT True) \<and>
    (\<exists>vs. length vs = n \<and> (\<forall>i < n. sample pin (seen b @ replicate (Suc i) (BIT True)) (vs ! i)) \<and>
       r' = fold shift_in vs r)"
  using assms
proof (induction n arbitrary: r b)
  case (Suc n)
  obtain v b1 where 1: "i2c_read_bit pin b = (v, b1)" by fastforce
  have ok: "bus_ok b" "\<not> scl b" "i2c_active b" using Suc.prems(1) by (simp_all add: between_def)
  note e = read_bit_effect [OF ok(1,2) 1]
  have b1: "between b1" "seen b1 = seen b @ [BIT True]" "sample pin (seen b @ [BIT True]) v"
    using e ok(3) by (simp_all add: between_def)
  have "read_bits pin n (shift_in v r) b1 = (r', b')"
    using Suc.prems(2) 1 by (auto simp: shift_in_def Let_def)
  from Suc.IH [OF b1(1) this] obtain vs where
    IH: "between b'" "seen b' = seen b1 @ replicate n (BIT True)" "length vs = n"
      "\<forall>i < n. sample pin (seen b1 @ replicate (Suc i) (BIT True)) (vs ! i)"
      "r' = fold shift_in vs (shift_in v r)" by blast
  show ?case
    using IH b1 by (intro conjI exI [of _ "v # vs"]) (auto simp: nth_Cons split: nat.splits)
qed simp

lemma shift_in_drop:
  "m < 8 \<Longrightarrow> shift_in (bit d m) (drop_bit (Suc m) d) = drop_bit m (d :: u8)"
  unfolding shift_in_def
  by (rule bit_eqI, case_tac n) (auto simp: bit_simps simp del: push_bit_Suc)

lemma fold_shift_in:
  "k \<le> 8 \<Longrightarrow> fold shift_in (map (\<lambda>i. bit d (7 - i)) [0..<k]) 0 = drop_bit (8 - k) (d :: u8)"
proof (induction k)
  case 0
  have "drop_bit 8 d = 0" by (rule bit_eqI) (auto simp: bit_simps dest: bit_imp_le_length)
  then show ?case by simp
next
  case (Suc k)
  then have "8 - k = Suc (7 - k)" by simp
  with Suc shift_in_drop [of "7 - k" d] show ?case by simp
qed

text \<open>The device sends \<open>d\<close>: while the master clocks, the samples are the bits of \<open>d\<close>.\<close>

definition device_sends :: "pins \<Rightarrow> bus_event list \<Rightarrow> u8 \<Rightarrow> bool" where
  "device_sends pin evs d \<longleftrightarrow>
     (\<forall>i < 8. \<forall>v. sample pin (evs @ replicate (Suc i) (BIT True)) v \<longrightarrow> v = bit d (7 - i))"

text \<open>Reading a byte: the master releases SDA for eight clocks and returns exactly the
  byte the device put on the line, most significant bit first; the ninth bit on the wire is the
  acknowledge the caller asked for.\<close>

theorem i2c_read_byte_value:
  assumes "between b" "device_sends pin (seen b) d" "i2c_read_byte pin nack b = (err, data, b')" "err = 0"
  shows "data = Some d \<and> between b' \<and> seen b' = seen b @ replicate 8 (BIT True) @ [BIT nack]"
proof -
  obtain r b1 where 1: "read_bits pin 8 0 b = (r, b1)" by fastforce
  obtain e b2 where 2: "i2c_write_bit pin nack b1 = (e, b2)" by fastforce
  have act: "i2c_active b" using assms(1) by (simp add: between_def)
  have run: "e = 0" "data = Some r" "b' = b2"
    using assms(3,4) 1 2 act by (auto simp: i2c_read_byte_def split: if_splits)
  from read_bits_effect [OF assms(1) 1] obtain vs where
    vs: "between b1" "seen b1 = seen b @ replicate 8 (BIT True)" "length vs = 8"
      "\<forall>i < 8. sample pin (seen b @ replicate (Suc i) (BIT True)) (vs ! i)" "r = fold shift_in vs 0" by blast
  have "vs = map (\<lambda>i. bit d (7 - i)) [0..<8]"
    using vs(3,4) assms(2) by (intro nth_equalityI) (auto simp: device_sends_def)
  then have "r = d" using fold_shift_in [of 8 d] vs(5) by simp
  moreover have "between b'" "seen b' = seen b1 @ [BIT nack]"
    using write_bit_effect [OF _ _ 2] vs(1) run by (auto simp: between_def)
  ultimately show ?thesis using run vs(2) by simp
qed

theorem i2c_read_byte_value_witness:
  "\<exists>b err data b'. between b \<and> device_sends (\<lambda>_ _. 0xFF) (seen b) 0xFF \<and>
     i2c_read_byte (\<lambda>_ _. 0xFF) False b = (err, data, b') \<and> data = Some 0xFF"
proof -
  define b where "b = released_bus\<lparr>DDRB := 0xF6, PORTB := 0x0C, i2c_active := True, wave := [(False, True)]\<rparr>"
  have b: "between b"
    by (simp add: b_def released_bus_def between_def bus_ok_def line_def bit_numeral_rec)
  have ff: "bit (0xFF :: u8) k" if "k < 8" for k
    using that bit_mask_iff [of 8 k, where 'a = "8 word"] by (simp add: mask_eq_exp_minus_1 possible_bit_word)
  have snd: "device_sends (\<lambda>_ _. 0xFF) (seen b) 0xFF"
    using ff by (auto simp: device_sends_def sample_def)
  obtain err data b' where 1: "i2c_read_byte (\<lambda>_ _. 0xFF) False b = (err, data, b')" by (metis prod.exhaust)
  obtain r b1 where 2: "read_bits (\<lambda>_ _. 0xFF) 8 0 b = (r, b1)" by fastforce
  have "bus_ok b1" "\<not> scl b1" using read_bits_effect [OF b 2] by (auto simp: between_def)
  have "e = 0" if "i2c_write_bit (\<lambda>_ _. 0xFF) False b1 = (e, b2)" for e b2
    using write_bit_effect [OF \<open>bus_ok b1\<close> \<open>\<not> scl b1\<close> that] by (auto split: if_splits)
  then have "err = 0"
    using 1 2 b by (auto simp: i2c_read_byte_def between_def split: if_splits prod.splits)
  with i2c_read_byte_value [OF b snd 1] 1 b snd show ?thesis by blast
qed

end
