(* ===== verification/StreamTable.thy ===== *)
theory StreamTable
  imports HexUtil
begin

unbundle bit_operations_syntax

text \<open>
  Periodic commands. The pressure foot (\<^verbatim>\<open>foot.c\<close>) and the panel (\<^verbatim>\<open>panel_qual.c\<close>) share, function
  by function, the code that keeps a table of streams: a stream runs a command every \<open>rate\<close>
  milliseconds. The two differ in the size of the table, in their command tables and in the texts of
  their messages; the functions here take these as a \<open>dialect\<close>.

  A command function receives its argument text and the number of bytes that belong to its output
  buffer, and returns its error code, the text it leaves in the buffer and the new state.

  \<open>stream_inv\<close> is the invariant of the table. \<open>table_step\<close> lists everything that can happen to a
  table, and the locale \<open>stream_host\<close> is the interface to the programs that own one: whatever they
  do changes the table by such steps only, so the invariant holds in all their states.
\<close>

section \<open>Data\<close>

datatype args_ptr = NullPtr | NullArgs | Slot nat

record stream =
  stream_id :: u8
  cmd_index :: nat
  extra_args :: args_ptr
  rate :: u16
  time_remaining :: u16
  queued_runs :: u8

record streams =
  g_stream_table :: "stream list"
  g_stream_args :: "string list"

record dialect =
  PARSE_ERROR :: string
  CODE_MISMATCH :: string
  UNKNOWN_CMD :: string
  NOT_STREAMABLE :: string
  ID_ZERO :: string
  ID_INVALID :: string
  STREAM_ID_IN_USE :: string
  STREAM_TABLE_FULL :: string
  STREAM_NOT_FOUND :: string
  codes :: "(string \<times> bool) list"

definition STR_OK :: string where "STR_OK = '' OK''"

text \<open>\<open>strcpy_P(output, text); return err;\<close>\<close>

definition say :: "nat \<Rightarrow> string \<Rightarrow> u8 \<Rightarrow> 's \<Rightarrow> (u8 \<times> string \<times> 's) outcome" where
  "say room text err st = obind (store room text) (\<lambda>out. Ret (err, out, st))"

lemma say_Ret [simp]:
  "say room t err st = Ret (e, out, st') \<longleftrightarrow> length t < room \<and> e = err \<and> out = t \<and> st' = st"
  by (auto simp: say_def obind_eq_Ret)

lemma say_fits [outcome_simps]: "length t < room \<Longrightarrow> say room t err st = Ret (err, t, st)"
  by simp

section \<open>Operations\<close>

definition find_message_index :: "(string \<times> bool) list \<Rightarrow> string \<Rightarrow> nat option" where
  "find_message_index table code = first_index (\<lambda>(c, _). take 3 code = c) table"

text \<open>The three conversions \<open>%c%c%c\<close>.\<close>

definition scan_code :: "string \<Rightarrow> (string \<times> string) option" where
  "scan_code s = (if length s < 3 then None else Some (take 3 s, drop 3 s))"

text \<open>\<open>sscanf_P(extra_args, " %x %x %c%c%c%n", ...)\<close> with all five conversions done: the stream
  id, the rate, the code and the text from \<open>parsed\<close> on.\<close>

definition scan_stb :: "string \<Rightarrow> (u16 \<times> u16 \<times> string \<times> string) option" where
  "scan_stb s =
     (case scan_x (skip_ws s) of None \<Rightarrow> None | Some (i, s) \<Rightarrow>
      (case scan_x (skip_ws s) of None \<Rightarrow> None | Some (r, s) \<Rightarrow>
       (case scan_code (skip_ws s) of None \<Rightarrow> None | Some (code, s) \<Rightarrow> Some (i, r, code, s))))"

text \<open>\<open>sscanf_P(extra_args, " %x %c%c%c%n", ...)\<close> with all four conversions done and the whole text
  consumed.\<close>

definition scan_ste :: "string \<Rightarrow> (u16 \<times> string) option" where
  "scan_ste s =
     (case scan_x (skip_ws s) of None \<Rightarrow> None | Some (i, s) \<Rightarrow>
      (case scan_code (skip_ws s) of
         Some (code, []) \<Rightarrow> Some (i, code)
       | _ \<Rightarrow> None))"

text \<open>The loop of \<open>cmd_stb\<close> that looks for the id and for a stream to synchronise with; \<open>None\<close> when
  the id is in use.\<close>

fun sync_scan :: "u16 \<Rightarrow> u16 \<Rightarrow> u16 \<Rightarrow> stream list \<Rightarrow> u16 option" where
  "sync_scan i r t [] = Some t"
| "sync_scan i r t (x # xs) =
     (if ucast (stream_id x) = i then None
      else sync_scan i r (if stream_id x \<noteq> 0 \<and> rate x = r then time_remaining x else t) xs)"

text \<open>Placing the arguments: a pointer for the new stream and the slots, \<open>None\<close> when no slot is
  free; copying a text of 64 or more characters leaves the slot.\<close>

definition place_args :: "string \<Rightarrow> string list \<Rightarrow> (args_ptr \<times> string list) option outcome" where
  "place_args text slots =
     (if length text > 1
      then
        (case first_index (\<lambda>s. s = []) slots of
           Some i \<Rightarrow> obind (store 64 text) (\<lambda>t. Ret (Some (Slot i, slots[i := t])))
         | None \<Rightarrow> Ret None)
      else Ret (Some (NullArgs, slots)))"

definition stb :: "dialect \<Rightarrow> string \<Rightarrow> nat \<Rightarrow> streams \<Rightarrow> (u8 \<times> string \<times> streams) outcome" where
  "stb d args room st =
     (case scan_stb args of
        None \<Rightarrow> say room (PARSE_ERROR d) 1 st
      | Some (i, r, code, rest) \<Rightarrow>
          (case find_message_index (codes d) code of
             None \<Rightarrow> say room ('' stream'' @ UNKNOWN_CMD d) 1 st
           | Some k \<Rightarrow>
               if \<not> snd (codes d ! k) then say room (NOT_STREAMABLE d) 1 st
               else if i = 0 then say room (ID_ZERO d) 1 st
               else if i > 15 then say room (ID_INVALID d) 1 st
               else
                 (let r = (if r = 0 then 1 else r)
                  in case sync_scan i r r (g_stream_table st) of
                       None \<Rightarrow> say room (STREAM_ID_IN_USE d) 1 st
                     | Some t \<Rightarrow>
                         (case first_index (\<lambda>x. stream_id x = 0) (g_stream_table st) of
                            None \<Rightarrow> say room (STREAM_TABLE_FULL d) 1 st
                          | Some n \<Rightarrow>
                              obind (place_args rest (g_stream_args st)) (\<lambda>p.
                                case p of
                                  None \<Rightarrow> say room '' not enough extra args slots'' 1 st
                                | Some (ptr, slots) \<Rightarrow>
                                    say room STR_OK 0
                                      (st\<lparr>g_stream_table := (g_stream_table st)
                                            [n := \<lparr>stream_id = ucast i, cmd_index = k, extra_args = ptr,
                                                   rate = r, time_remaining = t, queued_runs = 0\<rparr>],
                                          g_stream_args := slots\<rparr>))))))"

text \<open>\<open>extra_args[0] = 0\<close>.\<close>

definition clear_args :: "args_ptr \<Rightarrow> streams \<Rightarrow> streams outcome" where
  "clear_args p st =
     (case p of
        NullPtr \<Rightarrow> Overrun
      | NullArgs \<Rightarrow> Ret st
      | Slot i \<Rightarrow> Ret (st\<lparr>g_stream_args := (g_stream_args st)[i := []]\<rparr>))"

text \<open>\<open>g_stream_table[i].stream_id = 0; g_stream_table[i].extra_args[0] = 0;\<close>\<close>

definition drop_stream :: "nat \<Rightarrow> streams \<Rightarrow> streams outcome" where
  "drop_stream i st =
     clear_args (extra_args (g_stream_table st ! i))
       (st\<lparr>g_stream_table := (g_stream_table st)[i := (g_stream_table st ! i)\<lparr>stream_id := 0\<rparr>]\<rparr>)"

definition ste :: "dialect \<Rightarrow> string \<Rightarrow> nat \<Rightarrow> streams \<Rightarrow> (u8 \<times> string \<times> streams) outcome" where
  "ste d args room st =
     (case scan_ste args of
        None \<Rightarrow> say room (PARSE_ERROR d) 1 st
      | Some (i, code) \<Rightarrow>
          if i = 0 then say room (ID_ZERO d) 0 st
          else
            (case first_index (\<lambda>x. ucast (stream_id x) = i) (g_stream_table st) of
               None \<Rightarrow> say room (STREAM_NOT_FOUND d) 1 st
             | Some n \<Rightarrow>
                 if code \<noteq> fst (codes d ! cmd_index (g_stream_table st ! n))
                 then say room (CODE_MISMATCH d) 1 st
                 else obind (drop_stream n st) (say room STR_OK 0)))"

definition stream_list_bitmask :: "streams \<Rightarrow> u16" where
  "stream_list_bitmask st =
     fold (\<lambda>x flags. if stream_id x = 0 then flags else flags OR push_bit (unat (stream_id x)) 1)
       (g_stream_table st) 0"

definition stl :: "nat \<Rightarrow> streams \<Rightarrow> (u8 \<times> string \<times> streams) outcome" where
  "stl room st = say room ('' '' @ uint16_to_hex (stream_list_bitmask st)) 0 st"

text \<open>The text an argument pointer refers to.\<close>

definition args_text :: "args_ptr \<Rightarrow> streams \<Rightarrow> string" where
  "args_text p st = (case p of Slot i \<Rightarrow> g_stream_args st ! i | _ \<Rightarrow> [])"

text \<open>\<open>cmd_stg\<close>. The conversion \<open>%x\<close> stores a 16-bit number through the address of the one-byte
  variable \<open>stream_id\<close>: the low byte reaches it. When the text does not parse, the message is put in
  the buffer and the function goes on with what \<open>stream_id\<close> holds.\<close>

definition scan_stg :: "string \<Rightarrow> bool \<times> u8" where
  "scan_stg s =
     (case scan_x (skip_ws s) of
        None \<Rightarrow> (False, 0)
      | Some (v, rest) \<Rightarrow> (rest = [], ucast v))"

definition stg :: "dialect \<Rightarrow> string \<Rightarrow> nat \<Rightarrow> streams \<Rightarrow> (u8 \<times> string \<times> streams) outcome" where
  "stg d args room st =
     (let (parsed, i) = scan_stg args in
      obind (if parsed then Ret [] else store room (PARSE_ERROR d)) (\<lambda>_.
        if i = 0 then say room (ID_ZERO d) 1 st
        else
          (case first_index (\<lambda>x. stream_id x = i) (g_stream_table st) of
             None \<Rightarrow> say room (STREAM_NOT_FOUND d) 1 st
           | Some n \<Rightarrow>
               (let x = g_stream_table st ! n
                in say room
                     ('' '' @ uint8_to_hex i @ '' '' @ uint16_to_hex (rate x) @ '' ''
                      @ fst (codes d ! cmd_index x) @ args_text (extra_args x) st) 0 st))))"

definition timer_stream :: "stream \<Rightarrow> stream" where
  "timer_stream x =
     (if stream_id x = 0 then x
      else
        (let x = x\<lparr>time_remaining := time_remaining x - 1\<rparr>
         in if time_remaining x = 0
            then x\<lparr>queued_runs := queued_runs x + 1, time_remaining := rate x\<rparr> else x))"

definition stream_timer_update :: "streams \<Rightarrow> streams" where
  "stream_timer_update st = st\<lparr>g_stream_table := map timer_stream (g_stream_table st)\<rparr>"

text \<open>The stream that \<open>stream_poll\<close> runs next, and the table after its count of waiting runs is
  taken down.\<close>

definition next_run :: "streams \<Rightarrow> nat option" where
  "next_run st = first_index (\<lambda>x. stream_id x \<noteq> 0 \<and> queued_runs x \<noteq> 0) (g_stream_table st)"

definition take_run :: "nat \<Rightarrow> streams \<Rightarrow> streams" where
  "take_run i st =
     st\<lparr>g_stream_table := (g_stream_table st)
          [i := (g_stream_table st ! i)\<lparr>queued_runs := queued_runs (g_stream_table st ! i) - 1\<rparr>]\<rparr>"

text \<open>\<open>stream_stop_all\<close> of the panel.\<close>

definition stop_stream :: "nat \<Rightarrow> streams \<Rightarrow> streams" where
  "stop_stream i st =
     (let p = extra_args (g_stream_table st ! i);
          st = st\<lparr>g_stream_table := (g_stream_table st)[i := (g_stream_table st ! i)\<lparr>stream_id := 0\<rparr>]\<rparr>
      in case p of Slot j \<Rightarrow> st\<lparr>g_stream_args := (g_stream_args st)[j := []]\<rparr> | _ \<Rightarrow> st)"

definition stream_stop_all :: "streams \<Rightarrow> streams" where
  "stream_stop_all st = fold stop_stream [0..<length (g_stream_table st)] st"

definition streams_init :: "nat \<Rightarrow> streams" where
  "streams_init n =
     \<lparr>g_stream_table = replicate n \<lparr>stream_id = 0, cmd_index = 0, extra_args = NullPtr, rate = 0,
        time_remaining = 0, queued_runs = 0\<rparr>,
      g_stream_args = replicate 8 []\<rparr>"

section \<open>The invariant\<close>

definition entry_ok :: "dialect \<Rightarrow> string list \<Rightarrow> stream \<Rightarrow> bool" where
  "entry_ok d slots x \<longleftrightarrow> stream_id x = 0 \<or>
     (stream_id x \<le> 15 \<and> time_remaining x \<noteq> 0 \<and> time_remaining x \<le> rate x \<and>
      cmd_index x < length (codes d) \<and> snd (codes d ! cmd_index x) \<and>
      (case extra_args x of NullPtr \<Rightarrow> False | NullArgs \<Rightarrow> True
       | Slot j \<Rightarrow> j < length slots \<and> slots ! j \<noteq> []))"

definition pair_ok :: "stream \<Rightarrow> stream \<Rightarrow> bool" where
  "pair_ok x y \<longleftrightarrow> stream_id x = 0 \<or> stream_id y = 0 \<or>
     (stream_id x \<noteq> stream_id y \<and> (rate x = rate y \<longrightarrow> time_remaining x = time_remaining y) \<and>
      (\<forall>k. \<not> (extra_args x = Slot k \<and> extra_args y = Slot k)))"

definition table_ok :: "dialect \<Rightarrow> streams \<Rightarrow> bool" where
  "table_ok d st \<longleftrightarrow>
     (\<forall>i < length (g_stream_table st). entry_ok d (g_stream_args st) (g_stream_table st ! i)) \<and>
     (\<forall>i < length (g_stream_table st). \<forall>j < length (g_stream_table st). i \<noteq> j \<longrightarrow>
        pair_ok (g_stream_table st ! i) (g_stream_table st ! j))"

definition slots_ok :: "streams \<Rightarrow> bool" where
  "slots_ok st \<longleftrightarrow> (\<forall>s \<in> set (g_stream_args st). length s < 64) \<and>
     (\<forall>k < length (g_stream_args st). g_stream_args st ! k \<noteq> [] \<longrightarrow>
        (\<exists>i < length (g_stream_table st).
           stream_id (g_stream_table st ! i) \<noteq> 0 \<and> extra_args (g_stream_table st ! i) = Slot k))"

definition stream_inv :: "dialect \<Rightarrow> nat \<Rightarrow> streams \<Rightarrow> bool" where
  "stream_inv d n st \<longleftrightarrow> length (g_stream_table st) = n \<and> length (g_stream_args st) = 8 \<and>
     table_ok d st \<and> slots_ok st"

lemma streams_init_inv: "stream_inv d n (streams_init n)"
  by (auto simp: stream_inv_def table_ok_def slots_ok_def entry_ok_def pair_ok_def streams_init_def)

lemma sync_scan_Some:
  "sync_scan i r t0 xs = Some t \<Longrightarrow>
     (\<forall>x \<in> set xs. ucast (stream_id x) \<noteq> i) \<and>
     ((\<exists>x \<in> set xs. stream_id x \<noteq> 0 \<and> rate x = r \<and> t = time_remaining x) \<or>
      (t = t0 \<and> (\<forall>x \<in> set xs. \<not> (stream_id x \<noteq> 0 \<and> rate x = r))))"
proof (induction xs arbitrary: t0)
  case (Cons x xs)
  let ?t = "if stream_id x \<noteq> 0 \<and> rate x = r then time_remaining x else t0"
  from Cons.prems have 1: "ucast (stream_id x) \<noteq> i" "sync_scan i r ?t xs = Some t"
    by (auto split: if_splits)
  from Cons.IH [OF 1(2)] 1(1) show ?case by (auto split: if_splits)
qed simp

lemma first_free_slot:
  assumes "first_index (\<lambda>s. s = []) slots = Some j"
  shows "j < length slots" "slots ! j = []"
  using first_index_Some [OF assms] by auto

text \<open>Filling a free entry of the table.\<close>

lemma table_fill:
  assumes ok: "table_ok d st" and n: "n < length (g_stream_table st)"
    and free: "stream_id (g_stream_table st ! n) = 0"
    and entry: "entry_ok d slots x"
    and slots: "\<And>y. entry_ok d (g_stream_args st) y \<Longrightarrow> entry_ok d slots y"
    and pairs: "\<And>y. y \<in> set (g_stream_table st) \<Longrightarrow> pair_ok x y"
  shows "table_ok d (st\<lparr>g_stream_table := (g_stream_table st)[n := x], g_stream_args := slots\<rparr>)"
proof -
  have sym: "pair_ok y x" if "y \<in> set (g_stream_table st)" for y
    using pairs [OF that] by (auto simp: pair_ok_def)
  show ?thesis
    using ok n entry slots pairs sym
    by (auto simp: table_ok_def nth_list_update)
qed

text \<open>Changing an entry in a way that keeps its id, rate, arguments and command, or that frees it.\<close>

lemma place_args_ok:
  assumes "place_args text slots = Ret (Some (ptr, slots'))"
  shows "(ptr = NullArgs \<and> slots' = slots) \<or>
     (\<exists>j. ptr = Slot j \<and> j < length slots \<and> slots ! j = [] \<and> slots' = slots[j := text] \<and>
        text \<noteq> [] \<and> length text < 64)"
  using assms first_free_slot [of slots]
  by (auto simp: place_args_def obind_eq_Ret split: if_splits option.splits)

lemma u16_small:
  assumes "i \<noteq> 0" "\<not> i > (15 :: u16)"
  shows "ucast i \<noteq> (0 :: u8)" "ucast i \<le> (15 :: u8)" "ucast (ucast i :: u8) = i"
proof -
  have "i < 16" using assms(2) by unat_arith
  note u = ucast_nybble [OF this]
  from u(1) show "ucast i \<le> (15 :: u8)" by unat_arith
  show "ucast (ucast i :: u8) = i" by (rule u(2))
  show "ucast i \<noteq> (0 :: u8)" using u(2) assms(1) by auto
qed

lemma stb_cases:
  assumes "stb d args room st = Ret (e, out, st')"
  shows "st' = st \<and> e = 1 \<or>
    (\<exists>i r t k n ptr slots rest. e = 0 \<and> out = STR_OK \<and>
       k < length (codes d) \<and> snd (codes d ! k) \<and> i \<noteq> 0 \<and> \<not> i > 15 \<and> r \<noteq> 0 \<and>
       sync_scan i r r (g_stream_table st) = Some t \<and>
       n < length (g_stream_table st) \<and> stream_id (g_stream_table st ! n) = 0 \<and>
       place_args rest (g_stream_args st) = Ret (Some (ptr, slots)) \<and>
       st' = st\<lparr>g_stream_table := (g_stream_table st)
               [n := \<lparr>stream_id = ucast i, cmd_index = k, extra_args = ptr, rate = r,
                      time_remaining = t, queued_runs = 0\<rparr>],
             g_stream_args := slots\<rparr>)"
proof (cases "scan_stb args")
  case None
  then show ?thesis using assms by (simp add: stb_def)
next
  case (Some q)
  obtain i r0 code rest where q: "q = (i, r0, code, rest)" by (metis prod.exhaust)
  define r where "r = (if r0 = 0 then 1 else r0)"
  have r0: "r \<noteq> 0" by (simp add: r_def)
  show ?thesis
  proof (cases "find_message_index (codes d) code")
    case None
    then show ?thesis using assms Some q by (simp add: stb_def)
  next
    case k: (Some k)
    have kl: "k < length (codes d)" using k first_index_Some by (auto simp: find_message_index_def)
    note un = assms [unfolded stb_def Some q option.case prod.case k Let_def, folded r_def]
    show ?thesis
    proof (cases "snd (codes d ! k) \<and> i \<noteq> 0 \<and> \<not> i > 15")
      case False
      then show ?thesis using un by (auto split: if_splits)
    next
      case True
      show ?thesis
      proof (cases "sync_scan i r r (g_stream_table st)")
        case None
        then show ?thesis using un True by simp
      next
        case t: (Some t)
        show ?thesis
        proof (cases "first_index (\<lambda>x. stream_id x = 0) (g_stream_table st)")
          case None
          then show ?thesis using un True t by simp
        next
          case n: (Some n)
          note nn = first_index_Some [OF n]
          from un True t n obtain p where p: "place_args rest (g_stream_args st) = Ret p"
            by (auto simp: obind_eq_Ret)
          show ?thesis
          proof (cases p)
            case None
            then show ?thesis using un True t n p by simp
          next
            case (Some pp)
            obtain ptr slots where pp: "pp = (ptr, slots)" by fastforce
            show ?thesis
              by (rule disjI2, rule exI [of _ i], rule exI [of _ r], rule exI [of _ t], rule exI [of _ k],
                  rule exI [of _ n], rule exI [of _ ptr], rule exI [of _ slots], rule exI [of _ rest])
                 (use un True t n p Some pp kl r0 nn in auto)
          qed
        qed
      qed
    qed
  qed
qed

lemma slot_clash:
  assumes "slots_ok st" "table_ok d st" "y \<in> set (g_stream_table st)" "stream_id y \<noteq> 0"
    and "extra_args y = Slot j"
  shows "g_stream_args st ! j \<noteq> []" "j < length (g_stream_args st)"
  using assms by (auto simp: table_ok_def entry_ok_def in_set_conv_nth)

lemma stb_inv [inv_intros]:
  assumes inv: "stream_inv d m st" and run: "stb d args room st = Ret (e, out, st')"
  shows "stream_inv d m st'"
proof (cases "st' = st")
  case True
  then show ?thesis using inv by simp
next
  case False
  have ok: "table_ok d st" "slots_ok st" and len: "length (g_stream_table st) = m" "length (g_stream_args st) = 8"
    using inv by (simp_all add: stream_inv_def)
  from stb_cases [OF run] False obtain i r t k n ptr slots rest where
    k: "k < length (codes d)" "snd (codes d ! k)" and i: "i \<noteq> 0" "\<not> i > 15" and r: "r \<noteq> 0" and
    t: "sync_scan i r r (g_stream_table st) = Some t" and
    n: "n < length (g_stream_table st)" "stream_id (g_stream_table st ! n) = 0" and
    p: "place_args rest (g_stream_args st) = Ret (Some (ptr, slots))" and
    st': "st' = st\<lparr>g_stream_table := (g_stream_table st)
               [n := \<lparr>stream_id = ucast i, cmd_index = k, extra_args = ptr, rate = r,
                      time_remaining = t, queued_runs = 0\<rparr>], g_stream_args := slots\<rparr>"
    by (elim disjE conjE exE) simp_all
  let ?x = "\<lparr>stream_id = ucast i, cmd_index = k, extra_args = ptr, rate = r, time_remaining = t, queued_runs = 0\<rparr>"
  note u = u16_small [OF i] and sc = sync_scan_Some [OF t] and pa = place_args_ok [OF p]
  have entry: "entry_ok d (g_stream_args st) y" if "y \<in> set (g_stream_table st)" for y
    using ok(1) that by (auto simp: table_ok_def in_set_conv_nth)
  have t_ok: "t \<noteq> 0" "t \<le> r"
    using sc r entry by (fastforce simp: entry_ok_def)+
  have new: "entry_ok d slots ?x"
    using k u t_ok pa by (auto simp: entry_ok_def)
  have mono: "entry_ok d slots y" if "entry_ok d (g_stream_args st) y" for y
    using that pa by (auto simp: entry_ok_def nth_list_update split: args_ptr.splits if_splits)
  have pairs: "pair_ok ?x y" if y: "y \<in> set (g_stream_table st)" for y
  proof -
    have "stream_id y \<noteq> ucast i" using sc y u(3) by auto
    moreover have "stream_id y \<noteq> 0 \<Longrightarrow> rate y = r \<Longrightarrow> time_remaining y = t"
      using sc y ok(1) by (fastforce simp: table_ok_def pair_ok_def in_set_conv_nth)
    moreover have "stream_id y \<noteq> 0 \<Longrightarrow> ptr = Slot j \<Longrightarrow> extra_args y \<noteq> Slot j" for j
      using slot_clash [OF ok(2,1) y] pa by auto
    ultimately show ?thesis by (auto simp: pair_ok_def)
  qed
  have "table_ok d st'"
    unfolding st' by (rule table_fill [OF ok(1) n new mono pairs])
  moreover have "slots_ok st'"
    unfolding slots_ok_def
  proof (intro conjI allI impI ballI)
    fix s assume "s \<in> set (g_stream_args st')"
    then show "length s < 64"
      using pa ok(2) by (auto simp: st' slots_ok_def dest!: set_update_subset_insert [THEN subsetD])
  next
    fix j assume j: "j < length (g_stream_args st')" "g_stream_args st' ! j \<noteq> []"
    show "\<exists>l < length (g_stream_table st').
       stream_id (g_stream_table st' ! l) \<noteq> 0 \<and> extra_args (g_stream_table st' ! l) = Slot j"
    proof (cases "ptr = Slot j")
      case True
      then show ?thesis using n u(1) by (intro exI [of _ n]) (simp add: st')
    next
      case False
      then have "g_stream_args st ! j \<noteq> []" "j < length (g_stream_args st)"
        using j pa by (auto simp: st' nth_list_update split: if_splits)
      then obtain l where "l < length (g_stream_table st)" "stream_id (g_stream_table st ! l) \<noteq> 0"
        "extra_args (g_stream_table st ! l) = Slot j"
        using ok(2) by (auto simp: slots_ok_def)
      then show ?thesis using n by (intro exI [of _ l]) (auto simp: st' nth_list_update)
    qed
  qed
  moreover have "length slots = 8" using pa len by auto
  ultimately show ?thesis using len by (simp add: stream_inv_def st')
qed

text \<open>Freeing an entry.\<close>

lemma drop_entry:
  assumes inv: "stream_inv d m st" and i: "i < m"
    and slots: "\<And>j. j < 8 \<Longrightarrow> slots ! j = (if stream_id (g_stream_table st ! i) \<noteq> 0 \<and>
        extra_args (g_stream_table st ! i) = Slot j then [] else g_stream_args st ! j)" "length slots = 8"
  shows "stream_inv d m (st\<lparr>g_stream_table := (g_stream_table st)[i := (g_stream_table st ! i)\<lparr>stream_id := 0\<rparr>],
      g_stream_args := slots\<rparr>)"
proof -
  let ?T = "g_stream_table st"
  have ok: "table_ok d st" "slots_ok st" and len: "length ?T = m" "length (g_stream_args st) = 8"
    using inv by (simp_all add: stream_inv_def)
  have entry: "entry_ok d slots (?T ! l)" if l: "l < m" "l \<noteq> i" for l
  proof -
    have "entry_ok d (g_stream_args st) (?T ! l)" "pair_ok (?T ! l) (?T ! i)"
      using ok(1) l i len by (auto simp: table_ok_def)
    then show ?thesis
      using slots len by (auto simp: entry_ok_def pair_ok_def split: args_ptr.splits if_splits)
  qed
  have free: "entry_ok d slots ((?T ! i)\<lparr>stream_id := 0\<rparr>)" "pair_ok ((?T ! i)\<lparr>stream_id := 0\<rparr>) y"
    "pair_ok y ((?T ! i)\<lparr>stream_id := 0\<rparr>)" for y
    by (simp_all add: entry_ok_def pair_ok_def)
  have pairs: "pair_ok (?T ! a) (?T ! b)" if "a < m" "b < m" "a \<noteq> b" for a b
    using ok(1) len that by (simp add: table_ok_def)
  have short: "length s < 64" if "s \<in> set slots" for s
  proof -
    from that slots(2) obtain j where j: "j < 8" "s = slots ! j" by (auto simp: in_set_conv_nth)
    have "length (g_stream_args st ! j) < 64" using ok(2) len j(1) by (simp add: slots_ok_def)
    then show ?thesis using slots(1) [OF j(1)] j(2) by simp
  qed
  have owned: "\<exists>l < m. stream_id ((?T[i := (?T ! i)\<lparr>stream_id := 0\<rparr>]) ! l) \<noteq> 0 \<and>
      extra_args ((?T[i := (?T ! i)\<lparr>stream_id := 0\<rparr>]) ! l) = Slot j" if j: "j < 8" "slots ! j \<noteq> []" for j
  proof -
    from j slots(1) [of j] have ne: "g_stream_args st ! j \<noteq> []"
      "\<not> (stream_id (?T ! i) \<noteq> 0 \<and> extra_args (?T ! i) = Slot j)" by (auto split: if_splits)
    with ok(2) len j(1) obtain l where "l < m" "stream_id (?T ! l) \<noteq> 0" "extra_args (?T ! l) = Slot j"
      by (auto simp: slots_ok_def)
    with ne(2) have "l \<noteq> i" "l < m" "stream_id (?T ! l) \<noteq> 0" "extra_args (?T ! l) = Slot j" by auto
    then show ?thesis by (intro exI [of _ l]) simp
  qed
  show ?thesis
    using len slots(2) entry free pairs short owned i
    by (auto simp: stream_inv_def table_ok_def slots_ok_def nth_list_update)
qed

lemma drop_stream_inv [inv_intros]:
  assumes "stream_inv d m st" "i < m" "stream_id (g_stream_table st ! i) \<noteq> 0"
    "drop_stream i st = Ret st'"
  shows "stream_inv d m st'"
proof -
  let ?T = "g_stream_table st"
  have "st' = st\<lparr>g_stream_table := ?T[i := (?T ! i)\<lparr>stream_id := 0\<rparr>],
      g_stream_args := (case extra_args (?T ! i) of Slot j \<Rightarrow> (g_stream_args st)[j := []] | _ \<Rightarrow> g_stream_args st)\<rparr>"
    using assms(4) by (auto simp: drop_stream_def clear_args_def split: args_ptr.splits)
  moreover have "length (g_stream_args st) = 8" using assms(1) by (simp add: stream_inv_def)
  ultimately show ?thesis
    by (simp only:, intro drop_entry [OF assms(1,2)])
       (auto simp: assms(3) nth_list_update split: args_ptr.splits)
qed

lemma drop_stream_Ret:
  assumes "stream_inv d m st" "i < m" "stream_id (g_stream_table st ! i) \<noteq> 0"
  shows "\<exists>st'. drop_stream i st = Ret st'"
proof -
  have "entry_ok d (g_stream_args st) (g_stream_table st ! i)"
    using assms(1,2) by (simp add: stream_inv_def table_ok_def)
  with assms(3) show ?thesis
    by (auto simp: drop_stream_def clear_args_def entry_ok_def split: args_ptr.splits)
qed

lemma ste_cases:
  assumes "ste d args room st = Ret (e, out, st')"
  shows "st' = st \<or>
    (\<exists>n. n < length (g_stream_table st) \<and> stream_id (g_stream_table st ! n) \<noteq> 0 \<and>
       drop_stream n st = Ret st' \<and> e = 0 \<and> out = STR_OK)"
proof (cases "scan_ste args")
  case None
  then show ?thesis using assms by (simp add: ste_def)
next
  case (Some q)
  obtain i code where q: "q = (i, code)" by fastforce
  show ?thesis
  proof (cases "i = 0")
    case True
    then show ?thesis using assms Some q by (simp add: ste_def)
  next
    case False
    show ?thesis
    proof (cases "first_index (\<lambda>x. ucast (stream_id x) = i) (g_stream_table st)")
      case None
      then show ?thesis using assms Some q False by (simp add: ste_def)
    next
      case n: (Some n)
      from first_index_Some [OF n] False have "n < length (g_stream_table st)"
        "stream_id (g_stream_table st ! n) \<noteq> 0" by auto
      then show ?thesis
        using assms Some q False n by (auto simp: ste_def obind_eq_Ret split: if_splits)
    qed
  qed
qed

lemma ste_inv [inv_intros]:
  "stream_inv d m st \<Longrightarrow> ste d args room st = Ret (e, out, st') \<Longrightarrow> stream_inv d m st'"
  using ste_cases [of d args room st e out st'] drop_stream_inv [of d m st]
  by (auto simp: stream_inv_def)

lemma timer_stream_simps [simp]:
  "stream_id (timer_stream x) = stream_id x" "rate (timer_stream x) = rate x"
  "extra_args (timer_stream x) = extra_args x" "cmd_index (timer_stream x) = cmd_index x"
  by (simp_all add: timer_stream_def Let_def)

lemma timer_stream_time:
  "stream_id x \<noteq> 0 \<Longrightarrow>
   time_remaining (timer_stream x) = (if time_remaining x = 1 then rate x else time_remaining x - 1)"
  by (auto simp: timer_stream_def Let_def)

lemma entry_ok_timer: "entry_ok d slots x \<Longrightarrow> entry_ok d slots (timer_stream x)"
proof (cases "stream_id x = 0")
  case False
  assume ok: "entry_ok d slots x"
  then have t: "time_remaining x \<noteq> 0" "time_remaining x \<le> rate x" using False by (auto simp: entry_ok_def)
  have "time_remaining (timer_stream x) \<noteq> 0" "time_remaining (timer_stream x) \<le> rate x"
    unfolding timer_stream_time [OF False] using t by (auto split: if_splits) unat_arith+
  with ok False show ?thesis by (auto simp: entry_ok_def)
qed (simp add: entry_ok_def)

lemma pair_ok_timer: "pair_ok x y \<Longrightarrow> pair_ok (timer_stream x) (timer_stream y)"
  by (auto simp: pair_ok_def timer_stream_time)

lemma stream_timer_inv [inv_intros]: "stream_inv d m st \<Longrightarrow> stream_inv d m (stream_timer_update st)"
  by (fastforce simp: stream_inv_def stream_timer_update_def table_ok_def slots_ok_def
      intro: entry_ok_timer pair_ok_timer)

lemma take_run_inv [inv_intros]:
  assumes "stream_inv d m st" "i < m"
  shows "stream_inv d m (take_run i st)"
proof -
  let ?T = "g_stream_table st"
  let ?x = "(?T ! i)\<lparr>queued_runs := queued_runs (?T ! i) - 1\<rparr>"
  have eq: "entry_ok d slots ?x = entry_ok d slots (?T ! i)" "pair_ok ?x y = pair_ok (?T ! i) y"
    "pair_ok y ?x = pair_ok y (?T ! i)" for slots y
    by (simp_all add: entry_ok_def pair_ok_def)
  show ?thesis
    using assms unfolding take_run_def
    by (fastforce simp: stream_inv_def table_ok_def slots_ok_def nth_list_update eq)
qed

lemma stop_stream_simps [simp]:
  "length (g_stream_table (stop_stream i st)) = length (g_stream_table st)"
  "length (g_stream_args (stop_stream i st)) = length (g_stream_args st)"
  by (simp_all add: stop_stream_def Let_def split: args_ptr.splits)

lemma stop_stream_effect:
  assumes "i < length (g_stream_table st)"
  shows "g_stream_table (stop_stream i st) ! j =
      (if j = i then (g_stream_table st ! i)\<lparr>stream_id := 0\<rparr> else g_stream_table st ! j)"
    "k < length (g_stream_args st) \<Longrightarrow> g_stream_args (stop_stream i st) ! k =
      (if extra_args (g_stream_table st ! i) = Slot k then [] else g_stream_args st ! k)"
  using assms by (auto simp: stop_stream_def Let_def nth_list_update split: args_ptr.splits)

lemma stop_fold:
  "n \<le> length (g_stream_table st) \<Longrightarrow>
   (let st' = fold stop_stream [0..<n] st in
     length (g_stream_table st') = length (g_stream_table st) \<and>
     length (g_stream_args st') = length (g_stream_args st) \<and>
     (\<forall>j < length (g_stream_table st). extra_args (g_stream_table st' ! j) = extra_args (g_stream_table st ! j) \<and>
        (j < n \<longrightarrow> stream_id (g_stream_table st' ! j) = 0)) \<and>
     (\<forall>k < length (g_stream_args st). g_stream_args st' ! k =
        (if \<exists>i < n. extra_args (g_stream_table st ! i) = Slot k then [] else g_stream_args st ! k)))"
proof (induction n)
  case (Suc n)
  let ?u = "fold stop_stream [0..<n] st"
  have IH: "length (g_stream_table ?u) = length (g_stream_table st)"
    "length (g_stream_args ?u) = length (g_stream_args st)"
    "\<forall>j < length (g_stream_table st). extra_args (g_stream_table ?u ! j) = extra_args (g_stream_table st ! j) \<and>
        (j < n \<longrightarrow> stream_id (g_stream_table ?u ! j) = 0)"
    "\<forall>k < length (g_stream_args st). g_stream_args ?u ! k =
        (if \<exists>i < n. extra_args (g_stream_table st ! i) = Slot k then [] else g_stream_args st ! k)"
    using Suc by (auto simp: Let_def)
  have n: "n < length (g_stream_table ?u)" using Suc.prems IH(1) by simp
  have un: "fold stop_stream [0..<Suc n] st = stop_stream n ?u" by simp
  show ?case
    unfolding un Let_def
    using IH n Suc.prems by (auto simp: stop_stream_effect less_Suc_eq)
qed simp

lemma stream_stop_all_inv [inv_intros]:
  assumes "stream_inv d m st"
  shows "stream_inv d m (stream_stop_all st)"
proof -
  define st' where "st' = stream_stop_all st"
  have len: "length (g_stream_table st) = m" "length (g_stream_args st) = 8" and ok: "slots_ok st"
    using assms by (simp_all add: stream_inv_def)
  have f: "length (g_stream_table st') = m" "length (g_stream_args st') = 8"
    "\<forall>j < m. stream_id (g_stream_table st' ! j) = 0"
    "\<forall>k < 8. g_stream_args st' ! k =
       (if \<exists>i < m. extra_args (g_stream_table st ! i) = Slot k then [] else g_stream_args st ! k)"
    using stop_fold [of m st] len by (auto simp: st'_def stream_stop_all_def Let_def)
  have "g_stream_args st' ! k = []" if "k < 8" for k
  proof (cases "g_stream_args st ! k = []")
    case False
    with ok that len show ?thesis using f(4) by (fastforce simp: slots_ok_def)
  qed (use f(4) that in auto)
  then show ?thesis
    using f by (auto simp: stream_inv_def table_ok_def slots_ok_def entry_ok_def pair_ok_def
        in_set_conv_nth st'_def [symmetric])
qed

section \<open>Everything that happens to a table\<close>

inductive table_step :: "dialect \<Rightarrow> streams \<Rightarrow> streams \<Rightarrow> bool" for d where
  idle: "table_step d st st"
| begin_stream: "stb d args room st = Ret (e, out, st') \<Longrightarrow> table_step d st st'"
| end_stream: "ste d args room st = Ret (e, out, st') \<Longrightarrow> table_step d st st'"
| timer: "table_step d st (stream_timer_update st)"
| run_one: "next_run st = Some i \<Longrightarrow> table_step d st (take_run i st)"
| fail: "i < length (g_stream_table st) \<Longrightarrow> stream_id (g_stream_table st ! i) \<noteq> 0 \<Longrightarrow>
    drop_stream i st = Ret st' \<Longrightarrow> table_step d st st'"
| stop_all: "table_step d st (stream_stop_all st)"

inductive_cases table_stepE: "table_step d st st'"

lemma table_step_inv: "table_step d st st' \<Longrightarrow> stream_inv d m st \<Longrightarrow> stream_inv d m st'"
proof (induction rule: table_step.induct)
  case (run_one st i)
  then have "i < m" using first_index_Some by (auto simp: next_run_def stream_inv_def)
  with run_one show ?case by (simp add: take_run_inv)
next
  case (fail i st st')
  moreover have "i < m" using fail by (simp add: stream_inv_def)
  ultimately show ?case using drop_stream_inv by blast
qed (blast intro: stb_inv ste_inv stream_timer_inv stream_stop_all_inv)+

lemma table_steps_inv: "(table_step d)\<^sup>*\<^sup>* st st' \<Longrightarrow> stream_inv d m st \<Longrightarrow> stream_inv d m st'"
  by (induction rule: rtranclp_induct) (auto intro: table_step_inv)

text \<open>The owner of a table: a program with a state, a relation of its steps, its initial states and
  an invariant of its own. Its steps change the table by table steps only.\<close>

locale stream_host =
  fixes d :: dialect and n :: nat
    and table_of :: "'s \<Rightarrow> streams"
    and start :: "'s \<Rightarrow> bool"
    and step :: "'s \<Rightarrow> 's \<Rightarrow> bool"
    and good :: "'s \<Rightarrow> bool"
  assumes start: "start s \<Longrightarrow> good s \<and> table_of s = streams_init n"
    and host_step: "good s \<Longrightarrow> stream_inv d n (table_of s) \<Longrightarrow> step s s' \<Longrightarrow>
      good s' \<and> (table_step d)\<^sup>*\<^sup>* (table_of s) (table_of s')"
begin

lemma reach_inv: "start s \<Longrightarrow> step\<^sup>*\<^sup>* s s' \<Longrightarrow> good s' \<and> stream_inv d n (table_of s')"
proof -
  assume s: "start s" and "step\<^sup>*\<^sup>* s s'"
  from this(2) show "good s' \<and> stream_inv d n (table_of s')"
  proof (induction rule: rtranclp_induct)
    case base
    then show ?case using start [OF s] streams_init_inv by simp
  next
    case (step y z)
    then show ?case using host_step [of y z] table_steps_inv by blast
  qed
qed

text \<open>Streams of the same rate stay in phase, whenever they were started.\<close>

lemma reach_in_phase:
  assumes "start s" "step\<^sup>*\<^sup>* s s'" "x \<in> set (g_stream_table (table_of s'))"
    "y \<in> set (g_stream_table (table_of s'))" "stream_id x \<noteq> 0" "stream_id y \<noteq> 0" "rate x = rate y"
  shows "time_remaining x = time_remaining y"
proof -
  from reach_inv [OF assms(1,2)] have "table_ok d (table_of s')" by (simp add: stream_inv_def)
  with assms(3-7) show ?thesis
    by (auto simp: table_ok_def in_set_conv_nth pair_ok_def)
qed

end

section \<open>Commands that fit\<close>

lemma scan_stb_shorter: "scan_stb args = Some (i, r, code, rest) \<Longrightarrow> length rest \<le> length args"
proof -
  assume h: "scan_stb args = Some (i, r, code, rest)"
  then obtain s1 s2 where 1: "scan_x (skip_ws args) = Some (i, s1)" "scan_x (skip_ws s1) = Some (r, s2)"
    "rest = drop 3 (skip_ws s2)"
    by (auto simp: scan_stb_def scan_code_def split: option.splits if_splits)
  have "length s1 \<le> length args" using scan_x_shorter [OF 1(1)] skip_ws_shorter [of args] by simp
  moreover have "length s2 \<le> length s1" using scan_x_shorter [OF 1(2)] skip_ws_shorter [of s1] by simp
  ultimately show ?thesis using 1(3) skip_ws_shorter [of s2] by simp
qed

text \<open>A table with no more entries than there are argument slots has a slot for every free entry.\<close>

lemma free_slot_exists:
  assumes inv: "stream_inv d m st" and m: "m \<le> 8"
    and n: "n < m" "stream_id (g_stream_table st ! n) = 0"
  shows "first_index (\<lambda>s. s = []) (g_stream_args st) \<noteq> None"
proof
  assume "first_index (\<lambda>s. s = []) (g_stream_args st) = None"
  then have full: "\<forall>k < 8. g_stream_args st ! k \<noteq> []"
    using inv by (auto simp: first_index_None stream_inv_def)
  define owner where "owner k = (SOME l. l < m \<and> stream_id (g_stream_table st ! l) \<noteq> 0 \<and>
      extra_args (g_stream_table st ! l) = Slot k)" for k
  have owner: "owner k < m \<and> stream_id (g_stream_table st ! owner k) \<noteq> 0 \<and>
      extra_args (g_stream_table st ! owner k) = Slot k" if "k < 8" for k
    unfolding owner_def
    by (rule someI_ex) (use full inv that in \<open>auto simp: stream_inv_def slots_ok_def\<close>)
  have "inj_on owner {..<8}"
    by (rule inj_onI) (metis owner args_ptr.inject lessThan_iff)
  moreover have "owner ` {..<8} \<subseteq> {..<m} - {n}"
    using owner n(2) by fastforce
  ultimately have "card {..<8 :: nat} \<le> card ({..<m} - {n})"
    by (intro card_inj_on_le) auto
  with n(1) m show False by simp
qed

lemma stg_same: "stg d args room st = Ret (e, out, st') \<Longrightarrow> st' = st"
  by (auto simp: stg_def obind_eq_Ret Let_def split: prod.splits if_splits option.splits)

text \<open>The longest message of a dialect.\<close>

definition texts_fit :: "dialect \<Rightarrow> nat \<Rightarrow> bool" where
  "texts_fit d b \<longleftrightarrow> list_all (\<lambda>t. length t \<le> b)
     [PARSE_ERROR d, CODE_MISMATCH d, '' stream'' @ UNKNOWN_CMD d, NOT_STREAMABLE d, ID_ZERO d, ID_INVALID d,
      STREAM_ID_IN_USE d, STREAM_TABLE_FULL d, STREAM_NOT_FOUND d, STR_OK]"

lemma stb_Ret:
  assumes inv: "stream_inv d m st" and m: "m \<le> 8" and args: "length args < 64"
    and fit: "texts_fit d b" "b < room"
  shows "\<exists>e out st'. stb d args room st = Ret (e, out, st') \<and> length out \<le> b \<and> stream_inv d m st'"
proof -
  have "\<exists>e out st'. stb d args room st = Ret (e, out, st') \<and> length out \<le> b"
  proof (cases "scan_stb args")
    case None
    then show ?thesis using fit by (simp add: stb_def texts_fit_def outcome_simps)
  next
    case (Some q)
    obtain i r0 code rest where q: "q = (i, r0, code, rest)" by (metis prod.exhaust)
    have len: "length rest < 64" using scan_stb_shorter Some q args by fastforce
    have place: "\<exists>p. place_args rest (g_stream_args st) = Ret (Some p)"
      if "first_index (\<lambda>x. stream_id x = 0) (g_stream_table st) = Some n" for n
      using free_slot_exists [OF inv m, of n] first_index_Some [OF that] inv len
      by (auto simp: place_args_def stream_inv_def outcome_simps)
    show ?thesis
      using fit place unfolding stb_def Some q
      by (auto simp: texts_fit_def outcome_simps Let_def split: option.splits prod.splits)
  qed
  with stb_inv [OF inv] show ?thesis by blast
qed

text \<open>The text that \<open>stb\<close> copies to an argument slot, when it comes to that.\<close>

definition stb_store :: "dialect \<Rightarrow> string \<Rightarrow> streams \<Rightarrow> string option" where
  "stb_store d args st =
     (case scan_stb args of
        None \<Rightarrow> None
      | Some (i, r, code, rest) \<Rightarrow>
          (case find_message_index (codes d) code of
             None \<Rightarrow> None
           | Some k \<Rightarrow>
               if snd (codes d ! k) \<and> i \<noteq> 0 \<and> \<not> i > 15 \<and>
                  sync_scan i (if r = 0 then 1 else r) (if r = 0 then 1 else r) (g_stream_table st) \<noteq> None \<and>
                  first_index (\<lambda>x. stream_id x = 0) (g_stream_table st) \<noteq> None \<and>
                  first_index (\<lambda>s. s = []) (g_stream_args st) \<noteq> None \<and> 1 < length rest
               then Some rest else None))"

lemma stb_result:
  assumes fit: "texts_fit d b" "b < room" "28 \<le> b"
  shows "if \<exists>t. stb_store d args st = Some t \<and> 64 \<le> length t then stb d args room st = Overrun
    else \<exists>e out st'. stb d args room st = Ret (e, out, st') \<and> length out \<le> b"
proof (cases "scan_stb args")
  case None
  then show ?thesis using fit by (simp add: stb_def stb_store_def texts_fit_def outcome_simps)
next
  case (Some q)
  obtain i r0 code rest where q: "q = (i, r0, code, rest)" by (metis prod.exhaust)
  define r where "r = (if r0 = 0 then 1 else r0)"
  show ?thesis
  proof (cases "find_message_index (codes d) code")
    case None
    then show ?thesis using fit Some q by (simp add: stb_def stb_store_def texts_fit_def outcome_simps)
  next
    case k: (Some k)
    show ?thesis
    proof (cases "snd (codes d ! k) \<and> i \<noteq> 0 \<and> \<not> i > 15")
      case False
      then show ?thesis using fit Some q k
        by (auto simp: stb_def stb_store_def texts_fit_def outcome_simps)
    next
      case True
      show ?thesis
        using fit Some q k True
        by (auto simp: stb_def stb_store_def texts_fit_def outcome_simps Let_def r_def [symmetric]
            place_args_def store_def split: option.splits)
    qed
  qed
qed

lemma ste_Ret:
  assumes inv: "stream_inv d m st" and fit: "texts_fit d b" "b < room"
  shows "\<exists>e out st'. ste d args room st = Ret (e, out, st') \<and> length out \<le> b \<and> stream_inv d m st'"
proof -
  have "\<exists>e out st'. ste d args room st = Ret (e, out, st') \<and> length out \<le> b"
  proof (cases "scan_ste args")
    case None
    then show ?thesis using fit by (simp add: ste_def texts_fit_def outcome_simps)
  next
    case (Some q)
    obtain i code where q: "q = (i, code)" by fastforce
    have dr: "\<exists>st'. drop_stream n st = Ret st'"
      if "first_index (\<lambda>x. ucast (stream_id x) = i) (g_stream_table st) = Some n" "i \<noteq> 0" for n
      using first_index_Some [OF that(1)] that(2) inv
      by (intro drop_stream_Ret [OF inv]) (auto simp: stream_inv_def)
    show ?thesis
      using fit dr unfolding ste_def Some q
      by (fastforce simp: texts_fit_def outcome_simps split: option.splits)
  qed
  with ste_inv [OF inv] show ?thesis by blast
qed

text \<open>\<open>stg\<close> prints the arguments of the stream it finds, and these may be too long.\<close>

definition stg_text :: "string \<Rightarrow> streams \<Rightarrow> string option" where
  "stg_text args st =
     (let i = snd (scan_stg args)
      in if i = 0 then None
         else map_option (\<lambda>n. args_text (extra_args (g_stream_table st ! n)) st)
                (first_index (\<lambda>x. stream_id x = i) (g_stream_table st)))"

lemma stg_result:
  assumes fit: "texts_fit d b" "b < room" and inv: "stream_inv d m st"
    and codes: "\<forall>c \<in> set (codes d). length (fst c) = 3"
  shows "case stg_text args st of
      None \<Rightarrow> (\<exists>e out. stg d args room st = Ret (e, out, st) \<and> length out \<le> b)
    | Some t \<Rightarrow> (if room \<le> 12 + length t then stg d args room st = Overrun
                 else \<exists>out. stg d args room st = Ret (0, out, st) \<and> length out = 12 + length t)"
proof -
  obtain parsed i where sc: "scan_stg args = (parsed, i)" by fastforce
  have pe: "length (PARSE_ERROR d) < room" using fit by (simp add: texts_fit_def)
  show ?thesis
  proof (cases "i = 0")
    case True
    then show ?thesis using fit pe sc by (simp add: stg_def stg_text_def texts_fit_def outcome_simps)
  next
    case False
    show ?thesis
    proof (cases "first_index (\<lambda>x. stream_id x = i) (g_stream_table st)")
      case None
      then show ?thesis using False fit pe sc by (simp add: stg_def stg_text_def texts_fit_def outcome_simps)
    next
      case (Some n)
      let ?x = "g_stream_table st ! n"
      from first_index_Some [OF Some] have n: "n < m" "stream_id ?x = i" using inv by (auto simp: stream_inv_def)
      then have "cmd_index ?x < length (codes d)"
        using inv False by (auto simp: stream_inv_def table_ok_def entry_ok_def)
      then have c3: "length (fst (codes d ! cmd_index ?x)) = 3" using codes nth_mem by blast
      show ?thesis
        using False Some pe sc c3
        by (auto simp: stg_def stg_text_def say_def store_def Let_def outcome_simps)
    qed
  qed
qed

section \<open>How often a stream runs\<close>

definition runs_after :: "nat \<Rightarrow> nat \<Rightarrow> nat \<Rightarrow> nat" where
  "runs_after k t r = (if k < t then 0 else 1 + (k - t) div r)"

lemma runs_after_Suc:
  assumes "0 < t" "0 < r"
  shows "runs_after (Suc k) t r = (if t = 1 then 1 + runs_after k r r else runs_after k (t - 1) r)"
proof (cases "t = 1")
  case True
  have "k div r = (if k < r then 0 else 1 + (k - r) div r)"
    using assms(2) by (auto simp: le_div_geq)
  with True show ?thesis by (simp add: runs_after_def)
next
  case False
  with assms(1) show ?thesis by (auto simp: runs_after_def)
qed

lemma timer_queued:
  "stream_id x \<noteq> 0 \<Longrightarrow>
   queued_runs (timer_stream x) = (if time_remaining x = 1 then queued_runs x + 1 else queued_runs x)"
  by (auto simp: timer_stream_def Let_def)

lemma unat_dec16: "v \<noteq> 0 \<Longrightarrow> unat (v - 1 :: u16) = unat v - 1"
  by (subst unat_sub) (simp_all add: word_le_nat_alt Suc_le_eq unat_gt_0)

lemma timer_runs:
  "stream_id x \<noteq> 0 \<Longrightarrow> time_remaining x \<noteq> 0 \<Longrightarrow> rate x \<noteq> 0 \<Longrightarrow>
   queued_runs ((timer_stream ^^ k) x) =
     queued_runs x + of_nat (runs_after k (unat (time_remaining x)) (unat (rate x)))"
proof (induction k arbitrary: x)
  case 0
  then show ?case by (simp add: runs_after_def unat_gt_0)
next
  case (Suc k)
  let ?y = "timer_stream x"
  have y: "stream_id ?y \<noteq> 0" "rate ?y \<noteq> 0" "time_remaining ?y \<noteq> 0"
    "time_remaining ?y = (if time_remaining x = 1 then rate x else time_remaining x - 1)"
    using Suc.prems by (auto simp: timer_stream_time)
  have one: "time_remaining x = 1 \<longleftrightarrow> unat (time_remaining x) = 1"
    by (simp add: word_unat_eq_iff)
  have t: "0 < unat (time_remaining x)" "0 < unat (rate x)" using Suc.prems by (simp_all add: unat_gt_0)
  have "queued_runs ((timer_stream ^^ Suc k) x) = queued_runs ((timer_stream ^^ k) ?y)"
    by (simp add: funpow_swap1)
  also have "\<dots> = queued_runs ?y + of_nat (runs_after k (unat (time_remaining ?y)) (unat (rate ?y)))"
    by (rule Suc.IH [OF y(1,3,2)])
  also have "\<dots> = queued_runs x + of_nat (runs_after (Suc k) (unat (time_remaining x)) (unat (rate x)))"
    using runs_after_Suc [OF t, of k] Suc.prems one
    by (simp add: y(4) timer_queued unat_dec16)
  finally show ?case .
qed

lemma timer_table_nth:
  "i < length (g_stream_table st) \<Longrightarrow>
   g_stream_table ((stream_timer_update ^^ k) st) ! i = (timer_stream ^^ k) (g_stream_table st ! i) \<and>
   length (g_stream_table ((stream_timer_update ^^ k) st)) = length (g_stream_table st)"
  by (induction k) (auto simp: stream_timer_update_def)

text \<open>The rate of a stream: after \<open>k\<close> milliseconds a stream of a well-formed table has
  become due once when the time it had left has passed and once more for every \<open>rate\<close>
  milliseconds after that (counted in the byte \<open>queued_runs\<close>, so modulo 256).\<close>

theorem stream_rate:
  assumes "stream_inv d n st" "i < n" "stream_id (g_stream_table st ! i) \<noteq> 0"
  shows "queued_runs (g_stream_table ((stream_timer_update ^^ k) st) ! i) =
     queued_runs (g_stream_table st ! i) +
     of_nat (runs_after k (unat (time_remaining (g_stream_table st ! i))) (unat (rate (g_stream_table st ! i))))"
proof -
  have "entry_ok d (g_stream_args st) (g_stream_table st ! i)" "i < length (g_stream_table st)"
    using assms(1,2) by (simp_all add: stream_inv_def table_ok_def)
  moreover from this assms(3) have "time_remaining (g_stream_table st ! i) \<noteq> 0"
    "rate (g_stream_table st ! i) \<noteq> 0" by (auto simp: entry_ok_def)
  ultimately show ?thesis
    using assms(3) timer_table_nth [of i st k] timer_runs [of "g_stream_table st ! i" k] by simp
qed

end
