(* ===== verification/SoftUart.thy ===== *)
theory SoftUart
  imports Prelude
begin

unbundle bit_operations_syntax

text \<open>
  The software serial port of the pressure foot, \<^verbatim>\<open>compact_software_uart.h\<close>, with the constants that
  \<^verbatim>\<open>foot.c\<close> defines (8 MHz, 38400 baud, transmit on bit 1 and receive on bit 0 of port B).
  Time is counted in CPU cycles and only the delay loops take time: \<open>_delay_loop_1\<close> of \<open>n\<close> takes \<open>3 n\<close>
  cycles. The transmitter returns the levels of its pin, one for every delay it makes; the receiver
  reads the pin through a parameter, the level at a given time.
\<close>

definition UART_BAUD_TICKS :: nat where
  "UART_BAUD_TICKS = 8000000 div 38400 - 8"

definition UART_BAUD_TICKS_HALF :: nat where
  "UART_BAUD_TICKS_HALF = 8000000 * 3 div (38400 * 2) - 8"

definition delay_loop_1 :: "nat \<Rightarrow> nat" where
  "delay_loop_1 n = 3 * n"

definition bit_cycles :: nat where
  "bit_cycles = delay_loop_1 (UART_BAUD_TICKS div 3)"

lemma bit_cycles_eq: "bit_cycles = 198" "delay_loop_1 (UART_BAUD_TICKS_HALF div 3) = 303"
  by (simp_all add: bit_cycles_def UART_BAUD_TICKS_def UART_BAUD_TICKS_HALF_def delay_loop_1_def)

section \<open>Sending\<close>

abbreviation (input) "UART_WRITE_BIT \<equiv> (1 :: nat)"

text \<open>The loop over the data bits: \<open>cnt\<close> bits to go; the levels held and the port afterwards.\<close>

fun uart_bits :: "nat \<Rightarrow> u8 \<Rightarrow> u8 \<Rightarrow> bool list \<times> u8" where
  "uart_bits 0 val port = ([], port)"
| "uart_bits (Suc cnt) val port =
     (let port = (if val AND 1 \<noteq> 0 then bit_on UART_WRITE_BIT port else bit_off UART_WRITE_BIT port);
          (levels, port') = uart_bits cnt (drop_bit 1 val) port
      in (bit port UART_WRITE_BIT # levels, port'))"

definition software_uart_write_char :: "u8 \<Rightarrow> u8 \<Rightarrow> bool list \<times> u8" where
  "software_uart_write_char val port =
     (let port = bit_off UART_WRITE_BIT port;
          start = bit port UART_WRITE_BIT;
          (levels, port) = uart_bits 8 val port;
          port = bit_on UART_WRITE_BIT port
      in (start # levels @ [bit port UART_WRITE_BIT], port))"

fun software_uart_write_string :: "string \<Rightarrow> u8 \<Rightarrow> bool list \<times> u8" where
  "software_uart_write_string [] port = ([], port)"
| "software_uart_write_string (c # cs) port =
     (let (levels, port) = software_uart_write_char (ord c) port;
          (rest, port) = software_uart_write_string cs port
      in (levels @ rest, port))"

section \<open>Receiving\<close>

text \<open>\<open>rd t\<close> is the level of the receive pin at cycle \<open>t\<close>; a turn of the wait loop takes \<open>p\<close> cycles.\<close>

fun wait_start :: "(nat \<Rightarrow> bool) \<Rightarrow> nat \<Rightarrow> nat \<Rightarrow> nat \<Rightarrow> nat outcome" where
  "wait_start rd p 0 t = Spin"
| "wait_start rd p (Suc fuel) t = (if rd t then wait_start rd p fuel (t + p) else Ret t)"

fun uart_sample :: "(nat \<Rightarrow> bool) \<Rightarrow> nat \<Rightarrow> u8 \<Rightarrow> nat \<Rightarrow> u8 \<times> nat" where
  "uart_sample rd 0 ret t = (ret, t)"
| "uart_sample rd (Suc cnt) ret t =
     (let ret = drop_bit 1 ret
      in uart_sample rd cnt (if rd t then ret OR 0x80 else ret) (t + bit_cycles))"

definition software_uart_read_char :: "(nat \<Rightarrow> bool) \<Rightarrow> nat \<Rightarrow> nat \<Rightarrow> nat \<Rightarrow> (u8 \<times> nat) outcome" where
  "software_uart_read_char rd p fuel t =
     obind (wait_start rd p fuel t) (\<lambda>t.
       Ret (uart_sample rd 8 0 (t + delay_loop_1 (UART_BAUD_TICKS_HALF div 3))))"

section \<open>Frames\<close>

definition uart_frame :: "u8 \<Rightarrow> bool list" where
  "uart_frame v = False # map (bit v) [0..<8] @ [True]"

text \<open>The transmit pin and the rest of the port after sending.\<close>

lemma uart_bits_eq:
  "uart_bits n v port = (map (bit v) [0..<n], snd (uart_bits n v port)) \<and>
   (\<forall>k. k \<noteq> 1 \<longrightarrow> bit (snd (uart_bits n v port)) k = bit port k)"
proof (induction n arbitrary: v port)
  case (Suc n)
  let ?port = "if v AND 1 \<noteq> 0 then bit_on 1 port else bit_off 1 port"
  have b0: "(v AND 1 \<noteq> 0) = bit v 0" using bit_test_iff [of v 0] by (simp add: bit_test_def)
  have p1: "bit ?port 1 = bit v 0" by (simp add: b0 bit_bit_on bit_bit_off)
  have pk: "k \<noteq> 1 \<longrightarrow> bit ?port k = bit port k" for k by (simp add: bit_bit_on bit_bit_off)
  have sh: "map (bit (drop_bit 1 v)) [0..<n] = map (bit v) [1..<Suc n]"
    by (simp add: bit_drop_bit_eq map_Suc_upt [symmetric] o_def del: upt_Suc)
  obtain ls q where ls: "uart_bits n (drop_bit 1 v) ?port = (ls, q)" by fastforce
  then have "ls = map (bit v) [1..<Suc n]" "\<forall>k. k \<noteq> 1 \<longrightarrow> bit q k = bit ?port k"
    using Suc.IH [of "drop_bit 1 v" ?port] unfolding sh [symmetric] by (metis fst_conv snd_conv)+
  moreover have "uart_bits (Suc n) v port = (bit ?port 1 # ls, q)"
    using ls by (simp only: uart_bits.simps Let_def) simp
  moreover have "map (bit v) [0..<Suc n] = bit v 0 # map (bit v) [1..<Suc n]"
    by (simp add: upt_conv_Cons del: upt_Suc)
  ultimately show ?case
    using p1 pk by (auto simp del: upt_Suc uart_bits.simps)
qed simp

lemma write_char_frame:
  "fst (software_uart_write_char v port) = uart_frame v \<and>
   (\<forall>k. bit (snd (software_uart_write_char v port)) k = (k = 1 \<or> bit port k))"
proof -
  obtain ls q where ls: "uart_bits 8 v (bit_off 1 port) = (ls, q)" by fastforce
  with uart_bits_eq [of 8 v "bit_off 1 port"] have
    "ls = map (bit v) [0..<8]" "\<forall>k. k \<noteq> 1 \<longrightarrow> bit q k = bit (bit_off 1 port) k" by auto
  with ls show ?thesis
    by (auto simp: software_uart_write_char_def uart_frame_def bit_bit_on bit_bit_off Let_def
        simp del: upt_rec_numeral dest: bit_imp_le_length)
qed

lemma write_string_frames:
  "fst (software_uart_write_string s port) = concat (map (uart_frame \<circ> ord) s) \<and>
   (\<forall>k. k \<noteq> 1 \<longrightarrow> bit (snd (software_uart_write_string s port)) k = bit port k)"
proof (induction s arbitrary: port)
  case (Cons c s)
  obtain ls q where ls: "software_uart_write_char (ord c) port = (ls, q)" by fastforce
  obtain rs r where rs: "software_uart_write_string s q = (rs, r)" by fastforce
  from write_char_frame [of "ord c" port] ls rs Cons.IH [of q] show ?case by simp
qed simp

text \<open>The level of a line that carries one frame from cycle \<open>t0\<close> on and is idle otherwise.\<close>

definition frame_line :: "nat \<Rightarrow> bool list \<Rightarrow> nat \<Rightarrow> bool" where
  "frame_line t0 levels t =
     (if t < t0 \<or> length levels \<le> (t - t0) div bit_cycles then True
      else levels ! ((t - t0) div bit_cycles))"

lemma shift_sample:
  assumes "n < 8"
  shows "(if bit v (7 - n) then drop_bit 1 (push_bit (Suc n) (take_bit (8 - Suc n) v)) OR 0x80
      else drop_bit 1 (push_bit (Suc n) (take_bit (8 - Suc n) v))) = push_bit n (take_bit (8 - n) (v :: u8))"
    (is "?l = ?r")
proof (rule bit_word_eqI)
  fix k assume "k < LENGTH(8)"
  then have k: "k < 8" by simp
  have l: "bit ?l k = (if k = 7 then bit v (7 - n) else n \<le> k \<and> bit v (k - n))"
    using k assms u8_bit_80 [of k]
    by (auto simp: bit_or_iff bit_drop_bit_eq u8_bit_push u8_bit_80 bit_take_bit_iff simp del: push_bit_Suc)
  have r: "bit ?r k = (n \<le> k \<and> bit v (k - n))"
    using k by (auto simp: u8_bit_push bit_take_bit_iff)
  show "bit ?l k = bit ?r k" unfolding l r using assms by auto
qed

lemma uart_sample_bits:
  "(\<And>i. i < n \<Longrightarrow> rd (t + i * bit_cycles) = bit v (8 - n + i)) \<Longrightarrow> n \<le> 8 \<Longrightarrow>
   ret = push_bit n (take_bit (8 - n) v) \<Longrightarrow> fst (uart_sample rd n ret t) = v"
proof (induction n arbitrary: ret t)
  case 0
  then show ?case by (simp add: take_bit_word_eq_self)
next
  case (Suc n)
  have r0: "rd t = bit v (7 - n)" using Suc.prems(1) [of 0] by simp
  let ?ret = "if rd t then drop_bit 1 ret OR 0x80 else drop_bit 1 ret"
  have "?ret = push_bit n (take_bit (8 - n) v)"
    unfolding Suc.prems(3) r0 using Suc.prems(2) by (intro shift_sample) simp
  moreover have "rd (t + bit_cycles + i * bit_cycles) = bit v (8 - n + i)" if "i < n" for i
  proof -
    have "8 - Suc n + Suc i = 8 - n + i" using Suc.prems(2) by simp
    moreover have "t + Suc i * bit_cycles = t + bit_cycles + i * bit_cycles" by simp
    ultimately show ?thesis using Suc.prems(1) [of "Suc i"] that by (metis Suc_less_eq)
  qed
  ultimately have "fst (uart_sample rd n ?ret (t + bit_cycles)) = v"
    using Suc.prems(2) by (intro Suc.IH) auto
  then show ?case by (cases "rd t") (simp_all add: Let_def)
qed

text \<open>A character that \<open>software_uart_write_char\<close> puts on the line is received by
  \<open>software_uart_read_char\<close> of the other side when that notices the start bit within the first 93
  cycles of it, a little less than half a bit time.\<close>

theorem soft_uart_roundtrip:
  assumes "t0 \<le> t" "t < t0 + 93" "0 < fuel"
    and "rd = frame_line t0 (fst (software_uart_write_char v port))"
  shows "\<exists>t'. software_uart_read_char rd p fuel t = Ret (v, t')"
proof -
  have rd: "rd = frame_line t0 (uart_frame v)" using assms(4) write_char_frame by simp
  have len: "length (uart_frame v) = 10" by (simp add: uart_frame_def)
  have "(t - t0) div 198 = 0" using assms(1,2) by simp
  then have low: "\<not> rd t"
    using assms(1) len by (simp add: rd frame_line_def bit_cycles_eq uart_frame_def)
  have w: "wait_start rd p fuel t = Ret t" using low assms(3) by (cases fuel) auto
  have smp: "rd (t + 303 + i * bit_cycles) = bit v i" if "i < 8" for i
  proof -
    have "(t + 303 + i * 198 - t0) div 198 = Suc i" using assms(1,2) by (intro div_nat_eqI) auto
    then show ?thesis
      using that assms(1) len
      by (simp add: rd frame_line_def bit_cycles_eq uart_frame_def nth_append del: upt_rec_numeral)
  qed
  have "fst (uart_sample rd 8 0 (t + 303)) = v"
    by (rule uart_sample_bits) (simp_all add: smp)
  with w show ?thesis
    by (cases "uart_sample rd 8 0 (t + 303)") (simp add: software_uart_read_char_def bit_cycles_eq)
qed

theorem soft_uart_roundtrip_witness:
  "\<exists>t'. software_uart_read_char (frame_line 1000 (fst (software_uart_write_char 0x3C 0xFF))) 6 10 1050
     = Ret (0x3C, t')"
  by (rule soft_uart_roundtrip [OF _ _ _ refl]) simp_all

end
