(* ===== verification/Queues.thy ===== *)
theory Queues
  imports Prelude
begin

text \<open>
  First-in first-out queues over circular storage. The interface is the locale \<open>fifo_queue\<close>: what
  its clients may rely on is that a run of pushes and pops behaves like the same run on a list.
  Two structures of the repository provide it:

  \<^item> \<open>circular_buffer\<close> of \<^verbatim>\<open>base/circular_buffer.h\<close>, which grows when it is full (a write or read
    outside of its vector would be the outcome \<open>Overrun\<close>);
  \<^item> the 16-byte receive buffer that the pin-change interrupt of \<^verbatim>\<open>hw/pressure_foot/firmware/foot.c\<close>
    fills and its main loop drains, which does not check for space (\<open>ring_can_push\<close> says when a byte
    still fits).
\<close>

section \<open>The interface\<close>

datatype 'a queue_op = Push 'a | Pop

locale fifo_queue =
  fixes enq :: "'a \<Rightarrow> 'q \<Rightarrow> 'q outcome"
    and deq :: "'q \<Rightarrow> 'q"
    and first :: "'q \<Rightarrow> 'a"
    and is_empty :: "'q \<Rightarrow> bool"
    and has_room :: "'q \<Rightarrow> bool"
    and list_of :: "'q \<Rightarrow> 'a list"
    and invar :: "'q \<Rightarrow> bool"
  assumes enq: "invar q \<Longrightarrow> has_room q \<Longrightarrow>
      \<exists>q'. enq x q = Ret q' \<and> invar q' \<and> list_of q' = list_of q @ [x]"
    and deq: "invar q \<Longrightarrow> \<not> is_empty q \<Longrightarrow> invar (deq q) \<and> list_of q = first q # list_of (deq q)"
    and is_empty: "invar q \<Longrightarrow> is_empty q \<longleftrightarrow> list_of q = []"
begin

text \<open>A run of operations; \<open>None\<close> when one of them is not allowed.\<close>

fun run_ops :: "'a queue_op list \<Rightarrow> 'q \<Rightarrow> ('a list \<times> 'q) option" where
  "run_ops [] q = Some ([], q)"
| "run_ops (Push x # ops) q =
     (if has_room q then (case enq x q of Ret q' \<Rightarrow> run_ops ops q' | _ \<Rightarrow> None) else None)"
| "run_ops (Pop # ops) q =
     (if is_empty q then None
      else map_option (\<lambda>(out, q'). (first q # out, q')) (run_ops ops (deq q)))"

definition pushed :: "'a queue_op list \<Rightarrow> 'a list" where
  "pushed ops = concat (map (\<lambda>op. case op of Push x \<Rightarrow> [x] | Pop \<Rightarrow> []) ops)"

lemma pushed_simps [simp]:
  "pushed [] = []" "pushed (Push x # ops) = x # pushed ops" "pushed (Pop # ops) = pushed ops"
  by (simp_all add: pushed_def)

text \<open>What was in the queue and what was pushed comes out in this order, or is still there.\<close>

lemma run_ops_fifo:
  "invar q \<Longrightarrow> run_ops ops q = Some (out, q') \<Longrightarrow>
     invar q' \<and> list_of q @ pushed ops = out @ list_of q'"
proof (induction ops arbitrary: q out)
  case (Cons op ops)
  show ?case
  proof (cases op)
    case (Push x)
    with Cons.prems obtain q1 where q1: "enq x q = Ret q1" "invar q1" "list_of q1 = list_of q @ [x]"
      "run_ops ops q1 = Some (out, q')"
      using enq [of q x] by (auto split: if_splits)
    from Cons.IH [OF q1(2,4)] q1(3) Push show ?thesis by simp
  next
    case Pop
    with Cons.prems(2) obtain out' where o: "\<not> is_empty q" "out = first q # out'"
      "run_ops ops (deq q) = Some (out', q')" by (auto split: if_splits)
    from Cons.IH [OF _ o(3)] deq [OF Cons.prems(1) o(1)] o Pop show ?thesis by simp
  qed
qed simp

end

section \<open>Circular storage\<close>

definition ring_list :: "'a list \<Rightarrow> nat \<Rightarrow> nat \<Rightarrow> 'a list" where
  "ring_list xs r w =
     map (\<lambda>i. xs ! ((r + i) mod length xs)) [0..<(w + length xs - r) mod length xs]"

lemma ring_gap:
  assumes "r < n" "w < (n :: nat)"
  shows "(w + n - r) mod n = (if r \<le> w then w - r else w + n - r)"
proof (cases "r \<le> w")
  case True
  then have "w + n - r = (w - r) + n" by simp
  then have "(w + n - r) mod n = (w - r) mod n" by (metis mod_add_self2)
  with True assms show ?thesis by simp
qed (use assms in auto)

lemma ring_next: "w < n \<Longrightarrow> (w + 1) mod n = (if w + 1 = n then 0 else w + (1 :: nat))"
  by auto

lemma ring_list_empty:
  assumes "r < length xs" "w < length xs"
  shows "ring_list xs r w = [] \<longleftrightarrow> w = r"
  using ring_gap [OF assms] assms by (auto simp: ring_list_def split: if_splits)

lemma ring_list_pop:
  assumes "r < length xs" "w < length xs" "w \<noteq> r"
  shows "ring_list xs r w = xs ! r # ring_list xs ((r + 1) mod length xs) w"
proof -
  let ?n = "length xs" and ?r = "(r + 1) mod length xs"
  have "?r < ?n" by (rule mod_less_divisor) (use assms in linarith)
  have len: "(w + ?n - r) mod ?n = Suc ((w + ?n - ?r) mod ?n)"
    unfolding ring_gap [OF assms(1,2)] ring_gap [OF \<open>?r < ?n\<close> assms(2)]
    unfolding ring_next [OF assms(1)] using assms by (cases "r + 1 = ?n") auto
  have "(r + Suc i) mod ?n = (?r + i) mod ?n" for i
    by (simp add: mod_simps)
  then show ?thesis
    using assms(1) unfolding ring_list_def len
    by (simp add: upt_conv_Cons map_Suc_upt [symmetric] del: upt_Suc)
qed

lemma ring_list_push:
  assumes "r < length xs" "w < length xs" "(w + 1) mod length xs \<noteq> r"
  shows "ring_list (xs[w := v]) r ((w + 1) mod length xs) = ring_list xs r w @ [v]"
proof -
  let ?n = "length xs" and ?w = "(w + 1) mod length xs"
  define k where "k = (if r \<le> w then w - r else w + ?n - r)"
  have k: "(w + ?n - r) mod ?n = k" "r + k = (if r \<le> w then w else w + ?n)" "k < ?n"
    using assms ring_gap [OF assms(1,2)] by (auto simp: k_def)
  have "?w < ?n" by (rule mod_less_divisor) (use assms in linarith)
  have len: "(?w + ?n - r) mod ?n = Suc k"
    unfolding ring_gap [OF assms(1) \<open>?w < ?n\<close>]
    unfolding ring_next [OF assms(2)]
    using assms(1,2) assms(3) [unfolded ring_next [OF assms(2)]]
    by (cases "w + 1 = ?n") (auto simp: k_def)
  have at: "(r + k) mod ?n = w" using k(2) assms(2) by simp
  have other: "(r + i) mod ?n \<noteq> w" if "i < k" for i
    using that k assms by (auto simp: mod_if split: if_splits)
  have "xs[w := v] ! ((r + i) mod ?n) = xs ! ((r + i) mod ?n)" if "i < k" for i
    using other [OF that] by (intro nth_list_update_neq) simp
  then show ?thesis
    using k(1) len at assms(2) by (simp add: ring_list_def)
qed

section \<open>The growing circular buffer\<close>

text \<open>\<open>dflt\<close> is the value of a default-constructed element.\<close>

record 'a circular_buffer =
  cb_data :: "'a list"
  cb_insert :: nat
  cb_remove :: nat

definition circular_buffer_init :: "'a \<Rightarrow> 'a circular_buffer" where
  "circular_buffer_init dflt = \<lparr>cb_data = replicate 2 dflt, cb_insert = 0, cb_remove = 0\<rparr>"

definition cb_empty :: "'a circular_buffer \<Rightarrow> bool" where
  "cb_empty q \<longleftrightarrow> cb_insert q = cb_remove q"

definition cb_full :: "'a circular_buffer \<Rightarrow> bool" where
  "cb_full q \<longleftrightarrow> (cb_insert q + 1) mod length (cb_data q) = cb_remove q"

definition cb_capacity :: "'a circular_buffer \<Rightarrow> nat" where
  "cb_capacity q = length (cb_data q) - 1"

definition cb_front :: "'a circular_buffer \<Rightarrow> 'a" where
  "cb_front q = cb_data q ! cb_remove q"

definition cb_back :: "'a circular_buffer \<Rightarrow> 'a" where
  "cb_back q = cb_data q ! cb_insert q"

definition cb_pop_front :: "'a circular_buffer \<Rightarrow> 'a circular_buffer" where
  "cb_pop_front q = q\<lparr>cb_remove := (cb_remove q + 1) mod length (cb_data q)\<rparr>"

text \<open>The loop of \<open>resize\<close> that moves the elements to the new vector.\<close>

function cb_move :: "'a list \<Rightarrow> nat \<Rightarrow> 'a circular_buffer \<Rightarrow> ('a list \<times> nat) outcome" where
  "cb_move new_data new_offset q =
     (if cb_empty q then Ret (new_data, new_offset)
      else if length (cb_data q) \<le> cb_remove q \<or> length new_data \<le> new_offset then Overrun
      else cb_move (new_data[new_offset := cb_front q]) (new_offset + 1) (cb_pop_front q))"
  by auto
termination
  by (relation "measure (\<lambda>(new_data, new_offset, q). length new_data - new_offset)") auto

declare cb_move.simps [simp del]

definition cb_resize :: "'a \<Rightarrow> nat \<Rightarrow> 'a circular_buffer \<Rightarrow> 'a circular_buffer outcome" where
  "cb_resize dflt n q =
     obind (cb_move (replicate n dflt) 0 q) (\<lambda>(new_data, new_offset).
       Ret (q\<lparr>cb_data := new_data, cb_remove := 0, cb_insert := new_offset\<rparr>))"

definition cb_push_back :: "'a \<Rightarrow> 'a \<Rightarrow> 'a circular_buffer \<Rightarrow> 'a circular_buffer outcome" where
  "cb_push_back dflt value q =
     obind (if cb_full q then cb_resize dflt (length (cb_data q) * 2) q else Ret q) (\<lambda>q.
       if length (cb_data q) \<le> cb_insert q then Overrun
       else Ret (q\<lparr>cb_data := (cb_data q)[cb_insert q := value],
                   cb_insert := (cb_insert q + 1) mod length (cb_data q)\<rparr>))"

definition cb_list :: "'a circular_buffer \<Rightarrow> 'a list" where
  "cb_list q = ring_list (cb_data q) (cb_remove q) (cb_insert q)"

definition cb_invar :: "'a circular_buffer \<Rightarrow> bool" where
  "cb_invar q \<longleftrightarrow> 2 \<le> length (cb_data q) \<and> cb_insert q < length (cb_data q) \<and> cb_remove q < length (cb_data q)"

lemma cb_pop_front_list:
  assumes "cb_invar q" "\<not> cb_empty q"
  shows "cb_invar (cb_pop_front q) \<and> cb_list q = cb_front q # cb_list (cb_pop_front q)"
  using assms ring_list_pop [of "cb_remove q" "cb_data q" "cb_insert q"]
  by (auto simp: cb_invar_def cb_empty_def cb_pop_front_def cb_list_def cb_front_def
      intro!: mod_less_divisor)

lemma cb_empty_list: "cb_invar q \<Longrightarrow> cb_empty q \<longleftrightarrow> cb_list q = []"
  using ring_list_empty [of "cb_remove q" "cb_data q" "cb_insert q"]
  by (simp add: cb_invar_def cb_empty_def cb_list_def)

lemma cb_move_list:
  "cb_invar q \<Longrightarrow> new_offset + length (cb_list q) \<le> length new_data \<Longrightarrow>
   cb_move new_data new_offset q =
     Ret (take new_offset new_data @ cb_list q @ drop (new_offset + length (cb_list q)) new_data,
          new_offset + length (cb_list q))"
proof (induction new_data new_offset q rule: cb_move.induct)
  case (1 new_data new_offset q)
  show ?case
  proof (cases "cb_empty q")
    case True
    then show ?thesis using cb_empty_list [OF 1(2)] by (simp add: cb_move.simps)
  next
    case False
    note pop = cb_pop_front_list [OF 1(2) False]
    have r: "\<not> (length (cb_data q) \<le> cb_remove q \<or> length new_data \<le> new_offset)"
      using 1(2,3) pop by (auto simp: cb_invar_def)
    let ?new = "new_data[new_offset := cb_front q]" and ?l = "cb_list (cb_pop_front q)"
    have "cb_move new_data new_offset q = cb_move ?new (new_offset + 1) (cb_pop_front q)"
      by (subst cb_move.simps) (use False r in simp)
    also have "\<dots> = Ret (take (new_offset + 1) ?new @ ?l @ drop (new_offset + 1 + length ?l) ?new,
        new_offset + 1 + length ?l)"
      using 1(3) pop by (intro 1(1) [OF False r]) auto
    finally show ?thesis
      using pop r by (simp add: take_Suc_conv_app_nth)
  qed
qed

lemma length_cb_list: "cb_invar q \<Longrightarrow> length (cb_list q) < length (cb_data q)"
  using ring_gap [of "cb_remove q" "length (cb_data q)" "cb_insert q"]
  by (auto simp: cb_list_def ring_list_def cb_invar_def)

lemma cb_resize_list:
  assumes "cb_invar q" "length (cb_data q) \<le> n"
  shows "\<exists>q'. cb_resize dflt n q = Ret q' \<and> cb_invar q' \<and> cb_list q' = cb_list q \<and>
    length (cb_data q') = n"
proof -
  let ?l = "cb_list q"
  have len: "length ?l < n" using length_cb_list [OF assms(1)] assms(2) by simp
  have n2: "2 \<le> n" using assms by (simp add: cb_invar_def)
  let ?d = "?l @ drop (length ?l) (replicate n dflt)"
  have mv: "cb_move (replicate n dflt) 0 q = Ret (?d, length ?l)"
    using cb_move_list [OF assms(1), of 0 "replicate n dflt"] len by simp
  have "ring_list ?d 0 (length ?l) = ?l"
    using len by (intro nth_equalityI) (simp_all add: ring_list_def nth_append)
  with mv len n2 show ?thesis
    by (simp add: cb_resize_def cb_invar_def cb_list_def)
qed

lemma cb_push_room:
  assumes "cb_invar q" "\<not> cb_full q"
  shows "cb_invar (q\<lparr>cb_data := (cb_data q)[cb_insert q := x], cb_insert := (cb_insert q + 1) mod length (cb_data q)\<rparr>) \<and>
    cb_list (q\<lparr>cb_data := (cb_data q)[cb_insert q := x], cb_insert := (cb_insert q + 1) mod length (cb_data q)\<rparr>)
      = cb_list q @ [x]"
  using assms ring_list_push [of "cb_remove q" "cb_data q" "cb_insert q" x]
  by (auto simp: cb_invar_def cb_full_def cb_list_def intro!: mod_less_divisor)

lemma cb_full_length:
  assumes "cb_invar q" "cb_full q" shows "length (cb_list q) = length (cb_data q) - 1"
  using assms ring_gap [of "cb_remove q" "length (cb_data q)" "cb_insert q"]
  by (auto simp: cb_invar_def cb_full_def cb_list_def ring_list_def mod_Suc split: if_splits)

lemma cb_push_back_list:
  assumes "cb_invar q"
  shows "\<exists>q'. cb_push_back dflt x q = Ret q' \<and> cb_invar q' \<and> cb_list q' = cb_list q @ [x]"
proof (cases "cb_full q")
  case False
  then show ?thesis
    using cb_push_room [OF assms False, of x] assms by (auto simp: cb_push_back_def cb_invar_def)
next
  case True
  let ?n = "length (cb_data q) * 2"
  from cb_resize_list [OF assms, of ?n dflt] obtain r where
    r: "cb_resize dflt ?n q = Ret r" "cb_invar r" "cb_list r = cb_list q" "length (cb_data r) = ?n" by auto
  have "\<not> cb_full r"
    using cb_full_length [OF r(2)] cb_full_length [OF assms True] r(3,4) assms
    by (auto simp: cb_invar_def)
  from cb_push_room [OF r(2) this, of x] r True show ?thesis
    by (auto simp: cb_push_back_def cb_invar_def)
qed

interpretation cb: fifo_queue "cb_push_back dflt" cb_pop_front cb_front cb_empty "\<lambda>_. True" cb_list cb_invar
  for dflt
proof
  show "\<exists>q'. cb_push_back dflt x q = Ret q' \<and> cb_invar q' \<and> cb_list q' = cb_list q @ [x]"
    if "cb_invar q" for q x
    using that by (rule cb_push_back_list)
qed (use cb_pop_front_list cb_empty_list in blast)+

text \<open>The element that \<open>back\<close> returns is not the last one of the queue: it is the free slot the next
  element will be stored in.\<close>

lemma cb_back_free_slot:
  assumes "cb_invar q" "\<not> cb_full q"
  shows "\<exists>q'. cb_push_back dflt x q = Ret q' \<and> cb_data q' = (cb_data q)[cb_insert q := x] \<and>
    cb_back q = cb_data q ! cb_insert q"
  using assms by (simp add: cb_push_back_def cb_invar_def cb_back_def)

section \<open>The serial receive buffer of the pressure foot\<close>

record serial_ring =
  g_serial_rbuf :: "u8 list"
  g_serial_rbuf_head :: u8
  g_serial_rbuf_tail :: u8

definition serial_ring_init :: serial_ring where
  "serial_ring_init = \<lparr>g_serial_rbuf = replicate 16 0, g_serial_rbuf_head = 0, g_serial_rbuf_tail = 0\<rparr>"

text \<open>The body of the pin-change interrupt, for a received character \<open>c\<close>.\<close>

definition ring_isr :: "u8 \<Rightarrow> serial_ring \<Rightarrow> serial_ring outcome" where
  "ring_isr c q =
     (if 16 \<le> g_serial_rbuf_head q then Overrun
      else Ret (q\<lparr>g_serial_rbuf := (g_serial_rbuf q)[unat (g_serial_rbuf_head q) := c],
                  g_serial_rbuf_head := (g_serial_rbuf_head q + 1) mod 16\<rparr>))"

definition ring_is_empty :: "serial_ring \<Rightarrow> bool" where
  "ring_is_empty q \<longleftrightarrow> g_serial_rbuf_tail q = g_serial_rbuf_head q"

definition ring_first :: "serial_ring \<Rightarrow> u8" where
  "ring_first q = g_serial_rbuf q ! unat (g_serial_rbuf_tail q)"

definition ring_take :: "serial_ring \<Rightarrow> serial_ring" where
  "ring_take q = q\<lparr>g_serial_rbuf_tail := (g_serial_rbuf_tail q + 1) mod 16\<rparr>"

definition ring_pending :: "serial_ring \<Rightarrow> u8 list" where
  "ring_pending q = ring_list (g_serial_rbuf q) (unat (g_serial_rbuf_tail q)) (unat (g_serial_rbuf_head q))"

definition ring_invar :: "serial_ring \<Rightarrow> bool" where
  "ring_invar q \<longleftrightarrow> length (g_serial_rbuf q) = 16 \<and> g_serial_rbuf_head q < 16 \<and> g_serial_rbuf_tail q < 16"

definition ring_can_push :: "serial_ring \<Rightarrow> bool" where
  "ring_can_push q \<longleftrightarrow> (g_serial_rbuf_head q + 1) mod 16 \<noteq> g_serial_rbuf_tail q"

lemma ring_index: "h < 16 \<Longrightarrow> unat ((h + 1) mod 16 :: u8) = (unat h + 1) mod 16 \<and> (h + 1) mod 16 < (16 :: u8)"
  by (simp add: word_less_nat_alt unat_mod unat_word_ariths)

lemma ring_isr_list:
  assumes "ring_invar q" "ring_can_push q"
  shows "\<exists>q'. ring_isr c q = Ret q' \<and> ring_invar q' \<and> ring_pending q' = ring_pending q @ [c]"
proof -
  have h: "g_serial_rbuf_head q < 16" "g_serial_rbuf_tail q < 16" "length (g_serial_rbuf q) = 16"
    using assms(1) by (simp_all add: ring_invar_def)
  note i = ring_index [OF h(1)]
  have "unat ((g_serial_rbuf_head q + 1) mod 16) \<noteq> unat (g_serial_rbuf_tail q)"
    using assms(2) by (simp add: ring_can_push_def word_unat_eq_iff)
  then have "(unat (g_serial_rbuf_head q) + 1) mod 16 \<noteq> unat (g_serial_rbuf_tail q)" using i by simp
  then show ?thesis
    using h i ring_list_push [of "unat (g_serial_rbuf_tail q)" "g_serial_rbuf q" "unat (g_serial_rbuf_head q)" c]
    by (simp add: ring_isr_def ring_invar_def ring_pending_def word_less_nat_alt word_le_nat_alt)
qed

lemma ring_isr_invar: "ring_invar q \<Longrightarrow> \<exists>q'. ring_isr c q = Ret q' \<and> ring_invar q'"
  using ring_index [of "g_serial_rbuf_head q"]
  by (auto simp: ring_isr_def ring_invar_def linorder_not_le)

lemma ring_take_list:
  assumes "ring_invar q" "\<not> ring_is_empty q"
  shows "ring_invar (ring_take q) \<and> ring_pending q = ring_first q # ring_pending (ring_take q)"
proof -
  have h: "g_serial_rbuf_head q < 16" "g_serial_rbuf_tail q < 16" "length (g_serial_rbuf q) = 16"
    using assms(1) by (simp_all add: ring_invar_def)
  note i = ring_index [OF h(2)]
  have "unat (g_serial_rbuf_head q) \<noteq> unat (g_serial_rbuf_tail q)"
    using assms(2) by (auto simp: ring_is_empty_def word_unat_eq_iff)
  then show ?thesis
    using h i ring_list_pop [of "unat (g_serial_rbuf_tail q)" "g_serial_rbuf q" "unat (g_serial_rbuf_head q)"]
    by (simp add: ring_take_def ring_invar_def ring_pending_def ring_first_def word_less_nat_alt)
qed

lemma ring_empty_list: "ring_invar q \<Longrightarrow> ring_is_empty q \<longleftrightarrow> ring_pending q = []"
  using ring_list_empty [of "unat (g_serial_rbuf_tail q)" "g_serial_rbuf q" "unat (g_serial_rbuf_head q)"]
  by (auto simp: ring_invar_def ring_is_empty_def ring_pending_def word_less_nat_alt word_unat_eq_iff)

interpretation ring: fifo_queue ring_isr ring_take ring_first ring_is_empty ring_can_push ring_pending
    ring_invar
  using ring_isr_list ring_take_list ring_empty_list by unfold_locales blast+

text \<open>C39 (refinement). The growing circular buffer is a queue: whatever is pushed and popped, in
  whatever order and over any number of reallocations, no access leaves the vector, every push succeeds, and the
  elements leave in the order in which they entered.\<close>

theorem circular_buffer_fifo:
  assumes "cb_invar q" "cb.run_ops dflt ops q = Some (out, q')"
  shows "cb_invar q' \<and> cb_list q @ cb.pushed ops = out @ cb_list q' \<and>
    (\<exists>q''. cb_push_back dflt x q' = Ret q'' \<and> cb_list q'' = cb_list q' @ [x])"
  using cb.run_ops_fifo [OF assms] cb_push_back_list [of q' dflt x] by blast

lemma circular_buffer_init_invar: "cb_invar (circular_buffer_init dflt)"
  by (simp add: cb_invar_def circular_buffer_init_def)

theorem circular_buffer_fifo_witness:
  "\<exists>out q'. cb.run_ops 0 [Push 1, Push 2, Pop, Push 3, Push 4, Push 5] (circular_buffer_init (0 :: nat))
      = Some (out, q') \<and> out @ cb_list q' = [1, 2, 3, 4, 5]"
proof -
  obtain out q' where r: "cb.run_ops 0 [Push 1, Push 2, Pop, Push 3, Push 4, Push 5]
      (circular_buffer_init (0 :: nat)) = Some (out, q')"
    by (simp add: circular_buffer_init_def cb_push_back_def cb_full_def cb_resize_def cb_move.simps
        cb_empty_def cb_front_def cb_pop_front_def numeral_2_eq_2)
  have "cb_list (circular_buffer_init (0 :: nat)) = []"
    by (simp add: circular_buffer_init_def cb_list_def ring_list_def)
  with circular_buffer_fifo [OF circular_buffer_init_invar r] r show ?thesis by simp
qed

text \<open>The receive buffer of the pressure foot: as long as the interrupt never finds
  fifteen bytes waiting, bytes are delivered to the main loop complete and in order.\<close>

theorem serial_ring_fifo:
  assumes "ring_invar q" "ring.run_ops ops q = Some (out, q')"
  shows "ring_invar q' \<and> ring_pending q @ ring.pushed ops = out @ ring_pending q'"
  using assms by (rule ring.run_ops_fifo)

theorem serial_ring_fifo_witness:
  "\<exists>out q'. ring.run_ops [Push 80, Push 78, Pop, Push 71, Pop] serial_ring_init = Some (out, q') \<and>
     out @ ring_pending q' = [80, 78, 71]"
proof -
  obtain out q' where r: "ring.run_ops [Push 80, Push 78, Pop, Push 71, Pop] serial_ring_init = Some (out, q')"
    by (simp add: serial_ring_init_def ring_can_push_def ring_isr_def ring_is_empty_def ring_take_def
        word_le_nat_alt)
  have "ring_invar serial_ring_init" "ring_pending serial_ring_init = []"
    by (simp_all add: ring_invar_def serial_ring_init_def ring_pending_def ring_list_def)
  with serial_ring_fifo [OF _ r] r show ?thesis by simp
qed

end
