(* ===== verification/Foot.thy ===== *)
theory Foot
  imports I2cMaster StreamTable SoftUart Queues
begin

unbundle bit_operations_syntax

text \<open>
  The pressure foot, \<^verbatim>\<open>hw/pressure_foot/firmware/foot.c\<close>, as its Makefile builds it (ATtiny85, which
  has no port A): the command functions, the command table, the line handler, the stream poller and
  the main loop.

  \<^item> \<open>foot\<close> is the state: the counters, the stream table, port B with the I2C bus, the receive ring,
    the line buffer (the characters collected so far), the word at the start of the EEPROM and the
    levels sent on the transmit pin.
  \<^item> \<open>pin\<close> gives what reads of \<open>PINB\<close> return; \<open>version\<close> is \<open>DEV_VERSION\<close>, which contains a revision
    from a generated header. Every store states how many bytes its buffer has left.
  \<^item> \<open>cmd_rst\<close> and \<open>cmd_wdt\<close> loop until the watchdog resets the part: the outcome \<open>Spin\<close>.
\<close>

section \<open>State\<close>

record foot =
  g_timer :: u16
  g_main_loop_count :: u16
  streams_of :: streams
  i2c_bus :: i2c
  serial :: serial_ring
  line_buf :: string
  eeprom_word :: u16
  txd :: "bool list"

definition EOL :: string where "EOL = [CHR 0x0D, CHR 0x0A]"

definition foot_dialect :: "dialect" where
  "foot_dialect =
     \<lparr>PARSE_ERROR = '' no parse'', CODE_MISMATCH = '' code mismatch'', UNKNOWN_CMD = '' unk cmd'',
      NOT_STREAMABLE = '' not stmable'', ID_ZERO = '' stm id zero'', ID_INVALID = '' stm id invalid'',
      STREAM_ID_IN_USE = '' stm id in use'', STREAM_TABLE_FULL = '' stm table full'',
      STREAM_NOT_FOUND = '' stm not found'',
      codes = [(''PNG'', False), (''STB'', False), (''STE'', False), (''STL'', True), (''STG'', False),
        (''VER'', False), (''RST'', False), (''TMQ'', True), (''QGR'', True), (''PRF'', True),
        (''I2C'', True), (''GPQ'', True), (''GPC'', False), (''WDT'', False), (''WPC'', False)]\<rparr>"

type_synonym cmd_result = "(u8 \<times> string \<times> foot) outcome"

section \<open>Commands\<close>

definition cmd_png :: "nat \<Rightarrow> foot \<Rightarrow> cmd_result" where
  "cmd_png room s = say room STR_OK 0 s"

definition cmd_ver :: "string \<Rightarrow> nat \<Rightarrow> foot \<Rightarrow> cmd_result" where
  "cmd_ver version room s = say room ('' '' @ version) 0 s"

definition cmd_rst :: cmd_result where
  "cmd_rst = Spin"

definition cmd_tmq :: "nat \<Rightarrow> foot \<Rightarrow> cmd_result" where
  "cmd_tmq room s = say room ('' '' @ uint16_to_hex (g_timer s)) 0 s"

definition read_PINB :: "pins \<Rightarrow> foot \<Rightarrow> u8 \<times> foot" where
  "read_PINB pin s =
     (let b = i2c_bus s
      in (pin (pin_reads b) (wave b), s\<lparr>i2c_bus := b\<lparr>pin_reads := Suc (pin_reads b)\<rparr>\<rparr>))"

definition toupper :: "char \<Rightarrow> char" where
  "toupper c = (if 97 \<le> ord c \<and> ord c \<le> 122 then chr (ord c - 32) else c)"

text \<open>The loop of \<open>cmd_qgr\<close>: \<open>out\<close> is what the buffer holds so far.\<close>

fun qgr_loop :: "pins \<Rightarrow> nat \<Rightarrow> nat \<Rightarrow> string \<Rightarrow> string \<Rightarrow> foot \<Rightarrow> cmd_result" where
  "qgr_loop pin room output_len [] out s = say room out 0 s"
| "qgr_loop pin room output_len (c # arg) out s =
     (if int (length out) > int output_len - 8 then say room out 1 s
      else if c = CHR '' '' then qgr_loop pin room output_len arg out s
      else if c = CHR ''t'' then qgr_loop pin room output_len arg (out @ '' t'' @ uint16_to_hex (g_timer s)) s
      else if c = CHR ''f''
      then qgr_loop pin room output_len arg (out @ '' f'' @ uint16_to_hex (g_main_loop_count s)) s
      else if c = CHR ''r'' then qgr_loop pin room output_len arg (out @ '' r'' @ uint16_to_hex 0) s
      else if c = CHR ''l''
      then qgr_loop pin room output_len arg
             (out @ '' l'' @ uint16_to_hex (stream_list_bitmask (streams_of s))) s
      else if c = CHR ''p''
      then
        (case arg of
           [] \<Rightarrow> obind (store room (out @ '' p'' @ [NUL])) (\<lambda>_. Ret (1, out @ '' p'', s))
         | p # arg' \<Rightarrow>
             if toupper p \<noteq> CHR ''A'' \<and> toupper p \<noteq> CHR ''B'' then say room (out @ '' p'' @ [p]) 1 s
             else
               (let (value, s) = (if toupper p = CHR ''B'' then read_PINB pin s else (0, s))
                in qgr_loop pin room output_len arg' (out @ '' p'' @ [p] @ uint8_to_hex value) s))
      else say room out 1 s)"

definition cmd_qgr :: "pins \<Rightarrow> string \<Rightarrow> nat \<Rightarrow> nat \<Rightarrow> foot \<Rightarrow> cmd_result" where
  "cmd_qgr pin args room output_len s = qgr_loop pin room output_len args [] s"

definition cmd_prf :: "nat \<Rightarrow> foot \<Rightarrow> cmd_result" where
  "cmd_prf room s = say room ('' '' @ uint16_to_hex (g_main_loop_count s)) 0 s"

definition cmd_i2c :: "pins \<Rightarrow> string \<Rightarrow> nat \<Rightarrow> nat \<Rightarrow> foot \<Rightarrow> cmd_result" where
  "cmd_i2c pin args room output_len s =
     obind (i2c_command pin args room output_len [] (i2c_bus s)) (\<lambda>(err, out, b).
       Ret (err, out, s\<lparr>i2c_bus := b\<rparr>))"

definition cmd_gpq :: "pins \<Rightarrow> nat \<Rightarrow> foot \<Rightarrow> cmd_result" where
  "cmd_gpq pin room s =
     (let (value, s) = read_PINB pin s in say room ('' '' @ uint8_to_hex value) 0 s)"

text \<open>\<open>sscanf_P(extra_args, " %c %x %x%n", ...)\<close> with three conversions and the whole text consumed.\<close>

definition scan_gpc :: "string \<Rightarrow> (char \<times> int \<times> int) option" where
  "scan_gpc s =
     (case scan_c (skip_ws s) of None \<Rightarrow> None | Some (port, s) \<Rightarrow>
      (case scan_x (skip_ws s) of None \<Rightarrow> None | Some (b, s) \<Rightarrow>
       (case scan_x (skip_ws s) of
          Some (v, []) \<Rightarrow> Some (port, sint b, sint v)
        | _ \<Rightarrow> None)))"

definition cmd_gpc :: "string \<Rightarrow> nat \<Rightarrow> foot \<Rightarrow> cmd_result" where
  "cmd_gpc args room s =
     (case scan_gpc args of
        None \<Rightarrow> say room '' no parse'' 1 s
      | Some (port, b, v) \<Rightarrow>
          if port \<noteq> CHR ''B'' \<and> port \<noteq> CHR ''b'' then say room '' inv port'' 1 s
          else if b < 0 \<or> b > 7 then say room '' inv bit'' 1 s
          else if v \<noteq> 0 \<and> v \<noteq> 1 then say room '' inv value'' 1 s
          else
            (let bus = i2c_bus s;
                 port = (if v \<noteq> 0 then bit_on (nat b) (PORTB bus) else bit_off (nat b) (PORTB bus))
             in say room STR_OK 0 (s\<lparr>i2c_bus := write_port port bus\<rparr>)))"

definition cmd_wdt :: cmd_result where
  "cmd_wdt = Spin"

definition cmd_wpc :: "nat \<Rightarrow> foot \<Rightarrow> cmd_result" where
  "cmd_wpc room s =
     (let val = eeprom_word s;
          val = 2 * (push_bit 8 (val AND 0xFF) OR drop_bit 8 val)
      in say room ('' '' @ uint16_to_hex val) 0 s)"

text \<open>The commands that work on the stream table only.\<close>

definition lift_table :: "(u8 \<times> string \<times> streams) outcome \<Rightarrow> foot \<Rightarrow> cmd_result" where
  "lift_table r s = obind r (\<lambda>(err, out, t). Ret (err, out, s\<lparr>streams_of := t\<rparr>))"

definition cmd_stb :: "string \<Rightarrow> nat \<Rightarrow> foot \<Rightarrow> cmd_result" where
  "cmd_stb args room s = lift_table (stb foot_dialect args room (streams_of s)) s"

definition cmd_ste :: "string \<Rightarrow> nat \<Rightarrow> foot \<Rightarrow> cmd_result" where
  "cmd_ste args room s = lift_table (ste foot_dialect args room (streams_of s)) s"

definition cmd_stl :: "nat \<Rightarrow> foot \<Rightarrow> cmd_result" where
  "cmd_stl room s = lift_table (stl room (streams_of s)) s"

definition cmd_stg :: "string \<Rightarrow> nat \<Rightarrow> foot \<Rightarrow> cmd_result" where
  "cmd_stg args room s = lift_table (stg foot_dialect args room (streams_of s)) s"

text \<open>The function pointers of \<open>fw_command_table\<close>, in its order.\<close>

definition call_command :: "pins \<Rightarrow> string \<Rightarrow> nat \<Rightarrow> string \<Rightarrow> nat \<Rightarrow> nat \<Rightarrow> foot \<Rightarrow> cmd_result" where
  "call_command pin version k args room output_len s =
     [cmd_png room s, cmd_stb args room s, cmd_ste args room s, cmd_stl room s, cmd_stg args room s,
      cmd_ver version room s, cmd_rst, cmd_tmq room s, cmd_qgr pin args room output_len s, cmd_prf room s,
      cmd_i2c pin args room output_len s, cmd_gpq pin room s, cmd_gpc args room s, cmd_wdt, cmd_wpc room s] ! k"

section \<open>Lines, streams and the main loop\<close>

definition software_send :: "string \<Rightarrow> foot \<Rightarrow> foot" where
  "software_send text s =
     (let (levels, port) = software_uart_write_string text (PORTB (i2c_bus s))
      in s\<lparr>txd := txd s @ levels, i2c_bus := (i2c_bus s)\<lparr>PORTB := port\<rparr>\<rparr>)"

definition MAGIC_OVERRUN_CODE :: char where "MAGIC_OVERRUN_CODE = CHR 0x04"

text \<open>What \<open>handle_line\<close> leaves in \<open>output\<close> before the end of line is added.\<close>

definition line_output :: "pins \<Rightarrow> string \<Rightarrow> string \<Rightarrow> foot \<Rightarrow> (string \<times> foot) outcome" where
  "line_output pin version cmdline s =
     (if hd cmdline = MAGIC_OVERRUN_CODE then obind (store 31 ''ERR overrun'') (\<lambda>t. Ret (''<'' @ t, s))
      else if length cmdline < 3 then obind (store 31 ''ERR short cmd'') (\<lambda>t. Ret (''<'' @ t, s))
      else if 4 \<le> length cmdline \<and> cmdline ! 3 \<noteq> CHR '' ''
      then obind (store 31 ''ERR cmd not followed by space'') (\<lambda>t. Ret (''<'' @ t, s))
      else
        (case find_message_index (codes foot_dialect) cmdline of
           None \<Rightarrow> obind (store 31 (''ERR unk cmd '' @ take 3 cmdline)) (\<lambda>t. Ret (''<'' @ t, s))
         | Some k \<Rightarrow>
             obind (call_command pin version k (drop 3 cmdline) 28 25 s) (\<lambda>(_, out, s).
               Ret (''<'' @ take 3 cmdline @ out, s))))"

definition handle_line :: "pins \<Rightarrow> string \<Rightarrow> string \<Rightarrow> foot \<Rightarrow> foot outcome" where
  "handle_line pin version cmdline s =
     (if cmdline = [] then Ret s
      else
        obind (line_output pin version cmdline s) (\<lambda>(output, s).
        obind (store 32 (output @ EOL)) (\<lambda>output. Ret (software_send output s))))"

definition stream_poll :: "pins \<Rightarrow> string \<Rightarrow> foot \<Rightarrow> foot outcome" where
  "stream_poll pin version s =
     (case next_run (streams_of s) of
        None \<Rightarrow> Ret s
      | Some i \<Rightarrow>
          (let s = s\<lparr>streams_of := take_run i (streams_of s)\<rparr>;
               x = g_stream_table (streams_of s) ! i;
               prefix = ''!STM '' @ uint8_to_hex (stream_id x) @ '' '' @ fst (codes foot_dialect ! cmd_index x)
           in obind (call_command pin version (cmd_index x) (args_text (extra_args x) (streams_of s)) 53 53 s)
                (\<lambda>(err, out, s).
                   if err = 0xFF then Ret s
                   else
                     obind (if err \<noteq> 0
                            then obind (drop_stream i (streams_of s)) (\<lambda>t. Ret (s\<lparr>streams_of := t\<rparr>))
                            else Ret s) (\<lambda>s.
                     obind (store 64 (prefix @ out @ EOL)) (\<lambda>output.
                       Ret (software_send output s))))))"

text \<open>A character of a line: the buffer has 32 bytes, and a line that does not fit is marked by the
  overrun code in its first byte.\<close>

definition add_char :: "char \<Rightarrow> foot \<Rightarrow> foot outcome" where
  "add_char c s =
     (if 32 \<le> length (line_buf s) then Overrun
      else
        (let l = line_buf s @ [c]
         in Ret (s\<lparr>line_buf := if 32 \<le> length l + 1 then butlast (l[0 := MAGIC_OVERRUN_CODE]) else l\<rparr>)))"

definition serial_input :: "pins \<Rightarrow> string \<Rightarrow> foot \<Rightarrow> foot outcome" where
  "serial_input pin version s =
     (if ring_is_empty (serial s) then Ret s
      else
        (let c = chr (ring_first (serial s));
             s = s\<lparr>serial := ring_take (serial s)\<rparr>
         in if c = CHR 0x0D \<or> c = CHR 0x0A
            then
              (if 32 \<le> length (line_buf s) then Overrun
               else
                 obind (handle_line pin version (takeWhile (\<lambda>c. c \<noteq> NUL) (line_buf s)) s) (\<lambda>s.
                   Ret (s\<lparr>line_buf := []\<rparr>)))
            else add_char c s))"

definition timer_tick :: "foot \<Rightarrow> foot" where
  "timer_tick s =
     s\<lparr>g_timer := g_timer s + 1,
       streams_of := stream_timer_update (streams_of s),
       g_main_loop_count := ucast ((ucast (g_main_loop_count s) :: u32) * 7 div 8)\<rparr>"

text \<open>One turn of the main loop; \<open>elapsed\<close> is the compare flag of the timer.\<close>

definition foot_main :: "pins \<Rightarrow> string \<Rightarrow> bool \<Rightarrow> foot \<Rightarrow> foot outcome" where
  "foot_main pin version elapsed s =
     (let s = s\<lparr>g_main_loop_count := g_main_loop_count s + 1\<rparr>
      in obind (serial_input pin version s) (\<lambda>s.
           stream_poll pin version (if elapsed then timer_tick s else s)))"

definition foot_isr :: "u8 \<Rightarrow> foot \<Rightarrow> foot outcome" where
  "foot_isr c s = obind (ring_isr c (serial s)) (\<lambda>q. Ret (s\<lparr>serial := q\<rparr>))"

definition foot_init :: "pins \<Rightarrow> string \<Rightarrow> u16 \<Rightarrow> foot outcome" where
  "foot_init pin version word =
     (let s = \<lparr>g_timer = 0, g_main_loop_count = 0, streams_of = streams_init 4,
               i2c_bus = i2c_init pin \<lparr>DDRB = 0xFE, PORTB = 0x04, i2c_active = False, elapsed_us = 0,
                 pin_reads = 0, wave = []\<rparr>,
               serial = serial_ring_init, line_buf = [], eeprom_word = word, txd = []\<rparr>
      in obind (store 32 (''!GNR HI '' @ version @ EOL)) (\<lambda>t. Ret (software_send t s)))"

section \<open>What commands leave unchanged\<close>

definition foot_inv :: "foot \<Rightarrow> bool" where
  "foot_inv s \<longleftrightarrow> stream_inv foot_dialect 4 (streams_of s) \<and> bus_idle (i2c_bus s) \<and>
     ring_invar (serial s) \<and> length (line_buf s) \<le> 30"

lemma bus_idle_regs: "bus_idle b \<Longrightarrow> \<not> bit (DDRB b) 3 \<and> \<not> bit (DDRB b) 4"
  by (auto simp: bus_idle_def bus_ok_def line_def)

lemma bus_idle_update:
  assumes "bus_idle b"
  shows "bus_idle (b\<lparr>PORTB := v\<rparr>)" "bus_idle (write_port v b)" "bus_idle (b\<lparr>pin_reads := n\<rparr>)"
  using assms bus_idle_regs [OF assms]
  by (simp_all add: bus_idle_def bus_ok_def line_def write_port_def observe_def)

lemma software_send_simps [simp]:
  "streams_of (software_send t s) = streams_of s" "serial (software_send t s) = serial s"
  "line_buf (software_send t s) = line_buf s" "DDRB (i2c_bus (software_send t s)) = DDRB (i2c_bus s)"
  by (simp_all add: software_send_def split: prod.splits)

lemma software_send_bus: "bus_idle (i2c_bus s) \<Longrightarrow> bus_idle (i2c_bus (software_send t s))"
  by (simp add: software_send_def bus_idle_update split: prod.splits)

lemma software_send_inv [inv_intros]: "foot_inv s \<Longrightarrow> foot_inv (software_send t s)"
  by (simp add: foot_inv_def software_send_bus)

text \<open>What can be said of a command that returns: the invariant is kept and the text is short. The
  bound for the version is what the output buffer of \<open>handle_line\<close> leaves.\<close>

definition cmd_ok :: "nat \<Rightarrow> nat \<Rightarrow> foot \<Rightarrow> cmd_result \<Rightarrow> bool" where
  "cmd_ok room bound s r \<longleftrightarrow>
     (\<exists>err out s'. r = Ret (err, out, s') \<and> length out \<le> bound \<and> foot_inv s' \<and>
        serial s' = serial s \<and> line_buf s' = line_buf s)"

lemma say_cmd_ok:
  "length t < room \<Longrightarrow> length t \<le> bound \<Longrightarrow> foot_inv s' \<Longrightarrow> serial s' = serial s \<Longrightarrow>
   line_buf s' = line_buf s \<Longrightarrow> cmd_ok room bound s (say room t err s')"
  by (simp add: cmd_ok_def outcome_simps)

lemma read_PINB_simps [simp]:
  "serial (snd (read_PINB pin s)) = serial s" "line_buf (snd (read_PINB pin s)) = line_buf s"
  "streams_of (snd (read_PINB pin s)) = streams_of s"
  by (simp_all add: read_PINB_def Let_def)

lemma read_PINB_inv [inv_intros]: "foot_inv s \<Longrightarrow> foot_inv (snd (read_PINB pin s))"
  by (simp add: foot_inv_def read_PINB_def Let_def bus_idle_update)

lemma cmd_simple_ok:
  assumes "foot_inv s" "25 < room"
  shows "cmd_ok room 25 s (cmd_png room s)" "cmd_ok room 25 s (cmd_tmq room s)"
    "cmd_ok room 25 s (cmd_prf room s)" "cmd_ok room 25 s (cmd_wpc room s)"
    "cmd_ok room 25 s (cmd_gpq pin room s)" "cmd_ok room 25 s (cmd_stl room s)"
    "length version \<le> 24 \<Longrightarrow> cmd_ok room 25 s (cmd_ver version room s)"
proof -
  show "cmd_ok room 25 s (cmd_gpq pin room s)"
    using assms read_PINB_inv [OF assms(1)]
    by (auto simp: cmd_gpq_def split: prod.splits intro!: say_cmd_ok)
       (metis read_PINB_simps snd_conv read_PINB_inv)+
  show "cmd_ok room 25 s (cmd_stl room s)"
    using assms by (auto simp: cmd_stl_def stl_def lift_table_def outcome_simps cmd_ok_def)
qed (use assms in \<open>auto simp: cmd_png_def cmd_tmq_def cmd_prf_def cmd_wpc_def cmd_ver_def Let_def STR_OK_def
       intro!: say_cmd_ok\<close>)

lemma cmd_i2c_ok:
  assumes "foot_inv s" "25 < room" "25 \<le> output_len"
  shows "cmd_ok room 25 s (cmd_i2c pin args room output_len s)"
proof -
  have "bus_ok (i2c_bus s)" using assms(1) by (simp add: foot_inv_def bus_idle_def)
  from i2c_command_Ret [OF this, of room output_len pin args] assms(2,3) obtain err out b where
    "i2c_command pin args room output_len [] (i2c_bus s) = Ret (err, out, b)" "length out \<le> 22" "bus_idle b"
    by auto
  then show ?thesis using assms(1) by (simp add: cmd_i2c_def cmd_ok_def foot_inv_def)
qed

lemma cmd_gpc_ok:
  assumes "foot_inv s" "25 < room"
  shows "cmd_ok room 25 s (cmd_gpc args room s)"
proof -
  have "cmd_ok room 25 s (say room STR_OK 0 (s\<lparr>i2c_bus := write_port v (i2c_bus s)\<rparr>))" for v
    using assms by (intro say_cmd_ok) (simp_all add: STR_OK_def foot_inv_def bus_idle_update)
  then show ?thesis
    using assms by (auto simp: cmd_gpc_def Let_def intro!: say_cmd_ok split: option.splits prod.splits)
qed

lemma foot_texts_fit: "texts_fit foot_dialect 25"
  by (simp add: texts_fit_def foot_dialect_def STR_OK_def)

lemma foot_inv_streams: "foot_inv s \<Longrightarrow> stream_inv foot_dialect 4 (streams_of s)"
  by (simp add: foot_inv_def)

lemma lift_table_ok:
  assumes "foot_inv s" "\<exists>e out t. r = Ret (e, out, t) \<and> length out \<le> 25 \<and> stream_inv foot_dialect 4 t"
  shows "cmd_ok room 25 s (lift_table r s)"
  using assms by (auto simp: lift_table_def cmd_ok_def foot_inv_def)

lemma cmd_stb_ste_ok:
  assumes "foot_inv s" "25 < room"
  shows "length args < 64 \<Longrightarrow> cmd_ok room 25 s (cmd_stb args room s)"
    "cmd_ok room 25 s (cmd_ste args room s)"
  unfolding cmd_stb_def cmd_ste_def
  using assms stb_Ret [OF foot_inv_streams [OF assms(1)] _ _ foot_texts_fit assms(2)]
    ste_Ret [OF foot_inv_streams [OF assms(1)] foot_texts_fit assms(2)]
  by (auto intro!: lift_table_ok)

lemma cmd_ok_cong: "serial s = serial t \<Longrightarrow> line_buf s = line_buf t \<Longrightarrow> cmd_ok room b s r = cmd_ok room b t r"
  by (simp add: cmd_ok_def)

lemma qgr_loop_ok:
  assumes L: "8 \<le> L" "L \<le> room"
  shows "foot_inv s \<Longrightarrow> length out \<le> L - 2 \<Longrightarrow> cmd_ok room (L - 2) s (qgr_loop pin room L arg out s)"
proof (induction arg arbitrary: out s rule: measure_induct_rule [of length])
  case (less arg)
  show ?case
  proof (cases arg)
    case Nil
    then show ?thesis using less.prems L by (simp add: say_cmd_ok)
  next
    case (Cons c rest)
    show ?thesis
    proof (cases "int (length out) > int L - 8")
      case True
      then show ?thesis using less.prems L Cons by (simp add: say_cmd_ok)
    next
      case False
      then have out: "length out + 6 \<le> L - 2" using L by simp
      have step: "cmd_ok room (L - 2) s (qgr_loop pin room L rest (out @ more) s)" if "length more \<le> 6" for more
        using less.IH [of rest s "out @ more"] less.prems(1) out that Cons by simp
      have port: "cmd_ok room (L - 2) s (qgr_loop pin room L rest' (out @ '' p'' @ [p] @ uint8_to_hex v) s')"
        if "rest = p # rest'" "(v, s') = (if toupper p = CHR ''B'' then read_PINB pin s else (0, s))" for p rest' v s'
      proof -
        have s': "foot_inv s'" "serial s' = serial s" "line_buf s' = line_buf s"
          using that(2) less.prems(1) read_PINB_inv read_PINB_simps
          by (auto split: if_splits) (metis snd_conv read_PINB_inv read_PINB_simps)+
        have "cmd_ok room (L - 2) s' (qgr_loop pin room L rest' (out @ '' p'' @ [p] @ uint8_to_hex v) s')"
          using less.IH [of rest' s'] s'(1) out that(1) Cons by simp
        with s'(2,3) cmd_ok_cong show ?thesis by blast
      qed
      have err: "cmd_ok room (L - 2) s (say room (out @ more) e s)" if "length more \<le> 6" for more e
        using less.prems(1) out that L by (intro say_cmd_ok) auto
      have nul: "cmd_ok room (L - 2) s (obind (store room (out @ '' p'' @ [NUL])) (\<lambda>_. Ret (1, out @ '' p'', s)))"
        using less.prems(1) out L by (simp add: cmd_ok_def outcome_simps)
      show ?thesis
        using False err [of "[]"] nul step [of "[]"] err port step Cons
        by (auto simp: Let_def split: list.splits prod.splits)
    qed
  qed
qed

section \<open>Lines\<close>

lemma cmd_ok_weaken: "cmd_ok room a s r \<Longrightarrow> a \<le> b \<Longrightarrow> cmd_ok room b s r"
  by (fastforce simp: cmd_ok_def)

lemma foot_index:
  assumes "find_message_index (codes foot_dialect) l = Some k"
  shows "k < 15" "k = 4 \<longleftrightarrow> take 3 l = ''STG''" "k = 6 \<longleftrightarrow> take 3 l = ''RST''" "k = 13 \<longleftrightarrow> take 3 l = ''WDT''"
  using assms by (auto simp: find_message_index_def foot_dialect_def split: if_splits)

lemma nat_lt_15:
  "k < (15 :: nat) \<Longrightarrow> k = 0 \<or> k = 1 \<or> k = 2 \<or> k = 3 \<or> k = 4 \<or> k = 5 \<or> k = 6 \<or> k = 7 \<or> k = 8 \<or> k = 9 \<or>
     k = 10 \<or> k = 11 \<or> k = 12 \<or> k = 13 \<or> k = 14"
  by presburger

text \<open>All commands but STG either loop on purpose or return a text that fits, here for the buffer of
  \<open>handle_line\<close>.\<close>

lemma call_command_line:
  assumes inv: "foot_inv s" and args: "length args < 64" and ver: "length version \<le> 24"
    and k: "k < 15" "k \<noteq> 4"
  shows "if k = 6 \<or> k = 13 then call_command pin version k args 28 25 s = Spin
         else cmd_ok 28 25 s (call_command pin version k args 28 25 s)"
proof -
  have q: "cmd_ok 28 25 s (cmd_qgr pin args 28 25 s)"
    unfolding cmd_qgr_def by (rule cmd_ok_weaken [OF qgr_loop_ok]) (use inv in auto)
  have r: "(25 :: nat) < 28" by simp
  from nat_lt_15 [OF k(1)] k(2) show ?thesis
    using cmd_simple_ok [OF inv r] cmd_i2c_ok [OF inv r] cmd_gpc_ok [OF inv r] cmd_stb_ste_ok [OF inv r]
      q args ver
    by (elim disjE) (simp_all add: call_command_def cmd_rst_def cmd_wdt_def)
qed

lemma foot_codes3: "\<forall>c \<in> set (codes foot_dialect). length (fst c) = 3"
  by (simp add: foot_dialect_def)

lemma call_command_stg:
  assumes inv: "foot_inv s"
  shows "case stg_text args (streams_of s) of
      None \<Rightarrow> cmd_ok 28 25 s (call_command pin version 4 args 28 25 s)
    | Some t \<Rightarrow> (if 28 \<le> 12 + length t then call_command pin version 4 args 28 25 s = Overrun
        else \<exists>out. call_command pin version 4 args 28 25 s = Ret (0, out, s) \<and> length out = 12 + length t)"
  using stg_result [OF foot_texts_fit _ foot_inv_streams [OF inv] foot_codes3, of 28 args] inv
  by (auto simp: call_command_def cmd_stg_def lift_table_def cmd_ok_def split: option.splits if_splits)

text \<open>The lines that make \<open>handle_line\<close> write past its 32-byte buffer.\<close>

definition bad_line :: "string \<Rightarrow> foot \<Rightarrow> bool" where
  "bad_line l s \<longleftrightarrow> l \<noteq> [] \<and> hd l \<noteq> MAGIC_OVERRUN_CODE \<and> 3 \<le> length l \<and>
     (if 4 \<le> length l \<and> l ! 3 \<noteq> CHR '' '' then True
      else take 3 l = ''STG'' \<and> (\<exists>t. stg_text (drop 3 l) (streams_of s) = Some t \<and> 13 < length t))"

lemma store_EOL: "store 32 (out @ EOL) = (if length out < 30 then Ret (out @ EOL) else Overrun)"
  by (simp add: store_def EOL_def)

lemma line_result:
  assumes inv: "foot_inv s" and len: "length l \<le> 30" and ver: "length version \<le> 24" and ne: "l \<noteq> []"
  shows "(bad_line l s \<and> handle_line pin version l s = Overrun) \<or>
    (\<not> bad_line l s \<and> (handle_line pin version l s = Spin \<or>
      (\<exists>s'. handle_line pin version l s = Ret s' \<and> foot_inv s' \<and> serial s' = serial s)))"
proof (cases "hd l = MAGIC_OVERRUN_CODE \<or> length l < 3 \<or> (4 \<le> length l \<and> l ! 3 \<noteq> CHR '' '')")
  case True
  then show ?thesis
    using ne software_send_inv [OF inv]
    by (auto simp: bad_line_def handle_line_def line_output_def outcome_simps store_EOL)
next
  case False
  show ?thesis
  proof (cases "find_message_index (codes foot_dialect) l")
    case None
    then have "take 3 l \<noteq> ''STG''" by (auto simp: find_message_index_def foot_dialect_def)
    with None False show ?thesis
      using ne software_send_inv [OF inv]
      by (auto simp: bad_line_def handle_line_def line_output_def outcome_simps store_EOL)
  next
    case (Some k)
    note ix = foot_index [OF Some]
    have out: "handle_line pin version l s =
      obind (call_command pin version k (drop 3 l) 28 25 s) (\<lambda>(_, out, s').
        obind (store 32 (''<'' @ take 3 l @ out @ EOL)) (\<lambda>output. Ret (software_send output s')))"
      using False Some ne by (auto simp: handle_line_def line_output_def obind_assoc split_def)
    have args: "length (drop 3 l) < 64" using len by simp
    have l3: "length (take 3 l) = 3" using False by simp
    show ?thesis
    proof (cases "k = 4")
      case True
      with call_command_stg [OF inv, where args = "drop 3 l" and pin = pin and version = version] ix False out l3 ne
      show ?thesis
        by (auto simp: bad_line_def cmd_ok_def outcome_simps EOL_def store_def
            intro!: software_send_inv [OF inv] software_send_inv split: option.splits if_splits)
    next
      case False
      with ix have nb: "\<not> bad_line l s"
        using \<open>\<not> (hd l = MAGIC_OVERRUN_CODE \<or> length l < 3 \<or> 4 \<le> length l \<and> l ! 3 \<noteq> CHR '' '')\<close>
        by (auto simp: bad_line_def)
      with call_command_line [OF inv args ver ix(1) False, of pin] out l3 show ?thesis
        by (auto simp: cmd_ok_def outcome_simps EOL_def intro!: software_send_inv split: if_splits)
    qed
  qed
qed

text \<open>Which lines write past the 32-byte output buffer of \<open>handle_line\<close>: exactly the
  lines whose command is not followed by a blank (the error message itself does not fit), and the STG
  of a stream with more than 13 characters of arguments. Every other line, of any content, is
  answered or resets the device, and keeps the invariant of the firmware.\<close>

theorem handle_line_overrun_iff:
  assumes "foot_inv s" "length l \<le> 30" "length version \<le> 24"
  shows "(handle_line pin version l s = Overrun \<longleftrightarrow> bad_line l s) \<and>
    (\<forall>s'. handle_line pin version l s = Ret s' \<longrightarrow> foot_inv s')"
proof (cases "l = []")
  case True
  then show ?thesis using assms(1) by (simp add: handle_line_def bad_line_def)
next
  case False
  from line_result [OF assms False, of pin] show ?thesis by auto
qed

section \<open>The stream poller\<close>

lemma stream_room:
  assumes inv: "foot_inv s" and k: "k < 15" "snd (codes foot_dialect ! k)"
  shows "cmd_ok 53 (if k = 8 then 51 else 25) s (call_command pin version k args 53 53 s)"
proof -
  have q: "cmd_ok 53 51 s (cmd_qgr pin args 53 53 s)"
    unfolding cmd_qgr_def by (rule cmd_ok_weaken [OF qgr_loop_ok]) (use inv in auto)
  have r: "(25 :: nat) < 53" by simp
  from nat_lt_15 [OF k(1)] k(2) show ?thesis
    using cmd_simple_ok [OF inv r] cmd_i2c_ok [OF inv r] q
    by (elim disjE) (simp_all add: call_command_def foot_dialect_def)
qed

lemma foot_codes_length: "length (codes foot_dialect) = 15"
  by (simp add: foot_dialect_def)

lemma next_run_active:
  assumes "stream_inv foot_dialect 4 t" "next_run t = Some i"
  shows "i < 4" "stream_id (g_stream_table t ! i) \<noteq> 0" "cmd_index (g_stream_table t ! i) < 15"
    "snd (codes foot_dialect ! cmd_index (g_stream_table t ! i))"
proof -
  show i: "i < 4" "stream_id (g_stream_table t ! i) \<noteq> 0"
    using assms(1) first_index_Some [OF assms(2) [unfolded next_run_def]] by (auto simp: stream_inv_def)
  with assms(1) have "entry_ok foot_dialect (g_stream_args t) (g_stream_table t ! i)"
    by (simp add: stream_inv_def table_ok_def)
  with i(2) show "cmd_index (g_stream_table t ! i) < 15"
    "snd (codes foot_dialect ! cmd_index (g_stream_table t ! i))"
    by (auto simp: entry_ok_def foot_codes_length)
qed

text \<open>No streamable command changes the stream table, so the entry is still there afterwards.\<close>

lemma qgr_keeps_streams:
  "qgr_loop pin room L arg out s = Ret (e, o', s') \<Longrightarrow> streams_of s' = streams_of s"
proof (induction arg arbitrary: out s rule: measure_induct_rule [of length])
  case (less arg)
  show ?case
  proof (cases arg)
    case Nil
    then show ?thesis using less.prems by simp
  next
    case (Cons c rest)
    have rd: "streams_of t = streams_of s" if "read_PINB pin s = (v, t)" for v t
      using that read_PINB_simps(3) [of pin s] by simp
    have 1: "streams_of s' = streams_of s" if "qgr_loop pin room L rest out' s = Ret (e, o', s')" for out'
      using less.IH [OF _ that] Cons by simp
    have 2: "streams_of s' = streams_of t"
      if "rest = p # rest'" "qgr_loop pin room L rest' out' t = Ret (e, o', s')" for p rest' out' t
      using less.IH [OF _ that(2)] Cons that(1) by simp
    show ?thesis
    proof (cases "c = CHR ''p''")
      case True
      then show ?thesis
        using less.prems Cons 2 rd
        by (cases rest) (auto simp: obind_eq_Ret split: if_splits prod.splits)
    next
      case False
      then show ?thesis using less.prems Cons 1 by (auto split: if_splits)
    qed
  qed
qed

lemma streamable_keeps_streams:
  assumes "k < 15" "snd (codes foot_dialect ! k)" "call_command pin version k args room L s = Ret (e, out, s')"
  shows "streams_of s' = streams_of s"
proof -
  have rd: "read_PINB pin s = (v, t) \<Longrightarrow> streams_of t = streams_of s" for v t
    using read_PINB_simps(3) [of pin s] by simp
  from nat_lt_15 [OF assms(1)] assms(2,3) show ?thesis
    by (elim disjE)
       (auto simp: call_command_def foot_dialect_def cmd_stl_def stl_def lift_table_def cmd_tmq_def
         cmd_qgr_def cmd_prf_def cmd_i2c_def cmd_gpq_def obind_eq_Ret
         split: prod.splits dest: qgr_keeps_streams rd)
qed

lemma stream_poll_result:
  assumes inv: "foot_inv s" and i: "next_run (streams_of s) = Some i"
  defines "s1 \<equiv> s\<lparr>streams_of := take_run i (streams_of s)\<rparr>"
  defines "x \<equiv> g_stream_table (streams_of s1) ! i"
  shows "\<exists>err out s2. call_command pin version (cmd_index x) (args_text (extra_args x) (streams_of s1)) 53 53 s1
       = Ret (err, out, s2) \<and> length out \<le> (if cmd_index x = 8 then 51 else 25) \<and>
     (if err \<noteq> 0xFF \<and> length out = 51 then stream_poll pin version s = Overrun
      else \<exists>s'. stream_poll pin version s = Ret s' \<and> foot_inv s' \<and> serial s' = serial s \<and> line_buf s' = line_buf s)"
proof -
  have tab: "stream_inv foot_dialect 4 (streams_of s)" by (rule foot_inv_streams [OF inv])
  note a = next_run_active [OF tab i]
  have len: "length (g_stream_table (streams_of s)) = 4" using tab by (simp add: stream_inv_def)
  have x: "cmd_index x = cmd_index (g_stream_table (streams_of s) ! i)" "stream_id x \<noteq> 0" "cmd_index x < 15"
    "snd (codes foot_dialect ! cmd_index x)"
    using a len by (simp_all add: x_def s1_def take_run_def)
  have inv1: "foot_inv s1" using inv take_run_inv [OF tab a(1)] by (simp add: foot_inv_def s1_def)
  from stream_room [OF inv1 x(3,4), of pin version "args_text (extra_args x) (streams_of s1)"]
  obtain err out s2 where c: "call_command pin version (cmd_index x) (args_text (extra_args x) (streams_of s1)) 53 53 s1
       = Ret (err, out, s2)" "length out \<le> (if cmd_index x = 8 then 51 else 25)" "foot_inv s2"
       "serial s2 = serial s" "line_buf s2 = line_buf s"
    by (auto simp: cmd_ok_def s1_def)
  have str: "streams_of s2 = streams_of s1" by (rule streamable_keeps_streams [OF x(3,4) c(1)])
  have code: "length (fst (codes foot_dialect ! cmd_index x)) = 3"
    using foot_codes3 x(3) foot_codes_length by (metis nth_mem)
  obtain t where t: "drop_stream i (streams_of s2) = Ret t"
    using drop_stream_Ret [OF foot_inv_streams [OF c(3)] a(1)] x(2) str by (auto simp: x_def)
  have invt: "foot_inv (s2\<lparr>streams_of := t\<rparr>)"
    using c(3) drop_stream_inv [OF foot_inv_streams [OF c(3)] a(1) _ t] x(2) str
    by (simp add: foot_inv_def x_def)
  have small: "length out \<le> 51" using c(2) by (simp split: if_splits)
  show ?thesis
    using c i t invt code small
    by (auto simp: stream_poll_def Let_def s1_def [symmetric] x_def [symmetric] store_def EOL_def
        intro!: software_send_inv)
qed

section \<open>The main loop\<close>

lemma call_command_table:
  assumes "k < 15" "call_command pin version k args room L s = Ret (e, out, s')"
  shows "table_step foot_dialect (streams_of s) (streams_of s')"
proof (cases "snd (codes foot_dialect ! k)")
  case True
  then show ?thesis using streamable_keeps_streams [OF assms(1) True assms(2)] by (simp add: table_step.idle)
next
  case False
  from nat_lt_15 [OF assms(1)] assms(2) False show ?thesis
    by (elim disjE)
       (auto simp: call_command_def foot_dialect_def [THEN arg_cong [of _ _ codes]] cmd_png_def cmd_stb_def
         cmd_ste_def cmd_stg_def cmd_ver_def cmd_rst_def cmd_gpc_def cmd_wdt_def cmd_wpc_def lift_table_def
         Let_def obind_eq_Ret split: option.splits prod.splits if_splits dest!: stg_same
         intro: table_step.intros)
qed

lemma call_command_inv:
  assumes inv: "foot_inv s" and args: "length args < 64" and k: "k < 15"
    and run: "call_command pin version k args 28 25 s = Ret (e, out, s')"
  shows "foot_inv s' \<and> serial s' = serial s \<and> line_buf s' = line_buf s"
proof (cases "k = 4 \<or> k = 5")
  case True
  then show ?thesis
    using run inv by (auto simp: call_command_def cmd_ver_def cmd_stg_def lift_table_def obind_eq_Ret
        dest!: stg_same)
next
  case False
  have "call_command pin version k args 28 25 s = call_command pin [] k args 28 25 s"
    using nat_lt_15 [OF k] False by (elim disjE) (simp_all add: call_command_def)
  with call_command_line [OF inv args _ k, of "[]" pin] False run show ?thesis
    by (auto simp: cmd_ok_def split: if_splits)
qed

lemma handle_line_inv:
  assumes inv: "foot_inv s" and len: "length l \<le> 30" and run: "handle_line pin version l s = Ret s'"
  shows "foot_inv s' \<and> serial s' = serial s \<and> line_buf s' = line_buf s \<and>
    table_step foot_dialect (streams_of s) (streams_of s')"
proof (cases "\<exists>k. l \<noteq> [] \<and> find_message_index (codes foot_dialect) l = Some k \<and>
    \<not> (hd l = MAGIC_OVERRUN_CODE \<or> length l < 3 \<or> (4 \<le> length l \<and> l ! 3 \<noteq> CHR '' ''))")
  case False
  then have "s' = s \<or> (\<exists>t. s' = software_send t s)"
    using run by (auto simp: handle_line_def line_output_def obind_eq_Ret split: if_splits option.splits)
  then show ?thesis using inv software_send_inv by (auto intro: table_step.idle)
next
  case True
  then obtain k where k: "l \<noteq> []" "find_message_index (codes foot_dialect) l = Some k"
    "\<not> (hd l = MAGIC_OVERRUN_CODE \<or> length l < 3 \<or> (4 \<le> length l \<and> l ! 3 \<noteq> CHR '' ''))" by blast
  then obtain e out u t where
    u: "call_command pin version k (drop 3 l) 28 25 s = Ret (e, out, u)" "s' = software_send t u"
    using run by (auto simp: handle_line_def line_output_def obind_eq_Ret split: if_splits)
  have "length (drop 3 l) < 64" using len by simp
  from call_command_inv [OF inv this foot_index(1) [OF k(2)] u(1)]
    call_command_table [OF foot_index(1) [OF k(2)] u(1)] u(2) software_send_inv
  show ?thesis by auto
qed

lemma add_char_inv:
  "foot_inv s \<Longrightarrow> add_char c s = Ret s' \<Longrightarrow> foot_inv s' \<and> streams_of s' = streams_of s"
  by (auto simp: add_char_def foot_inv_def Let_def split: if_splits)

lemma serial_input_inv:
  assumes inv: "foot_inv s" and run: "serial_input pin version s = Ret s'"
  shows "foot_inv s' \<and> table_step foot_dialect (streams_of s) (streams_of s')"
proof (cases "ring_is_empty (serial s)")
  case True
  then show ?thesis using inv run by (simp add: serial_input_def table_step.idle)
next
  case False
  let ?s = "s\<lparr>serial := ring_take (serial s)\<rparr>"
  have inv1: "foot_inv ?s" using inv ring_take_list [OF _ False] by (simp add: foot_inv_def)
  have len: "length (takeWhile (\<lambda>c. c \<noteq> NUL) (line_buf ?s)) \<le> 30"
    using inv1 length_takeWhile_le [of "\<lambda>c. c \<noteq> NUL" "line_buf ?s"] by (simp add: foot_inv_def)
  let ?c = "chr (ring_first (serial s))"
  show ?thesis
  proof (cases "?c = CHR 0x0D \<or> ?c = CHR 0x0A")
    case True
    then obtain u where u: "handle_line pin version (takeWhile (\<lambda>c. c \<noteq> NUL) (line_buf ?s)) ?s = Ret u"
      "s' = u\<lparr>line_buf := []\<rparr>"
      using run False by (auto simp: serial_input_def Let_def obind_eq_Ret split: if_splits)
    from handle_line_inv [OF inv1 len u(1)] u(2) show ?thesis by (auto simp: foot_inv_def)
  next
    case c: False
    then have "add_char ?c ?s = Ret s'" using run False by (simp add: serial_input_def Let_def)
    from add_char_inv [OF inv1 this] show ?thesis by (simp add: table_step.idle)
  qed
qed

lemma timer_tick_inv: "foot_inv s \<Longrightarrow> foot_inv (timer_tick s)"
  by (simp add: foot_inv_def timer_tick_def stream_timer_inv)

lemma stream_poll_inv:
  assumes inv: "foot_inv s" and run: "stream_poll pin version s = Ret s'"
  shows "foot_inv s' \<and> (table_step foot_dialect)\<^sup>*\<^sup>* (streams_of s) (streams_of s')"
proof (cases "next_run (streams_of s)")
  case None
  then show ?thesis using inv run by (simp add: stream_poll_def)
next
  case (Some i)
  note tab = foot_inv_streams [OF inv]
  note a = next_run_active [OF tab Some]
  define s1 where "s1 = s\<lparr>streams_of := take_run i (streams_of s)\<rparr>"
  define x where "x = g_stream_table (streams_of s1) ! i"
  have len: "length (g_stream_table (streams_of s)) = 4" using tab by (simp add: stream_inv_def)
  have x: "cmd_index x < 15" "snd (codes foot_dialect ! cmd_index x)" "stream_id x \<noteq> 0"
    using a len by (simp_all add: x_def s1_def take_run_def)
  have one: "table_step foot_dialect (streams_of s) (streams_of s1)"
    using Some by (simp add: s1_def table_step.run_one)
  from run Some obtain err out s2 where
    c: "call_command pin version (cmd_index x) (args_text (extra_args x) (streams_of s1)) 53 53 s1 = Ret (err, out, s2)"
    by (auto simp: stream_poll_def Let_def s1_def x_def obind_eq_Ret)
  have str: "streams_of s2 = streams_of s1" by (rule streamable_keeps_streams [OF x(1,2) c])
  have "streams_of s' = streams_of s1 \<or> drop_stream i (streams_of s1) = Ret (streams_of s')"
    using run Some c str
    by (auto simp: stream_poll_def Let_def s1_def [symmetric] x_def [symmetric] obind_eq_Ret split: if_splits)
  then have "(table_step foot_dialect)\<^sup>*\<^sup>* (streams_of s1) (streams_of s')"
    using x(3) a(1) len table_step.fail [of i "streams_of s1" "streams_of s'" foot_dialect]
    by (auto simp: x_def s1_def take_run_def)
  with one have "(table_step foot_dialect)\<^sup>*\<^sup>* (streams_of s) (streams_of s')" by simp
  moreover have "foot_inv s'"
    using stream_poll_result [OF inv Some, of pin version] run by (auto split: if_splits)
  ultimately show ?thesis by blast
qed

text \<open>The steps of the device: a received character and a turn of the main loop.\<close>

inductive foot_step :: "pins \<Rightarrow> string \<Rightarrow> foot \<Rightarrow> foot \<Rightarrow> bool" for pin version where
  receive: "foot_isr c s = Ret s' \<Longrightarrow> foot_step pin version s s'"
| turn: "foot_main pin version elapsed s = Ret s' \<Longrightarrow> foot_step pin version s s'"

inductive_cases foot_stepE: "foot_step pin version s s'"

lemma foot_isr_inv:
  "foot_inv s \<Longrightarrow> foot_isr c s = Ret s' \<Longrightarrow> foot_inv s' \<and> streams_of s' = streams_of s"
  using ring_isr_invar [of "serial s" c] by (auto simp: foot_isr_def foot_inv_def)

lemma foot_main_inv:
  assumes inv: "foot_inv s" and run: "foot_main pin version elapsed s = Ret s'"
  shows "foot_inv s' \<and> (table_step foot_dialect)\<^sup>*\<^sup>* (streams_of s) (streams_of s')"
proof -
  let ?s = "s\<lparr>g_main_loop_count := g_main_loop_count s + 1\<rparr>"
  have inv0: "foot_inv ?s" using inv by (simp add: foot_inv_def)
  from run obtain u where u: "serial_input pin version ?s = Ret u"
    "stream_poll pin version (if elapsed then timer_tick u else u) = Ret s'"
    by (auto simp: foot_main_def Let_def obind_eq_Ret)
  note 1 = serial_input_inv [OF inv0 u(1)]
  let ?t = "if elapsed then timer_tick u else u"
  have 2: "foot_inv ?t" "table_step foot_dialect (streams_of u) (streams_of ?t)"
    using 1 timer_tick_inv by (auto simp: timer_tick_def table_step.timer table_step.idle)
  from stream_poll_inv [OF 2(1) u(2)] 1 2(2) show ?thesis
    by (auto intro: converse_rtranclp_into_rtranclp)
qed

lemma i2c_init_idle:
  "bus_idle (i2c_init pin \<lparr>DDRB = 0xFE, PORTB = 0x04, i2c_active = False, elapsed_us = 0,
     pin_reads = 0, wave = []\<rparr>)"
  by (simp add: i2c_init_def i2c_sda_high_def i2c_scl_high_def Let_def bus_idle_def bus_ok_def
      write_ddr_def write_port_def observe_def read_pin_def line_def bit_bit_on bit_bit_off)

lemma foot_init_inv:
  assumes "foot_init pin version word = Ret s"
  shows "foot_inv s \<and> streams_of s = streams_init 4"
proof -
  have "ring_invar serial_ring_init" by (simp add: ring_invar_def serial_ring_init_def)
  then show ?thesis
    using assms i2c_init_idle [of pin] streams_init_inv [of foot_dialect 4]
    by (auto simp: foot_init_def Let_def obind_eq_Ret foot_inv_def software_send_bus)
qed

interpretation foot_host: stream_host foot_dialect 4 streams_of
    "\<lambda>s. \<exists>word. foot_init pin version word = Ret s" "foot_step pin version" foot_inv
  for pin version
proof
  fix s assume "\<exists>word. foot_init pin version word = Ret s"
  then show "foot_inv s \<and> streams_of s = streams_init 4" using foot_init_inv by blast
next
  fix s s' assume inv: "foot_inv s" and "foot_step pin version s s'"
  from this(2) show "foot_inv s' \<and> (table_step foot_dialect)\<^sup>*\<^sup>* (streams_of s) (streams_of s')"
    by (cases rule: foot_step.cases) (use foot_isr_inv [OF inv] foot_main_inv [OF inv] in auto)
qed

text \<open>In every state the foot can reach from power-up, whatever it receives: stream
  ids are distinct and between 1 and 15, argument slots are not shared, streams of equal rate are in phase,
  the I2C lines are released, the ring indices are in range and the collected line has at most 30
  characters.\<close>

theorem foot_reach_inv:
  assumes "foot_init pin version word = Ret s" "(foot_step pin version)\<^sup>*\<^sup>* s s'"
  shows "stream_inv foot_dialect 4 (streams_of s') \<and> bus_idle (i2c_bus s') \<and> ring_invar (serial s') \<and>
     length (line_buf s') \<le> 30 \<and>
     (\<forall>x \<in> set (g_stream_table (streams_of s')). \<forall>y \<in> set (g_stream_table (streams_of s')).
        stream_id x \<noteq> 0 \<and> stream_id y \<noteq> 0 \<and> rate x = rate y \<longrightarrow> time_remaining x = time_remaining y)"
proof -
  have st: "\<exists>word. foot_init pin version word = Ret s" using assms(1) by blast
  show ?thesis
    using foot_host.reach_inv [OF st assms(2)] foot_host.reach_in_phase [OF st assms(2)]
    unfolding foot_inv_def by blast
qed

theorem foot_reach_inv_witness:
  "\<exists>s s'. foot_init slave_pins ''foot v0.1 r42'' 0 = Ret s \<and>
     (foot_step slave_pins ''foot v0.1 r42'')\<^sup>*\<^sup>* s s' \<and> length (line_buf s') \<le> 30"
proof -
  obtain s where s: "foot_init slave_pins ''foot v0.1 r42'' 0 = Ret s"
    by (simp add: foot_init_def Let_def EOL_def outcome_simps)
  have "ring_invar (serial s)" using foot_init_inv [OF s] by (simp add: foot_inv_def)
  from ring_isr_invar [OF this, of 80] obtain q where "ring_isr 80 (serial s) = Ret q" by blast
  then have "foot_step slave_pins ''foot v0.1 r42'' s (s\<lparr>serial := q\<rparr>)"
    by (intro foot_step.receive [of 80]) (simp add: foot_isr_def)
  then have "(foot_step slave_pins ''foot v0.1 r42'')\<^sup>*\<^sup>* s (s\<lparr>serial := q\<rparr>)" by blast
  with s foot_reach_inv [OF s this] show ?thesis by blast
qed

text \<open>The stream poller writes past its 64-byte buffer in exactly one case: the stream runs
  QGR and its answer has 51 characters, which the check inside \<open>cmd_qgr\<close> lets pass (it leaves no room
  for the end of the line). In every other case it returns and keeps the invariant.\<close>

theorem stream_poll_overrun_iff:
  assumes "foot_inv s" "next_run (streams_of s) = Some i"
    and "s1 = s\<lparr>streams_of := take_run i (streams_of s)\<rparr>" "x = g_stream_table (streams_of s1) ! i"
  shows "(stream_poll pin version s = Overrun \<longleftrightarrow>
      cmd_index x = 8 \<and> (\<exists>err out s2.
        cmd_qgr pin (args_text (extra_args x) (streams_of s1)) 53 53 s1 = Ret (err, out, s2) \<and>
        err \<noteq> 0xFF \<and> length out = 51)) \<and>
    (stream_poll pin version s \<noteq> Overrun \<longrightarrow> (\<exists>s'. stream_poll pin version s = Ret s' \<and> foot_inv s'))"
proof -
  from stream_poll_result [OF assms(1,2), of pin version] assms(3,4) obtain err out s2 where
    c: "call_command pin version (cmd_index x) (args_text (extra_args x) (streams_of s1)) 53 53 s1 = Ret (err, out, s2)"
    "length out \<le> (if cmd_index x = 8 then 51 else 25)"
    "if err \<noteq> 0xFF \<and> length out = 51 then stream_poll pin version s = Overrun
      else \<exists>s'. stream_poll pin version s = Ret s' \<and> foot_inv s' \<and> serial s' = serial s \<and> line_buf s' = line_buf s"
    by blast
  have q: "cmd_index x = 8 \<Longrightarrow>
    cmd_qgr pin (args_text (extra_args x) (streams_of s1)) 53 53 s1 = Ret (err, out, s2)"
    using c(1) by (simp add: call_command_def)
  show ?thesis
    using c(2,3) q by (auto split: if_splits)
qed

section \<open>Examples\<close>

definition unused_stream :: stream where
  "unused_stream = \<lparr>stream_id = 0, cmd_index = 0, extra_args = NullPtr, rate = 0, time_remaining = 0,
     queued_runs = 0\<rparr>"

definition qgr_stream :: stream where
  "qgr_stream = \<lparr>stream_id = 1, cmd_index = 8, extra_args = Slot 0, rate = 20, time_remaining = 5,
     queued_runs = 1\<rparr>"

definition qgr_streams :: streams where
  "qgr_streams = \<lparr>g_stream_table = [qgr_stream, unused_stream, unused_stream, unused_stream],
     g_stream_args = [''tttttpapapat'', [], [], [], [], [], [], []]\<rparr>"

lemma qgr_streams_inv: "stream_inv foot_dialect 4 qgr_streams"
proof -
  have "entry_ok foot_dialect (g_stream_args qgr_streams) qgr_stream"
    by (simp add: entry_ok_def qgr_stream_def qgr_streams_def foot_dialect_def word_le_nat_alt)
  moreover have "entry_ok foot_dialect slots unused_stream" "pair_ok y unused_stream" "pair_ok unused_stream y"
    for slots y by (simp_all add: entry_ok_def pair_ok_def unused_stream_def)
  ultimately have "table_ok foot_dialect qgr_streams"
    unfolding table_ok_def qgr_streams_def by (auto simp: nth_Cons split: nat.splits)
  moreover have "slots_ok qgr_streams"
    by (auto simp: slots_ok_def qgr_streams_def qgr_stream_def nth_Cons split: nat.splits)
  ultimately show ?thesis by (simp add: stream_inv_def qgr_streams_def)
qed

definition started_foot :: foot where
  "started_foot = \<lparr>g_timer = 0, g_main_loop_count = 0, streams_of = qgr_streams, i2c_bus = released_bus,
     serial = serial_ring_init, line_buf = [], eeprom_word = 0, txd = []\<rparr>"

lemma started_foot_inv: "foot_inv started_foot"
  using qgr_streams_inv released_bus_idle
  by (simp add: foot_inv_def started_foot_def ring_invar_def serial_ring_init_def)

theorem handle_line_overrun_iff_witness:
  "foot_inv started_foot \<and> bad_line ''PNGx'' started_foot \<and>
   handle_line slave_pins ''foot v0.1 r42'' ''PNGx'' started_foot = Overrun"
  using handle_line_overrun_iff [OF started_foot_inv, of "''PNGx''" "''foot v0.1 r42''" slave_pins]
    started_foot_inv
  by (simp add: bad_line_def MAGIC_OVERRUN_CODE_def)

lemma toupper_a: "toupper CHR ''a'' = CHR ''A''"
proof -
  have o: "ord CHR ''a'' = 97" "ord CHR ''A'' = 65" by (simp_all add: ord_def)
  then have "toupper CHR ''a'' = chr (ord CHR ''A'')" by (simp add: toupper_def word_le_nat_alt)
  then show ?thesis by simp
qed

theorem stream_poll_overrun_iff_witness:
  "foot_inv started_foot \<and> stream_poll slave_pins ''foot v0.1 r42'' started_foot = Overrun"
proof -
  define s1 where "s1 = started_foot\<lparr>streams_of := take_run 0 (streams_of started_foot)\<rparr>"
  define x where "x = g_stream_table (streams_of s1) ! 0"
  have nr: "next_run (streams_of started_foot) = Some 0"
    by (simp add: next_run_def started_foot_def qgr_streams_def qgr_stream_def)
  have x: "cmd_index x = 8" "args_text (extra_args x) (streams_of s1) = ''tttttpapapat''"
    by (simp_all add: x_def s1_def take_run_def started_foot_def qgr_streams_def qgr_stream_def args_text_def)
  have "\<exists>out. cmd_qgr slave_pins ''tttttpapapat'' 53 53 s1 = Ret (0, out, s1) \<and> length out = 51"
    by (simp add: cmd_qgr_def toupper_a outcome_simps)
  then show ?thesis
    using stream_poll_overrun_iff [OF started_foot_inv nr s1_def x_def, of slave_pins "''foot v0.1 r42''"]
      started_foot_inv x by auto
qed

theorem stream_rate_witness:
  "stream_inv foot_dialect 4 qgr_streams \<and>
   queued_runs (g_stream_table ((stream_timer_update ^^ 50) qgr_streams) ! 0) = 4"
  using qgr_streams_inv stream_rate [OF qgr_streams_inv, of 0 50]
  by (simp add: qgr_streams_def qgr_stream_def runs_after_def)

text \<open>The answer to a ping on the wire: the foot sends the frames of the text
  \<open><PNG OK\<close> with its line end, whatever its state.\<close>

theorem ping_answer:
  "\<exists>s'. handle_line pin version ''PNG'' s = Ret s' \<and>
     txd s' = txd s @ concat (map (uart_frame \<circ> ord) (''<PNG OK'' @ EOL))"
proof -
  have send: "txd (software_send t s) = txd s @ concat (map (uart_frame \<circ> ord) t)" for t
    using write_string_frames [of t "PORTB (i2c_bus s)"]
    by (auto simp: software_send_def split: prod.splits)
  have "handle_line pin version ''PNG'' s = Ret (software_send (''<PNG OK'' @ EOL) s)"
    by (simp add: handle_line_def line_output_def MAGIC_OVERRUN_CODE_def find_message_index_def
        foot_dialect_def call_command_def cmd_png_def STR_OK_def EOL_def outcome_simps)
  then show ?thesis using send by blast
qed

end
