(* ===== verification/UsbSerial.thy ===== *)
theory UsbSerial
  imports Prelude
begin

unbundle bit_operations_syntax

text \<open>
  The USB serial driver of the panel, \<^verbatim>\<open>hw/panel_qual/firmware/usb_serial.c\<close> with the macros of
  \<^verbatim>\<open>usb_serial.h\<close>, for the parts with 64-byte endpoints (the Makefile builds for the AT90USB1286).

  The driver talks to the USB controller through registers. The controller and the host behind it are
  not code of the repository: they are the parameter \<open>dev\<close>, which gives the value a read of a register
  yields after the accesses made so far (\<open>usb_bus\<close>, oldest first); so the answer may change from one
  read to the next. Writes only extend the history. The firmware calls the two interrupt handlers from
  \<open>usb_poll\<close>, between turns of its main loop, so nothing else changes the variables of the driver while
  one of its functions runs.

  The waits of the driver end only when the controller is ready; \<open>fuel\<close> bounds the number of polls of
  each wait, and \<open>Spin\<close> is the outcome of a wait that needs more. The theorems state which answers of
  the controller let a function return, and with which fuel.
\<close>

section \<open>Registers and state\<close>

datatype reg = UEINTX | UENUM | UEDATX | UEBCLX | UDFNUML | UDINT | UECONX | UECFG0X | UECFG1X | UERST
  | UDADDR | UDCON | USBCON | UHWCON | PLLCSR

datatype usb_event = Rd reg u8 | Wr reg u8

type_synonym dev = "usb_event list \<Rightarrow> reg \<Rightarrow> u8"

record usb =
  usb_configuration :: u8
  transmit_flush_timer :: u8
  transmit_previous_timeout :: u8
  cdc_line_coding :: "u8 list"
  cdc_line_rtsdtr :: u8
  usb_bus :: "usb_event list"

definition usb_start :: usb where
  "usb_start = \<lparr>usb_configuration = 0, transmit_flush_timer = 0, transmit_previous_timeout = 0,
     cdc_line_coding = [0x00, 0xE1, 0x00, 0x00, 0x00, 0x00, 0x08], cdc_line_rtsdtr = 0, usb_bus = []\<rparr>"

text \<open>A read and a write of a register.\<close>

definition rd :: "dev \<Rightarrow> reg \<Rightarrow> usb \<Rightarrow> u8 \<times> usb" where
  "rd dev r s = (let v = dev (usb_bus s) r in (v, s\<lparr>usb_bus := usb_bus s @ [Rd r v]\<rparr>))"

definition wr :: "reg \<Rightarrow> u8 \<Rightarrow> usb \<Rightarrow> usb" where
  "wr r v s = s\<lparr>usb_bus := usb_bus s @ [Wr r v]\<rparr>"

definition wr_all :: "u8 list \<Rightarrow> usb \<Rightarrow> usb" where
  "wr_all vs s = fold (wr UEDATX) vs s"

text \<open>The bits of \<open>UEINTX\<close> and of \<open>UDINT\<close> that the driver uses.\<close>

abbreviation TXINI :: nat where "TXINI \<equiv> 0"
abbreviation RXOUTI :: nat where "RXOUTI \<equiv> 2"
abbreviation RXSTPI :: nat where "RXSTPI \<equiv> 3"
abbreviation RWAL :: nat where "RWAL \<equiv> 5"
abbreviation SOFI :: nat where "SOFI \<equiv> 2"
abbreviation EORSTI :: nat where "EORSTI \<equiv> 3"

definition STALL :: u8 where "STALL = push_bit 5 1 OR push_bit 0 1"

definition EP_SIZE :: "nat \<Rightarrow> u8" where
  "EP_SIZE n = (if n = 64 then 0x30 else if n = 32 then 0x20 else if n = 16 then 0x10 else 0)"

definition EP_SINGLE_BUFFER :: u8 where "EP_SINGLE_BUFFER = 0x02"
definition EP_DOUBLE_BUFFER :: u8 where "EP_DOUBLE_BUFFER = 0x06"

definition endpoint_config_table :: "u8 list" where
  "endpoint_config_table =
     [0,
      1, 0xC1, EP_SIZE 16 OR EP_SINGLE_BUFFER,
      1, 0x80, EP_SIZE 64 OR EP_DOUBLE_BUFFER,
      1, 0x81, EP_SIZE 64 OR EP_DOUBLE_BUFFER]"

section \<open>Descriptors\<close>

definition LSB :: "u16 \<Rightarrow> u8" where "LSB n = ucast (n AND 255)"
definition MSB :: "u16 \<Rightarrow> u8" where "MSB n = ucast (drop_bit 8 n AND 255)"

definition device_descriptor :: "u8 list" where
  "device_descriptor =
     [18, 1, 0x00, 0x02, 2, 0, 0, 16, LSB 0x16C0, MSB 0x16C0, LSB 0x047A, MSB 0x047A, 0x00, 0x01,
      1, 2, 3, 1]"

definition CONFIG1_DESC_SIZE :: u16 where
  "CONFIG1_DESC_SIZE = 9 + 9 + 5 + 5 + 4 + 5 + 7 + 9 + 7 + 7"

text \<open>A configuration, an interface with its three functional descriptors and one endpoint, and an
  interface with two endpoints.\<close>

definition config1_descriptor :: "u8 list" where
  "config1_descriptor =
     [9, 2, LSB CONFIG1_DESC_SIZE, MSB CONFIG1_DESC_SIZE, 2, 1, 0, 0xC0, 50,
      9, 4, 0, 0, 1, 0x02, 0x02, 0x01, 0,
      5, 0x24, 0x00, 0x10, 0x01,
      5, 0x24, 0x01, 0x01, 1,
      4, 0x24, 0x02, 0x06,
      5, 0x24, 0x06, 0, 1,
      7, 5, 2 OR 0x80, 0x03, 16, 0, 64,
      9, 4, 1, 0, 2, 0x0A, 0x00, 0x00, 0,
      7, 5, 3, 0x02, 64, 0, 0,
      7, 5, 4 OR 0x80, 0x02, 64, 0, 0]"

text \<open>A string descriptor: the first \<open>sizeof\<close> bytes of the structure, which are the length, the type
  and the 16-bit characters without their terminator.\<close>

definition string_descriptor :: "string \<Rightarrow> u8 list" where
  "string_descriptor str =
     [of_nat (2 * (length str + 1)), 3] @ concat (map (\<lambda>c. [ord c, 0]) str)"

definition string0 :: "u8 list" where "string0 = [4, 3, LSB 0x0409, MSB 0x0409]"

text \<open>\<open>product\<close> is \<open>STR_PRODUCT\<close>, which ends with a flag of the build.\<close>

definition descriptor_list :: "string \<Rightarrow> (u16 \<times> u16 \<times> u8 list) list" where
  "descriptor_list product =
     [(0x0100, 0x0000, device_descriptor),
      (0x0200, 0x0000, config1_descriptor),
      (0x0300, 0x0000, string0),
      (0x0301, 0x0409, string_descriptor ''JoshPieper''),
      (0x0302, 0x0409, string_descriptor product),
      (0x0303, 0x0409, string_descriptor ''1'')]"

fun find_descriptor :: "u16 \<Rightarrow> u16 \<Rightarrow> (u16 \<times> u16 \<times> u8 list) list \<Rightarrow> u8 list option" where
  "find_descriptor wValue wIndex [] = None"
| "find_descriptor wValue wIndex ((v, i, d) # rest) =
     (if v \<noteq> wValue then find_descriptor wValue wIndex rest
      else if i \<noteq> wIndex then find_descriptor wValue wIndex rest
      else Some d)"

section \<open>Set-up and receiving\<close>

text \<open>Polls a register until one of the bits of \<open>mask\<close> is set; the value read last.\<close>

fun wait_for :: "dev \<Rightarrow> reg \<Rightarrow> u8 \<Rightarrow> nat \<Rightarrow> usb \<Rightarrow> (u8 \<times> usb) outcome" where
  "wait_for dev r m 0 s = Spin"
| "wait_for dev r m (Suc n) s =
     (let (i, s) = rd dev r s in if i AND m \<noteq> 0 then Ret (i, s) else wait_for dev r m n s)"

definition usb_init :: "dev \<Rightarrow> nat \<Rightarrow> usb \<Rightarrow> usb outcome" where
  "usb_init dev fuel s =
     (let s = wr UHWCON 0x81 s;
          s = wr USBCON (push_bit 7 1 OR push_bit 5 1) s;
          s = wr PLLCSR 0x16 s
      in obind (wait_for dev PLLCSR (push_bit 0 1) fuel s) (\<lambda>(_, s).
           let s = wr USBCON (push_bit 7 1 OR push_bit 4 1) s;
               s = wr UDCON 0 s
           in Ret (s\<lparr>usb_configuration := 0, cdc_line_rtsdtr := 0\<rparr>)))"

definition usb_configured :: "usb \<Rightarrow> u8" where
  "usb_configured s = usb_configuration s"

fun getchar_retry :: "dev \<Rightarrow> nat \<Rightarrow> usb \<Rightarrow> (int \<times> usb) outcome" where
  "getchar_retry dev 0 s = Spin"
| "getchar_retry dev (Suc n) s =
     (let (c, s) = rd dev UEINTX s
      in if \<not> bit_test c RWAL
         then (if bit_test c RXOUTI then getchar_retry dev n (wr UEINTX 0x6B s) else Ret (-1, s))
         else
           (let (c, s) = rd dev UEDATX s;
                (i, s) = rd dev UEINTX s;
                s = (if \<not> bit_test i RWAL then wr UEINTX 0x6B s else s)
            in Ret (uint c, s)))"

definition usb_serial_getchar :: "dev \<Rightarrow> nat \<Rightarrow> usb \<Rightarrow> (int \<times> usb) outcome" where
  "usb_serial_getchar dev fuel s =
     (if usb_configuration s = 0 then Ret (-1, s) else getchar_retry dev fuel (wr UENUM 3 s))"

definition usb_serial_available :: "dev \<Rightarrow> usb \<Rightarrow> u8 \<times> usb" where
  "usb_serial_available dev s =
     (if usb_configuration s \<noteq> 0
      then
        (let s = wr UENUM 3 s;
             (n, s) = rd dev UEBCLX s
         in if n = 0
            then (let (i, s) = rd dev UEINTX s
                  in (n, if bit_test i RXOUTI \<and> \<not> bit_test i RWAL then wr UEINTX 0x6B s else s))
            else (n, s))
      else (0, s))"

fun flush_loop :: "dev \<Rightarrow> nat \<Rightarrow> usb \<Rightarrow> usb outcome" where
  "flush_loop dev 0 s = Spin"
| "flush_loop dev (Suc n) s =
     (let (i, s) = rd dev UEINTX s
      in if bit_test i RWAL then flush_loop dev n (wr UEINTX 0x6B s) else Ret s)"

definition usb_serial_flush_input :: "dev \<Rightarrow> nat \<Rightarrow> usb \<Rightarrow> usb outcome" where
  "usb_serial_flush_input dev fuel s =
     (if usb_configuration s \<noteq> 0 then flush_loop dev fuel (wr UENUM 3 s) else Ret s)"

section \<open>Transmitting\<close>

text \<open>The wait for room in the transmit buffer: \<open>True\<close> when there is room, \<open>False\<close> when the functions
  give up and return -1.\<close>

fun tx_wait :: "dev \<Rightarrow> u8 \<Rightarrow> nat \<Rightarrow> usb \<Rightarrow> (bool \<times> usb) outcome" where
  "tx_wait dev timeout 0 s = Spin"
| "tx_wait dev timeout (Suc n) s =
     (let (i, s) = rd dev UEINTX s
      in if bit_test i RWAL then Ret (True, s)
         else
           (let (f, s) = rd dev UDFNUML s
            in if f = timeout then Ret (False, s\<lparr>transmit_previous_timeout := 1\<rparr>)
               else if usb_configuration s = 0 then Ret (False, s)
               else tx_wait dev timeout n (wr UENUM 4 s)))"

text \<open>The start that \<open>usb_serial_putchar\<close> and \<open>usb_serial_write\<close> share; \<open>False\<close> when they return -1.\<close>

definition tx_start :: "dev \<Rightarrow> usb \<Rightarrow> bool \<times> usb" where
  "tx_start dev s =
     (if usb_configuration s = 0 then (False, s)
      else
        (let s = wr UENUM 4 s
         in if transmit_previous_timeout s \<noteq> 0
            then (let (i, s) = rd dev UEINTX s
                  in if \<not> bit_test i RWAL then (False, s) else (True, s\<lparr>transmit_previous_timeout := 0\<rparr>))
            else (True, s)))"

definition TRANSMIT_FLUSH_TIMEOUT :: u8 where "TRANSMIT_FLUSH_TIMEOUT = 5"
definition TRANSMIT_TIMEOUT :: u8 where "TRANSMIT_TIMEOUT = 25"

text \<open>The end they share: a full packet is released at once, and the flush timer is started.\<close>

definition tx_finish :: "dev \<Rightarrow> usb \<Rightarrow> usb" where
  "tx_finish dev s =
     (let (i, s) = rd dev UEINTX s;
          s = (if \<not> bit_test i RWAL then wr UEINTX 0x3A s else s)
      in s\<lparr>transmit_flush_timer := TRANSMIT_FLUSH_TIMEOUT\<rparr>)"

definition usb_serial_putchar :: "dev \<Rightarrow> nat \<Rightarrow> u8 \<Rightarrow> usb \<Rightarrow> (int \<times> usb) outcome" where
  "usb_serial_putchar dev fuel c s =
     (let (ok, s) = tx_start dev s
      in if \<not> ok then Ret (-1, s)
         else
           (let (f, s) = rd dev UDFNUML s
            in obind (tx_wait dev (f + TRANSMIT_TIMEOUT) fuel s) (\<lambda>(ok, s).
                 if \<not> ok then Ret (-1, s) else Ret (0, tx_finish dev (wr UEDATX c s)))))"

definition usb_serial_putchar_nowait :: "dev \<Rightarrow> u8 \<Rightarrow> usb \<Rightarrow> int \<times> usb" where
  "usb_serial_putchar_nowait dev c s =
     (if usb_configuration s = 0 then (-1, s)
      else
        (let (i, s) = rd dev UEINTX (wr UENUM 4 s)
         in if \<not> bit_test i RWAL then (-1, s) else (0, tx_finish dev (wr UEDATX c s))))"

text \<open>The \<open>switch\<close> of \<open>usb_serial_write\<close>: the case label is the number of bytes copied, and a label
  above 64 runs the default case, which copies one byte. Reading past the end of the buffer is
  the outcome \<open>Overrun\<close>.\<close>

definition copy_packet :: "u8 \<Rightarrow> u8 list \<Rightarrow> usb \<Rightarrow> (u8 list \<times> usb) outcome" where
  "copy_packet write_size buffer s =
     (let n = (if write_size \<le> 64 then unat write_size else 1)
      in if n \<le> length buffer then Ret (drop n buffer, wr_all (take n buffer) s) else Overrun)"

text \<open>How many bytes fit into the next packet when it has \<open>n\<close> already.\<close>

definition next_write :: "u8 \<Rightarrow> u16 \<Rightarrow> u8" where
  "next_write n size' = (let w = 64 - n in if ucast w > size' then ucast size' else w)"

text \<open>Each turn of the outer loop fills a packet; \<open>turns\<close> bounds their number.\<close>

fun write_packets :: "dev \<Rightarrow> nat \<Rightarrow> nat \<Rightarrow> u8 list \<Rightarrow> u16 \<Rightarrow> usb \<Rightarrow> (int \<times> usb) outcome" where
  "write_packets dev fuel 0 buffer size' s = (if size' = 0 then Ret (0, s) else Spin)"
| "write_packets dev fuel (Suc turns) buffer size' s =
     (if size' = 0 then Ret (0, s)
      else
        (let (f, s) = rd dev UDFNUML s
         in obind (tx_wait dev (f + TRANSMIT_TIMEOUT) fuel s) (\<lambda>(ok, s).
              if \<not> ok then Ret (-1, s)
              else
                (let (n, s) = rd dev UEBCLX s;
                     w = next_write n size'
                 in obind (copy_packet w buffer s) (\<lambda>(buffer, s).
                      write_packets dev fuel turns buffer (size' - ucast w) (tx_finish dev s))))))"

definition usb_serial_write :: "dev \<Rightarrow> nat \<Rightarrow> nat \<Rightarrow> u8 list \<Rightarrow> u16 \<Rightarrow> usb \<Rightarrow> (int \<times> usb) outcome" where
  "usb_serial_write dev fuel turns buffer size' s =
     (let (ok, s) = tx_start dev s
      in if \<not> ok then Ret (-1, s) else write_packets dev fuel turns buffer size' s)"

definition usb_serial_flush_output :: "usb \<Rightarrow> usb" where
  "usb_serial_flush_output s =
     (if transmit_flush_timer s \<noteq> 0
      then (wr UEINTX 0x3A (wr UENUM 4 s))\<lparr>transmit_flush_timer := 0\<rparr> else s)"

section \<open>Serial settings\<close>

text \<open>The processor reads the first four bytes as a little-endian number.\<close>

definition usb_serial_get_baud :: "usb \<Rightarrow> u32" where
  "usb_serial_get_baud s =
     (let c = cdc_line_coding s
      in ucast (c ! 0) OR push_bit 8 (ucast (c ! 1)) OR push_bit 16 (ucast (c ! 2)) OR push_bit 24 (ucast (c ! 3)))"

definition usb_serial_get_stopbits :: "usb \<Rightarrow> u8" where
  "usb_serial_get_stopbits s = cdc_line_coding s ! 4"

definition usb_serial_get_paritytype :: "usb \<Rightarrow> u8" where
  "usb_serial_get_paritytype s = cdc_line_coding s ! 5"

definition usb_serial_get_numbits :: "usb \<Rightarrow> u8" where
  "usb_serial_get_numbits s = cdc_line_coding s ! 6"

definition usb_serial_get_control :: "usb \<Rightarrow> u8" where
  "usb_serial_get_control s = cdc_line_rtsdtr s"

definition usb_serial_set_control :: "dev \<Rightarrow> u8 \<Rightarrow> usb \<Rightarrow> int \<times> usb" where
  "usb_serial_set_control dev signals s =
     (if usb_configuration s = 0 then (-1, s)
      else
        (let (i, s) = rd dev UEINTX (wr UENUM 2 s)
         in if \<not> bit_test i RWAL then (-1, s)
            else (0, wr UEINTX 0x3A (wr_all [0xA1, 0x20, 0, 0, 0, 0, 1, 0, signals] s))))"

section \<open>Device events\<close>

definition isr_USB_GEN_vect :: "dev \<Rightarrow> usb \<Rightarrow> usb" where
  "isr_USB_GEN_vect dev s =
     (let (intbits, s) = rd dev UDINT s;
          s = wr UDINT 0 s;
          s = (if bit_test intbits EORSTI
               then (let s = wr UENUM 0 s; s = wr UECONX 1 s; s = wr UECFG0X 0 s;
                         s = wr UECFG1X (EP_SIZE 16 OR EP_SINGLE_BUFFER) s
                     in s\<lparr>usb_configuration := 0, cdc_line_rtsdtr := 0\<rparr>)
               else s)
      in if bit_test intbits SOFI \<and> usb_configuration s \<noteq> 0 \<and> transmit_flush_timer s \<noteq> 0
         then
           (let t = transmit_flush_timer s - 1;
                s = s\<lparr>transmit_flush_timer := t\<rparr>
            in if t = 0 then wr UEINTX 0x3A (wr UENUM 4 s) else s)
         else s)"

section \<open>Control requests\<close>

record setup_packet =
  bmRequestType :: u8
  bRequest :: u8
  wValue :: u16
  wIndex :: u16
  wLength :: u16

definition usb_wait_in_ready :: "dev \<Rightarrow> nat \<Rightarrow> usb \<Rightarrow> usb outcome" where
  "usb_wait_in_ready dev fuel s = obind (wait_for dev UEINTX (push_bit TXINI 1) fuel s) (\<lambda>(_, s). Ret s)"

definition usb_send_in :: "usb \<Rightarrow> usb" where
  "usb_send_in s = wr UEINTX (NOT (push_bit TXINI 1)) s"

definition usb_wait_receive_out :: "dev \<Rightarrow> nat \<Rightarrow> usb \<Rightarrow> usb outcome" where
  "usb_wait_receive_out dev fuel s = obind (wait_for dev UEINTX (push_bit RXOUTI 1) fuel s) (\<lambda>(_, s). Ret s)"

definition usb_ack_out :: "usb \<Rightarrow> usb" where
  "usb_ack_out s = wr UEINTX (NOT (push_bit RXOUTI 1)) s"

definition usb_stall :: "usb \<Rightarrow> usb" where
  "usb_stall s = wr UECONX STALL s"

text \<open>Reading the eight bytes of the setup packet; 16-bit values come low byte first.\<close>

definition rd_word :: "dev \<Rightarrow> usb \<Rightarrow> u16 \<times> usb" where
  "rd_word dev s =
     (let (lo, s) = rd dev UEDATX s; (hi, s) = rd dev UEDATX s in (ucast lo OR push_bit 8 (ucast hi), s))"

definition read_setup :: "dev \<Rightarrow> usb \<Rightarrow> setup_packet \<times> usb" where
  "read_setup dev s =
     (let (t, s) = rd dev UEDATX s; (r, s) = rd dev UEDATX s;
          (v, s) = rd_word dev s; (i, s) = rd_word dev s; (l, s) = rd_word dev s
      in (\<lparr>bmRequestType = t, bRequest = r, wValue = v, wIndex = i, wLength = l\<rparr>, s))"

text \<open>Sending a descriptor in packets of 16 bytes, the last one shorter (possibly empty). An OUT packet
  of the host ends the transfer.\<close>

lemma packet_decreases:
  fixes len :: u8
  assumes "len - (if len < 16 then len else 16) \<noteq> 0 \<or> (if len < 16 then len else 16) = 16"
  shows "unat (len - (if len < 16 then len else 16)) < unat len"
  using assms by (auto split: if_splits) (simp_all add: unat_sub word_le_nat_alt word_less_nat_alt not_less)

function send_descriptor :: "dev \<Rightarrow> nat \<Rightarrow> u8 \<Rightarrow> u8 list \<Rightarrow> usb \<Rightarrow> usb outcome" where
  "send_descriptor dev fuel len data s =
     (case wait_for dev UEINTX (push_bit TXINI 1 OR push_bit RXOUTI 1) fuel s of
        Overrun \<Rightarrow> Overrun
      | Spin \<Rightarrow> Spin
      | Ret (i, s) \<Rightarrow>
          if bit_test i RXOUTI then Ret s
          else
            (let n = (if len < 16 then len else 16);
                 s = usb_send_in (wr_all (take (unat n) data) s)
             in if len - n \<noteq> 0 \<or> n = 16 then send_descriptor dev fuel (len - n) (drop (unat n) data) s
                else Ret s))"
  by pat_completeness auto
termination
  by (relation "measure (\<lambda>(_, _, len, _, _). unat len)") (use packet_decreases in auto)

declare send_descriptor.simps [simp del]

definition get_descriptor :: "dev \<Rightarrow> string \<Rightarrow> nat \<Rightarrow> setup_packet \<Rightarrow> usb \<Rightarrow> usb outcome" where
  "get_descriptor dev product fuel q s =
     (case find_descriptor (wValue q) (wIndex q) (descriptor_list product) of
        None \<Rightarrow> Ret (usb_stall s)
      | Some d \<Rightarrow>
          (let len = (if wLength q < 256 then ucast (wLength q) else 255);
               desc_length = of_nat (length d);
               len = (if len > desc_length then desc_length else len)
           in send_descriptor dev fuel len d s))"

text \<open>Configuring the endpoints from the table.\<close>

fun config_endpoints :: "nat \<Rightarrow> u8 \<Rightarrow> u8 list \<Rightarrow> usb \<Rightarrow> usb" where
  "config_endpoints 0 i cfg s = s"
| "config_endpoints (Suc n) i cfg s =
     (let s = wr UENUM i s; en = hd cfg; cfg = tl cfg; s = wr UECONX en s
      in if en \<noteq> 0
         then config_endpoints n (i + 1) (drop 2 cfg) (wr UECFG1X (cfg ! 1) (wr UECFG0X (cfg ! 0) s))
         else config_endpoints n (i + 1) cfg s)"

definition set_configuration :: "setup_packet \<Rightarrow> usb \<Rightarrow> usb" where
  "set_configuration q s =
     (let s = usb_send_in (s\<lparr>usb_configuration := ucast (wValue q), cdc_line_rtsdtr := 0, transmit_flush_timer := 0\<rparr>);
          s = config_endpoints 4 1 endpoint_config_table s
      in wr UERST 0 (wr UERST 0x1E s))"

fun read_coding :: "dev \<Rightarrow> nat \<Rightarrow> usb \<Rightarrow> u8 list \<times> usb" where
  "read_coding dev 0 s = ([], s)"
| "read_coding dev (Suc n) s =
     (let (v, s) = rd dev UEDATX s; (vs, s) = read_coding dev n s in (v # vs, s))"

definition set_line_coding :: "dev \<Rightarrow> nat \<Rightarrow> usb \<Rightarrow> usb outcome" where
  "set_line_coding dev fuel s =
     obind (usb_wait_receive_out dev fuel s) (\<lambda>s.
       let (vs, s) = read_coding dev 7 s
       in Ret (usb_send_in (usb_ack_out (s\<lparr>cdc_line_coding := vs\<rparr>))))"

definition get_status :: "dev \<Rightarrow> nat \<Rightarrow> setup_packet \<Rightarrow> usb \<Rightarrow> usb outcome" where
  "get_status dev fuel q s =
     obind (usb_wait_in_ready dev fuel s) (\<lambda>s.
       let (i, s) = (if bmRequestType q = 0x82
                     then (let (c, s) = rd dev UECONX (wr UENUM (ucast (wIndex q)) s)
                           in (if bit_test c 5 then 1 else 0, wr UENUM 0 s))
                     else (0, s))
       in Ret (usb_send_in (wr_all [i, 0] s)))"

text \<open>Halting or resuming an endpoint; endpoints outside of 1 to 4 are refused.\<close>

definition endpoint_halt :: "setup_packet \<Rightarrow> usb \<Rightarrow> usb" where
  "endpoint_halt q s =
     (let i = ucast (wIndex q AND 0x7F)
      in if 1 \<le> i \<and> i \<le> 4
         then
           (let s = wr UENUM i (usb_send_in s)
            in if bRequest q = 3 then wr UECONX STALL s
               else wr UERST 0 (wr UERST (push_bit (unat i) 1) (wr UECONX (push_bit 4 1 OR push_bit 3 1 OR push_bit 0 1) s)))
         else usb_stall s)"

definition handle_setup :: "dev \<Rightarrow> string \<Rightarrow> nat \<Rightarrow> setup_packet \<Rightarrow> usb \<Rightarrow> usb outcome" where
  "handle_setup dev product fuel q s =
     (if bRequest q = 6 then get_descriptor dev product fuel q s
      else if bRequest q = 5
      then obind (usb_wait_in_ready dev fuel (usb_send_in s)) (\<lambda>s. Ret (wr UDADDR (ucast (wValue q) OR push_bit 7 1) s))
      else if bRequest q = 9 \<and> bmRequestType q = 0 then Ret (set_configuration q s)
      else if bRequest q = 8 \<and> bmRequestType q = 0x80
      then obind (usb_wait_in_ready dev fuel s) (\<lambda>s. Ret (usb_send_in (wr UEDATX (usb_configuration s) s)))
      else if bRequest q = 0x21 \<and> bmRequestType q = 0xA1
      then obind (usb_wait_in_ready dev fuel s) (\<lambda>s. Ret (usb_send_in (wr_all (cdc_line_coding s) s)))
      else if bRequest q = 0x20 \<and> bmRequestType q = 0x21 then set_line_coding dev fuel s
      else if bRequest q = 0x22 \<and> bmRequestType q = 0x21
      then obind (usb_wait_in_ready dev fuel (s\<lparr>cdc_line_rtsdtr := ucast (wValue q)\<rparr>)) (\<lambda>s. Ret (usb_send_in s))
      else if bRequest q = 0 then get_status dev fuel q s
      else if (bRequest q = 1 \<or> bRequest q = 3) \<and> bmRequestType q = 0x02 \<and> wValue q = 0
      then Ret (endpoint_halt q s)
      else Ret (usb_stall s))"

definition isr_USB_COM_vect :: "dev \<Rightarrow> string \<Rightarrow> nat \<Rightarrow> usb \<Rightarrow> usb outcome" where
  "isr_USB_COM_vect dev product fuel s =
     (let (intbits, s) = rd dev UEINTX (wr UENUM 0 s)
      in if bit_test intbits RXSTPI
         then
           (let (q, s) = read_setup dev s
            in handle_setup dev product fuel q
                 (wr UEINTX (NOT (push_bit RXSTPI 1 OR push_bit RXOUTI 1 OR push_bit TXINI 1)) s))
         else Ret (usb_stall s))"

definition usb_poll :: "dev \<Rightarrow> string \<Rightarrow> nat \<Rightarrow> usb \<Rightarrow> usb outcome" where
  "usb_poll dev product fuel s =
     (let (u, s) = rd dev UDINT (wr UENUM 0 s);
          s = (if u AND (push_bit 3 1 OR push_bit 2 1) \<noteq> 0 then isr_USB_GEN_vect dev s else s);
          (i, s) = rd dev UEINTX (wr UENUM 0 s)
      in if bit_test i 3 then isr_USB_COM_vect dev product fuel s else Ret s)"

section \<open>What register accesses leave alone\<close>

lemma wr_fields [simp]:
  "usb_configuration (wr r v s) = usb_configuration s"
  "transmit_flush_timer (wr r v s) = transmit_flush_timer s"
  "transmit_previous_timeout (wr r v s) = transmit_previous_timeout s"
  "cdc_line_coding (wr r v s) = cdc_line_coding s"
  "cdc_line_rtsdtr (wr r v s) = cdc_line_rtsdtr s"
  "usb_bus (wr r v s) = usb_bus s @ [Wr r v]"
  by (simp_all add: wr_def)

text \<open>Two driver states that differ only in the history of accesses.\<close>

definition same_vars :: "usb \<Rightarrow> usb \<Rightarrow> bool" where
  "same_vars s s' \<longleftrightarrow> s' = s\<lparr>usb_bus := usb_bus s'\<rparr>"

lemma same_vars_refl [simp]: "same_vars s s"
  by (simp add: same_vars_def)

lemma same_vars_trans: "same_vars s t \<Longrightarrow> same_vars t u \<Longrightarrow> same_vars s u"
  unfolding same_vars_def by (metis usb.unfold_congs(6) usb.surjective usb.update_convs(6))

lemma same_vars_wr [simp]: "same_vars s (wr r v s)"
  by (simp add: same_vars_def wr_def)

lemma same_vars_bus [simp]: "same_vars s (s\<lparr>usb_bus := b\<rparr>)"
  by (simp add: same_vars_def)

lemma same_vars_fields:
  assumes "same_vars s s'"
  shows "usb_configuration s' = usb_configuration s" "transmit_flush_timer s' = transmit_flush_timer s"
    "transmit_previous_timeout s' = transmit_previous_timeout s" "cdc_line_coding s' = cdc_line_coding s"
    "cdc_line_rtsdtr s' = cdc_line_rtsdtr s"
  using assms unfolding same_vars_def by (metis usb.select_convs usb.surjective usb.update_convs(6))+

lemma wr_all_Nil [simp]: "wr_all [] s = s"
  by (simp add: wr_all_def)

lemma wr_all_bus: "wr_all vs s = s\<lparr>usb_bus := usb_bus s @ map (Wr UEDATX) vs\<rparr>"
  unfolding wr_all_def by (induction vs arbitrary: s) (simp_all add: wr_def)

section \<open>Waits\<close>

text \<open>The history after \<open>k\<close> polls of a register, and a controller that sets a bit of the mask within
  \<open>n\<close> polls, whatever happened before.\<close>

fun poll_hist :: "dev \<Rightarrow> reg \<Rightarrow> nat \<Rightarrow> usb_event list \<Rightarrow> usb_event list" where
  "poll_hist dev r 0 h = h"
| "poll_hist dev r (Suc k) h = poll_hist dev r k (h @ [Rd r (dev h r)])"

definition ready_within :: "dev \<Rightarrow> reg \<Rightarrow> u8 \<Rightarrow> nat \<Rightarrow> bool" where
  "ready_within dev r m n \<longleftrightarrow> (\<forall>h. \<exists>k < n. dev (poll_hist dev r k h) r AND m \<noteq> 0)"

lemma wait_for_ready:
  assumes "dev (poll_hist dev r k (usb_bus s)) r AND m \<noteq> 0" "k < n"
  shows "\<exists>h es. wait_for dev r m n s = Ret (dev h r, s\<lparr>usb_bus := usb_bus s @ es\<rparr>) \<and>
    dev h r AND m \<noteq> 0 \<and> (\<forall>e \<in> set es. \<exists>v. e = Rd r v)"
  using assms
proof (induction n arbitrary: k s)
  case (Suc n)
  let ?i = "dev (usb_bus s) r" and ?s = "s\<lparr>usb_bus := usb_bus s @ [Rd r (dev (usb_bus s) r)]\<rparr>"
  show ?case
  proof (cases "?i AND m = 0")
    case False
    then show ?thesis by (intro exI [of _ "usb_bus s"] exI [of _ "[Rd r ?i]"]) (simp add: rd_def Let_def)
  next
    case True
    with Suc.prems obtain j where j: "k = Suc j" by (cases k) auto
    have "dev (poll_hist dev r j (usb_bus ?s)) r AND m \<noteq> 0" "j < n" using Suc.prems j by simp_all
    from Suc.IH [OF this] obtain h es where
      "wait_for dev r m n ?s = Ret (dev h r, ?s\<lparr>usb_bus := usb_bus ?s @ es\<rparr>)"
      "dev h r AND m \<noteq> 0" "\<forall>e \<in> set es. \<exists>v. e = Rd r v" by blast
    with True show ?thesis
      by (intro exI [of _ h] exI [of _ "Rd r ?i # es"]) (simp add: rd_def Let_def)
  qed
qed simp

lemma wait_for_returns:
  assumes "ready_within dev r m n"
  obtains h es where "wait_for dev r m n s = Ret (dev h r, s\<lparr>usb_bus := usb_bus s @ es\<rparr>)"
    "dev h r AND m \<noteq> 0" "\<forall>e \<in> set es. \<exists>v. e = Rd r v"
  using assms wait_for_ready unfolding ready_within_def by blast

lemma wait_for_frame: "wait_for dev r m n s = Ret (i, s') \<Longrightarrow> same_vars s s'"
proof (induction n arbitrary: s)
  case (Suc n)
  then show ?case
    by (auto simp: rd_def Let_def split: if_splits intro: same_vars_trans [OF same_vars_bus])
qed simp

section \<open>Packets on the control endpoint\<close>

text \<open>The packets among a list of accesses: the bytes written before each \<open>usb_send_in\<close>. \<open>split16\<close> is the
  reference: packets of 16 bytes and a last one that is shorter, which ends the transfer.\<close>

fun packets :: "u8 list \<Rightarrow> usb_event list \<Rightarrow> u8 list list" where
  "packets acc [] = []"
| "packets acc (Wr UEDATX v # es) = packets (acc @ [v]) es"
| "packets acc (Wr UEINTX v # es) = (if v = 0xFE then acc # packets [] es else packets acc es)"
| "packets acc (_ # es) = packets acc es"

function split16 :: "u8 list \<Rightarrow> u8 list list" where
  "split16 xs = (if length xs < 16 then [xs] else take 16 xs # split16 (drop 16 xs))"
  by pat_completeness auto
termination by (relation "measure length") auto

declare split16.simps [simp del]

lemma concat_split16: "concat (split16 xs) = xs"
proof (induction xs rule: split16.induct)
  case (1 xs)
  then show ?case using split16.simps [of xs] by simp
qed

lemma packets_Rd: "packets acc (Rd r v # es) = packets acc es"
  by (cases r) auto

lemma packets_reads: "\<forall>e \<in> set es. \<exists>v. e = Rd r v \<Longrightarrow> packets acc (es @ fs) = packets acc fs"
  by (induction es) (auto simp: packets_Rd)

lemma packets_data: "packets acc (map (Wr UEDATX) vs @ fs) = packets (acc @ vs) fs"
  by (induction vs arbitrary: acc) auto

lemma send_in_code: "usb_send_in s = wr UEINTX 0xFE s"
  by (simp add: usb_send_in_def)

lemma send_descriptor_packets:
  assumes ready: "ready_within dev UEINTX (push_bit TXINI 1 OR push_bit RXOUTI 1) fuel"
    and no_out: "\<forall>h. \<not> bit_test (dev h UEINTX) RXOUTI"
    and len: "unat len \<le> length data"
  shows "\<exists>es. send_descriptor dev fuel len data s = Ret (s\<lparr>usb_bus := usb_bus s @ es\<rparr>) \<and>
    packets [] es = split16 (take (unat len) data)"
  using len
proof (induction "unat len" arbitrary: len data s rule: less_induct)
  case less
  obtain h es where
    w: "wait_for dev UEINTX (push_bit TXINI 1 OR push_bit RXOUTI 1) fuel s =
      Ret (dev h UEINTX, s\<lparr>usb_bus := usb_bus s @ es\<rparr>)" and
    es: "\<forall>e \<in> set es. \<exists>v. e = Rd UEINTX v"
    by (rule wait_for_returns [OF ready, of s])
  let ?n = "if len < 16 then len else 16"
  let ?ev = "es @ map (Wr UEDATX) (take (unat ?n) data) @ [Wr UEINTX 0xFE]"
  let ?s = "s\<lparr>usb_bus := usb_bus s @ ?ev\<rparr>"
  have step: "send_descriptor dev fuel len data s =
    (if len - ?n \<noteq> 0 \<or> ?n = 16 then send_descriptor dev fuel (len - ?n) (drop (unat ?n) data) ?s else Ret ?s)"
    using no_out by (subst send_descriptor.simps, subst w) (simp add: Let_def wr_all_bus send_in_code wr_def)
  show ?case
  proof (cases "len < 16")
    case True
    then have "unat len < 16" by (simp add: word_less_nat_alt)
    moreover from this have "unat len < 16" "length (take (unat len) data) < 16" by auto
    ultimately have "packets [] ?ev = split16 (take (unat len) data)"
      using True es by (simp add: packets_reads packets_data split16.simps [of "take (unat len) data"])
    with step True show ?thesis by (intro exI [of _ ?ev]) auto
  next
    case False
    then have l: "16 \<le> unat len" by (simp add: word_less_nat_alt not_less)
    have u: "unat (len - 16) = unat len - 16" using l by (simp add: unat_sub word_le_nat_alt)
    have "unat (len - 16) < unat len" "unat (len - 16) \<le> length (drop 16 data)"
      using u l less.prems by auto
    from less.hyps [OF this, of ?s] obtain fs where
      fs: "send_descriptor dev fuel (len - 16) (drop 16 data) ?s = Ret (?s\<lparr>usb_bus := usb_bus ?s @ fs\<rparr>)"
      "packets [] fs = split16 (take (unat (len - 16)) (drop 16 data))" by blast
    have "packets [] (?ev @ fs) = split16 (take (unat len) data)"
      using False es fs(2) l less.prems
      by (simp add: packets_reads packets_data split16.simps [of "take (unat len) data"] u min_absorb1 drop_take)
    with fs(1) step False show ?thesis by (intro exI [of _ "?ev @ fs"]) simp
  qed
qed

section \<open>Descriptors as the host reads them\<close>

text \<open>Enumeration: when the host asks for a descriptor of the list and keeps reading, the
  driver answers with the first \<open>wLength\<close> bytes of that descriptor (all of it when it is shorter), in
  packets of 16 bytes and a shorter last packet that ends the transfer, and nothing else of its state
  changes. The controller is assumed to have room for a packet within \<open>fuel\<close> polls and the host not
  to abort with an OUT packet.\<close>

theorem get_descriptor_packets:
  assumes "find_descriptor (wValue q) (wIndex q) (descriptor_list product) = Some d" "length d < 256"
    and "bRequest q = 6"
    and "ready_within dev UEINTX (push_bit TXINI 1 OR push_bit RXOUTI 1) fuel"
    and "\<forall>h. \<not> bit_test (dev h UEINTX) RXOUTI"
  shows "\<exists>es. handle_setup dev product fuel q s = Ret (s\<lparr>usb_bus := usb_bus s @ es\<rparr>) \<and>
    packets [] es = split16 (take (unat (wLength q)) d)"
proof -
  define len where "len = (if wLength q < 256 then ucast (wLength q) else 255 :: u8)"
  define l2 where "l2 = (if len > of_nat (length d) then of_nat (length d) else len)"
  have d: "unat (of_nat (length d) :: u8) = length d" using assms(2) by (simp add: unat_of_nat)
  have len: "unat len = min (unat (wLength q)) 255"
    by (auto simp: len_def word_less_nat_alt unsigned_ucast_eq take_bit_nat_eq_self)
  have l2: "unat l2 = min (unat (wLength q)) (length d)"
    using assms(2) by (auto simp: l2_def word_less_nat_alt d len)
  have "handle_setup dev product fuel q s = send_descriptor dev fuel l2 d s"
    using assms(1,3) by (simp add: handle_setup_def get_descriptor_def Let_def len_def [symmetric] l2_def)
  moreover have "take (unat l2) d = take (unat (wLength q)) d" by (simp add: l2 min_def)
  ultimately show ?thesis
    using send_descriptor_packets [OF assms(4,5), of l2 d s] l2 by simp
qed

text \<open>A controller that is always ready for an IN packet.\<close>

definition idle_host :: dev where
  "idle_host h r = (if r = UEINTX then 1 else 0)"

lemma idle_host_ready: "ready_within idle_host UEINTX (push_bit TXINI 1 OR push_bit RXOUTI 1) 1"
  "\<forall>h. \<not> bit_test (idle_host h UEINTX) RXOUTI"
  by (auto simp: ready_within_def idle_host_def bit_test_def)

theorem get_descriptor_packets_witness:
  "\<exists>es. handle_setup idle_host ''PQUAL-firmware'' 1
      \<lparr>bmRequestType = 0x80, bRequest = 6, wValue = 0x0100, wIndex = 0, wLength = 64\<rparr> usb_start =
        Ret (usb_start\<lparr>usb_bus := es\<rparr>) \<and>
    packets [] es = [[18, 1, 0, 2, 2, 0, 0, 16, 0xC0, 0x16, 0x7A, 0x04, 0, 1, 1, 2], [3, 1]]"
proof -
  let ?q = "\<lparr>bmRequestType = 0x80, bRequest = 6, wValue = 0x0100, wIndex = 0, wLength = 64\<rparr>"
  have f: "find_descriptor (wValue ?q) (wIndex ?q) (descriptor_list ''PQUAL-firmware'') = Some device_descriptor"
    by (simp add: descriptor_list_def)
  have d: "device_descriptor = [18, 1, 0, 2, 2, 0, 0, 16, 0xC0, 0x16, 0x7A, 0x04, 0, 1, 1, 2, 3, 1]"
    by (simp add: device_descriptor_def LSB_def MSB_def)
  have "split16 (take 64 device_descriptor) = [[18, 1, 0, 2, 2, 0, 0, 16, 0xC0, 0x16, 0x7A, 0x04, 0, 1, 1, 2], [3, 1]]"
    by (simp add: d split16.simps)
  moreover have "usb_bus usb_start = []" by (simp add: usb_start_def)
  moreover have "length device_descriptor < 256" by (simp add: d)
  ultimately show ?thesis
    using get_descriptor_packets [OF f _ _ idle_host_ready, of usb_start] by simp
qed

section \<open>Declared and configured endpoints agree\<close>

text \<open>The blocks of a descriptor, each with its length in its first byte; \<open>None\<close> when they do not fill
  the descriptor exactly.\<close>

fun desc_blocks :: "nat \<Rightarrow> u8 list \<Rightarrow> u8 list list option" where
  "desc_blocks _ [] = Some []"
| "desc_blocks 0 _ = None"
| "desc_blocks (Suc n) (l # xs) =
     (if l = 0 \<or> length xs + 1 < unat l then None
      else map_option (\<lambda>bs. take (unat l) (l # xs) # bs) (desc_blocks n (drop (unat l) (l # xs))))"

text \<open>Number, direction, transfer type and packet size of an endpoint, from its descriptor and from
  the values written to its configuration registers.\<close>

definition declared_endpoint :: "u8 list \<Rightarrow> u8 \<times> bool \<times> u8 \<times> nat" where
  "declared_endpoint b = (b ! 2 AND 0x7F, bit (b ! 2) 7, b ! 3, unat (b ! 4))"

fun configured_endpoints :: "usb_event list \<Rightarrow> (u8 \<times> bool \<times> u8 \<times> nat) list" where
  "configured_endpoints (Wr UENUM i # Wr UECONX e # Wr UECFG0X a # Wr UECFG1X b # es) =
     (i, bit a 0, drop_bit 6 a, 8 * 2 ^ unat (drop_bit 4 b)) # configured_endpoints es"
| "configured_endpoints (_ # es) = configured_endpoints es"
| "configured_endpoints [] = []"

text \<open>The configuration descriptor is well-formed (its blocks fill exactly the 67 bytes
  it announces), and the endpoints it declares to the host are, with number, direction, type and
  packet size, the ones that SET_CONFIGURATION programs into the controller, in the same order.\<close>

theorem endpoints_agree:
  "length config1_descriptor = unat CONFIG1_DESC_SIZE \<and>
   (\<exists>bs. desc_blocks 10 config1_descriptor = Some bs \<and> concat bs = config1_descriptor \<and>
     map declared_endpoint (filter (\<lambda>b. b ! 1 = 5) bs) =
       configured_endpoints (drop (length (usb_bus s)) (usb_bus (set_configuration q s))))"
proof -
  have c: "config1_descriptor =
    concat [[9, 2, 67, 0, 2, 1, 0, 0xC0, 50], [9, 4, 0, 0, 1, 2, 2, 1, 0], [5, 0x24, 0, 0x10, 1],
     [5, 0x24, 1, 1, 1], [4, 0x24, 2, 6], [5, 0x24, 6, 0, 1], [7, 5, 0x82, 3, 16, 0, 64],
     [9, 4, 1, 0, 2, 0x0A, 0, 0, 0], [7, 5, 3, 2, 64, 0, 0], [7, 5, 0x84, 2, 64, 0, 0]]"
    by (simp add: config1_descriptor_def CONFIG1_DESC_SIZE_def LSB_def MSB_def)
  have b: "desc_blocks 10 config1_descriptor = Some
    [[9, 2, 67, 0, 2, 1, 0, 0xC0, 50], [9, 4, 0, 0, 1, 2, 2, 1, 0], [5, 0x24, 0, 0x10, 1],
     [5, 0x24, 1, 1, 1], [4, 0x24, 2, 6], [5, 0x24, 6, 0, 1], [7, 5, 0x82, 3, 16, 0, 64],
     [9, 4, 1, 0, 2, 0x0A, 0, 0, 0], [7, 5, 3, 2, 64, 0, 0], [7, 5, 0x84, 2, 64, 0, 0]]"
    unfolding c by code_simp
  have four: "(4 :: nat) = Suc (Suc (Suc (Suc 0)))" by simp
  have "drop (length (usb_bus s)) (usb_bus (set_configuration q s)) =
    [Wr UEINTX 0xFE, Wr UENUM 1, Wr UECONX 0,
     Wr UENUM 2, Wr UECONX 1, Wr UECFG0X 0xC1, Wr UECFG1X 0x12,
     Wr UENUM 3, Wr UECONX 1, Wr UECFG0X 0x80, Wr UECFG1X 0x36,
     Wr UENUM 4, Wr UECONX 1, Wr UECFG0X 0x81, Wr UECFG1X 0x36, Wr UERST 0x1E, Wr UERST 0]"
    unfolding set_configuration_def four
    by (simp add: Let_def send_in_code endpoint_config_table_def EP_SIZE_def
        EP_SINGLE_BUFFER_def EP_DOUBLE_BUFFER_def)
  then show ?thesis
    using b by (simp add: declared_endpoint_def CONFIG1_DESC_SIZE_def, simp add: c)
qed

section \<open>Line coding\<close>

lemma wait_in_ready:
  assumes "ready_within dev UEINTX (push_bit TXINI 1) fuel"
  obtains es where "usb_wait_in_ready dev fuel s = Ret (s\<lparr>usb_bus := usb_bus s @ es\<rparr>)"
    "\<forall>e \<in> set es. \<exists>v. e = Rd UEINTX v"
  by (rule wait_for_returns [OF assms, of s]) (simp add: usb_wait_in_ready_def)

lemma wait_receive_out:
  assumes "ready_within dev UEINTX (push_bit RXOUTI 1) fuel"
  obtains es where "usb_wait_receive_out dev fuel s = Ret (s\<lparr>usb_bus := usb_bus s @ es\<rparr>)"
    "\<forall>e \<in> set es. \<exists>v. e = Rd UEINTX v"
  by (rule wait_for_returns [OF assms, of s]) (simp add: usb_wait_receive_out_def)

text \<open>The bytes read from the data register in a list of accesses.\<close>

fun data_read :: "usb_event list \<Rightarrow> u8 list" where
  "data_read [] = []"
| "data_read (Rd UEDATX v # es) = v # data_read es"
| "data_read (_ # es) = data_read es"

lemma data_read_append: "data_read (es @ fs) = data_read es @ data_read fs"
  by (induction es rule: data_read.induct) auto

lemma data_read_polls: "\<forall>e \<in> set es. \<exists>v. e = Rd UEINTX v \<Longrightarrow> data_read es = []"
  by (induction es) auto

lemma read_coding_data:
  "\<exists>es. read_coding dev n s = (data_read es, s\<lparr>usb_bus := usb_bus s @ es\<rparr>) \<and> length (data_read es) = n"
proof (induction n arbitrary: s)
  case (Suc n)
  let ?v = "dev (usb_bus s) UEDATX"
  from Suc [of "s\<lparr>usb_bus := usb_bus s @ [Rd UEDATX ?v]\<rparr>"] obtain es where
    "read_coding dev n (s\<lparr>usb_bus := usb_bus s @ [Rd UEDATX ?v]\<rparr>) =
      (data_read es, s\<lparr>usb_bus := usb_bus s @ [Rd UEDATX ?v] @ es\<rparr>)" "length (data_read es) = n" by auto
  then show ?case by (intro exI [of _ "Rd UEDATX ?v # es"]) (simp add: rd_def Let_def)
qed (simp add: exI [of _ "[]"])

lemma set_line_coding_data:
  assumes "ready_within dev UEINTX (push_bit RXOUTI 1) fuel"
  obtains es where "set_line_coding dev fuel s =
      Ret (s\<lparr>cdc_line_coding := data_read es, usb_bus := usb_bus s @ es\<rparr>)" "length (data_read es) = 7"
proof -
  obtain es where es: "usb_wait_receive_out dev fuel s = Ret (s\<lparr>usb_bus := usb_bus s @ es\<rparr>)"
    "\<forall>e \<in> set es. \<exists>v. e = Rd UEINTX v" by (rule wait_receive_out [OF assms])
  from read_coding_data [of dev 7 "s\<lparr>usb_bus := usb_bus s @ es\<rparr>"] obtain fs where
    fs: "read_coding dev 7 (s\<lparr>usb_bus := usb_bus s @ es\<rparr>) =
      (data_read fs, s\<lparr>usb_bus := usb_bus s @ es @ fs\<rparr>)" "length (data_read fs) = 7" by auto
  show thesis
    by (rule that [of "es @ fs @ [Wr UEINTX 0xFB, Wr UEINTX 0xFE]"])
      (simp_all add: set_line_coding_def es(1) fs data_read_append data_read_polls [OF es(2)] send_in_code
        usb_ack_out_def wr_def)
qed

lemma bytes_u32:
  fixes a b c d :: u8
  shows "ucast a OR push_bit 8 (ucast b) OR push_bit 16 (ucast c) OR push_bit 24 (ucast d) =
    (ucast a + ucast b * 256 + ucast c * 65536 + ucast d * 16777216 :: u32)"
proof -
  have bits: "bit (push_bit m (ucast (v :: u8)) :: u32) n \<longleftrightarrow> m \<le> n \<and> n < 32 \<and> bit v (n - m)" for m n v
    by (simp add: bit_push_bit_iff bit_unsigned_iff) (auto dest: bit_imp_le_length)
  have low: "bit v n \<Longrightarrow> n < 8" for v :: u8 and n using bit_imp_le_length [of v n] by simp
  have or: "x AND y = 0 \<Longrightarrow> x OR y = x + y" for x y :: u32 by (simp add: disjunctive_add_eq_or)
  have "push_bit 16 (ucast c) OR push_bit 24 (ucast d) = (push_bit 16 (ucast c) + push_bit 24 (ucast d) :: u32)"
    by (rule or, rule bit_eqI) (auto simp: bit_and_iff bits simp del: push_bit_numeral dest!: low)
  moreover have "push_bit 8 (ucast b) OR (push_bit 16 (ucast c) OR push_bit 24 (ucast d)) =
      (push_bit 8 (ucast b) + (push_bit 16 (ucast c) OR push_bit 24 (ucast d)) :: u32)"
    by (rule or, rule bit_eqI) (auto simp: bit_and_iff bit_or_iff bits dest!: low)
  moreover have "push_bit 0 (ucast a) OR (push_bit 8 (ucast b) OR (push_bit 16 (ucast c) OR push_bit 24 (ucast d))) =
      (push_bit 0 (ucast a) + (push_bit 8 (ucast b) OR (push_bit 16 (ucast c) OR push_bit 24 (ucast d))) :: u32)"
    by (rule or, rule bit_eqI) (auto simp: bit_and_iff bit_or_iff bits dest!: low simp del: push_bit_0_id)
  ultimately show ?thesis by (simp add: or.assoc push_bit_eq_mult add.assoc)
qed

text \<open>The line settings are what the host last wrote: a SET_LINE_CODING request stores the
  seven bytes that arrive, a GET_LINE_CODING request after it answers with one packet of exactly these
  bytes, and the four accessors read the speed (low byte first), stop bits, parity and data bits
  from them.\<close>

theorem line_coding_roundtrip:
  assumes "ready_within dev UEINTX (push_bit RXOUTI 1) fuel" "ready_within dev UEINTX (push_bit TXINI 1) fuel"
    and "bRequest q = 0x20" "bmRequestType q = 0x21" "bRequest q' = 0x21" "bmRequestType q' = 0xA1"
  shows "\<exists>s1 es s2 fs. handle_setup dev product fuel q s = Ret s1 \<and> usb_bus s1 = usb_bus s @ es \<and>
    length (data_read es) = 7 \<and>
    handle_setup dev product fuel q' s1 = Ret s2 \<and> usb_bus s2 = usb_bus s1 @ fs \<and>
    packets [] fs = [data_read es] \<and>
    usb_serial_get_baud s2 = ucast (data_read es ! 0) + ucast (data_read es ! 1) * 256 +
      ucast (data_read es ! 2) * 65536 + ucast (data_read es ! 3) * 16777216 \<and>
    usb_serial_get_stopbits s2 = data_read es ! 4 \<and> usb_serial_get_paritytype s2 = data_read es ! 5 \<and>
    usb_serial_get_numbits s2 = data_read es ! 6"
proof -
  obtain es where s1: "set_line_coding dev fuel s =
      Ret (s\<lparr>cdc_line_coding := data_read es, usb_bus := usb_bus s @ es\<rparr>)" "length (data_read es) = 7"
    by (rule set_line_coding_data [OF assms(1)])
  let ?s1 = "s\<lparr>cdc_line_coding := data_read es, usb_bus := usb_bus s @ es\<rparr>"
  obtain fs where w: "usb_wait_in_ready dev fuel ?s1 = Ret (?s1\<lparr>usb_bus := usb_bus ?s1 @ fs\<rparr>)"
    "\<forall>e \<in> set fs. \<exists>v. e = Rd UEINTX v" by (rule wait_in_ready [OF assms(2)])
  let ?gs = "fs @ map (Wr UEDATX) (data_read es) @ [Wr UEINTX 0xFE]"
  let ?s2 = "?s1\<lparr>usb_bus := usb_bus ?s1 @ ?gs\<rparr>"
  have "handle_setup dev product fuel q s = Ret ?s1" using assms(3,4) s1 by (simp add: handle_setup_def)
  moreover have "handle_setup dev product fuel q' ?s1 = Ret ?s2"
    using assms(5,6) w by (simp add: handle_setup_def send_in_code wr_all_bus wr_def)
  moreover have "packets [] ?gs = [data_read es]" using w(2) by (simp add: packets_reads packets_data)
  moreover have "usb_serial_get_baud ?s2 = ucast (data_read es ! 0) + ucast (data_read es ! 1) * 256 +
      ucast (data_read es ! 2) * 65536 + ucast (data_read es ! 3) * 16777216"
    by (simp only: usb_serial_get_baud_def Let_def bytes_u32) simp
  ultimately show ?thesis
    using s1(2)
    by (intro exI [of _ ?s1] exI [of _ es] exI [of _ ?s2] exI [of _ ?gs])
      (simp add: usb_serial_get_stopbits_def usb_serial_get_paritytype_def usb_serial_get_numbits_def)
qed

definition chatty_host :: dev where
  "chatty_host h r = (if r = UEINTX then 5 else 0x42)"

lemma chatty_host_ready: "ready_within chatty_host UEINTX (push_bit RXOUTI 1) 1" "ready_within chatty_host UEINTX (push_bit TXINI 1) 1"
  by (auto simp: ready_within_def chatty_host_def)

theorem line_coding_roundtrip_witness:
  "\<exists>s1 es s2 fs. handle_setup chatty_host ''PQUAL-firmware'' 1
       \<lparr>bmRequestType = 0x21, bRequest = 0x20, wValue = 0, wIndex = 0, wLength = 7\<rparr> usb_start = Ret s1 \<and>
     length (data_read es) = 7 \<and>
     handle_setup chatty_host ''PQUAL-firmware'' 1
       \<lparr>bmRequestType = 0xA1, bRequest = 0x21, wValue = 0, wIndex = 0, wLength = 7\<rparr> s1 = Ret s2 \<and>
     packets [] fs = [data_read es]"
  using line_coding_roundtrip [OF chatty_host_ready,
      of "\<lparr>bmRequestType = 0x21, bRequest = 0x20, wValue = 0, wIndex = 0, wLength = 7\<rparr>"
        "\<lparr>bmRequestType = 0xA1, bRequest = 0x21, wValue = 0, wIndex = 0, wLength = 7\<rparr>"
        "''PQUAL-firmware''" usb_start]
  by simp blast

section \<open>Serial output\<close>

text \<open>What the accesses of a history did to the transmit endpoint: the endpoint selected, the bytes in
  the buffer that is being filled, and the packets released to the host.\<close>

record tx_side =
  selected :: u8
  bank :: "u8 list"
  sent :: "u8 list list"

definition tx_event :: "usb_event \<Rightarrow> tx_side \<Rightarrow> tx_side" where
  "tx_event e t =
     (case e of
        Wr UENUM v \<Rightarrow> t\<lparr>selected := v\<rparr>
      | Wr UEDATX v \<Rightarrow> if selected t = 4 then t\<lparr>bank := bank t @ [v]\<rparr> else t
      | Wr UEINTX v \<Rightarrow> if selected t = 4 \<and> v = 0x3A then t\<lparr>bank := [], sent := sent t @ [bank t]\<rparr> else t
      | _ \<Rightarrow> t)"

definition tx_view :: "usb_event list \<Rightarrow> tx_side" where
  "tx_view h = fold tx_event h \<lparr>selected = 0, bank = [], sent = []\<rparr>"

text \<open>The bytes handed to the host side so far, in order.\<close>

definition tx_bytes :: "usb_event list \<Rightarrow> u8 list" where
  "tx_bytes h = concat (sent (tx_view h)) @ bank (tx_view h)"

text \<open>A controller whose transmit buffers are taken by the host as soon as they are released: as long as
  fewer than 64 bytes are in the buffer there is room, and the byte count is the number of them.\<close>

definition listening_host :: "dev \<Rightarrow> bool" where
  "listening_host dev \<longleftrightarrow>
     (\<forall>h. selected (tx_view h) = 4 \<longrightarrow>
        (bit_test (dev h UEINTX) RWAL \<longleftrightarrow> length (bank (tx_view h)) < 64) \<and>
        dev h UEBCLX = of_nat (length (bank (tx_view h))))"

lemma tx_view_snoc: "tx_view (h @ [e]) = tx_event e (tx_view h)"
  by (simp add: tx_view_def)

lemma tx_event_simps [simp]:
  "tx_event (Rd r v) t = t"
  "tx_event (Wr UENUM v) t = t\<lparr>selected := v\<rparr>"
  "tx_event (Wr UEDATX v) t = (if selected t = 4 then t\<lparr>bank := bank t @ [v]\<rparr> else t)"
  "tx_event (Wr UEINTX v) t =
     (if selected t = 4 \<and> v = 0x3A then t\<lparr>bank := [], sent := sent t @ [bank t]\<rparr> else t)"
  by (simp_all add: tx_event_def)

lemma tx_view_data:
  "selected (tx_view h) = 4 \<Longrightarrow> tx_view (h @ map (Wr UEDATX) vs) = (tx_view h)\<lparr>bank := bank (tx_view h) @ vs\<rparr>"
proof (induction vs rule: rev_induct)
  case (snoc v vs)
  then show ?case by (simp add: tx_view_snoc flip: append_assoc)
qed simp

text \<open>The wait for room ends at the first poll.\<close>

lemma tx_wait_listening:
  assumes "listening_host dev" "selected (tx_view (usb_bus s)) = 4" "length (bank (tx_view (usb_bus s))) < 64" "0 < fuel"
  shows "tx_wait dev timeout fuel s = Ret (True, s\<lparr>usb_bus := usb_bus s @ [Rd UEINTX (dev (usb_bus s) UEINTX)]\<rparr>)"
proof -
  obtain n where n: "fuel = Suc n" using assms(4) by (cases fuel) auto
  have "bit_test (dev (usb_bus s) UEINTX) RWAL" using assms(1-3) by (simp add: listening_host_def)
  then show ?thesis by (simp add: n rd_def Let_def)
qed

text \<open>The end of a packet: it is released when it is full, so the buffer has room afterwards.\<close>

lemma tx_finish_listening:
  assumes "listening_host dev" "selected (tx_view (usb_bus s)) = 4" "length (bank (tx_view (usb_bus s))) \<le> 64"
  shows "\<exists>es. tx_finish dev s = s\<lparr>transmit_flush_timer := 5, usb_bus := usb_bus s @ es\<rparr> \<and>
     tx_view (usb_bus s @ es) =
       (let t = tx_view (usb_bus s)
        in if length (bank t) = 64 then t\<lparr>bank := [], sent := sent t @ [bank t]\<rparr> else t)"
proof -
  let ?h = "usb_bus s" and ?i = "dev (usb_bus s) UEINTX"
  have i: "bit_test ?i RWAL \<longleftrightarrow> length (bank (tx_view ?h)) < 64" using assms(1,2) by (simp add: listening_host_def)
  show ?thesis
  proof (cases "bit_test ?i RWAL")
    case True
    then show ?thesis
      using i by (intro exI [of _ "[Rd UEINTX ?i]"])
        (auto simp: tx_finish_def rd_def Let_def TRANSMIT_FLUSH_TIMEOUT_def tx_view_snoc)
  next
    case False
    then have "length (bank (tx_view ?h)) = 64" using i assms(3) by simp
    with False assms(2) show ?thesis
      by (intro exI [of _ "[Rd UEINTX ?i, Wr UEINTX 0x3A]"])
        (auto simp: tx_finish_def rd_def wr_def Let_def TRANSMIT_FLUSH_TIMEOUT_def tx_view_snoc
          tx_view_snoc [of "usb_bus s @ [e]" for e, simplified])
  qed
qed

text \<open>The packet size computed in a turn of \<open>usb_serial_write\<close>.\<close>

lemma packet_size:
  fixes len :: u16
  assumes "k < 64"
  shows "unat (next_write (of_nat k) len) = min (64 - k) (unat len)"
proof -
  have k: "unat (64 - of_nat k :: u8) = 64 - k"
    using assms by (simp add: unat_sub word_le_nat_alt unat_of_nat)
  have g: "ucast (64 - of_nat k :: u8) > len \<longleftrightarrow> 64 - k > unat len"
    by (simp add: word_less_nat_alt k)
  have l: "unat len < 64 - k \<Longrightarrow> unat (ucast len :: u8) = unat len"
    by (simp add: unsigned_ucast_eq take_bit_nat_eq_self)
  show ?thesis using k g l by (cases "64 - k > unat len") (auto simp: next_write_def)
qed

lemma write_turn:
  assumes lh: "listening_host dev" and fuel: "0 < fuel" and sel: "selected (tx_view (usb_bus s)) = 4"
    and room: "length (bank (tx_view (usb_bus s))) < 64" and len: "unat len = length buffer" "buffer \<noteq> []"
  defines "n \<equiv> min (64 - length (bank (tx_view (usb_bus s)))) (length buffer)"
  obtains es w where "unat (w :: u8) = n"
    "write_packets dev fuel (Suc turns) buffer len s =
       write_packets dev fuel turns (drop n buffer) (len - ucast w)
         (s\<lparr>transmit_flush_timer := 5, usb_bus := usb_bus s @ es\<rparr>)"
    "tx_view (usb_bus s @ es) =
       (let t = tx_view (usb_bus s); b = bank t @ take n buffer
        in if length b = 64 then t\<lparr>bank := [], sent := sent t @ [b]\<rparr> else t\<lparr>bank := b\<rparr>)"
proof -
  let ?h = "usb_bus s" and ?b = "bank (tx_view (usb_bus s))"
  let ?e1 = "Rd UDFNUML (dev ?h UDFNUML)"
  let ?e2 = "Rd UEINTX (dev (?h @ [?e1]) UEINTX)"
  let ?h2 = "?h @ [?e1, ?e2]"
  let ?e3 = "Rd UEBCLX (dev ?h2 UEBCLX)"
  let ?h3 = "?h @ [?e1, ?e2, ?e3]"
  have views: "tx_view (?h @ [?e1]) = tx_view ?h" "tx_view ?h2 = tx_view ?h" "tx_view ?h3 = tx_view ?h"
    by (simp_all add: tx_view_def)
  have count: "dev ?h2 UEBCLX = of_nat (length ?b)" using lh sel views by (simp add: listening_host_def)
  define w where "w = next_write (of_nat (length ?b)) len"
  have w: "unat w = n" using packet_size [OF room, of len] len by (simp add: w_def n_def)
  then have w64: "w \<le> 64" by (simp add: word_le_nat_alt n_def)
  let ?t = "s\<lparr>usb_bus := ?h3 @ map (Wr UEDATX) (take n buffer)\<rparr>"
  have v: "tx_view (usb_bus ?t) = (tx_view ?h)\<lparr>bank := ?b @ take n buffer\<rparr>"
    using tx_view_data [of ?h3 "take n buffer"] views(3) sel by simp
  have "length (?b @ take n buffer) \<le> 64" using room by (simp add: n_def)
  with tx_finish_listening [OF lh, of ?t] v sel obtain es where
    es: "tx_finish dev ?t = ?t\<lparr>transmit_flush_timer := 5, usb_bus := usb_bus ?t @ es\<rparr>"
    "tx_view (usb_bus ?t @ es) =
       (let t = tx_view (usb_bus ?t)
        in if length (bank t) = 64 then t\<lparr>bank := [], sent := sent t @ [bank t]\<rparr> else t)" by auto
  have "len \<noteq> 0" using len by auto
  moreover have wait: "tx_wait dev to fuel (s\<lparr>usb_bus := ?h @ [?e1]\<rparr>) = Ret (True, s\<lparr>usb_bus := ?h2\<rparr>)" for to
    using tx_wait_listening [OF lh _ _ fuel, of "s\<lparr>usb_bus := ?h @ [?e1]\<rparr>"] views sel room by simp
  moreover have copy: "copy_packet w buffer (s\<lparr>usb_bus := ?h3\<rparr>) = Ret (drop n buffer, ?t)"
    using w w64 by (simp add: copy_packet_def wr_all_bus n_def Let_def)
  ultimately have "write_packets dev fuel (Suc turns) buffer len s =
       write_packets dev fuel turns (drop n buffer) (len - ucast w) (tx_finish dev ?t)"
    by (simp add: rd_def Let_def count w_def [symmetric])
  then show thesis
    using es v by (intro that [OF w, of "[?e1, ?e2, ?e3] @ map (Wr UEDATX) (take n buffer) @ es"]) (auto simp: Let_def)
qed

lemma write_packets_listening:
  assumes lh: "listening_host dev" and fuel: "0 < fuel" and "selected (tx_view (usb_bus s)) = 4"
    and "length (bank (tx_view (usb_bus s))) < 64" and "unat len = length buffer" "length buffer \<le> turns"
  shows "\<exists>es ps. write_packets dev fuel turns buffer len s =
      Ret (0, s\<lparr>transmit_flush_timer := (if buffer = [] then transmit_flush_timer s else 5), usb_bus := usb_bus s @ es\<rparr>) \<and>
    (let t = tx_view (usb_bus s @ es)
     in selected t = 4 \<and> length (bank t) < 64 \<and> sent t = sent (tx_view (usb_bus s)) @ ps \<and>
        (\<forall>p \<in> set ps. length p = 64) \<and> concat ps @ bank t = bank (tx_view (usb_bus s)) @ buffer)"
  using assms(3-6)
proof (induction turns arbitrary: s buffer len)
  case 0
  then have "unat len = 0" "buffer = []" by auto
  then have "len = 0" "buffer = []" by (simp_all only: unat_eq_0)
  with 0 show ?case by (intro exI [of _ "[]"]) auto
next
  case (Suc turns)
  show ?case
  proof (cases "buffer = []")
    case True
    with Suc.prems(3) have "len = 0" by (simp add: unat_eq_0)
    with True Suc.prems show ?thesis by (intro exI [of _ "[]"]) auto
  next
    case False
    let ?b = "bank (tx_view (usb_bus s))"
    let ?n = "min (64 - length ?b) (length buffer)"
    obtain es and w :: u8 where w: "unat w = ?n" and
      run: "write_packets dev fuel (Suc turns) buffer len s =
       write_packets dev fuel turns (drop ?n buffer) (len - ucast w)
         (s\<lparr>transmit_flush_timer := 5, usb_bus := usb_bus s @ es\<rparr>)" and
      v: "tx_view (usb_bus s @ es) =
       (let t = tx_view (usb_bus s); b = bank t @ take ?n buffer
        in if length b = 64 then t\<lparr>bank := [], sent := sent t @ [b]\<rparr> else t\<lparr>bank := b\<rparr>)"
      by (rule write_turn [OF lh fuel Suc.prems(1-3) False])
    let ?s = "s\<lparr>transmit_flush_timer := 5, usb_bus := usb_bus s @ es\<rparr>"
    have n: "0 < ?n" using False Suc.prems(2) by simp
    have "unat (len - ucast w) = unat len - ?n"
      using w Suc.prems(3) by (simp add: unat_sub word_le_nat_alt)
    then have 1: "unat (len - ucast w) = length (drop ?n buffer)" using Suc.prems(3) by simp
    have 2: "length (drop ?n buffer) \<le> turns" using Suc.prems(4) n length_drop [of ?n buffer] by arith
    have 3: "selected (tx_view (usb_bus ?s)) = 4" "length (bank (tx_view (usb_bus ?s))) < 64"
      using v Suc.prems(1,2) by (auto simp: Let_def)
    from Suc.IH [OF 3 1 2] obtain fs ps where
      ih: "write_packets dev fuel turns (drop ?n buffer) (len - ucast w) ?s =
        Ret (0, ?s\<lparr>usb_bus := usb_bus ?s @ fs\<rparr>)"
      "selected (tx_view (usb_bus s @ es @ fs)) = 4" "length (bank (tx_view (usb_bus s @ es @ fs))) < 64"
      "sent (tx_view (usb_bus s @ es @ fs)) = sent (tx_view (usb_bus s @ es)) @ ps"
      "\<forall>p \<in> set ps. length p = 64"
      "concat ps @ bank (tx_view (usb_bus s @ es @ fs)) = bank (tx_view (usb_bus s @ es)) @ drop ?n buffer"
      by (auto simp: Let_def split: if_splits)
    let ?p = "?b @ take ?n buffer"
    show ?thesis
    proof (cases "length ?p = 64")
      case True
      with v have "sent (tx_view (usb_bus s @ es)) = sent (tx_view (usb_bus s)) @ [?p]" "bank (tx_view (usb_bus s @ es)) = []"
        by (simp_all add: Let_def)
      with True ih run False show ?thesis
        by (intro exI [of _ "es @ fs"] exI [of _ "?p # ps"]) (auto simp: Let_def)
    next
      case f: False
      with v have "sent (tx_view (usb_bus s @ es)) = sent (tx_view (usb_bus s))" "bank (tx_view (usb_bus s @ es)) = ?p"
        by (simp_all add: Let_def)
      with ih run False show ?thesis
        by (intro exI [of _ "es @ fs"] exI [of _ ps]) (auto simp: Let_def)
    qed
  qed
qed

lemma tx_start_view:
  assumes "usb_configuration s \<noteq> 0" "transmit_previous_timeout s = 0 \<or> bit_test (dev (usb_bus s @ [Wr UENUM 4]) UEINTX) RWAL"
  shows "\<exists>es. tx_start dev s = (True, s\<lparr>transmit_previous_timeout := 0, usb_bus := usb_bus s @ es\<rparr>) \<and>
    tx_view (usb_bus s @ es) = (tx_view (usb_bus s))\<lparr>selected := 4\<rparr>"
proof (cases "transmit_previous_timeout s = 0")
  case True
  then have "s = s\<lparr>transmit_previous_timeout := 0\<rparr>" by simp
  with True assms(1) show ?thesis
    by (intro exI [of _ "[Wr UENUM 4]"]) (auto simp: tx_start_def wr_def tx_view_snoc Let_def)
next
  case False
  then show ?thesis
    using assms
    by (intro exI [of _ "[Wr UENUM 4, Rd UEINTX (dev (usb_bus s @ [Wr UENUM 4]) UEINTX)]"])
      (auto simp: tx_start_def wr_def rd_def tx_view_def Let_def)
qed

text \<open>A write to a listening host delivers its bytes: with a configured device and a
  controller that takes full packets, \<open>usb_serial_write\<close> returns 0, the bytes handed over grow by exactly
  the buffer, in order and whatever the state of the packet begun before; every packet released has
  exactly 64 bytes, less than a packet stays in the buffer, and the flush timer is started for it.
  As many turns of the loop as there are bytes are enough.\<close>

theorem usb_write_delivers:
  assumes "usb_configuration s \<noteq> 0" "listening_host dev" "0 < fuel"
    and "length (bank (tx_view (usb_bus s))) < 64" "length buffer < 65536" "length buffer \<le> turns"
  shows "\<exists>s' ps. usb_serial_write dev fuel turns buffer (of_nat (length buffer)) s = Ret (0, s') \<and>
    tx_bytes (usb_bus s') = tx_bytes (usb_bus s) @ buffer \<and>
    sent (tx_view (usb_bus s')) = sent (tx_view (usb_bus s)) @ ps \<and> (\<forall>p \<in> set ps. length p = 64) \<and>
    length (bank (tx_view (usb_bus s'))) < 64 \<and>
    (buffer \<noteq> [] \<longrightarrow> transmit_flush_timer s' = TRANSMIT_FLUSH_TIMEOUT)"
proof -
  have "bit_test (dev (usb_bus s @ [Wr UENUM 4]) UEINTX) RWAL"
    using assms(2,4) by (simp add: listening_host_def tx_view_snoc)
  with tx_start_view [OF assms(1), of dev] obtain es where
    st: "tx_start dev s = (True, s\<lparr>transmit_previous_timeout := 0, usb_bus := usb_bus s @ es\<rparr>)"
    "tx_view (usb_bus s @ es) = (tx_view (usb_bus s))\<lparr>selected := 4\<rparr>" by blast
  let ?s = "s\<lparr>transmit_previous_timeout := 0, usb_bus := usb_bus s @ es\<rparr>"
  have len: "unat (of_nat (length buffer) :: u16) = length buffer"
    using assms(5) by (simp add: unat_of_nat take_bit_nat_eq_self)
  have "selected (tx_view (usb_bus ?s)) = 4" "length (bank (tx_view (usb_bus ?s))) < 64"
    using st(2) assms(4) by simp_all
  from write_packets_listening [OF assms(2,3) this len assms(6)] obtain fs ps where
    w: "write_packets dev fuel turns buffer (of_nat (length buffer)) ?s =
      Ret (0, ?s\<lparr>transmit_flush_timer := (if buffer = [] then transmit_flush_timer ?s else 5), usb_bus := usb_bus ?s @ fs\<rparr>)"
    "length (bank (tx_view (usb_bus s @ es @ fs))) < 64"
    "sent (tx_view (usb_bus s @ es @ fs)) = sent (tx_view (usb_bus s)) @ ps" "\<forall>p \<in> set ps. length p = 64"
    "concat ps @ bank (tx_view (usb_bus s @ es @ fs)) = bank (tx_view (usb_bus s)) @ buffer"
    using st(2) by (auto simp: Let_def)
  show ?thesis
    using st(1) w
    by (intro exI [of _ "?s\<lparr>transmit_flush_timer := (if buffer = [] then transmit_flush_timer ?s else 5), usb_bus := usb_bus ?s @ fs\<rparr>"]
        exI [of _ ps])
      (auto simp: usb_serial_write_def tx_bytes_def TRANSMIT_FLUSH_TIMEOUT_def)
qed

text \<open>The reference controller with a listening host.\<close>

definition prompt_host :: dev where
  "prompt_host h r =
     (if r = UEINTX then (if length (bank (tx_view h)) < 64 then push_bit RWAL 1 else 0)
      else if r = UEBCLX then of_nat (length (bank (tx_view h))) else 0)"

lemma prompt_host_listens: "listening_host prompt_host"
  by (auto simp: listening_host_def prompt_host_def bit_test_def)

theorem usb_write_delivers_witness:
  "\<exists>s' ps. usb_serial_write prompt_host 1 70 (replicate 70 7) 70 (usb_start\<lparr>usb_configuration := 1\<rparr>) = Ret (0, s') \<and>
     tx_bytes (usb_bus s') = replicate 70 7 \<and> sent (tx_view (usb_bus s')) = ps \<and> (\<forall>p \<in> set ps. length p = 64) \<and>
     transmit_flush_timer s' = 5"
proof -
  have e: "tx_view (usb_bus (usb_start\<lparr>usb_configuration := 1\<rparr>)) = \<lparr>selected = 0, bank = [], sent = []\<rparr>"
    "tx_bytes (usb_bus (usb_start\<lparr>usb_configuration := 1\<rparr>)) = []"
    by (simp_all add: usb_start_def tx_view_def tx_bytes_def)
  from usb_write_delivers [OF _ prompt_host_listens, of "usb_start\<lparr>usb_configuration := 1\<rparr>" 1 "replicate 70 7" 70] e
  show ?thesis by (auto simp: TRANSMIT_FLUSH_TIMEOUT_def)
qed

section \<open>A host that does not listen\<close>

text \<open>The history after \<open>k\<close> turns of the wait loop, the frame number read in the next turn, and a
  controller that never has room and whose frame counter shows every number within \<open>n\<close> turns.\<close>

fun stalled_hist :: "dev \<Rightarrow> nat \<Rightarrow> usb_event list \<Rightarrow> usb_event list" where
  "stalled_hist dev 0 h = h"
| "stalled_hist dev (Suc k) h =
     (let h' = h @ [Rd UEINTX (dev h UEINTX)]
      in stalled_hist dev k (h' @ [Rd UDFNUML (dev h' UDFNUML), Wr UENUM 4]))"

definition frame_at :: "dev \<Rightarrow> usb_event list \<Rightarrow> u8" where
  "frame_at dev h = dev (h @ [Rd UEINTX (dev h UEINTX)]) UDFNUML"

definition deaf_host :: "dev \<Rightarrow> nat \<Rightarrow> bool" where
  "deaf_host dev n \<longleftrightarrow> (\<forall>h. \<not> bit_test (dev h UEINTX) RWAL) \<and>
     (\<forall>h t. \<exists>k < n. frame_at dev (stalled_hist dev k h) = t)"

lemma tx_wait_deaf:
  assumes "\<forall>h. \<not> bit_test (dev h UEINTX) RWAL" "frame_at dev (stalled_hist dev k (usb_bus s)) = timeout" "k < n"
    and "usb_configuration s \<noteq> 0" "selected (tx_view (usb_bus s)) = 4"
  shows "\<exists>es. tx_wait dev timeout n s = Ret (False, s\<lparr>transmit_previous_timeout := 1, usb_bus := usb_bus s @ es\<rparr>) \<and>
    tx_view (usb_bus s @ es) = tx_view (usb_bus s)"
  using assms(2-5)
proof (induction n arbitrary: k s)
  case (Suc n)
  let ?e1 = "Rd UEINTX (dev (usb_bus s) UEINTX)"
  let ?e2 = "Rd UDFNUML (dev (usb_bus s @ [?e1]) UDFNUML)"
  let ?t = "s\<lparr>usb_bus := usb_bus s @ [?e1, ?e2, Wr UENUM 4]\<rparr>"
  have v: "tx_view (usb_bus ?t) = tx_view (usb_bus s)" "tx_view (usb_bus s @ [?e1, ?e2]) = tx_view (usb_bus s)"
    using Suc.prems(4) by (simp_all add: tx_view_def)
  show ?case
  proof (cases "frame_at dev (usb_bus s) = timeout")
    case True
    with assms(1) v show ?thesis
      by (intro exI [of _ "[?e1, ?e2]"]) (auto simp: rd_def Let_def frame_at_def)
  next
    case False
    with Suc.prems(1) obtain j where j: "k = Suc j" by (cases k) auto
    have "frame_at dev (stalled_hist dev j (usb_bus ?t)) = timeout" "j < n"
      using Suc.prems j by (simp_all add: Let_def)
    from Suc.IH [OF this] Suc.prems v obtain es where
      "tx_wait dev timeout n ?t = Ret (False, ?t\<lparr>transmit_previous_timeout := 1, usb_bus := usb_bus ?t @ es\<rparr>)"
      "tx_view (usb_bus ?t @ es) = tx_view (usb_bus s)" by auto
    with False assms(1) Suc.prems(3) show ?thesis
      by (intro exI [of _ "[?e1, ?e2, Wr UENUM 4] @ es"]) (auto simp: rd_def wr_def Let_def frame_at_def)
  qed
qed simp

text \<open>A host that does not read cannot hang the firmware: when the controller never has
  room, \<open>usb_serial_write\<close> gives up once the frame counter has advanced by 25, returns -1 with the time-out
  noted and hands over no byte; and every later write returns -1 after a single look at the
  controller, without waiting again.\<close>

theorem usb_write_timeout:
  assumes "usb_configuration s \<noteq> 0" "transmit_previous_timeout s = 0" "deaf_host dev fuel" "len \<noteq> 0"
  shows "\<exists>s1. usb_serial_write dev fuel (Suc turns) buffer len s = Ret (-1, s1) \<and>
    transmit_previous_timeout s1 = 1 \<and> tx_bytes (usb_bus s1) = tx_bytes (usb_bus s) \<and>
    (\<forall>turns' buffer' len'. \<exists>v. usb_serial_write dev fuel turns' buffer' len' s1 =
       Ret (-1, s1\<lparr>usb_bus := usb_bus s1 @ [Wr UENUM 4, Rd UEINTX v]\<rparr>))"
proof -
  from tx_start_view [OF assms(1), of dev] assms(2) obtain es where
    st: "tx_start dev s = (True, s\<lparr>transmit_previous_timeout := 0, usb_bus := usb_bus s @ es\<rparr>)"
    "tx_view (usb_bus s @ es) = (tx_view (usb_bus s))\<lparr>selected := 4\<rparr>" by blast
  let ?f = "dev (usb_bus s @ es) UDFNUML"
  let ?s = "s\<lparr>transmit_previous_timeout := 0, usb_bus := usb_bus s @ es @ [Rd UDFNUML ?f]\<rparr>"
  have v: "tx_view (usb_bus ?s) = (tx_view (usb_bus s))\<lparr>selected := 4\<rparr>"
    using st(2) tx_view_snoc [of "usb_bus s @ es"] by simp
  from assms(3) have deaf: "\<forall>h. \<not> bit_test (dev h UEINTX) RWAL" by (simp add: deaf_host_def)
  from assms(3) obtain k where "k < fuel" "frame_at dev (stalled_hist dev k (usb_bus ?s)) = ?f + TRANSMIT_TIMEOUT"
    unfolding deaf_host_def by meson
  with tx_wait_deaf [of dev k ?s, OF deaf] v assms(1) obtain fs where
    w: "tx_wait dev (?f + TRANSMIT_TIMEOUT) fuel ?s =
      Ret (False, ?s\<lparr>transmit_previous_timeout := 1, usb_bus := usb_bus ?s @ fs\<rparr>)"
    "tx_view (usb_bus ?s @ fs) = (tx_view (usb_bus s))\<lparr>selected := 4\<rparr>" by auto
  let ?s1 = "?s\<lparr>transmit_previous_timeout := 1, usb_bus := usb_bus ?s @ fs\<rparr>"
  have "usb_serial_write dev fuel (Suc turns) buffer len s = Ret (-1, ?s1)"
    using st(1) w(1) assms(4) by (simp add: usb_serial_write_def rd_def Let_def)
  moreover have "tx_bytes (usb_bus ?s1) = tx_bytes (usb_bus s)" using w(2) by (simp add: tx_bytes_def)
  moreover have "usb_serial_write dev fuel turns' buffer' len' ?s1 =
       Ret (-1, ?s1\<lparr>usb_bus := usb_bus ?s1 @ [Wr UENUM 4, Rd UEINTX (dev (usb_bus ?s1 @ [Wr UENUM 4]) UEINTX)]\<rparr>)"
    for turns' buffer' len'
    using assms(1) deaf by (simp add: usb_serial_write_def tx_start_def rd_def wr_def Let_def)
  ultimately show ?thesis by (intro exI [of _ ?s1]) auto
qed

text \<open>A controller whose host never reads and whose frame counter moves with every look at it.\<close>

definition frames_read :: "usb_event list \<Rightarrow> nat" where
  "frames_read h = length (filter (\<lambda>e. case e of Rd UDFNUML _ \<Rightarrow> True | _ \<Rightarrow> False) h)"

definition silent_host :: dev where
  "silent_host h r = (if r = UDFNUML then of_nat (frames_read h) else 0)"

lemma silent_host_frames: "frames_read (stalled_hist silent_host k h) = frames_read h + k"
proof (induction k arbitrary: h)
  case (Suc k)
  show ?case unfolding stalled_hist.simps Let_def Suc by (simp add: frames_read_def)
qed simp

lemma silent_host_deaf: "deaf_host silent_host 256"
proof -
  have "\<exists>k < 256. frame_at silent_host (stalled_hist silent_host k h) = t" for h t
  proof (intro exI [of _ "unat (t - of_nat (frames_read h))"] conjI unat_u8_less)
    show "frame_at silent_host (stalled_hist silent_host (unat (t - of_nat (frames_read h))) h) = t"
      using silent_host_frames [of "unat (t - of_nat (frames_read h))" h]
      by (simp add: frame_at_def silent_host_def frames_read_def)
  qed
  then show ?thesis by (auto simp: deaf_host_def silent_host_def bit_test_def)
qed

theorem usb_write_timeout_witness:
  "\<exists>s1. usb_serial_write silent_host 256 1 [7] 1 (usb_start\<lparr>usb_configuration := 1\<rparr>) = Ret (-1, s1) \<and>
     transmit_previous_timeout s1 = 1"
  using usb_write_timeout [OF _ _ silent_host_deaf, of "usb_start\<lparr>usb_configuration := 1\<rparr>" 1 0 "[7]"]
  by (auto simp: usb_start_def)

section \<open>The flush timer\<close>

definition frames_only :: "dev \<Rightarrow> bool" where
  "frames_only dev \<longleftrightarrow> (\<forall>h. bit_test (dev h UDINT) SOFI \<and> \<not> bit_test (dev h UDINT) EORSTI)"

lemma tx_view_other: "r \<noteq> UENUM \<Longrightarrow> r \<noteq> UEDATX \<Longrightarrow> r \<noteq> UEINTX \<Longrightarrow> tx_event (Wr r v) t = t"
  by (cases r) (simp_all add: tx_event_def)

lemma sof_step:
  assumes "frames_only dev" "usb_configuration s \<noteq> 0"
  shows "\<exists>es. isr_USB_GEN_vect dev s =
      s\<lparr>transmit_flush_timer := (if transmit_flush_timer s = 0 then 0 else transmit_flush_timer s - 1),
        usb_bus := usb_bus s @ es\<rparr> \<and>
    (let t = tx_view (usb_bus s); t' = tx_view (usb_bus s @ es)
     in if transmit_flush_timer s = 1 then sent t' = sent t @ [bank t] \<and> bank t' = [] else t' = t)"
proof -
  let ?e = "[Rd UDINT (dev (usb_bus s) UDINT), Wr UDINT 0]"
  have b: "bit_test (dev (usb_bus s) UDINT) SOFI" "\<not> bit_test (dev (usb_bus s) UDINT) EORSTI"
    using assms(1) by (simp_all add: frames_only_def)
  have v: "tx_view (usb_bus s @ ?e) = tx_view (usb_bus s)" by (simp add: tx_view_def tx_view_other)
  consider "transmit_flush_timer s = 0" | "transmit_flush_timer s = 1" |
    "transmit_flush_timer s \<noteq> 0" "transmit_flush_timer s \<noteq> 1" by blast
  then show ?thesis
  proof cases
    case 1
    then have "s = s\<lparr>transmit_flush_timer := 0\<rparr>" by simp
    with 1 b v assms(2) show ?thesis
      by (intro exI [of _ ?e]) (auto simp: isr_USB_GEN_vect_def rd_def wr_def Let_def)
  next
    case 2
    with b v assms(2) show ?thesis
      by (intro exI [of _ "?e @ [Wr UENUM 4, Wr UEINTX 0x3A]"])
        (auto simp: isr_USB_GEN_vect_def rd_def wr_def Let_def tx_view_def tx_view_other)
  next
    case 3
    then have "transmit_flush_timer s - 1 \<noteq> 0" by simp
    with 3 b v assms(2) show ?thesis
      by (intro exI [of _ ?e]) (auto simp: isr_USB_GEN_vect_def rd_def wr_def Let_def)
  qed
qed

lemma sof_run:
  assumes "frames_only dev" "usb_configuration s \<noteq> 0" "transmit_flush_timer s \<noteq> 0"
  shows "let s' = (isr_USB_GEN_vect dev ^^ n) s; t = tx_view (usb_bus s); t' = tx_view (usb_bus s')
    in usb_configuration s' = usb_configuration s \<and>
       unat (transmit_flush_timer s') = unat (transmit_flush_timer s) - n \<and>
       (if n < unat (transmit_flush_timer s) then t' = t else sent t' = sent t @ [bank t] \<and> bank t' = [])"
proof (induction n)
  case 0
  then show ?case using assms(3) by (simp add: unat_gt_0)
next
  case (Suc n)
  let ?s = "(isr_USB_GEN_vect dev ^^ n) s" and ?k = "unat (transmit_flush_timer s)"
  have ih: "usb_configuration ?s = usb_configuration s" "unat (transmit_flush_timer ?s) = ?k - n"
    "if n < ?k then tx_view (usb_bus ?s) = tx_view (usb_bus s)
     else sent (tx_view (usb_bus ?s)) = sent (tx_view (usb_bus s)) @ [bank (tx_view (usb_bus s))] \<and>
       bank (tx_view (usb_bus ?s)) = []"
    using Suc by (simp_all add: Let_def)
  have "usb_configuration ?s \<noteq> 0" using ih(1) assms(2) by simp
  from sof_step [OF assms(1) this] obtain es where
    st: "isr_USB_GEN_vect dev ?s =
      ?s\<lparr>transmit_flush_timer := (if transmit_flush_timer ?s = 0 then 0 else transmit_flush_timer ?s - 1),
        usb_bus := usb_bus ?s @ es\<rparr>"
    "let t = tx_view (usb_bus ?s); t' = tx_view (usb_bus ?s @ es)
     in if transmit_flush_timer ?s = 1 then sent t' = sent t @ [bank t] \<and> bank t' = [] else t' = t" by blast
  have z: "transmit_flush_timer ?s = 0 \<longleftrightarrow> ?k \<le> n" using ih(2) by (simp add: unat_eq_0 [symmetric] del: unat_eq_0)
  have o: "transmit_flush_timer ?s = 1 \<longleftrightarrow> ?k = Suc n" using ih(2) by (simp add: word_unat_eq_iff) arith
  have m: "transmit_flush_timer ?s \<noteq> 0 \<Longrightarrow> unat (transmit_flush_timer ?s - 1) = ?k - Suc n"
    using ih(2) by (simp add: unat_minus_one)
  show ?case
    using st ih(1,3) z o m by (auto simp: Let_def split: if_splits)
qed

text \<open>Bytes that do not fill a packet are not kept back: when the flush timer was started
  with \<open>k\<close> (5 after each write), the packet in the buffer is released at the \<open>k\<close>-th start of frame after it,
  not earlier, and only once, as long as the bus is not reset.\<close>

theorem flush_after_frames:
  assumes "frames_only dev" "usb_configuration s \<noteq> 0" "transmit_flush_timer s \<noteq> 0"
  shows "let t = tx_view (usb_bus s); t' = tx_view (usb_bus ((isr_USB_GEN_vect dev ^^ n) s))
    in if n < unat (transmit_flush_timer s) then t' = t else sent t' = sent t @ [bank t] \<and> bank t' = []"
  using sof_run [OF assms, of n] by (simp add: Let_def)

theorem flush_after_frames_witness:
  "let s = usb_start\<lparr>usb_configuration := 1, transmit_flush_timer := 5, usb_bus := [Wr UENUM 4, Wr UEDATX 7]\<rparr>
   in sent (tx_view (usb_bus ((isr_USB_GEN_vect (\<lambda>_ _. 4) ^^ 4) s))) = [] \<and>
      sent (tx_view (usb_bus ((isr_USB_GEN_vect (\<lambda>_ _. 4) ^^ 9) s))) = [[7]]"
proof -
  let ?s = "usb_start\<lparr>usb_configuration := 1, transmit_flush_timer := 5, usb_bus := [Wr UENUM 4, Wr UEDATX 7]\<rparr>"
  have f: "frames_only (\<lambda>_ _. 4)" by (simp add: frames_only_def bit_test_def)
  have v: "tx_view [Wr UENUM 4, Wr UEDATX 7] = \<lparr>selected = 4, bank = [7], sent = []\<rparr>" by (simp add: tx_view_def)
  show ?thesis
    using flush_after_frames [OF f, of ?s 4] flush_after_frames [OF f, of ?s 9] by (simp add: v Let_def)
qed

section \<open>Serial input\<close>

text \<open>What a history did to the receive endpoint that held the packets \<open>ps\<close>: the endpoint selected and
  the packets left, the first one without the bytes already read.\<close>

definition rx_event :: "usb_event \<Rightarrow> u8 \<times> u8 list list \<Rightarrow> u8 \<times> u8 list list" where
  "rx_event e t =
     (case e of
        Wr UENUM v \<Rightarrow> (v, snd t)
      | Rd UEDATX _ \<Rightarrow> (fst t, if fst t = 3 \<and> snd t \<noteq> [] then tl (hd (snd t)) # tl (snd t) else snd t)
      | Wr UEINTX v \<Rightarrow> (fst t, if fst t = 3 \<and> v = 0x6B then tl (snd t) else snd t)
      | _ \<Rightarrow> t)"

definition rx_view :: "u8 list list \<Rightarrow> usb_event list \<Rightarrow> u8 \<times> u8 list list" where
  "rx_view ps h = fold rx_event h (0, ps)"

definition rx_left :: "u8 list list \<Rightarrow> usb_event list \<Rightarrow> u8 list list" where
  "rx_left ps h = snd (rx_view ps h)"

text \<open>A controller that holds the packets \<open>ps\<close> of the host, of at most 64 bytes each.\<close>

definition sending_host :: "dev \<Rightarrow> u8 list list \<Rightarrow> bool" where
  "sending_host dev ps \<longleftrightarrow> (\<forall>p \<in> set ps. length p \<le> 64) \<and>
     (\<forall>h. fst (rx_view ps h) = 3 \<longrightarrow>
        (case rx_left ps h of
           [] \<Rightarrow> \<not> bit_test (dev h UEINTX) RWAL \<and> \<not> bit_test (dev h UEINTX) RXOUTI \<and> dev h UEBCLX = 0
         | b # _ \<Rightarrow> bit_test (dev h UEINTX) RXOUTI \<and> (bit_test (dev h UEINTX) RWAL \<longleftrightarrow> b \<noteq> []) \<and>
             (b \<noteq> [] \<longrightarrow> dev h UEDATX = hd b) \<and> dev h UEBCLX = of_nat (length b)))"

text \<open>What a call that returns \<open>c\<close> does to the stream of bytes: it takes the first one, or returns -1 when
  there is none.\<close>

definition took_next :: "u8 list \<Rightarrow> int \<Rightarrow> u8 list \<Rightarrow> bool" where
  "took_next bs c bs' \<longleftrightarrow> (if bs = [] then c = -1 \<and> bs' = [] else c = uint (hd bs) \<and> bs' = tl bs)"

lemma rx_view_snoc: "rx_view ps (h @ [e]) = rx_event e (rx_view ps h)"
  by (simp add: rx_view_def)

lemma rx_event_simps [simp]:
  "rx_event (Wr UENUM v) t = (v, snd t)"
  "rx_event (Wr UEINTX v) t = (fst t, if fst t = 3 \<and> v = 0x6B then tl (snd t) else snd t)"
  "rx_event (Rd UEINTX v) t = t" "rx_event (Rd UEBCLX v) t = t"
  "rx_event (Rd UEDATX v) t = (fst t, if fst t = 3 \<and> snd t \<noteq> [] then tl (hd (snd t)) # tl (snd t) else snd t)"
  by (simp_all add: rx_event_def)

text \<open>A packet with data is read at the first poll.\<close>

lemma getchar_first:
  assumes "sending_host dev ps" "fst (rx_view ps (usb_bus s)) = 3" "rx_left ps (usb_bus s) = (v # vs) # bs"
  shows "\<exists>es. getchar_retry dev (Suc n) s = Ret (uint v, s\<lparr>usb_bus := usb_bus s @ es\<rparr>) \<and>
    fst (rx_view ps (usb_bus s @ es)) = 3 \<and> concat (rx_left ps (usb_bus s @ es)) = vs @ concat bs"
proof -
  let ?h = "usb_bus s" and ?i = "dev (usb_bus s) UEINTX"
  have dev: "bit_test (dev h UEINTX) RWAL \<longleftrightarrow> b \<noteq> []" "b \<noteq> [] \<longrightarrow> dev h UEDATX = hd b"
    if "fst (rx_view ps h) = 3" "rx_left ps h = b # cs" for h b cs
    using assms(1) that by (auto simp: sending_host_def split: list.splits)
  let ?h1 = "?h @ [Rd UEINTX ?i]"
  have v1: "fst (rx_view ps ?h1) = 3" "rx_left ps ?h1 = (v # vs) # bs"
    using assms(2,3) by (simp_all add: rx_view_def rx_left_def)
  let ?h2 = "?h @ [Rd UEINTX ?i, Rd UEDATX v]"
  have v2: "fst (rx_view ps ?h2) = 3" "rx_left ps ?h2 = vs # bs"
    using v1 by (simp_all add: rx_view_def rx_left_def)
  let ?j = "dev ?h2 UEINTX"
  let ?es = "[Rd UEINTX ?i, Rd UEDATX v, Rd UEINTX ?j] @ (if vs = [] then [Wr UEINTX 0x6B] else [])"
  have "getchar_retry dev (Suc n) s = Ret (uint v, s\<lparr>usb_bus := ?h @ ?es\<rparr>)"
    using dev(1) [OF assms(2,3)] dev(2) [OF v1] dev(1) [OF v2] by (simp add: rd_def wr_def Let_def)
  moreover have "fst (rx_view ps (?h @ ?es)) = 3" "concat (rx_left ps (?h @ ?es)) = vs @ concat bs"
    using v2 by (auto simp: rx_view_def rx_left_def)
  ultimately show ?thesis by blast
qed

lemma getchar_retry_next:
  assumes sh: "sending_host dev ps" and "fst (rx_view ps (usb_bus s)) = 3" "length (rx_left ps (usb_bus s)) < n"
  shows "\<exists>c es. getchar_retry dev n s = Ret (c, s\<lparr>usb_bus := usb_bus s @ es\<rparr>) \<and>
    fst (rx_view ps (usb_bus s @ es)) = 3 \<and>
    took_next (concat (rx_left ps (usb_bus s))) c (concat (rx_left ps (usb_bus s @ es)))"
  using assms(2,3)
proof (induction n arbitrary: s)
  case (Suc n)
  let ?h = "usb_bus s" and ?i = "dev (usb_bus s) UEINTX"
  have sh': "\<forall>h. fst (rx_view ps h) = 3 \<longrightarrow>
        (case rx_left ps h of
           [] \<Rightarrow> \<not> bit_test (dev h UEINTX) RWAL \<and> \<not> bit_test (dev h UEINTX) RXOUTI \<and> dev h UEBCLX = 0
         | b # _ \<Rightarrow> bit_test (dev h UEINTX) RXOUTI \<and> (bit_test (dev h UEINTX) RWAL \<longleftrightarrow> b \<noteq> []) \<and>
             (b \<noteq> [] \<longrightarrow> dev h UEDATX = hd b) \<and> dev h UEBCLX = of_nat (length b))"
    using sh by (simp add: sending_host_def)
  show ?case
  proof (cases "rx_left ps ?h")
    case Nil
    then have "\<not> bit_test ?i RWAL \<and> \<not> bit_test ?i RXOUTI" using sh' Suc.prems(1) by (auto dest: spec [of _ ?h])
    with Nil Suc.prems(1) show ?thesis
      by (intro exI [of _ "-1"] exI [of _ "[Rd UEINTX ?i]"]) (auto simp: rd_def Let_def rx_view_snoc rx_left_def took_next_def)
  next
    case (Cons b bs)
    show ?thesis
    proof (cases b)
      case empty: Nil
      with Cons have i: "\<not> bit_test ?i RWAL" "bit_test ?i RXOUTI"
        using sh' Suc.prems(1) by (auto dest: spec [of _ ?h])
      let ?s = "s\<lparr>usb_bus := ?h @ [Rd UEINTX ?i, Wr UEINTX 0x6B]\<rparr>"
      have v: "fst (rx_view ps (usb_bus ?s)) = 3" "rx_left ps (usb_bus ?s) = bs"
        using Suc.prems(1) Cons by (simp_all add: rx_view_def rx_left_def)
      from Suc.IH [OF v(1)] v(2) Cons Suc.prems(2) obtain c es where
        "getchar_retry dev n ?s = Ret (c, ?s\<lparr>usb_bus := usb_bus ?s @ es\<rparr>)" "fst (rx_view ps (usb_bus ?s @ es)) = 3"
        "took_next (concat bs) c (concat (rx_left ps (usb_bus ?s @ es)))" by auto
      with i Cons empty show ?thesis
        by (intro exI [of _ c] exI [of _ "[Rd UEINTX ?i, Wr UEINTX 0x6B] @ es"]) (auto simp: rd_def wr_def Let_def)
    next
      case data: (Cons v vs)
      from getchar_first [OF sh Suc.prems(1), of v vs bs n] Cons data obtain es where
        "getchar_retry dev (Suc n) s = Ret (uint v, s\<lparr>usb_bus := ?h @ es\<rparr>)"
        "fst (rx_view ps (?h @ es)) = 3" "concat (rx_left ps (?h @ es)) = vs @ concat bs" by auto
      then show ?thesis
        using Cons data by (intro exI [of _ "uint v"] exI [of _ es]) (simp add: took_next_def)
    qed
  qed
qed simp

text \<open>Input in order and without loss: with the packets of the host in the controller,
  \<open>usb_serial_getchar\<close> returns the next byte of the stream they form and removes exactly this byte, across
  packet boundaries and past empty packets; it returns -1 exactly when no byte is left. One poll more
  than there are packets is enough.\<close>

theorem usb_getchar_next:
  assumes "sending_host dev ps" "usb_configuration s \<noteq> 0" "length (rx_left ps (usb_bus s)) < fuel"
  shows "\<exists>c s'. usb_serial_getchar dev fuel s = Ret (c, s') \<and> same_vars s s' \<and>
    took_next (concat (rx_left ps (usb_bus s))) c (concat (rx_left ps (usb_bus s')))"
proof -
  let ?s = "wr UENUM 3 s"
  have v: "fst (rx_view ps (usb_bus ?s)) = 3" "rx_left ps (usb_bus ?s) = rx_left ps (usb_bus s)"
    by (simp_all add: rx_view_snoc rx_left_def)
  from getchar_retry_next [OF assms(1) v(1), of fuel] v(2) assms(3) obtain c es where
    "getchar_retry dev fuel ?s = Ret (c, ?s\<lparr>usb_bus := usb_bus ?s @ es\<rparr>)"
    "took_next (concat (rx_left ps (usb_bus s))) c (concat (rx_left ps (usb_bus ?s @ es)))" by auto
  then show ?thesis
    using assms(2) same_vars_trans [OF same_vars_wr [of s UENUM 3] same_vars_bus [of ?s "usb_bus ?s @ es"]]
    by (intro exI [of _ c] exI [of _ "?s\<lparr>usb_bus := usb_bus ?s @ es\<rparr>"])
      (auto simp: usb_serial_getchar_def Let_def)
qed

text \<open>The controller that holds three packets, one of them empty.\<close>

definition three_packets :: "u8 list list" where "three_packets = [[], [1, 2], [3]]"

definition packet_host :: dev where
  "packet_host h r =
     (case rx_left three_packets h of
        [] \<Rightarrow> 0
      | b # _ \<Rightarrow> if r = UEINTX then (if b = [] then 4 else 0x24)
                else if r = UEDATX then hd b else of_nat (length b))"

lemma packet_host_sends: "sending_host packet_host three_packets"
  by (auto simp: sending_host_def packet_host_def bit_test_def three_packets_def split: list.splits)

theorem usb_getchar_next_witness:
  "\<exists>s'. usb_serial_getchar packet_host 4 (usb_start\<lparr>usb_configuration := 1\<rparr>) = Ret (1, s') \<and>
     concat (rx_left three_packets (usb_bus s')) = [2, 3]"
  using usb_getchar_next [OF packet_host_sends, of "usb_start\<lparr>usb_configuration := 1\<rparr>" 4]
  by (auto simp: usb_start_def rx_left_def rx_view_def three_packets_def took_next_def)

text \<open>The main loop never takes the error code for a character: when \<open>usb_serial_available\<close>
  reports bytes, the next \<open>usb_serial_getchar\<close> returns the first byte of the stream (not -1) at its first
  poll; when it reports none, no byte is lost, although it may have discarded an empty packet.\<close>

theorem usb_available_getchar:
  assumes "sending_host dev ps" "usb_configuration s \<noteq> 0" "\<forall>p \<in> set (rx_left ps (usb_bus s)). length p \<le> 64"
  shows "\<exists>n s1. usb_serial_available dev s = (n, s1) \<and>
    concat (rx_left ps (usb_bus s1)) = concat (rx_left ps (usb_bus s)) \<and>
    (n \<noteq> 0 \<longrightarrow> (\<exists>c s2. usb_serial_getchar dev 1 s1 = Ret (uint (c :: u8), s2) \<and>
       c # concat (rx_left ps (usb_bus s2)) = concat (rx_left ps (usb_bus s))))"
proof -
  let ?h = "usb_bus s @ [Wr UENUM 3]"
  have v: "fst (rx_view ps ?h) = 3" "rx_left ps ?h = rx_left ps (usb_bus s)"
    by (simp_all add: rx_view_snoc rx_left_def)
  let ?n = "dev ?h UEBCLX"
  let ?h1 = "usb_bus s @ [Wr UENUM 3, Rd UEBCLX ?n]"
  have v1: "fst (rx_view ps ?h1) = 3" "rx_left ps ?h1 = rx_left ps (usb_bus s)"
    using v by (simp_all add: rx_view_def rx_left_def)
  show ?thesis
  proof (cases "rx_left ps (usb_bus s)")
    case Nil
    then have "?n = 0" "\<not> bit_test (dev ?h1 UEINTX) RXOUTI"
      using assms(1) v v1 by (auto simp: sending_host_def split: list.splits)
    with Nil v1 assms(2) show ?thesis
      by (auto simp: usb_serial_available_def rd_def wr_def Let_def rx_view_def rx_left_def)
  next
    case (Cons b bs)
    have nb: "?n = of_nat (length b)" and i: "bit_test (dev ?h1 UEINTX) RWAL \<longleftrightarrow> b \<noteq> []"
      and d: "\<And>h. fst (rx_view ps h) = 3 \<Longrightarrow> rx_left ps h = b # bs \<Longrightarrow> b \<noteq> [] \<Longrightarrow> dev h UEDATX = hd b"
      using assms(1) v v1 Cons by (auto simp: sending_host_def split: list.splits)
    show ?thesis
    proof (cases b)
      case Nil
      with nb have "?n = 0" by simp
      with Nil Cons v1 i assms(2) show ?thesis
        by (auto simp: usb_serial_available_def rd_def wr_def Let_def rx_view_def rx_left_def)
    next
      case (Cons x xs)
      have "length b \<le> 64" using assms(3) \<open>rx_left ps (usb_bus s) = b # bs\<close> by simp
      then have "unat ?n = length b" by (simp add: nb unat_of_nat)
      then have "?n \<noteq> 0" using Cons by auto
      let ?s1 = "s\<lparr>usb_bus := ?h1\<rparr>"
      have av: "usb_serial_available dev s = (?n, ?s1)"
        using \<open>?n \<noteq> 0\<close> assms(2) by (simp add: usb_serial_available_def rd_def wr_def Let_def)
      let ?s2 = "wr UENUM 3 ?s1"
      have v2: "fst (rx_view ps (usb_bus ?s2)) = 3" "rx_left ps (usb_bus ?s2) = (x # xs) # bs"
        using v1 Cons \<open>rx_left ps (usb_bus s) = b # bs\<close> by (simp_all add: rx_view_def rx_left_def)
      from getchar_first [OF assms(1) v2, of 0] obtain es where
        "getchar_retry dev 1 ?s2 = Ret (uint x, ?s2\<lparr>usb_bus := usb_bus ?s2 @ es\<rparr>)"
        "concat (rx_left ps (usb_bus ?s2 @ es)) = xs @ concat bs" by auto
      then have "\<exists>s2. usb_serial_getchar dev 1 ?s1 = Ret (uint x, s2) \<and>
          x # concat (rx_left ps (usb_bus s2)) = concat (rx_left ps (usb_bus s))"
        using assms(2) Cons \<open>rx_left ps (usb_bus s) = b # bs\<close>
        by (intro exI [of _ "?s2\<lparr>usb_bus := usb_bus ?s2 @ es\<rparr>"]) (simp add: usb_serial_getchar_def)
      with av v1(2) show ?thesis by auto
    qed
  qed
qed

theorem usb_available_getchar_witness:
  "\<exists>n s1. usb_serial_available packet_host (usb_start\<lparr>usb_configuration := 1\<rparr>) = (n, s1) \<and>
     concat (rx_left three_packets (usb_bus s1)) = [1, 2, 3]"
  using usb_available_getchar [OF packet_host_sends, of "usb_start\<lparr>usb_configuration := 1\<rparr>"]
  by (auto simp: usb_start_def rx_left_def rx_view_def three_packets_def)

section \<open>A device that is not configured\<close>

text \<open>The states the driver can reach: from its start through its functions, whatever the controller
  answers.\<close>

inductive usb_step :: "dev \<Rightarrow> string \<Rightarrow> usb \<Rightarrow> usb \<Rightarrow> bool" for dev product where
  poll: "usb_poll dev product fuel s = Ret s' \<Longrightarrow> usb_step dev product s s'"
| getchar: "usb_serial_getchar dev fuel s = Ret (c, s') \<Longrightarrow> usb_step dev product s s'"
| available: "usb_serial_available dev s = (n, s') \<Longrightarrow> usb_step dev product s s'"
| flush_input: "usb_serial_flush_input dev fuel s = Ret s' \<Longrightarrow> usb_step dev product s s'"
| putchar: "usb_serial_putchar dev fuel v s = Ret (c, s') \<Longrightarrow> usb_step dev product s s'"
| putchar_nowait: "usb_serial_putchar_nowait dev v s = (c, s') \<Longrightarrow> usb_step dev product s s'"
| put: "usb_serial_write dev fuel turns buffer len s = Ret (c, s') \<Longrightarrow> usb_step dev product s s'"
| flush_output: "usb_step dev product s (usb_serial_flush_output s)"
| set_control: "usb_serial_set_control dev v s = (c, s') \<Longrightarrow> usb_step dev product s s'"

inductive_cases usb_stepE: "usb_step dev product s s'"

text \<open>The invariant: the line coding always has seven bytes, the flush timer never exceeds its start
  value, and the time-out note is a flag.\<close>

definition usb_inv :: "usb \<Rightarrow> bool" where
  "usb_inv s \<longleftrightarrow> length (cdc_line_coding s) = 7 \<and> transmit_flush_timer s \<le> TRANSMIT_FLUSH_TIMEOUT \<and>
     transmit_previous_timeout s \<in> {0, 1}"

lemma usb_inv_frame: "same_vars s s' \<Longrightarrow> usb_inv s \<Longrightarrow> usb_inv s'"
  using same_vars_fields [of s s'] by (simp add: usb_inv_def)

lemma usb_inv_bus [simp]: "usb_inv (s\<lparr>usb_bus := b\<rparr>) = usb_inv s" "usb_inv (wr r v s) = usb_inv s"
  "usb_inv (wr_all vs s) = usb_inv s" "usb_inv (usb_send_in s) = usb_inv s" "usb_inv (usb_stall s) = usb_inv s"
  "usb_inv (usb_ack_out s) = usb_inv s"
  by (simp_all add: usb_inv_def wr_def wr_all_bus usb_send_in_def usb_stall_def usb_ack_out_def)

lemma rd_frame: "rd dev r s = (v, s') \<Longrightarrow> same_vars s s'"
  by (auto simp: rd_def Let_def)

lemma rd_inv [simp]: "usb_inv (snd (rd dev r s)) = usb_inv s"
  by (simp add: rd_def Let_def)

lemma getchar_retry_inv: "getchar_retry dev n s = Ret (c, s') \<Longrightarrow> usb_inv s \<Longrightarrow> usb_inv s'"
  by (induction n arbitrary: s) (auto simp: rd_def Let_def split: if_splits)

lemma flush_loop_inv: "flush_loop dev n s = Ret s' \<Longrightarrow> usb_inv s \<Longrightarrow> usb_inv s'"
proof (induction n arbitrary: s)
  case (Suc n)
  show ?case
    using Suc.prems Suc.IH [of "wr UEINTX 0x6B (snd (rd dev UEINTX s))"]
    by (auto simp: rd_def Let_def split: if_splits)
qed simp

lemma tx_wait_inv: "tx_wait dev to n s = Ret (ok, s') \<Longrightarrow> usb_inv s \<Longrightarrow> usb_inv s'"
proof (induction n arbitrary: s)
  case (Suc n)
  let ?t = "snd (rd dev UDFNUML (snd (rd dev UEINTX s)))"
  show ?case
    using Suc.prems Suc.IH [of "wr UENUM 4 ?t"]
    by (auto simp: rd_def Let_def usb_inv_def split: if_splits)
qed simp

lemma tx_start_inv: "tx_start dev s = (ok, s') \<Longrightarrow> usb_inv s \<Longrightarrow> usb_inv s'"
  by (auto simp: tx_start_def rd_def wr_def Let_def usb_inv_def split: if_splits)

lemma tx_finish_inv: "usb_inv s \<Longrightarrow> usb_inv (tx_finish dev s)"
  by (simp add: tx_finish_def rd_def wr_def Let_def usb_inv_def)

lemma write_packets_inv:
  "write_packets dev fuel turns buffer len s = Ret (c, s') \<Longrightarrow> usb_inv s \<Longrightarrow> usb_inv s'"
proof (induction turns arbitrary: buffer len s)
  case (Suc turns)
  show ?case
  proof (cases "len = 0")
    case False
    let ?s = "snd (rd dev UDFNUML s)"
    from Suc.prems(1) False obtain ok t where
      t: "tx_wait dev (fst (rd dev UDFNUML s) + TRANSMIT_TIMEOUT) fuel ?s = Ret (ok, t)"
      by (auto simp: split_def obind_eq_Ret Let_def)
    have inv: "usb_inv t" using tx_wait_inv [OF t] Suc.prems(2) by simp
    show ?thesis
    proof (cases ok)
      case True
      let ?w = "next_write (fst (rd dev UEBCLX t)) len"
      from Suc.prems(1) False True t obtain b u where
        u: "copy_packet ?w buffer (snd (rd dev UEBCLX t)) = Ret (b, u)"
        "write_packets dev fuel turns b (len - ucast ?w) (tx_finish dev u) = Ret (c, s')"
        by (auto simp: split_def obind_eq_Ret Let_def)
      have "usb_inv u" using u(1) inv by (auto simp: copy_packet_def Let_def split: if_splits)
      then show ?thesis using Suc.IH [OF u(2)] tx_finish_inv by blast
    qed (use Suc.prems False t inv in \<open>simp add: split_def Let_def\<close>)
  qed (use Suc.prems in simp)
qed (simp split: if_splits)

lemma same_vars_ops [simp]: "same_vars s (wr_all vs s)" "same_vars s (usb_send_in s)" "same_vars s (usb_stall s)"
  "same_vars s (usb_ack_out s)"
  by (simp_all add: wr_all_bus usb_send_in_def usb_stall_def usb_ack_out_def)

lemma send_descriptor_frame: "send_descriptor dev fuel len data s = Ret s' \<Longrightarrow> same_vars s s'"
proof (induction dev fuel len data s rule: send_descriptor.induct)
  case (1 dev fuel len data s)
  from 1(2) obtain i t where t: "wait_for dev UEINTX (push_bit TXINI 1 OR push_bit RXOUTI 1) fuel s = Ret (i, t)"
    by (subst (asm) send_descriptor.simps) (auto split: outcome.splits)
  note un = 1(2) [unfolded send_descriptor.simps [of dev fuel len data s] t outcome.case prod.case Let_def]
  let ?u = "usb_send_in (wr_all (take (unat (if len < 16 then len else 16)) data) t)"
  have "same_vars t ?u" by (rule same_vars_trans [OF same_vars_ops(1) same_vars_ops(2)])
  then have "same_vars t s'"
    using 1(1) [OF t refl _ refl refl] un same_vars_trans [of t ?u s'] by (auto split: if_splits)
  with wait_for_frame [OF t] show ?case by (rule same_vars_trans)
qed

lemma config_endpoints_frame: "same_vars s (config_endpoints n i cfg s)"
proof (induction n arbitrary: i cfg s)
  case (Suc n)
  have 1: "same_vars s (wr r v (wr q w s))" for r v q w by (rule same_vars_trans [OF same_vars_wr same_vars_wr])
  have 2: "same_vars s (wr r' v' (wr q' w' (wr r v (wr q w s))))" for r v q w r' v' q' w'
    by (rule same_vars_trans [OF 1 same_vars_trans [OF same_vars_wr same_vars_wr]])
  show ?case
    using same_vars_trans [OF 1 Suc] same_vars_trans [OF 2 Suc] by (auto simp: Let_def)
qed simp

lemma get_descriptor_frame: "get_descriptor dev product fuel q s = Ret s' \<Longrightarrow> same_vars s s'"
  by (auto simp: get_descriptor_def Let_def split: option.splits dest: send_descriptor_frame)

lemma wait_in_frame: "usb_wait_in_ready dev fuel s = Ret s' \<Longrightarrow> same_vars s s'"
  by (auto simp: usb_wait_in_ready_def obind_eq_Ret dest: wait_for_frame)

lemma wait_out_frame: "usb_wait_receive_out dev fuel s = Ret s' \<Longrightarrow> same_vars s s'"
  by (auto simp: usb_wait_receive_out_def obind_eq_Ret dest: wait_for_frame)

text \<open>Each request changes at most the one variable it is about.\<close>

definition setup_effect :: "setup_packet \<Rightarrow> usb \<Rightarrow> usb \<Rightarrow> bool" where
  "setup_effect q s s' \<longleftrightarrow>
     (if bRequest q = 9 \<and> bmRequestType q = 0
      then same_vars (s\<lparr>usb_configuration := ucast (wValue q), cdc_line_rtsdtr := 0, transmit_flush_timer := 0\<rparr>) s'
      else if bRequest q = 0x20 \<and> bmRequestType q = 0x21
      then \<exists>vs. length vs = 7 \<and> same_vars (s\<lparr>cdc_line_coding := vs\<rparr>) s'
      else if bRequest q = 0x22 \<and> bmRequestType q = 0x21
      then same_vars (s\<lparr>cdc_line_rtsdtr := ucast (wValue q)\<rparr>) s'
      else same_vars s s')"

lemma same_vars_step: "same_vars s t \<Longrightarrow> same_vars s (wr r v t)" "same_vars s t \<Longrightarrow> same_vars s (wr_all vs t)"
  "same_vars s t \<Longrightarrow> same_vars s (usb_send_in t)" "same_vars s t \<Longrightarrow> same_vars s (usb_ack_out t)"
  "same_vars s t \<Longrightarrow> same_vars s (usb_stall t)"
  by (auto elim: same_vars_trans)

lemma set_configuration_frame:
  "same_vars (s\<lparr>usb_configuration := ucast (wValue q), cdc_line_rtsdtr := 0, transmit_flush_timer := 0\<rparr>) (set_configuration q s)"
  unfolding set_configuration_def Let_def
  by (intro same_vars_step(1) same_vars_trans [OF same_vars_ops(2) config_endpoints_frame])

lemma set_line_coding_frame:
  assumes "set_line_coding dev fuel s = Ret s'"
  shows "\<exists>vs. length vs = 7 \<and> same_vars (s\<lparr>cdc_line_coding := vs\<rparr>) s'"
proof -
  from assms obtain t where t: "usb_wait_receive_out dev fuel s = Ret t"
    by (auto simp: set_line_coding_def obind_eq_Ret)
  from read_coding_data [of dev 7 t] obtain es where
    es: "read_coding dev 7 t = (data_read es, t\<lparr>usb_bus := usb_bus t @ es\<rparr>)" "length (data_read es) = 7" by blast
  have s': "s' = usb_send_in (usb_ack_out (t\<lparr>usb_bus := usb_bus t @ es, cdc_line_coding := data_read es\<rparr>))"
    using assms t es(1) by (simp add: set_line_coding_def)
  have "same_vars (s\<lparr>cdc_line_coding := data_read es\<rparr>) (t\<lparr>usb_bus := usb_bus t @ es, cdc_line_coding := data_read es\<rparr>)"
    using wait_out_frame [OF t] by (cases s, cases t) (simp add: same_vars_def)
  with es(2) s' show ?thesis by (auto intro: same_vars_step)
qed

lemma get_status_frame:
  assumes "get_status dev fuel q s = Ret s'"
  shows "same_vars s s'"
proof -
  from assms obtain t where t: "usb_wait_in_ready dev fuel s = Ret t"
    by (auto simp: get_status_def obind_eq_Ret)
  have "same_vars t s'"
    using assms t by (auto simp: get_status_def rd_def Let_def split: if_splits
        intro!: same_vars_step same_vars_trans [OF same_vars_wr same_vars_bus])
  with wait_in_frame [OF t] show ?thesis by (rule same_vars_trans)
qed

lemma endpoint_halt_frame: "same_vars s (endpoint_halt q s)"
  by (auto simp: endpoint_halt_def Let_def intro!: same_vars_step)

lemma handle_setup_effect:
  assumes "handle_setup dev product fuel q s = Ret s'"
  shows "setup_effect q s s'"
proof -
  consider "bRequest q = 6" | "bRequest q = 5" | "bRequest q = 9" "bmRequestType q = 0"
    | "bRequest q = 8" "bmRequestType q = 0x80" | "bRequest q = 0x21" "bmRequestType q = 0xA1"
    | "bRequest q = 0x20" "bmRequestType q = 0x21" | "bRequest q = 0x22" "bmRequestType q = 0x21"
    | "bRequest q = 0" | "(bRequest q = 1 \<or> bRequest q = 3) \<and> bmRequestType q = 0x02 \<and> wValue q = 0"
    | "bRequest q \<noteq> 6" "bRequest q \<noteq> 5" "\<not> (bRequest q = 9 \<and> bmRequestType q = 0)"
      "\<not> (bRequest q = 8 \<and> bmRequestType q = 0x80)" "\<not> (bRequest q = 0x21 \<and> bmRequestType q = 0xA1)"
      "\<not> (bRequest q = 0x20 \<and> bmRequestType q = 0x21)" "\<not> (bRequest q = 0x22 \<and> bmRequestType q = 0x21)"
      "bRequest q \<noteq> 0" "\<not> ((bRequest q = 1 \<or> bRequest q = 3) \<and> bmRequestType q = 0x02 \<and> wValue q = 0)"
    by blast
  then show ?thesis
  proof cases
    case 1
    then show ?thesis using assms get_descriptor_frame by (simp add: handle_setup_def setup_effect_def)
  next
    case 2
    then show ?thesis
      using assms by (auto simp: handle_setup_def setup_effect_def obind_eq_Ret
          intro: same_vars_step same_vars_trans [OF same_vars_ops(2)] dest!: wait_in_frame)
  next
    case 3
    then show ?thesis using assms set_configuration_frame by (auto simp: handle_setup_def setup_effect_def)
  next
    case 6
    then show ?thesis using assms set_line_coding_frame by (simp add: handle_setup_def setup_effect_def)
  next
    case 8
    then show ?thesis using assms get_status_frame by (simp add: handle_setup_def setup_effect_def)
  next
    case 9
    then show ?thesis using assms endpoint_halt_frame by (auto simp: handle_setup_def setup_effect_def)
  next
    case 10
    then have "handle_setup dev product fuel q s = Ret (usb_stall s)" by (simp only: handle_setup_def if_False)
    with 10(3,6,7) assms show ?thesis by (simp only: setup_effect_def if_False outcome.inject) auto
  qed (use assms in \<open>auto simp: handle_setup_def setup_effect_def obind_eq_Ret
          intro: same_vars_step dest!: wait_in_frame\<close>)
qed

lemma usb_inv_updates:
  assumes "usb_inv s"
  shows "usb_inv (s\<lparr>usb_configuration := v, cdc_line_rtsdtr := w, transmit_flush_timer := 0\<rparr>)"
    "usb_inv (s\<lparr>usb_configuration := v, cdc_line_rtsdtr := w\<rparr>)"
    "length vs = 7 \<Longrightarrow> usb_inv (s\<lparr>cdc_line_coding := vs\<rparr>)" "usb_inv (s\<lparr>cdc_line_rtsdtr := w\<rparr>)"
  using assms by (simp_all add: usb_inv_def)

lemma setup_effect_inv: "setup_effect q s s' \<Longrightarrow> usb_inv s \<Longrightarrow> usb_inv s'"
  by (auto simp: setup_effect_def split: if_splits intro: usb_inv_frame usb_inv_updates)

lemma setup_effect_config:
  assumes "setup_effect q s s'"
  shows "usb_configuration s' =
    (if bRequest q = 9 \<and> bmRequestType q = 0 then ucast (wValue q) else usb_configuration s)"
  using assms unfolding setup_effect_def
  by (auto split: if_splits dest: same_vars_fields(1))

lemma rd_word_frame: "rd_word dev s = (v, s') \<Longrightarrow> same_vars s s'"
  by (auto simp: rd_word_def rd_def Let_def)

lemma read_setup_frame: "same_vars s (snd (read_setup dev s))"
  by (auto simp: read_setup_def rd_word_def rd_def Let_def split: prod.splits)

lemma usb_com_effect:
  assumes "isr_USB_COM_vect dev product fuel s = Ret s'"
  shows "\<exists>q t. same_vars s t \<and> setup_effect q t s'"
proof -
  let ?t = "snd (rd dev UEINTX (wr UENUM 0 s))"
  have t: "same_vars s ?t" by (simp add: rd_def wr_def Let_def)
  show ?thesis
  proof (cases "bit_test (fst (rd dev UEINTX (wr UENUM 0 s))) RXSTPI")
    case True
    let ?q = "fst (read_setup dev ?t)"
    let ?u = "wr UEINTX (NOT (push_bit RXSTPI 1 OR push_bit RXOUTI 1 OR push_bit TXINI 1)) (snd (read_setup dev ?t))"
    have "handle_setup dev product fuel ?q ?u = Ret s'"
      using assms True by (simp add: isr_USB_COM_vect_def split_def Let_def)
    moreover have "same_vars s ?u"
      by (rule same_vars_trans [OF t same_vars_step(1) [OF read_setup_frame]])
    ultimately show ?thesis using handle_setup_effect by blast
  next
    case False
    then have "s' = usb_stall ?t" using assms by (simp add: isr_USB_COM_vect_def split_def Let_def)
    then have "setup_effect \<lparr>bmRequestType = 0, bRequest = 0, wValue = 0, wIndex = 0, wLength = 0\<rparr> ?t s'"
      by (simp add: setup_effect_def)
    with t show ?thesis by blast
  qed
qed

lemma usb_gen_inv:
  assumes "usb_inv s"
  shows "usb_inv (isr_USB_GEN_vect dev s)"
proof -
  have "t \<le> 5 \<Longrightarrow> t \<noteq> 0 \<Longrightarrow> t - 1 \<le> 5" for t :: u8 by (simp add: word_le_nat_alt unat_minus_one)
  then show ?thesis
    using assms
    by (simp add: isr_USB_GEN_vect_def rd_def wr_def Let_def usb_inv_def TRANSMIT_FLUSH_TIMEOUT_def)
qed

lemma usb_poll_inv:
  assumes "usb_inv s" "usb_poll dev product fuel s = Ret s'"
  shows "usb_inv s'"
proof -
  let ?a = "snd (rd dev UDINT (wr UENUM 0 s))"
  let ?b = "if fst (rd dev UDINT (wr UENUM 0 s)) AND (push_bit 3 1 OR push_bit 2 1) \<noteq> 0 then isr_USB_GEN_vect dev ?a else ?a"
  let ?c = "snd (rd dev UEINTX (wr UENUM 0 ?b))"
  have "usb_inv ?b" using assms(1) usb_gen_inv by simp
  then have c: "usb_inv ?c" by simp
  have "isr_USB_COM_vect dev product fuel ?c = Ret s' \<or> s' = ?c"
    using assms(2) unfolding usb_poll_def Let_def split_def by (simp only: outcome.inject split: if_splits) auto
  then show ?thesis
    using c usb_com_effect [of dev product fuel ?c s'] setup_effect_inv usb_inv_frame by blast
qed

lemma usb_step_inv: "usb_step dev product s s' \<Longrightarrow> usb_inv s \<Longrightarrow> usb_inv s'"
proof (induction rule: usb_step.induct)
  case (getchar fuel s c s')
  then show ?case by (auto simp: usb_serial_getchar_def split: if_splits dest: getchar_retry_inv)
next
  case (available s n s')
  then show ?case by (auto simp: usb_serial_available_def rd_def Let_def split: if_splits)
next
  case (flush_input fuel s s')
  then show ?case by (auto simp: usb_serial_flush_input_def split: if_splits dest: flush_loop_inv)
next
  case (putchar fuel v s c s')
  then obtain ok t where t: "tx_start dev s = (ok, t)" by (cases "tx_start dev s")
  with putchar tx_start_inv [OF t] show ?case
    by (auto simp: usb_serial_putchar_def rd_def Let_def obind_eq_Ret intro: tx_finish_inv
        split: if_splits dest!: tx_wait_inv)
next
  case (putchar_nowait v s c s')
  then show ?case
    by (auto simp: usb_serial_putchar_nowait_def rd_def Let_def intro: tx_finish_inv split: if_splits)
next
  case (put fuel turns buffer len s c s')
  then obtain ok t where t: "tx_start dev s = (ok, t)" by (cases "tx_start dev s")
  with put tx_start_inv [OF t] show ?case
    by (auto simp: usb_serial_write_def split: if_splits dest: write_packets_inv)
next
  case (flush_output s)
  then show ?case by (auto simp: usb_serial_flush_output_def usb_inv_def)
next
  case (set_control v s c s')
  then show ?case by (auto simp: usb_serial_set_control_def rd_def Let_def split: if_splits)
qed (auto intro: usb_poll_inv)

text \<open>In every state the driver can reach, through any sequence of its functions, any requests
  of the host and any answers of the controller, the line coding has its seven bytes (so the accessors
  read inside of it), a pending flush is at most five frames away, and the time-out note is a flag.\<close>

theorem usb_reach_inv:
  assumes "(usb_step dev product)\<^sup>*\<^sup>* usb_start s"
  shows "length (cdc_line_coding s) = 7 \<and> transmit_flush_timer s \<le> 5 \<and> transmit_previous_timeout s \<in> {0, 1}"
  using assms
proof -
  have "usb_inv usb_start" by (simp add: usb_inv_def usb_start_def TRANSMIT_FLUSH_TIMEOUT_def)
  with assms have "usb_inv s" by (induction rule: rtranclp_induct) (auto intro: usb_step_inv)
  then show ?thesis by (simp add: usb_inv_def TRANSMIT_FLUSH_TIMEOUT_def)
qed

theorem usb_reach_inv_witness:
  "\<exists>s. (usb_step (\<lambda>_ _. 0) ''PQUAL-firmware'')\<^sup>*\<^sup>* usb_start s \<and> usb_bus s \<noteq> [] \<and> length (cdc_line_coding s) = 7"
proof -
  have "\<exists>s. usb_poll (\<lambda>_ _. 0) ''PQUAL-firmware'' 0 usb_start = Ret s \<and> usb_bus s \<noteq> []"
    by (simp add: usb_poll_def rd_def Let_def bit_test_def)
  then obtain s where s: "usb_poll (\<lambda>_ _. 0) ''PQUAL-firmware'' 0 usb_start = Ret s" "usb_bus s \<noteq> []" by blast
  from s(1) have "(usb_step (\<lambda>_ _. 0) ''PQUAL-firmware'')\<^sup>*\<^sup>* usb_start s" by (intro r_into_rtranclp usb_step.poll)
  with usb_reach_inv [OF this] s(2) show ?thesis by blast
qed

text \<open>Before the host has configured the device, and again after a reset of the bus, every serial
  function reports failure and touches neither a register nor a variable.\<close>

theorem unconfigured_inert:
  assumes "usb_configuration s = 0 \<or> (\<exists>s0. s = isr_USB_GEN_vect dev s0 \<and> bit_test (dev (usb_bus s0) UDINT) EORSTI)"
  shows "usb_serial_getchar dev fuel s = Ret (-1, s) \<and> usb_serial_available dev s = (0, s) \<and>
    usb_serial_flush_input dev fuel s = Ret s \<and> usb_serial_putchar dev fuel v s = Ret (-1, s) \<and>
    usb_serial_putchar_nowait dev v s = (-1, s) \<and> usb_serial_write dev fuel turns buffer len s = Ret (-1, s) \<and>
    usb_serial_set_control dev v s = (-1, s)"
proof -
  have "usb_configuration s = 0"
    using assms by (auto simp: isr_USB_GEN_vect_def rd_def wr_def Let_def)
  then show ?thesis
    by (simp add: usb_serial_getchar_def usb_serial_available_def usb_serial_flush_input_def usb_serial_putchar_def
        usb_serial_putchar_nowait_def usb_serial_write_def usb_serial_set_control_def tx_start_def)
qed

theorem unconfigured_inert_witness:
  "let s = isr_USB_GEN_vect (\<lambda>_ _. 8) (usb_start\<lparr>usb_configuration := 1\<rparr>)
   in usb_serial_write (\<lambda>_ _. 8) 1 1 [7] 1 s = Ret (-1, s)"
  using unconfigured_inert [of "isr_USB_GEN_vect (\<lambda>_ _. 8) (usb_start\<lparr>usb_configuration := 1\<rparr>)" "\<lambda>_ _. 8" 1 0 1 "[7]" 1]
  by (auto simp: bit_test_def Let_def)

end
