(* ===== verification/PanelQual.thy ===== *)
theory PanelQual
  imports StreamTable UsbSerial
begin

unbundle bit_operations_syntax

text \<open>
  The hit-counting panel, \<^verbatim>\<open>hw/panel_qual/firmware\<close>: \<^verbatim>\<open>panel_qual.c\<close>, \<^verbatim>\<open>hit.c\<close> and
  \<^verbatim>\<open>enter_bootloader.c\<close>. It has the stream commands of \<open>StreamTable\<close> with a table of twelve streams,
  talks over USB, and counts falling edges of an input with a dead time.

  What the USB driver answers in a turn of the main loop (configured or not, the DTR line, a
  character or none) is the argument \<open>usb_in\<close> of \<open>panel_main\<close>; what is written with
  \<open>usb_serial_write\<close> is collected in \<open>usb_out\<close>. \<open>version\<close> is \<open>DEV_VERSION\<close>, with a revision from the build.
  \<open>cmd_rst\<close> loops until the watchdog resets the part, and \<open>cmd_bot\<close> jumps to the boot loader: neither
  returns, both have the outcome \<open>Spin\<close>.
\<close>

section \<open>Hit counting\<close>

record hit =
  g_hit_count :: u16
  g_hit_debounce :: u16
  g_old_pin :: u8

definition hit_init :: hit where
  "hit_init = \<lparr>g_hit_count = 0, g_hit_debounce = 0, g_old_pin = 1\<rparr>"

definition hit_poll :: "u8 \<Rightarrow> hit \<Rightarrow> hit" where
  "hit_poll PIND h =
     (let cur = PIND AND 1;
          h = (if g_old_pin h \<noteq> 0 \<and> cur = 0 \<and> g_hit_debounce h = 0
               then h\<lparr>g_hit_count := g_hit_count h + 1, g_hit_debounce := 1000\<rparr> else h)
      in h\<lparr>g_old_pin := cur\<rparr>)"

definition hit_timer_update :: "hit \<Rightarrow> hit" where
  "hit_timer_update h =
     (if g_hit_debounce h \<noteq> 0 then h\<lparr>g_hit_debounce := g_hit_debounce h - 1\<rparr> else h)"

datatype hit_event = Poll u8 | Millisecond

fun hit_run :: "hit_event list \<Rightarrow> hit \<Rightarrow> hit" where
  "hit_run [] h = h"
| "hit_run (Poll p # es) h = hit_run es (hit_poll p h)"
| "hit_run (Millisecond # es) h = hit_run es (hit_timer_update h)"

definition milliseconds :: "hit_event list \<Rightarrow> nat" where
  "milliseconds es = length (filter (\<lambda>e. e = Millisecond) es)"

section \<open>Entering the boot loader\<close>

datatype mcu = AT90USB162 | ATmega32U4 | AT90USB646 | AT90USB1286

text \<open>The registers written, in order, and the address jumped to; \<open>dfu\<close> is the macro \<open>ATMEL_DFU\<close>.\<close>

definition boot_registers :: "mcu \<Rightarrow> string list" where
  "boot_registers part =
     (case part of
        AT90USB162 \<Rightarrow>
          [''EIMSK'', ''PCICR'', ''SPCR'', ''ACSR'', ''EECR'', ''TIMSK0'', ''TIMSK1'', ''UCSR1B'',
           ''DDRB'', ''DDRC'', ''DDRD'', ''PORTB'', ''PORTC'', ''PORTD'']
      | ATmega32U4 \<Rightarrow>
          [''EIMSK'', ''PCICR'', ''SPCR'', ''ACSR'', ''EECR'', ''ADCSRA'', ''TIMSK0'', ''TIMSK1'',
           ''TIMSK3'', ''TIMSK4'', ''UCSR1B'', ''TWCR'', ''DDRB'', ''DDRC'', ''DDRD'', ''DDRE'', ''DDRF'',
           ''TWCR'', ''PORTB'', ''PORTC'', ''PORTD'', ''PORTE'', ''PORTF'']
      | _ \<Rightarrow>
          [''EIMSK'', ''PCICR'', ''SPCR'', ''ACSR'', ''EECR'', ''ADCSRA'', ''TIMSK0'', ''TIMSK1'',
           ''TIMSK2'', ''TIMSK3'', ''UCSR1B'', ''TWCR'', ''DDRA'', ''DDRB'', ''DDRC'', ''DDRD'', ''DDRE'',
           ''DDRF'', ''PORTA'', ''PORTB'', ''PORTC'', ''PORTD'', ''PORTE'', ''PORTF''])"

definition boot_address :: "mcu \<Rightarrow> bool \<Rightarrow> u32" where
  "boot_address part dfu =
     (case part of AT90USB162 \<Rightarrow> 0x3E00 | ATmega32U4 \<Rightarrow> 0x7E00 | AT90USB646 \<Rightarrow> 0xFC00
      | AT90USB1286 \<Rightarrow> if dfu then 0x1E000 else 0x1FC00)"

definition enter_bootloader :: "mcu \<Rightarrow> bool \<Rightarrow> (string \<times> u8) list \<times> u32" where
  "enter_bootloader part dfu =
     ([(''UDCON'', 1), (''USBCON'', push_bit 5 1), (''UCSR1B'', 0)]
       @ map (\<lambda>r. (r, 0)) (boot_registers part), boot_address part dfu)"

section \<open>State and commands\<close>

record panel =
  panel_timer :: u16
  panel_loop_count :: u16
  g_arm_code :: u16
  g_arm_timer :: u16
  panel_streams :: streams
  panel_hit :: hit
  panel_line :: string
  usb_ready :: bool
  usb_out :: string

definition panel_EOL :: string where "panel_EOL = [CHR 0x0D, CHR 0x0A]"

definition panel_dialect :: dialect where
  "panel_dialect =
     \<lparr>PARSE_ERROR = '' could not parse'', CODE_MISMATCH = '' code mismatch'', UNKNOWN_CMD = '' unknown cmd'',
      NOT_STREAMABLE = '' not streamable'', ID_ZERO = '' stream id zero'', ID_INVALID = '' stream id invalid'',
      STREAM_ID_IN_USE = '' stream id in use'', STREAM_TABLE_FULL = '' stream table full'',
      STREAM_NOT_FOUND = '' stream not found'',
      codes = [(''PNG'', False), (''STB'', False), (''STE'', False), (''STL'', True), (''STG'', False),
        (''VER'', False), (''RST'', False), (''BOT'', False), (''TMQ'', True), (''HIT'', True)]\<rparr>"

type_synonym panel_result = "(u8 \<times> string \<times> panel) outcome"

definition panel_cmd_png :: "nat \<Rightarrow> panel \<Rightarrow> panel_result" where
  "panel_cmd_png room s = say room STR_OK 0 s"

definition panel_cmd_ver :: "string \<Rightarrow> nat \<Rightarrow> panel \<Rightarrow> panel_result" where
  "panel_cmd_ver version room s = say room ('' '' @ version) 0 s"

definition panel_cmd_rst :: panel_result where
  "panel_cmd_rst = Spin"

definition panel_cmd_bot :: panel_result where
  "panel_cmd_bot = Spin"

definition panel_cmd_tmq :: "nat \<Rightarrow> panel \<Rightarrow> panel_result" where
  "panel_cmd_tmq room s = say room ('' '' @ uint16_to_hex (panel_timer s)) 0 s"

definition panel_cmd_hit :: "nat \<Rightarrow> panel \<Rightarrow> panel_result" where
  "panel_cmd_hit room s = say room ('' '' @ uint16_to_hex (g_hit_count (panel_hit s))) 0 s"

definition panel_lift :: "(u8 \<times> string \<times> streams) outcome \<Rightarrow> panel \<Rightarrow> panel_result" where
  "panel_lift r s = obind r (\<lambda>(err, out, t). Ret (err, out, s\<lparr>panel_streams := t\<rparr>))"

definition panel_cmd_stb :: "string \<Rightarrow> nat \<Rightarrow> panel \<Rightarrow> panel_result" where
  "panel_cmd_stb args room s = panel_lift (stb panel_dialect args room (panel_streams s)) s"

definition panel_cmd_ste :: "string \<Rightarrow> nat \<Rightarrow> panel \<Rightarrow> panel_result" where
  "panel_cmd_ste args room s = panel_lift (ste panel_dialect args room (panel_streams s)) s"

definition panel_cmd_stl :: "nat \<Rightarrow> panel \<Rightarrow> panel_result" where
  "panel_cmd_stl room s = panel_lift (stl room (panel_streams s)) s"

definition panel_cmd_stg :: "string \<Rightarrow> nat \<Rightarrow> panel \<Rightarrow> panel_result" where
  "panel_cmd_stg args room s = panel_lift (stg panel_dialect args room (panel_streams s)) s"

definition panel_call :: "string \<Rightarrow> nat \<Rightarrow> string \<Rightarrow> nat \<Rightarrow> panel \<Rightarrow> panel_result" where
  "panel_call version k args room s =
     [panel_cmd_png room s, panel_cmd_stb args room s, panel_cmd_ste args room s, panel_cmd_stl room s,
      panel_cmd_stg args room s, panel_cmd_ver version room s, panel_cmd_rst, panel_cmd_bot,
      panel_cmd_tmq room s, panel_cmd_hit room s] ! k"

section \<open>Lines, streams and the main loop\<close>

definition usb_serial_print :: "string \<Rightarrow> panel \<Rightarrow> panel" where
  "usb_serial_print text s = s\<lparr>usb_out := usb_out s @ text\<rparr>"

definition PANEL_OVERRUN_CODE :: char where "PANEL_OVERRUN_CODE = CHR 0x04"

definition panel_line_output :: "string \<Rightarrow> string \<Rightarrow> panel \<Rightarrow> (string \<times> panel) outcome" where
  "panel_line_output version l s =
     (if hd l = PANEL_OVERRUN_CODE then obind (store 79 ''ERR overrun'') (\<lambda>t. Ret (''<'' @ t, s))
      else if length l < 3 then obind (store 79 ''ERR short cmd'') (\<lambda>t. Ret (''<'' @ t, s))
      else if 4 \<le> length l \<and> l ! 3 \<noteq> CHR '' ''
      then obind (store 79 ''ERR cmd not followed by space'') (\<lambda>t. Ret (''<'' @ t, s))
      else
        (case find_message_index (codes panel_dialect) l of
           None \<Rightarrow> obind (store 79 ''ERR unknown cmd'') (\<lambda>t. Ret (''<'' @ t, s))
         | Some k \<Rightarrow>
             obind (panel_call version k (drop 3 l) 76 s) (\<lambda>(_, out, s).
               Ret (''<'' @ take 3 l @ out, s))))"

definition panel_handle_line :: "string \<Rightarrow> string \<Rightarrow> panel \<Rightarrow> panel outcome" where
  "panel_handle_line version l s =
     (if l = [] then Ret s
      else
        obind (panel_line_output version l s) (\<lambda>(output, s).
        obind (store 80 (output @ panel_EOL)) (\<lambda>output. Ret (usb_serial_print output s))))"

definition panel_stream_poll :: "string \<Rightarrow> panel \<Rightarrow> panel outcome" where
  "panel_stream_poll version s =
     (case next_run (panel_streams s) of
        None \<Rightarrow> Ret s
      | Some i \<Rightarrow>
          (let s = s\<lparr>panel_streams := take_run i (panel_streams s)\<rparr>;
               x = g_stream_table (panel_streams s) ! i;
               prefix = ''!STM '' @ uint8_to_hex (stream_id x) @ '' '' @ fst (codes panel_dialect ! cmd_index x)
           in obind (panel_call version (cmd_index x) (args_text (extra_args x) (panel_streams s)) 53 s)
                (\<lambda>(err, out, s).
                   if err = 0xFF then Ret s
                   else
                     obind (if err \<noteq> 0
                            then obind (drop_stream i (panel_streams s)) (\<lambda>t. Ret (s\<lparr>panel_streams := t\<rparr>))
                            else Ret s) (\<lambda>s.
                     obind (store 64 (prefix @ out @ panel_EOL)) (\<lambda>output.
                       Ret (usb_serial_print output s))))))"

text \<open>What the USB driver reports in one turn: configured, DTR, and a received character.\<close>

record usb_in =
  is_configured :: bool
  usb_dtr :: bool
  usb_char :: "u8 option"

definition panel_connection :: "string \<Rightarrow> usb_in \<Rightarrow> panel \<Rightarrow> panel outcome" where
  "panel_connection version u s =
     (if is_configured u \<and> usb_dtr u
      then
        (if \<not> usb_ready s
         then obind (store 128 (''!GNR WELCOME '' @ version @ panel_EOL)) (\<lambda>t.
                Ret ((usb_serial_print t (s\<lparr>usb_ready := True\<rparr>))\<lparr>panel_line := []\<rparr>))
         else Ret s)
      else Ret (s\<lparr>panel_streams := stream_stop_all (panel_streams s), usb_ready := False,
                  panel_line := [], g_arm_code := 0\<rparr>))"

definition panel_add_char :: "char \<Rightarrow> panel \<Rightarrow> panel outcome" where
  "panel_add_char c s =
     (if 128 \<le> length (panel_line s) then Overrun
      else
        (let l = panel_line s @ [c]
         in Ret (s\<lparr>panel_line := if 128 \<le> length l + 1 then butlast (l[0 := PANEL_OVERRUN_CODE]) else l\<rparr>)))"

definition panel_input :: "string \<Rightarrow> usb_in \<Rightarrow> panel \<Rightarrow> panel outcome" where
  "panel_input version u s =
     (case usb_char u of
        None \<Rightarrow> Ret s
      | Some v \<Rightarrow>
          (let c = chr v
           in if c = CHR 0x0D \<or> c = CHR 0x0A
              then
                (if 128 \<le> length (panel_line s) then Overrun
                 else
                   obind (panel_handle_line version (takeWhile (\<lambda>c. c \<noteq> NUL) (panel_line s)) s) (\<lambda>s.
                     Ret ((if g_arm_code s \<noteq> 0 then s\<lparr>g_arm_timer := 1000\<rparr> else s)\<lparr>panel_line := []\<rparr>)))
              else panel_add_char c s))"

definition panel_tick :: "panel \<Rightarrow> panel" where
  "panel_tick s =
     s\<lparr>panel_timer := panel_timer s + 1,
       panel_streams := stream_timer_update (panel_streams s),
       panel_hit := hit_timer_update (panel_hit s),
       panel_loop_count := ucast ((ucast (panel_loop_count s) :: u32) * 7 div 8)\<rparr>"

definition panel_main :: "string \<Rightarrow> usb_in \<Rightarrow> bool \<Rightarrow> u8 \<Rightarrow> panel \<Rightarrow> panel outcome" where
  "panel_main version u elapsed PIND s =
     (let s = s\<lparr>panel_loop_count := panel_loop_count s + 1\<rparr>
      in obind (panel_connection version u s) (\<lambda>s.
         obind (panel_input version u s) (\<lambda>s.
         obind (panel_stream_poll version (if elapsed then panel_tick s else s)) (\<lambda>s.
           Ret (s\<lparr>panel_hit := hit_poll PIND (panel_hit s)\<rparr>)))))"

definition panel_init :: panel where
  "panel_init = \<lparr>panel_timer = 0, panel_loop_count = 0, g_arm_code = 0, g_arm_timer = 0,
     panel_streams = streams_init 12, panel_hit = hit_init, panel_line = [], usb_ready = False, usb_out = []\<rparr>"

section \<open>Properties of the hit counter\<close>

lemma hit_run_quiet:
  "unat (g_hit_debounce h) > milliseconds es \<Longrightarrow> g_hit_count (hit_run es h) = g_hit_count h"
proof (induction es h rule: hit_run.induct)
  case (2 p es h)
  have "g_hit_debounce h \<noteq> 0" using 2(2) by auto
  then have "g_hit_count (hit_poll p h) = g_hit_count h" "g_hit_debounce (hit_poll p h) = g_hit_debounce h"
    by (simp_all add: hit_poll_def Let_def)
  with 2 show ?case by (simp add: milliseconds_def)
next
  case (3 es h)
  have nz: "g_hit_debounce h \<noteq> 0" using 3(2) by auto
  then have "unat (g_hit_debounce h - 1) = unat (g_hit_debounce h) - 1" by (rule unat_dec16)
  with 3 nz show ?case by (simp add: milliseconds_def hit_timer_update_def)
qed simp

text \<open>The dead time of the hit counter: when a poll counts a hit, no sequence of polls and
  fewer than 1000 milliseconds counts another one, however the input bounces.\<close>

theorem hit_dead_time:
  assumes "g_hit_count (hit_poll p h) \<noteq> g_hit_count h" "milliseconds es < 1000"
  shows "g_hit_count (hit_run es (hit_poll p h)) = g_hit_count h + 1"
proof -
  have "g_hit_count (hit_poll p h) = g_hit_count h + 1" "g_hit_debounce (hit_poll p h) = 1000"
    using assms(1) by (auto simp: hit_poll_def Let_def split: if_splits)
  with hit_run_quiet [of es "hit_poll p h"] assms(2) show ?thesis by simp
qed

theorem hit_dead_time_witness:
  "g_hit_count (hit_poll 0 hit_init) = 1 \<and>
   g_hit_count (hit_run [Poll 1, Millisecond, Poll 0, Millisecond, Poll 1, Poll 0] (hit_poll 0 hit_init)) = 1"
proof -
  have 1: "g_hit_count (hit_poll 0 hit_init) = 1" by (simp add: hit_poll_def hit_init_def)
  with hit_dead_time [of 0 hit_init "[Poll 1, Millisecond, Poll 0, Millisecond, Poll 1, Poll 0]"]
  show ?thesis by (simp add: hit_init_def milliseconds_def)
qed

section \<open>Properties of the command handler\<close>

definition panel_inv :: "panel \<Rightarrow> bool" where
  "panel_inv s \<longleftrightarrow> stream_inv panel_dialect 12 (panel_streams s) \<and> length (panel_line s) \<le> 126"

lemma panel_inv_print [simp]:
  "panel_inv (usb_serial_print t s) = panel_inv s" "panel_streams (usb_serial_print t s) = panel_streams s"
  "panel_line (usb_serial_print t s) = panel_line s"
  by (simp_all add: panel_inv_def usb_serial_print_def)

lemma panel_texts_fit: "texts_fit panel_dialect 28"
  by (simp add: texts_fit_def panel_dialect_def STR_OK_def)

lemma panel_codes3: "\<forall>c \<in> set (codes panel_dialect). length (fst c) = 3"
  by (simp add: panel_dialect_def)

lemma nat_lt_10:
  "k < (10 :: nat) \<Longrightarrow> k = 0 \<or> k = 1 \<or> k = 2 \<or> k = 3 \<or> k = 4 \<or> k = 5 \<or> k = 6 \<or> k = 7 \<or> k = 8 \<or> k = 9"
  by presburger

lemma panel_index:
  assumes "find_message_index (codes panel_dialect) l = Some k"
  shows "k < 10" "k = 1 \<longleftrightarrow> take 3 l = ''STB''" "k = 4 \<longleftrightarrow> take 3 l = ''STG''"
  using assms by (auto simp: find_message_index_def panel_dialect_def split: if_splits)

text \<open>A command that returns keeps the invariant and the line, and takes at most a table step.\<close>

lemma panel_call_step:
  assumes k: "k < 10" and run: "panel_call version k args room s = Ret (e, out, s')"
  shows "table_step panel_dialect (panel_streams s) (panel_streams s') \<and> panel_line s' = panel_line s \<and>
    (snd (codes panel_dialect ! k) \<longrightarrow> s' = s)"
  using nat_lt_10 [OF k] run
  by (elim disjE)
     (auto simp: panel_call_def panel_cmd_png_def panel_cmd_stb_def panel_cmd_ste_def panel_cmd_stl_def
       panel_cmd_stg_def panel_cmd_ver_def panel_cmd_rst_def panel_cmd_bot_def panel_cmd_tmq_def
       panel_cmd_hit_def panel_lift_def stl_def obind_eq_Ret panel_dialect_def [THEN arg_cong [of _ _ codes]]
       dest!: stg_same intro: table_step.intros)

lemma panel_call_inv:
  assumes "panel_inv s" "k < 10" "panel_call version k args room s = Ret (e, out, s')"
  shows "panel_inv s'"
  using panel_call_step [OF assms(2,3)] assms(1) table_step_inv by (auto simp: panel_inv_def)

text \<open>The lines that write past a buffer: a stream with 64 or more characters of arguments does not fit
  its slot, and the answer to STG for more than 61 of them does not fit the output.\<close>

definition panel_bad_line :: "string \<Rightarrow> panel \<Rightarrow> bool" where
  "panel_bad_line l s \<longleftrightarrow> l \<noteq> [] \<and> hd l \<noteq> PANEL_OVERRUN_CODE \<and> 3 \<le> length l \<and>
     (4 \<le> length l \<longrightarrow> l ! 3 = CHR '' '') \<and>
     (take 3 l = ''STB'' \<and> (\<exists>t. stb_store panel_dialect (drop 3 l) (panel_streams s) = Some t \<and> 64 \<le> length t) \<or>
      take 3 l = ''STG'' \<and> (\<exists>t. stg_text (drop 3 l) (panel_streams s) = Some t \<and> 61 < length t))"

lemma panel_call_result:
  assumes inv: "panel_inv s" and ver: "length version \<le> 72" and k: "k < 10" "k \<noteq> 1" "k \<noteq> 4"
  shows "panel_call version k args 76 s = Spin \<or>
    (\<exists>e out s'. panel_call version k args 76 s = Ret (e, out, s') \<and> length out \<le> 73)"
proof -
  have "stream_inv panel_dialect 12 (panel_streams s)" using inv by (simp add: panel_inv_def)
  from ste_Ret [OF this panel_texts_fit, of 76 args] obtain e out t where
    ste: "ste panel_dialect args 76 (panel_streams s) = Ret (e, out, t)" "length out \<le> 28" by auto
  from nat_lt_10 [OF k(1)] k(2,3) show ?thesis
    using ste ver
    by (elim disjE)
       (auto simp: panel_call_def panel_cmd_png_def panel_cmd_ste_def panel_cmd_stl_def panel_cmd_ver_def
         panel_cmd_rst_def panel_cmd_bot_def panel_cmd_tmq_def panel_cmd_hit_def panel_lift_def stl_def
         STR_OK_def outcome_simps)
qed

lemma panel_line_result:
  assumes inv: "panel_inv s" and ver: "length version \<le> 72" and ne: "l \<noteq> []"
  shows "(panel_bad_line l s \<and> panel_handle_line version l s = Overrun) \<or>
    (\<not> panel_bad_line l s \<and> (panel_handle_line version l s = Spin \<or>
      (\<exists>s'. panel_handle_line version l s = Ret s')))"
proof (cases "hd l = PANEL_OVERRUN_CODE \<or> length l < 3 \<or> (4 \<le> length l \<and> l ! 3 \<noteq> CHR '' '')")
  case True
  then show ?thesis
    using ne by (auto simp: panel_bad_line_def panel_handle_line_def panel_line_output_def outcome_simps
        store_def panel_EOL_def)
next
  case False
  show ?thesis
  proof (cases "find_message_index (codes panel_dialect) l")
    case None
    then have "take 3 l \<noteq> ''STG''" "take 3 l \<noteq> ''STB''"
      by (auto simp: find_message_index_def panel_dialect_def)
    with None False show ?thesis
      using ne by (auto simp: panel_bad_line_def panel_handle_line_def panel_line_output_def outcome_simps
          store_def panel_EOL_def)
  next
    case (Some k)
    note ix = panel_index [OF Some]
    have out: "panel_handle_line version l s =
      obind (panel_call version k (drop 3 l) 76 s) (\<lambda>(_, out, s').
        obind (store 80 (''<'' @ take 3 l @ out @ panel_EOL)) (\<lambda>output. Ret (usb_serial_print output s')))"
      using False Some ne by (auto simp: panel_handle_line_def panel_line_output_def obind_assoc split_def)
    have l3: "length (take 3 l) = 3" using False by simp
    have str: "stream_inv panel_dialect 12 (panel_streams s)" using inv by (simp add: panel_inv_def)
    consider "k = 1" | "k = 4" | "k \<noteq> 1" "k \<noteq> 4" by blast
    then show ?thesis
    proof cases
      case 1
      with stb_result [OF panel_texts_fit, of 76 "drop 3 l" "panel_streams s"] ix False out l3 ne
      show ?thesis
        by (auto simp: panel_bad_line_def panel_call_def panel_cmd_stb_def panel_lift_def store_def
            panel_EOL_def split: if_splits)
    next
      case 2
      with stg_result [OF panel_texts_fit _ str panel_codes3, of 76 "drop 3 l"] ix False out l3 ne
      show ?thesis
        by (auto simp: panel_bad_line_def panel_call_def panel_cmd_stg_def panel_lift_def store_def
            panel_EOL_def split: option.splits if_splits)
    next
      case 3
      with ix have "\<not> panel_bad_line l s" by (auto simp: panel_bad_line_def)
      with panel_call_result [OF inv ver ix(1) 3, of "drop 3 l"] out l3 show ?thesis
        by (auto simp: store_def panel_EOL_def)
    qed
  qed
qed

lemma panel_handle_line_step:
  assumes "panel_inv s" "panel_handle_line version l s = Ret s'"
  shows "panel_inv s' \<and> panel_line s' = panel_line s \<and>
    table_step panel_dialect (panel_streams s) (panel_streams s')"
proof (cases "\<exists>k. l \<noteq> [] \<and> find_message_index (codes panel_dialect) l = Some k \<and>
    \<not> (hd l = PANEL_OVERRUN_CODE \<or> length l < 3 \<or> (4 \<le> length l \<and> l ! 3 \<noteq> CHR '' ''))")
  case False
  then have "s' = s \<or> (\<exists>t. s' = usb_serial_print t s)"
    using assms(2) by (auto simp: panel_handle_line_def panel_line_output_def obind_eq_Ret
        split: if_splits option.splits)
  then show ?thesis using assms(1) by (auto intro: table_step.idle)
next
  case True
  then obtain k where k: "l \<noteq> []" "find_message_index (codes panel_dialect) l = Some k"
    "\<not> (hd l = PANEL_OVERRUN_CODE \<or> length l < 3 \<or> (4 \<le> length l \<and> l ! 3 \<noteq> CHR '' ''))" by blast
  then obtain e out u t where
    u: "panel_call version k (drop 3 l) 76 s = Ret (e, out, u)" "s' = usb_serial_print t u"
    using assms(2) by (auto simp: panel_handle_line_def panel_line_output_def obind_eq_Ret split: if_splits)
  from panel_call_inv [OF assms(1) panel_index(1) [OF k(2)] u(1)]
    panel_call_step [OF panel_index(1) [OF k(2)] u(1)] u(2)
  show ?thesis by auto
qed

text \<open>Which lines make the panel write outside of a buffer: exactly the STB of a stream
  with 64 or more characters of arguments (the slot has 64 bytes, a line up to 126 characters) and
  the STG of a stream with more than 61. Every other line of any content is answered, resets the
  device or enters the boot loader.\<close>

theorem panel_line_overrun_iff:
  assumes "panel_inv s" "length version \<le> 72"
  shows "panel_handle_line version l s = Overrun \<longleftrightarrow> panel_bad_line l s"
proof (cases "l = []")
  case True
  then show ?thesis by (simp add: panel_handle_line_def panel_bad_line_def)
next
  case False
  from panel_line_result [OF assms False] show ?thesis by auto
qed

section \<open>The main loop\<close>

lemma panel_next_run:
  assumes "stream_inv panel_dialect 12 t" "next_run t = Some i"
  shows "i < 12" "stream_id (g_stream_table t ! i) \<noteq> 0" "cmd_index (g_stream_table t ! i) < 10"
    "snd (codes panel_dialect ! cmd_index (g_stream_table t ! i))"
proof -
  show i: "i < 12" "stream_id (g_stream_table t ! i) \<noteq> 0"
    using assms(1) first_index_Some [OF assms(2) [unfolded next_run_def]] by (auto simp: stream_inv_def)
  with assms(1) have "entry_ok panel_dialect (g_stream_args t) (g_stream_table t ! i)"
    by (simp add: stream_inv_def table_ok_def)
  moreover have "length (codes panel_dialect) = 10" by (simp add: panel_dialect_def)
  ultimately show "cmd_index (g_stream_table t ! i) < 10"
    "snd (codes panel_dialect ! cmd_index (g_stream_table t ! i))"
    using i(2) by (auto simp: entry_ok_def)
qed

lemma panel_streamable_ok:
  assumes "k < 10" "snd (codes panel_dialect ! k)"
  shows "\<exists>out. panel_call version k args 53 s = Ret (0, out, s) \<and> length out = 5"
  using nat_lt_10 [OF assms(1)] assms(2)
  by (elim disjE) (simp_all add: panel_dialect_def panel_call_def panel_cmd_stl_def panel_cmd_tmq_def
      panel_cmd_hit_def panel_lift_def stl_def outcome_simps)

text \<open>The stream poller of the panel always returns: its commands have short answers.\<close>

lemma panel_poll_Ret:
  assumes inv: "panel_inv s"
  shows "\<exists>s'. panel_stream_poll version s = Ret s' \<and> panel_inv s' \<and>
    (table_step panel_dialect)\<^sup>*\<^sup>* (panel_streams s) (panel_streams s')"
proof (cases "next_run (panel_streams s)")
  case None
  then show ?thesis using inv by (simp add: panel_stream_poll_def)
next
  case (Some i)
  have tab: "stream_inv panel_dialect 12 (panel_streams s)" using inv by (simp add: panel_inv_def)
  note a = panel_next_run [OF tab Some]
  define s1 where "s1 = s\<lparr>panel_streams := take_run i (panel_streams s)\<rparr>"
  define x where "x = g_stream_table (panel_streams s1) ! i"
  have x: "cmd_index x < 10" "snd (codes panel_dialect ! cmd_index x)"
    using a tab by (simp_all add: x_def s1_def take_run_def stream_inv_def)
  have "cmd_index x < length (codes panel_dialect)" using x(1) by (simp add: panel_dialect_def)
  then have c3: "length (fst (codes panel_dialect ! cmd_index x)) = 3" using panel_codes3 by (metis nth_mem)
  from panel_streamable_ok [OF x, of version "args_text (extra_args x) (panel_streams s1)" s1] obtain out where
    out: "panel_call version (cmd_index x) (args_text (extra_args x) (panel_streams s1)) 53 s1 = Ret (0, out, s1)"
    "length out = 5" by blast
  define t where "t = ''!STM '' @ uint8_to_hex (stream_id x) @ '' '' @ fst (codes panel_dialect ! cmd_index x) @ out @ panel_EOL"
  have "panel_stream_poll version s = Ret (usb_serial_print t s1)"
    using Some out c3
    by (simp add: panel_stream_poll_def Let_def s1_def [symmetric] x_def [symmetric] t_def outcome_simps
        panel_EOL_def)
  moreover have "panel_inv s1" using inv take_run_inv [OF tab a(1)] by (simp add: panel_inv_def s1_def)
  moreover have "table_step panel_dialect (panel_streams s) (panel_streams s1)"
    using Some by (simp add: s1_def table_step.run_one)
  ultimately show ?thesis by auto
qed

lemma panel_connection_step:
  assumes "panel_inv s" "panel_connection version u s = Ret s'"
  shows "panel_inv s' \<and> table_step panel_dialect (panel_streams s) (panel_streams s')"
  using assms stream_stop_all_inv [of panel_dialect 12 "panel_streams s"]
  by (auto simp: panel_connection_def panel_inv_def usb_serial_print_def obind_eq_Ret
      split: if_splits intro: table_step.idle table_step.stop_all)

lemma panel_input_step:
  assumes inv: "panel_inv s" and run: "panel_input version u s = Ret s'"
  shows "panel_inv s' \<and> table_step panel_dialect (panel_streams s) (panel_streams s')"
proof (cases "usb_char u")
  case None
  then show ?thesis using assms by (simp add: panel_input_def table_step.idle)
next
  case (Some v)
  show ?thesis
  proof (cases "chr v = CHR 0x0D \<or> chr v = CHR 0x0A")
    case True
    then obtain t where t: "panel_handle_line version (takeWhile (\<lambda>c. c \<noteq> NUL) (panel_line s)) s = Ret t"
      "s' = (if g_arm_code t \<noteq> 0 then t\<lparr>g_arm_timer := 1000\<rparr> else t)\<lparr>panel_line := []\<rparr>"
      using run Some by (auto simp: panel_input_def Let_def obind_eq_Ret split: if_splits)
    from panel_handle_line_step [OF inv t(1)] t(2) show ?thesis by (auto simp: panel_inv_def)
  next
    case False
    then have "panel_add_char (chr v) s = Ret s'" using run Some by (simp add: panel_input_def Let_def)
    then show ?thesis
      using inv by (auto simp: panel_add_char_def panel_inv_def Let_def split: if_splits intro: table_step.idle)
  qed
qed

lemma panel_tick_step:
  "panel_inv s \<Longrightarrow> panel_inv (panel_tick s) \<and> table_step panel_dialect (panel_streams s) (panel_streams (panel_tick s))"
  by (simp add: panel_inv_def panel_tick_def stream_timer_inv table_step.timer)

inductive panel_step :: "string \<Rightarrow> panel \<Rightarrow> panel \<Rightarrow> bool" for version where
  turn: "panel_main version u elapsed PIND s = Ret s' \<Longrightarrow> panel_step version s s'"

inductive_cases panel_stepE: "panel_step version s s'"

lemma panel_main_step:
  assumes inv: "panel_inv s" and run: "panel_main version u elapsed PIND s = Ret s'"
  shows "panel_inv s' \<and> (table_step panel_dialect)\<^sup>*\<^sup>* (panel_streams s) (panel_streams s')"
proof -
  let ?s = "s\<lparr>panel_loop_count := panel_loop_count s + 1\<rparr>"
  have inv0: "panel_inv ?s" using inv by (simp add: panel_inv_def)
  from run obtain a b c where
    a: "panel_connection version u ?s = Ret a" and b: "panel_input version u a = Ret b" and
    c: "panel_stream_poll version (if elapsed then panel_tick b else b) = Ret c" and
    s': "s' = c\<lparr>panel_hit := hit_poll PIND (panel_hit c)\<rparr>"
    by (auto simp: panel_main_def Let_def obind_eq_Ret)
  note 1 = panel_connection_step [OF inv0 a]
  note 2 = panel_input_step [OF 1 [THEN conjunct1] b]
  let ?t = "if elapsed then panel_tick b else b"
  have 3: "panel_inv ?t" "table_step panel_dialect (panel_streams b) (panel_streams ?t)"
    using 2 panel_tick_step [of b] by (auto intro: table_step.idle)
  from panel_poll_Ret [OF 3(1), of version] c have
    4: "panel_inv c" "(table_step panel_dialect)\<^sup>*\<^sup>* (panel_streams ?t) (panel_streams c)" by auto
  have "(table_step panel_dialect)\<^sup>*\<^sup>* (panel_streams s) (panel_streams c)"
    using 1 2 3(2) 4(2) by (auto intro: converse_rtranclp_into_rtranclp)
  with 4(1) s' show ?thesis by (simp add: panel_inv_def)
qed

interpretation panel_host: stream_host panel_dialect 12 panel_streams "\<lambda>s. s = panel_init"
    "panel_step version" panel_inv for version
proof
  fix s assume "s = panel_init"
  then show "panel_inv s \<and> panel_streams s = streams_init 12"
    using streams_init_inv [of panel_dialect 12] by (simp add: panel_init_def panel_inv_def)
next
  fix s s' assume inv: "panel_inv s" and "panel_step version s s'"
  from this(2) show "panel_inv s' \<and> (table_step panel_dialect)\<^sup>*\<^sup>* (panel_streams s) (panel_streams s')"
    by (cases rule: panel_step.cases) (use panel_main_step [OF inv] in auto)
qed

text \<open>In every state the panel can reach, whatever arrives over USB: the stream table is
  well-formed, streams of equal rate are in phase, the collected line has at most 126 characters,
  and the stream poller returns without leaving its buffer.\<close>

theorem panel_reach_inv:
  assumes "(panel_step version)\<^sup>*\<^sup>* panel_init s"
  shows "stream_inv panel_dialect 12 (panel_streams s) \<and> length (panel_line s) \<le> 126 \<and>
     (\<forall>x \<in> set (g_stream_table (panel_streams s)). \<forall>y \<in> set (g_stream_table (panel_streams s)).
        stream_id x \<noteq> 0 \<and> stream_id y \<noteq> 0 \<and> rate x = rate y \<longrightarrow> time_remaining x = time_remaining y) \<and>
     (\<exists>s'. panel_stream_poll version s = Ret s')"
proof -
  from panel_host.reach_inv [OF refl assms] have "panel_inv s" by blast
  then show ?thesis
    using panel_host.reach_in_phase [OF refl assms] panel_poll_Ret [of s version]
    unfolding panel_inv_def by blast
qed

theorem panel_reach_inv_witness:
  "\<exists>s. (panel_step ''panel-qual v0.1'')\<^sup>*\<^sup>* panel_init s \<and> usb_ready s \<and> length (panel_line s) \<le> 126"
proof -
  let ?u = "\<lparr>is_configured = True, usb_dtr = True, usb_char = None\<rparr>"
  have nr: "next_run (streams_init 12) = None" by (simp add: next_run_def streams_init_def first_index_None)
  obtain s where s: "panel_main ''panel-qual v0.1'' ?u False 1 panel_init = Ret s" "usb_ready s"
    by (simp add: panel_main_def panel_connection_def panel_input_def panel_stream_poll_def panel_init_def
        outcome_simps panel_EOL_def usb_serial_print_def nr)
  then have "(panel_step ''panel-qual v0.1'')\<^sup>*\<^sup>* panel_init s"
    by (intro r_into_rtranclp panel_step.turn)
  with panel_reach_inv [OF this] s(2) show ?thesis by blast
qed

definition long_line :: string where
  "long_line = ''STB 1 1 TMQ'' @ replicate 64 CHR ''x''"

lemma panel_init_inv: "panel_inv panel_init"
  using streams_init_inv [of panel_dialect 12] by (simp add: panel_init_def panel_inv_def)

lemma scan_one: "scan_x (CHR ''1'' # CHR '' '' # cs) = Some (1, CHR '' '' # cs)"
proof -
  have h: "hex_digit CHR ''1'' = Some 1" "hex_digit CHR '' '' = None"
    by (simp_all add: hex_digit_def ord_def)
  then show ?thesis
    using hex_digit_not_space [OF h(1)]
    by (simp add: scan_x_def skip_ws_def scan_sign_def scan_prefix_def)
qed

lemma skip_one: "skip_ws (CHR '' '' # CHR ''1'' # cs) = CHR ''1'' # cs"
  "skip_ws (CHR '' '' # CHR ''T'' # cs) = CHR ''T'' # cs"
  by (simp_all add: skip_ws_def is_space_def)

lemma sync_scan_free: "i \<noteq> 0 \<Longrightarrow> \<forall>x \<in> set xs. stream_id x = 0 \<Longrightarrow> sync_scan i r t xs = Some t"
  by (induction xs) auto

lemma long_line_stb: "stb_store panel_dialect (drop 3 long_line) (panel_streams panel_init) = Some (replicate 64 CHR ''x'')"
proof -
  have sc: "scan_stb (drop 3 long_line) = Some (1, 1, ''TMQ'', replicate 64 CHR ''x'')"
    unfolding long_line_def by (simp add: scan_stb_def skip_one scan_one scan_code_def)
  have ix: "find_message_index (codes panel_dialect) ''TMQ'' = Some 8"
    by (simp add: find_message_index_def panel_dialect_def)
  have k: "snd (codes panel_dialect ! 8)" by (simp add: panel_dialect_def)
  have "sync_scan 1 1 1 (g_stream_table (streams_init 12)) = Some 1"
    by (rule sync_scan_free) (simp_all add: streams_init_def)
  then show ?thesis
    using sc ix k
    by (simp add: stb_store_def panel_init_def streams_init_def first_index_None)
qed

theorem panel_line_overrun_iff_witness:
  "panel_inv panel_init \<and> length long_line = 75 \<and>
   panel_handle_line ''panel-qual v0.1'' long_line panel_init = Overrun"
proof -
  have h: "long_line \<noteq> []" "hd long_line = CHR ''S''" "length long_line = 75" "long_line ! 3 = CHR '' ''"
    "take 3 long_line = ''STB''"
    by (simp_all add: long_line_def)
  then have "panel_bad_line long_line panel_init"
    using long_line_stb by (auto simp: panel_bad_line_def PANEL_OVERRUN_CODE_def)
  then show ?thesis
    using panel_line_overrun_iff [OF panel_init_inv, of "''panel-qual v0.1''" long_line] h(3) panel_init_inv
    by simp
qed

end
