(* ===== verification/Moteus.thy ===== *)
theory Moteus
  imports Complex_Main Prelude
begin

text \<open>
  The register values of the servo controllers, \<^verbatim>\<open>mech/moteus.h\<close>: how physical quantities are scaled into
  8, 16 and 32 bit integers or a float when a register is written, and back when one is read.

  A C++ \<open>double\<close> is a value of the datatype \<open>double\<close>: a finite number, one of the infinities or NaN.
  Finite numbers are real numbers, so rounding of the arithmetic and of the conversion to \<open>float\<close> is
  not modelled; the comparison and propagation rules for infinities and NaN are the ones of IEEE 754.
\<close>

section \<open>Floating point\<close>

datatype double = Fin real | PosInf | NegInf | NaN

fun isfinite :: "double \<Rightarrow> bool" where
  "isfinite (Fin _) = True"
| "isfinite _ = False"

fun dless :: "double \<Rightarrow> double \<Rightarrow> bool" where
  "dless (Fin a) (Fin b) = (a < b)"
| "dless (Fin a) PosInf = True"
| "dless NegInf (Fin b) = True"
| "dless NegInf PosInf = True"
| "dless _ _ = False"

text \<open>\<open>a != b\<close>: true as soon as one side is NaN.\<close>

definition dneq :: "double \<Rightarrow> double \<Rightarrow> bool" where
  "dneq a b \<longleftrightarrow> a \<noteq> b \<or> a = NaN"

definition dmin :: "double \<Rightarrow> double \<Rightarrow> double" where
  "dmin a b = (if dless b a then b else a)"

fun dneg :: "double \<Rightarrow> double" where
  "dneg (Fin a) = Fin (- a)"
| "dneg PosInf = NegInf"
| "dneg NegInf = PosInf"
| "dneg NaN = NaN"

text \<open>Multiplication with a finite factor.\<close>

fun dscale :: "real \<Rightarrow> double \<Rightarrow> double" where
  "dscale k (Fin a) = Fin (k * a)"
| "dscale k NaN = NaN"
| "dscale k PosInf = (if k = 0 then NaN else if k > 0 then PosInf else NegInf)"
| "dscale k NegInf = (if k = 0 then NaN else if k > 0 then NegInf else PosInf)"

fun dabs :: "double \<Rightarrow> double" where
  "dabs (Fin a) = Fin \<bar>a\<bar>"
| "dabs NaN = NaN"
| "dabs _ = PosInf"

fun dadd :: "double \<Rightarrow> double \<Rightarrow> double" where
  "dadd (Fin a) (Fin b) = Fin (a + b)"
| "dadd NaN b = NaN"
| "dadd a NaN = NaN"
| "dadd PosInf NegInf = NaN"
| "dadd NegInf PosInf = NaN"
| "dadd PosInf b = PosInf"
| "dadd NegInf b = NegInf"
| "dadd (Fin a) b = b"

text \<open>The difference to a finite number.\<close>

fun dsub :: "double \<Rightarrow> real \<Rightarrow> double" where
  "dsub (Fin a) b = Fin (a - b)"
| "dsub d b = d"

section \<open>Registers and modes\<close>

datatype Register = kMode | kPosition | kVelocity | kTorque | kQCurrent | kDCurrent | kRezeroState | kVoltage
  | kTemperature | kFaultReg | kCommandPosition | kCommandKpScale | kPositionKp | kPositionKi
  | kPositionKd | kPositionFeedforward | kPositionCommand | kRegisterMapVersion | kSerialNumber1
  | kSerialNumber2 | kSerialNumber3 | kRezero | OtherRegister nat

definition kCurrentRegisterMapVersion :: int where "kCurrentRegisterMapVersion = 4"

datatype servo_mode = ServoStopped | ServoPosition | ServoZeroVelocity

fun servo_mode_code :: "servo_mode \<Rightarrow> 8 word" where
  "servo_mode_code ServoStopped = 0"
| "servo_mode_code ServoPosition = 10"
| "servo_mode_code ServoZeroVelocity = 12"

section \<open>Writing\<close>

datatype mvalue = Int8 "8 word" | Int16 "16 word" | Int32 "32 word" | Float double

datatype RegisterTypes = kInt8 | kInt16 | kInt32 | kFloat

text \<open>The conversion of a real number to an integer drops the fraction.\<close>

definition trunc :: "real \<Rightarrow> int" where
  "trunc x = (if 0 \<le> x then \<lfloor>x\<rfloor> else \<lceil>x\<rceil>)"

text \<open>\<open>ScaleSaturate<T>\<close> for a type of \<open>w\<close> bits, as an integer: the smallest value of the type stands for
  NaN, finite values are limited to plus and minus the largest one.\<close>

definition ScaleSaturate :: "nat \<Rightarrow> double \<Rightarrow> real \<Rightarrow> int" where
  "ScaleSaturate w v scale =
     (case v of
        Fin x \<Rightarrow>
          (let scaled = x / scale; m = 2 ^ (w - 1) - 1
           in if scaled < - of_int m then - m else if scaled > of_int m then m else trunc scaled)
      | _ \<Rightarrow> - (2 ^ (w - 1)))"

definition ScaleMapping :: "double \<Rightarrow> real \<Rightarrow> real \<Rightarrow> real \<Rightarrow> RegisterTypes \<Rightarrow> mvalue" where
  "ScaleMapping v int8_scale int16_scale int32_scale type =
     (case type of
        kInt8 \<Rightarrow> Int8 (word_of_int (ScaleSaturate 8 v int8_scale))
      | kInt16 \<Rightarrow> Int16 (word_of_int (ScaleSaturate 16 v int16_scale))
      | kInt32 \<Rightarrow> Int32 (word_of_int (ScaleSaturate 32 v int32_scale))
      | kFloat \<Rightarrow> Float v)"

definition WriteInt :: "int \<Rightarrow> RegisterTypes \<Rightarrow> mvalue" where
  "WriteInt v type =
     (case type of
        kInt8 \<Rightarrow> Int8 (word_of_int v) | kInt16 \<Rightarrow> Int16 (word_of_int v)
      | kInt32 \<Rightarrow> Int32 (word_of_int v) | kFloat \<Rightarrow> Float (Fin (of_int v)))"

definition WritePosition :: "double \<Rightarrow> RegisterTypes \<Rightarrow> mvalue" where
  "WritePosition v reg = ScaleMapping (dscale (1 / 360) v) (1 / 100) (1 / 10000) (1 / 100000) reg"

definition WriteVelocity :: "double \<Rightarrow> RegisterTypes \<Rightarrow> mvalue" where
  "WriteVelocity v reg = ScaleMapping (dscale (1 / 360) v) (1 / 10) (25 / 100000) (1 / 100000) reg"

definition WriteTorque :: "double \<Rightarrow> RegisterTypes \<Rightarrow> mvalue" where
  "WriteTorque v reg = ScaleMapping v (1 / 2) (1 / 100) (1 / 1000) reg"

definition WritePwm :: "double \<Rightarrow> RegisterTypes \<Rightarrow> mvalue" where
  "WritePwm v reg = ScaleMapping v (1 / 127) (1 / 32767) (1 / 2147483647) reg"

definition WriteVoltage :: "double \<Rightarrow> RegisterTypes \<Rightarrow> mvalue" where
  "WriteVoltage v reg = ScaleMapping v (1 / 2) (1 / 10) (1 / 1000) reg"

definition WriteTemperature :: "double \<Rightarrow> RegisterTypes \<Rightarrow> mvalue" where
  "WriteTemperature v reg = ScaleMapping v 1 (1 / 10) (1 / 1000) reg"

section \<open>Reading\<close>

text \<open>\<open>ValueScaler\<close> for one of the integer types, and for all of them.\<close>

definition scale_int :: "'w::len word \<Rightarrow> real \<Rightarrow> double" where
  "scale_int v scale = (if sint v = - (2 ^ (LENGTH('w) - 1)) then NaN else Fin (of_int (sint v) * scale))"

definition ReadScale :: "mvalue \<Rightarrow> real \<Rightarrow> real \<Rightarrow> real \<Rightarrow> double" where
  "ReadScale v int8_scale int16_scale int32_scale =
     (case v of
        Int8 i \<Rightarrow> scale_int i int8_scale
      | Int16 i \<Rightarrow> scale_int i int16_scale
      | Int32 i \<Rightarrow> scale_int i int32_scale
      | Float f \<Rightarrow> f)"

definition ReadPosition :: "mvalue \<Rightarrow> double" where
  "ReadPosition v = dscale 360 (ReadScale v (1 / 100) (1 / 10000) (1 / 100000))"

definition ReadVelocity :: "mvalue \<Rightarrow> double" where
  "ReadVelocity v = dscale 360 (ReadScale v (1 / 100) (25 / 100000) (1 / 100000))"

definition ReadTorque :: "mvalue \<Rightarrow> double" where
  "ReadTorque v = ReadScale v (1 / 2) (1 / 100) (1 / 1000)"

definition ReadVoltage :: "mvalue \<Rightarrow> double" where
  "ReadVoltage v = ReadScale v (1 / 2) (1 / 10) (1 / 1000)"

definition ReadTemperature :: "mvalue \<Rightarrow> double" where
  "ReadTemperature v = ReadScale v 1 (1 / 10) (1 / 1000)"

definition ReadPwm :: "mvalue \<Rightarrow> double" where
  "ReadPwm v = ReadScale v (1 / 127) (1 / 32767) (1 / 2147483647)"

definition ReadTime :: "mvalue \<Rightarrow> double" where
  "ReadTime v = ReadScale v (1 / 100) (1 / 1000) (1 / 1000000)"

text \<open>The conversion of a float that has no \<open>int\<close> value is undefined in C++: \<open>None\<close>.\<close>

definition ReadInt :: "mvalue \<Rightarrow> int option" where
  "ReadInt v =
     (case v of
        Int8 i \<Rightarrow> Some (sint i) | Int16 i \<Rightarrow> Some (sint i) | Int32 i \<Rightarrow> Some (sint i)
      | Float (Fin x) \<Rightarrow> if - (2 ^ 31) \<le> trunc x \<and> trunc x < 2 ^ 31 then Some (trunc x) else None
      | Float _ \<Rightarrow> None)"

section \<open>Scaling and back\<close>

lemma trunc_error: "\<bar>x - of_int (trunc x)\<bar> < 1" "\<bar>of_int (trunc x)\<bar> \<le> \<bar>x :: real\<bar>"
  by (auto simp: trunc_def) linarith+

text \<open>The integer a quantity is scaled to: it stays in the range of its type, it is the smallest value of
  the type exactly for a quantity that is not finite, and inside of the range it is at most one step
  towards zero.\<close>

lemma ScaleSaturate_range:
  assumes "1 < w"
  shows "- (2 ^ (w - 1)) \<le> ScaleSaturate w v scale" "ScaleSaturate w v scale < 2 ^ (w - 1)"
    "ScaleSaturate w v scale = - (2 ^ (w - 1)) \<longleftrightarrow> \<not> isfinite v"
proof -
  have p: "(1 :: int) < 2 ^ (w - 1)" using assms by simp
  have "isfinite v \<Longrightarrow> \<bar>ScaleSaturate w v scale\<bar> \<le> 2 ^ (w - 1) - 1"
  proof (cases v)
    case (Fin x)
    let ?s = "x / scale" and ?m = "2 ^ (w - 1) - 1 :: int"
    have "- of_int ?m \<le> ?s \<Longrightarrow> ?s \<le> of_int ?m \<Longrightarrow> \<bar>trunc ?s\<bar> \<le> ?m"
      using trunc_error(2) [of ?s] by linarith
    with Fin p show ?thesis by (auto simp: ScaleSaturate_def Let_def)
  qed auto
  with p show "- (2 ^ (w - 1)) \<le> ScaleSaturate w v scale" "ScaleSaturate w v scale < 2 ^ (w - 1)"
    "ScaleSaturate w v scale = - (2 ^ (w - 1)) \<longleftrightarrow> \<not> isfinite v"
    by (cases v; auto simp: ScaleSaturate_def)+
qed

lemma sint_word_of_int_id:
  assumes "- (2 ^ (LENGTH('w::len) - 1)) \<le> i" "i < 2 ^ (LENGTH('w) - 1)"
  shows "sint (word_of_int i :: 'w word) = i"
  using assms by (simp add: sint_sbintrunc' signed_take_bit_int_eq_self)

text \<open>What a servo register of \<open>w\<close> bits gives back for what was written to it.\<close>

definition register_step :: "nat \<Rightarrow> double \<Rightarrow> real \<Rightarrow> double \<Rightarrow> bool" where
  "register_step w v scale r \<longleftrightarrow>
     (case v of
        Fin x \<Rightarrow>
          (let m = (2 ^ (w - 1) - 1) * scale
           in if x < - m then r = Fin (- m) else if x > m then r = Fin m
              else \<exists>y. r = Fin y \<and> \<bar>y - x\<bar> < scale \<and> \<bar>y\<bar> \<le> \<bar>x\<bar>)
      | _ \<Rightarrow> r = NaN)"

lemma scale_int_saturate:
  assumes "1 < LENGTH('w::len)" "0 < scale"
  shows "register_step LENGTH('w) v scale (scale_int (word_of_int (ScaleSaturate LENGTH('w) v scale) :: 'w word) scale)"
proof -
  let ?i = "ScaleSaturate LENGTH('w) v scale"
  note r = ScaleSaturate_range [OF assms(1), of v scale]
  have s: "sint (word_of_int ?i :: 'w word) = ?i" using r(1,2) by (rule sint_word_of_int_id)
  show ?thesis
  proof (cases v)
    case (Fin x)
    have read: "scale_int (word_of_int ?i :: 'w word) scale = Fin (of_int ?i * scale)"
      using r(3) s Fin by (simp add: scale_int_def)
    let ?m = "2 ^ (LENGTH('w) - 1) - 1 :: int"
    have lt: "x / scale < - of_int ?m \<longleftrightarrow> x < - (of_int ?m * scale)" and gt: "x / scale > of_int ?m \<longleftrightarrow> x > of_int ?m * scale"
      using assms(2) by (simp_all add: field_simps)
    have mid: "\<bar>of_int (trunc (x / scale)) * scale - x\<bar> < scale" "\<bar>of_int (trunc (x / scale)) * scale\<bar> \<le> \<bar>x\<bar>"
    proof -
      have "of_int (trunc (x / scale)) * scale - x = (of_int (trunc (x / scale)) - x / scale) * scale"
        using assms(2) by (simp add: field_simps)
      then show "\<bar>of_int (trunc (x / scale)) * scale - x\<bar> < scale"
        using trunc_error(1) [of "x / scale"] assms(2) by (simp add: abs_mult abs_minus_commute)
      show "\<bar>of_int (trunc (x / scale)) * scale\<bar> \<le> \<bar>x\<bar>"
        using trunc_error(2) [of "x / scale"] assms(2) by (simp add: abs_mult field_simps)
    qed
    have i: "?i = (if x < - (of_int ?m * scale) then - ?m else if x > of_int ?m * scale then ?m else trunc (x / scale))"
      unfolding lt [symmetric] gt [symmetric] using Fin by (simp add: ScaleSaturate_def Let_def)
    have "register_step LENGTH('w) (Fin x) scale (Fin (of_int (if x < - (of_int ?m * scale) then - ?m
        else if x > of_int ?m * scale then ?m else trunc (x / scale)) * scale))"
      using mid by (auto simp: register_step_def Let_def left_diff_distrib)
    then have "register_step LENGTH('w) (Fin x) scale (Fin (of_int ?i * scale))" by (simp only: i)
    then show ?thesis unfolding read unfolding Fin .
  qed (use r(3) s in \<open>simp_all add: register_step_def scale_int_def\<close>)
qed

text \<open>Commands reach the servo as they were meant: for every scaling of the file (the scales are
  positive), a quantity written to a register of any integer type and read back comes back as NaN
  exactly when it is not finite, as the largest magnitude of the register with its sign when it does
  not fit, and otherwise less than one step away and never further from zero than it was; as a float
  it comes back unchanged.\<close>

theorem register_roundtrip:
  assumes "0 < s8" "0 < s16" "0 < s32"
  shows "let r = ReadScale (ScaleMapping v s8 s16 s32 ty) s8 s16 s32
    in case ty of kInt8 \<Rightarrow> register_step 8 v s8 r | kInt16 \<Rightarrow> register_step 16 v s16 r
       | kInt32 \<Rightarrow> register_step 32 v s32 r | kFloat \<Rightarrow> r = v"
  using scale_int_saturate [where 'w = 8, of s8 v] scale_int_saturate [where 'w = 16, of s16 v]
    scale_int_saturate [where 'w = 32, of s32 v] assms
  by (cases ty) (simp_all add: ReadScale_def ScaleMapping_def)

theorem register_roundtrip_witness:
  "\<exists>y. ReadTorque (WriteTorque (Fin (1234 / 1000)) kInt16) = Fin y \<and> \<bar>y - 1234 / 1000\<bar> < 1 / 100"
  using register_roundtrip [of "1 / 2" "1 / 100" "1 / 1000" "Fin (1234 / 1000)" kInt16]
  by (simp add: ReadTorque_def WriteTorque_def register_step_def Let_def split: if_splits) auto

text \<open>Speeds written as 8-bit integers are not read back with the scale they were written with: the value
  comes back ten times too small.\<close>

lemma velocity_int8_mismatch: "ReadVelocity (WriteVelocity (Fin 360) kInt8) = Fin 36"
  by (simp add: ReadVelocity_def WriteVelocity_def ScaleMapping_def ReadScale_def ScaleSaturate_def trunc_def
      scale_int_def)

end
