(* ===== verification/Trajectory.thy ===== *)
theory Trajectory
  imports Complex_Main Prelude
begin

text \<open>
  Motion of a point with limited acceleration, \<^verbatim>\<open>mech/trajectory.cc\<close>, and the filter for velocity commands,
  \<^verbatim>\<open>FilterCommand\<close> of \<^verbatim>\<open>mech/quadruped_util.h\<close>. \<open>base::Point3D\<close> is an Eigen vector of three doubles; here it is
  a record of three real numbers, so rounding is not modelled. \<open>normalized\<close> is Eigen's: the zero vector
  is left as it is.
\<close>

section \<open>Vectors\<close>

record vec =
  vx :: real
  vy :: real
  vz :: real

definition vzero :: vec where "vzero = \<lparr>vx = 0, vy = 0, vz = 0\<rparr>"

definition vadd :: "vec \<Rightarrow> vec \<Rightarrow> vec" where
  "vadd a b = \<lparr>vx = vx a + vx b, vy = vy a + vy b, vz = vz a + vz b\<rparr>"

definition vsub :: "vec \<Rightarrow> vec \<Rightarrow> vec" where
  "vsub a b = \<lparr>vx = vx a - vx b, vy = vy a - vy b, vz = vz a - vz b\<rparr>"

definition vscale :: "real \<Rightarrow> vec \<Rightarrow> vec" where
  "vscale k a = \<lparr>vx = k * vx a, vy = k * vy a, vz = k * vz a\<rparr>"

definition vdot :: "vec \<Rightarrow> vec \<Rightarrow> real" where
  "vdot a b = vx a * vx b + vy a * vy b + vz a * vz b"

definition vnorm :: "vec \<Rightarrow> real" where
  "vnorm a = sqrt (vdot a a)"

definition normalized :: "vec \<Rightarrow> vec" where
  "normalized a = (if vnorm a = 0 then a else vscale (1 / vnorm a) a)"

text \<open>The product with a diagonal matrix.\<close>

definition vmask :: "vec \<Rightarrow> vec \<Rightarrow> vec" where
  "vmask m a = \<lparr>vx = vx m * vx a, vy = vy m * vy a, vz = vz m * vz a\<rparr>"

section \<open>The trajectory step\<close>

record TrajectoryState =
  pose_l :: vec
  velocity_l_s :: vec
  acceleration_l_s2 :: vec

definition decel_velocity :: "real \<Rightarrow> real \<Rightarrow> real \<Rightarrow> real \<Rightarrow> real" where
  "decel_velocity error_norm speed max_acceleration delta_s =
     1 / 2 * (sqrt (2 * error_norm * max_acceleration) +
       sqrt (2 * max 0 (error_norm - (1 / 2 * speed * delta_s) * max_acceleration)))"

definition limit_velocity :: "vec \<Rightarrow> vec \<Rightarrow> real \<Rightarrow> vec" where
  "limit_velocity current wanted step =
     (let delta = vsub wanted current
      in if vnorm delta < step then wanted else vadd current (vscale step (normalized delta)))"

definition CalculateAccelerationLimitedTrajectory ::
  "vec \<Rightarrow> vec \<Rightarrow> vec \<Rightarrow> real \<Rightarrow> real \<Rightarrow> real \<Rightarrow> TrajectoryState" where
  "CalculateAccelerationLimitedTrajectory start_pose start_velocity target_pose target_velocity max_acceleration delta_s =
     (let error = vsub target_pose start_pose;
          scalar = min target_velocity (decel_velocity (vnorm error) (vnorm start_velocity) max_acceleration delta_s);
          wanted = vscale scalar (normalized error);
          velocity = limit_velocity start_velocity wanted (max_acceleration * delta_s);
          next_pose = vadd start_pose (vscale delta_s velocity);
          dot = vdot (vsub next_pose target_pose) (vsub start_pose target_pose);
          (pose, v) = (if dot < 0 then (target_pose, vzero) else (next_pose, velocity))
      in \<lparr>pose_l = pose, velocity_l_s = v,
          acceleration_l_s2 = vscale (1 / max (1 / 1000) delta_s) (vsub velocity start_velocity)\<rparr>)"

section \<open>The command filter\<close>

definition filter_delta :: "vec \<Rightarrow> real \<Rightarrow> vec" where
  "filter_delta input_delta max_delta =
     (if vnorm input_delta < max_delta then input_delta else vscale max_delta (normalized input_delta))"

definition FilterCommand :: "vec \<times> vec \<Rightarrow> vec \<times> vec \<Rightarrow> real \<Rightarrow> real \<Rightarrow> real \<Rightarrow> vec \<times> vec" where
  "FilterCommand current desired acceleration alpha_rad_s2 delta_s =
     (let v = vadd (fst current) (filter_delta (vsub (fst desired) (fst current)) (acceleration * delta_s));
          w = vadd (snd current) (filter_delta (vsub (snd desired) (snd current)) (alpha_rad_s2 * delta_s))
      in (v\<lparr>vz := 0\<rparr>, w\<lparr>vx := 0, vy := 0\<rparr>))"

section \<open>Norms\<close>

lemma vnorm_ge0 [simp]: "0 \<le> vnorm a"
  by (simp add: vnorm_def vdot_def)

lemma vdot_self: "0 \<le> vdot a a" "vdot a a = vnorm a * vnorm a"
  by (simp_all add: vnorm_def vdot_def)

lemma vnorm_vscale: "vnorm (vscale k a) = \<bar>k\<bar> * vnorm a"
proof -
  have "vdot (vscale k a) (vscale k a) = k\<^sup>2 * vdot a a"
    by (simp add: vdot_def vscale_def power2_eq_square algebra_simps)
  then show ?thesis by (simp add: vnorm_def real_sqrt_mult)
qed

lemma vnorm_normalized: "vnorm a \<noteq> 0 \<Longrightarrow> vnorm (normalized a) = 1"
  by (simp add: normalized_def vnorm_vscale)

lemma vnorm_normalized_le: "vnorm (normalized a) \<le> 1"
  by (cases "vnorm a = 0") (simp_all add: vnorm_normalized, simp add: normalized_def)

lemma vadd_sub [simp]: "vsub (vadd a b) a = b"
  by (simp add: vsub_def vadd_def)

lemma limit_velocity_step: "0 \<le> step \<Longrightarrow> vnorm (vsub (limit_velocity current wanted step) current) \<le> step"
  using mult_left_mono [OF vnorm_normalized_le, of step "vsub wanted current"]
  by (auto simp: limit_velocity_def Let_def vnorm_vscale)

lemma filter_delta_bound: "0 \<le> m \<Longrightarrow> vnorm (filter_delta d m) \<le> m"
  using mult_left_mono [OF vnorm_normalized_le, of m d]
  by (auto simp: filter_delta_def vnorm_vscale)

section \<open>A step towards the target\<close>

text \<open>One step of a leg towards its target: the foot never passes the plane through the target,
  the speed changes by at most the allowed acceleration times the period, except that a foot which
  would pass the target is put exactly there with zero velocity; otherwise it has moved by its new
  velocity times the period. The acceleration fed forward stays within the limit for periods of a
  millisecond or more.\<close>

theorem trajectory_step:
  assumes "0 \<le> max_acceleration" "0 < delta_s"
  shows "let r = CalculateAccelerationLimitedTrajectory p v target speed max_acceleration delta_s
    in 0 \<le> vdot (vsub (pose_l r) target) (vsub p target) \<and>
       (pose_l r = target \<and> velocity_l_s r = vzero \<or>
        pose_l r = vadd p (vscale delta_s (velocity_l_s r)) \<and>
        vnorm (vsub (velocity_l_s r) v) \<le> max_acceleration * delta_s) \<and>
       (1 / 1000 \<le> delta_s \<longrightarrow> vnorm (acceleration_l_s2 r) \<le> max_acceleration)"
proof -
  define u where "u = limit_velocity v
    (vscale (min speed (decel_velocity (vnorm (vsub target p)) (vnorm v) max_acceleration delta_s))
      (normalized (vsub target p))) (max_acceleration * delta_s)"
  have u: "vnorm (vsub u v) \<le> max_acceleration * delta_s"
    unfolding u_def by (rule limit_velocity_step) (use assms in simp)
  have a: "vnorm (vscale (1 / max (1 / 1000) delta_s) (vsub u v)) \<le> max_acceleration" if "1 / 1000 \<le> delta_s"
    using u that assms(2) by (simp add: vnorm_vscale max_def field_simps)
  have z: "vdot (vsub target target) x = 0" for x by (simp add: vdot_def vsub_def)
  show ?thesis
    using u a z
    by (auto simp: CalculateAccelerationLimitedTrajectory_def Let_def u_def [symmetric] split: if_splits)
qed

theorem trajectory_step_witness:
  "let r = CalculateAccelerationLimitedTrajectory vzero vzero \<lparr>vx = 1, vy = 0, vz = 0\<rparr> 1 2 (1 / 400)
   in vnorm (acceleration_l_s2 r) \<le> 2"
  using trajectory_step [of 2 "1 / 400" vzero vzero "\<lparr>vx = 1, vy = 0, vz = 0\<rparr>" 1] by (simp add: Let_def)

section \<open>Commands are reached\<close>

lemma filter_delta_remaining:
  assumes "0 < m"
  shows "vnorm (vsub d (filter_delta d m)) = max 0 (vnorm d - m)"
proof (cases "vnorm d < m")
  case True
  have "vnorm (vsub d d) = 0" by (simp add: vsub_def vnorm_def vdot_def)
  with True show ?thesis by (simp add: filter_delta_def)
next
  case False
  then have n: "vnorm d \<noteq> 0" "m \<le> vnorm d" using assms by auto
  have "vsub d (vscale m (vscale (1 / vnorm d) d)) = vscale (1 - m / vnorm d) d"
    using n(1) by (simp add: vsub_def vscale_def field_simps)
  moreover have "0 \<le> 1 - m / vnorm d" using n assms by (simp add: field_simps)
  ultimately have "vnorm (vsub d (filter_delta d m)) = (1 - m / vnorm d) * vnorm d"
    using False n(1) by (simp add: filter_delta_def normalized_def vnorm_vscale)
  moreover have "(1 - m / vnorm d) * vnorm d = vnorm d - m" using n(1) by (simp add: field_simps)
  ultimately show ?thesis using n(2) by simp
qed

lemma vnorm_0: "vnorm a = 0 \<longleftrightarrow> a = vzero"
proof
  assume "vnorm a = 0"
  then have "(vx a)\<^sup>2 + (vy a)\<^sup>2 + (vz a)\<^sup>2 = 0" by (simp add: vnorm_def vdot_def power2_eq_square)
  then have "vx a = 0" "vy a = 0" "vz a = 0"
    by (smt (verit) zero_le_power2 zero_eq_power2)+
  then show "a = vzero" by (cases a) (simp add: vzero_def)
qed (simp add: vnorm_def vdot_def vzero_def)

text \<open>One axis of the filter, on commands that keep to the allowed directions.\<close>

lemma filter_v:
  assumes "vz (fst c) = 0" "vz (fst d) = 0"
  shows "fst (FilterCommand c d a al dt) = vadd (fst c) (filter_delta (vsub (fst d) (fst c)) (a * dt))"
  using assms by (simp add: FilterCommand_def Let_def vadd_def filter_delta_def normalized_def vscale_def vsub_def)

lemma filter_w:
  assumes "vx (snd c) = 0" "vx (snd d) = 0" "vy (snd c) = 0" "vy (snd d) = 0"
  shows "snd (FilterCommand c d a al dt) = vadd (snd c) (filter_delta (vsub (snd d) (snd c)) (al * dt))"
  using assms by (simp add: FilterCommand_def Let_def vadd_def filter_delta_def normalized_def vscale_def vsub_def)

definition allowed :: "vec \<times> vec \<Rightarrow> bool" where
  "allowed c \<longleftrightarrow> vz (fst c) = 0 \<and> vx (snd c) = 0 \<and> vy (snd c) = 0"

lemma filter_allowed: "allowed (FilterCommand c d a al dt)"
  by (simp add: allowed_def FilterCommand_def Let_def)

lemma vsub_add: "vsub d (vadd c e) = vsub (vsub d c) e"
  by (simp add: vsub_def vadd_def)

lemma filter_progress:
  assumes "allowed c" "allowed d" "0 < a * dt" "0 < al * dt"
  shows "vnorm (vsub (fst d) (fst (FilterCommand c d a al dt))) = max 0 (vnorm (vsub (fst d) (fst c)) - a * dt)"
    "vnorm (vsub (snd d) (snd (FilterCommand c d a al dt))) = max 0 (vnorm (vsub (snd d) (snd c)) - al * dt)"
  using assms by (simp_all add: allowed_def filter_v filter_w vsub_add filter_delta_remaining)

lemma filter_iterate:
  assumes "allowed c" "allowed d" "0 < a * dt" "0 < al * dt"
  defines "f \<equiv> \<lambda>c. FilterCommand c d a al dt"
  shows "allowed ((f ^^ n) c) \<and>
    vnorm (vsub (fst d) (fst ((f ^^ n) c))) = max 0 (vnorm (vsub (fst d) (fst c)) - n * (a * dt)) \<and>
    vnorm (vsub (snd d) (snd ((f ^^ n) c))) = max 0 (vnorm (vsub (snd d) (snd c)) - n * (al * dt))"
proof (induction n)
  case (Suc n)
  then have al: "allowed ((f ^^ n) c)" by blast
  note step = filter_progress [OF al assms(2-4), folded f_def]
  have "max 0 (max 0 (x - n * m) - m) = max 0 (x - Suc n * m)" if "0 < m" for x m :: real
    using that by (simp add: max_def algebra_simps)
  with step Suc assms(3,4) show ?case by (simp add: f_def filter_allowed)
qed (simp add: assms(1))

text \<open>C40 (liveness). The motion the operator commands is reached: filtering towards a fixed command, the velocity
  and the turning rate come closer by the allowed change per period and are exactly the commanded ones after
  as many periods as the distance takes; in each period they change by no more than allowed.\<close>

theorem filter_command_reached:
  assumes "allowed c" "allowed d" "0 < a" "0 < al" "0 < dt"
    and "vnorm (vsub (fst d) (fst c)) \<le> n * (a * dt)" "vnorm (vsub (snd d) (snd c)) \<le> n * (al * dt)"
  shows "((\<lambda>c. FilterCommand c d a al dt) ^^ n) c = d \<and>
    vnorm (vsub (fst (FilterCommand c d a al dt)) (fst c)) \<le> a * dt \<and>
    vnorm (vsub (snd (FilterCommand c d a al dt)) (snd c)) \<le> al * dt"
proof -
  have p: "0 < a * dt" "0 < al * dt" using assms(3-5) by simp_all
  let ?c = "((\<lambda>c. FilterCommand c d a al dt) ^^ n) c"
  have z: "vsub x y = vzero \<Longrightarrow> y = x" for x y by (cases x, cases y) (simp add: vsub_def vzero_def)
  have "vnorm (vsub (fst d) (fst ?c)) = 0" "vnorm (vsub (snd d) (snd ?c)) = 0"
    using filter_iterate [OF assms(1,2) p, of n] assms(6,7) by simp_all
  then have "?c = d" using z by (simp add: vnorm_0 prod_eq_iff)
  moreover have "vnorm (vsub (fst (FilterCommand c d a al dt)) (fst c)) \<le> a * dt"
    "vnorm (vsub (snd (FilterCommand c d a al dt)) (snd c)) \<le> al * dt"
    using assms(1,2) p filter_delta_bound by (simp_all add: allowed_def filter_v filter_w)
  ultimately show ?thesis by blast
qed

theorem filter_command_reached_witness:
  "((\<lambda>c. FilterCommand c (\<lparr>vx = 3, vy = 4, vz = 0\<rparr>, \<lparr>vx = 0, vy = 0, vz = 1\<rparr>) 2 1 (1 / 2)) ^^ 5) (vzero, vzero) =
     (\<lparr>vx = 3, vy = 4, vz = 0\<rparr>, \<lparr>vx = 0, vy = 0, vz = 1\<rparr>)"
proof -
  have n: "vnorm (vsub \<lparr>vx = 3, vy = 4, vz = 0\<rparr> vzero) = 5" "vnorm (vsub \<lparr>vx = 0, vy = 0, vz = 1\<rparr> vzero) = 1"
    by (simp_all add: vnorm_def vdot_def vsub_def vzero_def real_sqrt_eq_iff [of 25 "5\<^sup>2", simplified])
  show ?thesis
    using filter_command_reached [of "(vzero, vzero)" "(\<lparr>vx = 3, vy = 4, vz = 0\<rparr>, \<lparr>vx = 0, vy = 0, vz = 1\<rparr>)" 2 1 "1 / 2" 5] n
    by (simp add: allowed_def vzero_def)
qed

end
