(* ===== verification/Swing.thy ===== *)
theory Swing
  imports Moteus Trajectory
begin

text \<open>
  The path of a swinging leg, \<^verbatim>\<open>mech/swing_trajectory.cc\<close> with the interpolation of \<^verbatim>\<open>base/bezier.h\<close>, and the time a
  moving point takes to reach a line or to leave a polygon, \<^verbatim>\<open>mech/trajectory_line_intersect.cc\<close> and
  \<open>TimeToLeave_G\<close> of \<^verbatim>\<open>mech/valid_leg_region.h\<close>.

  Angles of \<open>atan2\<close> are arguments of complex numbers. Times may be infinite or, where the code divides zero by
  zero, not a number; they are values of \<open>double\<close>.
\<close>

section \<open>Interpolation\<close>

record bezier =
  bz_start :: real
  bz_end :: real

definition bz_delta :: "bezier \<Rightarrow> real" where
  "bz_delta b = bz_end b - bz_start b"

definition bz_position :: "bezier \<Rightarrow> real \<Rightarrow> real" where
  "bz_position b phase = bz_start b + (phase * phase * phase + 3 * (phase * phase * (1 - phase))) * bz_delta b"

definition bz_velocity :: "bezier \<Rightarrow> real \<Rightarrow> real" where
  "bz_velocity b phase = 6 * phase * (1 - phase) * bz_delta b"

definition bz_acceleration :: "bezier \<Rightarrow> real \<Rightarrow> real" where
  "bz_acceleration b phase = (6 - 12 * phase) * bz_delta b"

section \<open>Swings\<close>

text \<open>The interpolation of the plane is one of each coordinate.\<close>

record swing =
  sw_start :: vec
  sw_start_velocity :: vec
  sw_end :: vec
  world_blend :: real
  swing_time_s :: real
  sw_phase :: real
  sw_current :: vec
  zinterp :: bezier
  xmove :: bezier
  ymove :: bezier

definition SwingTrajectory :: "vec \<Rightarrow> vec \<Rightarrow> vec \<Rightarrow> real \<Rightarrow> real \<Rightarrow> real \<Rightarrow> swing" where
  "SwingTrajectory start start_velocity target height blend time_s =
     \<lparr>sw_start = start, sw_start_velocity = start_velocity, sw_end = target, world_blend = blend, swing_time_s = time_s,
      sw_phase = 0, sw_current = vzero,
      zinterp = \<lparr>bz_start = vz start, bz_end = vz start - height\<rparr>,
      xmove = \<lparr>bz_start = vx start + 1 / 2 * blend * time_s * vx start_velocity, bz_end = vx target\<rparr>,
      ymove = \<lparr>bz_start = vy start + 1 / 2 * blend * time_s * vy start_velocity, bz_end = vy target\<rparr>\<rparr>"

definition swing_default :: swing where
  "swing_default = SwingTrajectory vzero vzero vzero 1 (1 / 10) 1"

record swing_result =
  sr_phase :: real
  sr_position :: vec
  sr_velocity_s :: vec
  sr_acceleration_s2 :: vec

definition swing_z :: "swing \<Rightarrow> real \<Rightarrow> real \<times> real \<times> real" where
  "swing_z s phase =
     (let half = 1 / 2 * swing_time_s s; z = zinterp s
      in if phase < 1 / 2
         then (bz_position z (2 * phase), bz_velocity z (2 * phase) / half, bz_acceleration z (2 * phase) / half)
         else (bz_position z (2 - 2 * phase), - bz_velocity z (2 - 2 * phase) / half,
               bz_acceleration z (2 - 2 * phase) / half))"

text \<open>The plane: lift, move and lower. The result is the position, the velocity and the acceleration, without their heights.\<close>

definition swing_lift :: "swing \<Rightarrow> real \<Rightarrow> vec \<times> vec \<times> vec" where
  "swing_lift s phase =
     (let a = vscale (1 / (swing_time_s s * world_blend s)) (vscale (-1) (sw_start_velocity s));
          t = phase * swing_time_s s
      in (vadd (vadd (sw_start s) (vscale t (sw_start_velocity s))) (vscale (1 / 2 * t * t) a),
          vscale (1 - phase / world_blend s) (sw_start_velocity s), a))"

definition swing_move :: "swing \<Rightarrow> real \<Rightarrow> vec \<times> vec \<times> vec" where
  "swing_move s phase =
     (let xytime_s = swing_time_s s * (1 - 2 * world_blend s);
          xyphase = (phase - world_blend s) / (1 - 2 * world_blend s)
      in (\<lparr>vx = bz_position (xmove s) xyphase, vy = bz_position (ymove s) xyphase, vz = 0\<rparr>,
          vscale (1 / xytime_s) \<lparr>vx = bz_velocity (xmove s) xyphase, vy = bz_velocity (ymove s) xyphase, vz = 0\<rparr>,
          vscale (1 / xytime_s) \<lparr>vx = bz_acceleration (xmove s) xyphase, vy = bz_acceleration (ymove s) xyphase, vz = 0\<rparr>))"

definition swing_lower :: "swing \<Rightarrow> real \<Rightarrow> real \<Rightarrow> vec \<Rightarrow> real \<Rightarrow> vec \<times> vec \<times> vec" where
  "swing_lower s delta_s old_phase w phase =
     (let blend_s = swing_time_s s * world_blend s;
          phase_ratio = (phase - (1 - world_blend s)) / world_blend s;
          old_phase_ratio = (old_phase - (1 - world_blend s)) / world_blend s;
          v = vscale phase_ratio w
      in (if old_phase_ratio \<le> 0 then vadd (sw_end s) (vscale (phase_ratio * blend_s) v)
          else vadd (sw_current s) (vscale delta_s v),
          v, vscale (1 / (1 / blend_s)) w))"

definition Advance :: "real \<Rightarrow> vec \<Rightarrow> swing \<Rightarrow> swing_result \<times> swing" where
  "Advance delta_s w s =
     (let old_phase = sw_phase s;
          phase = min 1 (old_phase + delta_s / swing_time_s s);
          (pz, uz, az) = swing_z s phase;
          lowering = (\<not> phase < world_blend s \<and> \<not> phase < 1 - world_blend s);
          (p, v, a) = (if phase < world_blend s then swing_lift s phase
                       else if phase < 1 - world_blend s then swing_move s phase
                       else swing_lower s delta_s old_phase w phase)
      in (\<lparr>sr_phase = phase, sr_position = p\<lparr>vz := pz\<rparr>, sr_velocity_s = v\<lparr>vz := uz\<rparr>, sr_acceleration_s2 = a\<lparr>vz := az\<rparr>\<rparr>,
          s\<lparr>sw_phase := phase, sw_current := (if lowering then (sw_current s)\<lparr>vx := vx p, vy := vy p\<rparr> else sw_current s)\<rparr>))"

section \<open>Reaching a line\<close>

definition StraightLine :: "real \<times> real \<Rightarrow> real \<times> real \<Rightarrow> real \<times> real \<Rightarrow> double" where
  "StraightLine velocity p1 p2 =
     (let (x1, y1) = (0, 0); (x2, y2) = velocity; (x3, y3) = p1; (x4, y4) = p2;
          denom = (x1 - x2) * (y3 - y4) - (y1 - y2) * (x3 - x4)
      in if denom = 0 then PosInf else Fin (((x1 - x3) * (y3 - y4) - (y1 - y3) * (x3 - x4)) / denom))"

definition atan2 :: "real \<Rightarrow> real \<Rightarrow> real" where
  "atan2 y x = Arg (Complex x y)"

definition Degrees :: "real \<Rightarrow> real" where "Degrees radians = 180 * radians / pi"

definition Radians :: "real \<Rightarrow> real" where "Radians degrees = pi * degrees / 180"

text \<open>\<open>fmod\<close> is the remainder with the sign of the dividend.\<close>

definition fmod :: "real \<Rightarrow> real \<Rightarrow> real" where
  "fmod x y = x - of_int (trunc (x / y)) * y"

definition WrapNegPiToPi :: "real \<Rightarrow> real" where
  "WrapNegPiToPi v =
     (if v \<ge> - pi \<and> v \<le> pi then v
      else if v > 0 then fmod (v + pi) (2 * pi) - pi else fmod (v - pi) (2 * pi) + pi)"

definition WrapNeg180To180 :: "real \<Rightarrow> real" where
  "WrapNeg180To180 v = Degrees (WrapNegPiToPi (Radians v))"

text \<open>The centre of the circle, and the points where it meets the line: none, one or two.\<close>

definition circle_center :: "real \<times> real \<Rightarrow> real \<Rightarrow> real \<times> real" where
  "circle_center velocity omega = (1 / omega * (- snd velocity), 1 / omega * fst velocity)"

definition circle_line :: "real \<Rightarrow> real \<times> real \<Rightarrow> real \<times> real \<Rightarrow> real \<times> real \<Rightarrow> (real \<times> real) list" where
  "circle_line radius center p1_in p2_in =
     (let (cx, cy) = center;
          (x1, y1) = (fst p1_in - cx, snd p1_in - cy);
          (x2, y2) = (fst p2_in - cx, snd p2_in - cy);
          dx = x2 - x1; dy = y2 - y1; dr2 = dx * dx + dy * dy;
          D = x1 * y2 - x2 * y1;
          discriminant2 = radius * radius * dr2 - D * D;
          discriminant = sqrt discriminant2;
          sign = (if dy < 0 then -1 else 1)
      in if discriminant2 < 0 then []
         else if discriminant2 = 0 then [(D * dy / dr2 + cx, - D * dx / dr2 + cy)]
         else [((D * dy + sign * dx * discriminant) / dr2 + cx, (- D * dx + \<bar>dy\<bar> * discriminant) / dr2 + cy),
               ((D * dy - sign * dx * discriminant) / dr2 + cx, (- D * dx - \<bar>dy\<bar> * discriminant) / dr2 + cy)])"

definition circle_time :: "real \<times> real \<Rightarrow> real \<Rightarrow> real \<times> real \<Rightarrow> real" where
  "circle_time velocity omega p =
     (let (cx, cy) = circle_center velocity omega;
          norm = sqrt (fst velocity * fst velocity + snd velocity * snd velocity);
          theta0 = atan2 (- cy) (- cx);
          theta = atan2 (snd p - cy) (fst p - cx)
      in WrapNegPiToPi (theta - theta0) * (norm / omega) / norm)"

text \<open>Zero over zero, NaN, comes from a line through two equal points and from a velocity of zero.\<close>

definition CurvedPath :: "real \<times> real \<Rightarrow> real \<Rightarrow> real \<times> real \<Rightarrow> real \<times> real \<Rightarrow> double" where
  "CurvedPath velocity omega p1 p2 =
     (let radius = sqrt (fst velocity * fst velocity + snd velocity * snd velocity) / omega;
          ps = circle_line radius (circle_center velocity omega) p1 p2
      in case ps of
           [] \<Rightarrow> PosInf
         | s1 # rest \<Rightarrow>
             if p1 = p2 \<or> velocity = (0, 0) then NaN
             else
               (let t1 = circle_time velocity omega s1
                in case rest of
                     [] \<Rightarrow> Fin t1
                   | s2 # _ \<Rightarrow>
                       (let t2 = circle_time velocity omega s2 in Fin (if \<bar>t1\<bar> < \<bar>t2\<bar> then t1 else t2))))"

definition TrajectoryLineIntersectTime :: "real \<times> real \<Rightarrow> real \<Rightarrow> real \<times> real \<Rightarrow> real \<times> real \<Rightarrow> double" where
  "TrajectoryLineIntersectTime velocity omega p1 p2 =
     (if \<bar>omega\<bar> < 1 / 1000000 then StraightLine velocity p1 p2 else CurvedPath velocity omega p1 p2)"

section \<open>Leaving a region\<close>

text \<open>\<open>inside\<close> is the answer of the geometry library, \<open>bounds\<close> the corners of the closed polygon. For a point outside
  the code returns \<open>!infinity\<close>, which is zero. No crossing at all makes \<open>value()\<close> throw: \<open>None\<close>.\<close>

fun smallest_time :: "(real \<times> real \<Rightarrow> real \<times> real \<Rightarrow> double) \<Rightarrow> (real \<times> real) list \<Rightarrow> double option \<Rightarrow> double option" where
  "smallest_time f (p # q # ps) m =
     smallest_time f (q # ps)
       (let t = f p q
        in if (t = Fin 0 \<or> dless (Fin 0) t) \<and> (case m of None \<Rightarrow> True | Some u \<Rightarrow> dless t u) then Some t else m)"
| "smallest_time f ps m = m"

definition TimeToLeave_G :: "bool \<Rightarrow> (real \<times> real) list \<Rightarrow> real \<times> real \<Rightarrow> real \<times> real \<Rightarrow> real \<Rightarrow> double option" where
  "TimeToLeave_G inside bounds point_G velocity omega =
     (if \<not> inside then Some (Fin 0)
      else if velocity = (0, 0) \<and> omega = 0 then Some PosInf
      else
        (let rel = (\<lambda>p. (fst p - fst point_G, snd p - snd point_G))
         in smallest_time (\<lambda>p q. TrajectoryLineIntersectTime velocity omega (rel p) (rel q)) bounds None))"

end
