(* ===== verification/Quadruped.thy ===== *)
theory Quadruped
  imports Swing
begin

text \<open>
  The data of the quadruped controller, \<^verbatim>\<open>mech/quadruped_command.h\<close>, \<^verbatim>\<open>quadruped_state.h\<close>,
  \<^verbatim>\<open>quadruped_config.h\<close>, \<^verbatim>\<open>quadruped_control.h\<close>, and the leg motions of \<^verbatim>\<open>quadruped_context.h\<close> that the
  control modes share.

  Joint quantities that reach the servos are values of \<open>double\<close>, since the controller sends NaN on purpose;
  quantities of the leg geometry are real numbers. Poses are Sophus objects: the type variable \<open>'p\<close>
  stands for a pose with its rates, and the record \<open>geometry\<close> collects the operations on them that come
  from Sophus, Eigen and the inverse kinematics. It is an argument of every definition that uses it,
  and the theorems hold for all of its values.
\<close>

section \<open>Outcomes\<close>

text \<open>A handler finishes, or it stops the process: a failed assertion, \<open>AssertNotReached\<close>, or an operation that
  C++ leaves undefined. \<open>Spin\<close> is the result of a loop that has used up its fuel.\<close>

datatype 'a run = Go 'a | Abort | Spin

fun rbind :: "'a run \<Rightarrow> ('a \<Rightarrow> 'b run) \<Rightarrow> 'b run" where
  "rbind (Go x) f = f x"
| "rbind Abort f = Abort"
| "rbind Spin f = Spin"

lemma rbind_Go: "rbind m f = Go y \<longleftrightarrow> (\<exists>x. m = Go x \<and> f x = Go y)"
  by (cases m) auto

lemma rbind_Spin: "rbind m f = Spin \<longleftrightarrow> m = Spin \<or> (\<exists>x. m = Go x \<and> f x = Spin)"
  by (cases m) auto

section \<open>Commands\<close>

datatype Mode = kConfiguring | kStopped | kFault | kZeroVelocity | kJoint | kLeg | kStandUp | kRest | kJump
  | kWalk | kBackflip | kNumModes

datatype Log = kUnset | kDisable | kEnable

record joint_cmd =
  jc_id :: int
  jc_power :: bool
  jc_zero_velocity :: bool
  jc_angle_deg :: double
  jc_velocity_dps :: double
  jc_torque_Nm :: double
  jc_kp_scale :: "double option"
  jc_kd_scale :: "double option"
  jc_max_torque_Nm :: "double option"
  jc_stop_angle_deg :: "double option"

definition joint_default :: joint_cmd where
  "joint_default = \<lparr>jc_id = 0, jc_power = False, jc_zero_velocity = False, jc_angle_deg = Fin 0,
     jc_velocity_dps = Fin 0, jc_torque_Nm = Fin 0, jc_kp_scale = None, jc_kd_scale = None,
     jc_max_torque_Nm = None, jc_stop_angle_deg = None\<rparr>"

record leg_cmd =
  leg_id :: int
  lc_power :: bool
  lc_zero_velocity :: bool
  landing :: bool
  stance :: real
  position :: vec
  velocity :: vec
  acceleration :: vec
  force_N :: vec
  kp_N_m :: vec
  kd_N_m_s :: vec
  lc_kp_scale :: "vec option"
  lc_kd_scale :: "vec option"

definition leg_default :: leg_cmd where
  "leg_default = \<lparr>leg_id = 0, lc_power = False, lc_zero_velocity = False, landing = False, stance = 1,
     position = vzero, velocity = vzero, acceleration = vzero, force_N = vzero, kp_N_m = vzero,
     kd_N_m_s = vzero, lc_kp_scale = None, lc_kd_scale = None\<rparr>"

record jump_cmd =
  jump_acceleration :: real
  jump_repeat :: bool

definition jump_cmd_default :: jump_cmd where
  "jump_cmd_default = \<lparr>jump_acceleration = 0, jump_repeat = False\<rparr>"

record walk_cmd =
  step_height :: real
  maximize_flight :: bool

definition walk_cmd_default :: walk_cmd where
  "walk_cmd_default = \<lparr>step_height = 1, maximize_flight = False\<rparr>"

text \<open>\<open>QuadrupedCommand\<close>.\<close>

record 'p command =
  priority :: int
  cmd_log :: Log
  cmd_mode :: Mode
  cmd_joints :: "joint_cmd list"
  cmd_legs_B :: "leg_cmd list"
  offset_RB :: 'p
  cmd_jump :: "jump_cmd option"
  cmd_walk :: "walk_cmd option"
  v_R :: vec
  w_R :: vec

section \<open>State\<close>

record state_joint =
  sj_id :: int
  sj_angle_deg :: double
  sj_velocity_dps :: double
  sj_torque_Nm :: double
  sj_temperature_C :: double
  sj_voltage :: double
  sj_mode :: int
  sj_fault :: int
  sj_kp_Nm :: double
  sj_ki_Nm :: double
  sj_kd_Nm :: double
  sj_feedforward_Nm :: double
  sj_command_Nm :: double

definition state_joint_default :: state_joint where
  "state_joint_default = \<lparr>sj_id = 0, sj_angle_deg = Fin 0, sj_velocity_dps = Fin 0, sj_torque_Nm = Fin 0,
     sj_temperature_C = Fin 0, sj_voltage = Fin 0, sj_mode = 0, sj_fault = 0, sj_kp_Nm = Fin 0,
     sj_ki_Nm = Fin 0, sj_kd_Nm = Fin 0, sj_feedforward_Nm = Fin 0, sj_command_Nm = Fin 0\<rparr>"

record leg_state =
  ls_leg :: int
  ls_position :: vec
  ls_velocity :: vec
  ls_force_N :: vec
  ls_stance :: real

datatype StandUpMode = kPrepositioning | kStanding | kStandDone

record stand_up =
  su_mode :: StandUpMode
  prepositioning_stage :: int

definition stand_up_default :: stand_up where
  "stand_up_default = \<lparr>su_mode = kPrepositioning, prepositioning_stage = 0\<rparr>"

datatype JumpMode = kLowering | kPushing | kRetracting | kFalling | kLanding | kJumpDone

text \<open>The jump velocity is NaN until the landing has measured one: \<open>None\<close>.\<close>

record jump =
  ju_mode :: JumpMode
  ju_velocity :: "real option"
  ju_acceleration :: real
  ju_command :: jump_cmd

definition jump_default :: jump where
  "jump_default = \<lparr>ju_mode = kLowering, ju_velocity = Some 0, ju_acceleration = 0, ju_command = jump_cmd_default\<rparr>"

text \<open>The state of the walk: of each leg, of the two pairs of diagonal legs (\<open>VLeg\<close>), and the timing of the gait. Times
  until something happens may be infinite.\<close>

record walk_leg =
  target_R :: vec
  wl_invalid_time_s :: double
  wl_travel_distance :: double
  restore_velocity :: real
  restore_remaining :: real
  latched :: bool

definition walk_leg_default :: walk_leg where
  "walk_leg_default = \<lparr>target_R = vzero, wl_invalid_time_s = Fin 0, wl_travel_distance = Fin 0, restore_velocity = 0,
     restore_remaining = 0, latched = False\<rparr>"

datatype VLegMode = kStance | kSwing

record vleg =
  remaining_s :: double
  invalid_time_s :: double
  vl_mode :: VLegMode
  swing_elapsed_s :: real
  vl_stance_elapsed_s :: real
  phase_s :: real
  target_time_s :: real
  predicted_next_v :: vec

definition vleg_default :: vleg where
  "vleg_default = \<lparr>remaining_s = Fin 0, invalid_time_s = Fin 0, vl_mode = kStance, swing_elapsed_s = 0, vl_stance_elapsed_s = 0,
     phase_s = 0, target_time_s = 0, predicted_next_v = vzero\<rparr>"

record trot =
  swing_time :: real
  onevleg_time :: real
  twovleg_time :: real
  flight_time :: real
  trot_speed :: real
  trot_max_speed :: real

definition trot_default :: trot where
  "trot_default = \<lparr>swing_time = 0, onevleg_time = 0, twovleg_time = 0, flight_time = 0, trot_speed = 0, trot_max_speed = 0\<rparr>"

record walk =
  idle_count :: int
  wk_legs :: "walk_leg list"
  vlegs :: "vleg list"
  next_step_vleg :: nat
  stance_elapsed_s :: real
  last_swing_v_R :: vec
  travel_distance :: real
  wk_trot :: trot

definition walk_default :: walk where
  "walk_default = \<lparr>idle_count = 0, wk_legs = replicate 4 walk_leg_default, vlegs = replicate 2 vleg_default, next_step_vleg = 0,
     stance_elapsed_s = 0, last_swing_v_R = vzero, travel_distance = 0, wk_trot = trot_default\<rparr>"

datatype BackflipMode = kFlipLowering | kFrontPush | kBackPush | kFlight | kFlipDone

record backflip =
  bf_mode :: BackflipMode
  pitch_deg :: real
  pitch_rate_dps :: real
  pitch_accel_dps2 :: real
  bf_velocity :: real

definition backflip_default :: backflip where
  "backflip_default = \<lparr>bf_mode = kFlipLowering, pitch_deg = 0, pitch_rate_dps = 0, pitch_accel_dps2 = 0, bf_velocity = 0\<rparr>"

text \<open>The servos as they report during configuration.\<close>

record servo =
  sv_id :: int
  rezero_state :: int
  register_map_version :: int
  serial_number :: "u8 list"

definition servo_default :: servo where
  "servo_default = \<lparr>sv_id = 0, rezero_state = 0, register_map_version = -1, serial_number = replicate 12 0\<rparr>"

section \<open>Configuration\<close>

record joint_config =
  jf_id :: int
  sign :: real
  rezero_pos_deg :: real

record stand_up_config =
  velocity_dps :: real
  su_velocity :: real
  max_preposition_torque_Nm :: real
  preposition_kp_scale :: real
  timeout_s :: real
  tolerance_deg :: real
  su_acceleration :: real

record jump_config =
  lower_velocity :: real
  retract_velocity :: real
  retract_acceleration :: real
  land_threshold :: real
  jf_kp_scale :: real
  jf_kd_scale :: real
  land_kp :: real
  land_kd :: real
  lower_height :: real
  upper_height :: real
  min_acceleration :: real
  land_velocity :: real

record backflip_config =
  bf_lower_height :: real
  bf_pitch_accel_dps2 :: real
  max_pitch_deg :: real
  push_pitch_deg :: real
  bf_acceleration :: real
  push_height :: real
  flight_velocity :: real
  flight_kp :: real

text \<open>The parameters of the walk.\<close>

record walk_config =
  lift_height :: real
  max_stance_s :: real
  min_invalid_time_s :: real
  world_blend_ratio :: real
  max_swing_time_s :: real
  min_swing_time_s :: real
  max_twovleg_time_s :: real
  max_flight_time_s :: real
  travel_ratio :: real
  initial_stance :: real
  stance_restore :: real
  onevleg_accel :: real
  swing_damp_start_phase :: real
  swing_damp_kp :: real
  swing_damp_kd :: real
  swing_damp_kp_restore :: real
  swing_damp_kd_restore :: real
  stance_restore_fraction :: real
  contact_detect_load :: real
  extra_target_time_s :: real
  jump_offset_scale :: real
  jump_velocity_scale :: real

text \<open>A leg of \<open>QuadrupedContext\<close>: its servos, whether it is at the rear, and the positions computed for it
  when the configuration is loaded.\<close>

record context_leg =
  cl_leg :: int
  shoulder_id :: int
  femur_id :: int
  tibia_id :: int
  at_rear :: bool
  stand_up_R :: vec
  idle_R :: vec
  shoulder_deg :: real
  femur_deg :: real
  tibia_deg :: real
  shoulder_clearance_deg :: real

record config =
  period_s :: real
  cf_min_voltage :: real
  cf_joints :: "joint_config list"
  rezero_threshold_deg :: real
  min_z_B :: real
  max_z_B :: real
  max_acceleration :: real
  cf_stand_up :: stand_up_config
  rest_velocity :: real
  stand_height :: real
  default_kp_N_m :: vec
  default_kd_N_m_s :: vec
  lr_acceleration :: real
  lr_alpha_rad_s2 :: real
  voltage_filter_s :: real
  cf_jump :: jump_config
  cf_walk :: walk_config
  cf_backflip :: backflip_config
  cf_legs :: "context_leg list"
  max_torque_Nm :: real
  mass_kg :: real
  leg_mass_kg :: real
  command_timeout_s :: real

section \<open>Leg motions\<close>

text \<open>\<open>PropagateLeg\<close>: a foot on the ground, seen from the moving robot. \<open>AngleAxisd\<close> about the vertical is
  the rotation of the plane.\<close>

definition PropagateLeg :: "vec \<Rightarrow> vec \<Rightarrow> real \<Rightarrow> vec \<Rightarrow> vec \<times> vec" where
  "PropagateLeg v w dt p =
     (let th = - dt * vz w;
          rotated = \<lparr>vx = cos th * vx p - sin th * vy p, vy = sin th * vx p + cos th * vy p, vz = vz p\<rparr>;
          cross = \<lparr>vx = vy w * vz p - vz w * vy p, vy = vz w * vx p - vx w * vz p, vz = vx w * vy p - vy w * vx p\<rparr>
      in (vsub rotated (vscale dt v), vsub (vscale (-1) v) cross))"

definition MoveLegsForR :: "config \<Rightarrow> vec \<Rightarrow> vec \<Rightarrow> leg_cmd list \<Rightarrow> leg_cmd list" where
  "MoveLegsForR cfg v w legs_R =
     map (\<lambda>leg.
       if stance leg = 0 \<and> \<not> landing leg then leg
       else
         (let (p, u) = PropagateLeg v w (period_s cfg) (position leg)
          in leg\<lparr>position := p, velocity := (velocity leg)\<lparr>vx := vx u, vy := vy u\<rparr>\<rparr>)) legs_R"

text \<open>Moving one leg towards its target; the factors \<open>msk\<close> and \<open>inverse_msk\<close> are the velocity masks.\<close>

definition move_leg :: "config \<Rightarrow> real \<Rightarrow> real \<Rightarrow> vec \<Rightarrow> vec \<Rightarrow> vec \<Rightarrow> leg_cmd \<Rightarrow> leg_cmd" where
  "move_leg cfg speed accel msk inverse_msk target leg =
     (let r = CalculateAccelerationLimitedTrajectory (position leg) (velocity leg) target speed accel (period_s cfg)
      in leg\<lparr>position := pose_l r,
             acceleration := vadd (vmask inverse_msk (acceleration leg)) (vmask msk (acceleration_l_s2 r)),
             velocity := vadd (vmask inverse_msk (velocity leg)) (vmask msk (velocity_l_s r))\<rparr>)"

text \<open>\<open>GetLeg_R\<close> finds the first leg with an id and stops the process when there is none.\<close>

definition update_leg :: "int \<Rightarrow> (leg_cmd \<Rightarrow> leg_cmd) \<Rightarrow> leg_cmd list \<Rightarrow> (leg_cmd \<times> leg_cmd list) run" where
  "update_leg i f legs =
     (case first_index (\<lambda>l. leg_id l = i) legs of
        None \<Rightarrow> Abort
      | Some k \<Rightarrow> Go (f (legs ! k), legs[k := f (legs ! k)]))"

fun move_legs :: "config \<Rightarrow> real \<Rightarrow> real \<Rightarrow> vec \<Rightarrow> vec \<Rightarrow> (int \<times> vec) list \<Rightarrow> bool \<times> leg_cmd list \<Rightarrow>
    (bool \<times> leg_cmd list) run" where
  "move_legs cfg speed accel msk inverse_msk [] (done', legs) = Go (done', legs)"
| "move_legs cfg speed accel msk inverse_msk ((i, target) # targets) (done', legs) =
     rbind (update_leg i (move_leg cfg speed accel msk inverse_msk target) legs) (\<lambda>(leg, legs).
       move_legs cfg speed accel msk inverse_msk targets
         (done' \<and> \<not> vnorm (vsub (position leg) target) > 1 / 1000, legs))"

definition MoveLegsFixedSpeed ::
  "config \<Rightarrow> leg_cmd list \<Rightarrow> real \<Rightarrow> (int \<times> vec) list \<Rightarrow> real option \<Rightarrow> vec \<Rightarrow> vec \<Rightarrow> (bool \<times> leg_cmd list) run" where
  "MoveLegsFixedSpeed cfg legs_R speed targets override msk inverse_msk =
     (let accel = (case override of Some a \<Rightarrow> a | None \<Rightarrow> max_acceleration cfg)
      in move_legs cfg speed accel msk inverse_msk targets (True, legs_R))"

definition vones :: vec where "vones = \<lparr>vx = 1, vy = 1, vz = 1\<rparr>"

fun height_targets :: "int list \<Rightarrow> real \<Rightarrow> leg_cmd list \<Rightarrow> (int \<times> vec) list run" where
  "height_targets [] h legs = Go []"
| "height_targets (i # ids) h legs =
     rbind (update_leg i (\<lambda>l. l) legs) (\<lambda>(leg, _).
       rbind (height_targets ids h legs) (\<lambda>ts. Go ((leg_id leg, (position leg)\<lparr>vz := h\<rparr>) # ts)))"

definition MoveLegsFixedSpeedZ ::
  "config \<Rightarrow> leg_cmd list \<Rightarrow> real \<Rightarrow> real \<Rightarrow> real option \<Rightarrow> (bool \<times> leg_cmd list) run" where
  "MoveLegsFixedSpeedZ cfg legs_R speed height override =
     rbind (height_targets [0, 1, 2, 3] height legs_R) (\<lambda>targets.
       MoveLegsFixedSpeed cfg legs_R speed targets override \<lparr>vx = 0, vy = 0, vz = 1\<rparr> \<lparr>vx = 1, vy = 1, vz = 0\<rparr>)"

section \<open>The controller\<close>

text \<open>Requests to the servos: writes of registers.\<close>

datatype reg_write = WriteSingle Register mvalue | WriteMultiple Register "mvalue list"

record request =
  rq_id :: int
  rq_writes :: "reg_write list"

record reply =
  rp_id :: int
  rp_reg :: Register
  rp_value :: "mvalue option"

record ik_joint =
  ij_id :: int
  ij_angle_deg :: double
  ij_torque_Nm :: double
  ij_velocity_dps :: double

text \<open>The foot of a leg as the inverse kinematics gets it.\<close>

record effector =
  ef_pose :: vec
  ef_velocity :: vec
  ef_force_N :: vec

text \<open>The texts of \<open>status_.fault\<close>, by what they report.\<close>

datatype fault = NoFault | MissingServos | NotRezeroed int | BadRegisterVersion int int | UnknownJoint
  | NotInTurnOnPosition int double | ServoFaults "(int \<times> int) list" | BatteryLow double real | TimedOut

text \<open>\<open>QuadrupedControl::Impl\<close>. \<open>'g\<close> holds the frames of the robot and the terrain, \<open>'w\<close> the state of the walk;
  \<open>log_joints\<close>, \<open>log_legs_B\<close> and \<open>log_legs_R\<close> are \<open>control_log_\<close>, the \<open>old_\<close> fields \<open>old_control_log_\<close>.\<close>

record ('g, 'p) quad =
  q_mode :: Mode
  mode_start :: real
  q_fault :: fault
  missing_replies :: int
  performed_rezero :: bool
  joints :: "state_joint list"
  legs_B :: "leg_state list"
  desired_v :: vec
  desired_w :: vec
  frames :: 'g
  robot_voltage :: double
  q_stand_up :: stand_up
  rest_done :: bool
  q_jump :: jump
  q_walk :: walk
  swings :: "swing list"
  q_backflip :: backflip
  current_command :: "'p command"
  command_timestamp :: "real option"
  servos :: "servo list"
  log_joints :: "joint_cmd list"
  log_legs_B :: "leg_cmd list"
  log_legs_R :: "leg_cmd list"
  old_legs_B :: "leg_cmd list"
  old_legs_R :: "leg_cmd list"
  client_command :: "request list"
  outstanding :: bool
  log_open :: bool

record ('g, 'p, 'i) geometry =
  sense :: "'i \<Rightarrow> state_joint list \<Rightarrow> leg_cmd list \<Rightarrow> leg_cmd list \<Rightarrow> 'g \<Rightarrow> leg_state list \<times> 'g"
  reset_RB :: "'g \<Rightarrow> 'g"
  reset_pose_RB :: "'g \<Rightarrow> 'g"
  LevelDesiredRB :: "'g \<Rightarrow> 'p"
  rest_RB :: "'p \<Rightarrow> 'p \<Rightarrow> 'p"
  filter_RB :: "'p \<Rightarrow> 'g \<Rightarrow> 'g"
  leg_to_B :: "'g \<Rightarrow> leg_cmd \<Rightarrow> leg_cmd"
  to_R :: "'g \<Rightarrow> vec \<Rightarrow> vec"
  to_B :: "'g \<Rightarrow> vec \<Rightarrow> vec"
  gravity_B :: "'g \<Rightarrow> vec"
  leg_ik :: "context_leg \<Rightarrow> effector \<Rightarrow> state_joint list \<Rightarrow> ik_joint list option"
  rb_still :: "'g \<Rightarrow> bool"
  state_to_R :: "'g \<Rightarrow> leg_state \<Rightarrow> leg_state"
  R_to_G :: "'g \<Rightarrow> context_leg \<Rightarrow> vec \<Rightarrow> vec"
  R_to_G_rot :: "'g \<Rightarrow> context_leg \<Rightarrow> vec \<Rightarrow> vec"
  region :: "nat \<Rightarrow> (real \<times> real) list"
  in_region :: "nat \<Rightarrow> real \<times> real \<Rightarrow> bool"
  flip_legs :: "backflip \<Rightarrow> real \<Rightarrow> leg_cmd list \<Rightarrow> 'g \<Rightarrow> leg_cmd list \<times> 'g"

end
