(* ===== verification/QuadrupedControl.thy ===== *)
theory QuadrupedControl
  imports Quadruped
begin

unbundle bit_operations_syntax

text \<open>
  The quadruped controller, \<^verbatim>\<open>mech/quadruped_control.cc\<close>: the commands of the operator, the cycle of status
  and control, the modes and the transitions between them, and the requests sent to the servos.

  The argument \<open>now\<close> is the clock, read once for each handler. What the servos and the attitude sensor
  answer are arguments of the handlers. The operations on poses, the inverse kinematics and the gait
  are the fields of the argument \<open>geo\<close> (theory \<open>Quadruped\<close>). Telemetry signals and log messages are not part
  of the state. \<open>std::sort\<close> by id is \<open>sort_key\<close>; it is not stable in C++, which makes a difference only for
  commands that name a joint or a leg twice.
\<close>

section \<open>Requests to the servos\<close>

definition MaybeGetSign :: "config \<Rightarrow> int \<Rightarrow> real option" where
  "MaybeGetSign cfg i = map_option sign (find (\<lambda>j. jf_id j = i) (cf_joints cfg))"

definition torque_limit :: "config \<Rightarrow> joint_cmd \<Rightarrow> double option" where
  "torque_limit cfg j =
     (if max_torque_Nm cfg \<ge> 0 \<or> jc_max_torque_Nm j \<noteq> None
      then Some (dmin (if max_torque_Nm cfg < 0 then PosInf else Fin (max_torque_Nm cfg))
                  (case jc_max_torque_Nm j of Some m \<Rightarrow> m | None \<Rightarrow> PosInf))
      else None)"

definition joint_mode :: "joint_cmd \<Rightarrow> servo_mode" where
  "joint_mode j =
     (if \<not> jc_power j then ServoStopped else if jc_zero_velocity j then ServoZeroVelocity else ServoPosition)"

definition position_count :: "config \<Rightarrow> joint_cmd \<Rightarrow> nat" where
  "position_count cfg j =
     (if jc_stop_angle_deg j \<noteq> None then 7 else if torque_limit cfg j \<noteq> None then 6
      else if dneq (jc_torque_Nm j) (Fin 0) then 3 else if dneq (jc_velocity_dps j) (Fin 0) then 2
      else if dneq (jc_angle_deg j) (Fin 0) then 1 else 0)"

definition position_value :: "config \<Rightarrow> real \<Rightarrow> joint_cmd \<Rightarrow> nat \<Rightarrow> mvalue" where
  "position_value cfg sg j i =
     (if i = 0 then WritePosition (dscale sg (jc_angle_deg j)) kInt16
      else if i = 1 then WriteVelocity (dscale sg (jc_velocity_dps j)) kInt16
      else if i = 2 then WriteTorque (dscale sg (jc_torque_Nm j)) kInt16
      else if i = 3 \<or> i = 4 then WritePwm (Fin 1) kInt16
      else if i = 5 then WriteTorque (case torque_limit cfg j of Some m \<Rightarrow> m | None \<Rightarrow> PosInf) kInt16
      else WritePosition (dscale sg (case jc_stop_angle_deg j of Some a \<Rightarrow> a | None \<Rightarrow> NaN)) kInt16)"

definition scale_values :: "joint_cmd \<Rightarrow> mvalue list" where
  "scale_values j =
     (let clip = (\<lambda>k. if dless k (Fin 0) then Fin 0 else k);
          kp = WritePwm (clip (case jc_kp_scale j of Some k \<Rightarrow> k | None \<Rightarrow> Fin 1)) kFloat;
          kd = WritePwm (clip (case jc_kd_scale j of Some k \<Rightarrow> k | None \<Rightarrow> Fin 1)) kFloat
      in if jc_kd_scale j \<noteq> None then [kp, kd] else if jc_kp_scale j \<noteq> None then [kp] else [])"

definition joint_request :: "config \<Rightarrow> joint_cmd \<Rightarrow> request" where
  "joint_request cfg j =
     \<lparr>rq_id = jc_id j,
      rq_writes = WriteSingle kMode (Int8 (servo_mode_code (joint_mode j))) #
        (if joint_mode j = ServoPosition
         then
           (case MaybeGetSign cfg (jc_id j) of
              None \<Rightarrow> []
            | Some sg \<Rightarrow>
                (let vs = map (position_value cfg sg j) [0 ..< position_count cfg j]
                 in (if vs \<noteq> [] then [WriteMultiple kCommandPosition vs] else []) @
                    (if scale_values j \<noteq> [] then [WriteMultiple kCommandKpScale (scale_values j)] else [])))
         else [])\<rparr>"

definition EmitControl :: "config \<Rightarrow> ('g, 'p) quad \<Rightarrow> ('g, 'p) quad" where
  "EmitControl cfg s = s\<lparr>client_command := map (joint_request cfg) (log_joints s)\<rparr>"

definition EmitRezero :: "config \<Rightarrow> ('g, 'p) quad \<Rightarrow> ('g, 'p) quad" where
  "EmitRezero cfg s =
     s\<lparr>performed_rezero := True,
       client_command := map (\<lambda>j. \<lparr>rq_id = jf_id j,
         rq_writes = [WriteSingle kRezero (Float (Fin (rezero_pos_deg j / 360)))]\<rparr>) (cf_joints cfg)\<rparr>"

definition ControlJoints :: "config \<Rightarrow> joint_cmd list \<Rightarrow> ('g, 'p) quad \<Rightarrow> ('g, 'p) quad" where
  "ControlJoints cfg js s = EmitControl cfg (s\<lparr>log_joints := sort_key jc_id js\<rparr>)"

definition EmitStop :: "config \<Rightarrow> ('g, 'p) quad \<Rightarrow> ('g, 'p) quad" where
  "EmitStop cfg s = ControlJoints cfg (map (\<lambda>j. joint_default\<lparr>jc_id := jf_id j, jc_power := False\<rparr>) (cf_joints cfg)) s"

definition DoControl_ZeroVelocity :: "config \<Rightarrow> ('g, 'p) quad \<Rightarrow> ('g, 'p) quad" where
  "DoControl_ZeroVelocity cfg s =
     ControlJoints cfg
       (map (\<lambda>j. joint_default\<lparr>jc_id := jf_id j, jc_power := True, jc_zero_velocity := True\<rparr>) (cf_joints cfg)) s"

definition DoControl_Fault :: "config \<Rightarrow> ('g, 'p) quad \<Rightarrow> ('g, 'p) quad" where
  "DoControl_Fault cfg s = DoControl_ZeroVelocity cfg s"

definition Fault :: "config \<Rightarrow> real \<Rightarrow> fault \<Rightarrow> ('g, 'p) quad \<Rightarrow> ('g, 'p) quad" where
  "Fault cfg now message s =
     DoControl_Fault cfg (s\<lparr>q_mode := kFault, q_fault := message, mode_start := now\<rparr>)"

definition DoControl_Stopped :: "config \<Rightarrow> ('g, 'p) quad \<Rightarrow> ('g, 'p) quad" where
  "DoControl_Stopped cfg s = EmitStop cfg (s\<lparr>q_fault := NoFault\<rparr>)"

definition kNumServos :: nat where "kNumServos = 12"

definition DoControl_Configuring :: "config \<Rightarrow> ('g, 'p) quad \<Rightarrow> ('g, 'p) quad" where
  "DoControl_Configuring cfg s =
     (if length (filter (\<lambda>v. rezero_state v = 0) (servos s)) = kNumServos then EmitRezero cfg s else EmitStop cfg s)"

definition DoControl_Joint :: "config \<Rightarrow> ('g, 'p) quad \<Rightarrow> ('g, 'p) quad" where
  "DoControl_Joint cfg s = ControlJoints cfg (cmd_joints (current_command s)) s"

section \<open>Leg commands\<close>

definition GetLeg :: "config \<Rightarrow> int \<Rightarrow> context_leg run" where
  "GetLeg cfg i = (case find (\<lambda>l. cl_leg l = i) (cf_legs cfg) of Some l \<Rightarrow> Go l | None \<Rightarrow> Abort)"

definition GetLegState_B :: "int \<Rightarrow> ('g, 'p) quad \<Rightarrow> leg_state run" where
  "GetLegState_B i s = (case find (\<lambda>l. ls_leg l = i) (legs_B s) of Some l \<Rightarrow> Go l | None \<Rightarrow> Abort)"

definition GetJointState :: "int \<Rightarrow> ('g, 'p) quad \<Rightarrow> state_joint run" where
  "GetJointState i s = (case find (\<lambda>j. sj_id j = i) (joints s) of Some j \<Rightarrow> Go j | None \<Rightarrow> Abort)"

text \<open>The three servos of a leg, all with the same command.\<close>

definition add_joints :: "context_leg \<Rightarrow> joint_cmd \<Rightarrow> joint_cmd list" where
  "add_joints ctx j = [j\<lparr>jc_id := shoulder_id ctx\<rparr>, j\<lparr>jc_id := femur_id ctx\<rparr>, j\<lparr>jc_id := tibia_id ctx\<rparr>]"

definition get_pd_scale :: "context_leg \<Rightarrow> int \<Rightarrow> vec \<Rightarrow> double" where
  "get_pd_scale ctx i v =
     Fin (if i = shoulder_id ctx then vx v else if i = femur_id ctx then vy v else if i = tibia_id ctx then vz v else vx v)"

definition ik_command :: "context_leg \<Rightarrow> leg_cmd \<Rightarrow> ik_joint \<Rightarrow> joint_cmd" where
  "ik_command ctx leg r =
     joint_default\<lparr>jc_id := ij_id r, jc_power := True, jc_angle_deg := ij_angle_deg r, jc_torque_Nm := ij_torque_Nm r,
       jc_velocity_dps := ij_velocity_dps r,
       jc_kp_scale := map_option (get_pd_scale ctx (ij_id r)) (lc_kp_scale leg),
       jc_kd_scale := map_option (get_pd_scale ctx (ij_id r)) (lc_kd_scale leg)\<rparr>"

definition kGravity :: real where "kGravity = 981 / 100"

definition vmul :: "vec \<Rightarrow> vec \<Rightarrow> vec" where
  "vmul a b = \<lparr>vx = vx a * vx b, vy = vy a * vy b, vz = vz a * vz b\<rparr>"

definition Interpolate :: "real \<Rightarrow> real \<Rightarrow> real \<Rightarrow> real" where
  "Interpolate start end scale = (end - start) * scale + start"

text \<open>The Cartesian controller of a leg: the force on the foot is the commanded one, the share of the weight, the
  inertia, and what the errors of position and velocity call for. \<open>g\<close> is the direction of gravity in the body frame.\<close>

definition leg_force :: "config \<Rightarrow> vec \<Rightarrow> real \<Rightarrow> leg_state \<Rightarrow> leg_cmd \<Rightarrow> vec" where
  "leg_force cfg g stance_fraction st leg =
     (let gravity_N = vscale (stance_fraction * kGravity * mass_kg cfg) g;
          accel_N = vscale (Interpolate (leg_mass_kg cfg) (stance_fraction * mass_kg cfg) (stance leg)) (acceleration leg);
          p_N = vscale (-1) (vmul (vsub (ls_position st) (position leg)) (kp_N_m leg));
          d_N = vscale (-1) (vmul (vsub (ls_velocity st) (velocity leg)) (kd_N_m_s leg))
      in vadd (vadd (vadd (vadd (force_N leg) gravity_N) accel_N) p_N) d_N)"

text \<open>The joints of one leg. \<open>count\<close> is the size of \<open>leg_pds\<close>, which the code indexes with the id of the
  leg: an id outside of it is undefined behaviour.\<close>

definition leg_joints ::
  "('g, 'p, 'i) geometry \<Rightarrow> config \<Rightarrow> nat \<Rightarrow> real \<Rightarrow> ('g, 'p) quad \<Rightarrow> leg_cmd \<Rightarrow> joint_cmd list run" where
  "leg_joints geo cfg count total_stance s leg =
     rbind (GetLeg cfg (leg_id leg)) (\<lambda>ctx.
     rbind (GetLegState_B (leg_id leg) s) (\<lambda>st.
       if \<not> (0 \<le> leg_id leg \<and> leg_id leg < int count) then Abort
       else if \<not> lc_power leg then Go (add_joints ctx (joint_default\<lparr>jc_power := False\<rparr>))
       else if lc_zero_velocity leg
       then Go (add_joints ctx (joint_default\<lparr>jc_power := True, jc_zero_velocity := True\<rparr>))
       else
         (case leg_ik geo ctx
                 \<lparr>ef_pose = position leg, ef_velocity = velocity leg,
                  ef_force_N = leg_force cfg (gravity_B geo (frames s)) (stance leg / total_stance) st leg\<rparr> (joints s) of
            None \<Rightarrow> Go (add_joints ctx (joint_default\<lparr>jc_power := True, jc_zero_velocity := True\<rparr>))
          | Some rs \<Rightarrow> Go (map (ik_command ctx leg) rs))))"

fun all_leg_joints ::
  "('g, 'p, 'i) geometry \<Rightarrow> config \<Rightarrow> nat \<Rightarrow> real \<Rightarrow> ('g, 'p) quad \<Rightarrow> leg_cmd list \<Rightarrow> joint_cmd list run" where
  "all_leg_joints geo cfg count total_stance s [] = Go []"
| "all_leg_joints geo cfg count total_stance s (leg # legs) =
     rbind (leg_joints geo cfg count total_stance s leg) (\<lambda>js.
     rbind (all_leg_joints geo cfg count total_stance s legs) (\<lambda>rest. Go (js @ rest)))"

definition bound_z :: "config \<Rightarrow> leg_cmd \<Rightarrow> leg_cmd" where
  "bound_z cfg leg =
     leg\<lparr>position := (position leg)\<lparr>vz := max (min_z_B cfg) (min (max_z_B cfg) (vz (position leg)))\<rparr>\<rparr>"

definition ControlLegs_B ::
  "('g, 'p, 'i) geometry \<Rightarrow> config \<Rightarrow> leg_cmd list \<Rightarrow> ('g, 'p) quad \<Rightarrow> ('g, 'p) quad run" where
  "ControlLegs_B geo cfg legs s =
     (let legs = map (bound_z cfg) (sort_key leg_id legs);
          s = s\<lparr>log_legs_B := legs\<rparr>;
          total_stance = max 1 (sum_list (map stance legs))
      in rbind (all_leg_joints geo cfg (length legs) total_stance s legs) (\<lambda>js. Go (ControlJoints cfg js s)))"

definition ControlLegs_R ::
  "('g, 'p, 'i) geometry \<Rightarrow> config \<Rightarrow> leg_cmd list \<Rightarrow> 'p \<Rightarrow> ('g, 'p) quad \<Rightarrow> ('g, 'p) quad run" where
  "ControlLegs_R geo cfg legs desired_RB s =
     (let legs = sort_key leg_id legs;
          s = s\<lparr>log_legs_R := legs, frames := filter_RB geo desired_RB (frames s)\<rparr>
      in ControlLegs_B geo cfg (map (leg_to_B geo (frames s)) legs) s)"

definition DoControl_Leg ::
  "('g, 'p, 'i) geometry \<Rightarrow> config \<Rightarrow> ('g, 'p) quad \<Rightarrow> ('g, 'p) quad run" where
  "DoControl_Leg geo cfg s = ControlLegs_B geo cfg (cmd_legs_B (current_command s)) s"

section \<open>Commands of the operator\<close>

definition command_stale :: "config \<Rightarrow> real \<Rightarrow> ('g, 'p) quad \<Rightarrow> bool" where
  "command_stale cfg now s \<longleftrightarrow>
     (case command_timestamp s of None \<Rightarrow> False | Some t \<Rightarrow> now - t > command_timeout_s cfg)"

definition Command :: "config \<Rightarrow> real \<Rightarrow> 'p command \<Rightarrow> ('g, 'p) quad \<Rightarrow> ('g, 'p) quad" where
  "Command cfg now c s =
     (let higher_priority = (priority c \<ge> priority (current_command s))
      in if \<not> higher_priority \<and> \<not> command_stale cfg now s then s
         else
           s\<lparr>current_command := c, command_timestamp := Some now,
             log_open := (if cmd_log c = kEnable then True else if cmd_log c = kDisable then False else log_open s)\<rparr>)"

section \<open>Status of the servos\<close>

text \<open>Entry of a list with a given id; one is added when there is none.\<close>

definition find_or_make :: "('a \<Rightarrow> int) \<Rightarrow> (int \<Rightarrow> 'a) \<Rightarrow> int \<Rightarrow> 'a list \<Rightarrow> nat \<times> 'a list" where
  "find_or_make key fresh i xs =
     (case first_index (\<lambda>x. key x = i) xs of Some k \<Rightarrow> (k, xs) | None \<Rightarrow> (length xs, xs @ [fresh i]))"

text \<open>\<open>memcpy\<close> of a 32-bit number into the serial number.\<close>

definition put_serial :: "nat \<Rightarrow> int \<Rightarrow> u8 list \<Rightarrow> u8 list" where
  "put_serial ofs v bytes =
     (let w = (word_of_int v :: u32)
      in bytes[ofs := ucast w, ofs + 1 := ucast (drop_bit 8 w), ofs + 2 := ucast (drop_bit 16 w),
               ofs + 3 := ucast (drop_bit 24 w)])"

definition servo_update :: "Register \<Rightarrow> mvalue \<Rightarrow> servo \<Rightarrow> servo run" where
  "servo_update reg v sv =
     (if reg \<in> {kRezeroState, kRegisterMapVersion, kSerialNumber1, kSerialNumber2, kSerialNumber3}
      then
        (case ReadInt v of
           None \<Rightarrow> Abort
         | Some i \<Rightarrow>
             Go (case reg of
                   kRezeroState \<Rightarrow> sv\<lparr>rezero_state := i\<rparr>
                 | kRegisterMapVersion \<Rightarrow> sv\<lparr>register_map_version := i\<rparr>
                 | kSerialNumber1 \<Rightarrow> sv\<lparr>serial_number := put_serial 0 i (serial_number sv)\<rparr>
                 | kSerialNumber2 \<Rightarrow> sv\<lparr>serial_number := put_serial 4 i (serial_number sv)\<rparr>
                 | _ \<Rightarrow> sv\<lparr>serial_number := put_serial 8 i (serial_number sv)\<rparr>))
      else Go sv)"

fun update_servos :: "reply list \<Rightarrow> servo list \<Rightarrow> servo list run" where
  "update_servos [] svs = Go svs"
| "update_servos (r # rs) svs =
     (let (k, svs) = find_or_make sv_id (\<lambda>i. servo_default\<lparr>sv_id := i\<rparr>) (rp_id r) svs
      in case rp_value r of
           None \<Rightarrow> update_servos rs svs
         | Some v \<Rightarrow> rbind (servo_update (rp_reg r) v (svs ! k)) (\<lambda>sv. update_servos rs (svs[k := sv])))"

definition UpdateConfiguringStatus :: "reply list \<Rightarrow> ('g, 'p) quad \<Rightarrow> ('g, 'p) quad run" where
  "UpdateConfiguringStatus replies s = rbind (update_servos replies (servos s)) (\<lambda>svs. Go (s\<lparr>servos := svs\<rparr>))"

definition joint_update :: "real \<Rightarrow> Register \<Rightarrow> mvalue \<Rightarrow> state_joint \<Rightarrow> state_joint run" where
  "joint_update sg reg v j =
     (case reg of
        kMode \<Rightarrow> (case ReadInt v of None \<Rightarrow> Abort | Some i \<Rightarrow> Go (j\<lparr>sj_mode := i\<rparr>))
      | kPosition \<Rightarrow> Go (j\<lparr>sj_angle_deg := dscale sg (ReadPosition v)\<rparr>)
      | kVelocity \<Rightarrow> Go (j\<lparr>sj_velocity_dps := dscale sg (ReadVelocity v)\<rparr>)
      | kTorque \<Rightarrow> Go (j\<lparr>sj_torque_Nm := dscale sg (ReadTorque v)\<rparr>)
      | kVoltage \<Rightarrow> Go (j\<lparr>sj_voltage := ReadVoltage v\<rparr>)
      | kTemperature \<Rightarrow> Go (j\<lparr>sj_temperature_C := ReadTemperature v\<rparr>)
      | kFaultReg \<Rightarrow> (case ReadInt v of None \<Rightarrow> Abort | Some i \<Rightarrow> Go (j\<lparr>sj_fault := i\<rparr>))
      | kPositionKp \<Rightarrow> Go (j\<lparr>sj_kp_Nm := dscale sg (ReadTorque v)\<rparr>)
      | kPositionKi \<Rightarrow> Go (j\<lparr>sj_ki_Nm := dscale sg (ReadTorque v)\<rparr>)
      | kPositionKd \<Rightarrow> Go (j\<lparr>sj_kd_Nm := dscale sg (ReadTorque v)\<rparr>)
      | kPositionFeedforward \<Rightarrow> Go (j\<lparr>sj_feedforward_Nm := dscale sg (ReadTorque v)\<rparr>)
      | kPositionCommand \<Rightarrow> Go (j\<lparr>sj_command_Nm := dscale sg (ReadTorque v)\<rparr>)
      | _ \<Rightarrow> Go j)"

text \<open>The replies in turn; \<open>False\<close> when one is from an unknown servo, which ends the update.\<close>

fun update_joints :: "config \<Rightarrow> reply list \<Rightarrow> state_joint list \<Rightarrow> (bool \<times> state_joint list) run" where
  "update_joints cfg [] js = Go (True, js)"
| "update_joints cfg (r # rs) js =
     (case MaybeGetSign cfg (rp_id r) of
        None \<Rightarrow> Go (False, js)
      | Some sg \<Rightarrow>
          (let (k, js) = find_or_make sj_id (\<lambda>i. state_joint_default\<lparr>sj_id := i\<rparr>) (rp_id r) js
           in case rp_value r of
                None \<Rightarrow> update_joints cfg rs js
              | Some v \<Rightarrow> rbind (joint_update sg (rp_reg r) v (js ! k)) (\<lambda>j. update_joints cfg rs (js[k := j]))))"

definition check_faults :: "config \<Rightarrow> real \<Rightarrow> ('g, 'p) quad \<Rightarrow> ('g, 'p) quad" where
  "check_faults cfg now s =
     (let fs = map (\<lambda>j. (sj_id j, sj_fault j)) (filter (\<lambda>j. sj_fault j \<noteq> 0) (joints s))
      in if q_mode s \<noteq> kFault \<and> fs \<noteq> [] then Fault cfg now (ServoFaults fs) s else s)"

fun min_list_double :: "double \<Rightarrow> double list \<Rightarrow> double" where
  "min_list_double m [] = m"
| "min_list_double m (x # xs) = min_list_double (if dless x m then x else m) xs"

definition check_voltage :: "config \<Rightarrow> real \<Rightarrow> ('g, 'p) quad \<Rightarrow> ('g, 'p) quad" where
  "check_voltage cfg now s =
     (let vs = map sj_voltage (joints s);
          m = min_list_double (hd vs) (tl vs);
          alpha = (1 / 2) powr (period_s cfg / voltage_filter_s cfg);
          v = (if robot_voltage s = Fin 0 then m else dadd (dscale alpha (robot_voltage s)) (dscale (1 - alpha) m));
          s = s\<lparr>robot_voltage := v\<rparr>
      in if dless v (Fin (cf_min_voltage cfg)) then Fault cfg now (BatteryLow v (cf_min_voltage cfg)) s else s)"

text \<open>What follows once the replies are filled in; the result is whether there was enough to go on.\<close>

definition check_status ::
  "('g, 'p, 'i) geometry \<Rightarrow> config \<Rightarrow> real \<Rightarrow> 'i \<Rightarrow> ('g, 'p) quad \<Rightarrow> bool \<times> ('g, 'p) quad" where
  "check_status geo cfg now imu s =
     (let s = check_faults cfg now s
      in if length (joints s) \<noteq> kNumServos then (False, s)
         else
           (let (legs, g) = sense geo imu (joints s) (old_legs_B s) (old_legs_R s) (frames s)
            in (True, check_voltage cfg now (s\<lparr>legs_B := legs, frames := g\<rparr>))))"

definition UpdateStatus ::
  "('g, 'p, 'i) geometry \<Rightarrow> config \<Rightarrow> real \<Rightarrow> 'i \<Rightarrow> reply list \<Rightarrow> ('g, 'p) quad \<Rightarrow> (bool \<times> ('g, 'p) quad) run" where
  "UpdateStatus geo cfg now imu replies s =
     rbind (if q_mode s = kConfiguring then UpdateConfiguringStatus replies s else Go s) (\<lambda>s.
     rbind (update_joints cfg replies (joints s)) (\<lambda>(ok, js).
       Go (if ok then check_status geo cfg now imu (s\<lparr>joints := sort_key sj_id js\<rparr>) else (False, s\<lparr>joints := js\<rparr>))))"

section \<open>Leaving the configuration mode\<close>

definition turn_on_error :: "joint_config \<Rightarrow> double \<Rightarrow> double" where
  "turn_on_error cf angle =
     (case dsub (dscale (sign cf) angle) (rezero_pos_deg cf) of Fin d \<Rightarrow> Fin \<bar>WrapNeg180To180 d\<bar> | _ \<Rightarrow> NaN)"

fun check_turn_on :: "config \<Rightarrow> state_joint list \<Rightarrow> fault" where
  "check_turn_on cfg [] = NoFault"
| "check_turn_on cfg (j # js) =
     (case find (\<lambda>c. jf_id c = sj_id j) (cf_joints cfg) of
        None \<Rightarrow> UnknownJoint
      | Some cf \<Rightarrow>
          if dless (Fin (rezero_threshold_deg cfg)) (turn_on_error cf (sj_angle_deg j))
          then NotInTurnOnPosition (sj_id j) (sj_angle_deg j) else check_turn_on cfg js)"

fun check_servos :: "servo list \<Rightarrow> fault" where
  "check_servos [] = NoFault"
| "check_servos (v # vs) =
     (if rezero_state v = 0 then NotRezeroed (sv_id v)
      else if register_map_version v \<noteq> kCurrentRegisterMapVersion
      then BadRegisterVersion (sv_id v) (register_map_version v) else check_servos vs)"

definition configuring_fault :: "config \<Rightarrow> ('g, 'p) quad \<Rightarrow> fault" where
  "configuring_fault cfg s =
     (if length (servos s) \<noteq> kNumServos then MissingServos
      else if check_servos (servos s) \<noteq> NoFault then check_servos (servos s)
      else if performed_rezero s then check_turn_on cfg (joints s) else NoFault)"

definition IsConfiguringDone :: "config \<Rightarrow> ('g, 'p) quad \<Rightarrow> bool \<times> ('g, 'p) quad" where
  "IsConfiguringDone cfg s =
     (let f = configuring_fault cfg s in (f = NoFault, s\<lparr>q_fault := f\<rparr>))"

end
