(* ===== verification/Trot.thy ===== *)
theory Trot
  imports QuadrupedControl
begin

text \<open>
  The walking gait, \<^verbatim>\<open>mech/quadruped_trot.cc\<close>: the timing of the trot for a speed, and one cycle of the walk.
  The four legs move in two diagonal pairs, the \<open>vlegs\<close>. The functions change the state of the controller as the
  methods of \<open>WalkContext\<close> do, in its order. An index out of the range of an array is an \<open>Abort\<close>.

  Times of the gait are divisors in places; with them positive, as the configured times make them
  (\<open>trot_timing\<close> in \<open>TrotProps\<close>), no division is by zero.
\<close>

section \<open>Timing\<close>

definition CalculateTrot :: "config \<Rightarrow> bool \<Rightarrow> real \<Rightarrow> real \<Rightarrow> trot run" where
  "CalculateTrot cfg maximize max_travel_dist spd =
     (let cw = cf_walk cfg;
          top = max_travel_dist / (min_swing_time_s cw - 2 * max_flight_time_s cw);
          r = trot_default\<lparr>trot_max_speed := top\<rparr>
      in if spd < 0 \<or> max_travel_dist < 0 then Abort
         else if \<not> maximize \<and> spd < 1 / 2 * max_travel_dist / (max_twovleg_time_s cw + 1 / 2 * max_swing_time_s cw)
         then Go (r\<lparr>swing_time := max_swing_time_s cw, onevleg_time := max_swing_time_s cw,
                   twovleg_time := max_twovleg_time_s cw, trot_speed := spd\<rparr>)
         else if \<not> maximize \<and> spd < max_travel_dist / max_swing_time_s cw
         then Go (r\<lparr>swing_time := max_swing_time_s cw, onevleg_time := max_swing_time_s cw,
                   twovleg_time := 1 / 2 * max_travel_dist / spd - 1 / 2 * max_swing_time_s cw, trot_speed := spd\<rparr>)
         else if \<not> maximize \<and> spd < max_travel_dist / (max_swing_time_s cw - 2 * max_flight_time_s cw)
         then
           (let flight = 1 / 2 * max_swing_time_s cw - max_travel_dist / (2 * spd)
            in Go (r\<lparr>swing_time := max_swing_time_s cw, twovleg_time := 0, flight_time := flight,
                     onevleg_time := max_swing_time_s cw - 2 * flight, trot_speed := spd\<rparr>))
         else if spd < top
         then
           (let flight = max_flight_time_s cw;
                swing = (if spd = 0 then max_swing_time_s cw
                         else min (max_swing_time_s cw) (max_travel_dist / spd + 2 * flight))
            in Go (r\<lparr>flight_time := flight, twovleg_time := 0, swing_time := swing, onevleg_time := swing - 2 * flight,
                     trot_speed := spd\<rparr>))
         else
           Go (r\<lparr>swing_time := min_swing_time_s cw, flight_time := max_flight_time_s cw, twovleg_time := 0,
                 onevleg_time := min_swing_time_s cw - 2 * max_flight_time_s cw, trot_speed := top\<rparr>))"

section \<open>The state of the walk\<close>

definition set_walk :: "(walk \<Rightarrow> walk) \<Rightarrow> ('g, 'p) quad \<Rightarrow> ('g, 'p) quad" where
  "set_walk f s = s\<lparr>q_walk := f (q_walk s)\<rparr>"

definition set_vleg :: "nat \<Rightarrow> (vleg \<Rightarrow> vleg) \<Rightarrow> ('g, 'p) quad \<Rightarrow> ('g, 'p) quad" where
  "set_vleg k f s = set_walk (\<lambda>w. w\<lparr>vlegs := (vlegs w)[k := f (vlegs w ! k)]\<rparr>) s"

definition set_wleg :: "nat \<Rightarrow> (walk_leg \<Rightarrow> walk_leg) \<Rightarrow> ('g, 'p) quad \<Rightarrow> ('g, 'p) quad" where
  "set_wleg i f s = set_walk (\<lambda>w. w\<lparr>wk_legs := (wk_legs w)[i := f (wk_legs w ! i)]\<rparr>) s"

definition get_vleg :: "nat \<Rightarrow> ('g, 'p) quad \<Rightarrow> vleg" where
  "get_vleg k s = vlegs (q_walk s) ! k"

definition get_wleg :: "nat \<Rightarrow> ('g, 'p) quad \<Rightarrow> walk_leg" where
  "get_wleg i s = wk_legs (q_walk s) ! i"

definition get_trot :: "('g, 'p) quad \<Rightarrow> trot" where
  "get_trot s = wk_trot (q_walk s)"

definition kVlegMapping :: "nat \<Rightarrow> nat list" where
  "kVlegMapping k = (if k = 0 then [0, 3] else [1, 2])"

definition count_stance :: "('g, 'p) quad \<Rightarrow> nat" where
  "count_stance s = length (filter (\<lambda>v. vl_mode v = kStance) (vlegs (q_walk s)))"

definition all_stance :: "('g, 'p) quad \<Rightarrow> bool" where
  "all_stance s \<longleftrightarrow> count_stance s = 2"

definition vcross :: "vec \<Rightarrow> vec \<Rightarrow> vec" where
  "vcross a b = \<lparr>vx = vy a * vz b - vz a * vy b, vy = vz a * vx b - vx a * vz b, vz = vx a * vy b - vy a * vx b\<rparr>"

definition head2 :: "vec \<Rightarrow> real \<times> real" where
  "head2 v = (vx v, vy v)"

definition vsame :: "real \<Rightarrow> vec" where
  "vsame k = \<lparr>vx = k, vy = k, vz = k\<rparr>"

section \<open>Updates\<close>

definition UpdateCommandedR :: "config \<Rightarrow> real \<Rightarrow> ('g, 'p) quad \<Rightarrow> ('g, 'p) quad" where
  "UpdateCommandedR cfg max_rate s =
     (let (v, w) = FilterCommand (desired_v s, desired_w s) (v_R (current_command s), w_R (current_command s))
                     (max_rate * lr_acceleration cfg) (max_rate * lr_alpha_rad_s2 cfg) (period_s cfg)
      in s\<lparr>desired_v := v, desired_w := w\<rparr>)"

definition limit_desired :: "('g, 'p) quad \<Rightarrow> ('g, 'p) quad" where
  "limit_desired s =
     (let top = max 1 (trot_max_speed (get_trot s))
      in if vnorm (desired_v s) > top then s\<lparr>desired_v := vscale top (normalized (desired_v s))\<rparr> else s)"

definition UpdateGlobal :: "config \<Rightarrow> ('g, 'p) quad \<Rightarrow> ('g, 'p) quad" where
  "UpdateGlobal cfg s =
     (let n = count_stance s;
          s = (if n \<ge> 1
               then limit_desired (UpdateCommandedR cfg (if n = 2 then 1 else onevleg_accel (cf_walk cfg)) s)
               else s)
      in set_walk (\<lambda>w. w\<lparr>stance_elapsed_s := (if all_stance s then stance_elapsed_s w + period_s cfg else 0)\<rparr>) s)"

definition vleg_remaining :: "nat \<Rightarrow> leg_cmd list \<Rightarrow> ('g, 'p) quad \<Rightarrow> ('g, 'p) quad" where
  "vleg_remaining k legs s =
     set_vleg k (\<lambda>v. v\<lparr>remaining_s := TrajectoryLineIntersectTime (head2 (desired_v s)) (vz (desired_w s))
       (head2 (position (legs ! (kVlegMapping k ! 0)))) (head2 (position (legs ! (kVlegMapping k ! 1))))\<rparr>) s"

definition UpdateSwingTime :: "leg_cmd list \<Rightarrow> ('g, 'p) quad \<Rightarrow> ('g, 'p) quad run" where
  "UpdateSwingTime legs s =
     (if length legs < 4 then Abort else Go (vleg_remaining 1 legs (vleg_remaining 0 legs s)))"

text \<open>How long the foot stays in the region of its leg, for a point and a velocity in the frame of the leg.\<close>

definition leave_time ::
  "('g, 'p, 'i) geometry \<Rightarrow> nat \<Rightarrow> vec \<Rightarrow> vec \<Rightarrow> real \<Rightarrow> double run" where
  "leave_time geo i p v omega =
     (case TimeToLeave_G (in_region geo i (head2 p)) (region geo i) (head2 p) (head2 v) omega of Some t \<Rightarrow> Go t | None \<Rightarrow> Abort)"

fun leg_invalid_times ::
  "('g, 'p, 'i) geometry \<Rightarrow> config \<Rightarrow> leg_cmd list \<Rightarrow> ('g, 'p) quad \<Rightarrow> ('g, 'p) quad run" where
  "leg_invalid_times geo cfg [] s = Go s"
| "leg_invalid_times geo cfg (leg # legs) s =
     rbind (GetLeg cfg (leg_id leg)) (\<lambda>ctx.
       if \<not> rb_still geo (frames s) \<or> \<not> (0 \<le> leg_id leg \<and> leg_id leg < 4) then Abort
       else
         (let i = nat (leg_id leg)
          in rbind (leave_time geo i (R_to_G geo (frames s) ctx (position leg)) (R_to_G_rot geo (frames s) ctx (velocity leg)) 0)
               (\<lambda>t. leg_invalid_times geo cfg legs (set_wleg i (\<lambda>l. l\<lparr>wl_invalid_time_s := t\<rparr>) s))))"

definition vleg_invalid :: "nat \<Rightarrow> ('g, 'p) quad \<Rightarrow> ('g, 'p) quad" where
  "vleg_invalid k s =
     set_vleg k (\<lambda>v. v\<lparr>invalid_time_s := dmin (wl_invalid_time_s (get_wleg (kVlegMapping k ! 0) s))
       (wl_invalid_time_s (get_wleg (kVlegMapping k ! 1) s))\<rparr>) s"

definition UpdateInvalidTime ::
  "('g, 'p, 'i) geometry \<Rightarrow> config \<Rightarrow> leg_cmd list \<Rightarrow> ('g, 'p) quad \<Rightarrow> ('g, 'p) quad run" where
  "UpdateInvalidTime geo cfg legs s =
     rbind (leg_invalid_times geo cfg legs s) (\<lambda>s. Go (vleg_invalid 1 (vleg_invalid 0 s)))"

text \<open>The distance one leg can travel through its idle position, in the worse of two directions.\<close>

definition find_time ::
  "('g, 'p, 'i) geometry \<Rightarrow> context_leg \<Rightarrow> nat \<Rightarrow> ('g, 'p) quad \<Rightarrow> real \<Rightarrow> double run" where
  "find_time geo ctx i s sg =
     (let p_R = idle_R ctx;
          maybe_v = vadd (vscale sg (desired_v s)) (vcross p_R (desired_w s));
          v = (if vnorm maybe_v = 0 then \<lparr>vx = 1 / 10, vy = 0, vz = 0\<rparr> else maybe_v)
      in rbind (leave_time geo i (R_to_G geo (frames s) ctx p_R) v (- vz (desired_w s))) (\<lambda>t.
           Go (dscale 2 (dabs (dscale (vnorm v) t)))))"

fun leg_travel_distances ::
  "('g, 'p, 'i) geometry \<Rightarrow> config \<Rightarrow> nat list \<Rightarrow> ('g, 'p) quad \<Rightarrow> ('g, 'p) quad run" where
  "leg_travel_distances geo cfg [] s = Go s"
| "leg_travel_distances geo cfg (i # ids) s =
     rbind (GetLeg cfg (int i)) (\<lambda>ctx.
     rbind (find_time geo ctx i s (-1)) (\<lambda>a.
     rbind (find_time geo ctx i s 1) (\<lambda>b.
       leg_travel_distances geo cfg ids (set_wleg i (\<lambda>l. l\<lparr>wl_travel_distance := dmin a b\<rparr>) s))))"

definition UpdateTravelDistance ::
  "('g, 'p, 'i) geometry \<Rightarrow> config \<Rightarrow> ('g, 'p) quad \<Rightarrow> ('g, 'p) quad run" where
  "UpdateTravelDistance geo cfg s =
     rbind (leg_travel_distances geo cfg [0, 1, 2, 3] s) (\<lambda>s.
       Go (case min_list_double PosInf (map wl_travel_distance (wk_legs (q_walk s))) of
             Fin d \<Rightarrow> set_walk (\<lambda>w. w\<lparr>travel_distance := d\<rparr>) s
           | _ \<Rightarrow> s))"

definition walk_command :: "('g, 'p) quad \<Rightarrow> walk_cmd" where
  "walk_command s = (case cmd_walk (current_command s) of Some c \<Rightarrow> c | None \<Rightarrow> walk_cmd_default)"

definition UpdateTrot :: "config \<Rightarrow> ('g, 'p) quad \<Rightarrow> ('g, 'p) quad run" where
  "UpdateTrot cfg s =
     rbind (CalculateTrot cfg (maximize_flight (walk_command s))
              (travel_ratio (cf_walk cfg) * travel_distance (q_walk s)) (vnorm (desired_v s)))
       (\<lambda>t. Go (set_walk (\<lambda>w. w\<lparr>wk_trot := t\<rparr>) s))"

section \<open>Lifting a pair of legs\<close>

text \<open>The pairs in stance: the one with the most time until it has to be lifted for balance, and the one that first
  leaves its region, with the sum of the times. No pair is \<open>None\<close>.\<close>

record lift_info =
  biggest_remaining_s :: double
  smallest_invalid_s :: double
  smallest_vleg_idx :: "nat option"
  total_invalid_s :: double

fun scan_vlegs :: "nat list \<Rightarrow> ('g, 'p) quad \<Rightarrow> lift_info \<Rightarrow> lift_info" where
  "scan_vlegs [] s a = a"
| "scan_vlegs (k # ks) s a =
     (let v = get_vleg k s
      in if vl_mode v = kSwing then scan_vlegs ks s a
         else
           (let a = (if dless (biggest_remaining_s a) (remaining_s v) then a\<lparr>biggest_remaining_s := remaining_s v\<rparr> else a);
                a = (if dless (invalid_time_s v) (smallest_invalid_s a)
                     then a\<lparr>smallest_invalid_s := invalid_time_s v, smallest_vleg_idx := Some k\<rparr> else a)
            in scan_vlegs ks s (a\<lparr>total_invalid_s := dadd (total_invalid_s a) (invalid_time_s v)\<rparr>)))"

definition lift_scan :: "('g, 'p) quad \<Rightarrow> lift_info" where
  "lift_scan s = scan_vlegs [0, 1] s
     \<lparr>biggest_remaining_s = NegInf, smallest_invalid_s = PosInf, smallest_vleg_idx = None, total_invalid_s = Fin 0\<rparr>"

text \<open>What to lift: nothing, the next pair (-1 in the code), or a given pair.\<close>

datatype lift = NoLift | LiftNext | LiftIdx nat

definition invalid_lift :: "config \<Rightarrow> ('g, 'p) quad \<Rightarrow> lift" where
  "invalid_lift cfg s =
     (let a = lift_scan s; t = get_trot s; m = min_invalid_time_s (cf_walk cfg);
          other_invalid_s = dadd (total_invalid_s a) (dneg (smallest_invalid_s a))
      in if twovleg_time t \<ge> m \<and> isfinite (smallest_invalid_s a) \<and> isfinite (total_invalid_s a) \<and>
            (dless (smallest_invalid_s a) (Fin m) \<or> dless other_invalid_s (Fin (swing_time t + m)))
         then
           (if dless (dabs (dadd (invalid_time_s (get_vleg 0 s)) (dneg (invalid_time_s (get_vleg 1 s))))) (Fin (3 / 4 * swing_time t))
            then LiftNext
            else (case smallest_vleg_idx a of Some k \<Rightarrow> LiftIdx k | None \<Rightarrow> LiftNext))
         else NoLift)"

fun flight_lift :: "nat list \<Rightarrow> ('g, 'p) quad \<Rightarrow> lift" where
  "flight_lift [] s = NoLift"
| "flight_lift (k # ks) s =
     (let v = get_vleg k s; t = get_trot s;
          alternate_vleg_swing_remaining = swing_time t - phase_s (get_vleg ((k + 1) mod 2) s);
          correction = - (1 / 2) * (alternate_vleg_swing_remaining - flight_time t)
      in if vl_mode v = kStance \<and> vl_stance_elapsed_s v + correction \<ge> onevleg_time t then LiftIdx k
         else flight_lift ks s)"

definition vleg_to_lift :: "config \<Rightarrow> ('g, 'p) quad \<Rightarrow> lift" where
  "vleg_to_lift cfg s =
     (let t = get_trot s; big = biggest_remaining_s (lift_scan s)
      in if invalid_lift cfg s \<noteq> NoLift then invalid_lift cfg s
         else if stance_elapsed_s (q_walk s) > max_stance_s (cf_walk cfg) then LiftNext
         else if flight_time t \<le> 0
         then
           (if \<not> isfinite big then (if stance_elapsed_s (q_walk s) \<ge> twovleg_time t then LiftNext else NoLift)
            else if dless big (Fin (1 / 2 * swing_time t)) then LiftNext else NoLift)
         else flight_lift [0, 1] s)"

text \<open>One leg of the pair that is lifted: its target and its swing.\<close>

definition lift_leg ::
  "config \<Rightarrow> vec \<times> vec \<Rightarrow> real \<Rightarrow> nat \<Rightarrow> leg_cmd list \<times> ('g, 'p) quad \<Rightarrow> (leg_cmd list \<times> ('g, 'p) quad) run" where
  "lift_leg cfg predicted target_s i ls =
     (let (legs, s) = ls
      in rbind (update_leg (int i) (\<lambda>l. l\<lparr>force_N := vzero\<rparr>) legs) (\<lambda>(leg, legs).
         rbind (GetLeg cfg (int i)) (\<lambda>ctx.
           let target = fst (PropagateLeg (fst predicted) (snd predicted) (- target_s) (idle_R ctx));
               s = set_wleg i (\<lambda>l. l\<lparr>target_R := target, latched := False\<rparr>) s
           in Go (legs, s\<lparr>swings := (swings s)[i := SwingTrajectory (position leg) (velocity leg) target
                (lift_height (cf_walk cfg) * step_height (walk_command s)) (world_blend_ratio (cf_walk cfg))
                (swing_time (get_trot s))]\<rparr>))))"

definition LiftVleg :: "config \<Rightarrow> leg_cmd list \<Rightarrow> nat \<Rightarrow> ('g, 'p) quad \<Rightarrow> (leg_cmd list \<times> ('g, 'p) quad) run" where
  "LiftVleg cfg legs k s =
     (let s = set_vleg k (\<lambda>v. v\<lparr>swing_elapsed_s := 0, vl_mode := kSwing\<rparr>) (set_walk (\<lambda>w. w\<lparr>last_swing_v_R := desired_v s\<rparr>) s);
          t = get_trot s;
          target_s = (if flight_time t \<le> 0 then 1 / 2 * swing_time t + twovleg_time t else 1 / 2 * onevleg_time t) +
            extra_target_time_s (cf_walk cfg);
          predicted = FilterCommand (desired_v s, desired_w s) (v_R (current_command s), w_R (current_command s))
            (lr_acceleration cfg) (lr_alpha_rad_s2 cfg) (6 / 10 * swing_time t);
          s = set_vleg k (\<lambda>v. v\<lparr>predicted_next_v := fst predicted, target_time_s := target_s\<rparr>) s
      in rbind (lift_leg cfg predicted target_s (kVlegMapping k ! 0) (legs, s)) (\<lambda>ls.
         rbind (lift_leg cfg predicted target_s (kVlegMapping k ! 1) ls) (\<lambda>(legs, s).
           Go (legs, set_vleg ((k + 1) mod 2) (\<lambda>v. v\<lparr>vl_stance_elapsed_s := 0\<rparr>) s))))"

definition MaybeLift :: "config \<Rightarrow> leg_cmd list \<Rightarrow> ('g, 'p) quad \<Rightarrow> (leg_cmd list \<times> ('g, 'p) quad) run" where
  "MaybeLift cfg legs s =
     (if count_stance s = 0 then Go (legs, s)
      else if count_stance s \<le> 1 \<and> flight_time (get_trot s) \<le> 0 then Go (legs, s)
      else if vleg_to_lift cfg s = NoLift then Go (legs, s)
      else
        (let k = (case vleg_to_lift cfg s of LiftIdx k \<Rightarrow> k | _ \<Rightarrow> next_step_vleg (q_walk s))
         in rbind (LiftVleg cfg legs k s) (\<lambda>(legs, s). Go (legs, set_walk (\<lambda>w. w\<lparr>next_step_vleg := (k + 1) mod 2\<rparr>) s))))"

section \<open>Moving the legs\<close>

definition jump_acceleration_of :: "config \<Rightarrow> ('g, 'p) quad \<Rightarrow> real" where
  "jump_acceleration_of cfg s =
     (let t = get_trot s in kGravity * (1 / 2) * flight_time t * jump_velocity_scale (cf_walk cfg) / onevleg_time t)"

text \<open>A leg that touches the ground is latched where it is, and returns to its height over a part of the stance.\<close>

definition latch_leg ::
  "config \<Rightarrow> nat \<Rightarrow> leg_state \<Rightarrow> leg_cmd \<times> ('g, 'p) quad \<Rightarrow> leg_cmd \<times> ('g, 'p) quad" where
  "latch_leg cfg i status_R ls =
     (let (leg, s) = ls; wc = cf_walk cfg; t = get_trot s;
          contact_detection_N = contact_detect_load wc * mass_kg cfg * kGravity / (real (count_stance s) * 2)
      in if \<not> latched (get_wleg i s) \<and> vz (ls_force_N status_R) > contact_detection_N
         then
           (let leg = leg\<lparr>position := ls_position status_R\<rparr>;
                downtime = onevleg_time t + twovleg_time t;
                jump_movement = 1 / 2 * jump_acceleration_of cfg s * (onevleg_time t)\<^sup>2;
                delta = (stand_height cfg - jump_offset_scale wc * jump_movement) - vz (position leg);
                restore_time = stance_restore_fraction wc * downtime
            in (leg, set_wleg i (\<lambda>l. l\<lparr>latched := True, restore_velocity := delta / restore_time, restore_remaining := delta\<rparr>) s))
         else (leg, s))"

definition restore_leg :: "config \<Rightarrow> walk_leg \<Rightarrow> walk_leg" where
  "restore_leg cfg l =
     (if restore_remaining l \<noteq> 0
      then
        (let r = restore_remaining l - period_s cfg * restore_velocity l
         in l\<lparr>restore_remaining := r, restore_velocity := (if restore_velocity l * r < 0 then 0 else restore_velocity l)\<rparr>)
      else l)"

definition restore_scale :: "config \<Rightarrow> real \<Rightarrow> vec option \<Rightarrow> vec option" where
  "restore_scale cfg rate sc =
     (case sc of
        None \<Rightarrow> None
      | Some v \<Rightarrow> (let k = vx v + rate * period_s cfg in if k < 1 then Some (vsame k) else None))"

definition PropagateStance ::
  "config \<Rightarrow> nat \<Rightarrow> nat \<Rightarrow> leg_state \<Rightarrow> leg_cmd \<Rightarrow> ('g, 'p) quad \<Rightarrow> (leg_cmd \<times> ('g, 'p) quad) run" where
  "PropagateStance cfg k i status_R leg s =
     (if count_stance s = 0 then Abort
      else
        (let wc = cf_walk cfg; t = get_trot s; ja = jump_acceleration_of cfg s;
             (leg, s) = latch_leg cfg i status_R (leg, s);
             (p, u) = PropagateLeg (desired_v s) (desired_w s) (period_s cfg) (position leg);
             s = set_wleg i (restore_leg cfg) s;
             vleg_latched = list_all (\<lambda>i. latched (get_wleg i s)) (kVlegMapping k);
             (jv, jacc, jf) =
               (if \<not> vleg_latched \<or> onevleg_time t = 0 \<or> flight_time t = 0 \<or> all_stance s then (0, 0, 0)
                else (vl_stance_elapsed_s (get_vleg k s) * ja, ja, ja * kGravity * mass_kg cfg * (1 / 4)));
             vz' = restore_velocity (get_wleg i s) + jv
         in Go (leg\<lparr>stance := min 1 (stance leg + stance_restore wc * period_s cfg),
                    position := p\<lparr>vz := vz p + vz' * period_s cfg\<rparr>, velocity := u\<lparr>vz := vz'\<rparr>,
                    acceleration := \<lparr>vx = 0, vy = 0, vz = jacc\<rparr>, force_N := \<lparr>vx = 0, vy = 0, vz = jf\<rparr>,
                    lc_kp_scale := restore_scale cfg (swing_damp_kp_restore wc) (lc_kp_scale leg),
                    lc_kd_scale := restore_scale cfg (swing_damp_kd_restore wc) (lc_kd_scale leg)\<rparr>, s)))"

definition PropagateSwing :: "config \<Rightarrow> nat \<Rightarrow> leg_cmd \<Rightarrow> ('g, 'p) quad \<Rightarrow> leg_cmd \<times> ('g, 'p) quad" where
  "PropagateSwing cfg i leg s =
     (let wc = cf_walk cfg;
          world = vsub (vscale (-1) (desired_v s)) (vcross (desired_w s) (position leg));
          (r, sw) = Advance (period_s cfg) world (swings s ! i);
          damped = sr_phase r > swing_damp_start_phase wc
      in (leg\<lparr>stance := 0, position := sr_position r, velocity := sr_velocity_s r, acceleration := sr_acceleration_s2 r,
              lc_kp_scale := (if damped then Some (vsame (swing_damp_kp wc)) else None),
              lc_kd_scale := (if damped then Some (vsame (swing_damp_kd wc)) else None)\<rparr>,
          s\<lparr>swings := (swings s)[i := sw]\<rparr>))"

definition propagate_leg ::
  "('g, 'p, 'i) geometry \<Rightarrow> config \<Rightarrow> nat \<Rightarrow> nat \<Rightarrow> leg_cmd list \<times> ('g, 'p) quad \<Rightarrow> (leg_cmd list \<times> ('g, 'p) quad) run" where
  "propagate_leg geo cfg k i ls =
     (let (legs, s) = ls
      in rbind (update_leg (int i) (\<lambda>l. l) legs) (\<lambda>(leg, _).
         rbind (if vl_mode (get_vleg k s) = kStance
                then rbind (GetLegState_B (int i) s) (\<lambda>st. PropagateStance cfg k i (state_to_R geo (frames s) st) leg s)
                else Go (PropagateSwing cfg i leg s)) (\<lambda>(leg, s).
         rbind (update_leg (int i) (\<lambda>_. leg) legs) (\<lambda>(_, legs). Go (legs, s)))))"

definition vleg_clock :: "config \<Rightarrow> nat \<Rightarrow> ('g, 'p) quad \<Rightarrow> ('g, 'p) quad" where
  "vleg_clock cfg k s =
     set_vleg k (\<lambda>v.
       case vl_mode v of
         kSwing \<Rightarrow> v\<lparr>swing_elapsed_s := swing_elapsed_s v + period_s cfg, vl_stance_elapsed_s := 0,
                     phase_s := swing_elapsed_s v + period_s cfg\<rparr>
       | kStance \<Rightarrow> v\<lparr>vl_stance_elapsed_s := vl_stance_elapsed_s v + period_s cfg, swing_elapsed_s := 0,
                      phase_s := swing_time (get_trot s) + (vl_stance_elapsed_s v + period_s cfg)\<rparr>) s"

definition land_leg :: "config \<Rightarrow> nat \<Rightarrow> leg_cmd list \<times> ('g, 'p) quad \<Rightarrow> (leg_cmd list \<times> ('g, 'p) quad) run" where
  "land_leg cfg i ls =
     (let (legs, s) = ls
      in rbind (update_leg (int i) (\<lambda>l. l\<lparr>stance := initial_stance (cf_walk cfg), velocity := (velocity l)\<lparr>vz := 0\<rparr>\<rparr>) legs)
           (\<lambda>(_, legs). Go (legs, set_wleg i (\<lambda>l. l\<lparr>latched := False, restore_velocity := 0\<rparr>) s)))"

definition land_vleg :: "config \<Rightarrow> nat \<Rightarrow> leg_cmd list \<times> ('g, 'p) quad \<Rightarrow> (leg_cmd list \<times> ('g, 'p) quad) run" where
  "land_vleg cfg k ls =
     (let (legs, s) = ls
      in if swing_elapsed_s (get_vleg k s) > swing_time (get_trot s)
         then
           (let s = set_vleg k (\<lambda>v. v\<lparr>vl_mode := kStance, swing_elapsed_s := 0\<rparr>) s;
                still = (vnorm (desired_v s) = 0 \<and> vnorm (desired_w s) = 0);
                s = set_walk (\<lambda>w. w\<lparr>idle_count := (if still then idle_count w + 1 else 0)\<rparr>) s
            in rbind (land_leg cfg (kVlegMapping k ! 0) (legs, s)) (land_leg cfg (kVlegMapping k ! 1)))
         else Go (legs, s))"

definition propagate_vleg ::
  "('g, 'p, 'i) geometry \<Rightarrow> config \<Rightarrow> nat \<Rightarrow> leg_cmd list \<times> ('g, 'p) quad \<Rightarrow> (leg_cmd list \<times> ('g, 'p) quad) run" where
  "propagate_vleg geo cfg k ls =
     (let (legs, s) = ls
      in rbind (propagate_leg geo cfg k (kVlegMapping k ! 0) (legs, vleg_clock cfg k s)) (\<lambda>ls.
         rbind (propagate_leg geo cfg k (kVlegMapping k ! 1) ls) (land_vleg cfg k)))"

definition PropagateLegs ::
  "('g, 'p, 'i) geometry \<Rightarrow> config \<Rightarrow> leg_cmd list \<times> ('g, 'p) quad \<Rightarrow> (leg_cmd list \<times> ('g, 'p) quad) run" where
  "PropagateLegs geo cfg ls = rbind (propagate_vleg geo cfg 0 ls) (propagate_vleg geo cfg 1)"

definition QuadrupedTrot ::
  "('g, 'p, 'i) geometry \<Rightarrow> config \<Rightarrow> leg_cmd list \<Rightarrow> ('g, 'p) quad \<Rightarrow> (leg_cmd list \<times> 'p \<times> ('g, 'p) quad) run" where
  "QuadrupedTrot geo cfg legs s =
     rbind (UpdateSwingTime legs (UpdateGlobal cfg s)) (\<lambda>s.
     rbind (UpdateInvalidTime geo cfg legs s) (\<lambda>s.
     rbind (UpdateTravelDistance geo cfg s) (\<lambda>s.
     rbind (UpdateTrot cfg s) (\<lambda>s.
     rbind (MaybeLift cfg legs s) (\<lambda>ls.
     rbind (PropagateLegs geo cfg ls) (\<lambda>(legs, s).
       Go (map (\<lambda>l. l\<lparr>kp_N_m := default_kp_N_m cfg, kd_N_m_s := default_kd_N_m_s cfg\<rparr>) legs,
           LevelDesiredRB geo (frames s), s)))))))"

end
