(* ===== verification/QuadrupedModes.thy ===== *)
theory QuadrupedModes
  imports Trot
begin

text \<open>
  The control modes of the quadruped, \<^verbatim>\<open>mech/quadruped_control.cc\<close>: standing up, resting, jumping, walking and
  the back flip, the transitions between the modes, and the handlers of the control cycle.

  A step of a mode with phases is an \<open>action\<close>: go around the loop again (\<open>continue\<close>), send the legs
  (\<open>break\<close>, then \<open>ControlLegs_R\<close>) or rest. The loop is \<open>phase_loop\<close>, with fuel.
\<close>

section \<open>Standing up\<close>

definition ClearDesiredMotion :: "('g, 'p) quad \<Rightarrow> ('g, 'p) quad" where
  "ClearDesiredMotion s = s\<lparr>desired_v := vzero, desired_w := vzero\<rparr>"

text \<open>The joints of a leg with the angles to stand up from. The parameter \<open>expected_deg\<close> of the check is an
  \<open>int\<close>: the angle is truncated. Of two joints with one id, the map of the angles has the last.\<close>

definition stand_up_joints :: "context_leg \<Rightarrow> (int \<times> real) list" where
  "stand_up_joints leg = [(shoulder_id leg, shoulder_deg leg), (femur_id leg, femur_deg leg), (tibia_id leg, tibia_deg leg)]"

fun check_positions :: "real \<Rightarrow> state_joint list \<Rightarrow> (int \<times> real) list \<Rightarrow> bool run" where
  "check_positions tol js [] = Go True"
| "check_positions tol js ((i, deg) # targets) =
     (case find (\<lambda>j. sj_id j = i) (rev js) of
        None \<Rightarrow> Abort
      | Some j \<Rightarrow>
          if dless (Fin tol) (dabs (dsub (sj_angle_deg j) (of_int (trunc deg)))) then Go False
          else check_positions tol js targets)"

definition CheckPrepositioning :: "config \<Rightarrow> ('g, 'p) quad \<Rightarrow> bool run" where
  "CheckPrepositioning cfg s =
     check_positions (tolerance_deg (cf_stand_up cfg)) (joints s) (concat (map stand_up_joints (cf_legs cfg)))"

definition prepositioning_joints :: "config \<Rightarrow> int \<Rightarrow> context_leg \<Rightarrow> joint_cmd list" where
  "prepositioning_joints cfg stage leg =
     (let su = cf_stand_up cfg;
          joint = joint_default\<lparr>jc_power := True, jc_angle_deg := NaN, jc_velocity_dps := Fin (velocity_dps su),
                    jc_max_torque_Nm := Some (Fin (max_preposition_torque_Nm su)),
                    jc_kp_scale := Some (Fin (preposition_kp_scale su))\<rparr>;
          add_joint = (\<lambda>i deg. joint\<lparr>jc_id := i, jc_stop_angle_deg := Some (Fin deg)\<rparr>);
          add_stopped_joint = (\<lambda>i. joint\<lparr>jc_id := i, jc_velocity_dps := Fin 0, jc_stop_angle_deg := None\<rparr>)
      in if stage = 0
         then [add_joint (shoulder_id leg) (shoulder_clearance_deg leg), add_stopped_joint (femur_id leg),
               add_stopped_joint (tibia_id leg)]
         else if stage = 1
         then [add_joint (shoulder_id leg) (shoulder_clearance_deg leg), add_joint (femur_id leg) (femur_deg leg),
               add_joint (tibia_id leg) (tibia_deg leg)]
         else if stage = 2
         then [add_joint (shoulder_id leg) (shoulder_deg leg), add_joint (femur_id leg) (femur_deg leg),
               add_joint (tibia_id leg) (tibia_deg leg)]
         else [])"

fun stage_done :: "real \<Rightarrow> ('g, 'p) quad \<Rightarrow> joint_cmd list \<Rightarrow> bool run" where
  "stage_done tol s [] = Go True"
| "stage_done tol s (j # js) =
     rbind (GetJointState (jc_id j) s) (\<lambda>st.
     rbind (stage_done tol s js) (\<lambda>all_done.
       Go (all_done \<and>
           (case jc_stop_angle_deg j of
              None \<Rightarrow> True
            | Some a \<Rightarrow> \<not> dless (Fin tol) (dabs (dadd a (dneg (sj_angle_deg st))))))))"

definition DoControl_StandUp_Prepositioning :: "config \<Rightarrow> ('g, 'p) quad \<Rightarrow> ('g, 'p) quad run" where
  "DoControl_StandUp_Prepositioning cfg s =
     (let stage = prepositioning_stage (q_stand_up s);
          js = concat (map (prepositioning_joints cfg stage) (cf_legs cfg))
      in rbind (stage_done (tolerance_deg (cf_stand_up cfg)) s js) (\<lambda>all_done.
           let s = (if all_done then s\<lparr>q_stand_up := (q_stand_up s)\<lparr>prepositioning_stage := min (stage + 1) 2\<rparr>\<rparr> else s)
           in Go (ControlJoints cfg js s)))"

definition standing_leg :: "config \<Rightarrow> context_leg \<Rightarrow> leg_cmd" where
  "standing_leg cfg leg =
     leg_default\<lparr>kp_N_m := default_kp_N_m cfg, kd_N_m_s := default_kd_N_m_s cfg, leg_id := cl_leg leg, lc_power := True,
       position := stand_up_R leg, velocity := vzero, stance := 1\<rparr>"

definition DoControl_StandUp_Standing ::
  "('g, 'p, 'i) geometry \<Rightarrow> config \<Rightarrow> ('g, 'p) quad \<Rightarrow> ('g, 'p) quad run" where
  "DoControl_StandUp_Standing geo cfg s =
     (let legs = (if old_legs_R s = [] then map (standing_leg cfg) (cf_legs cfg) else old_legs_R s);
          targets = map (\<lambda>leg. (cl_leg leg, (stand_up_R leg)\<lparr>vz := stand_height cfg\<rparr>)) (cf_legs cfg)
      in rbind (MoveLegsFixedSpeed cfg legs (su_velocity (cf_stand_up cfg)) targets (Some (su_acceleration (cf_stand_up cfg)))
                  vones vzero) (\<lambda>(done', legs).
           let s = (if done' then s\<lparr>q_stand_up := (q_stand_up s)\<lparr>su_mode := kStandDone\<rparr>\<rparr> else s)
           in ControlLegs_R geo cfg legs (LevelDesiredRB geo (frames s)) s))"

definition DoControl_StandUp ::
  "('g, 'p, 'i) geometry \<Rightarrow> config \<Rightarrow> real \<Rightarrow> ('g, 'p) quad \<Rightarrow> ('g, 'p) quad run" where
  "DoControl_StandUp geo cfg now s =
     (let s = ClearDesiredMotion (s\<lparr>frames := reset_RB geo (frames s)\<rparr>)
      in if su_mode (q_stand_up s) \<noteq> kStandDone \<and> now - mode_start s > timeout_s (cf_stand_up cfg)
         then Go (Fault cfg now TimedOut s)
         else
           rbind (if su_mode (q_stand_up s) = kPrepositioning
                  then rbind (CheckPrepositioning cfg s) (\<lambda>done'.
                    Go (if done' then s\<lparr>q_stand_up := (q_stand_up s)\<lparr>su_mode := kStanding\<rparr>\<rparr> else s))
                  else Go s) (\<lambda>s.
             if su_mode (q_stand_up s) = kPrepositioning then DoControl_StandUp_Prepositioning cfg s
             else DoControl_StandUp_Standing geo cfg s))"

section \<open>Resting\<close>

definition IsRestAndSteadyState :: "('g, 'p) quad \<Rightarrow> bool" where
  "IsRestAndSteadyState s \<longleftrightarrow>
     q_mode s = kRest \<and> log_legs_R s \<noteq> [] \<and> list_all (\<lambda>leg. velocity leg = vzero) (log_legs_R s)"

definition rest_leg :: "config \<Rightarrow> leg_cmd \<Rightarrow> leg_cmd" where
  "rest_leg cfg leg =
     leg\<lparr>kp_N_m := default_kp_N_m cfg, kd_N_m_s := default_kd_N_m_s cfg, lc_kp_scale := None, lc_kd_scale := None,
       stance := 1, landing := False, velocity := (velocity leg)\<lparr>vx := 0, vy := 0\<rparr>\<rparr>"

definition DoControl_Rest ::
  "('g, 'p, 'i) geometry \<Rightarrow> config \<Rightarrow> ('g, 'p) quad \<Rightarrow> ('g, 'p) quad run" where
  "DoControl_Rest geo cfg s =
     (let s = ClearDesiredMotion s
      in if old_legs_R s = [] then Abort
         else
           rbind (MoveLegsFixedSpeedZ cfg (map (rest_leg cfg) (old_legs_R s)) (rest_velocity cfg) (stand_height cfg)
                    (Some (su_acceleration (cf_stand_up cfg)))) (\<lambda>(done', legs).
             let s = s\<lparr>rest_done := done'\<rparr>
             in ControlLegs_R geo cfg legs
                  (rest_RB geo (offset_RB (current_command s)) (LevelDesiredRB geo (frames s))) s))"

definition MakeIdleLegs :: "config \<Rightarrow> (int \<times> vec) list" where
  "MakeIdleLegs cfg = map (\<lambda>leg. (cl_leg leg, idle_R leg)) (cf_legs cfg)"

section \<open>Phases\<close>

datatype 's action = Again 's | Emit "leg_cmd list" 's | Rest 's

text \<open>The loop over the phases of a mode; going around again without a change of phase is a failed assertion.\<close>

fun phase_loop :: "nat \<Rightarrow> ('s \<Rightarrow> 'm) \<Rightarrow> ('s \<Rightarrow> 's action run) \<Rightarrow> 's \<Rightarrow> 's action run" where
  "phase_loop 0 phase step s = Spin"
| "phase_loop (Suc fuel) phase step s =
     rbind (step s) (\<lambda>a.
       case a of
         Again s' \<Rightarrow> if phase s' = phase s then Abort else phase_loop fuel phase step s'
       | _ \<Rightarrow> Go a)"

definition finish_action ::
  "('g, 'p, 'i) geometry \<Rightarrow> config \<Rightarrow> ('g, 'p) quad action \<Rightarrow> ('g, 'p) quad run" where
  "finish_action geo cfg a =
     (case a of
        Emit legs s \<Rightarrow> ControlLegs_R geo cfg legs (LevelDesiredRB geo (frames s)) s
      | Rest s \<Rightarrow> DoControl_Rest geo cfg s
      | Again s \<Rightarrow> Spin)"

section \<open>Jumping\<close>

definition Average :: "real list \<Rightarrow> real" where
  "Average xs = (1 / real (length xs)) * sum_list xs"

fun Max_from :: "real \<Rightarrow> real list \<Rightarrow> real" where
  "Max_from m [] = m"
| "Max_from m (x # xs) = Max_from (if x > m then x else m) xs"

fun Min_from :: "real \<Rightarrow> real list \<Rightarrow> real" where
  "Min_from m [] = m"
| "Min_from m (x # xs) = Min_from (if x < m then x else m) xs"

text \<open>The average of no legs would be NaN; \<open>Max\<close> and \<open>Min\<close>, which follow it, stop the process then.\<close>

definition leg_heights :: "('g, 'p) quad \<Rightarrow> real list" where
  "leg_heights s = map (\<lambda>l. vz (ls_position l)) (legs_B s)"

definition leg_speeds :: "('g, 'p) quad \<Rightarrow> real list" where
  "leg_speeds s = map (\<lambda>l. vz (ls_velocity l)) (legs_B s)"

definition jump_leg :: "config \<Rightarrow> leg_cmd \<Rightarrow> leg_cmd" where
  "jump_leg cfg leg =
     leg\<lparr>kp_N_m := default_kp_N_m cfg, kd_N_m_s := default_kd_N_m_s cfg,
       lc_kp_scale := Some (vsame (jf_kp_scale (cf_jump cfg))), lc_kd_scale := Some (vsame (jf_kd_scale (cf_jump cfg)))\<rparr>"

definition set_jump :: "(jump \<Rightarrow> jump) \<Rightarrow> ('g, 'p) quad \<Rightarrow> ('g, 'p) quad" where
  "set_jump f s = s\<lparr>q_jump := f (q_jump s)\<rparr>"

definition follow_R :: "config \<Rightarrow> ('g, 'p) quad \<Rightarrow> leg_cmd list \<Rightarrow> leg_cmd list" where
  "follow_R cfg s legs = MoveLegsForR cfg (desired_v s) (desired_w s) legs"

definition jump_lowering :: "config \<Rightarrow> leg_cmd list \<Rightarrow> ('g, 'p) quad \<Rightarrow> ('g, 'p) quad action run" where
  "jump_lowering cfg legs s =
     rbind (MoveLegsFixedSpeedZ cfg (follow_R cfg s legs) (lower_velocity (cf_jump cfg)) (lower_height (cf_jump cfg)) None)
       (\<lambda>(done', legs).
          Go (if done'
              then Again (set_jump (\<lambda>js. js\<lparr>ju_mode := kPushing, ju_velocity := Some (- lower_velocity (cf_jump cfg)),
                            ju_acceleration := jump_acceleration (ju_command js)\<rparr>) s)
              else Emit legs s))"

text \<open>When the legs leave the ground their measured positions are latched; the velocity is transformed with
  the pose, as the position is.\<close>

fun latch_legs ::
  "('g, 'p, 'i) geometry \<Rightarrow> ('g, 'p) quad \<Rightarrow> leg_cmd list \<Rightarrow> leg_cmd list run" where
  "latch_legs geo s [] = Go []"
| "latch_legs geo s (leg # legs) =
     rbind (GetLegState_B (leg_id leg) s) (\<lambda>cur.
     rbind (latch_legs geo s legs) (\<lambda>legs.
       Go (leg\<lparr>stance := 0, position := to_R geo (frames s) (ls_position cur),
               velocity := to_R geo (frames s) (ls_velocity cur)\<rparr> # legs)))"

definition push_leg :: "config \<Rightarrow> real \<Rightarrow> real \<Rightarrow> leg_cmd \<Rightarrow> leg_cmd" where
  "push_leg cfg v a leg =
     leg\<lparr>position := (position leg)\<lparr>vz := vz (position leg) + v * period_s cfg\<rparr>,
         velocity := (velocity leg)\<lparr>vz := v\<rparr>, acceleration := (acceleration leg)\<lparr>vz := a\<rparr>\<rparr>"

text \<open>A velocity of NaN would make the positions NaN, which this model does not represent: it is an \<open>Abort\<close>
  here, and the invariant of the controller excludes it.\<close>

definition jump_pushing ::
  "('g, 'p, 'i) geometry \<Rightarrow> config \<Rightarrow> leg_cmd list \<Rightarrow> ('g, 'p) quad \<Rightarrow> ('g, 'p) quad action run" where
  "jump_pushing geo cfg legs s =
     (let a = jump_acceleration (ju_command (q_jump s))
      in case ju_velocity (q_jump s) of
           None \<Rightarrow> Abort
         | Some v0 \<Rightarrow>
             (let v = v0 + a * period_s cfg;
                  legs = map (push_leg cfg v a) (follow_R cfg s legs);
                  s = set_jump (\<lambda>js. js\<lparr>ju_velocity := Some v\<rparr>) s
              in case legs of
                   [] \<Rightarrow> Abort
                 | leg # _ \<Rightarrow>
                     if vz (position leg) \<ge> upper_height (cf_jump cfg)
                     then rbind (latch_legs geo s legs) (\<lambda>legs.
                       Go (Again (set_jump (\<lambda>js. js\<lparr>ju_mode := kRetracting, ju_acceleration := 0\<rparr>)
                         (s\<lparr>old_legs_R := legs\<rparr>))))
                     else Go (Emit legs s)))"

definition jump_retracting :: "config \<Rightarrow> leg_cmd list \<Rightarrow> ('g, 'p) quad \<Rightarrow> ('g, 'p) quad action run" where
  "jump_retracting cfg legs s =
     rbind (MoveLegsFixedSpeed cfg legs (retract_velocity (cf_jump cfg)) (MakeIdleLegs cfg)
              (Some (retract_acceleration (cf_jump cfg))) vones vzero) (\<lambda>(done', legs).
       Go (if done'
           then Again (set_jump (\<lambda>js. js\<lparr>ju_mode := kFalling\<rparr>)
             (s\<lparr>old_legs_R := map (\<lambda>leg. leg\<lparr>landing := True\<rparr>) legs\<rparr>))
           else Emit legs s))"

definition touchdown :: "config \<Rightarrow> ('g, 'p) quad \<Rightarrow> bool" where
  "touchdown cfg s \<longleftrightarrow>
     (let hs = leg_heights s; t = land_threshold (cf_jump cfg)
      in Average hs - stand_height cfg < - t \<and> Max_from (hd hs) (tl hs) - stand_height cfg < - (1 / 2) * t)"

definition falling_leg :: "config \<Rightarrow> leg_cmd \<Rightarrow> leg_cmd" where
  "falling_leg cfg leg =
     leg\<lparr>lc_kp_scale := Some (vsame (land_kp (cf_jump cfg))), lc_kd_scale := Some (vsame (land_kd (cf_jump cfg))),
       velocity := vzero, acceleration := vzero\<rparr>"

definition jump_falling :: "config \<Rightarrow> leg_cmd list \<Rightarrow> ('g, 'p) quad \<Rightarrow> ('g, 'p) quad action run" where
  "jump_falling cfg legs s =
     (if legs_B s = [] then Abort
      else if touchdown cfg s
      then Go (Again (set_jump (\<lambda>js. js\<lparr>ju_mode := kLanding, ju_acceleration := 0, ju_velocity := None\<rparr>) s))
      else Go (Emit (map (falling_leg cfg) (follow_R cfg s legs)) s))"

text \<open>\<open>SetLandingParameters\<close>: the acceleration, the filtered velocity, the legs, and whether the landing is over.\<close>

definition landing_done :: "config \<Rightarrow> ('g, 'p) quad \<Rightarrow> bool" where
  "landing_done cfg s \<longleftrightarrow>
     Average (leg_heights s) < lower_height (cf_jump cfg) \<or>
     Min_from (hd (leg_speeds s)) (tl (leg_speeds s)) > - land_velocity (cf_jump cfg)"

definition landing_acceleration :: "config \<Rightarrow> ('g, 'p) quad \<Rightarrow> real" where
  "landing_acceleration cfg s =
     (let error = max 10 (Average (leg_heights s) - lower_height (cf_jump cfg))
      in max (min_acceleration (cf_jump cfg))
           (min (max_acceleration cfg) (7 / 10 * (1 / 2) * (Average (leg_speeds s))\<^sup>2 / error)))"

definition landing_velocity :: "config \<Rightarrow> real \<Rightarrow> ('g, 'p) quad \<Rightarrow> real" where
  "landing_velocity cfg a s =
     (case ju_velocity (q_jump s) of
        None \<Rightarrow> Average (leg_speeds s)
      | Some v \<Rightarrow>
          (let alpha = (1 / 2) powr (period_s cfg / (1 / 10))
           in alpha * (v + period_s cfg * a) + (1 - alpha) * Average (leg_speeds s)))"

definition SetLandingParameters ::
  "('g, 'p, 'i) geometry \<Rightarrow> config \<Rightarrow> leg_cmd list \<Rightarrow> ('g, 'p) quad \<Rightarrow> (bool \<times> leg_cmd list \<times> ('g, 'p) quad) run" where
  "SetLandingParameters geo cfg legs s =
     (if legs_B s = [] then Abort
      else
        (let h = Average (leg_heights s);
             a = landing_acceleration cfg s;
             v = landing_velocity cfg a s;
             lower = lower_height (cf_jump cfg);
             command_velocity = (if h > lower then min v (- lower_velocity (cf_jump cfg)) else 0);
             land = (\<lambda>leg. leg\<lparr>position := to_R geo (frames s) ((to_B geo (frames s) (position leg))\<lparr>vz := max h lower\<rparr>),
                       velocity := (velocity leg)\<lparr>vz := command_velocity\<rparr>,
                       acceleration := \<lparr>vx = 0, vy = 0, vz = a\<rparr>, stance := 1, landing := False\<rparr>)
         in Go (landing_done cfg s, map land legs,
                set_jump (\<lambda>js. js\<lparr>ju_acceleration := a, ju_velocity := Some v\<rparr>) s)))"

definition jump_landing ::
  "('g, 'p, 'i) geometry \<Rightarrow> config \<Rightarrow> leg_cmd list \<Rightarrow> ('g, 'p) quad \<Rightarrow> ('g, 'p) quad action run" where
  "jump_landing geo cfg legs s =
     rbind (SetLandingParameters geo cfg (map (\<lambda>leg. leg\<lparr>stance := 1\<rparr>) (follow_R cfg s legs)) s) (\<lambda>(done', legs, s).
       let again = (jump_repeat (ju_command (q_jump s)) \<and> cmd_mode (current_command s) = kJump);
           command = (case cmd_jump (current_command s) of Some c \<Rightarrow> c | None \<Rightarrow> ju_command (q_jump s))
       in Go (if \<not> done' then Emit legs s
              else if again
              then Again (set_jump (\<lambda>js. js\<lparr>ju_mode := kPushing, ju_command := command,
                            ju_acceleration := jump_acceleration command\<rparr>) s)
              else Emit legs (set_jump (\<lambda>js. js\<lparr>ju_mode := kJumpDone\<rparr>) s)))"

definition jump_step ::
  "('g, 'p, 'i) geometry \<Rightarrow> config \<Rightarrow> ('g, 'p) quad \<Rightarrow> ('g, 'p) quad action run" where
  "jump_step geo cfg s =
     (let legs = map (jump_leg cfg) (old_legs_R s)
      in case ju_mode (q_jump s) of
           kLowering \<Rightarrow> jump_lowering cfg legs s
         | kPushing \<Rightarrow> jump_pushing geo cfg legs s
         | kRetracting \<Rightarrow> jump_retracting cfg legs s
         | kFalling \<Rightarrow> jump_falling cfg legs s
         | kLanding \<Rightarrow> jump_landing geo cfg legs s
         | kJumpDone \<Rightarrow> Go (Rest s))"

definition jump_phase :: "('g, 'p) quad \<Rightarrow> JumpMode" where
  "jump_phase s = ju_mode (q_jump s)"

definition DoControl_Jump ::
  "('g, 'p, 'i) geometry \<Rightarrow> config \<Rightarrow> nat \<Rightarrow> ('g, 'p) quad \<Rightarrow> ('g, 'p) quad run" where
  "DoControl_Jump geo cfg fuel s =
     (let s = (if jump_phase s \<in> {kPushing, kLanding} then UpdateCommandedR cfg 1 s else s)
      in rbind (phase_loop fuel jump_phase (jump_step geo cfg) s) (finish_action geo cfg))"

section \<open>Walking\<close>

definition DoControl_Walk ::
  "('g, 'p, 'i) geometry \<Rightarrow> config \<Rightarrow> ('g, 'p) quad \<Rightarrow> ('g, 'p) quad run" where
  "DoControl_Walk geo cfg s =
     rbind (QuadrupedTrot geo cfg (old_legs_R s) s) (\<lambda>(legs, desired_RB, s). ControlLegs_R geo cfg legs desired_RB s)"

section \<open>Back flip\<close>

definition flip_lowering ::
  "('g, 'p, 'i) geometry \<Rightarrow> config \<Rightarrow> leg_cmd list \<Rightarrow> ('g, 'p) quad \<Rightarrow> ('g, 'p) quad action run" where
  "flip_lowering geo cfg legs s =
     (let s = s\<lparr>frames := reset_RB geo (frames s)\<rparr>
      in rbind (MoveLegsFixedSpeedZ cfg legs (lower_velocity (cf_jump cfg)) (bf_lower_height (cf_backflip cfg)) None)
           (\<lambda>(done', legs).
              Go (if done' then Again (s\<lparr>q_backflip := (q_backflip s)\<lparr>bf_mode := kFrontPush\<rparr>\<rparr>) else Emit legs s)))"

text \<open>One step of the integration of the pitch.\<close>

definition pitch_step :: "config \<Rightarrow> real \<Rightarrow> backflip \<Rightarrow> backflip" where
  "pitch_step cfg a bs =
     (let rate = pitch_rate_dps bs + a * period_s cfg
      in bs\<lparr>pitch_accel_dps2 := a, pitch_rate_dps := rate, pitch_deg := pitch_deg bs + rate * period_s cfg\<rparr>)"

definition flip_front_push ::
  "('g, 'p, 'i) geometry \<Rightarrow> config \<Rightarrow> leg_cmd list \<Rightarrow> ('g, 'p) quad \<Rightarrow> ('g, 'p) quad action run" where
  "flip_front_push geo cfg legs s =
     (let bs = pitch_step cfg (bf_pitch_accel_dps2 (cf_backflip cfg)) (q_backflip s);
          (legs, g) = flip_legs geo bs 0 (map (\<lambda>leg. leg\<lparr>stance := 1\<rparr>) legs) (frames s);
          bs = (if pitch_deg bs > max_pitch_deg (cf_backflip cfg) then bs\<lparr>bf_mode := kBackPush\<rparr> else bs)
      in Go (Emit legs (s\<lparr>q_backflip := bs, frames := g\<rparr>)))"

fun rear_stance :: "config \<Rightarrow> leg_cmd list \<Rightarrow> leg_cmd list run" where
  "rear_stance cfg [] = Go []"
| "rear_stance cfg (leg # legs) =
     rbind (GetLeg cfg (leg_id leg)) (\<lambda>ctx.
     rbind (rear_stance cfg legs) (\<lambda>legs. Go (leg\<lparr>stance := (if at_rear ctx then 1 else 0)\<rparr> # legs)))"

fun flight_legs :: "config \<Rightarrow> leg_cmd list \<Rightarrow> leg_cmd list \<Rightarrow> leg_cmd list run" where
  "flight_legs cfg old [] = Go []"
| "flight_legs cfg old (leg # legs) =
     (case find (\<lambda>v. leg_id v = leg_id leg) old of
        None \<Rightarrow> Abort
      | Some v \<Rightarrow>
          rbind (flight_legs cfg old legs) (\<lambda>legs.
            Go (leg\<lparr>position := position v, velocity := velocity v, force_N := vzero,
                    lc_kp_scale := Some (vsame (flight_kp (cf_backflip cfg))), stance := 0\<rparr> # legs)))"

definition flip_back_push ::
  "('g, 'p, 'i) geometry \<Rightarrow> config \<Rightarrow> leg_cmd list \<Rightarrow> ('g, 'p) quad \<Rightarrow> ('g, 'p) quad action run" where
  "flip_back_push geo cfg legs s =
     (let push = (pitch_deg (q_backflip s) > push_pitch_deg (cf_backflip cfg));
          a = (if push then bf_acceleration (cf_backflip cfg) else 0);
          bs = pitch_step cfg (if push then 0 else bf_pitch_accel_dps2 (cf_backflip cfg)) (q_backflip s);
          bs = bs\<lparr>bf_velocity := bf_velocity bs + a * period_s cfg\<rparr>
      in rbind (rear_stance cfg legs) (\<lambda>legs.
           let (legs, g) = flip_legs geo bs a legs (frames s)
           in case find (\<lambda>leg. stance leg = 1) legs of
                None \<Rightarrow> Abort
              | Some leg \<Rightarrow>
                  if vz (position leg) > push_height (cf_backflip cfg)
                  then rbind (flight_legs cfg (old_legs_B s) legs) (\<lambda>legs.
                    Go (Emit legs (s\<lparr>q_backflip := bs\<lparr>bf_mode := kFlight\<rparr>, frames := reset_pose_RB geo g\<rparr>)))
                  else Go (Emit legs (s\<lparr>q_backflip := bs, frames := g\<rparr>))))"

definition flip_step ::
  "('g, 'p, 'i) geometry \<Rightarrow> config \<Rightarrow> ('g, 'p) quad \<Rightarrow> ('g, 'p) quad action run" where
  "flip_step geo cfg s =
     (let legs = old_legs_R s
      in case bf_mode (q_backflip s) of
           kFlipLowering \<Rightarrow> flip_lowering geo cfg legs s
         | kFrontPush \<Rightarrow> flip_front_push geo cfg legs s
         | kBackPush \<Rightarrow> flip_back_push geo cfg legs s
         | kFlight \<Rightarrow>
             rbind (MoveLegsFixedSpeed cfg legs (flight_velocity (cf_backflip cfg)) (MakeIdleLegs cfg) None vones vzero)
               (\<lambda>(_, legs). Go (Emit legs s))
         | kFlipDone \<Rightarrow> Go (Rest s))"

definition flip_phase :: "('g, 'p) quad \<Rightarrow> BackflipMode" where
  "flip_phase s = bf_mode (q_backflip s)"

definition DoControl_Backflip ::
  "('g, 'p, 'i) geometry \<Rightarrow> config \<Rightarrow> nat \<Rightarrow> ('g, 'p) quad \<Rightarrow> ('g, 'p) quad run" where
  "DoControl_Backflip geo cfg fuel s =
     rbind (phase_loop fuel flip_phase (flip_step geo cfg) s) (finish_action geo cfg)"

section \<open>Changes of mode\<close>

definition all_legs_stance :: "('g, 'p) quad \<Rightarrow> bool" where
  "all_legs_stance s \<longleftrightarrow> list_all (\<lambda>leg. stance leg = 1) (old_legs_R s)"

definition latch_jump :: "('g, 'p) quad \<Rightarrow> ('g, 'p) quad" where
  "latch_jump s =
     set_jump (\<lambda>js. js\<lparr>ju_command := (case cmd_jump (current_command s) of Some c \<Rightarrow> c | None \<Rightarrow> jump_cmd_default)\<rparr>) s"

text \<open>The branch for the modes that need all four legs on the ground.\<close>

definition enter_locomotion :: "('g, 'p, 'i) geometry \<Rightarrow> ('g, 'p) quad \<Rightarrow> ('g, 'p) quad" where
  "enter_locomotion geo s =
     (let m = cmd_mode (current_command s)
      in if q_mode s = kStopped \<or> q_mode s = kZeroVelocity
         then s\<lparr>q_mode := kStandUp, q_stand_up := stand_up_default\<rparr>
         else if (q_mode s = kRest \<and> rest_done s) \<or> (q_mode s = kStandUp \<and> su_mode (q_stand_up s) = kStandDone)
         then latch_jump (s\<lparr>q_mode := m\<rparr>)
         else if q_mode s = kJump \<and> ju_mode (q_jump s) = kJumpDone
         then s\<lparr>q_mode := (if IsRestAndSteadyState s then m else kRest)\<rparr>
         else if q_mode s = kWalk
         then
           (if idle_count (q_walk s) \<ge> 2 \<and> all_legs_stance s then (latch_jump s)\<lparr>q_mode := m\<rparr>
            else s\<lparr>current_command := (current_command s)\<lparr>v_R := vzero, w_R := vzero\<rparr>\<rparr>)
         else if q_mode s = kBackflip \<and> bf_mode (q_backflip s) = kFlipDone then s\<lparr>q_mode := m\<rparr>
         else s)"

text \<open>What follows a change of mode: the state of the old mode is reset, and the time is noted.\<close>

definition reset_mode :: "('g, 'p, 'i) geometry \<Rightarrow> Mode \<Rightarrow> ('g, 'p) quad \<Rightarrow> ('g, 'p) quad" where
  "reset_mode geo old s =
     (case old of
        kStandUp \<Rightarrow> s\<lparr>q_stand_up := stand_up_default\<rparr>
      | kJump \<Rightarrow> s\<lparr>q_jump := jump_default\<rparr>
      | kWalk \<Rightarrow> s\<lparr>q_walk := walk_default\<rparr>
      | kBackflip \<Rightarrow> s\<lparr>q_backflip := backflip_default\<rparr>
      | kRest \<Rightarrow> s\<lparr>rest_done := False\<rparr>
      | _ \<Rightarrow> s)"

definition leave_mode :: "('g, 'p, 'i) geometry \<Rightarrow> real \<Rightarrow> Mode \<Rightarrow> ('g, 'p) quad \<Rightarrow> ('g, 'p) quad" where
  "leave_mode geo now old s = (if q_mode s = old then s else (reset_mode geo old s)\<lparr>mode_start := now\<rparr>)"

definition change_mode :: "('g, 'p, 'i) geometry \<Rightarrow> real \<Rightarrow> ('g, 'p) quad \<Rightarrow> ('g, 'p) quad run" where
  "change_mode geo now s =
     (let old = q_mode s; m = cmd_mode (current_command s)
      in if m \<in> {kConfiguring, kNumModes, kFault} then Abort
         else if m = kStopped then Go (leave_mode geo now old (s\<lparr>q_mode := kStopped\<rparr>))
         else if m \<in> {kZeroVelocity, kJoint, kLeg}
         then (if old = kFault then Go s else Go (leave_mode geo now old (s\<lparr>q_mode := m\<rparr>)))
         else if m = kStandUp
         then (if \<not> (old = kStopped \<or> old = kZeroVelocity) then Go s
               else Go (leave_mode geo now old (s\<lparr>q_mode := m, q_stand_up := stand_up_default\<rparr>)))
         else Go (leave_mode geo now old (enter_locomotion geo s)))"

definition MaybeChangeMode ::
  "('g, 'p, 'i) geometry \<Rightarrow> config \<Rightarrow> real \<Rightarrow> ('g, 'p) quad \<Rightarrow> ('g, 'p) quad run" where
  "MaybeChangeMode geo cfg now s =
     (if q_mode s = kConfiguring
      then (let (ok, s) = IsConfiguringDone cfg s in if ok then change_mode geo now s else Go s)
      else change_mode geo now s)"

section \<open>The control cycle\<close>

definition do_control ::
  "('g, 'p, 'i) geometry \<Rightarrow> config \<Rightarrow> nat \<Rightarrow> real \<Rightarrow> ('g, 'p) quad \<Rightarrow> ('g, 'p) quad run" where
  "do_control geo cfg fuel now s =
     (case q_mode s of
        kConfiguring \<Rightarrow> Go (DoControl_Configuring cfg s)
      | kStopped \<Rightarrow> Go (DoControl_Stopped cfg s)
      | kFault \<Rightarrow> Go (DoControl_Fault cfg s)
      | kZeroVelocity \<Rightarrow> Go (DoControl_ZeroVelocity cfg s)
      | kJoint \<Rightarrow> Go (DoControl_Joint cfg s)
      | kLeg \<Rightarrow> DoControl_Leg geo cfg s
      | kStandUp \<Rightarrow> DoControl_StandUp geo cfg now s
      | kRest \<Rightarrow> DoControl_Rest geo cfg s
      | kJump \<Rightarrow> DoControl_Jump geo cfg fuel s
      | kWalk \<Rightarrow> DoControl_Walk geo cfg s
      | kBackflip \<Rightarrow> DoControl_Backflip geo cfg fuel s
      | kNumModes \<Rightarrow> Abort)"

definition RunControl ::
  "('g, 'p, 'i) geometry \<Rightarrow> config \<Rightarrow> nat \<Rightarrow> real \<Rightarrow> ('g, 'p) quad \<Rightarrow> ('g, 'p) quad run" where
  "RunControl geo cfg fuel now s =
     rbind (if cmd_mode (current_command s) \<noteq> q_mode s then MaybeChangeMode geo cfg now s else Go s)
       (do_control geo cfg fuel now)"

text \<open>\<open>1 << id\<close> needs an id below the width of \<open>int\<close>; the mask keeps 16 bits of the result.\<close>

fun servo_bitmask :: "reply list \<Rightarrow> u16 \<Rightarrow> u16 run" where
  "servo_bitmask [] m = Go m"
| "servo_bitmask (r # rs) m =
     (if 0 \<le> rp_id r \<and> rp_id r \<le> 30 then servo_bitmask rs (m OR push_bit (nat (rp_id r)) 1) else Abort)"

definition found_servos :: "u16 \<Rightarrow> nat" where
  "found_servos m = length (filter (\<lambda>i. m AND push_bit i 1 \<noteq> 0) [1 ..< kNumServos + 1])"

definition swap_logs :: "('g, 'p) quad \<Rightarrow> ('g, 'p) quad" where
  "swap_logs s =
     s\<lparr>old_legs_B := log_legs_B s, old_legs_R := log_legs_R s, log_joints := [], log_legs_B := [], log_legs_R := []\<rparr>"

text \<open>What is read from the servos in a cycle: the first register of a block, their number, and the code of their
  resolution. More is read while configuring.\<close>

record read_request =
  rd_id :: int
  rd_blocks :: "(Register \<times> nat \<times> nat) list"

definition status_request :: "config \<Rightarrow> bool \<Rightarrow> read_request list" where
  "status_request cfg servo_debug =
     map (\<lambda>j. \<lparr>rd_id = jf_id j,
       rd_blocks = [(kMode, 4, 1), (kVoltage, 3, 0)] @ (if servo_debug then [(kPositionKp, 5, 1)] else [])\<rparr>) (cf_joints cfg)"

definition config_status_request :: "config \<Rightarrow> read_request list" where
  "config_status_request cfg =
     map (\<lambda>j. \<lparr>rd_id = jf_id j,
       rd_blocks = [(kMode, 4, 1), (kRezeroState, 4, 0), (kRegisterMapVersion, 1, 2), (kSerialNumber1, 3, 2)]\<rparr>)
       (cf_joints cfg)"

text \<open>The timer starts a cycle unless one is under way; the first result is the request it sends.\<close>

definition HandleTimer ::
  "config \<Rightarrow> bool \<Rightarrow> ('g, 'p) quad \<Rightarrow> read_request list option \<times> ('g, 'p) quad" where
  "HandleTimer cfg servo_debug s =
     (if outstanding s then (None, s)
      else (Some (if q_mode s = kConfiguring then config_status_request cfg else status_request cfg servo_debug),
            s\<lparr>outstanding := True\<rparr>))"

definition HandleCommand :: "('g, 'p) quad \<Rightarrow> ('g, 'p) quad" where
  "HandleCommand s = s\<lparr>outstanding := False\<rparr>"

definition HandleStatus ::
  "('g, 'p, 'i) geometry \<Rightarrow> config \<Rightarrow> nat \<Rightarrow> real \<Rightarrow> 'i \<Rightarrow> reply list \<Rightarrow> ('g, 'p) quad \<Rightarrow> ('g, 'p) quad run" where
  "HandleStatus geo cfg fuel now imu replies s =
     rbind (servo_bitmask replies 0) (\<lambda>m.
       let s = s\<lparr>missing_replies := int kNumServos - int (found_servos m)\<rparr>
       in if found_servos m \<noteq> kNumServos \<and> length (joints s) \<noteq> kNumServos then Go (s\<lparr>outstanding := False\<rparr>)
          else
            rbind (UpdateStatus geo cfg now imu replies s) (\<lambda>(ok, s).
              if \<not> ok then Go (s\<lparr>outstanding := False\<rparr>)
              else
                rbind (RunControl geo cfg fuel now (swap_logs s)) (\<lambda>s.
                  Go (if client_command s \<noteq> [] then s else HandleCommand s))))"

text \<open>The state before the first cycle, and the steps of the controller: the timer, the replies of the servos, the end
  of the transmission, and the commands of the operator.\<close>

definition command_default :: "'p \<Rightarrow> 'p command" where
  "command_default p = \<lparr>priority = 0, cmd_log = kUnset, cmd_mode = kStopped, cmd_joints = [], cmd_legs_B = [], offset_RB = p,
     cmd_jump = None, cmd_walk = None, v_R = vzero, w_R = vzero\<rparr>"

definition quad_start :: "('g, 'p, 'i) geometry \<Rightarrow> 'g \<Rightarrow> 'p \<Rightarrow> ('g, 'p) quad" where
  "quad_start geo g p =
     \<lparr>q_mode = kConfiguring, mode_start = 0, q_fault = NoFault, missing_replies = 0, performed_rezero = False, joints = [],
      legs_B = [], desired_v = vzero, desired_w = vzero, frames = g, robot_voltage = Fin 0, q_stand_up = stand_up_default,
      rest_done = False, q_jump = jump_default, q_walk = walk_default, swings = replicate 4 swing_default, q_backflip = backflip_default,
      current_command = command_default p, command_timestamp = None, servos = [], log_joints = [], log_legs_B = [],
      log_legs_R = [], old_legs_B = [], old_legs_R = [], client_command = [], outstanding = False, log_open = False\<rparr>"

inductive quad_step ::
  "('g, 'p, 'i) geometry \<Rightarrow> config \<Rightarrow> nat \<Rightarrow> ('g, 'p) quad \<Rightarrow> ('g, 'p) quad \<Rightarrow> bool" for geo cfg fuel where
  timer: "quad_step geo cfg fuel s (snd (HandleTimer cfg servo_debug s))"
| status: "outstanding s \<Longrightarrow> HandleStatus geo cfg fuel now imu replies s = Go s' \<Longrightarrow> quad_step geo cfg fuel s s'"
| transmitted: "outstanding s \<Longrightarrow> quad_step geo cfg fuel s (HandleCommand s)"
| operator: "quad_step geo cfg fuel s (Command cfg now c s)"

inductive quad_reach :: "('g, 'p, 'i) geometry \<Rightarrow> config \<Rightarrow> nat \<Rightarrow> ('g, 'p) quad \<Rightarrow> bool" for geo cfg fuel where
  start: "quad_reach geo cfg fuel (quad_start geo g p)"
| step: "quad_reach geo cfg fuel s \<Longrightarrow> quad_step geo cfg fuel s s' \<Longrightarrow> quad_reach geo cfg fuel s'"

section \<open>A robot on the bench\<close>

text \<open>A configuration with twelve joints and four legs, and a geometry in which the body does not move, for the
  concrete examples.\<close>

definition bench_config :: config where
  "bench_config =
     \<lparr>period_s = 1 / 400, cf_min_voltage = 15, cf_joints = map (\<lambda>i. \<lparr>jf_id = i, sign = 1, rezero_pos_deg = 0\<rparr>) [1 .. 12],
      rezero_threshold_deg = 20, min_z_B = 0, max_z_B = 300, max_acceleration = 5000,
      cf_stand_up = \<lparr>velocity_dps = 60, su_velocity = 50, max_preposition_torque_Nm = 3, preposition_kp_scale = 1,
        timeout_s = 10, tolerance_deg = 5, su_acceleration = 500\<rparr>,
      rest_velocity = 100, stand_height = 200, default_kp_N_m = vzero, default_kd_N_m_s = vzero, lr_acceleration = 100,
      lr_alpha_rad_s2 = 1, voltage_filter_s = 1,
      cf_jump = \<lparr>lower_velocity = 100, retract_velocity = 1000, retract_acceleration = 3000, land_threshold = 10,
        jf_kp_scale = 1, jf_kd_scale = 1, land_kp = 1, land_kd = 1, lower_height = 140, upper_height = 240,
        min_acceleration = 100, land_velocity = 10\<rparr>,
      cf_walk = \<lparr>lift_height = 25, max_stance_s = 2 / 5, min_invalid_time_s = 1 / 50, world_blend_ratio = 3 / 20,
        max_swing_time_s = 1 / 5, min_swing_time_s = 3 / 20, max_twovleg_time_s = 7 / 20, max_flight_time_s = 1 / 50,
        travel_ratio = 4 / 5, initial_stance = 1 / 2, stance_restore = 40, onevleg_accel = 3 / 5, swing_damp_start_phase = 4 / 5,
        swing_damp_kp = 2 / 5, swing_damp_kd = 2 / 5, swing_damp_kp_restore = 40, swing_damp_kd_restore = 40,
        stance_restore_fraction = 7 / 10, contact_detect_load = 3 / 4, extra_target_time_s = 0, jump_offset_scale = 3 / 4,
        jump_velocity_scale = 1 / 2\<rparr>,
      cf_backflip = \<lparr>bf_lower_height = 120, bf_pitch_accel_dps2 = 1000, max_pitch_deg = 20, push_pitch_deg = 10,
        bf_acceleration = 1000, push_height = 240, flight_velocity = 100, flight_kp = 1\<rparr>,
      cf_legs = map (\<lambda>i. \<lparr>cl_leg = i, shoulder_id = 3 * i + 1, femur_id = 3 * i + 2, tibia_id = 3 * i + 3, at_rear = (i > 1),
        stand_up_R = vzero, idle_R = vzero, shoulder_deg = 0, femur_deg = 30, tibia_deg = -60,
        shoulder_clearance_deg = 10\<rparr>) [0 .. 3],
      max_torque_Nm = 10, mass_kg = 10, leg_mass_kg = 1, command_timeout_s = 1\<rparr>"

definition flat :: "(unit, unit, unit) geometry" where
  "flat =
     \<lparr>sense = (\<lambda>_ js _ _ g. (map (\<lambda>i. \<lparr>ls_leg = i, ls_position = vzero, ls_velocity = vzero, ls_force_N = vzero, ls_stance = 1\<rparr>)
        [0 .. 3], g)),
      reset_RB = (\<lambda>g. g), reset_pose_RB = (\<lambda>g. g), LevelDesiredRB = (\<lambda>_. ()), rest_RB = (\<lambda>_ p. p), filter_RB = (\<lambda>_ g. g),
      leg_to_B = (\<lambda>_ leg. leg), to_R = (\<lambda>_ p. p), to_B = (\<lambda>_ p. p), gravity_B = (\<lambda>_. \<lparr>vx = 0, vy = 0, vz = 1\<rparr>), leg_ik = (\<lambda>_ _ _. None),
      rb_still = (\<lambda>_. True), state_to_R = (\<lambda>_ l. l), R_to_G = (\<lambda>_ _ p. p), R_to_G_rot = (\<lambda>_ _ p. p),
      region = (\<lambda>_. [(-100, -100), (100, -100), (100, 100), (-100, 100), (-100, -100)]), in_region = (\<lambda>_ _. True),
      flip_legs = (\<lambda>_ _ legs g. (legs, g))\<rparr>"

end
