(* ===== verification/TrotProps.thy ===== *)
theory TrotProps
  imports Trot
begin

text \<open>
  Correctness of the walking gait: what it leaves alone, the timing of the trot, and the invariant of the two
  pairs of legs.
\<close>

section \<open>Frame\<close>

text \<open>The gait changes the commanded motion, its own state and the swings, and nothing else.\<close>

definition walk_frame :: "('g, 'p) quad \<Rightarrow> ('g, 'p) quad \<Rightarrow> bool" where
  "walk_frame s s' \<longleftrightarrow>
     (\<forall>w sw v u. s'\<lparr>q_walk := w, swings := sw, desired_v := v, desired_w := u\<rparr> =
        s\<lparr>q_walk := w, swings := sw, desired_v := v, desired_w := u\<rparr>)"

lemma walk_frameI:
  "walk_frame s s" "walk_frame s s' \<Longrightarrow> walk_frame s (set_walk f s')" "walk_frame s s' \<Longrightarrow> walk_frame s (set_vleg k g s')"
  "walk_frame s s' \<Longrightarrow> walk_frame s (set_wleg i h s')" "walk_frame s s' \<Longrightarrow> walk_frame s (s'\<lparr>swings := sw\<rparr>)"
  "walk_frame s s' \<Longrightarrow> walk_frame s (s'\<lparr>desired_v := v\<rparr>)" "walk_frame s s' \<Longrightarrow> walk_frame s (s'\<lparr>desired_v := v, desired_w := u\<rparr>)"
  "walk_frame s s' \<Longrightarrow> walk_frame s (s'\<lparr>desired_w := u\<rparr>)"
  by (simp_all add: walk_frame_def set_walk_def set_vleg_def set_wleg_def)

lemma walk_frame_trans: "walk_frame s s' \<Longrightarrow> walk_frame s' s'' \<Longrightarrow> walk_frame s s''"
  by (simp add: walk_frame_def)

lemma walk_frame_sel:
  assumes "walk_frame s s'"
  shows "q_mode s' = q_mode s" "mode_start s' = mode_start s" "q_fault s' = q_fault s" "joints s' = joints s"
    "legs_B s' = legs_B s" "servos s' = servos s" "current_command s' = current_command s" "q_stand_up s' = q_stand_up s"
    "q_jump s' = q_jump s" "q_backflip s' = q_backflip s" "performed_rezero s' = performed_rezero s"
    "robot_voltage s' = robot_voltage s"
proof -
  have e: "s'\<lparr>q_walk := w, swings := sw, desired_v := v, desired_w := u\<rparr> = s\<lparr>q_walk := w, swings := sw, desired_v := v, desired_w := u\<rparr>"
    for w sw v u using assms unfolding walk_frame_def by blast
  show "q_mode s' = q_mode s" "mode_start s' = mode_start s" "q_fault s' = q_fault s" "joints s' = joints s"
    "legs_B s' = legs_B s" "servos s' = servos s" "current_command s' = current_command s" "q_stand_up s' = q_stand_up s"
    "q_jump s' = q_jump s" "q_backflip s' = q_backflip s" "performed_rezero s' = performed_rezero s"
    "robot_voltage s' = robot_voltage s"
    using arg_cong [OF e, of q_mode] arg_cong [OF e, of mode_start] arg_cong [OF e, of q_fault] arg_cong [OF e, of joints]
      arg_cong [OF e, of legs_B] arg_cong [OF e, of servos] arg_cong [OF e, of current_command] arg_cong [OF e, of q_stand_up]
      arg_cong [OF e, of q_jump] arg_cong [OF e, of q_backflip] arg_cong [OF e, of performed_rezero]
      arg_cong [OF e, of robot_voltage] by simp_all
qed

lemma UpdateGlobal_frame: "walk_frame s (UpdateGlobal cfg s)"
  by (auto simp: UpdateGlobal_def limit_desired_def UpdateCommandedR_def Let_def intro!: walk_frameI split: prod.split)

lemma UpdateSwingTime_frame: "UpdateSwingTime legs s = Go s' \<Longrightarrow> walk_frame s s'"
  by (auto simp: UpdateSwingTime_def vleg_remaining_def intro!: walk_frameI split: if_splits)

lemma leg_invalid_times_frame: "leg_invalid_times geo cfg legs s = Go s' \<Longrightarrow> walk_frame s s'"
proof (induction legs arbitrary: s)
  case (Cons leg legs)
  then obtain t i where "leg_invalid_times geo cfg legs (set_wleg i (\<lambda>l. l\<lparr>wl_invalid_time_s := t\<rparr>) s) = Go s'"
    by (auto simp: rbind_Go Let_def split: if_splits)
  from Cons.IH [OF this] walk_frameI(4) [OF walk_frameI(1)] show ?case by (rule walk_frame_trans [rotated])
qed (simp add: walk_frameI)

lemma leg_travel_distances_frame: "leg_travel_distances geo cfg ids s = Go s' \<Longrightarrow> walk_frame s s'"
proof (induction ids arbitrary: s)
  case (Cons i ids)
  then obtain d where "leg_travel_distances geo cfg ids (set_wleg i (\<lambda>l. l\<lparr>wl_travel_distance := d\<rparr>) s) = Go s'"
    by (auto simp: rbind_Go)
  from Cons.IH [OF this] walk_frameI(4) [OF walk_frameI(1)] show ?case by (rule walk_frame_trans [rotated])
qed (simp add: walk_frameI)

lemma lift_leg_frame: "lift_leg cfg p t i (legs, s) = Go (legs', s') \<Longrightarrow> walk_frame s s'"
  by (auto simp: lift_leg_def rbind_Go Let_def intro!: walk_frameI)

lemma lift_leg_frame_after: "lift_leg cfg p t i (legs, s') = Go (legs', s'') \<Longrightarrow> walk_frame s s' \<Longrightarrow> walk_frame s s''"
  using lift_leg_frame walk_frame_trans by metis

lemma LiftVleg_frame:
  assumes "LiftVleg cfg legs k s = Go (legs', s')"
  shows "walk_frame s s'"
  using assms unfolding LiftVleg_def Let_def rbind_Go
  by (auto intro!: walk_frameI elim!: lift_leg_frame_after)

lemma MaybeLift_frame: "MaybeLift cfg legs s = Go (legs', s') \<Longrightarrow> walk_frame s s'"
  by (auto simp: MaybeLift_def rbind_Go Let_def split: if_splits dest!: LiftVleg_frame intro: walk_frameI)

lemma PropagateStance_frame: "PropagateStance cfg k i st leg s = Go (leg', s') \<Longrightarrow> walk_frame s s'"
  by (auto simp: PropagateStance_def latch_leg_def Let_def intro!: walk_frameI split: if_splits prod.splits)

lemma propagate_leg_frame: "propagate_leg geo cfg k i (legs, s) = Go (legs', s') \<Longrightarrow> walk_frame s s'"
  by (auto simp: propagate_leg_def PropagateSwing_def Let_def rbind_Go split: if_splits prod.splits dest!: PropagateStance_frame
      intro!: walk_frameI)

lemma land_leg_frame: "land_leg cfg i (legs, s) = Go (legs', s') \<Longrightarrow> walk_frame s s'"
  by (auto simp: land_leg_def rbind_Go intro!: walk_frameI)

lemma land_leg_frame_after: "land_leg cfg i (legs, s') = Go (legs', s'') \<Longrightarrow> walk_frame s s' \<Longrightarrow> walk_frame s s''"
  using land_leg_frame walk_frame_trans by metis

lemma land_vleg_frame: "land_vleg cfg k (legs, s) = Go (legs', s') \<Longrightarrow> walk_frame s s'"
  unfolding land_vleg_def Let_def by (auto simp: rbind_Go intro!: walk_frameI elim!: land_leg_frame_after split: if_splits)

lemma propagate_vleg_frame:
  assumes "propagate_vleg geo cfg k (legs, s) = Go (legs', s')"
  shows "walk_frame s s'"
proof -
  from assms obtain l1 s1 l2 s2 where "propagate_leg geo cfg k (kVlegMapping k ! 0) (legs, vleg_clock cfg k s) = Go (l1, s1)"
    "propagate_leg geo cfg k (kVlegMapping k ! 1) (l1, s1) = Go (l2, s2)" "land_vleg cfg k (l2, s2) = Go (legs', s')"
    by (auto simp: propagate_vleg_def rbind_Go)
  moreover have "walk_frame s (vleg_clock cfg k s)" by (simp add: vleg_clock_def walk_frameI)
  ultimately show ?thesis using propagate_leg_frame land_vleg_frame walk_frame_trans by metis
qed

lemma PropagateLegs_frame: "PropagateLegs geo cfg (legs, s) = Go (legs', s') \<Longrightarrow> walk_frame s s'"
  by (auto simp: PropagateLegs_def rbind_Go dest!: propagate_vleg_frame intro: walk_frame_trans)

lemma UpdateInvalidTime_frame: "UpdateInvalidTime geo cfg legs s = Go s' \<Longrightarrow> walk_frame s s'"
  by (auto simp: UpdateInvalidTime_def rbind_Go vleg_invalid_def intro!: walk_frameI dest!: leg_invalid_times_frame)

lemma UpdateTravelDistance_frame:
  assumes "UpdateTravelDistance geo cfg s = Go s'"
  shows "walk_frame s s'"
proof -
  from assms obtain t where t: "leg_travel_distances geo cfg [0, 1, 2, 3] s = Go t"
    "s' = (case min_list_double PosInf (map wl_travel_distance (wk_legs (q_walk t))) of
             Fin d \<Rightarrow> set_walk (\<lambda>w. w\<lparr>travel_distance := d\<rparr>) t | _ \<Rightarrow> t)"
    unfolding UpdateTravelDistance_def rbind_Go by (auto simp del: leg_travel_distances.simps split del: double.split)
  from leg_travel_distances_frame [OF t(1)] walk_frameI(2) show ?thesis
    unfolding t(2) by (cases "min_list_double PosInf (map wl_travel_distance (wk_legs (q_walk t)))") simp_all
qed

lemma UpdateTrot_frame: "UpdateTrot cfg s = Go s' \<Longrightarrow> walk_frame s s'"
  by (auto simp: UpdateTrot_def rbind_Go intro!: walk_frameI)

lemma QuadrupedTrot_frame:
  assumes "QuadrupedTrot geo cfg legs s = Go (legs', p, s')"
  shows "walk_frame s s'"
proof -
  from assms obtain a b c d e l1 l2 where
    r: "UpdateSwingTime legs (UpdateGlobal cfg s) = Go a" "UpdateInvalidTime geo cfg legs a = Go b"
    "UpdateTravelDistance geo cfg b = Go c" "UpdateTrot cfg c = Go d" "MaybeLift cfg legs d = Go (l1, e)"
    "PropagateLegs geo cfg (l1, e) = Go (l2, s')"
    by (auto simp: QuadrupedTrot_def rbind_Go)
  show ?thesis
    using UpdateGlobal_frame UpdateSwingTime_frame [OF r(1)] UpdateInvalidTime_frame [OF r(2)] UpdateTravelDistance_frame [OF r(3)]
      UpdateTrot_frame [OF r(4)] MaybeLift_frame [OF r(5)] PropagateLegs_frame [OF r(6)] walk_frame_trans by metis
qed

section \<open>Timing of the trot\<close>

definition trot_config :: "config \<Rightarrow> bool" where
  "trot_config cfg \<longleftrightarrow> 0 \<le> max_flight_time_s (cf_walk cfg) \<and> 0 \<le> max_twovleg_time_s (cf_walk cfg) \<and>
     0 < min_swing_time_s (cf_walk cfg) - 2 * max_flight_time_s (cf_walk cfg) \<and>
     min_swing_time_s (cf_walk cfg) \<le> max_swing_time_s (cf_walk cfg)"

definition trot_ok :: "config \<Rightarrow> trot \<Rightarrow> bool" where
  "trot_ok cfg t \<longleftrightarrow>
     min_swing_time_s (cf_walk cfg) \<le> swing_time t \<and> swing_time t \<le> max_swing_time_s (cf_walk cfg) \<and>
     0 < onevleg_time t \<and> 0 \<le> twovleg_time t \<and> twovleg_time t \<le> max_twovleg_time_s (cf_walk cfg) \<and>
     0 \<le> flight_time t \<and> flight_time t \<le> max_flight_time_s (cf_walk cfg) \<and>
     swing_time t = onevleg_time t + 2 * flight_time t \<and> (flight_time t = 0 \<or> twovleg_time t = 0)"

lemma CalculateTrot_cases:
  assumes "0 \<le> d" "0 \<le> v"
  obtains (A) "v < 1 / 2 * d / (max_twovleg_time_s (cf_walk cfg) + 1 / 2 * max_swing_time_s (cf_walk cfg))"
      "CalculateTrot cfg mx d v = Go (trot_default\<lparr>trot_max_speed := d / (min_swing_time_s (cf_walk cfg) - 2 * max_flight_time_s (cf_walk cfg)),
         swing_time := max_swing_time_s (cf_walk cfg), onevleg_time := max_swing_time_s (cf_walk cfg),
         twovleg_time := max_twovleg_time_s (cf_walk cfg), trot_speed := v\<rparr>)"
  | (B) "1 / 2 * d / (max_twovleg_time_s (cf_walk cfg) + 1 / 2 * max_swing_time_s (cf_walk cfg)) \<le> v" "v < d / max_swing_time_s (cf_walk cfg)"
      "CalculateTrot cfg mx d v = Go (trot_default\<lparr>trot_max_speed := d / (min_swing_time_s (cf_walk cfg) - 2 * max_flight_time_s (cf_walk cfg)),
         swing_time := max_swing_time_s (cf_walk cfg), onevleg_time := max_swing_time_s (cf_walk cfg),
         twovleg_time := 1 / 2 * d / v - 1 / 2 * max_swing_time_s (cf_walk cfg), trot_speed := v\<rparr>)"
  | (C) flight where "d / max_swing_time_s (cf_walk cfg) \<le> v" "v < d / (max_swing_time_s (cf_walk cfg) - 2 * max_flight_time_s (cf_walk cfg))"
      "flight = 1 / 2 * max_swing_time_s (cf_walk cfg) - d / (2 * v)"
      "CalculateTrot cfg mx d v = Go (trot_default\<lparr>trot_max_speed := d / (min_swing_time_s (cf_walk cfg) - 2 * max_flight_time_s (cf_walk cfg)),
         swing_time := max_swing_time_s (cf_walk cfg), twovleg_time := 0, flight_time := flight,
         onevleg_time := max_swing_time_s (cf_walk cfg) - 2 * flight, trot_speed := v\<rparr>)"
  | (D) swing where "v < d / (min_swing_time_s (cf_walk cfg) - 2 * max_flight_time_s (cf_walk cfg))"
      "swing = (if v = 0 then max_swing_time_s (cf_walk cfg) else min (max_swing_time_s (cf_walk cfg)) (d / v + 2 * max_flight_time_s (cf_walk cfg)))"
      "CalculateTrot cfg mx d v = Go (trot_default\<lparr>trot_max_speed := d / (min_swing_time_s (cf_walk cfg) - 2 * max_flight_time_s (cf_walk cfg)),
         flight_time := max_flight_time_s (cf_walk cfg), twovleg_time := 0, swing_time := swing,
         onevleg_time := swing - 2 * max_flight_time_s (cf_walk cfg), trot_speed := v\<rparr>)"
  | (E) "d / (min_swing_time_s (cf_walk cfg) - 2 * max_flight_time_s (cf_walk cfg)) \<le> v"
      "CalculateTrot cfg mx d v = Go (trot_default\<lparr>trot_max_speed := d / (min_swing_time_s (cf_walk cfg) - 2 * max_flight_time_s (cf_walk cfg)),
         swing_time := min_swing_time_s (cf_walk cfg), flight_time := max_flight_time_s (cf_walk cfg), twovleg_time := 0,
         onevleg_time := min_swing_time_s (cf_walk cfg) - 2 * max_flight_time_s (cf_walk cfg),
         trot_speed := d / (min_swing_time_s (cf_walk cfg) - 2 * max_flight_time_s (cf_walk cfg))\<rparr>)"
  using assms unfolding CalculateTrot_def Let_def
  by (simp only: if_split not_less) (atomize_elim, auto simp: not_less)

text \<open>The arithmetic of the phases B and C, and of D.\<close>

lemma phase_B:
  fixes d v S W :: real
  assumes "0 \<le> d" "0 < S" "0 \<le> W" "1 / 2 * d / (W + 1 / 2 * S) \<le> v" "v < d / S"
  shows "0 < v" "0 \<le> 1 / 2 * d / v - 1 / 2 * S" "1 / 2 * d / v - 1 / 2 * S \<le> W" "v * (S + 2 * (1 / 2 * d / v - 1 / 2 * S)) = d"
proof -
  have "0 \<le> 1 / 2 * d / (W + 1 / 2 * S)" using assms by (intro divide_nonneg_pos) auto
  then have "d \<noteq> 0" using assms by auto
  then have "0 < 1 / 2 * d / (W + 1 / 2 * S)" using assms by (intro divide_pos_pos) auto
  then show v: "0 < v" using assms(4) by linarith
  show "0 \<le> 1 / 2 * d / v - 1 / 2 * S" using assms(2,5) v by (simp add: field_simps)
  show "1 / 2 * d / v - 1 / 2 * S \<le> W" using assms(2-4) v by (simp add: field_simps)
  show "v * (S + 2 * (1 / 2 * d / v - 1 / 2 * S)) = d" using v by (simp add: field_simps)
qed

lemma phase_C:
  fixes d v S F :: real
  assumes "0 \<le> d" "0 \<le> v" "0 < S - 2 * F" "0 \<le> F" "d / S \<le> v" "v < d / (S - 2 * F)"
  shows "0 \<le> 1 / 2 * S - d / (2 * v)" "1 / 2 * S - d / (2 * v) \<le> F" "0 < S - 2 * (1 / 2 * S - d / (2 * v))"
    "v * (S - 2 * (1 / 2 * S - d / (2 * v))) = d"
proof -
  have "d \<noteq> 0" using assms by auto
  then have d: "0 < d" using assms(1) by simp
  have "0 < d / S" using d assms(3,4) by simp
  then have v: "0 < v" using assms(5) by linarith
  show "0 \<le> 1 / 2 * S - d / (2 * v)" using assms(3-5) v by (simp add: field_simps)
  show "1 / 2 * S - d / (2 * v) \<le> F" using assms(3,4,6) v by (simp add: field_simps)
  show "0 < S - 2 * (1 / 2 * S - d / (2 * v))" "v * (S - 2 * (1 / 2 * S - d / (2 * v))) = d" using d v by (simp_all add: field_simps)
qed

lemma phase_D:
  fixes d v S M F :: real
  assumes "0 \<le> d" "0 \<le> v" "0 < M - 2 * F" "M \<le> S" "0 \<le> F" "v < d / (M - 2 * F)"
    and s: "s = (if v = 0 then S else min S (d / v + 2 * F))"
  shows "M \<le> s" "s \<le> S" "0 < s - 2 * F" "v * (s - 2 * F) \<le> d"
proof -
  have "M \<le> d / v + 2 * F" "v * (d / v) = d" if "v \<noteq> 0" using assms(2,3,6) that by (simp_all add: field_simps)
  then show M: "M \<le> s" using assms(4) by (auto simp: s)
  show "s \<le> S" by (simp add: s)
  show "0 < s - 2 * F" using M assms(3) by linarith
  show "v * (s - 2 * F) \<le> d"
  proof (cases "v = 0")
    case False
    then have "v * (s - 2 * F) \<le> v * (d / v)" using assms(2) by (intro mult_left_mono) (auto simp: s)
    then show ?thesis using False by simp
  qed (simp add: assms(1))
qed

lemma CalculateTrot_timing:
  assumes "trot_config cfg" "0 \<le> d" "0 \<le> v"
  shows "\<exists>t. CalculateTrot cfg mx d v = Go t \<and> trot_ok cfg t \<and> trot_speed t = min v (trot_max_speed t) \<and>
    trot_speed t * (onevleg_time t + 2 * twovleg_time t) \<le> d"
proof -
  let ?S = "max_swing_time_s (cf_walk cfg)" let ?M = "min_swing_time_s (cf_walk cfg)" let ?F = "max_flight_time_s (cf_walk cfg)"
    and ?W = "max_twovleg_time_s (cf_walk cfg)"
  have c: "0 \<le> ?F" "0 \<le> ?W" "0 < ?M - 2 * ?F" "?M \<le> ?S" using assms(1) by (simp_all add: trot_config_def)
  have s: "0 < ?S" "0 < ?S - 2 * ?F" using c by linarith+
  have top: "v \<le> d / (?M - 2 * ?F)" if "v < d / k" "?M - 2 * ?F \<le> k" for k
    using that divide_left_mono [OF that(2) assms(2)] c(3) by (smt (verit) mult_pos_pos)
  show ?thesis
  proof (cases rule: CalculateTrot_cases [OF assms(2,3), of cfg mx, case_names A B C D E])
    case A
    have k: "1 / 2 * d / (?W + 1 / 2 * ?S) = d / (2 * ?W + ?S)" using c s by (simp add: field_simps)
    have "v * (?S + 2 * ?W) \<le> d" using A(1) c s by (simp add: field_simps)
    moreover have "v \<le> d / (?M - 2 * ?F)" using top [of "2 * ?W + ?S"] A(1) c s unfolding k by auto
    ultimately show ?thesis using A(2) c s by (simp add: trot_ok_def trot_default_def)
  next
    case B
    note b = phase_B [OF assms(2) s(1) c(2) B(1,2)]
    have "v \<le> d / (?M - 2 * ?F)" using top [OF B(2)] c by auto
    then show ?thesis using B(3) b c s by (simp add: trot_ok_def trot_default_def)
  next
    case (C flight)
    note b = phase_C [OF assms(2,3) s(2) c(1) C(1,2)]
    have "v \<le> d / (?M - 2 * ?F)" using top [OF C(2)] c by auto
    then show ?thesis using C(4) b [folded C(3)] c s by (simp add: trot_ok_def trot_default_def)
  next
    case (D swing)
    note b = phase_D [OF assms(2,3) c(3,4,1) D(1,2)]
    show ?thesis using D(1,3) b c s by (simp add: trot_ok_def trot_default_def)
  next
    case E
    then show ?thesis using c s by (simp add: trot_ok_def trot_default_def)
  qed
qed

text \<open>The timing of the trot. For every speed and distance the calculation gives a gait: its times are between their configured
  bounds, none is negative and the time on one pair of legs is never zero, so that the divisions by it are safe; a swing is the time on the other pair with
  two flights around it, and there is either a flight or a time on both pairs. The speed is the one asked for, or the
  largest the gait can reach, and the ground that passes under a leg while it stands is within the distance a leg can travel.\<close>

theorem trot_timing:
  assumes "trot_config cfg" "0 \<le> d" "0 \<le> v"
  shows "\<exists>t. CalculateTrot cfg mx d v = Go t \<and> trot_ok cfg t \<and> trot_speed t = min v (trot_max_speed t) \<and>
    trot_speed t * (onevleg_time t + 2 * twovleg_time t) \<le> d"
  using assms by (rule CalculateTrot_timing)

section \<open>The pairs of legs\<close>

definition pairs :: "('g, 'p) quad \<Rightarrow> (VLegMode \<times> real) list" where
  "pairs s = map (\<lambda>v. (vl_mode v, swing_elapsed_s v)) (vlegs (q_walk s))"

definition walk_view :: "('g, 'p) quad \<Rightarrow> (VLegMode \<times> real) list \<times> nat \<times> real \<times> nat \<times> nat \<times> trot" where
  "walk_view s = (pairs s, next_step_vleg (q_walk s), stance_elapsed_s (q_walk s), length (wk_legs (q_walk s)), length (swings s),
     wk_trot (q_walk s))"

definition walk_shape :: "('g, 'p) quad \<Rightarrow> bool" where
  "walk_shape s \<longleftrightarrow> length (vlegs (q_walk s)) = 2 \<and> next_step_vleg (q_walk s) < 2 \<and> length (wk_legs (q_walk s)) = 4 \<and> length (swings s) = 4"

lemma count_stance_pairs: "count_stance s = length (filter (\<lambda>p. fst p = kStance) (pairs s))"
  by (simp add: count_stance_def pairs_def filter_map o_def)

lemma pair_at: "k < length (vlegs (q_walk s)) \<Longrightarrow> pairs s ! k = (vl_mode (get_vleg k s), swing_elapsed_s (get_vleg k s))"
  by (simp add: pairs_def get_vleg_def)

lemma walk_view_eq:
  assumes "walk_view s' = walk_view s"
  shows "pairs s' = pairs s" "next_step_vleg (q_walk s') = next_step_vleg (q_walk s)"
    "stance_elapsed_s (q_walk s') = stance_elapsed_s (q_walk s)" "get_trot s' = get_trot s" "count_stance s' = count_stance s"
    "walk_shape s' = walk_shape s" "all_stance s' = all_stance s"
proof -
  have "length (vlegs (q_walk s')) = length (vlegs (q_walk s))" using assms map_eq_imp_length_eq by (fastforce simp: walk_view_def pairs_def)
  then show "pairs s' = pairs s" "next_step_vleg (q_walk s') = next_step_vleg (q_walk s)"
    "stance_elapsed_s (q_walk s') = stance_elapsed_s (q_walk s)" "get_trot s' = get_trot s" "count_stance s' = count_stance s"
    "walk_shape s' = walk_shape s" "all_stance s' = all_stance s"
    using assms by (simp_all add: walk_view_def get_trot_def count_stance_pairs walk_shape_def all_stance_def)
qed

lemma pairs_set_vleg:
  assumes "\<And>v. (vl_mode (f v), swing_elapsed_s (f v)) = (vl_mode v, swing_elapsed_s v)"
  shows "walk_view (set_vleg k f s) = walk_view s"
proof -
  let ?h = "\<lambda>v. (vl_mode v, swing_elapsed_s v)" let ?xs = "vlegs (q_walk s)"
  have "map ?h (?xs[k := f (?xs ! k)]) = map ?h ?xs"
  proof (cases "k < length ?xs")
    case True
    then have "map ?h (?xs[k := f (?xs ! k)]) = (map ?h ?xs)[k := map ?h ?xs ! k]" by (simp add: map_update assms)
    then show ?thesis using True by (simp only: list_update_id)
  qed (simp add: list_update_beyond)
  then show ?thesis by (simp add: walk_view_def pairs_def set_vleg_def set_walk_def)
qed

lemma walk_view_simps [simp]:
  "walk_view (set_wleg i h s) = walk_view s" "walk_view (s\<lparr>desired_v := v\<rparr>) = walk_view s"
  "walk_view (s\<lparr>desired_w := u\<rparr>) = walk_view s" "walk_view (s\<lparr>desired_v := v, desired_w := u\<rparr>) = walk_view s"
  "walk_view (s\<lparr>swings := (swings s)[i := w]\<rparr>) = walk_view s"
  by (simp_all add: walk_view_def pairs_def set_wleg_def set_walk_def)

lemma UpdateGlobal_pairs:
  "pairs (UpdateGlobal cfg s) = pairs s" "walk_shape (UpdateGlobal cfg s) = walk_shape s"
  "\<not> all_stance s \<Longrightarrow> stance_elapsed_s (q_walk (UpdateGlobal cfg s)) = 0"
proof -
  obtain t where t: "UpdateGlobal cfg s = set_walk (\<lambda>w. w\<lparr>stance_elapsed_s := (if all_stance t then stance_elapsed_s w + period_s cfg else 0)\<rparr>) t"
    "walk_view t = walk_view s"
    by (simp add: UpdateGlobal_def Let_def limit_desired_def UpdateCommandedR_def case_prod_beta)
  from walk_view_eq [OF t(2)] show "pairs (UpdateGlobal cfg s) = pairs s" "walk_shape (UpdateGlobal cfg s) = walk_shape s"
    "\<not> all_stance s \<Longrightarrow> stance_elapsed_s (q_walk (UpdateGlobal cfg s)) = 0"
    by (simp_all add: t(1) pairs_def walk_shape_def set_walk_def)
qed

lemma UpdateSwingTime_view: "UpdateSwingTime legs s = Go s' \<Longrightarrow> walk_view s' = walk_view s"
  by (auto simp: UpdateSwingTime_def vleg_remaining_def pairs_set_vleg split: if_splits)

lemma leg_invalid_times_view: "leg_invalid_times geo cfg legs s = Go s' \<Longrightarrow> walk_view s' = walk_view s"
  by (induction legs arbitrary: s) (auto simp: rbind_Go Let_def split: if_splits)

lemma UpdateInvalidTime_view: "UpdateInvalidTime geo cfg legs s = Go s' \<Longrightarrow> walk_view s' = walk_view s"
  by (auto simp: UpdateInvalidTime_def rbind_Go vleg_invalid_def pairs_set_vleg dest!: leg_invalid_times_view)

lemma leg_travel_distances_view: "leg_travel_distances geo cfg ids s = Go s' \<Longrightarrow> walk_view s' = walk_view s"
  by (induction ids arbitrary: s) (auto simp: rbind_Go)

lemma UpdateTravelDistance_view:
  assumes "UpdateTravelDistance geo cfg s = Go s'"
  shows "walk_view s' = walk_view s"
proof -
  from assms obtain t where t: "leg_travel_distances geo cfg [0, 1, 2, 3] s = Go t"
    "s' = (case min_list_double PosInf (map wl_travel_distance (wk_legs (q_walk t))) of
             Fin d \<Rightarrow> set_walk (\<lambda>w. w\<lparr>travel_distance := d\<rparr>) t | _ \<Rightarrow> t)"
    unfolding UpdateTravelDistance_def rbind_Go by (auto simp del: leg_travel_distances.simps split del: double.split)
  from leg_travel_distances_view [OF t(1)] show ?thesis
    unfolding t(2) by (cases "min_list_double PosInf (map wl_travel_distance (wk_legs (q_walk t)))")
      (simp_all add: walk_view_def pairs_def set_walk_def)
qed

text \<open>What one vleg does to the pairs.\<close>

lemma set_vleg_pairs:
  assumes "k < length (vlegs (q_walk s))"
  shows "pairs (set_vleg k f s) = (pairs s)[k := (vl_mode (f (get_vleg k s)), swing_elapsed_s (f (get_vleg k s)))]"
  using assms by (simp add: pairs_def set_vleg_def set_walk_def get_vleg_def map_update)

lemma set_vleg_shape [simp]:
  "walk_shape (set_vleg k f s) = walk_shape s" "get_trot (set_vleg k f s) = get_trot s"
  "next_step_vleg (q_walk (set_vleg k f s)) = next_step_vleg (q_walk s)"
  by (simp_all add: walk_shape_def set_vleg_def set_walk_def get_trot_def)

lemma lift_leg_view: "lift_leg cfg p t i (legs, s) = Go (legs', s') \<Longrightarrow> walk_view s' = walk_view s"
  by (auto simp: lift_leg_def rbind_Go Let_def)

lemma LiftVleg_pairs:
  assumes "LiftVleg cfg legs k s = Go (legs', s')" "walk_shape s" "k < 2"
  shows "pairs s' = (pairs s)[k := (kSwing, 0)]" "walk_shape s'" "get_trot s' = get_trot s"
proof -
  define a where "a = set_vleg k (\<lambda>v. v\<lparr>swing_elapsed_s := 0, vl_mode := kSwing\<rparr>) (set_walk (\<lambda>w. w\<lparr>last_swing_v_R := desired_v s\<rparr>) s)"
  have v: "walk_view s' = walk_view a"
    using assms(1) unfolding LiftVleg_def Let_def rbind_Go a_def [symmetric]
    by (auto simp: pairs_set_vleg dest!: lift_leg_view)
  have a: "pairs a = (pairs s)[k := (kSwing, 0)]" "walk_shape a = walk_shape s" "get_trot a = get_trot s"
    using assms(2,3) by (simp_all add: a_def pairs_def set_vleg_def set_walk_def walk_shape_def get_trot_def map_update)
  from walk_view_eq [OF v] a assms(2) show "pairs s' = (pairs s)[k := (kSwing, 0)]" "walk_shape s'" "get_trot s' = get_trot s" by simp_all
qed

lemma flight_lift_stance: "flight_lift ks s = LiftIdx k \<Longrightarrow> k \<in> set ks \<and> vl_mode (get_vleg k s) = kStance" "flight_lift ks s \<noteq> LiftNext"
  by (induction ks) (auto simp: Let_def split: if_splits)

lemma scan_vlegs_idx:
  "smallest_vleg_idx (scan_vlegs ks s a) = Some k \<Longrightarrow> k \<in> set ks \<or> smallest_vleg_idx a = Some k"
proof (induction ks arbitrary: a)
  case (Cons j ks)
  show ?case
  proof (cases "vl_mode (get_vleg j s)")
    case kSwing
    then show ?thesis using Cons by simp
  next
    case kStance
    then show ?thesis using Cons.prems Cons.IH by (auto simp: Let_def split: if_splits dest!: Cons.IH)
  qed
qed simp

lemma invalid_lift_idx: "invalid_lift cfg s = LiftIdx k \<Longrightarrow> k < 2"
  by (auto simp: invalid_lift_def lift_scan_def Let_def simp del: scan_vlegs.simps dest!: scan_vlegs_idx split: if_splits option.splits)

lemma two_in_stance:
  assumes "length (vlegs (q_walk s)) = 2" "count_stance s = 2" "k < 2"
  shows "vl_mode (get_vleg k s) = kStance"
proof -
  obtain a b where v: "vlegs (q_walk s) = [a, b]" using assms(1) by (auto simp: numeral_2_eq_2 length_Suc_conv)
  have "vl_mode a = kStance" "vl_mode b = kStance" using assms(2) by (auto simp: count_stance_def v split: if_splits)
  then show ?thesis using assms(3) by (auto simp: get_vleg_def v less_2_cases_iff)
qed

text \<open>The pair that is lifted stands.\<close>

lemma lifted_stands:
  assumes "walk_shape s" "trot_ok cfg (get_trot s)" "0 < min_invalid_time_s (cf_walk cfg)" "0 \<le> max_stance_s (cf_walk cfg)"
    and "\<not> all_stance s \<longrightarrow> stance_elapsed_s (q_walk s) = 0"
    and "\<not> (count_stance s \<le> 1 \<and> flight_time (get_trot s) \<le> 0)" "vleg_to_lift cfg s \<noteq> NoLift"
    and k: "k = (case vleg_to_lift cfg s of LiftIdx k \<Rightarrow> k | _ \<Rightarrow> next_step_vleg (q_walk s))"
  shows "k < 2 \<and> vl_mode (get_vleg k s) = kStance"
proof -
  have two: "k < 2"
    using assms(1,7) flight_lift_stance [of "[0, 1]" s] invalid_lift_idx [of cfg s] unfolding k walk_shape_def vleg_to_lift_def Let_def
    by (auto split: lift.splits if_splits simp del: flight_lift.simps)
  show ?thesis
  proof (cases "all_stance s")
    case True
    then show ?thesis using two assms(1) by (intro conjI two_in_stance) (simp_all add: all_stance_def walk_shape_def)
  next
    case False
    have "count_stance s \<le> length (vlegs (q_walk s))" by (simp add: count_stance_def)
    with False assms(1,6) have f: "0 < flight_time (get_trot s)" by (simp add: all_stance_def walk_shape_def)
    then have "invalid_lift cfg s = NoLift" using assms(2,3) by (simp add: invalid_lift_def trot_ok_def Let_def)
    then have "vleg_to_lift cfg s = flight_lift [0, 1] s"
      using f assms(4,5) False by (simp add: vleg_to_lift_def Let_def del: flight_lift.simps)
    then show ?thesis using two flight_lift_stance [of "[0, 1]" s] assms(7) unfolding k by (auto split: lift.splits simp del: flight_lift.simps)
  qed
qed

lemma set_walk_next:
  "pairs (set_walk (\<lambda>w. w\<lparr>next_step_vleg := n\<rparr>) s) = pairs s" "get_trot (set_walk (\<lambda>w. w\<lparr>next_step_vleg := n\<rparr>) s) = get_trot s"
  "n < 2 \<Longrightarrow> walk_shape s \<Longrightarrow> walk_shape (set_walk (\<lambda>w. w\<lparr>next_step_vleg := n\<rparr>) s)"
  by (simp_all add: pairs_def get_trot_def walk_shape_def set_walk_def)

lemma MaybeLift_pairs:
  assumes "MaybeLift cfg legs s = Go (legs', s')" "walk_shape s" "trot_ok cfg (get_trot s)"
    and "0 < min_invalid_time_s (cf_walk cfg)" "0 \<le> max_stance_s (cf_walk cfg)" "\<not> all_stance s \<longrightarrow> stance_elapsed_s (q_walk s) = 0"
  obtains (Same) "s' = s" | (Lift) k where "k < 2" "fst (pairs s ! k) = kStance" "pairs s' = (pairs s)[k := (kSwing, 0)]" "walk_shape s'"
    "get_trot s' = get_trot s" "count_stance s = 2 \<or> 0 < flight_time (get_trot s)"
proof (cases "s' = s")
  case False
  define k where "k = (case vleg_to_lift cfg s of LiftIdx k \<Rightarrow> k | _ \<Rightarrow> next_step_vleg (q_walk s))"
  from assms(1) False obtain l t where c: "\<not> (count_stance s \<le> 1 \<and> flight_time (get_trot s) \<le> 0)" "vleg_to_lift cfg s \<noteq> NoLift"
    "LiftVleg cfg legs k s = Go (l, t)" "s' = set_walk (\<lambda>w. w\<lparr>next_step_vleg := (k + 1) mod 2\<rparr>) t"
    unfolding MaybeLift_def Let_def k_def [symmetric] by (auto simp: rbind_Go split: if_splits)
  have k: "k < 2" "vl_mode (get_vleg k s) = kStance" using lifted_stands [OF assms(2-6) c(1,2) k_def] by simp_all
  note p = LiftVleg_pairs [OF c(3) assms(2) k(1)]
  have n: "count_stance s \<le> 2" using assms(2) length_filter_le [of _ "vlegs (q_walk s)"] unfolding count_stance_def walk_shape_def by (metis)
  show thesis
  proof (rule Lift)
    show "fst (pairs s ! k) = kStance" using k assms(2) by (simp add: pair_at walk_shape_def)
    show "count_stance s = 2 \<or> 0 < flight_time (get_trot s)" using c(1) n by linarith
  qed (use k p in \<open>simp_all add: c(4) set_walk_next\<close>)
qed

text \<open>One cycle of the clock of a pair.\<close>

fun clock_pair :: "config \<Rightarrow> trot \<Rightarrow> VLegMode \<times> real \<Rightarrow> VLegMode \<times> real" where
  "clock_pair cfg t (kSwing, e) = (if e + period_s cfg > swing_time t then (kStance, 0) else (kSwing, e + period_s cfg))"
| "clock_pair cfg t (kStance, e) = (kStance, 0)"

lemma PropagateStance_view: "PropagateStance cfg k i st leg s = Go (leg', s') \<Longrightarrow> walk_view s' = walk_view s"
  by (auto simp: PropagateStance_def latch_leg_def Let_def split: if_splits prod.splits)

lemma propagate_leg_view: "propagate_leg geo cfg k i (legs, s) = Go (legs', s') \<Longrightarrow> walk_view s' = walk_view s"
  by (auto simp: propagate_leg_def PropagateSwing_def Let_def rbind_Go split: if_splits prod.splits dest!: PropagateStance_view)

lemma land_leg_view: "land_leg cfg i (legs, s) = Go (legs', s') \<Longrightarrow> walk_view s' = walk_view s"
  by (auto simp: land_leg_def rbind_Go)

lemma vleg_clock_pairs:
  assumes "walk_shape s" "k < 2"
  shows "pairs (vleg_clock cfg k s) = (pairs s)[k := (case pairs s ! k of (kSwing, e) \<Rightarrow> (kSwing, e + period_s cfg) | (kStance, _) \<Rightarrow> (kStance, 0))]"
    "walk_shape (vleg_clock cfg k s)" "get_trot (vleg_clock cfg k s) = get_trot s"
  using assms by (simp_all add: vleg_clock_def set_vleg_pairs walk_shape_def pair_at split: VLegMode.splits)
    (simp_all add: walk_shape_def set_vleg_def set_walk_def)

lemma idle_count_view: "walk_view (set_walk (\<lambda>w. w\<lparr>idle_count := n w\<rparr>) s) = walk_view s"
  by (simp add: walk_view_def pairs_def set_walk_def)

lemma land_vleg_pairs:
  assumes "land_vleg cfg k (legs, s) = Go (legs', s')" "walk_shape s" "k < 2"
  shows "pairs s' = (if snd (pairs s ! k) > swing_time (get_trot s) then (pairs s)[k := (kStance, 0)] else pairs s)"
    "walk_shape s'" "get_trot s' = get_trot s"
proof -
  let ?t = "set_vleg k (\<lambda>v. v\<lparr>vl_mode := kStance, swing_elapsed_s := 0\<rparr>) s"
  have e: "snd (pairs s ! k) = swing_elapsed_s (get_vleg k s)" using assms(2,3) by (simp add: pair_at walk_shape_def)
  have v: "walk_view s' = walk_view (if snd (pairs s ! k) > swing_time (get_trot s) then ?t else s)"
    using assms(1) unfolding land_vleg_def Let_def e
    by (auto simp: rbind_Go idle_count_view dest!: land_leg_view split: if_splits)
  have t: "pairs ?t = (pairs s)[k := (kStance, 0)]" using assms(2,3) by (simp add: set_vleg_pairs walk_shape_def)
  from walk_view_eq [OF v] t assms(2) show
    "pairs s' = (if snd (pairs s ! k) > swing_time (get_trot s) then (pairs s)[k := (kStance, 0)] else pairs s)"
    "walk_shape s'" "get_trot s' = get_trot s" by simp_all
qed

lemma propagate_vleg_pairs:
  assumes "propagate_vleg geo cfg k (legs, s) = Go (legs', s')" "walk_shape s" "k < 2" "0 \<le> swing_time (get_trot s)"
  shows "pairs s' = (pairs s)[k := clock_pair cfg (get_trot s) (pairs s ! k)]" "walk_shape s'" "get_trot s' = get_trot s"
proof -
  from assms(1) obtain l1 s1 l2 s2 where
    r: "propagate_leg geo cfg k (kVlegMapping k ! 0) (legs, vleg_clock cfg k s) = Go (l1, s1)"
      "propagate_leg geo cfg k (kVlegMapping k ! 1) (l1, s1) = Go (l2, s2)" "land_vleg cfg k (l2, s2) = Go (legs', s')"
    by (auto simp: propagate_vleg_def rbind_Go)
  note c = vleg_clock_pairs [OF assms(2,3), of cfg]
  have v: "walk_view s2 = walk_view (vleg_clock cfg k s)" using propagate_leg_view [OF r(1)] propagate_leg_view [OF r(2)] by simp
  have s2: "walk_shape s2" using walk_view_eq(6) [OF v] c(2) by simp
  note l = land_vleg_pairs [OF r(3) s2 assms(3)]
  obtain m e where me: "pairs s ! k = (m, e)" by fastforce
  have n: "length (pairs s) = 2" using assms(2) by (simp add: pairs_def walk_shape_def)
  show "pairs s' = (pairs s)[k := clock_pair cfg (get_trot s) (pairs s ! k)]"
    using l(1) assms(3,4) n unfolding walk_view_eq(1,4) [OF v] c by (cases m) (simp_all add: me)
  show "walk_shape s'" "get_trot s' = get_trot s" using l(2,3) c(3) walk_view_eq(4) [OF v] by simp_all
qed

lemma PropagateLegs_pairs:
  assumes "PropagateLegs geo cfg (legs, s) = Go (legs', s')" "walk_shape s" "0 \<le> swing_time (get_trot s)"
  shows "pairs s' = map (clock_pair cfg (get_trot s)) (pairs s)" "walk_shape s'" "get_trot s' = get_trot s"
proof -
  from assms(1) obtain l1 s1 where r: "propagate_vleg geo cfg 0 (legs, s) = Go (l1, s1)" "propagate_vleg geo cfg 1 (l1, s1) = Go (legs', s')"
    by (auto simp: PropagateLegs_def rbind_Go)
  note a = propagate_vleg_pairs [OF r(1) assms(2) _ assms(3), simplified]
  have "0 \<le> swing_time (get_trot s1)" using a(3) assms(3) by simp
  note b = propagate_vleg_pairs [OF r(2) a(2) _ this, simplified]
  obtain x y where "pairs s = [x, y]" using assms(2) by (auto simp: pairs_def walk_shape_def numeral_2_eq_2 length_Suc_conv)
  then show "pairs s' = map (clock_pair cfg (get_trot s)) (pairs s)" "walk_shape s'" "get_trot s' = get_trot s"
    using a b by simp_all
qed

section \<open>One cycle of the gait\<close>

lemma UpdateTrot_ok:
  assumes "UpdateTrot cfg s = Go s'" "trot_config cfg"
  shows "trot_ok cfg (get_trot s')" "pairs s' = pairs s" "walk_shape s' = walk_shape s" "all_stance s' = all_stance s"
    "stance_elapsed_s (q_walk s') = stance_elapsed_s (q_walk s)"
proof -
  from assms(1) obtain t where t: "CalculateTrot cfg (maximize_flight (walk_command s)) (travel_ratio (cf_walk cfg) * travel_distance (q_walk s))
      (vnorm (desired_v s)) = Go t" "s' = set_walk (\<lambda>w. w\<lparr>wk_trot := t\<rparr>) s"
    by (auto simp: UpdateTrot_def rbind_Go)
  have "0 \<le> travel_ratio (cf_walk cfg) * travel_distance (q_walk s)"
    using t(1) by (auto simp: CalculateTrot_def Let_def split: if_splits)
  from CalculateTrot_timing [OF assms(2) this vnorm_ge0, of "maximize_flight (walk_command s)" "desired_v s"] t(1)
  show "trot_ok cfg (get_trot s')" unfolding t(2) by (auto simp: get_trot_def set_walk_def)
  show "pairs s' = pairs s" "walk_shape s' = walk_shape s" "stance_elapsed_s (q_walk s') = stance_elapsed_s (q_walk s)"
    by (simp_all add: t(2) pairs_def walk_shape_def set_walk_def)
  then show "all_stance s' = all_stance s" by (simp add: all_stance_def count_stance_pairs)
qed

text \<open>A cycle: the timing is calculated, a standing pair is lifted or none, and the clocks run.\<close>

lemma QuadrupedTrot_pairs:
  assumes "QuadrupedTrot geo cfg legs s = Go (legs', p, s')" "walk_shape s" "trot_config cfg"
    and "0 < min_invalid_time_s (cf_walk cfg)" "0 \<le> max_stance_s (cf_walk cfg)"
  obtains ps where "walk_shape s'" "trot_ok cfg (get_trot s')" "pairs s' = map (clock_pair cfg (get_trot s')) ps"
    "ps = pairs s \<or> (\<exists>k < 2. fst (pairs s ! k) = kStance \<and> ps = (pairs s)[k := (kSwing, 0)] \<and>
       (count_stance s = 2 \<or> 0 < flight_time (get_trot s')))"
proof -
  from assms(1) obtain a b c d e l1 l2 where
    r: "UpdateSwingTime legs (UpdateGlobal cfg s) = Go a" "UpdateInvalidTime geo cfg legs a = Go b"
    "UpdateTravelDistance geo cfg b = Go c" "UpdateTrot cfg c = Go d" "MaybeLift cfg legs d = Go (l1, e)"
    "PropagateLegs geo cfg (l1, e) = Go (l2, s')"
    by (auto simp: QuadrupedTrot_def rbind_Go)
  have v: "walk_view c = walk_view (UpdateGlobal cfg s)"
    using UpdateSwingTime_view [OF r(1)] UpdateInvalidTime_view [OF r(2)] UpdateTravelDistance_view [OF r(3)] by simp
  note t = UpdateTrot_ok [OF r(4) assms(3)]
  have p: "pairs d = pairs s" "walk_shape d" using t(2,3) walk_view_eq [OF v] UpdateGlobal_pairs(1,2) [where cfg = cfg and s = s] assms(2) by simp_all
  then have n: "count_stance d = count_stance s" "all_stance d = all_stance s" by (simp_all add: count_stance_pairs all_stance_def)
  have st: "\<not> all_stance d \<longrightarrow> stance_elapsed_s (q_walk d) = 0"
    using t(5) walk_view_eq(3) [OF v] UpdateGlobal_pairs(3) [where cfg = cfg and s = s] n(2) by simp
  have sw: "0 \<le> swing_time (get_trot d)" using t(1) by (auto simp: trot_ok_def)
  show thesis
  proof (cases rule: MaybeLift_pairs [OF r(5) p(2) t(1) assms(4,5) st, case_names Same Lift])
    case Same
    note g = PropagateLegs_pairs [OF r(6) [unfolded Same] p(2) sw]
    show thesis by (rule that [of "pairs s"]) (use g t(1) p in simp_all)
  next
    case (Lift k)
    have "0 \<le> swing_time (get_trot e)" using sw Lift(5) by simp
    note g = PropagateLegs_pairs [OF r(6) Lift(4) this]
    show thesis by (rule that [of "pairs e"]) (use g t(1) p n Lift in auto)
  qed
qed


end
