(* ===== verification/QuadrupedSafety.thy ===== *)
theory QuadrupedSafety
  imports QuadrupedModes TrotProps
begin

text \<open>
  Correctness of the quadruped controller: what the servos are told in each mode, which mode follows which,
  that faults stop the robot, that the loops over the phases end, and the invariant of all reachable states.
\<close>

section \<open>Frames\<close>

text \<open>The part of the state that sending commands leaves alone.\<close>

definition core :: "('g, 'p) quad \<Rightarrow> _" where
  "core s = (q_mode s, mode_start s, q_fault s, joints s, legs_B s, servos s, current_command s, q_stand_up s, q_jump s,
     q_backflip s, performed_rezero s, robot_voltage s)"

lemma ControlJoints_core [simp]: "core (ControlJoints cfg js s) = core s"
  by (simp add: core_def ControlJoints_def EmitControl_def)

lemma ControlLegs_B_core: "ControlLegs_B geo cfg legs s = Go s' \<Longrightarrow> core s' = core s"
  by (auto simp: ControlLegs_B_def Let_def rbind_Go) (simp add: core_def)

lemma ControlLegs_R_core: "ControlLegs_R geo cfg legs p s = Go s' \<Longrightarrow> core s' = core s"
  unfolding ControlLegs_R_def Let_def by (drule ControlLegs_B_core) (simp add: core_def)

lemma all_leg_joints_no_spin: "all_leg_joints geo cfg n t s legs \<noteq> Spin"
  by (induction legs)
    (auto simp: rbind_Spin leg_joints_def GetLeg_def GetLegState_B_def split: option.splits if_splits)

lemma ControlLegs_R_no_spin: "ControlLegs_R geo cfg legs p s \<noteq> Spin"
  by (simp add: ControlLegs_R_def ControlLegs_B_def Let_def rbind_Spin all_leg_joints_no_spin)

lemma update_leg_no_spin [simp]: "update_leg i f legs \<noteq> Spin"
  by (simp add: update_leg_def split: option.splits)

lemma move_legs_no_spin: "move_legs cfg v a m1 m2 ts dl \<noteq> Spin"
  by (induction ts arbitrary: dl) (auto simp: rbind_Spin update_leg_def split: option.splits)

lemma height_targets_no_spin: "height_targets ids h legs \<noteq> Spin"
  by (induction ids) (auto simp: rbind_Spin update_leg_def split: option.splits)

lemma MoveLegs_no_spin [simp]:
  "MoveLegsFixedSpeed cfg legs v ts acc m1 m2 \<noteq> Spin" "MoveLegsFixedSpeedZ cfg legs v h acc \<noteq> Spin"
  by (auto simp: MoveLegsFixedSpeed_def MoveLegsFixedSpeedZ_def Let_def rbind_Spin move_legs_no_spin height_targets_no_spin
      split: option.splits)

lemma DoControl_Rest_no_spin: "DoControl_Rest geo cfg s \<noteq> Spin"
  by (auto simp: DoControl_Rest_def Let_def rbind_Spin ControlLegs_R_no_spin)

section \<open>The loops over the phases end\<close>

text \<open>A machine whose phases go down a rank, from the states \<open>good\<close>.\<close>

locale phase_machine =
  fixes phase :: "'s \<Rightarrow> 'm" and step :: "'s \<Rightarrow> 's action run" and good :: "'s \<Rightarrow> bool" and rank :: "'s \<Rightarrow> nat"
  assumes step_again: "good s \<Longrightarrow> step s = Go (Again s') \<Longrightarrow> good s' \<and> rank s' < rank s \<and> phase s' \<noteq> phase s"
    and step_no_spin: "step s \<noteq> Spin"
begin

lemma loop_no_spin: "good s \<Longrightarrow> rank s < fuel \<Longrightarrow> phase_loop fuel phase step s \<noteq> Spin"
proof (induction fuel arbitrary: s)
  case (Suc fuel)
  show ?case
  proof (cases "step s")
    case (Go a)
    show ?thesis
    proof (cases a)
      case (Again s')
      with Go Suc.prems step_again [of s s'] show ?thesis using Suc.IH [of s'] by simp
    qed (simp_all add: Go)
  qed (use step_no_spin [of s] in simp_all)
qed simp

lemma loop_fuel: "good s \<Longrightarrow> rank s < fuel \<Longrightarrow> phase_loop (fuel + k) phase step s = phase_loop fuel phase step s"
proof (induction fuel arbitrary: s)
  case (Suc fuel)
  show ?case
  proof (cases "step s")
    case (Go a)
    show ?thesis
    proof (cases a)
      case (Again s')
      with Go Suc.prems step_again [of s s'] show ?thesis using Suc.IH [of s'] by simp
    qed (simp_all add: Go)
  qed simp_all
qed simp

end

lemma loop_result: "phase_loop fuel phase step s = Go a \<Longrightarrow> a \<noteq> Again s'"
proof (induction fuel arbitrary: s)
  case (Suc fuel)
  from Suc.prems obtain b where "step s = Go b" by (auto simp: rbind_Go)
  with Suc show ?case by (cases b) (auto split: if_splits)
qed simp

section \<open>Jumping\<close>

lemma set_jump_core [simp]:
  "legs_B (set_jump f s) = legs_B s" "current_command (set_jump f s) = current_command s"
  "q_jump (set_jump f s) = f (q_jump s)" "q_mode (set_jump f s) = q_mode s"
  by (simp_all add: set_jump_def)

lemma legs_B_measures:
  "legs_B s' = legs_B s \<Longrightarrow> touchdown cfg s' = touchdown cfg s \<and> landing_done cfg s' = landing_done cfg s"
  by (simp add: touchdown_def landing_done_def leg_heights_def leg_speeds_def)

text \<open>A jump that is repeated can start again in the same cycle. It does not go around for ever unless the legs
  measure a touch-down and a finished landing at once.\<close>

definition jump_ends :: "config \<Rightarrow> ('g, 'p) quad \<Rightarrow> bool" where
  "jump_ends cfg s \<longleftrightarrow>
     \<not> (touchdown cfg s \<and> landing_done cfg s \<and> jump_repeat (ju_command (q_jump s)) \<and> cmd_mode (current_command s) = kJump)"

definition jump_rank :: "config \<Rightarrow> ('g, 'p) quad \<Rightarrow> nat" where
  "jump_rank cfg s =
     (case ju_mode (q_jump s) of
        kLowering \<Rightarrow> 4 | kPushing \<Rightarrow> 3 | kRetracting \<Rightarrow> 2 | kFalling \<Rightarrow> 1
      | kLanding \<Rightarrow> if touchdown cfg s then 0 else 4 | kJumpDone \<Rightarrow> 0)"

definition jump_next :: "config \<Rightarrow> ('g, 'p) quad \<Rightarrow> ('g, 'p) quad \<Rightarrow> bool" where
  "jump_next cfg s s' \<longleftrightarrow>
     (case ju_mode (q_jump s) of
        kLowering \<Rightarrow> ju_mode (q_jump s') = kPushing
      | kPushing \<Rightarrow> ju_mode (q_jump s') = kRetracting
      | kRetracting \<Rightarrow> ju_mode (q_jump s') = kFalling
      | kFalling \<Rightarrow> ju_mode (q_jump s') = kLanding \<and> touchdown cfg s
      | kLanding \<Rightarrow> ju_mode (q_jump s') = kPushing \<and> landing_done cfg s \<and> jump_repeat (ju_command (q_jump s)) \<and>
          cmd_mode (current_command s) = kJump
      | kJumpDone \<Rightarrow> False)"

text \<open>What the phases keep: everything but their own state, the frames and the legs of the last cycle.\<close>

definition phase_frame :: "('g, 'p) quad \<Rightarrow> ('g, 'p) quad \<Rightarrow> bool" where
  "phase_frame s s' \<longleftrightarrow>
     (\<forall>j b g legs. s'\<lparr>q_jump := j, q_backflip := b, frames := g, old_legs_R := legs\<rparr> =
        s\<lparr>q_jump := j, q_backflip := b, frames := g, old_legs_R := legs\<rparr>)"

lemma phase_frameI:
  "phase_frame s s"
  "phase_frame s s' \<Longrightarrow> phase_frame s (set_jump f s')"
  "phase_frame s s' \<Longrightarrow> phase_frame s (s'\<lparr>old_legs_R := l\<rparr>)"
  "phase_frame s s' \<Longrightarrow> phase_frame s (s'\<lparr>q_backflip := b\<rparr>)"
  "phase_frame s s' \<Longrightarrow> phase_frame s (s'\<lparr>frames := g\<rparr>)"
  by (simp_all add: phase_frame_def set_jump_def)

lemma phase_frame_trans: "phase_frame s s' \<Longrightarrow> phase_frame s' s'' \<Longrightarrow> phase_frame s s''"
  by (simp add: phase_frame_def)

lemma phase_frame_core:
  assumes "phase_frame s s'"
  shows "core s' = core (s\<lparr>q_jump := q_jump s', q_backflip := q_backflip s'\<rparr>)"
proof -
  from assms have "core (s'\<lparr>q_jump := q_jump s', q_backflip := q_backflip s', frames := frames s, old_legs_R := []\<rparr>) =
    core (s\<lparr>q_jump := q_jump s', q_backflip := q_backflip s', frames := frames s, old_legs_R := []\<rparr>)"
    unfolding phase_frame_def by metis
  then show ?thesis by (simp add: core_def)
qed

lemma phase_frame_sel:
  assumes "phase_frame s s'"
  shows "legs_B s' = legs_B s" "current_command s' = current_command s" "q_mode s' = q_mode s"
  using phase_frame_core [OF assms] by (simp_all add: core_def)

lemma SetLandingParameters_cases:
  assumes "SetLandingParameters geo cfg legs s = Go (d, legs', s')"
  shows "d = landing_done cfg s \<and> (\<exists>ac v. s' = set_jump (\<lambda>js. js\<lparr>ju_acceleration := ac, ju_velocity := Some v\<rparr>) s)"
  using assms by (auto simp: SetLandingParameters_def Let_def split: if_splits)

lemma jump_step_again:
  assumes "jump_step geo cfg s = Go (Again s')"
  shows "jump_next cfg s s' \<and> phase_frame s s' \<and>
    (ju_mode (q_jump s) \<noteq> kLanding \<longrightarrow> ju_command (q_jump s') = ju_command (q_jump s))"
  using assms
  by (cases "ju_mode (q_jump s)")
    (auto simp: jump_step_def Let_def jump_next_def jump_lowering_def jump_pushing_def jump_retracting_def jump_falling_def
      jump_landing_def rbind_Go phase_frameI split: if_splits option.splits list.splits dest!: SetLandingParameters_cases)

lemma latch_legs_no_spin: "latch_legs geo s legs \<noteq> Spin"
  by (induction legs) (auto simp: rbind_Spin GetLegState_B_def split: option.splits)

lemma jump_step_no_spin: "jump_step geo cfg s \<noteq> Spin"
  by (cases "ju_mode (q_jump s)")
    (auto simp: jump_step_def Let_def jump_lowering_def jump_pushing_def jump_retracting_def jump_falling_def jump_landing_def
      SetLandingParameters_def latch_legs_no_spin rbind_Spin split: option.splits list.splits)

lemma jump_machine: "phase_machine jump_phase (jump_step geo cfg) (jump_ends cfg) (jump_rank cfg)"
proof
  fix s s' :: "('a, 'b) quad"
  assume good: "jump_ends cfg s" and "jump_step geo cfg s = Go (Again s')"
  then have n: "jump_next cfg s s'" and f: "phase_frame s s'"
    and c: "ju_mode (q_jump s) \<noteq> kLanding \<longrightarrow> ju_command (q_jump s') = ju_command (q_jump s)"
    using jump_step_again [of geo cfg s s'] by blast+
  have m: "touchdown cfg s' = touchdown cfg s" "landing_done cfg s' = landing_done cfg s"
    "current_command s' = current_command s"
    using legs_B_measures [OF phase_frame_sel(1) [OF f]] phase_frame_sel(2) [OF f] by simp_all
  show "jump_ends cfg s' \<and> jump_rank cfg s' < jump_rank cfg s \<and> jump_phase s' \<noteq> jump_phase s"
    using good n c m
    by (cases "ju_mode (q_jump s)") (auto simp: jump_ends_def jump_next_def jump_rank_def jump_phase_def)
qed (rule jump_step_no_spin)

interpretation jump: phase_machine jump_phase "jump_step geo cfg" "jump_ends cfg" "jump_rank cfg" for geo cfg
  by (rule jump_machine)

definition flip_rank :: "('g, 'p) quad \<Rightarrow> nat" where
  "flip_rank s = (if flip_phase s = kFlipLowering then 1 else 0)"

lemma pitch_step_mode [simp]: "bf_mode (pitch_step cfg a bs) = bf_mode bs"
  by (simp add: pitch_step_def Let_def)

lemma flip_back_push_cases:
  assumes "flip_back_push geo cfg legs s = Go a"
  shows "\<exists>legs s'. a = Emit legs s' \<and> phase_frame s s' \<and> flip_phase s' \<in> {flip_phase s, kFlight} \<and> q_jump s' = q_jump s"
proof -
  define push where "push = (pitch_deg (q_backflip s) > push_pitch_deg (cf_backflip cfg))"
  define ac where "ac = (if push then bf_acceleration (cf_backflip cfg) else 0)"
  define bs where "bs = pitch_step cfg (if push then 0 else bf_pitch_accel_dps2 (cf_backflip cfg)) (q_backflip s)"
  define bs' where "bs' = bs\<lparr>bf_velocity := bf_velocity bs + ac * period_s cfg\<rparr>"
  have m: "bf_mode bs' = bf_mode (q_backflip s)" by (simp add: bs'_def bs_def)
  from assms obtain ls where "rear_stance cfg legs = Go ls" and
    r: "(case flip_legs geo bs' ac ls (frames s) of (legs, g) \<Rightarrow>
          case find (\<lambda>leg. stance leg = 1) legs of None \<Rightarrow> Abort
          | Some leg \<Rightarrow>
              if vz (position leg) > push_height (cf_backflip cfg)
              then rbind (flight_legs cfg (old_legs_B s) legs) (\<lambda>legs.
                Go (Emit legs (s\<lparr>q_backflip := bs'\<lparr>bf_mode := kFlight\<rparr>, frames := reset_pose_RB geo g\<rparr>)))
              else Go (Emit legs (s\<lparr>q_backflip := bs', frames := g\<rparr>))) = Go a"
    unfolding flip_back_push_def Let_def push_def [symmetric] ac_def [symmetric] bs_def [symmetric] bs'_def [symmetric] rbind_Go
    by blast
  obtain l g where "flip_legs geo bs' ac ls (frames s) = (l, g)" by force
  with r m show ?thesis by (auto simp: rbind_Go flip_phase_def phase_frameI split: option.splits if_splits)
qed

lemma flip_step_cases:
  assumes "flip_step geo cfg s = Go a"
  shows "(\<exists>s'. a = Again s' \<and> phase_frame s s' \<and> flip_phase s = kFlipLowering \<and> flip_phase s' = kFrontPush \<and>
        q_jump s' = q_jump s) \<or>
    (\<exists>legs s'. a = Emit legs s' \<and> phase_frame s s' \<and> flip_phase s \<noteq> kFlipDone \<and> flip_phase s' \<noteq> kFlipDone \<and>
        q_jump s' = q_jump s) \<or>
    a = Rest s \<and> flip_phase s = kFlipDone"
proof (cases "bf_mode (q_backflip s)")
  case kBackPush
  with assms have "flip_back_push geo cfg (old_legs_R s) s = Go a" by (simp add: flip_step_def)
  from flip_back_push_cases [OF this] kBackPush show ?thesis by (auto simp: flip_phase_def)
next
  case kFrontPush
  with assms show ?thesis
    by (auto simp: flip_step_def flip_front_push_def Let_def flip_phase_def phase_frameI split: prod.splits)
qed (use assms in \<open>auto simp: flip_step_def flip_lowering_def Let_def rbind_Go flip_phase_def phase_frameI split: if_splits\<close>)

lemma flip_lists_no_spin: "rear_stance cfg legs \<noteq> Spin" "flight_legs cfg old legs \<noteq> Spin"
  by (induction legs) (auto simp: rbind_Spin GetLeg_def split: option.splits)

interpretation flip: phase_machine flip_phase "flip_step geo cfg" "\<lambda>_. True" flip_rank for geo cfg
proof
  show "flip_step geo cfg s \<noteq> Spin" for s :: "('a, 'b) quad"
    by (auto simp: flip_step_def Let_def flip_lowering_def flip_front_push_def flip_back_push_def rbind_Spin
        flip_lists_no_spin split: BackflipMode.splits prod.splits option.splits)
qed (auto simp: flip_rank_def dest: flip_step_cases)

lemma jump_rank_bound: "jump_rank cfg s < 5"
  by (simp add: jump_rank_def split: JumpMode.splits)

lemma flip_rank_bound: "flip_rank s < 2"
  by (simp add: flip_rank_def)

lemma finish_action_no_spin: "(\<forall>s. a \<noteq> Again s) \<Longrightarrow> finish_action geo cfg a \<noteq> Spin"
  by (cases a) (simp_all add: finish_action_def ControlLegs_R_no_spin DoControl_Rest_no_spin)

lemma finish_loop_no_spin:
  assumes "phase_loop fuel ph st s \<noteq> Spin"
  shows "rbind (phase_loop fuel ph st s) (finish_action geo cfg) \<noteq> Spin"
proof
  assume "rbind (phase_loop fuel ph st s) (finish_action geo cfg) = Spin"
  with assms obtain a where a: "phase_loop fuel ph st s = Go a" "finish_action geo cfg a = Spin"
    unfolding rbind_Spin by blast
  from finish_action_no_spin [of a geo cfg] loop_result [OF a(1)] a(2) show False by blast
qed

lemma UpdateCommandedR_sel [simp]:
  "legs_B (UpdateCommandedR cfg r s) = legs_B s" "q_jump (UpdateCommandedR cfg r s) = q_jump s"
  "current_command (UpdateCommandedR cfg r s) = current_command s" "core (UpdateCommandedR cfg r s) = core s"
  by (simp_all add: UpdateCommandedR_def core_def split: prod.split)

lemma jump_ends_UpdateCommandedR [simp]: "jump_ends cfg (UpdateCommandedR cfg r s) = jump_ends cfg s"
  by (simp add: jump_ends_def legs_B_measures [of "UpdateCommandedR cfg r s" s])



section \<open>The invariant of the controller\<close>

text \<open>What was measured; the control modes leave it alone.\<close>

definition sensors :: "('g, 'p) quad \<Rightarrow> state_joint list \<times> double" where
  "sensors s = (joints s, robot_voltage s)"

text \<open>What a servo is told: no power, braking, or a new zero position.\<close>

definition is_off :: "request \<Rightarrow> bool" where
  "is_off rq \<longleftrightarrow> rq_writes rq = [WriteSingle kMode (Int8 (servo_mode_code ServoStopped))]"

definition is_brake :: "request \<Rightarrow> bool" where
  "is_brake rq \<longleftrightarrow> rq_writes rq = [WriteSingle kMode (Int8 (servo_mode_code ServoZeroVelocity))]"

definition is_rezero :: "request \<Rightarrow> bool" where
  "is_rezero rq \<longleftrightarrow> (case rq_writes rq of [WriteSingle r v] \<Rightarrow> r = kRezero | _ \<Rightarrow> False)"

text \<open>The requests that fit a mode, and the fault text that fits it.\<close>

definition output_ok :: "('g, 'p) quad \<Rightarrow> bool" where
  "output_ok s \<longleftrightarrow>
     (case q_mode s of
        kConfiguring \<Rightarrow> list_all (\<lambda>r. is_off r \<or> is_rezero r) (client_command s)
      | kStopped \<Rightarrow> list_all is_off (client_command s)
      | kFault \<Rightarrow> list_all is_brake (client_command s)
      | kZeroVelocity \<Rightarrow> list_all is_brake (client_command s)
      | kNumModes \<Rightarrow> False
      | _ \<Rightarrow> True)"

definition fault_ok :: "('g, 'p) quad \<Rightarrow> bool" where
  "fault_ok s \<longleftrightarrow> (q_mode s = kFault \<longrightarrow> q_fault s \<noteq> NoFault) \<and> (q_mode s = kStopped \<longrightarrow> q_fault s = NoFault)"

definition state_ok :: "config \<Rightarrow> ('g, 'p) quad \<Rightarrow> bool" where
  "state_ok cfg s \<longleftrightarrow>
     distinct (map sj_id (joints s)) \<and> list_all (\<lambda>j. MaybeGetSign cfg (sj_id j) \<noteq> None) (joints s) \<and>
     0 \<le> prepositioning_stage (q_stand_up s) \<and> prepositioning_stage (q_stand_up s) \<le> 2 \<and>
     ju_velocity (q_jump s) \<noteq> None \<and> flip_phase s \<noteq> kFlipDone"

definition quad_inv :: "config \<Rightarrow> ('g, 'p) quad \<Rightarrow> bool" where
  "quad_inv cfg s \<longleftrightarrow> output_ok s \<and> fault_ok s \<and> state_ok cfg s"

lemma joint_request_off: "\<not> jc_power j \<Longrightarrow> is_off (joint_request cfg j)"
  by (simp add: is_off_def joint_request_def joint_mode_def)

lemma joint_request_brake: "jc_power j \<Longrightarrow> jc_zero_velocity j \<Longrightarrow> is_brake (joint_request cfg j)"
  by (simp add: is_brake_def joint_request_def joint_mode_def)

lemma EmitStop_off: "list_all is_off (client_command (EmitStop cfg s))"
  by (auto simp: EmitStop_def ControlJoints_def EmitControl_def list_all_iff joint_request_off)

lemma ZeroVelocity_brake: "list_all is_brake (client_command (DoControl_ZeroVelocity cfg s))"
  by (auto simp: DoControl_ZeroVelocity_def ControlJoints_def EmitControl_def list_all_iff joint_request_brake)

lemma EmitRezero_rezero: "list_all is_rezero (client_command (EmitRezero cfg s))"
  by (auto simp: EmitRezero_def list_all_iff is_rezero_def)

lemma EmitStop_core [simp]: "core (EmitStop cfg s) = core s"
  by (simp add: EmitStop_def)

lemma DoControl_ZeroVelocity_core [simp]: "core (DoControl_ZeroVelocity cfg s) = core s"
  by (simp add: DoControl_ZeroVelocity_def)

lemma core_state_ok: "core s' = core s \<Longrightarrow> state_ok cfg s' = state_ok cfg s"
  by (simp add: core_def state_ok_def flip_phase_def)

lemma core_sel:
  assumes "core s' = core s"
  shows "q_mode s' = q_mode s" "q_fault s' = q_fault s" "joints s' = joints s" "q_stand_up s' = q_stand_up s"
    "q_jump s' = q_jump s" "q_backflip s' = q_backflip s" "current_command s' = current_command s" "servos s' = servos s"
    "sensors s' = sensors s"
  using assms by (simp_all add: core_def sensors_def)

lemma Fault_sel [simp]:
  "q_mode (Fault cfg now m s) = kFault" "q_fault (Fault cfg now m s) = m" "joints (Fault cfg now m s) = joints s"
  "q_stand_up (Fault cfg now m s) = q_stand_up s" "q_jump (Fault cfg now m s) = q_jump s"
  "q_backflip (Fault cfg now m s) = q_backflip s" "current_command (Fault cfg now m s) = current_command s"
  using core_sel [OF DoControl_ZeroVelocity_core [of cfg "s\<lparr>q_mode := kFault, q_fault := m, mode_start := now\<rparr>"]]
  by (simp_all add: Fault_def DoControl_Fault_def)

lemma Fault_sensors [simp]: "robot_voltage (Fault cfg now m s) = robot_voltage s" "sensors (Fault cfg now m s) = sensors s"
  by (simp_all add: Fault_def DoControl_Fault_def DoControl_ZeroVelocity_def ControlJoints_def EmitControl_def sensors_def)

lemma Fault_output: "list_all is_brake (client_command (Fault cfg now m s))"
  by (simp add: Fault_def DoControl_Fault_def ZeroVelocity_brake)

lemma Fault_inv: "m \<noteq> NoFault \<Longrightarrow> state_ok cfg s \<Longrightarrow> quad_inv cfg (Fault cfg now m s)"
  by (simp add: quad_inv_def output_ok_def fault_ok_def Fault_output state_ok_def flip_phase_def)

lemma set_jump_backflip [simp]: "q_backflip (set_jump f s) = q_backflip s"
  by (simp add: set_jump_def)

text \<open>An invariant of the steps holds of what the loop ends with.\<close>

fun action_state :: "'s action \<Rightarrow> 's" where
  "action_state (Again s) = s"
| "action_state (Emit legs s) = s"
| "action_state (Rest s) = s"

lemma loop_invariant:
  assumes "\<And>s s'. P s \<Longrightarrow> step s = Go (Again s') \<Longrightarrow> P s'"
    and "\<And>s a. P s \<Longrightarrow> step s = Go a \<Longrightarrow> (\<And>s'. a \<noteq> Again s') \<Longrightarrow> Q (action_state a)"
  shows "P s \<Longrightarrow> phase_loop fuel phase step s = Go a \<Longrightarrow> Q (action_state a)"
proof (induction fuel arbitrary: s)
  case (Suc fuel)
  then obtain b where b: "step s = Go b" by (auto simp: rbind_Go)
  show ?case
  proof (cases b)
    case (Again s')
    with b Suc assms(1) [of s s'] show ?thesis by (auto split: if_splits)
  qed (use b Suc.prems assms(2) [of s b] in auto)
qed simp

text \<open>The jump velocity is unknown only on the way from falling to landing.\<close>

definition jump_known :: "('g, 'p) quad \<Rightarrow> bool" where
  "jump_known s \<longleftrightarrow> (ju_velocity (q_jump s) = None \<longrightarrow> jump_phase s = kLanding)"

lemma jump_step_known:
  assumes "jump_known s" "jump_step geo cfg s = Go a"
  shows "phase_frame s (action_state a) \<and> q_backflip (action_state a) = q_backflip s \<and> jump_known (action_state a) \<and>
    (ju_velocity (q_jump (action_state a)) = None \<longrightarrow> (\<exists>s'. a = Again s'))"
  using assms
  by (cases "ju_mode (q_jump s)")
    (auto simp: jump_known_def jump_phase_def jump_step_def Let_def jump_lowering_def jump_pushing_def jump_retracting_def
      jump_falling_def jump_landing_def rbind_Go phase_frameI set_jump_backflip split: if_splits option.splits list.splits
      dest!: SetLandingParameters_cases)

lemma jump_loop_ok:
  assumes "ju_velocity (q_jump s) \<noteq> None" "phase_loop fuel jump_phase (jump_step geo cfg) s = Go a"
  shows "phase_frame s (action_state a) \<and> q_backflip (action_state a) = q_backflip s \<and>
    ju_velocity (q_jump (action_state a)) \<noteq> None"
proof -
  let ?P = "\<lambda>t. phase_frame s t \<and> q_backflip t = q_backflip s \<and> jump_known t"
  let ?Q = "\<lambda>t. phase_frame s t \<and> q_backflip t = q_backflip s \<and> ju_velocity (q_jump t) \<noteq> None"
  have "?P s" using assms(1) by (auto simp: jump_known_def phase_frameI)
  moreover have "?P t'" if "?P t" "jump_step geo cfg t = Go (Again t')" for t t'
    using that jump_step_known [of t geo cfg "Again t'"] by (auto intro: phase_frame_trans)
  moreover have "?Q (action_state b)" if "?P t" "jump_step geo cfg t = Go b" "\<And>t'. b \<noteq> Again t'" for t b
    using that jump_step_known [of t geo cfg b] by (auto intro: phase_frame_trans)
  ultimately show ?thesis using loop_invariant [of ?P "jump_step geo cfg" ?Q s fuel jump_phase a] assms(2) by blast
qed

lemma flip_loop_ok:
  assumes "flip_phase s \<noteq> kFlipDone" "phase_loop fuel flip_phase (flip_step geo cfg) s = Go a"
  shows "phase_frame s (action_state a) \<and> q_jump (action_state a) = q_jump s \<and> flip_phase (action_state a) \<noteq> kFlipDone"
proof -
  let ?P = "\<lambda>t. phase_frame s t \<and> q_jump t = q_jump s \<and> flip_phase t \<noteq> kFlipDone"
  have "?P (action_state b)" if "?P t" "flip_step geo cfg t = Go b" for t b
    using that flip_step_cases [OF that(2)] by (auto intro: phase_frame_trans)
  then have "?P t'" if "?P t" "flip_step geo cfg t = Go (Again t')" for t t'
    using that by (metis action_state.simps(1))
  moreover note \<open>\<And>t b. ?P t \<Longrightarrow> flip_step geo cfg t = Go b \<Longrightarrow> ?P (action_state b)\<close>
  moreover have "?P s" using assms(1) by (simp add: phase_frameI)
  ultimately show ?thesis using loop_invariant [of ?P "flip_step geo cfg" ?P s fuel flip_phase a] assms(2) by blast
qed

lemma DoControl_Rest_core: "DoControl_Rest geo cfg s = Go s' \<Longrightarrow> core s' = core s"
  by (auto simp: DoControl_Rest_def ClearDesiredMotion_def Let_def rbind_Go split: if_splits dest!: ControlLegs_R_core)
    (simp add: core_def)

lemma finish_action_core: "finish_action geo cfg a = Go s' \<Longrightarrow> core s' = core (action_state a)"
  by (cases a) (auto simp: finish_action_def dest: ControlLegs_R_core DoControl_Rest_core)

lemma DoControl_Jump_ok:
  assumes "state_ok cfg s" "DoControl_Jump geo cfg fuel s = Go s'"
  shows "state_ok cfg s' \<and> q_mode s' = q_mode s \<and> q_fault s' = q_fault s \<and> sensors s' = sensors s"
proof -
  define t where "t = (if jump_phase s \<in> {kPushing, kLanding} then UpdateCommandedR cfg 1 s else s)"
  have t: "core t = core s" "ju_velocity (q_jump t) \<noteq> None" using assms(1) by (auto simp: t_def state_ok_def)
  from assms(2) obtain a where a: "phase_loop fuel jump_phase (jump_step geo cfg) t = Go a" "finish_action geo cfg a = Go s'"
    by (auto simp: DoControl_Jump_def Let_def t_def rbind_Go)
  from jump_loop_ok [OF t(2) a(1)] phase_frame_core [of t "action_state a"] finish_action_core [OF a(2)] t assms(1)
  show ?thesis by (auto simp: core_def state_ok_def flip_phase_def sensors_def)
qed

lemma DoControl_Backflip_ok:
  assumes "state_ok cfg s" "DoControl_Backflip geo cfg fuel s = Go s'"
  shows "state_ok cfg s' \<and> q_mode s' = q_mode s \<and> q_fault s' = q_fault s \<and> sensors s' = sensors s"
proof -
  have f: "flip_phase s \<noteq> kFlipDone" using assms(1) by (simp add: state_ok_def)
  from assms(2) obtain a where a: "phase_loop fuel flip_phase (flip_step geo cfg) s = Go a" "finish_action geo cfg a = Go s'"
    by (auto simp: DoControl_Backflip_def rbind_Go)
  from flip_loop_ok [OF f a(1)] phase_frame_core [of s "action_state a"] finish_action_core [OF a(2)] assms(1)
  show ?thesis by (auto simp: core_def state_ok_def flip_phase_def sensors_def)
qed

lemma QuadrupedTrot_core: "QuadrupedTrot geo cfg legs s = Go (legs', p, s') \<Longrightarrow> core s' = core s"
  by (drule QuadrupedTrot_frame) (simp add: core_def walk_frame_sel)

lemma DoControl_Walk_core: "DoControl_Walk geo cfg s = Go s' \<Longrightarrow> core s' = core s"
  by (auto simp: DoControl_Walk_def rbind_Go split: prod.splits dest!: ControlLegs_R_core QuadrupedTrot_core)

lemma StandUp_Prepositioning_ok:
  assumes "state_ok cfg s" "DoControl_StandUp_Prepositioning cfg s = Go s'"
  shows "state_ok cfg s' \<and> q_mode s' = q_mode s \<and> q_fault s' = q_fault s \<and> sensors s' = sensors s"
proof -
  obtain t js where t: "s' = ControlJoints cfg js t" and
    "t = s \<or> t = s\<lparr>q_stand_up := (q_stand_up s)\<lparr>prepositioning_stage := min (prepositioning_stage (q_stand_up s) + 1) 2\<rparr>\<rparr>"
    using assms(2) by (auto simp: DoControl_StandUp_Prepositioning_def Let_def rbind_Go)
  then have "state_ok cfg t \<and> q_mode t = q_mode s \<and> q_fault t = q_fault s \<and> sensors t = sensors s" using assms(1)
    by (auto simp: state_ok_def flip_phase_def sensors_def)
  with t core_sel [OF ControlJoints_core [of cfg js t]] core_state_ok [OF ControlJoints_core [of cfg js t]] show ?thesis by metis
qed

lemma StandUp_Standing_ok:
  assumes "state_ok cfg s" "DoControl_StandUp_Standing geo cfg s = Go s'"
  shows "state_ok cfg s' \<and> q_mode s' = q_mode s \<and> q_fault s' = q_fault s \<and> sensors s' = sensors s"
proof -
  obtain t legs p where t: "ControlLegs_R geo cfg legs p t = Go s'" and
    "t = s \<or> t = s\<lparr>q_stand_up := (q_stand_up s)\<lparr>su_mode := kStandDone\<rparr>\<rparr>"
    using assms(2) by (auto simp: DoControl_StandUp_Standing_def Let_def rbind_Go split: if_splits)
  then have "state_ok cfg t \<and> q_mode t = q_mode s \<and> q_fault t = q_fault s \<and> sensors t = sensors s" using assms(1)
    by (auto simp: state_ok_def flip_phase_def sensors_def)
  with core_sel [OF ControlLegs_R_core [OF t]] core_state_ok [OF ControlLegs_R_core [OF t]] show ?thesis by metis
qed

lemma DoControl_StandUp_ok:
  assumes "state_ok cfg s" "DoControl_StandUp geo cfg now s = Go s'"
  shows "state_ok cfg s' \<and> sensors s' = sensors s \<and>
    (q_mode s' = q_mode s \<and> q_fault s' = q_fault s \<or> quad_inv cfg s' \<and> q_mode s' = kFault)"
proof -
  define t where "t = ClearDesiredMotion (s\<lparr>frames := reset_RB geo (frames s)\<rparr>)"
  have "core t = core s" by (simp add: t_def ClearDesiredMotion_def core_def)
  then have t: "state_ok cfg t" "q_mode t = q_mode s" "q_fault t = q_fault s" "sensors t = sensors s"
    using core_sel [of t s] core_state_ok [of t s] assms(1) by metis+
  consider "s' = Fault cfg now TimedOut t"
    | u where "u = t \<or> u = t\<lparr>q_stand_up := (q_stand_up t)\<lparr>su_mode := kStanding\<rparr>\<rparr>"
        "DoControl_StandUp_Prepositioning cfg u = Go s' \<or> DoControl_StandUp_Standing geo cfg u = Go s'"
    using assms(2) unfolding DoControl_StandUp_def t_def [symmetric] Let_def
    by (auto simp: rbind_Go split: if_splits)
  then show ?thesis
  proof cases
    case 1
    with Fault_inv [of TimedOut cfg t now] t show ?thesis by (simp add: quad_inv_def)
  next
    case 2
    then have "state_ok cfg u \<and> q_mode u = q_mode s \<and> q_fault u = q_fault s \<and> sensors u = sensors s"
      using t by (auto simp: state_ok_def flip_phase_def sensors_def)
    with 2(2) StandUp_Prepositioning_ok [of cfg u s'] StandUp_Standing_ok [of cfg u geo s'] show ?thesis by metis
  qed
qed

lemma Emit_ok [simp]:
  "state_ok c (EmitStop cfg s) = state_ok c s" "q_mode (EmitStop cfg s) = q_mode s"
  "state_ok c (EmitRezero cfg s) = state_ok c s" "q_mode (EmitRezero cfg s) = q_mode s"
  "sensors (EmitStop cfg s) = sensors s" "sensors (EmitRezero cfg s) = sensors s"
  using core_sel [OF EmitStop_core] core_state_ok [OF EmitStop_core]
  by (simp_all add: EmitRezero_def state_ok_def flip_phase_def sensors_def)

lemma DoControl_Configuring_inv:
  assumes "state_ok cfg s" "q_mode s = kConfiguring"
  shows "quad_inv cfg (DoControl_Configuring cfg s) \<and> q_mode (DoControl_Configuring cfg s) = kConfiguring \<and>
    sensors (DoControl_Configuring cfg s) = sensors s"
  using assms EmitStop_off [of cfg s] EmitRezero_rezero [of cfg s]
  by (auto simp: DoControl_Configuring_def quad_inv_def output_ok_def fault_ok_def list_all_iff)

lemma core_ok: "core s' = core s \<Longrightarrow> state_ok cfg s \<Longrightarrow> state_ok cfg s' \<and> q_mode s' = q_mode s \<and> q_fault s' = q_fault s \<and> sensors s' = sensors s"
  using core_sel [of s' s] core_state_ok [of s' s cfg] by simp

text \<open>The modes that move the robot.\<close>

definition moving :: "Mode set" where "moving = {kJoint, kLeg, kRest, kJump, kWalk, kBackflip}"

lemma do_control_moving:
  assumes "q_mode s \<in> moving" "state_ok cfg s" "do_control geo cfg fuel now s = Go s'"
  shows "state_ok cfg s' \<and> q_mode s' = q_mode s \<and> q_fault s' = q_fault s \<and> sensors s' = sensors s"
proof -
  consider "core s' = core s" | "DoControl_Jump geo cfg fuel s = Go s'" | "DoControl_Backflip geo cfg fuel s = Go s'"
    using assms(1,3) ControlLegs_B_core [of geo cfg "cmd_legs_B (current_command s)" s s'] DoControl_Rest_core [of geo cfg s s']
      DoControl_Walk_core [of geo cfg s s']
    by (auto simp: do_control_def moving_def DoControl_Joint_def DoControl_Leg_def)
  then show ?thesis
    using core_ok [OF _ assms(2)] DoControl_Jump_ok [OF assms(2)] DoControl_Backflip_ok [OF assms(2)] by cases blast+
qed

lemma do_control_brake:
  assumes "q_mode s = kFault \<or> q_mode s = kZeroVelocity" "state_ok cfg s" "q_mode s = kFault \<longrightarrow> q_fault s \<noteq> NoFault"
    "do_control geo cfg fuel now s = Go s'"
  shows "quad_inv cfg s' \<and> q_mode s' = q_mode s \<and> sensors s' = sensors s"
proof -
  have s': "s' = DoControl_ZeroVelocity cfg s" using assms(1,4) by (auto simp: do_control_def DoControl_Fault_def)
  then have "state_ok cfg s' \<and> q_mode s' = q_mode s \<and> q_fault s' = q_fault s \<and> sensors s' = sensors s" using core_ok [OF DoControl_ZeroVelocity_core assms(2)] by simp
  with assms(1,3) ZeroVelocity_brake [of cfg s] show ?thesis by (auto simp: quad_inv_def output_ok_def fault_ok_def s')
qed

lemma do_control_stopped:
  assumes "q_mode s = kStopped" "state_ok cfg s" "do_control geo cfg fuel now s = Go s'"
  shows "quad_inv cfg s' \<and> q_mode s' = kStopped \<and> sensors s' = sensors s"
proof -
  have s': "s' = EmitStop cfg (s\<lparr>q_fault := NoFault\<rparr>)" using assms(1,3) by (simp add: do_control_def DoControl_Stopped_def)
  have "state_ok cfg (s\<lparr>q_fault := NoFault\<rparr>)" using assms(2) by (simp add: state_ok_def flip_phase_def)
  moreover have "core s' = core (s\<lparr>q_fault := NoFault\<rparr>)" by (simp add: s')
  ultimately have "state_ok cfg s' \<and> q_mode s' = kStopped \<and> q_fault s' = NoFault \<and> sensors s' = sensors s"
    using core_ok [of s' "s\<lparr>q_fault := NoFault\<rparr>" cfg] assms(1) by (simp add: sensors_def)
  with EmitStop_off [of cfg "s\<lparr>q_fault := NoFault\<rparr>"] show ?thesis by (simp add: quad_inv_def output_ok_def fault_ok_def s')
qed

lemma do_control_inv:
  assumes "state_ok cfg s" "q_mode s = kFault \<longrightarrow> q_fault s \<noteq> NoFault" "do_control geo cfg fuel now s = Go s'"
  shows "quad_inv cfg s' \<and> sensors s' = sensors s \<and> (q_mode s' = q_mode s \<or> q_mode s = kStandUp \<and> q_mode s' = kFault)"
proof -
  consider "q_mode s \<in> moving" | "q_mode s = kFault \<or> q_mode s = kZeroVelocity" | "q_mode s = kStopped"
    | "q_mode s = kConfiguring" | "q_mode s = kStandUp"
    using assms(3) by (cases "q_mode s") (auto simp: moving_def do_control_def)
  then show ?thesis
  proof cases
    case 1
    with do_control_moving [OF 1 assms(1,3)] show ?thesis by (auto simp: quad_inv_def output_ok_def fault_ok_def moving_def)
  next
    case 2
    with do_control_brake [OF 2 assms] show ?thesis by blast
  next
    case 3
    with do_control_stopped [OF 3 assms(1,3)] show ?thesis by simp
  next
    case 4
    with assms DoControl_Configuring_inv [OF assms(1)] show ?thesis by (auto simp: do_control_def)
  next
    case 5
    then have "DoControl_StandUp geo cfg now s = Go s'" using assms(3) by (simp add: do_control_def)
    from DoControl_StandUp_ok [OF assms(1) this] 5 show ?thesis
      by (auto simp: quad_inv_def output_ok_def fault_ok_def)
  qed
qed

text \<open>The modes that may follow a mode, and the state of the old mode after the change.\<close>

definition on_ground :: "('g, 'p, 'i) geometry \<Rightarrow> ('g, 'p) quad \<Rightarrow> bool" where
  "on_ground geo s \<longleftrightarrow>
     (case q_mode s of
        kRest \<Rightarrow> rest_done s
      | kStandUp \<Rightarrow> su_mode (q_stand_up s) = kStandDone
      | kJump \<Rightarrow> ju_mode (q_jump s) = kJumpDone
      | kWalk \<Rightarrow> idle_count (q_walk s) \<ge> 2 \<and> all_legs_stance s
      | kBackflip \<Rightarrow> bf_mode (q_backflip s) = kFlipDone
      | _ \<Rightarrow> False)"

definition may_follow :: "('g, 'p, 'i) geometry \<Rightarrow> ('g, 'p) quad \<Rightarrow> Mode \<Rightarrow> bool" where
  "may_follow geo s m \<longleftrightarrow>
     (case m of
        kStopped \<Rightarrow> True
      | kZeroVelocity \<Rightarrow> q_mode s \<noteq> kFault
      | kJoint \<Rightarrow> q_mode s \<noteq> kFault
      | kLeg \<Rightarrow> q_mode s \<noteq> kFault
      | kStandUp \<Rightarrow> q_mode s = kStopped \<or> q_mode s = kZeroVelocity
      | kRest \<Rightarrow> on_ground geo s
      | kJump \<Rightarrow> on_ground geo s \<and> q_mode s \<noteq> kJump
      | kWalk \<Rightarrow> on_ground geo s \<and> q_mode s \<noteq> kJump
      | kBackflip \<Rightarrow> on_ground geo s \<and> q_mode s \<noteq> kJump
      | _ \<Rightarrow> False)"

definition mode_fresh :: "('g, 'p, 'i) geometry \<Rightarrow> Mode \<Rightarrow> ('g, 'p) quad \<Rightarrow> bool" where
  "mode_fresh geo m s \<longleftrightarrow>
     (case m of
        kStandUp \<Rightarrow> q_stand_up s = stand_up_default
      | kJump \<Rightarrow> q_jump s = jump_default
      | kWalk \<Rightarrow> q_walk s = walk_default
      | kBackflip \<Rightarrow> q_backflip s = backflip_default
      | kRest \<Rightarrow> \<not> rest_done s
      | _ \<Rightarrow> True)"

lemma leave_mode_sel: "q_mode (leave_mode geo now old s) = q_mode s" "q_fault (leave_mode geo now old s) = q_fault s"
  by (auto simp: leave_mode_def reset_mode_def split: Mode.splits)

lemma leave_mode_changed:
  "q_mode s \<noteq> old \<Longrightarrow> mode_fresh geo old (leave_mode geo now old s) \<and> mode_start (leave_mode geo now old s) = now"
  by (auto simp: leave_mode_def reset_mode_def mode_fresh_def split: Mode.splits)

lemma leave_mode_ok: "state_ok cfg s \<Longrightarrow> state_ok cfg (leave_mode geo now old s)"
  by (auto simp: leave_mode_def reset_mode_def state_ok_def flip_phase_def stand_up_default_def jump_default_def
      backflip_default_def split: Mode.splits)

lemma latch_jump_sel [simp]:
  "q_mode (latch_jump s) = q_mode s" "q_fault (latch_jump s) = q_fault s" "state_ok cfg (latch_jump s) = state_ok cfg s"
  "rest_done (latch_jump s) = rest_done s"
  by (simp_all add: latch_jump_def set_jump_def state_ok_def flip_phase_def)

lemma may_not_fault [simp]: "\<not> may_follow geo s kFault" "\<not> may_follow geo s kConfiguring" "\<not> may_follow geo s kNumModes"
  by (simp_all add: may_follow_def)

lemma enter_locomotion_ok:
  "q_fault (enter_locomotion geo s) = q_fault s" "state_ok cfg s \<Longrightarrow> state_ok cfg (enter_locomotion geo s)"
  by (simp_all add: enter_locomotion_def Let_def)
     (simp_all add: state_ok_def flip_phase_def stand_up_default_def latch_jump_def set_jump_def)

lemma enter_locomotion_follows:
  assumes "cmd_mode (current_command s) \<in> {kRest, kJump, kWalk, kBackflip}" "q_mode (enter_locomotion geo s) \<noteq> q_mode s"
  shows "may_follow geo s (q_mode (enter_locomotion geo s))"
  using assms
  by (cases "q_mode s")
    (auto simp: enter_locomotion_def Let_def may_follow_def on_ground_def IsRestAndSteadyState_def split: if_splits)

lemma change_mode_cases:
  assumes "change_mode geo now s = Go s'"
  shows "s' = s \<or> (\<exists>t. s' = leave_mode geo now (q_mode s) t \<and> q_fault t = q_fault s \<and>
    (q_mode t \<noteq> q_mode s \<longrightarrow> may_follow geo s (q_mode t)) \<and> (\<forall>cfg. state_ok cfg s \<longrightarrow> state_ok cfg t))"
proof -
  let ?m = "cmd_mode (current_command s)"
  consider "s' = s" | "?m = kStopped" "s' = leave_mode geo now (q_mode s) (s\<lparr>q_mode := kStopped\<rparr>)"
    | "?m \<in> {kZeroVelocity, kJoint, kLeg}" "q_mode s \<noteq> kFault" "s' = leave_mode geo now (q_mode s) (s\<lparr>q_mode := ?m\<rparr>)"
    | "q_mode s = kStopped \<or> q_mode s = kZeroVelocity"
        "s' = leave_mode geo now (q_mode s) (s\<lparr>q_mode := kStandUp, q_stand_up := stand_up_default\<rparr>)"
    | "?m \<in> {kRest, kJump, kWalk, kBackflip}" "s' = leave_mode geo now (q_mode s) (enter_locomotion geo s)"
    using assms by (cases ?m) (auto simp: change_mode_def Let_def split: if_splits)
  then show ?thesis
  proof cases
    case 5
    with enter_locomotion_follows [OF 5(1), of geo] enter_locomotion_ok [where geo = geo and s = s] show ?thesis by blast
  qed (auto simp: may_follow_def state_ok_def flip_phase_def stand_up_default_def)
qed

lemma change_mode_ok:
  assumes "change_mode geo now s = Go s'"
  shows "q_fault s' = q_fault s" "state_ok cfg s \<Longrightarrow> state_ok cfg s'"
    "q_mode s' \<noteq> q_mode s \<Longrightarrow> may_follow geo s (q_mode s') \<and> mode_fresh geo (q_mode s) s' \<and> mode_start s' = now"
  using change_mode_cases [OF assms]
  by (auto simp: leave_mode_sel leave_mode_ok dest: leave_mode_changed)

lemma change_mode_fault:
  "change_mode geo now s = Go s' \<Longrightarrow> q_mode s' = kFault \<Longrightarrow> q_mode s = kFault"
  using change_mode_ok(3) [of geo now s s'] may_not_fault(1) [of geo s] by metis

lemma MaybeChangeMode_configuring:
  assumes "MaybeChangeMode geo cfg now s = Go s'" "q_mode s = kConfiguring"
  obtains "configuring_fault cfg s \<noteq> NoFault" "s' = s\<lparr>q_fault := configuring_fault cfg s\<rparr>"
    | "configuring_fault cfg s = NoFault" "change_mode geo now (s\<lparr>q_fault := NoFault\<rparr>) = Go s'"
  using assms by (cases "configuring_fault cfg s = NoFault") (simp_all add: MaybeChangeMode_def IsConfiguringDone_def Let_def)

lemma MaybeChangeMode_ok:
  assumes "MaybeChangeMode geo cfg now s = Go s'" "state_ok cfg s" "q_mode s = kFault \<longrightarrow> q_fault s \<noteq> NoFault"
  shows "state_ok cfg s' \<and> (q_mode s' = kFault \<longrightarrow> q_fault s' \<noteq> NoFault)"
proof (cases "q_mode s = kConfiguring")
  case True
  have t: "state_ok cfg (s\<lparr>q_fault := f\<rparr>)" for f using assms(2) by (simp add: state_ok_def flip_phase_def)
  from assms(1) True show ?thesis
  proof (cases rule: MaybeChangeMode_configuring)
    case 1
    with t True show ?thesis by simp
  next
    case 2
    from change_mode_fault [OF 2(2)] True change_mode_ok(2) [OF 2(2) t] show ?thesis by auto
  qed
next
  case False
  then have c: "change_mode geo now s = Go s'" using assms(1) by (simp add: MaybeChangeMode_def)
  from change_mode_fault [OF c] change_mode_ok(1) [OF c] change_mode_ok(2) [OF c assms(2)] assms(3) show ?thesis by auto
qed



section \<open>The status of the servos\<close>

lemma joint_update_id: "joint_update sg r v j = Go j' \<Longrightarrow> sj_id j' = sj_id j"
  by (cases r) (auto simp: joint_update_def split: option.splits)

definition joints_ok :: "config \<Rightarrow> state_joint list \<Rightarrow> bool" where
  "joints_ok cfg js \<longleftrightarrow> distinct (map sj_id js) \<and> list_all (\<lambda>i. MaybeGetSign cfg i \<noteq> None) (map sj_id js)"

lemma joints_ok_update:
  assumes "joints_ok cfg js" "sj_id j = sj_id (js ! k)"
  shows "joints_ok cfg (js[k := j])"
proof -
  have "map sj_id (js[k := j]) = map sj_id js"
    using assms(2) by (cases "k < length js") (simp_all add: map_update list_update_same_conv list_update_beyond)
  with assms(1) show ?thesis by (simp only: joints_ok_def)
qed

lemma joints_ok_make:
  assumes "joints_ok cfg js" "MaybeGetSign cfg i \<noteq> None"
    and "find_or_make sj_id (\<lambda>i. state_joint_default\<lparr>sj_id := i\<rparr>) i js = (k, js')"
  shows "joints_ok cfg js'"
proof (cases "first_index (\<lambda>x. sj_id x = i) js")
  case None
  then have "js' = js @ [state_joint_default\<lparr>sj_id := i\<rparr>]" "i \<notin> sj_id ` set js"
    using assms(3) by (simp add: find_or_make_def) (use None in \<open>auto simp: first_index_None\<close>)
  with assms(1,2) show ?thesis by (simp add: joints_ok_def)
qed (use assms in \<open>simp add: find_or_make_def\<close>)

lemma update_joints_ok: "joints_ok cfg js \<Longrightarrow> update_joints cfg rs js = Go (ok, js') \<Longrightarrow> joints_ok cfg js'"
proof (induction rs arbitrary: js)
  case (Cons r rs)
  show ?case
  proof (cases "MaybeGetSign cfg (rp_id r)")
    case (Some sg)
    obtain k xs where f: "find_or_make sj_id (\<lambda>i. state_joint_default\<lparr>sj_id := i\<rparr>) (rp_id r) js = (k, xs)" by force
    from Cons.prems(1) Some f have x: "joints_ok cfg xs" by (auto intro: joints_ok_make)
    show ?thesis
    proof (cases "rp_value r")
      case None
      with Cons x Some f show ?thesis by simp
    next
      case (Some v)
      with Cons.prems(2) \<open>MaybeGetSign cfg (rp_id r) = Some sg\<close> f obtain j where
        "joint_update sg (rp_reg r) v (xs ! k) = Go j" "update_joints cfg rs (xs[k := j]) = Go (ok, js')"
        by (auto simp: rbind_Go)
      with Cons.IH [OF joints_ok_update [OF x joint_update_id]] show ?thesis by blast
    qed
  qed (use Cons.prems in simp)
qed simp

lemma update_joints_known:
  "update_joints cfg rs js = Go (ok, js') \<Longrightarrow> list_all (\<lambda>r. MaybeGetSign cfg (rp_id r) \<noteq> None) rs \<Longrightarrow> ok"
  by (induction rs arbitrary: js) (auto simp: Let_def rbind_Go split: prod.splits option.splits)

lemma joints_ok_sort: "joints_ok cfg (sort_key f js) = joints_ok cfg js"
  by (simp add: joints_ok_def distinct_map list_all_iff)

lemma state_ok_joints: "state_ok cfg s \<Longrightarrow> joints_ok cfg js \<Longrightarrow> state_ok cfg (s\<lparr>joints := js\<rparr>)"
  by (simp add: state_ok_def joints_ok_def flip_phase_def list_all_iff)

lemma state_ok_joints_ok: "state_ok cfg s \<Longrightarrow> joints_ok cfg (joints s)"
  by (simp add: state_ok_def joints_ok_def list_all_iff)

lemma check_faults_cases:
  "check_faults cfg now s = s \<and> (q_mode s \<noteq> kFault \<longrightarrow> (\<forall>j \<in> set (joints s). sj_fault j = 0)) \<or>
   (\<exists>m. check_faults cfg now s = Fault cfg now m s \<and> m \<noteq> NoFault)"
  by (auto simp: check_faults_def Let_def filter_empty_conv)

lemma check_voltage_cases:
  "\<exists>v. check_voltage cfg now s = s\<lparr>robot_voltage := v\<rparr> \<and> \<not> dless v (Fin (cf_min_voltage cfg)) \<or>
    (\<exists>m. check_voltage cfg now s = Fault cfg now m (s\<lparr>robot_voltage := v\<rparr>) \<and> m \<noteq> NoFault)"
  by (simp add: check_voltage_def Let_def) blast

lemma quad_inv_cong:
  assumes "quad_inv cfg s" "q_mode s' = q_mode s" "q_fault s' = q_fault s" "client_command s' = client_command s"
    "q_stand_up s' = q_stand_up s" "q_jump s' = q_jump s" "q_backflip s' = q_backflip s" "joints_ok cfg (joints s')"
  shows "quad_inv cfg s'"
proof -
  have "output_ok s' = output_ok s" unfolding output_ok_def assms(2,4) by (rule refl)
  with assms show ?thesis by (simp add: quad_inv_def fault_ok_def state_ok_def flip_phase_def joints_ok_def list_all_iff)
qed

lemma quad_inv_joints: "quad_inv cfg s \<Longrightarrow> joints_ok cfg (joints s)"
  by (simp add: quad_inv_def state_ok_joints_ok)

lemma quad_inv_frame:
  assumes "quad_inv cfg s"
  shows "quad_inv cfg (s\<lparr>legs_B := l, frames := g\<rparr>)" "quad_inv cfg (s\<lparr>robot_voltage := v\<rparr>)" "quad_inv cfg (s\<lparr>servos := x\<rparr>)"
    "quad_inv cfg (s\<lparr>missing_replies := n\<rparr>)" "quad_inv cfg (s\<lparr>outstanding := b\<rparr>)" "quad_inv cfg (swap_logs s)"
    "joints_ok cfg js \<Longrightarrow> quad_inv cfg (s\<lparr>joints := js\<rparr>)"
  by (rule quad_inv_cong [OF assms]; simp add: swap_logs_def quad_inv_joints [OF assms])+

lemma inv_state_ok: "quad_inv cfg s \<Longrightarrow> state_ok cfg s"
  by (simp add: quad_inv_def)

lemma check_faults_inv:
  assumes "quad_inv cfg s"
  shows "quad_inv cfg (check_faults cfg now s) \<and> (q_mode s = kFault \<longrightarrow> q_mode (check_faults cfg now s) = kFault) \<and>
    current_command (check_faults cfg now s) = current_command s \<and> joints (check_faults cfg now s) = joints s"
  using check_faults_cases [of cfg now s] assms Fault_inv [OF _ inv_state_ok [OF assms]] by auto

lemma check_voltage_inv:
  assumes "quad_inv cfg s"
  shows "quad_inv cfg (check_voltage cfg now s) \<and> (q_mode s = kFault \<longrightarrow> q_mode (check_voltage cfg now s) = kFault) \<and>
    current_command (check_voltage cfg now s) = current_command s \<and> joints (check_voltage cfg now s) = joints s"
proof -
  obtain v where "check_voltage cfg now s = s\<lparr>robot_voltage := v\<rparr> \<or>
    (\<exists>m. check_voltage cfg now s = Fault cfg now m (s\<lparr>robot_voltage := v\<rparr>) \<and> m \<noteq> NoFault)"
    using check_voltage_cases by blast
  with quad_inv_frame(2) [OF assms, of v] inv_state_ok [OF quad_inv_frame(2) [OF assms, of v]] show ?thesis
    by (auto intro: Fault_inv)
qed

lemma check_status_inv:
  assumes "quad_inv cfg s" "check_status geo cfg now imu s = (ok, s')"
  shows "quad_inv cfg s' \<and> (q_mode s = kFault \<longrightarrow> q_mode s' = kFault) \<and> current_command s' = current_command s \<and>
    joints s' = joints s \<and> (ok \<longleftrightarrow> length (joints s) = kNumServos)"
proof -
  define t where "t = check_faults cfg now s"
  obtain l g where lg: "sense geo imu (joints t) (old_legs_B t) (old_legs_R t) (frames t) = (l, g)" by force
  have f: "quad_inv cfg t" "q_mode s = kFault \<longrightarrow> q_mode t = kFault" "current_command t = current_command s" "joints t = joints s"
    using check_faults_inv [OF assms(1), of now] by (simp_all add: t_def)
  from assms(2) lg have "length (joints t) \<noteq> kNumServos \<and> s' = t \<and> \<not> ok \<or>
      length (joints t) = kNumServos \<and> ok \<and> s' = check_voltage cfg now (t\<lparr>legs_B := l, frames := g\<rparr>)"
    by (auto simp: check_status_def Let_def t_def [symmetric] split: if_splits)
  with f check_voltage_inv [OF quad_inv_frame(1) [OF f(1), where l = l and g = g], where now = now] show ?thesis by auto
qed

lemma UpdateStatus_ok:
  assumes "UpdateStatus geo cfg now imu replies s = Go (ok, s')"
  obtains svs ok' js where "update_joints cfg replies (joints s) = Go (ok', js)"
    "(ok, s') = (if ok' then check_status geo cfg now imu (s\<lparr>servos := svs, joints := sort_key sj_id js\<rparr>)
                 else (False, s\<lparr>servos := svs, joints := js\<rparr>))"
proof -
  have "\<exists>svs. (if q_mode s = kConfiguring then UpdateConfiguringStatus replies s else Go s) = Go t \<longrightarrow> t = s\<lparr>servos := svs\<rparr>" for t
  proof (cases "q_mode s = kConfiguring")
    case False
    then show ?thesis by (intro exI [of _ "servos s"]) simp
  qed (auto simp: UpdateConfiguringStatus_def rbind_Go)
  with assms obtain svs where
    "rbind (update_joints cfg replies (joints s)) (\<lambda>(ok, js).
       Go (if ok then check_status geo cfg now imu (s\<lparr>servos := svs, joints := sort_key sj_id js\<rparr>)
           else (False, s\<lparr>servos := svs, joints := js\<rparr>))) = Go (ok, s')"
    unfolding UpdateStatus_def rbind_Go by fastforce
  then show thesis unfolding rbind_Go by (auto intro: that [OF _ sym])
qed

lemma UpdateStatus_inv:
  assumes "quad_inv cfg s" "UpdateStatus geo cfg now imu replies s = Go (ok, s')"
  shows "quad_inv cfg s' \<and> (q_mode s = kFault \<longrightarrow> q_mode s' = kFault) \<and> current_command s' = current_command s"
proof -
  from assms(2) obtain svs ok' js where u: "update_joints cfg replies (joints s) = Go (ok', js)" and
    r: "(ok, s') = (if ok' then check_status geo cfg now imu (s\<lparr>servos := svs, joints := sort_key sj_id js\<rparr>)
                 else (False, s\<lparr>servos := svs, joints := js\<rparr>))"
    by (rule UpdateStatus_ok)
  have js: "joints_ok cfg js" using update_joints_ok [OF quad_inv_joints [OF assms(1)] u] .
  have i: "quad_inv cfg (s\<lparr>servos := svs, joints := xs\<rparr>)" if "joints_ok cfg xs" for xs
    using quad_inv_frame(7) [OF quad_inv_frame(3) [OF assms(1)] that] .
  show ?thesis
  proof (cases ok')
    case True
    with r have "check_status geo cfg now imu (s\<lparr>servos := svs, joints := sort_key sj_id js\<rparr>) = (ok, s')" by simp
    from check_status_inv [OF i this] js show ?thesis by (simp add: joints_ok_sort)
  qed (use r i [OF js] in simp)
qed

section \<open>The control cycle\<close>

lemma RunControl_inv:
  assumes "quad_inv cfg s" "RunControl geo cfg fuel now s = Go s'"
  shows "quad_inv cfg s'"
proof -
  have i: "state_ok cfg s" "q_mode s = kFault \<longrightarrow> q_fault s \<noteq> NoFault" using assms(1) by (simp_all add: quad_inv_def fault_ok_def)
  from assms(2) obtain t where t: "t = s \<or> MaybeChangeMode geo cfg now s = Go t" and c: "do_control geo cfg fuel now t = Go s'"
    unfolding RunControl_def rbind_Go by (metis run.inject)
  from t i MaybeChangeMode_ok [of geo cfg now s t] have "state_ok cfg t \<and> (q_mode t = kFault \<longrightarrow> q_fault t \<noteq> NoFault)" by blast
  with do_control_inv [OF _ _ c] show ?thesis by blast
qed

text \<open>Once the controller is in the fault mode, a cycle brakes, or stops if that is commanded.\<close>

lemma RunControl_fault:
  assumes "q_mode s = kFault" "RunControl geo cfg fuel now s = Go s'"
  shows "s' = (if cmd_mode (current_command s) = kStopped then DoControl_Stopped cfg (s\<lparr>q_mode := kStopped, mode_start := now\<rparr>)
    else DoControl_Fault cfg s)"
  using assms
  by (cases "cmd_mode (current_command s)")
    (auto simp: RunControl_def MaybeChangeMode_def change_mode_def do_control_def leave_mode_def reset_mode_def
      enter_locomotion_def Let_def)

lemma HandleStatus_cases:
  assumes "HandleStatus geo cfg fuel now imu replies s = Go s'"
  obtains n where "s' = s\<lparr>missing_replies := n, outstanding := False\<rparr>" "length (joints s) \<noteq> kNumServos"
  | n t where "UpdateStatus geo cfg now imu replies (s\<lparr>missing_replies := n\<rparr>) = Go (False, t)" "s' = t\<lparr>outstanding := False\<rparr>"
  | n t u where "UpdateStatus geo cfg now imu replies (s\<lparr>missing_replies := n\<rparr>) = Go (True, t)"
      "RunControl geo cfg fuel now (swap_logs t) = Go u" "s' = u \<or> s' = u\<lparr>outstanding := False\<rparr>"
proof -
  from assms obtain m where h: "(let s = s\<lparr>missing_replies := int kNumServos - int (found_servos m)\<rparr>
       in if found_servos m \<noteq> kNumServos \<and> length (joints s) \<noteq> kNumServos then Go (s\<lparr>outstanding := False\<rparr>)
          else
            rbind (UpdateStatus geo cfg now imu replies s) (\<lambda>(ok, s).
              if \<not> ok then Go (s\<lparr>outstanding := False\<rparr>)
              else
                rbind (RunControl geo cfg fuel now (swap_logs s)) (\<lambda>s.
                  Go (if client_command s \<noteq> [] then s else HandleCommand s)))) = Go s'"
    unfolding HandleStatus_def rbind_Go by blast
  define n where "n = int kNumServos - int (found_servos m)"
  show thesis
  proof (cases "found_servos m \<noteq> kNumServos \<and> length (joints s) \<noteq> kNumServos")
    case True
    with h show thesis by (auto simp: Let_def intro: that(1))
  next
    case False
    with h obtain ok t where u: "UpdateStatus geo cfg now imu replies (s\<lparr>missing_replies := n\<rparr>) = Go (ok, t)" and
      r: "(if \<not> ok then Go (t\<lparr>outstanding := False\<rparr>)
           else rbind (RunControl geo cfg fuel now (swap_logs t)) (\<lambda>s. Go (if client_command s \<noteq> [] then s else HandleCommand s))) = Go s'"
      unfolding n_def by (auto simp: Let_def rbind_Go)
    show thesis
    proof (cases ok)
      case True
      with r obtain v where "RunControl geo cfg fuel now (swap_logs t) = Go v" "s' = v \<or> s' = v\<lparr>outstanding := False\<rparr>"
        by (auto simp: rbind_Go HandleCommand_def split: if_splits)
      with u True show thesis by (auto intro: that(3))
    qed (use u r that(2) in auto)
  qed
qed

lemma HandleStatus_inv:
  assumes "quad_inv cfg s" "HandleStatus geo cfg fuel now imu replies s = Go s'"
  shows "quad_inv cfg s'"
  using assms(2)
proof (cases rule: HandleStatus_cases)
  case (1 n)
  then show ?thesis using quad_inv_frame(5) [OF quad_inv_frame(4) [OF assms(1)]] by simp
next
  case (2 n t)
  then show ?thesis using UpdateStatus_inv [OF quad_inv_frame(4) [OF assms(1)] 2(1)] quad_inv_frame(5) by blast
next
  case (3 n t u)
  have "quad_inv cfg t" using UpdateStatus_inv [OF quad_inv_frame(4) [OF assms(1)] 3(1)] by blast
  from RunControl_inv [OF quad_inv_frame(6) [OF this] 3(2)] 3(3) show ?thesis using quad_inv_frame(5) by blast
qed

lemma quad_start_inv: "quad_inv cfg (quad_start geo g p)"
  by (simp add: quad_inv_def output_ok_def fault_ok_def state_ok_def quad_start_def stand_up_default_def jump_default_def
      flip_phase_def backflip_default_def)

lemma quad_step_inv:
  assumes "quad_inv cfg s" "quad_step geo cfg fuel s s'"
  shows "quad_inv cfg s'"
  using assms(2)
proof cases
  case (timer servo_debug)
  then show ?thesis using quad_inv_frame(5) [OF assms(1)] assms(1) by (simp add: HandleTimer_def)
next
  case (status now imu replies)
  show ?thesis by (rule HandleStatus_inv [OF assms(1) status(2)])
next
  case transmitted
  then show ?thesis using quad_inv_frame(5) [OF assms(1)] by (simp add: HandleCommand_def)
next
  case (operator now c)
  show ?thesis
    by (rule quad_inv_cong [OF assms(1)]) (simp_all add: operator Command_def Let_def quad_inv_joints [OF assms(1)])
qed

lemma quad_reach_quad_inv: "quad_reach geo cfg fuel s \<Longrightarrow> quad_inv cfg s"
  by (induction rule: quad_reach.induct) (auto intro: quad_start_inv quad_step_inv)

text \<open>C5 (invariant). In every reachable state of the controller the last requests to the servos fit the mode: no power
  while stopped, no power or a new zero position while configuring, braking without command values in the fault and
  zero-velocity modes. A fault has a text and the stopped mode has none. The joints are distinct and configured, the stage of
  the prepositioning is 0 to 2, the velocity of the jump is a number, and the back flip is never done.\<close>

theorem quad_reach_inv: "quad_reach geo cfg fuel s \<Longrightarrow> quad_inv cfg s"
  by (rule quad_reach_quad_inv)

theorem quad_reach_inv_witness:
  "quad_inv bench_config (HandleCommand (quad_start flat () ()\<lparr>outstanding := True\<rparr>))"
proof -
  have "quad_step flat bench_config 5 (quad_start flat () ()) (snd (HandleTimer bench_config False (quad_start flat () ())))"
    by (rule quad_step.timer)
  then have "quad_reach flat bench_config 5 (quad_start flat () ()\<lparr>outstanding := True\<rparr>)"
    using quad_reach.step [OF quad_reach.start] by (simp add: HandleTimer_def quad_start_def)
  then have "quad_reach flat bench_config 5 (HandleCommand (quad_start flat () ()\<lparr>outstanding := True\<rparr>))"
    by (rule quad_reach.step) (simp add: quad_step.transmitted)
  then show ?thesis by (rule quad_reach_inv)
qed

lemma DoControl_Stopped_sel:
  "q_mode (DoControl_Stopped cfg s) = q_mode s" "joints (DoControl_Stopped cfg s) = joints s"
  "robot_voltage (DoControl_Stopped cfg s) = robot_voltage s" "current_command (DoControl_Stopped cfg s) = current_command s"
  by (simp_all add: DoControl_Stopped_def EmitStop_def ControlJoints_def EmitControl_def)

lemma DoControl_Fault_sel:
  "q_mode (DoControl_Fault cfg s) = q_mode s" "joints (DoControl_Fault cfg s) = joints s" "q_fault (DoControl_Fault cfg s) = q_fault s"
  "robot_voltage (DoControl_Fault cfg s) = robot_voltage s" "current_command (DoControl_Fault cfg s) = current_command s"
  by (simp_all add: DoControl_Fault_def DoControl_ZeroVelocity_def ControlJoints_def EmitControl_def)

lemma swap_logs_sel [simp]:
  "q_mode (swap_logs s) = q_mode s" "current_command (swap_logs s) = current_command s" "joints (swap_logs s) = joints s"
  "robot_voltage (swap_logs s) = robot_voltage s" "q_fault (swap_logs s) = q_fault s"
  by (simp_all add: swap_logs_def)

lemma check_status_fault:
  assumes "check_status geo cfg now imu s = (True, s')"
    and "(\<exists>j \<in> set (joints s'). sj_fault j \<noteq> 0) \<or> dless (robot_voltage s') (Fin (cf_min_voltage cfg))"
  shows "q_mode s' = kFault"
proof -
  define t where "t = check_faults cfg now s"
  obtain l g where lg: "sense geo imu (joints t) (old_legs_B t) (old_legs_R t) (frames t) = (l, g)" by force
  define u where "u = t\<lparr>legs_B := l, frames := g\<rparr>"
  from assms(1) lg have s': "s' = check_voltage cfg now u"
    by (auto simp: check_status_def Let_def t_def [symmetric] u_def split: if_splits)
  obtain v where "s' = u\<lparr>robot_voltage := v\<rparr> \<and> \<not> dless v (Fin (cf_min_voltage cfg)) \<or> q_mode s' = kFault"
    using check_voltage_cases [of cfg now u] s' by auto
  then show ?thesis
    using assms(2) check_faults_cases [of cfg now s] by (auto simp: u_def t_def)
qed

lemma UpdateStatus_enough:
  assumes "quad_inv cfg s" "UpdateStatus geo cfg now imu replies s = Go (ok, t)"
    and "list_all (\<lambda>r. MaybeGetSign cfg (rp_id r) \<noteq> None) replies" "length (joints t) = kNumServos"
  obtains svs js where "ok" "check_status geo cfg now imu (s\<lparr>servos := svs, joints := js\<rparr>) = (True, t)"
  using assms(2)
proof (rule UpdateStatus_ok)
  fix svs ok' js
  assume u: "update_joints cfg replies (joints s) = Go (ok', js)" and
    c: "(ok, t) = (if ok' then check_status geo cfg now imu (s\<lparr>servos := svs, joints := sort_key sj_id js\<rparr>)
       else (False, s\<lparr>servos := svs, joints := js\<rparr>))"
  have ok': "ok'" by (rule update_joints_known [OF u assms(3)])
  have "joints_ok cfg (sort_key sj_id js)" using update_joints_ok [OF quad_inv_joints [OF assms(1)] u] by (simp add: joints_ok_sort)
  from quad_inv_frame(7) [OF quad_inv_frame(3) [OF assms(1)] this]
  have "quad_inv cfg (s\<lparr>servos := svs, joints := sort_key sj_id js\<rparr>)" .
  with check_status_inv [of cfg _ geo now imu ok t] c ok' assms(4) have "ok" by auto
  with c ok' that show thesis by simp
qed

lemma change_mode_sensors: "change_mode geo now s = Go s' \<Longrightarrow> sensors s' = sensors s"
proof -
  have l: "sensors (leave_mode geo now old t) = sensors t" for old and t :: "('a, 'b) quad"
    by (simp add: leave_mode_def reset_mode_def sensors_def split: Mode.splits)
  have e: "sensors (enter_locomotion geo t) = sensors t" for t :: "('a, 'b) quad"
    by (simp add: enter_locomotion_def latch_jump_def set_jump_def Let_def sensors_def)
  have u: "sensors (t\<lparr>q_mode := m\<rparr>) = sensors t" "sensors (t\<lparr>q_mode := m, q_stand_up := x\<rparr>) = sensors t"
    for t :: "('a, 'b) quad" and m x by (simp_all add: sensors_def)
  show "change_mode geo now s = Go s' \<Longrightarrow> sensors s' = sensors s"
    by (auto simp: change_mode_def Let_def l e u split: if_splits)
qed

lemma MaybeChangeMode_sensors: "MaybeChangeMode geo cfg now s = Go s' \<Longrightarrow> sensors s' = sensors s"
  by (auto simp: MaybeChangeMode_def IsConfiguringDone_def Let_def split: if_splits dest!: change_mode_sensors)
    (simp_all add: sensors_def)

lemma RunControl_sensors:
  assumes "quad_inv cfg s" "RunControl geo cfg fuel now s = Go s'"
  shows "sensors s' = sensors s"
proof -
  have i: "state_ok cfg s" "q_mode s = kFault \<longrightarrow> q_fault s \<noteq> NoFault" using assms(1) by (simp_all add: quad_inv_def fault_ok_def)
  from assms(2) obtain t where t: "t = s \<or> MaybeChangeMode geo cfg now s = Go t" and c: "do_control geo cfg fuel now t = Go s'"
    unfolding RunControl_def rbind_Go by (metis run.inject)
  from t i MaybeChangeMode_ok [of geo cfg now s t] have "state_ok cfg t \<and> (q_mode t = kFault \<longrightarrow> q_fault t \<noteq> NoFault)" by blast
  with do_control_inv [OF _ _ c] t MaybeChangeMode_sensors [of geo cfg now s t] show ?thesis by auto
qed

text \<open>A cycle with twelve replies of which one reports a fault never stops the process.\<close>

lemma RunControl_fault_total:
  assumes "q_mode s = kFault" "cmd_mode (current_command s) \<notin> {kConfiguring, kNumModes}"
  obtains s' where "RunControl geo cfg fuel now s = Go s'"
  using assms that
  by (cases "cmd_mode (current_command s)")
    (auto simp: RunControl_def MaybeChangeMode_def change_mode_def do_control_def leave_mode_def reset_mode_def
      enter_locomotion_def Let_def)

lemma HandleStatus_total:
  assumes "quad_inv cfg s" "servo_bitmask replies 0 = Go m" "found_servos m = kNumServos" "q_mode s = kConfiguring \<Longrightarrow> update_servos replies (servos s) = Go svs"
    and "update_joints cfg replies (joints s) = Go (True, js)" "length js = kNumServos" "\<exists>j \<in> set js. sj_fault j \<noteq> 0"
    and "cmd_mode (current_command s) \<notin> {kConfiguring, kNumModes}"
  obtains s' where "HandleStatus geo cfg fuel now imu replies s = Go s'" "joints s' = sort_key sj_id js"
    "current_command s' = current_command s"
proof -
  define s0 where "s0 = s\<lparr>missing_replies := 0\<rparr>"
  define s1 where "s1 = (if q_mode s = kConfiguring then s0\<lparr>servos := svs\<rparr> else s0)"
  define s2 where "s2 = s1\<lparr>joints := sort_key sj_id js\<rparr>"
  have s0: "quad_inv cfg s0" using quad_inv_frame(4) [OF assms(1)] by (simp add: s0_def)
  have js: "joints_ok cfg (sort_key sj_id js)" using update_joints_ok [OF quad_inv_joints [OF assms(1)] assms(5)] by (simp add: joints_ok_sort)
  have "quad_inv cfg s1" using s0 quad_inv_frame(3) [OF s0] by (simp add: s1_def)
  from quad_inv_frame(7) [OF this js] have s2: "quad_inv cfg s2" by (simp add: s2_def)
  obtain ok t where c: "check_status geo cfg now imu s2 = (ok, t)" by force
  from check_status_inv [OF s2 c] assms(6) have ok: "ok" and t: "quad_inv cfg t" "current_command t = current_command s"
    "joints t = sort_key sj_id js" by (simp_all add: s2_def s1_def s0_def)
  have u: "UpdateStatus geo cfg now imu replies s0 = Go (True, t)"
    using c ok assms(4,5)
    by (cases "q_mode s = kConfiguring") (simp_all add: UpdateStatus_def UpdateConfiguringStatus_def s2_def s1_def s0_def)
  have mt: "q_mode t = kFault" using check_status_fault [of geo cfg now imu s2 t] c ok t(3) assms(7) by simp
  from mt t(2) assms(8) obtain v where v: "RunControl geo cfg fuel now (swap_logs t) = Go v"
    using RunControl_fault_total [of "swap_logs t" geo cfg fuel now] by auto
  have "joints v = joints t" using RunControl_sensors [OF quad_inv_frame(6) [OF t(1)] v] by (simp add: sensors_def)
  moreover have "current_command v = current_command s"
    using RunControl_fault [OF _ v] mt t(2) by (simp add: DoControl_Stopped_sel DoControl_Fault_sel)
  moreover have "HandleStatus geo cfg fuel now imu replies s = Go (if client_command v \<noteq> [] then v else HandleCommand v)"
    using assms(2,3) u v by (simp add: HandleStatus_def s0_def [symmetric])
  ultimately show thesis using that t(3) by (auto simp: HandleCommand_def)
qed

text \<open>The bench robot, told to hold, with a fault of all servos.\<close>

definition fault_replies :: "reply list" where
  "fault_replies = map (\<lambda>i. \<lparr>rp_id = i, rp_reg = kFaultReg, rp_value = Some (Int8 1)\<rparr>) [1 .. 12]"

definition bench_joints :: "state_joint list" where
  "bench_joints = map (\<lambda>i. state_joint_default\<lparr>sj_id := i, sj_fault := 1\<rparr>) [1 .. 12]"

definition bench_on :: "(unit, unit) quad" where
  "bench_on = Command bench_config 0 ((command_default ())\<lparr>cmd_mode := kZeroVelocity\<rparr>)
     (snd (HandleTimer bench_config False (quad_start flat () ())))"

lemma bench_replies:
  "servo_bitmask fault_replies 0 = Go 0x1FFE" "found_servos 0x1FFE = kNumServos"
  "update_servos fault_replies [] = Go (map (\<lambda>i. servo_default\<lparr>sv_id := i\<rparr>) [1 .. 12])"
  "update_joints bench_config fault_replies [] = Go (True, bench_joints)"
  "update_joints bench_config fault_replies bench_joints = Go (True, bench_joints)"
  "sort_key sj_id bench_joints = bench_joints"
  "list_all (\<lambda>r. MaybeGetSign bench_config (rp_id r) \<noteq> None) fault_replies" "length bench_joints = kNumServos"
  by code_simp+

lemma bench_fault: "\<exists>j \<in> set bench_joints. sj_fault j \<noteq> 0"
  by (auto simp: bench_joints_def intro!: bexI [of _ 1])

lemma bench_on:
  "quad_reach flat bench_config 5 bench_on" "outstanding bench_on" "servos bench_on = []" "joints bench_on = []"
  "q_mode bench_on = kConfiguring" "cmd_mode (current_command bench_on) = kZeroVelocity"
proof -
  show "quad_reach flat bench_config 5 bench_on"
    unfolding bench_on_def by (rule quad_reach.step, rule quad_reach.step, rule quad_reach.start) (rule quad_step.intros)+
qed (simp_all add: bench_on_def Command_def HandleTimer_def quad_start_def command_default_def)

lemma bench_cycle:
  obtains s where "HandleStatus flat bench_config 5 0 () fault_replies bench_on = Go s" "joints s = bench_joints"
    "cmd_mode (current_command s) = kZeroVelocity"
proof (rule HandleStatus_total [OF quad_reach_quad_inv [OF bench_on(1)] bench_replies(1,2), where geo = flat and fuel = 5 and now = 0 and imu = "()"])
  show "update_joints bench_config fault_replies (joints bench_on) = Go (True, bench_joints)"
    using bench_replies(4) bench_on(4) by simp
qed (use bench_replies bench_on bench_fault that in auto)

lemma cycle_fault_mode:
  assumes "quad_reach geo cfg fuel s" "HandleStatus geo cfg fuel now imu replies s = Go s'"
    and "list_all (\<lambda>r. MaybeGetSign cfg (rp_id r) \<noteq> None) replies" "length (joints s') = kNumServos"
    and "(\<exists>j \<in> set (joints s'). sj_fault j \<noteq> 0) \<or> dless (robot_voltage s') (Fin (cf_min_voltage cfg))"
  shows "q_mode s' = (if cmd_mode (current_command s) = kStopped then kStopped else kFault)"
proof -
  have i: "quad_inv cfg s" by (rule quad_reach_quad_inv [OF assms(1)])
  show ?thesis
    using assms(2)
  proof (cases rule: HandleStatus_cases)
    case (2 n t)
    then show ?thesis using UpdateStatus_enough [OF quad_inv_frame(4) [OF i] 2(1) assms(3)] assms(4) by simp
  next
    case (3 n t u)
    have t: "quad_inv cfg t" "current_command t = current_command s"
      using UpdateStatus_inv [OF quad_inv_frame(4) [OF i] 3(1)] by simp_all
    have "sensors s' = sensors t"
      using RunControl_sensors [OF quad_inv_frame(6) [OF t(1)] 3(2)] 3(3) by (auto simp: sensors_def)
    then have v: "joints s' = joints t" "robot_voltage s' = robot_voltage t" by (simp_all add: sensors_def)
    obtain svs js where "check_status geo cfg now imu (s\<lparr>missing_replies := n, servos := svs, joints := js\<rparr>) = (True, t)"
      using UpdateStatus_enough [OF quad_inv_frame(4) [OF i] 3(1) assms(3)] assms(4) v by metis
    then have "q_mode t = kFault" using check_status_fault assms(5) v by metis
    with RunControl_fault [OF _ 3(2)] t(2) 3(3) show ?thesis by (auto simp: DoControl_Fault_sel DoControl_Stopped_sel)
  qed (use assms(4) in simp)
qed



text \<open>C3 (safety). A fault is latched: from a reachable state in the fault mode every cycle ends in the fault mode, with the
  fault text set and every servo braking, whatever the replies are and whatever is commanded short of a stop.\<close>

theorem fault_latched:
  assumes "quad_reach geo cfg fuel s" "q_mode s = kFault" "cmd_mode (current_command s) \<noteq> kStopped"
    and "HandleStatus geo cfg fuel now imu replies s = Go s'"
  shows "q_mode s' = kFault \<and> q_fault s' \<noteq> NoFault \<and> list_all is_brake (client_command s')"
proof -
  have i: "quad_inv cfg s" by (rule quad_reach_quad_inv [OF assms(1)])
  have "q_mode s' = kFault"
    using assms(4)
  proof (cases rule: HandleStatus_cases)
    case (2 n t)
    with UpdateStatus_inv [OF quad_inv_frame(4) [OF i] 2(1)] assms(2) show ?thesis by simp
  next
    case (3 n t u)
    have t: "q_mode t = kFault" "current_command t = current_command s"
      using UpdateStatus_inv [OF quad_inv_frame(4) [OF i] 3(1)] assms(2) by simp_all
    from RunControl_fault [OF _ 3(2)] t assms(3) have "u = DoControl_Fault cfg (swap_logs t)" by simp
    with 3(3) t show ?thesis by (auto simp: DoControl_Fault_sel)
  qed (use assms(2) in simp)
  with HandleStatus_inv [OF i assms(4)] show ?thesis by (simp add: quad_inv_def fault_ok_def output_ok_def)
qed

theorem fault_latched_witness:
  "\<exists>s s'. HandleStatus flat bench_config 5 0 () fault_replies bench_on = Go s \<and>
     HandleStatus flat bench_config 5 1 () fault_replies s = Go s' \<and> q_mode s' = kFault \<and> list_all is_brake (client_command s')"
proof -
  obtain s where s: "HandleStatus flat bench_config 5 0 () fault_replies bench_on = Go s" "joints s = bench_joints"
      "cmd_mode (current_command s) = kZeroVelocity"
    by (rule bench_cycle)
  have r: "quad_reach flat bench_config 5 s" by (rule quad_reach.step [OF bench_on(1) quad_step.status [OF bench_on(2) s(1)]])
  have m: "q_mode s = kFault" "cmd_mode (current_command s) = kZeroVelocity"
    using cycle_fault_mode [OF bench_on(1) s(1) bench_replies(7)] bench_replies(8) bench_fault bench_on(6) s(2,3) by simp_all
  obtain s' where "HandleStatus flat bench_config 5 1 () fault_replies s = Go s'"
    by (rule HandleStatus_total [OF quad_reach_quad_inv [OF r] bench_replies(1,2), where js = bench_joints and geo = flat])
      (use m s(2) bench_replies bench_fault in auto)
  with fault_latched [OF r m(1) _ this] s(1) m(2) show ?thesis by auto
qed

end
