(* ===== verification/QuadrupedLimits.thy ===== *)
theory QuadrupedLimits
  imports QuadrupedModes "HOL-Library.Multiset"
begin

text \<open>
  What the quadruped controller sends stays within its limits: torques and heights of the legs; and which
  command of the operator counts.
\<close>

section \<open>Requests\<close>

lemma dless_asym: "dless a b \<Longrightarrow> \<not> dless b a"
  by (cases a; cases b) auto

lemma torque_limit_bound:
  assumes "0 \<le> max_torque_Nm cfg"
  shows "\<exists>m. torque_limit cfg j = Some m \<and> \<not> dless (Fin (max_torque_Nm cfg)) m"
  using assms by (cases "jc_max_torque_Nm j") (auto simp: torque_limit_def dmin_def dest: dless_asym)

lemma position_count_limit: "torque_limit cfg j \<noteq> None \<Longrightarrow> 6 \<le> position_count cfg j"
  by (simp add: position_count_def)

lemma joint_request_position:
  "WriteMultiple kCommandPosition vs \<in> set (rq_writes (joint_request cfg j)) \<Longrightarrow>
    vs = map (position_value cfg (the (MaybeGetSign cfg (jc_id j))) j) [0 ..< position_count cfg j]"
  by (cases "MaybeGetSign cfg (jc_id j)"; cases "joint_mode j = ServoPosition") (simp_all add: joint_request_def Let_def split: if_split_asm)

text \<open>C33 (bounds). With a torque limit configured, each position command the controller sends carries a limit for the
  servo, in its sixth value, and this limit does not exceed the configured one, whatever limit the command asks for.\<close>

theorem torque_bounded:
  assumes "0 \<le> max_torque_Nm cfg" "rq \<in> set (client_command (EmitControl cfg s))"
    and "WriteMultiple kCommandPosition vs \<in> set (rq_writes rq)"
  shows "\<exists>m. 6 \<le> length vs \<and> vs ! 5 = WriteTorque m kInt16 \<and> \<not> dless (Fin (max_torque_Nm cfg)) m"
proof -
  from assms(2,3) obtain j where "WriteMultiple kCommandPosition vs \<in> set (rq_writes (joint_request cfg j))"
    by (auto simp: EmitControl_def)
  then obtain sg where vs: "vs = map (position_value cfg sg j) [0 ..< position_count cfg j]" using joint_request_position by metis
  obtain m where m: "torque_limit cfg j = Some m" "\<not> dless (Fin (max_torque_Nm cfg)) m" using torque_limit_bound [OF assms(1)] by blast
  then have "6 \<le> position_count cfg j" by (simp add: position_count_limit)
  with vs m show ?thesis by (intro exI [of _ m]) (simp add: position_value_def)
qed

definition spin_up :: joint_cmd where
  "spin_up = joint_default\<lparr>jc_id := 4, jc_power := True, jc_torque_Nm := Fin 3, jc_max_torque_Nm := Some PosInf\<rparr>"

theorem torque_bounded_witness:
  "\<exists>m. map (position_value bench_config 1 spin_up) [0 ..< 6] ! 5 = WriteTorque m kInt16 \<and> \<not> dless (Fin 10) m"
proof -
  have p: "position_count bench_config spin_up = 6"
    by (simp add: position_count_def torque_limit_def spin_up_def joint_default_def bench_config_def)
  have s: "MaybeGetSign bench_config 4 = Some 1" by (simp add: MaybeGetSign_def bench_config_def upto.simps)
  have r: "joint_request bench_config spin_up \<in> set (client_command (EmitControl bench_config (quad_start flat () ()\<lparr>log_joints := [spin_up]\<rparr>)))"
    by (simp add: EmitControl_def)
  have w: "WriteMultiple kCommandPosition (map (position_value bench_config 1 spin_up) [0 ..< 6]) \<in> set (rq_writes (joint_request bench_config spin_up))"
    using p s by (simp add: joint_request_def joint_mode_def Let_def spin_up_def joint_default_def)
  have b: "max_torque_Nm bench_config = 10" by (simp add: bench_config_def)
  from torque_bounded [OF _ r w] show ?thesis by (auto simp: b)
qed

section \<open>Legs\<close>

text \<open>The legs that are sent to the servos, and logged, are ordered by their ids and have a height within the
  configured bounds; everything else about them is as commanded.\<close>

theorem legs_bounded:
  assumes "ControlLegs_B geo cfg legs s = Go s'" "min_z_B cfg \<le> max_z_B cfg"
  shows "sorted (map leg_id (log_legs_B s')) \<and>
    list_all (\<lambda>l. min_z_B cfg \<le> vz (position l) \<and> vz (position l) \<le> max_z_B cfg) (log_legs_B s') \<and>
    mset (map (\<lambda>l. l\<lparr>position := (position l)\<lparr>vz := 0\<rparr>\<rparr>) (log_legs_B s')) = mset (map (\<lambda>l. l\<lparr>position := (position l)\<lparr>vz := 0\<rparr>\<rparr>) legs)"
proof -
  have l: "log_legs_B s' = map (bound_z cfg) (sort_key leg_id legs)"
    using assms(1) by (auto simp: ControlLegs_B_def Let_def rbind_Go ControlJoints_def EmitControl_def)
  have i: "leg_id \<circ> bound_z cfg = leg_id" by (auto simp: bound_z_def)
  have z: "(\<lambda>l. l\<lparr>position := (position l)\<lparr>vz := 0\<rparr>\<rparr>) \<circ> bound_z cfg = (\<lambda>l. l\<lparr>position := (position l)\<lparr>vz := 0\<rparr>\<rparr>)"
    by (auto simp: bound_z_def)
  have "min_z_B cfg \<le> vz (position (bound_z cfg l)) \<and> vz (position (bound_z cfg l)) \<le> max_z_B cfg" for l
    using assms(2) by (simp add: bound_z_def)
  then show ?thesis unfolding l by (simp add: list_all_iff i z mset_map)
qed

theorem legs_bounded_witness:
  "\<exists>s'. ControlLegs_B flat bench_config [leg_default\<lparr>leg_id := 0, position := \<lparr>vx = 1, vy = 2, vz = 999\<rparr>\<rparr>]
     (quad_start flat () ()\<lparr>legs_B := [\<lparr>ls_leg = 0, ls_position = vzero, ls_velocity = vzero, ls_force_N = vzero, ls_stance = 1\<rparr>]\<rparr>) = Go s' \<and>
     list_all (\<lambda>l. vz (position l) \<le> 300) (log_legs_B s')"
  (is "\<exists>s'. ControlLegs_B flat bench_config ?l ?s = Go s' \<and> _")
proof -
  have "GetLeg bench_config 0 = Go (cf_legs bench_config ! 0)" by (simp add: GetLeg_def bench_config_def upto.simps)
  then obtain s' where s': "ControlLegs_B flat bench_config ?l ?s = Go s'"
    by (simp add: ControlLegs_B_def Let_def leg_joints_def GetLegState_B_def leg_default_def bound_z_def)
  from legs_bounded [OF this] show ?thesis using s' by (auto simp: bench_config_def list_all_iff)
qed

section \<open>Commands of the operator\<close>

definition commands :: "config \<Rightarrow> (real \<times> 'p command) list \<Rightarrow> ('g, 'p) quad \<Rightarrow> ('g, 'p) quad" where
  "commands cfg cs s = foldl (\<lambda>s (now, c). Command cfg now c s) s cs"

lemma Command_taken:
  "priority (current_command s) \<le> priority c \<Longrightarrow> current_command (Command cfg now c s) = c \<and>
    command_timestamp (Command cfg now c s) = Some now"
  by (simp add: Command_def)

lemma Command_refused:
  assumes "priority c < priority (current_command s)" "command_timestamp s = Some t" "now - t \<le> command_timeout_s cfg"
  shows "Command cfg now c s = s"
  using assms by (simp add: Command_def command_stale_def)

lemma commands_refused:
  assumes "command_timestamp s = Some t"
    and "list_all (\<lambda>(u, d). priority d < priority (current_command s) \<and> u - t \<le> command_timeout_s cfg) cs"
  shows "commands cfg cs s = s"
  using assms(2)
  by (induction cs) (auto simp: commands_def Command_refused [OF _ assms(1)])

text \<open>A command of a priority not below the current one is taken at once, and it stays in force against
  all commands of a lower priority until it has timed out. The first command that comes later than that replaces it, whatever
  its priority.\<close>

theorem command_priority:
  assumes "priority (current_command s) \<le> priority c"
    and "list_all (\<lambda>(u, d). priority d < priority c \<and> u - t \<le> command_timeout_s cfg) cs"
    and "command_timeout_s cfg < now - t"
  shows "current_command (commands cfg ((t, c) # cs) s) = c \<and>
    current_command (commands cfg ((t, c) # cs @ [(now, d)]) s) = d"
proof -
  let ?s = "Command cfg t c s"
  have t: "current_command ?s = c" "command_timestamp ?s = Some t" using Command_taken [OF assms(1)] by blast+
  then have c: "commands cfg cs ?s = ?s" using commands_refused [of ?s t cfg cs] assms(2) by simp
  have "current_command (Command cfg now d ?s) = d"
    using t assms(3) by (simp add: Command_def [of cfg now d ?s] command_stale_def)
  with c t(1) show ?thesis by (simp add: commands_def)
qed

theorem command_priority_witness:
  "current_command (commands bench_config [(1, (command_default ())\<lparr>priority := 2\<rparr>), (3 / 2, (command_default ())\<lparr>priority := 1\<rparr>)]
     (quad_start flat () ())) = (command_default ())\<lparr>priority := 2\<rparr>"
  using command_priority [of "quad_start flat () ()" "(command_default ())\<lparr>priority := 2\<rparr>" 1 bench_config
      "[(3 / 2, (command_default ())\<lparr>priority := 1\<rparr>)]" 3 "command_default ()"]
  by (simp add: quad_start_def command_default_def bench_config_def)

end
