(* ===== verification/TrotTotal.thy ===== *)
theory TrotTotal
  imports TrotProps QuadrupedModes
begin

text \<open>
  A cycle of the walk always returns: on a well-formed robot none of the assertions of the gait fails and no index is out of
  range. The concrete examples of the gait are here too.
\<close>

section \<open>What a cycle needs\<close>

definition four_legs :: "leg_cmd list \<Rightarrow> bool" where
  "four_legs legs \<longleftrightarrow> 4 \<le> length legs \<and> (\<forall>i < 4. int i \<in> leg_id ` set legs) \<and> leg_id ` set legs \<subseteq> {0 ..< 4}"

definition walk_ready :: "('g, 'p, 'i) geometry \<Rightarrow> config \<Rightarrow> ('g, 'p) quad \<Rightarrow> bool" where
  "walk_ready geo cfg s \<longleftrightarrow>
     rb_still geo (frames s) \<and> (\<forall>i < 4. (\<exists>l. GetLeg cfg (int i) = Go l) \<and> (\<exists>l. GetLegState_B (int i) s = Go l) \<and>
       (\<forall>p v w. leave_time geo i p v w \<noteq> Abort \<and> leave_time geo i p v w \<noteq> Spin))"

lemma run_Go_exI: "r \<noteq> Abort \<Longrightarrow> r \<noteq> Spin \<Longrightarrow> \<exists>x. r = Go x"
  by (cases r) simp_all

lemma walk_frame_ready:
  assumes "walk_frame s s'"
  shows "walk_ready geo cfg s' = walk_ready geo cfg s" "frames s' = frames s"
proof -
  have "s'\<lparr>q_walk := w, swings := sw, desired_v := v, desired_w := u\<rparr> = s\<lparr>q_walk := w, swings := sw, desired_v := v, desired_w := u\<rparr>"
    for w sw v u using assms unfolding walk_frame_def by blast
  from arg_cong [OF this, of frames] show f: "frames s' = frames s" by simp
  show "walk_ready geo cfg s' = walk_ready geo cfg s"
    using f walk_frame_sel(5) [OF assms] by (simp add: walk_ready_def GetLegState_B_def)
qed

lemma update_leg_four:
  assumes "four_legs legs" "i < 4" "\<And>l. leg_id (f l) = leg_id l"
  obtains k where "update_leg (int i) f legs = Go (f (legs ! k), legs[k := f (legs ! k)])" "four_legs (legs[k := f (legs ! k)])" "k < length legs"
    "leg_id (legs ! k) = int i"
proof -
  have "first_index (\<lambda>l. leg_id l = int i) legs \<noteq> None"
    using assms(1,2) unfolding first_index_None by (fastforce simp: four_legs_def)
  then obtain k where k: "first_index (\<lambda>l. leg_id l = int i) legs = Some k" by blast
  note p = first_index_Some [OF k]
  have "map leg_id (legs[k := f (legs ! k)]) = map leg_id legs" using p by (simp add: map_update assms(3)) (metis list_update_id nth_map)
  then have "leg_id ` set (legs[k := f (legs ! k)]) = leg_id ` set legs" by (metis set_map)
  then have "four_legs (legs[k := f (legs ! k)])" using assms(1) by (simp add: four_legs_def)
  then show thesis using k p by (intro that [of k]) (simp_all add: update_leg_def)
qed

section \<open>Updates\<close>

lemma leg_invalid_times_returns:
  assumes "walk_ready geo cfg s" "leg_id ` set legs \<subseteq> {0 ..< 4}"
  shows "\<exists>s'. leg_invalid_times geo cfg legs s = Go s'"
  using assms
proof (induction legs arbitrary: s)
  case (Cons leg legs)
  then have i: "0 \<le> leg_id leg" "leg_id leg < 4" by auto
  let ?i = "nat (leg_id leg)"
  have n: "?i < 4" "int ?i = leg_id leg" using i by auto
  from Cons.prems(1) n obtain ctx where c: "GetLeg cfg (leg_id leg) = Go ctx" "rb_still geo (frames s)"
    unfolding walk_ready_def by (metis)
  from Cons.prems(1) n obtain t where t:
    "leave_time geo ?i (R_to_G geo (frames s) ctx (position leg)) (R_to_G_rot geo (frames s) ctx (velocity leg)) 0 = Go t"
    unfolding walk_ready_def by (metis run_Go_exI)
  let ?s = "set_wleg ?i (\<lambda>l. l\<lparr>wl_invalid_time_s := t\<rparr>) s"
  have "walk_ready geo cfg ?s" using Cons.prems(1) walk_frame_ready [OF walk_frameI(4) [OF walk_frameI(1)]] by metis
  from Cons.IH [OF this] Cons.prems(2) show ?case using i c t by (auto simp: Let_def)
qed simp

fun nonneg :: "double \<Rightarrow> bool" where
  "nonneg (Fin x) = (0 \<le> x)"
| "nonneg NegInf = False"
| "nonneg _ = True"

lemma nonneg_simps: "nonneg (dscale 2 (dabs d))" "nonneg a \<Longrightarrow> nonneg b \<Longrightarrow> nonneg (dmin a b)"
  by (cases d; simp) (simp add: dmin_def)

lemma find_time_returns:
  assumes "walk_ready geo cfg s" "i < 4"
  shows "\<exists>t. find_time geo ctx i s sg = Go t \<and> nonneg t"
proof -
  have "\<exists>t. leave_time geo i p v w = Go t" for p v w using assms unfolding walk_ready_def by (metis run_Go_exI)
  then show ?thesis unfolding find_time_def Let_def
    by (metis (no_types, lifting) nonneg_simps(1) rbind.simps(1))
qed

lemma leg_travel_distances_returns:
  assumes "walk_ready geo cfg s" "list_all (\<lambda>i. i < 4) ids" "length (wk_legs (q_walk s)) = 4"
  shows "\<exists>s'. leg_travel_distances geo cfg ids s = Go s' \<and> length (wk_legs (q_walk s')) = 4 \<and>
    travel_distance (q_walk s') = travel_distance (q_walk s) \<and>
    (\<forall>i < 4. i \<in> set ids \<or> nonneg (wl_travel_distance (wk_legs (q_walk s) ! i)) \<longrightarrow> nonneg (wl_travel_distance (wk_legs (q_walk s') ! i)))"
  using assms
proof (induction ids arbitrary: s)
  case (Cons i ids)
  have i: "i < 4" using Cons.prems by simp
  from Cons.prems(1) i obtain ctx where c: "GetLeg cfg (int i) = Go ctx" unfolding walk_ready_def by metis
  from find_time_returns [OF Cons.prems(1) i, of ctx "-1"] find_time_returns [OF Cons.prems(1) i, of ctx 1]
  obtain a b where ab: "find_time geo ctx i s (-1) = Go a" "find_time geo ctx i s 1 = Go b" "nonneg (dmin a b)"
    using nonneg_simps(2) by metis
  let ?s = "set_wleg i (\<lambda>l. l\<lparr>wl_travel_distance := dmin a b\<rparr>) s"
  have r: "walk_ready geo cfg ?s" using Cons.prems(1) walk_frame_ready [OF walk_frameI(4) [OF walk_frameI(1)]] by metis
  have w: "length (wk_legs (q_walk ?s)) = 4" "travel_distance (q_walk ?s) = travel_distance (q_walk s)"
    "wk_legs (q_walk ?s) ! j = (if j = i then (wk_legs (q_walk s) ! i)\<lparr>wl_travel_distance := dmin a b\<rparr> else wk_legs (q_walk s) ! j)"
    if "j < 4" for j using Cons.prems(3) i that by (simp_all add: set_wleg_def set_walk_def nth_list_update)
  from Cons.IH [OF r _ w(1)] Cons.prems(2) obtain s' where s': "leg_travel_distances geo cfg ids ?s = Go s'"
    "length (wk_legs (q_walk s')) = 4" "travel_distance (q_walk s') = travel_distance (q_walk ?s)"
    "\<forall>j < 4. j \<in> set ids \<or> nonneg (wl_travel_distance (wk_legs (q_walk ?s) ! j)) \<longrightarrow> nonneg (wl_travel_distance (wk_legs (q_walk s') ! j))"
    by auto
  have "nonneg (wl_travel_distance (wk_legs (q_walk s') ! j))"
    if "j < 4" "j \<in> set (i # ids) \<or> nonneg (wl_travel_distance (wk_legs (q_walk s) ! j))" for j
    using s'(4) that ab(3) w(3) [OF that(1)] by (cases "j = i") auto
  then show ?case using s' c ab w(2) [OF i] by (intro exI [of _ s']) (simp add: set_wleg_def set_walk_def)
qed simp

lemma min_list_double_nonneg: "nonneg m \<Longrightarrow> list_all nonneg xs \<Longrightarrow> nonneg (min_list_double m xs)"
  by (induction xs arbitrary: m) auto

lemma UpdateTravelDistance_returns:
  assumes "walk_ready geo cfg s" "length (wk_legs (q_walk s)) = 4" "0 \<le> travel_distance (q_walk s)"
  shows "\<exists>s'. UpdateTravelDistance geo cfg s = Go s' \<and> 0 \<le> travel_distance (q_walk s')"
proof -
  from leg_travel_distances_returns [OF assms(1) _ assms(2), of "[0, 1, 2, 3]"] obtain t where
    t: "leg_travel_distances geo cfg [0, 1, 2, 3] s = Go t" "length (wk_legs (q_walk t)) = 4"
      "travel_distance (q_walk t) = travel_distance (q_walk s)" "\<forall>i < 4. i \<in> set [0, 1, 2, 3] \<longrightarrow> nonneg (wl_travel_distance (wk_legs (q_walk t) ! i))"
    by (auto simp del: leg_travel_distances.simps)
  have "\<forall>i < 4. i \<in> set [0 :: nat, 1, 2, 3]" by (auto simp: less_Suc_eq numeral_eq_Suc)
  then have "list_all nonneg (map wl_travel_distance (wk_legs (q_walk t)))" using t(2,4) by (simp add: list_all_length)
  then have "nonneg (min_list_double PosInf (map wl_travel_distance (wk_legs (q_walk t))))" by (rule min_list_double_nonneg [rotated]) simp
  then show ?thesis using t(1,3) assms(3)
    by (cases "min_list_double PosInf (map wl_travel_distance (wk_legs (q_walk t)))")
      (simp_all add: UpdateTravelDistance_def set_walk_def del: leg_travel_distances.simps)
qed

section \<open>Lifting\<close>

lemma lift_leg_returns:
  assumes "walk_ready geo cfg s" "four_legs legs" "i < 4"
  shows "\<exists>legs' s'. lift_leg cfg p t i (legs, s) = Go (legs', s') \<and> four_legs legs' \<and> walk_ready geo cfg s'"
proof -
  obtain ctx where c: "GetLeg cfg (int i) = Go ctx" using assms(1,3) unfolding walk_ready_def by metis
  obtain k where k: "update_leg (int i) (\<lambda>l. l\<lparr>force_N := vzero\<rparr>) legs = Go ((legs ! k)\<lparr>force_N := vzero\<rparr>, legs[k := (legs ! k)\<lparr>force_N := vzero\<rparr>])"
    "four_legs (legs[k := (legs ! k)\<lparr>force_N := vzero\<rparr>])"
    using update_leg_four [OF assms(2,3), of "\<lambda>l. l\<lparr>force_N := vzero\<rparr>"] by auto
  then obtain legs' s' where "lift_leg cfg p t i (legs, s) = Go (legs', s')" "four_legs legs'"
    using c by (simp add: lift_leg_def Let_def)
  then show ?thesis using assms(1) walk_frame_ready(1) [OF lift_leg_frame] by metis
qed

lemma kVlegMapping_less: "kVlegMapping k ! 0 < 4" "kVlegMapping k ! 1 < 4" "kVlegMapping k ! Suc 0 < 4"
  by (simp_all add: kVlegMapping_def)

lemma LiftVleg_returns:
  assumes "walk_ready geo cfg s" "four_legs legs"
  shows "\<exists>legs' s'. LiftVleg cfg legs k s = Go (legs', s') \<and> four_legs legs'"
proof -
  have step: "\<exists>l2 s2. rbind (lift_leg cfg p t (kVlegMapping k ! 0) (legs, s0)) (\<lambda>ls.
      rbind (lift_leg cfg p t (kVlegMapping k ! 1) ls) (\<lambda>(legs, s). Go (legs, g s))) = Go (l2, s2) \<and> four_legs l2"
    if s0: "walk_ready geo cfg s0" for p t s0 and g :: "('a, 'b) quad \<Rightarrow> ('a, 'b) quad"
  proof -
    obtain l1 s1 where a: "lift_leg cfg p t (kVlegMapping k ! 0) (legs, s0) = Go (l1, s1)" "four_legs l1" "walk_ready geo cfg s1"
      using lift_leg_returns [OF s0 assms(2) kVlegMapping_less(1)] by metis
    obtain l2 s2 where b: "lift_leg cfg p t (kVlegMapping k ! 1) (l1, s1) = Go (l2, s2)" "four_legs l2"
      using lift_leg_returns [OF a(3,2) kVlegMapping_less(2)] by metis
    show ?thesis using a b by simp
  qed
  have r: "walk_ready geo cfg (set_vleg k f (set_vleg k g (set_walk h s)))" for f g h
    using walk_frame_ready(1) [OF walk_frameI(3) [OF walk_frameI(3) [OF walk_frameI(2) [OF walk_frameI(1)]]]] assms(1) by metis
  show ?thesis unfolding LiftVleg_def Let_def by (rule step [OF r])
qed

lemma MaybeLift_returns:
  assumes "walk_ready geo cfg s" "four_legs legs"
  shows "\<exists>legs' s'. MaybeLift cfg legs s = Go (legs', s') \<and> four_legs legs' \<and> walk_ready geo cfg s'"
proof -
  obtain legs' s' where "MaybeLift cfg legs s = Go (legs', s')" "four_legs legs'"
    using LiftVleg_returns [OF assms] assms(2) unfolding MaybeLift_def Let_def by (smt (verit, best) case_prod_conv rbind.simps(1))
  then show ?thesis using assms(1) walk_frame_ready(1) [OF MaybeLift_frame] by metis
qed

section \<open>Moving\<close>

lemma PropagateStance_returns:
  assumes "count_stance s \<noteq> 0"
  shows "\<exists>leg' s'. PropagateStance cfg k i st leg s = Go (leg', s') \<and> leg_id leg' = leg_id leg"
  using assms by (simp add: PropagateStance_def latch_leg_def Let_def case_prod_beta)

lemma standing_counts: "vl_mode (get_vleg k s) = kStance \<Longrightarrow> k < length (vlegs (q_walk s)) \<Longrightarrow> count_stance s \<noteq> 0"
  by (auto simp: count_stance_def get_vleg_def filter_empty_conv)

lemma propagate_leg_returns:
  assumes "walk_ready geo cfg s" "four_legs legs" "i < 4" "walk_shape s" "k < 2"
  shows "\<exists>legs' s'. propagate_leg geo cfg k i (legs, s) = Go (legs', s') \<and> four_legs legs' \<and> walk_ready geo cfg s' \<and> walk_shape s'"
proof -
  obtain j where j: "update_leg (int i) (\<lambda>l. l) legs = Go (legs ! j, legs[j := legs ! j])" "leg_id (legs ! j) = int i"
    using update_leg_four [OF assms(2,3), of "\<lambda>l. l"] by auto
  obtain st where st: "GetLegState_B (int i) s = Go st" using assms(1,3) unfolding walk_ready_def by metis
  have "\<exists>leg' s'. (if vl_mode (get_vleg k s) = kStance
      then rbind (GetLegState_B (int i) s) (\<lambda>st. PropagateStance cfg k i (state_to_R geo (frames s) st) (legs ! j) s)
      else Go (PropagateSwing cfg i (legs ! j) s)) = Go (leg', s') \<and> leg_id leg' = int i"
  proof (cases "vl_mode (get_vleg k s) = kStance")
    case True
    then have "count_stance s \<noteq> 0" using assms(4,5) by (intro standing_counts [of k]) (simp_all add: walk_shape_def)
    from PropagateStance_returns [OF this] show ?thesis using True st j(2) by (metis rbind.simps(1))
  next
    case False
    then show ?thesis using j(2) by (simp add: PropagateSwing_def Let_def case_prod_beta)
  qed
  then obtain leg' s' where b: "(if vl_mode (get_vleg k s) = kStance
      then rbind (GetLegState_B (int i) s) (\<lambda>st. PropagateStance cfg k i (state_to_R geo (frames s) st) (legs ! j) s)
      else Go (PropagateSwing cfg i (legs ! j) s)) = Go (leg', s')" "leg_id leg' = int i" by blast
  obtain h where h: "first_index (\<lambda>l. leg_id l = int i) legs = Some h" using j(1) by (auto simp: update_leg_def split: option.splits)
  note f = first_index_Some [OF h]
  have "map leg_id (legs[h := leg']) = map leg_id legs" using f b(2) by (simp add: map_update) (metis list_update_id nth_map)
  then have four: "four_legs (legs[h := leg'])" using assms(2) unfolding four_legs_def by (metis set_map length_list_update)
  have "propagate_leg geo cfg k i (legs, s) = Go (legs[h := leg'], s')"
    unfolding propagate_leg_def Let_def by (simp only: case_prod_conv j(1) rbind.simps b(1)) (simp add: update_leg_def h)
  then show ?thesis
    using four assms(1,4) walk_frame_ready(1) [OF propagate_leg_frame] walk_view_eq(6) [OF propagate_leg_view] by metis
qed

lemma land_leg_returns:
  assumes "four_legs legs" "i < 4"
  shows "\<exists>legs' s'. land_leg cfg i (legs, s) = Go (legs', s') \<and> four_legs legs'"
proof -
  let ?f = "\<lambda>l. l\<lparr>stance := initial_stance (cf_walk cfg), velocity := (velocity l)\<lparr>vz := 0\<rparr>\<rparr>"
  obtain k where "update_leg (int i) ?f legs = Go (?f (legs ! k), legs[k := ?f (legs ! k)])" "four_legs (legs[k := ?f (legs ! k)])"
    using update_leg_four [OF assms, of ?f] by auto
  then show ?thesis by (simp add: land_leg_def)
qed

lemma land_vleg_returns:
  assumes "four_legs legs"
  shows "\<exists>legs' s'. land_vleg cfg k (legs, s) = Go (legs', s') \<and> four_legs legs'"
proof -
  have two: "\<exists>l2 s2. rbind (land_leg cfg (kVlegMapping k ! 0) (legs, s0)) (land_leg cfg (kVlegMapping k ! 1)) = Go (l2, s2) \<and> four_legs l2" for s0
  proof -
    obtain l1 s1 where a: "land_leg cfg (kVlegMapping k ! 0) (legs, s0) = Go (l1, s1)" "four_legs l1"
      using land_leg_returns [OF assms kVlegMapping_less(1)] by metis
    obtain l2 s2 where b: "land_leg cfg (kVlegMapping k ! 1) (l1, s1) = Go (l2, s2)" "four_legs l2"
      using land_leg_returns [OF a(2) kVlegMapping_less(2)] by metis
    show ?thesis using a b by simp
  qed
  show ?thesis
  proof (cases "swing_elapsed_s (get_vleg k s) > swing_time (get_trot s)")
    case True
    show ?thesis unfolding land_vleg_def Let_def case_prod_conv if_P [OF True] by (rule two)
  next
    case False
    then show ?thesis using assms by (simp add: land_vleg_def)
  qed
qed

lemma propagate_vleg_returns:
  assumes "walk_ready geo cfg s" "four_legs legs" "walk_shape s" "k < 2" "0 \<le> swing_time (get_trot s)"
  shows "\<exists>legs' s'. propagate_vleg geo cfg k (legs, s) = Go (legs', s') \<and> four_legs legs' \<and> walk_ready geo cfg s' \<and> walk_shape s' \<and>
    get_trot s' = get_trot s"
proof -
  have c: "walk_ready geo cfg (vleg_clock cfg k s)" "walk_shape (vleg_clock cfg k s)"
    using vleg_clock_pairs(2) [OF assms(3,4)]
    by (simp_all add: vleg_clock_def assms(1) walk_frame_ready(1) [OF walk_frameI(3) [OF walk_frameI(1)]])
  obtain l1 s1 where a: "propagate_leg geo cfg k (kVlegMapping k ! 0) (legs, vleg_clock cfg k s) = Go (l1, s1)" "four_legs l1"
    "walk_ready geo cfg s1" "walk_shape s1" using propagate_leg_returns [OF c(1) assms(2) kVlegMapping_less(1) c(2) assms(4)] by metis
  obtain l2 s2 where b: "propagate_leg geo cfg k (kVlegMapping k ! 1) (l1, s1) = Go (l2, s2)" "four_legs l2"
    using propagate_leg_returns [OF a(3,2) kVlegMapping_less(2) a(4) assms(4)] by metis
  obtain l3 s3 where d: "land_vleg cfg k (l2, s2) = Go (l3, s3)" "four_legs l3" using land_vleg_returns [OF b(2)] by metis
  have p: "propagate_vleg geo cfg k (legs, s) = Go (l3, s3)" using a b d by (simp add: propagate_vleg_def)
  show ?thesis
    using p d(2) assms(1) walk_frame_ready(1) [OF propagate_vleg_frame [OF p]] propagate_vleg_pairs(2,3) [OF p assms(3-5)] by blast
qed

lemma PropagateLegs_returns:
  assumes "walk_ready geo cfg s" "four_legs legs" "walk_shape s" "0 \<le> swing_time (get_trot s)"
  shows "\<exists>legs' s'. PropagateLegs geo cfg (legs, s) = Go (legs', s')"
proof -
  obtain l1 s1 where a: "propagate_vleg geo cfg 0 (legs, s) = Go (l1, s1)" "four_legs l1" "walk_ready geo cfg s1" "walk_shape s1"
    "get_trot s1 = get_trot s" using propagate_vleg_returns [OF assms(1-3) _ assms(4), of 0] by auto
  obtain l2 s2 where "propagate_vleg geo cfg 1 (l1, s1) = Go (l2, s2)"
    using propagate_vleg_returns [OF a(3,2,4), of 1] assms(4) a(5) by auto
  then show ?thesis using a(1) by (simp add: PropagateLegs_def)
qed

section \<open>The cycle\<close>

lemma QuadrupedTrot_returns:
  assumes "walk_ready geo cfg s" "four_legs legs" "walk_shape s" "trot_config cfg"
    and "0 \<le> travel_ratio (cf_walk cfg)" "0 \<le> travel_distance (q_walk s)"
    and "0 < min_invalid_time_s (cf_walk cfg)" "0 \<le> max_stance_s (cf_walk cfg)"
  shows "\<exists>legs' p s'. QuadrupedTrot geo cfg legs s = Go (legs', p, s')"
proof -
  let ?g = "UpdateGlobal cfg s"
  obtain a where a: "UpdateSwingTime legs ?g = Go a" using assms(2) by (simp add: UpdateSwingTime_def four_legs_def)
  have ra: "walk_ready geo cfg a"
    using assms(1) walk_frame_ready(1) [OF UpdateGlobal_frame] walk_frame_ready(1) [OF UpdateSwingTime_frame [OF a]] by metis
  obtain b where b: "UpdateInvalidTime geo cfg legs a = Go b"
    using leg_invalid_times_returns [OF ra, of legs] assms(2) by (auto simp: UpdateInvalidTime_def four_legs_def)
  have rb: "walk_ready geo cfg b" using ra by (simp add: walk_frame_ready(1) [OF UpdateInvalidTime_frame [OF b]])
  have vb: "walk_shape b" using assms(3) walk_view_eq(6) [OF UpdateInvalidTime_view [OF b]] walk_view_eq(6) [OF UpdateSwingTime_view [OF a]]
    UpdateGlobal_pairs(2) by metis
  have "travel_distance (q_walk ?g) = travel_distance (q_walk s)"
    by (simp add: UpdateGlobal_def Let_def limit_desired_def UpdateCommandedR_def set_walk_def case_prod_beta)
  moreover have "travel_distance (q_walk a) = travel_distance (q_walk ?g)"
    using a by (auto simp: UpdateSwingTime_def vleg_remaining_def set_vleg_def set_walk_def split: if_splits)
  moreover have "travel_distance (q_walk b) = travel_distance (q_walk a)"
  proof -
    have "leg_invalid_times geo cfg ls u = Go u' \<Longrightarrow> travel_distance (q_walk u') = travel_distance (q_walk u)" for ls and u u' :: "('a, 'b) quad"
      by (induction ls arbitrary: u) (auto simp: rbind_Go Let_def set_wleg_def set_walk_def split: if_splits)
    then show ?thesis using b by (auto simp: UpdateInvalidTime_def rbind_Go vleg_invalid_def set_vleg_def set_walk_def)
  qed
  ultimately have "0 \<le> travel_distance (q_walk b)" using assms(6) by simp
  then obtain c where c: "UpdateTravelDistance geo cfg b = Go c" "0 \<le> travel_distance (q_walk c)"
    using UpdateTravelDistance_returns [OF rb] vb by (auto simp: walk_shape_def)
  have rc: "walk_ready geo cfg c" using rb by (simp add: walk_frame_ready(1) [OF UpdateTravelDistance_frame [OF c(1)]])
  have vc: "walk_shape c" using vb walk_view_eq(6) [OF UpdateTravelDistance_view [OF c(1)]] by simp
  obtain d where d: "UpdateTrot cfg c = Go d"
    using CalculateTrot_timing [OF assms(4) mult_nonneg_nonneg [OF assms(5) c(2)] vnorm_ge0, of "maximize_flight (walk_command c)" "desired_v c"]
    by (auto simp: UpdateTrot_def)
  have rd: "walk_ready geo cfg d" using rc by (simp add: walk_frame_ready(1) [OF UpdateTrot_frame [OF d]])
  note ud = UpdateTrot_ok [OF d assms(4)]
  obtain l1 e where e: "MaybeLift cfg legs d = Go (l1, e)" "four_legs l1" "walk_ready geo cfg e" using MaybeLift_returns [OF rd assms(2)] by metis
  have sh: "walk_shape d" using ud(3) vc by simp
  have s0: "\<not> all_stance d \<longrightarrow> stance_elapsed_s (q_walk d) = 0"
  proof -
    have v: "walk_view c = walk_view ?g"
      using UpdateSwingTime_view [OF a] UpdateInvalidTime_view [OF b] UpdateTravelDistance_view [OF c(1)] by simp
    have "all_stance ?g = all_stance s" by (simp add: all_stance_def count_stance_pairs UpdateGlobal_pairs(1))
    then show ?thesis using ud(4,5) walk_view_eq(3,7) [OF v] UpdateGlobal_pairs(3) by metis
  qed
  have "walk_shape e \<and> get_trot e = get_trot d"
    using MaybeLift_pairs [OF e(1) sh ud(1) assms(7,8) s0] sh by metis
  moreover have "0 \<le> swing_time (get_trot d)" using ud(1) by (auto simp: trot_ok_def)
  ultimately obtain l2 s' where "PropagateLegs geo cfg (l1, e) = Go (l2, s')" using PropagateLegs_returns [OF e(3,2)] by auto
  then show ?thesis using a b c d e by (simp add: QuadrupedTrot_def)
qed


section \<open>On the bench\<close>

definition bench_geo :: "(unit, unit, unit) geometry" where
  "bench_geo = flat\<lparr>in_region := (\<lambda>_ _. False)\<rparr>"

definition bench_quad :: "(unit, unit) quad" where
  "bench_quad = (quad_start flat () ())\<lparr>legs_B := fst (sense flat () [] [] [] ())\<rparr>"

definition bench_legs :: "leg_cmd list" where
  "bench_legs = map (\<lambda>i. leg_default\<lparr>leg_id := i\<rparr>) [0 .. 3]"

lemma bench_walks:
  "walk_ready bench_geo bench_config bench_quad" "four_legs bench_legs" "walk_shape bench_quad" "trot_config bench_config"
  "0 \<le> travel_ratio (cf_walk bench_config)" "0 \<le> travel_distance (q_walk bench_quad)"
  "0 < min_invalid_time_s (cf_walk bench_config)" "0 \<le> max_stance_s (cf_walk bench_config)"
proof -
  have u: "[0 .. 3 :: int] = [0, 1, 2, 3]" by (simp add: upto.simps)
  have i: "(\<forall>i < 4. P i) \<longleftrightarrow> P 0 \<and> P 1 \<and> P 2 \<and> P (3 :: nat)" for P by (auto simp: less_Suc_eq numeral_eq_Suc)
  show "walk_ready bench_geo bench_config bench_quad"
    unfolding walk_ready_def i
    by (simp add: bench_geo_def bench_config_def bench_quad_def flat_def GetLeg_def GetLegState_B_def leave_time_def TimeToLeave_G_def u)
  show "four_legs bench_legs" unfolding four_legs_def i by (simp add: bench_legs_def u leg_default_def)
  show "walk_shape bench_quad" by (simp add: walk_shape_def bench_quad_def quad_start_def walk_default_def)
  show "0 \<le> travel_distance (q_walk bench_quad)" by (simp add: bench_quad_def quad_start_def walk_default_def)
  show "trot_config bench_config" "0 \<le> travel_ratio (cf_walk bench_config)" "0 < min_invalid_time_s (cf_walk bench_config)"
    "0 \<le> max_stance_s (cf_walk bench_config)" by (simp_all add: trot_config_def bench_config_def)
qed


theorem trot_timing_witness:
  "\<exists>t. CalculateTrot bench_config False 10 100 = Go t \<and> trot_ok bench_config t \<and> trot_speed t = min 100 (trot_max_speed t) \<and>
    trot_speed t * (onevleg_time t + 2 * twovleg_time t) \<le> 10"
  by (rule trot_timing) (simp_all add: bench_walks)


end
