(* ===== verification/MammalIk.thy ===== *)
theory MammalIk
  imports Quadruped
begin

text \<open>
  The inverse kinematics of a leg, \<^verbatim>\<open>mech/mammal_ik.cc\<close>: the angles of the shoulder, the femur and the tibia for a
  point of the foot, and the velocities and torques of the joints.

  The dynamics library DART, the inverse of a 3x3 matrix of Eigen and \<open>Limit\<close> of mjlib are parameters. The point and the
  lengths are real numbers; an angle is not a number where the code divides zero by zero.
\<close>

section \<open>Configuration\<close>

record ik_link =
  il_pose :: vec
  il_id :: int

record ik_config =
  mi_shoulder :: ik_link
  mi_femur :: ik_link
  mi_tibia :: ik_link
  mi_invert :: bool

text \<open>The assertions of the constructor.\<close>

definition link_ok :: "ik_link \<Rightarrow> bool" where
  "link_ok l \<longleftrightarrow> vx (il_pose l) = 0 \<and> vy (il_pose l) = 0 \<and> vz (il_pose l) > 0"

definition MammalIk_ok :: "ik_config \<Rightarrow> bool" where
  "MammalIk_ok cfg \<longleftrightarrow> link_ok (mi_femur cfg) \<and> link_ok (mi_tibia cfg)"

text \<open>The libraries: the Jacobian of the foot and its acceleration for three joint angles (and torques), as DART calculates
  them, and the product with the inverse of a matrix, given by its columns.\<close>

type_synonym angles = "double \<times> double \<times> double"

record ik_library =
  limit :: "real \<Rightarrow> real \<Rightarrow> real \<Rightarrow> real"
  linear_jacobian :: "angles \<Rightarrow> vec \<times> vec \<times> vec"
  com_acceleration :: "angles \<Rightarrow> vec \<Rightarrow> vec"
  inverse_times :: "vec \<times> vec \<times> vec \<Rightarrow> vec \<Rightarrow> angles"

definition clamps :: "ik_library \<Rightarrow> bool" where
  "clamps lib \<longleftrightarrow> (\<forall>v lo hi. lo \<le> hi \<longrightarrow> limit lib v lo hi = max lo (min v hi))"

definition lim1 :: "ik_library \<Rightarrow> real \<Rightarrow> real" where
  "lim1 lib v = limit lib v (-1) 1"

definition GetSign :: "real \<Rightarrow> real" where
  "GetSign v = (if v < 0 then -1 else if v > 0 then 1 else 0)"

section \<open>The shoulder\<close>

text \<open>The tangent lines: of those whose distance from the centre is the radius, the one whose foot is closest to the
  shoulder point. The accumulator is the best angle and its squared distance.\<close>

fun best_line :: "real \<Rightarrow> real \<Rightarrow> real \<Rightarrow> real list \<Rightarrow> (real \<times> real) option \<Rightarrow> (real \<times> real) option" where
  "best_line r x0 y0 [] best = best"
| "best_line r x0 y0 (theta # thetas) best =
     (let dx = sin theta; dy = cos theta;
          D = x0 * (y0 + dy) - (x0 + dx) * y0;
          discriminant = \<bar>r\<bar> - \<bar>D\<bar>;
          x_int = D * dy; y_int = - D * dx;
          distance = (x_int - r)\<^sup>2 + y_int\<^sup>2
      in if \<bar>discriminant\<bar> > 1 / 10000 then best_line r x0 y0 thetas best
         else if (case best of None \<Rightarrow> True | Some (_, d) \<Rightarrow> distance < d)
         then best_line r x0 y0 thetas (Some (atan2 0 r - atan2 y_int x_int, distance))
         else best_line r x0 y0 thetas best)"

definition possible_lines :: "ik_library \<Rightarrow> real \<Rightarrow> real \<Rightarrow> real \<Rightarrow> real list" where
  "possible_lines lib r x0 y0 =
     (let denom = x0\<^sup>2 + y0\<^sup>2;
          subexp = y0 * sqrt (x0\<^sup>2 + y0\<^sup>2 - r\<^sup>2) / denom;
          t1 = arccos (lim1 lib (- r * x0 / denom + subexp));
          t2 = arccos (lim1 lib (- r * x0 / denom - subexp))
      in [t1, - t1, t2, - t2])"

definition shoulder_rad :: "ik_library \<Rightarrow> ik_config \<Rightarrow> vec \<Rightarrow> real option run" where
  "shoulder_rad lib cfg point =
     (let r = vy (il_pose (mi_shoulder cfg)); x0 = vy point; y0 = - vz point
      in if \<bar>r\<bar> < 1 / 1000 then Go (Some (- (atan2 y0 x0 + 1 / 2 * pi)))
         else if x0\<^sup>2 + y0\<^sup>2 - r\<^sup>2 \<le> 0 then Go None
         else (case best_line r x0 y0 (possible_lines lib r x0 y0) None of
                 None \<Rightarrow> Abort
               | Some (theta, _) \<Rightarrow> Go (Some (WrapNegPiToPi theta))))"

section \<open>The femur and the tibia\<close>

text \<open>The point in the plane of the leg, relative to the joint of the femur.\<close>

definition leg_plane :: "ik_config \<Rightarrow> vec \<Rightarrow> real \<Rightarrow> real \<times> real" where
  "leg_plane cfg point shoulder =
     (let p = il_pose (mi_shoulder cfg);
          leg_frame_y = vy p * cos (- shoulder);
          leg_frame_z = vy p * sin (- shoulder);
          point_y = sqrt ((vy point - leg_frame_y)\<^sup>2 + (- vz point - leg_frame_z)\<^sup>2) * GetSign (- vz point - leg_frame_z)
      in (- (vx point - vx p), point_y + vz p))"

definition femur_tibia_rad :: "ik_library \<Rightarrow> ik_config \<Rightarrow> real \<times> real \<Rightarrow> (double \<times> real) option" where
  "femur_tibia_rad lib cfg pr =
     (let (prx, pry) = pr;
          femur_length = vz (il_pose (mi_femur cfg));
          tibia_length = vz (il_pose (mi_tibia cfg));
          op_sq = prx * prx + pry * pry;
          cos_tibia_sub = femur_length\<^sup>2 + tibia_length\<^sup>2 - op_sq;
          tibiainv_rad = arccos (lim1 lib (cos_tibia_sub / (2 * femur_length * tibia_length)));
          tibia_sign = (if mi_invert cfg then 1 else -1);
          cos_femur_sub = op_sq + femur_length\<^sup>2 - tibia_length\<^sup>2;
          femur_sign = (if mi_invert cfg then -1 else 1);
          femur_rad = (\<lambda>c. WrapNegPiToPi (- (atan2 pry prx + 1 / 2 * pi) + femur_sign * arccos c))
      in if sqrt op_sq > femur_length + tibia_length then None
         else Some
           (if op_sq = 0
            then (if cos_femur_sub = 0 then NaN else Fin (femur_rad (if cos_femur_sub > 0 then 1 else -1)))
            else Fin (femur_rad (lim1 lib (cos_femur_sub / (2 * sqrt op_sq * femur_length)))),
            tibia_sign * (pi - tibiainv_rad)))"

section \<open>The solution\<close>

definition dmap :: "(real \<Rightarrow> real) \<Rightarrow> double \<Rightarrow> double" where
  "dmap f d = (case d of Fin x \<Rightarrow> Fin (f x) | _ \<Rightarrow> d)"

definition get_angle :: "ik_joint list \<Rightarrow> int \<Rightarrow> double run" where
  "get_angle js i = (case find (\<lambda>j. ij_id j = i) js of Some j \<Rightarrow> Go (dmap Radians (ij_angle_deg j)) | None \<Rightarrow> Abort)"

definition ik_angle :: "int \<Rightarrow> double \<Rightarrow> ik_joint" where
  "ik_angle i a = \<lparr>ij_id = i, ij_angle_deg = a, ij_torque_Nm = Fin 0, ij_velocity_dps = Fin 0\<rparr>"

text \<open>The velocities and the torques. An id that two joints share gets the values of the last.\<close>

definition set_rates :: "ik_config \<Rightarrow> angles \<Rightarrow> angles \<Rightarrow> ik_joint \<Rightarrow> ik_joint" where
  "set_rates cfg torque dps j =
     (let (t0, t1, t2) = torque; (v0, v1, v2) = dps;
          up = (\<lambda>i t v j. if ij_id j = i then j\<lparr>ij_torque_Nm := t, ij_velocity_dps := dmap Degrees v\<rparr> else j)
      in up (il_id (mi_tibia cfg)) t2 v2 (up (il_id (mi_femur cfg)) t1 v1 (up (il_id (mi_shoulder cfg)) t0 v0 j)))"

definition unit_torque :: "nat \<Rightarrow> vec" where
  "unit_torque axis = \<lparr>vx = (if axis = 0 then 1 else 0), vy = (if axis = 1 then 1 else 0), vz = (if axis = 2 then 1 else 0)\<rparr>"

definition joint_rates :: "ik_library \<Rightarrow> angles \<Rightarrow> effector \<Rightarrow> angles \<times> angles" where
  "joint_rates lib q ef =
     (let dps = inverse_times lib (linear_jacobian lib q) (ef_velocity ef);
          baseline = com_acceleration lib q vzero;
          col = (\<lambda>axis. vsub (com_acceleration lib q (unit_torque axis)) baseline);
          (t0, t1, t2) = inverse_times lib (col 0, col 1, col 2) (ef_force_N ef);
          micro = dmap (\<lambda>t. t * (1 / 1000000))
      in ((micro t0, micro t1, micro t2), dps))"

definition Inverse :: "ik_library \<Rightarrow> ik_config \<Rightarrow> effector \<Rightarrow> ik_joint list option \<Rightarrow> ik_joint list option run" where
  "Inverse lib cfg ef current =
     rbind (shoulder_rad lib cfg (ef_pose ef)) (\<lambda>sh.
       case sh of
         None \<Rightarrow> Go None
       | Some shoulder \<Rightarrow>
           (case femur_tibia_rad lib cfg (leg_plane cfg (ef_pose ef) shoulder) of
              None \<Rightarrow> Go None
            | Some (femur, tibia) \<Rightarrow>
                (let result = [ik_angle (il_id (mi_shoulder cfg)) (Fin (Degrees shoulder)),
                               ik_angle (il_id (mi_femur cfg)) (dmap Degrees femur),
                               ik_angle (il_id (mi_tibia cfg)) (Fin (Degrees tibia))];
                     js = (case current of Some js \<Rightarrow> js | None \<Rightarrow> result)
                 in rbind (get_angle js (il_id (mi_shoulder cfg))) (\<lambda>q0.
                    rbind (get_angle js (il_id (mi_femur cfg))) (\<lambda>q1.
                    rbind (get_angle js (il_id (mi_tibia cfg))) (\<lambda>q2.
                      let (torque, dps) = joint_rates lib (q0, q1, q2) ef
                      in Go (Some (map (set_rates cfg torque dps) result))))))))"

end
