(* ===== verification/SwingProps.thy ===== *)
theory SwingProps
  imports Swing
begin

text \<open>
  Correctness of the swing of a leg: where it is over time, that velocities are derivatives of positions, and that
  the crossing time of a line is the time at which the moving and turning point is on the line.
\<close>

section \<open>Interpolation\<close>

lemma bz_position_ends [simp]: "bz_position b 0 = bz_start b" "bz_position b 1 = bz_end b"
  by (simp_all add: bz_position_def bz_delta_def)

lemma bz_velocity_ends [simp]: "bz_velocity b 0 = 0" "bz_velocity b 1 = 0"
  by (simp_all add: bz_velocity_def)

lemma bz_position_deriv: "(bz_position b has_real_derivative bz_velocity b p) (at p)"
  unfolding bz_position_def [abs_def] bz_velocity_def
  by (auto intro!: derivative_eq_intros simp: algebra_simps)

lemma bz_velocity_deriv: "(bz_velocity b has_real_derivative bz_acceleration b p) (at p)"
  unfolding bz_velocity_def [abs_def] bz_acceleration_def
  by (auto intro!: derivative_eq_intros simp: algebra_simps)

text \<open>The weight of the end point.\<close>

lemma bz_weight:
  assumes "0 \<le> p" "p \<le> 1"
  shows "0 \<le> p * p * p + 3 * (p * p * (1 - p))" "p * p * p + 3 * (p * p * (1 - p)) \<le> (1::real)"
proof -
  show "0 \<le> p * p * p + 3 * (p * p * (1 - p))" using assms by (intro add_nonneg_nonneg mult_nonneg_nonneg) auto
  have "1 - (p * p * p + 3 * (p * p * (1 - p))) = (1 - p) * (1 - p) * (1 + 2 * p)" by (simp add: algebra_simps)
  also have "\<dots> \<ge> 0" using assms by (intro mult_nonneg_nonneg) auto
  finally show "p * p * p + 3 * (p * p * (1 - p)) \<le> 1" by simp
qed

lemma bz_position_between:
  assumes "0 \<le> p" "p \<le> 1" "bz_end b \<le> bz_start b"
  shows "bz_end b \<le> bz_position b p" "bz_position b p \<le> bz_start b"
  using mult_right_mono [OF bz_weight(2) [OF assms(1,2)], of "bz_start b - bz_end b"]
    mult_nonneg_nonneg [OF bz_weight(1) [OF assms(1,2)], of "bz_start b - bz_end b"] assms(3)
  by (simp_all add: bz_position_def bz_delta_def algebra_simps)

section \<open>The run of a swing\<close>

text \<open>The swing after calls with the same period, one for each velocity of the world.\<close>

fun advances :: "real \<Rightarrow> vec list \<Rightarrow> swing \<Rightarrow> swing" where
  "advances dt [] s = s"
| "advances dt (w # ws) s = advances dt ws (snd (Advance dt w s))"

definition same_path :: "swing \<Rightarrow> swing \<Rightarrow> bool" where
  "same_path s s' \<longleftrightarrow> s'\<lparr>sw_phase := 0, sw_current := vzero\<rparr> = s\<lparr>sw_phase := 0, sw_current := vzero\<rparr>"

lemma Advance_phase: "sw_phase (snd (Advance dt w s)) = min 1 (sw_phase s + dt / swing_time_s s)"
  by (simp add: Advance_def Let_def case_prod_beta)

lemma Advance_same_path: "same_path s (snd (Advance dt w s))"
  by (simp add: same_path_def Advance_def Let_def case_prod_beta)

lemma same_path_sel:
  assumes "same_path s s'"
  shows "swing_time_s s' = swing_time_s s" "world_blend s' = world_blend s" "zinterp s' = zinterp s" "sw_end s' = sw_end s"
    "sw_start s' = sw_start s" "sw_start_velocity s' = sw_start_velocity s" "xmove s' = xmove s" "ymove s' = ymove s"
proof -
  have e: "s'\<lparr>sw_phase := 0, sw_current := vzero\<rparr> = s\<lparr>sw_phase := 0, sw_current := vzero\<rparr>"
    using assms by (simp add: same_path_def)
  show "swing_time_s s' = swing_time_s s" "world_blend s' = world_blend s" "zinterp s' = zinterp s" "sw_end s' = sw_end s"
    "sw_start s' = sw_start s" "sw_start_velocity s' = sw_start_velocity s" "xmove s' = xmove s" "ymove s' = ymove s"
    using arg_cong [OF e, of swing_time_s] arg_cong [OF e, of world_blend] arg_cong [OF e, of zinterp] arg_cong [OF e, of sw_end]
      arg_cong [OF e, of sw_start] arg_cong [OF e, of sw_start_velocity] arg_cong [OF e, of xmove] arg_cong [OF e, of ymove]
    by simp_all
qed

lemma same_path_trans: "same_path s s' \<Longrightarrow> same_path s' s'' \<Longrightarrow> same_path s s''"
  by (simp add: same_path_def)

lemma advances_same_path: "same_path s (advances dt ws s)"
proof (induction ws arbitrary: s)
  case Nil
  show ?case by (simp add: same_path_def)
next
  case (Cons w ws)
  show ?case using same_path_trans [OF Advance_same_path Cons.IH] by simp
qed

lemma advances_phase:
  assumes "0 \<le> dt" "0 < swing_time_s s" "sw_phase s \<le> 1"
  shows "sw_phase (advances dt ws s) = min 1 (sw_phase s + real (length ws) * dt / swing_time_s s)"
  using assms
proof (induction ws arbitrary: s)
  case (Cons w ws)
  note a = Advance_phase [of dt w s] and t = same_path_sel(1) [OF Advance_same_path [of s dt w]]
  have d: "0 \<le> dt / swing_time_s s" "0 \<le> real (length ws) * dt / swing_time_s s" using Cons.prems by simp_all
  have "sw_phase (advances dt (w # ws) s) = min 1 (min 1 (sw_phase s + dt / swing_time_s s) + real (length ws) * dt / swing_time_s s)"
    using Cons.IH [of "snd (Advance dt w s)"] Cons.prems a t by simp
  also have "\<dots> = min 1 (sw_phase s + (dt / swing_time_s s + real (length ws) * dt / swing_time_s s))"
    using d by (auto simp: min_def)
  also have "dt / swing_time_s s + real (length ws) * dt / swing_time_s s = real (length (w # ws)) * dt / swing_time_s s"
    by (simp add: add_divide_distrib algebra_simps)
  finally show ?case .
qed simp

section \<open>Landing\<close>

text \<open>How far one coordinate of the foot is from its target after the time \<open>u\<close>, in swings, while it is lowered.\<close>

definition tracks :: "real \<Rightarrow> real \<Rightarrow> swing \<Rightarrow> bool" where
  "tracks W u s \<longleftrightarrow> sw_phase s = min 1 u \<and>
     (1 - world_blend s < sw_phase s \<longrightarrow>
        \<bar>vx (sw_current s) - vx (sw_end s)\<bar> \<le> (u - (1 - world_blend s)) * swing_time_s s * W \<and>
        \<bar>vy (sw_current s) - vy (sw_end s)\<bar> \<le> (u - (1 - world_blend s)) * swing_time_s s * W)"

lemma first_lowering:
  fixes b T W r u w :: real
  assumes "0 < T" "0 \<le> b" "0 \<le> r" "r \<le> 1" "r * b \<le> u" "\<bar>w\<bar> \<le> W"
  shows "\<bar>(r * (T * b)) * (r * w)\<bar> \<le> u * T * W"
proof -
  have "\<bar>r * w\<bar> \<le> W" using mult_mono [OF assms(4,6)] assms(3) by (simp add: abs_mult)
  then have "r * b * T * \<bar>r * w\<bar> \<le> r * b * T * W" using assms by (intro mult_left_mono) auto
  also have "\<dots> \<le> u * T * W" using assms by (intro mult_right_mono) auto
  finally show ?thesis using assms by (simp add: abs_mult mult_ac)
qed

lemma next_lowering:
  fixes T W r u w c dt :: real
  assumes "0 < T" "0 \<le> dt" "0 \<le> r" "r \<le> 1" "\<bar>w\<bar> \<le> W" "\<bar>c\<bar> \<le> u * T * W"
  shows "\<bar>c + dt * (r * w)\<bar> \<le> (u + dt / T) * T * W"
proof -
  have "\<bar>r * w\<bar> \<le> W" using mult_mono [OF assms(4,5)] assms(3) by (simp add: abs_mult)
  then have "\<bar>dt * (r * w)\<bar> \<le> dt * W" using assms(2) by (simp add: abs_mult mult_left_mono)
  then have "\<bar>c + dt * (r * w)\<bar> \<le> u * T * W + dt * W" using assms(6) by linarith
  also have "\<dots> = (u + dt / T) * T * W" using assms(1) by (simp add: field_simps)
  finally show ?thesis .
qed

lemma Advance_lowering:
  assumes "\<not> sw_phase (snd (Advance dt w s)) < world_blend s" "\<not> sw_phase (snd (Advance dt w s)) < 1 - world_blend s"
  shows "vx (sr_position (fst (Advance dt w s))) = vx (sw_current (snd (Advance dt w s)))"
    "vy (sr_position (fst (Advance dt w s))) = vy (sw_current (snd (Advance dt w s)))"
    "sw_current (snd (Advance dt w s)) =
       (let p = fst (swing_lower s dt (sw_phase s) w (sw_phase (snd (Advance dt w s)))) in (sw_current s)\<lparr>vx := vx p, vy := vy p\<rparr>)"
  using assms by (simp_all add: Advance_def Let_def case_prod_beta)

lemma Advance_tracks:
  assumes "tracks W u s" "0 < swing_time_s s" "0 < world_blend s" "world_blend s \<le> 1 / 2" "0 \<le> dt" "\<bar>vx w\<bar> \<le> W" "\<bar>vy w\<bar> \<le> W"
  shows "tracks W (u + dt / swing_time_s s) (snd (Advance dt w s))"
proof -
  let ?s = "snd (Advance dt w s)" let ?p = "sw_phase ?s" let ?b = "world_blend s" let ?T = "swing_time_s s"
  note sp = same_path_sel [OF Advance_same_path [of s dt w]]
  have d: "0 \<le> dt / ?T" using assms(2,5) by simp
  have p: "?p = min 1 (u + dt / ?T)"
    using assms(1) d unfolding Advance_phase tracks_def by (auto simp: min_def)
  have "\<bar>vx (sw_current ?s) - vx (sw_end s)\<bar> \<le> (u + dt / ?T - (1 - ?b)) * ?T * W \<and>
    \<bar>vy (sw_current ?s) - vy (sw_end s)\<bar> \<le> (u + dt / ?T - (1 - ?b)) * ?T * W" if l: "1 - ?b < ?p"
  proof -
    have c: "sw_current ?s = (let p = fst (swing_lower s dt (sw_phase s) w ?p) in (sw_current s)\<lparr>vx := vx p, vy := vy p\<rparr>)"
      using l assms(4) by (intro Advance_lowering(3)) auto
    have b: "1 - ?b \<le> ?p" "?p \<le> 1" "?p \<le> u + dt / ?T" using l p by auto
    define r where "r = (?p - (1 - ?b)) / ?b"
    have r: "0 \<le> r" "r \<le> 1" "r * ?b \<le> u + dt / ?T - (1 - ?b)" using b assms(3) by (simp_all add: r_def divide_le_eq)
    show ?thesis
    proof (cases "sw_phase s \<le> 1 - ?b")
      case True
      then have "(sw_phase s - (1 - ?b)) / ?b \<le> 0" using assms(3) by (simp add: divide_le_eq)
      then have "vx (sw_current ?s) - vx (sw_end s) = (r * (?T * ?b)) * (r * vx w)"
        "vy (sw_current ?s) - vy (sw_end s) = (r * (?T * ?b)) * (r * vy w)"
        unfolding r_def by (simp_all add: c swing_lower_def Let_def vadd_def vscale_def)
      then show ?thesis
        using first_lowering [OF assms(2) _ r assms(6)] first_lowering [OF assms(2) _ r assms(7)] assms(3) by simp
    next
      case False
      then have o: "\<not> (sw_phase s - (1 - ?b)) / ?b \<le> 0" using assms(3) by (simp add: divide_le_eq)
      have e: "vx (sw_current ?s) - vx (sw_end s) = (vx (sw_current s) - vx (sw_end s)) + dt * (r * vx w)"
        "vy (sw_current ?s) - vy (sw_end s) = (vy (sw_current s) - vy (sw_end s)) + dt * (r * vy w)"
        using o unfolding r_def by (simp_all add: c swing_lower_def Let_def vadd_def vscale_def)
      from False assms(1) have t: "\<bar>vx (sw_current s) - vx (sw_end s)\<bar> \<le> (u - (1 - ?b)) * ?T * W"
        "\<bar>vy (sw_current s) - vy (sw_end s)\<bar> \<le> (u - (1 - ?b)) * ?T * W" by (simp_all add: tracks_def)
      show ?thesis
        unfolding e using next_lowering [OF assms(2,5) r(1,2) assms(6) t(1)] next_lowering [OF assms(2,5) r(1,2) assms(7) t(2)]
        by (simp add: algebra_simps)
    qed
  qed
  then show ?thesis using p by (simp add: tracks_def sp)
qed

lemma advances_tracks:
  assumes "tracks W u s" "0 < swing_time_s s" "0 < world_blend s" "world_blend s \<le> 1 / 2" "0 \<le> dt"
    and "\<forall>w \<in> set ws. \<bar>vx w\<bar> \<le> W \<and> \<bar>vy w\<bar> \<le> W"
  shows "tracks W (u + real (length ws) * dt / swing_time_s s) (advances dt ws s)"
  using assms
proof (induction ws arbitrary: s u)
  case (Cons w ws)
  note sp = same_path_sel [OF Advance_same_path [of s dt w]]
  have "tracks W (u + dt / swing_time_s s) (snd (Advance dt w s))" using Cons.prems by (intro Advance_tracks) auto
  from Cons.IH [OF this] Cons.prems show ?case by (simp add: sp add_divide_distrib algebra_simps)
qed simp

lemma Advance_end:
  assumes "sw_phase (snd (Advance dt w s)) = 1" "0 < world_blend s" "world_blend s \<le> 1 / 2"
  shows "sr_phase (fst (Advance dt w s)) = 1" "vz (sr_position (fst (Advance dt w s))) = bz_start (zinterp s)"
    "sr_velocity_s (fst (Advance dt w s)) = w\<lparr>vz := 0\<rparr>"
  using assms unfolding Advance_phase
  by (simp_all add: Advance_def Let_def case_prod_beta swing_z_def swing_lower_def vscale_def)

text \<open>C36 (liveness). A swing lands. Once its time has passed, the foot is at the height where the swing began, and
  moves with the ground: its velocity is that of the world, without a vertical part. In the plane it is as far from its target as
  the ground moved while the foot was lowered, at the largest speed \<open>W\<close> of the ground, at most; on the target, if the
  ground did not move.\<close>

theorem swing_lands:
  assumes "0 < time_s" "0 \<le> dt" "0 < blend" "blend \<le> 1 / 2" "time_s \<le> real (length ws + 1) * dt"
    and "\<forall>u \<in> set (w # ws). \<bar>vx u\<bar> \<le> W \<and> \<bar>vy u\<bar> \<le> W"
  shows "let r = fst (Advance dt w (advances dt ws (SwingTrajectory start v target height blend time_s)));
             far = (real (length ws + 1) * dt - (1 - blend) * time_s) * W
         in sr_phase r = 1 \<and> vz (sr_position r) = vz start \<and> sr_velocity_s r = w\<lparr>vz := 0\<rparr> \<and>
            \<bar>vx (sr_position r) - vx target\<bar> \<le> far \<and> \<bar>vy (sr_position r) - vy target\<bar> \<le> far"
proof -
  let ?start = "SwingTrajectory start v target height blend time_s"
  let ?s = "advances dt ws ?start"
  let ?s' = "snd (Advance dt w ?s)"
  note sp = same_path_sel [OF advances_same_path [of ?start dt ws]]
  note sp' = same_path_sel [OF Advance_same_path [of ?s dt w]]
  have f: "swing_time_s ?start = time_s" "world_blend ?start = blend" "vz start = bz_start (zinterp ?start)" "sw_phase ?start = 0"
    "sw_end ?start = target" by (simp_all add: SwingTrajectory_def)
  have "tracks W 0 ?start" using assms(3,4) by (simp add: tracks_def f)
  then have "tracks W (real (length ws) * dt / time_s) ?s"
    using advances_tracks [of W 0 ?start dt ws] assms by (simp add: f)
  then have t: "tracks W (real (length ws + 1) * dt / time_s) ?s'"
    using Advance_tracks [of W "real (length ws) * dt / time_s" ?s dt w] assms by (simp add: f sp add_divide_distrib algebra_simps)
  moreover have "1 \<le> real (length ws + 1) * dt / time_s" using assms(1,5) by simp
  ultimately have p: "sw_phase ?s' = 1" by (simp add: tracks_def)
  have e: "(real (length ws + 1) * dt / time_s - (1 - blend)) * time_s = real (length ws + 1) * dt - (1 - blend) * time_s"
    using assms(1) by (simp add: field_simps)
  from p t assms(3) have "\<bar>vx (sw_current ?s') - vx target\<bar> \<le> (real (length ws + 1) * dt / time_s - (1 - blend)) * time_s * W \<and>
      \<bar>vy (sw_current ?s') - vy target\<bar> \<le> (real (length ws + 1) * dt / time_s - (1 - blend)) * time_s * W"
    by (simp add: tracks_def sp sp' f)
  then have d: "\<bar>vx (sw_current ?s') - vx target\<bar> \<le> (real (length ws + 1) * dt - (1 - blend) * time_s) * W \<and>
      \<bar>vy (sw_current ?s') - vy target\<bar> \<le> (real (length ws + 1) * dt - (1 - blend) * time_s) * W"
    unfolding e .
  have l: "\<not> sw_phase ?s' < world_blend ?s" "\<not> sw_phase ?s' < 1 - world_blend ?s" "0 < world_blend ?s" "world_blend ?s \<le> 1 / 2"
    using p assms(3,4) by (simp_all add: sp f)
  from d show ?thesis
    unfolding Let_def Advance_lowering(1,2) [OF l(1,2)] Advance_end [OF p l(3,4)] by (simp add: sp f)
qed

theorem swing_lands_witness:
  "let r = fst (Advance 1 vzero (advances 1 [vzero] (SwingTrajectory vzero vzero vzero 1 (1 / 4) 2)));
       far = (real (length [vzero] + 1) * 1 - (1 - 1 / 4) * 2) * 0
   in sr_phase r = 1 \<and> vz (sr_position r) = vz vzero \<and> sr_velocity_s r = vzero\<lparr>vz := 0\<rparr> \<and>
      \<bar>vx (sr_position r) - vx vzero\<bar> \<le> far \<and> \<bar>vy (sr_position r) - vy vzero\<bar> \<le> far"
  by (rule swing_lands) (simp_all add: vzero_def)

section \<open>Velocities\<close>

text \<open>The heights and their velocities, of the first and of the second half of a swing.\<close>

lemma bz_scaled:
  assumes "T \<noteq> 0"
  shows "((\<lambda>t. bz_position b (c + k * (t / T))) has_real_derivative k * bz_velocity b (c + k * (x / T)) / T) (at x)"
    "((\<lambda>t. bz_velocity b (c + k * (t / T))) has_real_derivative k * bz_acceleration b (c + k * (x / T)) / T) (at x)"
proof -
  have d: "((\<lambda>t. c + k * (t / T)) has_real_derivative k / T) (at x)"
    using assms by (auto intro!: derivative_eq_intros)
  show "((\<lambda>t. bz_position b (c + k * (t / T))) has_real_derivative k * bz_velocity b (c + k * (x / T)) / T) (at x)"
    using DERIV_chain' [OF d bz_position_deriv] by (simp add: mult.commute)
  show "((\<lambda>t. bz_velocity b (c + k * (t / T))) has_real_derivative k * bz_acceleration b (c + k * (x / T)) / T) (at x)"
    using DERIV_chain' [OF d bz_velocity_deriv] by (simp add: mult.commute)
qed

lemma swing_z_half:
  assumes "swing_time_s s = T" "0 < T"
  shows "t < T / 2 \<Longrightarrow> swing_z s (t / T) = (bz_position (zinterp s) (0 + 2 * (t / T)), bz_velocity (zinterp s) (0 + 2 * (t / T)) / (T / 2),
      bz_acceleration (zinterp s) (0 + 2 * (t / T)) / (T / 2))"
    "T / 2 < t \<Longrightarrow> swing_z s (t / T) = (bz_position (zinterp s) (2 + -2 * (t / T)), - bz_velocity (zinterp s) (2 + -2 * (t / T)) / (T / 2),
      bz_acceleration (zinterp s) (2 + -2 * (t / T)) / (T / 2))"
  using assms by (simp_all add: swing_z_def Let_def divide_less_eq less_divide_eq)

lemma swing_z_deriv:
  assumes "swing_time_s s = T" "0 < T" "x \<noteq> T / 2"
  shows "((\<lambda>t. fst (swing_z s (t / T))) has_real_derivative fst (snd (swing_z s (x / T)))) (at x)" (is ?p)
    "((\<lambda>t. fst (snd (swing_z s (t / T)))) has_real_derivative snd (snd (swing_z s (x / T))) / (T / 2)) (at x)" (is ?v)
proof -
  note z = swing_z_half [OF assms(1,2)]
  have T: "T \<noteq> 0" using assms(2) by simp
  consider "x < T / 2" | "T / 2 < x" using assms(3) by linarith
  then have "?p \<and> ?v"
  proof cases
    case 1
    note s = bz_scaled [OF T, of "zinterp s" 0 2 x]
    have e: "fst (snd (swing_z s (x / T))) = 2 * bz_velocity (zinterp s) (0 + 2 * (x / T)) / T"
      "snd (snd (swing_z s (x / T))) / (T / 2) = 2 * bz_acceleration (zinterp s) (0 + 2 * (x / T)) / T / (T / 2)"
      using z(1) [OF 1] by simp_all
    show ?thesis
      unfolding e
      by (intro conjI has_field_derivative_transform_within_open [OF s(1) open_lessThan [of "T / 2"]]
            has_field_derivative_transform_within_open [OF DERIV_cdivide [OF s(2), of "T / 2"] open_lessThan [of "T / 2"]])
        (use 1 z(1) in auto)
  next
    case 2
    note s = bz_scaled [OF T, of "zinterp s" 2 "-2" x]
    have e: "fst (snd (swing_z s (x / T))) = -2 * bz_velocity (zinterp s) (2 + -2 * (x / T)) / T"
      "snd (snd (swing_z s (x / T))) / (T / 2) = - (-2 * bz_acceleration (zinterp s) (2 + -2 * (x / T)) / T) / (T / 2)"
      using z(2) [OF 2] by simp_all
    show ?thesis
      unfolding e
      by (intro conjI has_field_derivative_transform_within_open [OF s(1) open_greaterThan [of "T / 2"]]
            has_field_derivative_transform_within_open [OF DERIV_cdivide [OF DERIV_minus [OF s(2)], of "T / 2"] open_greaterThan [of "T / 2"]])
        (use 2 z(2) in auto)
  qed
  then show ?p ?v by simp_all
qed

lemma swing_lift_deriv:
  assumes "swing_time_s s = T" "0 < T" "0 < world_blend s"
  shows "((\<lambda>t. vx (fst (swing_lift s (t / T)))) has_real_derivative vx (fst (snd (swing_lift s (x / T))))) (at x)"
    "((\<lambda>t. vx (fst (snd (swing_lift s (t / T))))) has_real_derivative vx (snd (snd (swing_lift s (x / T))))) (at x)"
  using assms unfolding swing_lift_def Let_def vadd_def vscale_def
  by (auto intro!: derivative_eq_intros simp: field_simps)

lemma swing_move_deriv:
  assumes "swing_time_s s = T" "0 < T" "world_blend s < 1 / 2"
  shows "((\<lambda>t. vx (fst (swing_move s (t / T)))) has_real_derivative vx (fst (snd (swing_move s (x / T))))) (at x)"
    "((\<lambda>t. vx (fst (snd (swing_move s (t / T))))) has_real_derivative
       vx (snd (snd (swing_move s (x / T)))) / (T * (1 - 2 * world_blend s))) (at x)"
proof -
  let ?k = "1 / (1 - 2 * world_blend s)" let ?c = "- world_blend s / (1 - 2 * world_blend s)"
  have T: "T \<noteq> 0" "1 - 2 * world_blend s \<noteq> 0" using assms(2,3) by simp_all
  have p: "(t / T - world_blend s) / (1 - 2 * world_blend s) = ?c + ?k * (t / T)" for t by (simp add: diff_divide_distrib)
  note s = bz_scaled [OF T(1), of "xmove s" ?c ?k x]
  show "((\<lambda>t. vx (fst (swing_move s (t / T)))) has_real_derivative vx (fst (snd (swing_move s (x / T))))) (at x)"
    using s(1) [folded p] by (simp add: swing_move_def Let_def vscale_def assms(1) mult.commute)
  show "((\<lambda>t. vx (fst (snd (swing_move s (t / T))))) has_real_derivative
       vx (snd (snd (swing_move s (x / T)))) / (T * (1 - 2 * world_blend s))) (at x)"
    using DERIV_cdivide [OF s(2) [folded p], of "T * (1 - 2 * world_blend s)"]
    by (simp add: swing_move_def Let_def vscale_def assms(1) mult.commute)
qed

text \<open>Along a swing, outside of the instants at which its phases meet, the reported velocities are the derivatives
  of the positions by time: of the height, and in the plane while the foot is lifted and moved. The reported accelerations are
  not: while it is lifted the acceleration in the plane is the derivative of the velocity, but the derivative of the vertical velocity is
  the reported acceleration over half the swing time, and while it is moved that of the velocity is the reported acceleration
  over the time of the move.\<close>

theorem swing_velocity:
  assumes "swing_time_s s = T" "0 < T" "0 < world_blend s" "world_blend s < 1 / 2" "x \<noteq> T / 2"
  shows "((\<lambda>t. fst (swing_z s (t / T))) has_real_derivative fst (snd (swing_z s (x / T)))) (at x) \<and>
    ((\<lambda>t. fst (snd (swing_z s (t / T)))) has_real_derivative snd (snd (swing_z s (x / T))) / (T / 2)) (at x) \<and>
    ((\<lambda>t. vx (fst (swing_lift s (t / T)))) has_real_derivative vx (fst (snd (swing_lift s (x / T))))) (at x) \<and>
    ((\<lambda>t. vx (fst (snd (swing_lift s (t / T))))) has_real_derivative vx (snd (snd (swing_lift s (x / T))))) (at x) \<and>
    ((\<lambda>t. vx (fst (swing_move s (t / T)))) has_real_derivative vx (fst (snd (swing_move s (x / T))))) (at x) \<and>
    ((\<lambda>t. vx (fst (snd (swing_move s (t / T))))) has_real_derivative
       vx (snd (snd (swing_move s (x / T)))) / (T * (1 - 2 * world_blend s))) (at x)"
  using swing_z_deriv [OF assms(1,2,5)] swing_lift_deriv [OF assms(1-3)] swing_move_deriv [OF assms(1,2,4)] by blast

theorem swing_velocity_witness:
  "((\<lambda>t. fst (swing_z (SwingTrajectory vzero vzero vzero 1 (1 / 4) 2) (t / 2))) has_real_derivative
      fst (snd (swing_z (SwingTrajectory vzero vzero vzero 1 (1 / 4) 2) ((1 / 2) / 2)))) (at (1 / 2))"
  using swing_velocity [of "SwingTrajectory vzero vzero vzero 1 (1 / 4) 2" 2 "1 / 2"] by (simp add: SwingTrajectory_def)

section \<open>Angles\<close>

lemma fmod_turns: "x - fmod x y = of_int (trunc (x / y)) * y"
  by (simp add: fmod_def)

lemma fmod_pos:
  assumes "0 \<le> x" "0 < y"
  shows "0 \<le> fmod x y \<and> fmod x y < y"
proof -
  have "of_int \<lfloor>x / y\<rfloor> * y \<le> x" using assms(2) mult_right_mono [OF of_int_floor_le [of "x / y"], of y] by simp
  moreover have "x < (of_int \<lfloor>x / y\<rfloor> + 1) * y"
    using assms(2) mult_strict_right_mono [OF real_of_int_floor_add_one_gt [of "x / y"], of y] by simp
  ultimately show ?thesis using assms by (simp add: fmod_def trunc_def algebra_simps)
qed

lemma fmod_neg:
  assumes "x \<le> 0" "0 < y"
  shows "- y < fmod x y \<and> fmod x y \<le> 0"
proof -
  have f: "fmod x y = - fmod (- x) y"
    using assms by (cases "x = 0") (auto simp: fmod_def trunc_def ceiling_def divide_less_0_iff)
  with fmod_pos [of "- x" y] assms show ?thesis by simp
qed

lemma wrap_radians:
  "- pi \<le> WrapNegPiToPi v \<and> WrapNegPiToPi v \<le> pi \<and> (\<exists>k :: int. WrapNegPiToPi v = v + of_int k * (2 * pi))"
proof -
  consider "- pi \<le> v \<and> v \<le> pi" | "v > pi" | "v < - pi" by linarith
  then show ?thesis
  proof cases
    case 1
    then show ?thesis by (auto simp: WrapNegPiToPi_def intro: exI [of _ 0])
  next
    case 2
    then have "v > 0" using pi_gt_zero by linarith
    then have c: "(v \<ge> - pi \<and> v \<le> pi) = False" "(v > 0) = True" using 2 by auto
    have "WrapNegPiToPi v = fmod (v + pi) (2 * pi) - pi" unfolding WrapNegPiToPi_def c by simp
    moreover have "fmod (v + pi) (2 * pi) - pi = v + of_int (- trunc ((v + pi) / (2 * pi))) * (2 * pi)"
      using fmod_turns [of "v + pi" "2 * pi"] by simp
    moreover have "0 \<le> fmod (v + pi) (2 * pi) \<and> fmod (v + pi) (2 * pi) < 2 * pi"
      using 2 fmod_pos [of "v + pi" "2 * pi"] pi_gt_zero by simp
    ultimately show ?thesis by (intro conjI) (linarith, linarith, metis)
  next
    case 3
    then have "v < 0" using pi_gt_zero by linarith
    then have c: "(v \<ge> - pi \<and> v \<le> pi) = False" "(v > 0) = False" using 3 by auto
    have "WrapNegPiToPi v = fmod (v - pi) (2 * pi) + pi" unfolding WrapNegPiToPi_def c by simp
    moreover have "fmod (v - pi) (2 * pi) + pi = v + of_int (- trunc ((v - pi) / (2 * pi))) * (2 * pi)"
      using fmod_turns [of "v - pi" "2 * pi"] by simp
    moreover have "- (2 * pi) < fmod (v - pi) (2 * pi) \<and> fmod (v - pi) (2 * pi) \<le> 0"
      using 3 fmod_neg [of "v - pi" "2 * pi"] pi_gt_zero by simp
    ultimately show ?thesis by (intro conjI) (linarith, linarith, metis)
  qed
qed

text \<open>Wrapping an angle gives an angle between -180 and 180 degrees that differs from it by full turns.\<close>

theorem wrap_angle:
  "-180 \<le> WrapNeg180To180 v \<and> WrapNeg180To180 v \<le> 180 \<and> (\<exists>k :: int. WrapNeg180To180 v = v + of_int k * 360)"
proof -
  let ?r = "WrapNegPiToPi (Radians v)"
  obtain k :: int where "- pi \<le> ?r" "?r \<le> pi" and k: "?r = Radians v + of_int k * (2 * pi)" using wrap_radians by blast
  then have "-180 \<le> Degrees ?r" "Degrees ?r \<le> 180" using pi_gt_zero by (simp_all add: Degrees_def field_simps)
  moreover have "Degrees ?r = v + of_int k * 360" unfolding k by (simp add: Degrees_def Radians_def field_simps)
  ultimately show ?thesis unfolding WrapNeg180To180_def by blast
qed

section \<open>Crossing a line\<close>

text \<open>The path of a point that starts at the origin with a velocity that turns with \<open>omega\<close>.\<close>

definition turn_path :: "real \<times> real \<Rightarrow> real \<Rightarrow> real \<Rightarrow> real \<times> real" where
  "turn_path v omega t =
     (if omega = 0 then (fst v * t, snd v * t)
      else ((sin (omega * t) * fst v - (1 - cos (omega * t)) * snd v) / omega,
            (sin (omega * t) * snd v + (1 - cos (omega * t)) * fst v) / omega))"

definition on_line :: "real \<times> real \<Rightarrow> real \<times> real \<Rightarrow> real \<times> real \<Rightarrow> bool" where
  "on_line p1 p2 q \<longleftrightarrow> (fst q - fst p1) * (snd p2 - snd p1) = (snd q - snd p1) * (fst p2 - fst p1)"

lemma turn_path_deriv:
  "turn_path v omega 0 = (0, 0)"
  "((\<lambda>t. fst (turn_path v omega t)) has_real_derivative cos (omega * t) * fst v - sin (omega * t) * snd v) (at t)"
  "((\<lambda>t. snd (turn_path v omega t)) has_real_derivative cos (omega * t) * snd v + sin (omega * t) * fst v) (at t)"
  unfolding turn_path_def by (cases "omega = 0"; auto intro!: derivative_eq_intros simp: field_simps)+

lemma atan2_polar:
  "x = sqrt (x\<^sup>2 + y\<^sup>2) * cos (atan2 y x)" "y = sqrt (x\<^sup>2 + y\<^sup>2) * sin (atan2 y x)"
  using arg_cong [OF rcis_cmod_Arg [of "Complex x y"], of Re] arg_cong [OF rcis_cmod_Arg [of "Complex x y"], of Im]
  by (simp_all add: atan2_def cmod_def)

lemma wrap_trig: "cos (WrapNegPiToPi v) = cos v" "sin (WrapNegPiToPi v) = sin v"
proof -
  obtain k :: int where k: "WrapNegPiToPi v = v + of_int k * (2 * pi)" using wrap_radians by blast
  have "cos (v + 2 * pi * of_int k) = cos v" "sin (v + 2 * pi * of_int k) = sin v"
    unfolding cos_add sin_add cos_int_2pin sin_int_2pin by simp_all
  then show "cos (WrapNegPiToPi v) = cos v" "sin (WrapNegPiToPi v) = sin v" unfolding k by (simp_all add: mult_ac)
qed

text \<open>A solution of the circle and the line, relative to the centre.\<close>

lemma circle_line_solution:
  fixes dx dy D h R :: real
  assumes "dx * dx + dy * dy \<noteq> 0" "h * h = R * (dx * dx + dy * dy) - D * D"
    and "X = (D * dy + dx * h) / (dx * dx + dy * dy)" "Y = (- D * dx + dy * h) / (dx * dx + dy * dy)"
  shows "X * dy - Y * dx = D" "X * X + Y * Y = R"
proof -
  let ?n = "dx * dx + dy * dy"
  have "X * dy - Y * dx = ((D * dy + dx * h) * dy - (- D * dx + dy * h) * dx) / ?n" unfolding assms(3,4) times_divide_eq_left diff_divide_distrib ..
  also have "(D * dy + dx * h) * dy - (- D * dx + dy * h) * dx = D * ?n" by (simp add: algebra_simps)
  also have "D * ?n / ?n = D" using assms(1) by (rule nonzero_mult_div_cancel_right)
  finally show "X * dy - Y * dx = D" .
  have "X * X + Y * Y = ((D * dy + dx * h) * (D * dy + dx * h) + (- D * dx + dy * h) * (- D * dx + dy * h)) / (?n * ?n)"
    unfolding assms(3,4) times_divide_times_eq by (rule add_divide_distrib [symmetric])
  also have "(D * dy + dx * h) * (D * dy + dx * h) + (- D * dx + dy * h) * (- D * dx + dy * h) = (D * D + h * h) * ?n"
    by (simp add: algebra_simps)
  also have "\<dots> = R * ?n * ?n" unfolding assms(2) by simp
  also have "R * ?n * ?n / (?n * ?n) = R" using assms(1) by (simp only: mult.assoc) (rule nonzero_mult_div_cancel_right, simp)
  finally show "X * X + Y * Y = R" .
qed

lemma circle_line_cases:
  assumes "p \<in> set (circle_line r c p1 p2)"
    and "dx = (fst p2 - fst c) - (fst p1 - fst c)" "dy = (snd p2 - snd c) - (snd p1 - snd c)"
    and "D = (fst p1 - fst c) * (snd p2 - snd c) - (fst p2 - fst c) * (snd p1 - snd c)"
  obtains h where "h * h = r * r * (dx * dx + dy * dy) - D * D"
    "fst p - fst c = (D * dy + dx * h) / (dx * dx + dy * dy)" "snd p - snd c = (- D * dx + dy * h) / (dx * dx + dy * dy)"
proof -
  let ?n = "dx * dx + dy * dy" let ?d = "r * r * ?n - D * D"
  have "circle_line r c p1 p2 =
    (let sign = (if dy < 0 then -1 else 1)
     in if ?d < 0 then [] else if ?d = 0 then [(D * dy / ?n + fst c, - D * dx / ?n + snd c)]
        else [((D * dy + sign * dx * sqrt ?d) / ?n + fst c, (- D * dx + \<bar>dy\<bar> * sqrt ?d) / ?n + snd c),
              ((D * dy - sign * dx * sqrt ?d) / ?n + fst c, (- D * dx - \<bar>dy\<bar> * sqrt ?d) / ?n + snd c)])"
    unfolding circle_line_def Let_def case_prod_beta assms(2-4) by simp
  with assms(1) consider (one) "?d = 0" "p = (D * dy / ?n + fst c, - D * dx / ?n + snd c)"
    | (up) s where "s = (if dy < 0 then -1 else 1)" "0 < ?d"
      "p = ((D * dy + s * dx * sqrt ?d) / ?n + fst c, (- D * dx + \<bar>dy\<bar> * sqrt ?d) / ?n + snd c)"
    | (down) s where "s = (if dy < 0 then -1 else 1)" "0 < ?d"
      "p = ((D * dy - s * dx * sqrt ?d) / ?n + fst c, (- D * dx - \<bar>dy\<bar> * sqrt ?d) / ?n + snd c)"
    by (cases "?d" "0 :: real" rule: linorder_cases) (simp_all add: Let_def, blast)
  then show thesis
  proof cases
    case one
    show ?thesis by (rule that [of 0]) (simp_all add: one del: right_diff_distrib_numeral)
  next
    case up
    have "s * s = 1" "\<bar>dy\<bar> = s * dy" using up(1) by auto
    then show ?thesis using up(2,3) by (intro that [of "s * sqrt ?d"]) (simp_all add: mult_ac flip: mult.assoc)
  next
    case down
    have "s * s = 1" "\<bar>dy\<bar> = s * dy" using down(1) by auto
    then show ?thesis using down(2,3) by (intro that [of "- (s * sqrt ?d)"]) (simp_all add: mult_ac flip: mult.assoc)
  qed
qed

lemma circle_line_correct:
  assumes "p \<in> set (circle_line r c p1 p2)" "p1 \<noteq> p2"
  shows "on_line p1 p2 p" "(fst p - fst c)\<^sup>2 + (snd p - snd c)\<^sup>2 = r\<^sup>2"
proof -
  define dx dy D where d: "dx = (fst p2 - fst c) - (fst p1 - fst c)" "dy = (snd p2 - snd c) - (snd p1 - snd c)"
    "D = (fst p1 - fst c) * (snd p2 - snd c) - (fst p2 - fst c) * (snd p1 - snd c)"
  have n: "dx * dx + dy * dy \<noteq> 0" using assms(2) by (auto simp: d sum_squares_eq_zero_iff prod_eq_iff)
  obtain h where h: "h * h = r * r * (dx * dx + dy * dy) - D * D"
    "fst p - fst c = (D * dy + dx * h) / (dx * dx + dy * dy)" "snd p - snd c = (- D * dx + dy * h) / (dx * dx + dy * dy)"
    using circle_line_cases [OF assms(1) d] by blast
  note s = circle_line_solution [OF n h]
  show "(fst p - fst c)\<^sup>2 + (snd p - snd c)\<^sup>2 = r\<^sup>2" using s(2) by (simp add: power2_eq_square)
  show "on_line p1 p2 p" using s(1) by (simp add: on_line_def d algebra_simps)
qed

text \<open>The point the code computes is reached at the time it computes.\<close>

lemma turn_path_center:
  assumes "omega \<noteq> 0"
  shows "fst (turn_path v omega t) = fst (circle_center v omega) - (cos (omega * t) * fst (circle_center v omega) -
      sin (omega * t) * snd (circle_center v omega))"
    "snd (turn_path v omega t) = snd (circle_center v omega) - (sin (omega * t) * fst (circle_center v omega) +
      cos (omega * t) * snd (circle_center v omega))"
  using assms by (simp_all add: turn_path_def circle_center_def field_simps)

lemma center_radius:
  "(fst (circle_center v omega))\<^sup>2 + (snd (circle_center v omega))\<^sup>2 =
     (sqrt (fst v * fst v + snd v * snd v) / omega)\<^sup>2"
  by (simp add: circle_center_def power_divide power2_eq_square add_divide_distrib add.commute)

lemma circle_time_reaches:
  assumes "omega \<noteq> 0" "v \<noteq> (0, 0)"
    and "(fst p - fst (circle_center v omega))\<^sup>2 + (snd p - snd (circle_center v omega))\<^sup>2 =
      (sqrt (fst v * fst v + snd v * snd v) / omega)\<^sup>2"
  shows "turn_path v omega (circle_time v omega p) = p"
proof -
  obtain cx cy where c: "circle_center v omega = (cx, cy)" by fastforce
  define a b where "a = atan2 (- cy) (- cx)" and "b = atan2 (snd p - cy) (fst p - cx)"
  define r where "r = sqrt (cx\<^sup>2 + cy\<^sup>2)"
  define N where "N = sqrt (fst v * fst v + snd v * snd v)"
  have n: "N \<noteq> 0"
    using assms(2) by (auto simp: N_def sum_squares_eq_zero_iff prod_eq_iff)
  have "circle_time v omega p = WrapNegPiToPi (b - a) * (N / omega) / N"
    by (simp add: circle_time_def c Let_def a_def b_def N_def)
  then have t: "omega * circle_time v omega p = WrapNegPiToPi (b - a)"
    using assms(1) n by simp
  have e: "cx = - (r * cos a)" "cy = - (r * sin a)"
    using atan2_polar [where x = "- cx" and y = "- cy"] by (simp_all add: r_def a_def)
  have p: "fst p = cx + r * cos b" "snd p = cy + r * sin b"
    using atan2_polar [where x = "fst p - cx" and y = "snd p - cy"] assms(3) center_radius [of v omega]
    by (simp_all add: r_def b_def c)
  have "cos (b - a) * cx - sin (b - a) * cy = - (r * cos b)"
    using arg_cong [OF cos_add [of "b - a" a], of "\<lambda>u. r * u"] by (simp add: e algebra_simps)
  moreover have "sin (b - a) * cx + cos (b - a) * cy = - (r * sin b)"
    using arg_cong [OF sin_add [of "b - a" a], of "\<lambda>u. r * u"] by (simp add: e algebra_simps)
  ultimately show ?thesis
    using turn_path_center [OF assms(1), of v "circle_time v omega p"] p unfolding t wrap_trig c prod_eq_iff by simp
qed

lemma turn_path_radius:
  assumes "omega \<noteq> 0"
  shows "(fst (turn_path v omega t) - fst (circle_center v omega))\<^sup>2 + (snd (turn_path v omega t) - snd (circle_center v omega))\<^sup>2 =
    (sqrt (fst v * fst v + snd v * snd v) / omega)\<^sup>2"
proof -
  have "(C * x - S * y)\<^sup>2 + (S * x + C * y)\<^sup>2 = (S\<^sup>2 + C\<^sup>2) * (x\<^sup>2 + y\<^sup>2)" for C S x y :: real
    by (simp add: power2_eq_square algebra_simps)
  moreover have "(a - u - a)\<^sup>2 = u\<^sup>2" for a u :: real by simp
  ultimately show ?thesis unfolding turn_path_center [OF assms] center_radius [symmetric] by (simp only: sin_cos_squared_add mult_1_left)
qed

lemma line_misses_circle:
  assumes "circle_line r c p1 p2 = []" "(fst q - fst c)\<^sup>2 + (snd q - snd c)\<^sup>2 = r\<^sup>2"
  shows "\<not> on_line p1 p2 q"
proof
  assume l: "on_line p1 p2 q"
  define x y dx dy D where d: "x = fst q - fst c" "y = snd q - snd c"
    "dx = (fst p2 - fst c) - (fst p1 - fst c)" "dy = (snd p2 - snd c) - (snd p1 - snd c)"
    "D = (fst p1 - fst c) * (snd p2 - snd c) - (fst p2 - fst c) * (snd p1 - snd c)"
  have "r * r * (dx * dx + dy * dy) - D * D < 0"
    using assms(1) unfolding circle_line_def Let_def case_prod_beta d by (auto split: if_splits)
  moreover have "D = x * dy - y * dx" using l by (simp add: on_line_def d algebra_simps)
  moreover have "r * r = x * x + y * y" using assms(2) by (simp add: d power2_eq_square)
  ultimately have "(x * dx + y * dy) * (x * dx + y * dy) < 0" by (simp add: algebra_simps)
  then show False by (simp add: mult_less_0_iff)
qed

lemma StraightLine_crosses:
  "case StraightLine v p1 p2 of
     Fin t \<Rightarrow> on_line p1 p2 (turn_path v 0 t)
   | PosInf \<Rightarrow> (\<forall>t. on_line p1 p2 (turn_path v 0 t)) \<or> (\<forall>t. \<not> on_line p1 p2 (turn_path v 0 t))
   | _ \<Rightarrow> False"
proof -
  obtain a b x3 y3 x4 y4 where e: "v = (a, b)" "p1 = (x3, y3)" "p2 = (x4, y4)" by fastforce
  define m where "m = b * (x3 - x4) - a * (y3 - y4)"
  have l: "on_line p1 p2 (turn_path v 0 t) \<longleftrightarrow> t * m = y3 * (x3 - x4) - x3 * (y3 - y4)" for t
    by (auto simp: on_line_def turn_path_def e m_def algebra_simps)
  have s: "StraightLine v p1 p2 = (if m = 0 then PosInf else Fin ((y3 * (x3 - x4) - x3 * (y3 - y4)) / m))"
    by (simp add: StraightLine_def e m_def algebra_simps)
  show ?thesis unfolding s l by simp
qed

lemma CurvedPath_crosses:
  assumes "p1 \<noteq> p2" "v \<noteq> (0, 0)" "omega \<noteq> 0"
  shows "case CurvedPath v omega p1 p2 of
     Fin t \<Rightarrow> on_line p1 p2 (turn_path v omega t)
   | PosInf \<Rightarrow> \<forall>t. \<not> on_line p1 p2 (turn_path v omega t)
   | _ \<Rightarrow> False"
proof -
  define ps where "ps = circle_line (sqrt (fst v * fst v + snd v * snd v) / omega) (circle_center v omega) p1 p2"
  have hit: "on_line p1 p2 (turn_path v omega (circle_time v omega p))" if "p \<in> set ps" for p
    using circle_line_correct [OF that [unfolded ps_def] assms(1)] circle_time_reaches [OF assms(3,2)] by simp
  show ?thesis
  proof (cases ps)
    case Nil
    then have "CurvedPath v omega p1 p2 = PosInf" by (simp add: CurvedPath_def Let_def flip: ps_def)
    then show ?thesis using line_misses_circle [OF Nil [unfolded ps_def] turn_path_radius [OF assms(3)]] by simp
  next
    case (Cons s1 rest)
    then have "\<exists>p \<in> set ps. CurvedPath v omega p1 p2 = Fin (circle_time v omega p)"
      using assms(1,2) by (cases rest) (auto simp: CurvedPath_def Let_def simp flip: ps_def)
    then show ?thesis using hit by auto
  qed
qed

text \<open>The time at which a moving and turning point crosses a line, which tells the gait how long a pair of legs can stay on
  the ground, is right: at the time computed the point is on the line, where slower turns than a millionth of a radian per second count
  as a straight path. For a line through two different points the answer of no crossing is right too, unless the point moves along the line.\<close>

theorem crossing_time:
  assumes "p1 \<noteq> p2" "v \<noteq> (0, 0)" "w = (if \<bar>omega\<bar> < 1 / 1000000 then 0 else omega)"
  shows "case TrajectoryLineIntersectTime v omega p1 p2 of
           Fin t \<Rightarrow> on_line p1 p2 (turn_path v w t)
         | PosInf \<Rightarrow> (\<forall>t. on_line p1 p2 (turn_path v w t)) \<or> (\<forall>t. \<not> on_line p1 p2 (turn_path v w t))
         | _ \<Rightarrow> False"
proof (cases "\<bar>omega\<bar> < 1 / 1000000")
  case True
  then have e: "w = 0" "TrajectoryLineIntersectTime v omega p1 p2 = StraightLine v p1 p2"
    using assms(3) by (simp_all add: TrajectoryLineIntersectTime_def)
  show ?thesis unfolding e by (rule StraightLine_crosses)
next
  case False
  then have "omega \<noteq> 0" by auto
  from CurvedPath_crosses [OF assms(1,2) this] show ?thesis
    using False assms(3)
    by (cases "CurvedPath v omega p1 p2") (auto simp: TrajectoryLineIntersectTime_def dest: spec)
qed

theorem crossing_time_witness:
  "case TrajectoryLineIntersectTime (1, 0) 0 (2, -1) (2, 1) of
     Fin t \<Rightarrow> on_line (2, -1) (2, 1) (turn_path (1, 0) 0 t)
   | PosInf \<Rightarrow> (\<forall>t. on_line (2, -1) (2, 1) (turn_path (1, 0) 0 t)) \<or> (\<forall>t. \<not> on_line (2, -1) (2, 1) (turn_path (1, 0) 0 t))
   | _ \<Rightarrow> False"
  by (rule crossing_time) simp_all

end
