(* ===== verification/IkProps.thy ===== *)
theory IkProps
  imports MammalIk SwingProps
begin

text \<open>
  Correctness of the inverse kinematics: the angles put the foot where it was asked to be, up to the tolerance of the
  shoulder, and the search for the shoulder always finds a line.
\<close>

section \<open>The foot for three angles\<close>

text \<open>The chain of the constructor: a rotation around x by the shoulder, around y by the femur and by the tibia, each followed by
  the offset of its link.\<close>

definition foot_point :: "ik_config \<Rightarrow> real \<Rightarrow> real \<Rightarrow> real \<Rightarrow> vec" where
  "foot_point cfg q1 q2 q3 =
     (let p = il_pose (mi_shoulder cfg); L1 = vz (il_pose (mi_femur cfg)); L2 = vz (il_pose (mi_tibia cfg));
          x = vx p + L1 * sin q2 + L2 * sin (q2 + q3);
          z = vz p + L1 * cos q2 + L2 * cos (q2 + q3)
      in \<lparr>vx = x, vy = vy p * cos q1 - z * sin q1, vz = vy p * sin q1 + z * cos q1\<rparr>)"

definition ik_tolerance :: "real \<Rightarrow> real" where
  "ik_tolerance r = (if \<bar>r\<bar> < 1 / 1000 then \<bar>r\<bar> else 1 / 10000)"

section \<open>The planar triangle\<close>

lemma triangle_angles:
  fixes L1 L2 rho :: real
  assumes "0 < L1" "0 < L2" "0 < rho" "\<bar>L1 - L2\<bar> \<le> rho" "rho \<le> L1 + L2"
  defines "f \<equiv> arccos ((rho\<^sup>2 + L1\<^sup>2 - L2\<^sup>2) / (2 * rho * L1))" and "g \<equiv> pi - arccos ((L1\<^sup>2 + L2\<^sup>2 - rho\<^sup>2) / (2 * L1 * L2))"
  shows "\<bar>(rho\<^sup>2 + L1\<^sup>2 - L2\<^sup>2) / (2 * rho * L1)\<bar> \<le> 1" "\<bar>(L1\<^sup>2 + L2\<^sup>2 - rho\<^sup>2) / (2 * L1 * L2)\<bar> \<le> 1"
    "L1 * cos f + L2 * cos (f - g) = rho" "L1 * sin f + L2 * sin (f - g) = 0"
proof -
  let ?c = "(rho\<^sup>2 + L1\<^sup>2 - L2\<^sup>2) / (2 * rho * L1)" and ?d = "(L1\<^sup>2 + L2\<^sup>2 - rho\<^sup>2) / (2 * L1 * L2)"
  have sq: "(L1 - L2)\<^sup>2 \<le> rho\<^sup>2" "rho\<^sup>2 \<le> (L1 + L2)\<^sup>2" using assms(1-5) by (simp_all add: abs_le_square_iff [symmetric])
  have "(rho - L1)\<^sup>2 \<le> L2\<^sup>2" using assms(1-5) by (subst abs_le_square_iff [symmetric]) auto
  moreover have "L2\<^sup>2 \<le> (rho + L1)\<^sup>2" using assms(1-5) by (subst abs_le_square_iff [symmetric]) auto
  ultimately show c: "\<bar>?c\<bar> \<le> 1" using assms(1-3) by (simp add: abs_le_iff field_simps power2_eq_square)
  show d: "\<bar>?d\<bar> \<le> 1" using sq assms(1,2) by (simp add: abs_le_iff field_simps power2_eq_square)
  have sn: "0 \<le> sin (arccos v)" if "\<bar>v\<bar> \<le> 1" for v :: real using arccos_bounded [of v] that by (intro sin_ge_zero) auto
  have cf: "cos f = ?c" "0 \<le> sin f" using cos_arccos_abs [OF c] sn [OF c] by (simp_all add: f_def)
  have cg: "cos g = - ?d" "0 \<le> sin g" using cos_arccos_abs [OF d] sn [OF d] by (simp_all add: g_def)
  have s1: "L1\<^sup>2 * (sin f)\<^sup>2 = L1\<^sup>2 - ((rho\<^sup>2 + L1\<^sup>2 - L2\<^sup>2) / (2 * rho))\<^sup>2"
    using assms(1,3) unfolding sin_squared_eq cf(1) by (simp add: field_simps power2_eq_square)
  have e1: "L1 * cos f = (rho\<^sup>2 + L1\<^sup>2 - L2\<^sup>2) / (2 * rho)" using assms(1,3) by (simp add: cf(1))
  have e2: "L1 * L2 * cos g = (rho\<^sup>2 - L1\<^sup>2 - L2\<^sup>2) / 2" using assms(1,2) by (simp add: cg(1) field_simps)
  text \<open>Both sines give twice the area of the triangle.\<close>
  have area: "rho * (L1 * sin f) = L1 * L2 * sin g"
  proof (rule power2_eq_imp_eq)
    have "(rho * (L1 * sin f))\<^sup>2 = rho\<^sup>2 * (L1\<^sup>2 * (sin f)\<^sup>2)" by (simp add: power_mult_distrib)
    also have "\<dots> = rho\<^sup>2 * L1\<^sup>2 - ((rho\<^sup>2 + L1\<^sup>2 - L2\<^sup>2) / 2)\<^sup>2" unfolding s1 using assms(3) by (simp add: field_simps power2_eq_square)
    also have "\<dots> = (L1 * L2)\<^sup>2 - ((rho\<^sup>2 - L1\<^sup>2 - L2\<^sup>2) / 2)\<^sup>2" by (simp add: field_simps power2_eq_square)
    also have "\<dots> = (L1 * L2)\<^sup>2 * (1 - (cos g)\<^sup>2)" unfolding e2 [symmetric] by (simp add: power_mult_distrib algebra_simps)
    also have "\<dots> = (L1 * L2 * sin g)\<^sup>2" by (simp add: sin_squared_eq power_mult_distrib)
    finally show "(rho * (L1 * sin f))\<^sup>2 = (L1 * L2 * sin g)\<^sup>2" .
  qed (use assms(1-3) cf(2) cg(2) in simp_all)
  have P: "L1 * L1 + L1 * L2 * cos g = rho * (L1 * cos f)" unfolding e1 e2 using assms(3) by (simp add: field_simps power2_eq_square)
  have "L1 * L1 * (L1 * cos f + L2 * cos (f - g)) = (L1 * L1 + L1 * L2 * cos g) * (L1 * cos f) + (L1 * L2 * sin g) * (L1 * sin f)"
    by (simp add: cos_diff algebra_simps)
  also have "\<dots> = rho * (L1 * L1) * ((cos f)\<^sup>2 + (sin f)\<^sup>2)" unfolding P area [symmetric] by algebra
  also have "\<dots> = L1 * L1 * rho" by simp
  finally show "L1 * cos f + L2 * cos (f - g) = rho" using assms(1) by simp
  have "L1 * L1 * (L1 * sin f + L2 * sin (f - g)) = (L1 * L1 + L1 * L2 * cos g) * (L1 * sin f) - (L1 * L2 * sin g) * (L1 * cos f)"
    by (simp add: sin_diff algebra_simps)
  also have "\<dots> = 0" unfolding P area [symmetric] by simp
  finally show "L1 * sin f + L2 * sin (f - g) = 0" using assms(1) by simp
qed

lemma triangle_angles':
  fixes L1 L2 rho beta sg f g :: real
  assumes "L1 * cos f + L2 * cos (f - g) = rho" "L1 * sin f + L2 * sin (f - g) = 0" "sg = 1 \<or> sg = -1"
  shows "L1 * sin (beta + sg * f) + L2 * sin (beta + sg * f + - sg * g) = rho * sin beta"
    "L1 * cos (beta + sg * f) + L2 * cos (beta + sg * f + - sg * g) = rho * cos beta"
proof -
  have e: "beta + sg * f + - sg * g = beta + sg * (f - g)" by (simp add: algebra_simps)
  have t: "sin (sg * u) = sg * sin u" "cos (sg * u) = cos u" for u using assms(3) by auto
  have "L1 * sin (beta + sg * f) + L2 * sin (beta + sg * (f - g)) =
    sin beta * (L1 * cos f + L2 * cos (f - g)) + cos beta * sg * (L1 * sin f + L2 * sin (f - g))"
    unfolding sin_add t by (simp add: algebra_simps)
  then show "L1 * sin (beta + sg * f) + L2 * sin (beta + sg * f + - sg * g) = rho * sin beta" unfolding e assms(1,2) by (simp add: mult.commute)
  have "L1 * cos (beta + sg * f) + L2 * cos (beta + sg * (f - g)) =
    cos beta * (L1 * cos f + L2 * cos (f - g)) - sin beta * sg * (L1 * sin f + L2 * sin (f - g))"
    unfolding cos_add t by (simp add: algebra_simps)
  then show "L1 * cos (beta + sg * f) + L2 * cos (beta + sg * f + - sg * g) = rho * cos beta" unfolding e assms(1,2) by (simp add: mult.commute)
qed

text \<open>The angle to the hip, as the code measures it.\<close>

lemma hip_angle:
  assumes "beta = - (atan2 y x + 1 / 2 * pi)"
  shows "sqrt (x\<^sup>2 + y\<^sup>2) * sin beta = - x" "sqrt (x\<^sup>2 + y\<^sup>2) * cos beta = - y"
proof -
  have "sin beta = - cos (atan2 y x)" "cos beta = - sin (atan2 y x)"
    by (simp_all add: assms sin_add cos_add flip: minus_add_distrib)
  then show "sqrt (x\<^sup>2 + y\<^sup>2) * sin beta = - x" "sqrt (x\<^sup>2 + y\<^sup>2) * cos beta = - y"
    using atan2_polar [where x = x and y = y] by simp_all
qed

lemma femur_tibia_solves:
  assumes "femur_tibia_rad lib cfg (prx, pry) = Some (femur, q3)" "clamps lib" "MammalIk_ok cfg"
    and "L1 = vz (il_pose (mi_femur cfg))" "L2 = vz (il_pose (mi_tibia cfg))"
    and "\<bar>L1 - L2\<bar> \<le> sqrt (prx\<^sup>2 + pry\<^sup>2)" "0 < sqrt (prx\<^sup>2 + pry\<^sup>2)"
  shows "\<exists>q2. femur = Fin q2 \<and> L1 * sin q2 + L2 * sin (q2 + q3) = - prx \<and> L1 * cos q2 + L2 * cos (q2 + q3) = - pry"
proof -
  define rho where "rho = sqrt (prx\<^sup>2 + pry\<^sup>2)"
  define beta where "beta = - (atan2 pry prx + 1 / 2 * pi)"
  define sg where "sg = (if mi_invert cfg then -1 else 1 :: real)"
  have L: "0 < L1" "0 < L2" using assms(3-5) by (simp_all add: MammalIk_ok_def link_ok_def)
  have r: "prx * prx + pry * pry = rho\<^sup>2" "rho\<^sup>2 = prx\<^sup>2 + pry\<^sup>2" "0 < rho" using assms(7) by (simp_all add: rho_def power2_eq_square)
  have far: "rho \<le> L1 + L2" using assms(1) r(3) unfolding femur_tibia_rad_def Let_def case_prod_conv assms(4,5) [symmetric] r(1)
    by (auto split: if_splits)
  note t = triangle_angles [OF L r(3) assms(6) [folded rho_def] far]
  have lim: "lim1 lib v = v" if "\<bar>v\<bar> \<le> 1" for v using assms(2) that by (auto simp: lim1_def clamps_def)
  define q2 where "q2 = WrapNegPiToPi (beta + sg * arccos ((rho\<^sup>2 + L1\<^sup>2 - L2\<^sup>2) / (2 * rho * L1)))"
  have q: "femur = Fin q2" "q3 = - sg * (pi - arccos ((L1\<^sup>2 + L2\<^sup>2 - rho\<^sup>2) / (2 * L1 * L2)))"
    using assms(1) r(3) far unfolding femur_tibia_rad_def Let_def case_prod_conv assms(4,5) [symmetric] r(1)
    by (auto simp: q2_def sg_def beta_def lim [OF t(1)] lim [OF t(2)] split: if_splits)
  note s = triangle_angles' [OF t(3,4), of sg beta]
  have w: "sin (q2 + d) = sin (beta + sg * arccos ((rho\<^sup>2 + L1\<^sup>2 - L2\<^sup>2) / (2 * rho * L1)) + d)"
    "cos (q2 + d) = cos (beta + sg * arccos ((rho\<^sup>2 + L1\<^sup>2 - L2\<^sup>2) / (2 * rho * L1)) + d)" for d
    unfolding sin_add [of _ d] cos_add [of _ d] q2_def wrap_trig by simp_all
  have "L1 * sin q2 + L2 * sin (q2 + q3) = rho * sin beta \<and> L1 * cos q2 + L2 * cos (q2 + q3) = rho * cos beta"
    using s w [of 0] w [of q3] unfolding q(2) by (simp add: sg_def)
  then show ?thesis using hip_angle [OF beta_def] q(1) by (simp add: rho_def)
qed

section \<open>The shoulder\<close>

definition line_distance :: "real \<Rightarrow> real \<Rightarrow> real \<Rightarrow> real" where
  "line_distance x0 y0 theta = x0 * cos theta - y0 * sin theta"

lemma line_distance: "x0 * (y0 + cos theta) - (x0 + sin theta) * y0 = line_distance x0 y0 theta"
  by (simp add: line_distance_def algebra_simps)

lemma best_line_Some:
  "best_line r x0 y0 thetas best = Some (a, d) \<Longrightarrow> best = Some (a, d) \<or>
    (\<exists>theta. \<bar>\<bar>r\<bar> - \<bar>line_distance x0 y0 theta\<bar>\<bar> \<le> 1 / 10000 \<and>
       a = atan2 0 r - atan2 (- line_distance x0 y0 theta * sin theta) (line_distance x0 y0 theta * cos theta))"
proof (induction thetas arbitrary: best)
  case (Cons theta thetas)
  from Cons.prems show ?case
    unfolding best_line.simps Let_def line_distance
    by (auto simp: not_less split: if_splits dest!: Cons.IH)
qed simp

lemma best_line_found:
  "best \<noteq> None \<or> (\<exists>theta \<in> set thetas. \<bar>\<bar>r\<bar> - \<bar>line_distance x0 y0 theta\<bar>\<bar> \<le> 1 / 10000) \<Longrightarrow> best_line r x0 y0 thetas best \<noteq> None"
proof (induction thetas arbitrary: best)
  case (Cons theta thetas)
  show ?case
  proof (cases "\<bar>\<bar>r\<bar> - \<bar>line_distance x0 y0 theta\<bar>\<bar> > 1 / 10000")
    case True
    then have "best_line r x0 y0 thetas best \<noteq> None" using Cons.prems by (intro Cons.IH) auto
    then show ?thesis using True unfolding best_line.simps Let_def line_distance by simp
  next
    case False
    have "best_line r x0 y0 thetas (Some p) \<noteq> None" for p by (rule Cons.IH) simp
    then show ?thesis using False unfolding best_line.simps Let_def line_distance by (cases best) auto
  qed
qed simp

text \<open>One of the lines touches the circle.\<close>

lemma tangent_exists:
  assumes "clamps lib" "0 < x0\<^sup>2 + y0\<^sup>2 - r\<^sup>2"
  shows "\<exists>theta \<in> set (possible_lines lib r x0 y0). line_distance x0 y0 theta = - r"
proof -
  define n w where "n = x0\<^sup>2 + y0\<^sup>2" and "w = sqrt (n - r\<^sup>2)"
  define c s where "c = (- r * x0 + y0 * w) / n" and "s = (r * y0 + x0 * w) / n"
  have n: "0 < n" using assms(2) zero_le_power2 [of r] unfolding n_def by linarith
  have w: "w * w = n - r\<^sup>2" using assms(2) by (simp add: w_def n_def)
  have "(- r * x0 + y0 * w)\<^sup>2 + (r * y0 + x0 * w)\<^sup>2 = (r\<^sup>2 + w * w) * n" unfolding n_def by algebra
  also have "\<dots> = n * n" unfolding w by simp
  finally have u: "c\<^sup>2 + s\<^sup>2 = 1" using n by (simp add: c_def s_def power_divide flip: add_divide_distrib) (simp add: power2_eq_square)
  then have "c\<^sup>2 \<le> 1" using zero_le_power2 [of s] by linarith
  then have c1: "\<bar>c\<bar> \<le> 1" by (simp add: abs_square_le_1)
  have d: "x0 * c - y0 * s = - r"
  proof -
    have "(x0 * c - y0 * s) * n = x0 * (- r * x0 + y0 * w) - y0 * (r * y0 + x0 * w)" using n by (simp add: c_def s_def field_simps)
    also have "\<dots> = - r * n" unfolding n_def by algebra
    finally show ?thesis using n by (metis less_irrefl mult_right_cancel)
  qed
  have "lim1 lib c = c" using assms(1) c1 by (auto simp: lim1_def clamps_def)
  moreover have "- r * x0 / n + y0 * w / n = c" unfolding c_def by (rule add_divide_distrib [symmetric])
  ultimately have m: "arccos c \<in> set (possible_lines lib r x0 y0)" "- arccos c \<in> set (possible_lines lib r x0 y0)"
    by (simp_all add: possible_lines_def Let_def flip: n_def) (simp_all add: w_def n_def)
  have "1 - c\<^sup>2 = s\<^sup>2" using u by linarith
  then have "sin (arccos c) = \<bar>s\<bar>" using sin_arccos_abs [OF c1] by simp
  then have "sin (arccos c) = s \<or> sin (- arccos c) = s" by auto
  moreover have "cos (arccos c) = c" "cos (- arccos c) = c" using cos_arccos_abs [OF c1] by simp_all
  ultimately show ?thesis using m d unfolding line_distance_def by metis
qed

text \<open>The projection of the point on the direction of the hip is the radius, up to the tolerance.\<close>

lemma abs_cancel:
  fixes D u v :: real
  assumes "\<bar>D\<bar> * u = D * v" "D \<noteq> 0"
  shows "u = sgn D * v"
proof -
  have "\<bar>D\<bar> * u = \<bar>D\<bar> * (sgn D * v)" unfolding assms(1) by (simp add: abs_mult_sgn flip: mult.assoc)
  then show ?thesis using assms(2) by simp
qed

lemma shoulder_direction:
  assumes "r \<noteq> 0" "D \<noteq> 0" "q = WrapNegPiToPi (atan2 0 r - atan2 (- D * dx) (D * dy))" "dx\<^sup>2 + dy\<^sup>2 = 1"
  shows "x0 * cos q - y0 * sin q = sgn r * sgn D * (x0 * dy - y0 * dx)"
proof -
  have "sqrt ((D * dy)\<^sup>2 + (- D * dx)\<^sup>2) = \<bar>D\<bar>"
  proof -
    have "(D * dy)\<^sup>2 + (- D * dx)\<^sup>2 = D\<^sup>2 * (dx\<^sup>2 + dy\<^sup>2)" by algebra
    then show ?thesis by (simp add: assms(4))
  qed
  then have a: "\<bar>D\<bar> * cos (atan2 (- D * dx) (D * dy)) = D * dy" "\<bar>D\<bar> * sin (atan2 (- D * dx) (D * dy)) = - D * dx"
    using atan2_polar [where x = "D * dy" and y = "- D * dx"] by simp_all
  then have a': "cos (atan2 (- D * dx) (D * dy)) = sgn D * dy" "sin (atan2 (- D * dx) (D * dy)) = - sgn D * dx"
    using abs_cancel [of D "cos (atan2 (- D * dx) (D * dy))" dy] abs_cancel [of D "sin (atan2 (- D * dx) (D * dy))" "- dx"] assms(2)
    by simp_all
  have b: "cos (atan2 0 r) = sgn r" "sin (atan2 0 r) = 0"
    using atan2_polar [where x = r and y = 0] assms(1) abs_cancel [of r "cos (atan2 0 r)" 1] by simp_all
  show ?thesis unfolding assms(3) wrap_trig cos_diff sin_diff a' b by (simp add: algebra_simps)
qed

lemma shoulder_projection:
  assumes "shoulder_rad lib cfg p = Go (Some q)" "r = vy (il_pose (mi_shoulder cfg))"
  shows "\<bar>vy p * cos q + vz p * sin q - r\<bar> \<le> ik_tolerance r"
proof (cases "\<bar>r\<bar> < 1 / 1000")
  case True
  then have q: "q = - (atan2 (- vz p) (vy p) + 1 / 2 * pi)" using assms by (simp add: shoulder_rad_def Let_def)
  define R where "R = sqrt ((vy p)\<^sup>2 + (- vz p)\<^sup>2)"
  have s: "sin q = - cos (atan2 (- vz p) (vy p))" "cos q = - sin (atan2 (- vz p) (vy p))"
    by (simp_all add: q sin_add cos_add flip: minus_add_distrib)
  have "vy p = R * cos (atan2 (- vz p) (vy p))" "vz p = - (R * sin (atan2 (- vz p) (vy p)))"
    using atan2_polar [where x = "vy p" and y = "- vz p"] by (simp_all add: R_def)
  then have "vy p * cos q + vz p * sin q = 0" unfolding s by algebra
  then show ?thesis using True by (simp add: ik_tolerance_def)
next
  case False
  from assms False obtain th d where b: "best_line r (vy p) (- vz p) (possible_lines lib r (vy p) (- vz p)) None = Some (th, d)" "q = WrapNegPiToPi th"
    by (auto simp: shoulder_rad_def Let_def split: if_splits option.splits)
  obtain theta where t: "\<bar>\<bar>r\<bar> - \<bar>line_distance (vy p) (- vz p) theta\<bar>\<bar> \<le> 1 / 10000"
    "th = atan2 0 r - atan2 (- line_distance (vy p) (- vz p) theta * sin theta) (line_distance (vy p) (- vz p) theta * cos theta)"
    using best_line_Some [OF b(1)] by auto
  define D where "D = line_distance (vy p) (- vz p) theta"
  have n: "r \<noteq> 0" "D \<noteq> 0" using False t(1) by (auto simp: D_def)
  have "vy p * cos q - (- vz p) * sin q = sgn r * sgn D * (vy p * cos theta - (- vz p) * sin theta)"
    by (rule shoulder_direction [OF n]) (simp_all add: b(2) t(2) D_def)
  also have "\<dots> = sgn r * \<bar>D\<bar>" by (simp add: D_def line_distance_def abs_sgn mult_ac)
  finally have "vy p * cos q + vz p * sin q - r = sgn r * (\<bar>D\<bar> - \<bar>r\<bar>)" by (simp add: algebra_simps abs_mult_sgn)
  moreover have "\<bar>sgn r * (\<bar>D\<bar> - \<bar>r\<bar>)\<bar> = \<bar>\<bar>r\<bar> - \<bar>D\<bar>\<bar>" using n(1) by (simp add: abs_mult abs_sgn_eq)
  ultimately show ?thesis using False t(1) by (simp add: ik_tolerance_def D_def)
qed

section \<open>The foot\<close>

text \<open>How far the foot is from the joint of the femur, in the plane of the leg.\<close>

definition hip_distance :: "ik_config \<Rightarrow> vec \<Rightarrow> real \<Rightarrow> real" where
  "hip_distance cfg p q = sqrt ((fst (leg_plane cfg p q))\<^sup>2 + (snd (leg_plane cfg p q))\<^sup>2)"

text \<open>The foot is below the hip: its height relative to the joint of the femur, and the same measured along the leg.\<close>

definition hangs :: "ik_config \<Rightarrow> vec \<Rightarrow> real \<Rightarrow> bool" where
  "hangs cfg p q \<longleftrightarrow> vy (il_pose (mi_shoulder cfg)) * sin q < vz p \<and> 0 \<le> vz p * cos q - vy p * sin q"

lemma sqrt_add_square_le:
  fixes e s :: real
  assumes "0 \<le> s"
  shows "0 \<le> sqrt (e\<^sup>2 + s\<^sup>2) - s" "(sqrt (e\<^sup>2 + s\<^sup>2) - s)\<^sup>2 \<le> e\<^sup>2"
proof -
  show a: "0 \<le> sqrt (e\<^sup>2 + s\<^sup>2) - s" using real_sqrt_le_mono [of "s\<^sup>2" "e\<^sup>2 + s\<^sup>2"] assms by simp
  have "(sqrt (e\<^sup>2 + s\<^sup>2) - s)\<^sup>2 + 2 * s * (sqrt (e\<^sup>2 + s\<^sup>2) - s) = (sqrt (e\<^sup>2 + s\<^sup>2))\<^sup>2 - s\<^sup>2" by algebra
  also have "\<dots> = e\<^sup>2" by simp
  finally show "(sqrt (e\<^sup>2 + s\<^sup>2) - s)\<^sup>2 \<le> e\<^sup>2"
    using mult_nonneg_nonneg [OF assms a] by linarith
qed

lemma leg_plane_hangs:
  assumes "hangs cfg p q" "r = vy (il_pose (mi_shoulder cfg))" "e = vy p * cos q + vz p * sin q - r" "s = vz p * cos q - vy p * sin q"
  shows "leg_plane cfg p q = (- (vx p - vx (il_pose (mi_shoulder cfg))), vz (il_pose (mi_shoulder cfg)) - sqrt (e\<^sup>2 + s\<^sup>2))"
proof -
  have "(vy p - r * cos (- q))\<^sup>2 + (- vz p - r * sin (- q))\<^sup>2 = (vy p)\<^sup>2 + (vz p)\<^sup>2 + r\<^sup>2 * ((cos q)\<^sup>2 + (sin q)\<^sup>2) - 2 * r * (vy p * cos q + vz p * sin q)"
    unfolding cos_minus sin_minus by algebra
  also have "\<dots> = ((vy p)\<^sup>2 + (vz p)\<^sup>2) * ((cos q)\<^sup>2 + (sin q)\<^sup>2) + r\<^sup>2 - 2 * r * (vy p * cos q + vz p * sin q)" by simp
  also have "\<dots> = e\<^sup>2 + s\<^sup>2" unfolding assms(3,4) by algebra
  finally have n: "(vy p - r * cos (- q))\<^sup>2 + (- vz p - r * sin (- q))\<^sup>2 = e\<^sup>2 + s\<^sup>2" .
  have "GetSign (- vz p - r * sin (- q)) = -1" using assms(1) by (simp add: GetSign_def hangs_def assms(2))
  then show ?thesis unfolding leg_plane_def Let_def assms(2) [symmetric] n by simp
qed

lemma foot_of_solution:
  assumes "shoulder_rad lib cfg p = Go (Some q1)" "femur_tibia_rad lib cfg (leg_plane cfg p q1) = Some (femur, q3)"
    and "clamps lib" "MammalIk_ok cfg" "hangs cfg p q1"
    and "\<bar>vz (il_pose (mi_femur cfg)) - vz (il_pose (mi_tibia cfg))\<bar> \<le> hip_distance cfg p q1" "0 < hip_distance cfg p q1"
  shows "\<exists>q2. femur = Fin q2 \<and> vx (foot_point cfg q1 q2 q3) = vx p \<and>
    (vy (foot_point cfg q1 q2 q3) - vy p)\<^sup>2 + (vz (foot_point cfg q1 q2 q3) - vz p)\<^sup>2 \<le> 2 * (ik_tolerance (vy (il_pose (mi_shoulder cfg))))\<^sup>2"
proof -
  define r where "r = vy (il_pose (mi_shoulder cfg))"
  define e where "e = vy p * cos q1 + vz p * sin q1 - r"
  define s where "s = vz p * cos q1 - vy p * sin q1"
  define S where "S = sqrt (e\<^sup>2 + s\<^sup>2)"
  have lp: "leg_plane cfg p q1 = (- (vx p - vx (il_pose (mi_shoulder cfg))), vz (il_pose (mi_shoulder cfg)) - S)"
    unfolding S_def by (rule leg_plane_hangs [OF assms(5) r_def e_def s_def])
  obtain q2 where q2: "femur = Fin q2"
    "vz (il_pose (mi_femur cfg)) * sin q2 + vz (il_pose (mi_tibia cfg)) * sin (q2 + q3) = vx p - vx (il_pose (mi_shoulder cfg))"
    "vz (il_pose (mi_femur cfg)) * cos q2 + vz (il_pose (mi_tibia cfg)) * cos (q2 + q3) = S - vz (il_pose (mi_shoulder cfg))"
    using femur_tibia_solves [OF assms(2) [unfolded lp] assms(3,4) refl refl] assms(6,7) unfolding hip_distance_def lp by auto
  have f: "foot_point cfg q1 q2 q3 = \<lparr>vx = vx p, vy = r * cos q1 - S * sin q1, vz = r * sin q1 + S * cos q1\<rparr>"
    using q2(2,3) by (simp add: foot_point_def Let_def r_def add.assoc)
  have one: "(cos q1)\<^sup>2 + (sin q1)\<^sup>2 = 1" by simp
  have y: "vy p = ((cos q1)\<^sup>2 + (sin q1)\<^sup>2) * vy p" "vz p = ((cos q1)\<^sup>2 + (sin q1)\<^sup>2) * vz p" by simp_all
  have "vy p = (r + e) * cos q1 - s * sin q1" "vz p = (r + e) * sin q1 + s * cos q1"
    unfolding e_def s_def using one by algebra+
  then have "(r * cos q1 - S * sin q1 - vy p)\<^sup>2 + (r * sin q1 + S * cos q1 - vz p)\<^sup>2 = (e\<^sup>2 + (S - s)\<^sup>2) * ((cos q1)\<^sup>2 + (sin q1)\<^sup>2)" by algebra
  also have "\<dots> = e\<^sup>2 + (S - s)\<^sup>2" by simp
  also have "\<dots> \<le> 2 * e\<^sup>2" using sqrt_add_square_le(2) [of s e] assms(5) by (simp add: hangs_def S_def s_def)
  also have "\<dots> \<le> 2 * (ik_tolerance r)\<^sup>2"
  proof -
    have "\<bar>e\<bar> \<le> ik_tolerance r" using shoulder_projection [OF assms(1) r_def] by (simp add: e_def)
    then show ?thesis using power_mono [of "\<bar>e\<bar>" "ik_tolerance r" 2] by simp
  qed
  finally show ?thesis using q2(1) by (simp add: f r_def)
qed

section \<open>The joints\<close>

lemma Radians_Degrees [simp]: "Radians (Degrees x) = x"
  by (simp add: Radians_def Degrees_def)

lemma set_rates_keeps: "ij_id (set_rates cfg t v j) = ij_id j" "ij_angle_deg (set_rates cfg t v j) = ij_angle_deg j"
  by (simp_all add: set_rates_def Let_def case_prod_beta)

lemma Inverse_Some:
  assumes "Inverse lib cfg ef current = Go (Some js)"
  obtains q1 femur q3 where "shoulder_rad lib cfg (ef_pose ef) = Go (Some q1)"
    "femur_tibia_rad lib cfg (leg_plane cfg (ef_pose ef) q1) = Some (femur, q3)"
    "map ij_id js = [il_id (mi_shoulder cfg), il_id (mi_femur cfg), il_id (mi_tibia cfg)]"
    "map ij_angle_deg js = [Fin (Degrees q1), dmap Degrees femur, Fin (Degrees q3)]"
proof -
  obtain sh where sh: "shoulder_rad lib cfg (ef_pose ef) = Go sh" using assms by (auto simp: Inverse_def rbind_Go)
  with assms obtain q1 where q1: "sh = Some q1" by (cases sh) (simp_all add: Inverse_def)
  with assms sh obtain femur q3 where ft: "femur_tibia_rad lib cfg (leg_plane cfg (ef_pose ef) q1) = Some (femur, q3)"
    by (cases "femur_tibia_rad lib cfg (leg_plane cfg (ef_pose ef) q1)") (auto simp: Inverse_def)
  obtain t v where "js = map (set_rates cfg t v) [ik_angle (il_id (mi_shoulder cfg)) (Fin (Degrees q1)),
      ik_angle (il_id (mi_femur cfg)) (dmap Degrees femur), ik_angle (il_id (mi_tibia cfg)) (Fin (Degrees q3))]"
    using assms unfolding Inverse_def sh q1 rbind.simps option.case ft prod.case Let_def rbind_Go case_prod_beta fst_conv snd_conv run.inject option.inject
    by blast
  then show thesis using sh q1 ft by (intro that) (simp_all add: set_rates_keeps ik_angle_def)
qed

text \<open>The shoulder is found, or the point is within its radius.\<close>

lemma shoulder_found:
  assumes "clamps lib" "r = vy (il_pose (mi_shoulder cfg))"
  shows "(\<exists>q. shoulder_rad lib cfg p = Go (Some q)) \<or> shoulder_rad lib cfg p = Go None \<and> 1 / 1000 \<le> \<bar>r\<bar> \<and> (vy p)\<^sup>2 + (vz p)\<^sup>2 \<le> r\<^sup>2"
proof (cases "\<bar>r\<bar> < 1 / 1000 \<or> (vy p)\<^sup>2 + (- vz p)\<^sup>2 - r\<^sup>2 \<le> 0")
  case True
  then show ?thesis by (auto simp: shoulder_rad_def Let_def assms(2) [symmetric])
next
  case False
  then have "0 < (vy p)\<^sup>2 + (- vz p)\<^sup>2 - r\<^sup>2" by linarith
  from tangent_exists [OF assms(1) this] obtain theta where
    "theta \<in> set (possible_lines lib r (vy p) (- vz p))" "line_distance (vy p) (- vz p) theta = - r" by blast
  then have "best_line r (vy p) (- vz p) (possible_lines lib r (vy p) (- vz p)) None \<noteq> None"
    by (intro best_line_found disjI2 bexI [of _ theta]) simp_all
  then show ?thesis using False by (auto simp: shoulder_rad_def Let_def assms(2) [symmetric])
qed

definition has_joints :: "ik_config \<Rightarrow> ik_joint list \<Rightarrow> bool" where
  "has_joints cfg js \<longleftrightarrow> {il_id (mi_shoulder cfg), il_id (mi_femur cfg), il_id (mi_tibia cfg)} \<subseteq> ij_id ` set js"

lemma get_angle_found: "i \<in> ij_id ` set js \<Longrightarrow> \<exists>a. get_angle js i = Go a"
  by (auto simp: get_angle_def find_None_iff split: option.splits)

lemma Inverse_returns:
  assumes "clamps lib" "\<And>js. current = Some js \<Longrightarrow> has_joints cfg js" "shoulder_rad lib cfg (ef_pose ef) = Go (Some q)"
  shows "(\<exists>js. Inverse lib cfg ef current = Go (Some js)) \<or>
    Inverse lib cfg ef current = Go None \<and>
      vz (il_pose (mi_femur cfg)) + vz (il_pose (mi_tibia cfg)) < hip_distance cfg (ef_pose ef) q"
proof (cases "femur_tibia_rad lib cfg (leg_plane cfg (ef_pose ef) q)")
  case None
  then have "vz (il_pose (mi_femur cfg)) + vz (il_pose (mi_tibia cfg)) < hip_distance cfg (ef_pose ef) q"
    by (auto simp: femur_tibia_rad_def Let_def hip_distance_def power2_eq_square split: prod.splits if_splits)
  then show ?thesis using None assms(3) by (simp add: Inverse_def)
next
  case (Some ft)
  obtain femur q3 where ft: "ft = (femur, q3)" by fastforce
  define result where "result = [ik_angle (il_id (mi_shoulder cfg)) (Fin (Degrees q)), ik_angle (il_id (mi_femur cfg)) (dmap Degrees femur),
    ik_angle (il_id (mi_tibia cfg)) (Fin (Degrees q3))]"
  define js where "js = (case current of Some js \<Rightarrow> js | None \<Rightarrow> result)"
  have "has_joints cfg js" using assms(2) by (auto simp: js_def result_def has_joints_def ik_angle_def split: option.splits)
  then obtain a b c where "get_angle js (il_id (mi_shoulder cfg)) = Go a" "get_angle js (il_id (mi_femur cfg)) = Go b"
    "get_angle js (il_id (mi_tibia cfg)) = Go c" unfolding has_joints_def using get_angle_found by (metis insert_subset)
  then show ?thesis
    unfolding Inverse_def assms(3) rbind.simps option.case Some ft prod.case Let_def result_def [symmetric] js_def [symmetric]
    by (simp add: case_prod_beta)
qed

text \<open>C34 (error). The inverse kinematics answers. For a configuration and current joints with the three ids, no assertion fails: there is
  a line that touches the circle of the shoulder. It refuses a point only if that is within the radius of the
  shoulder, or further from the joint of the femur than the leg is long; else it gives one angle for each joint.\<close>

theorem ik_answers:
  assumes "clamps lib" "\<forall>js. current = Some js \<longrightarrow> has_joints cfg js" "r = vy (il_pose (mi_shoulder cfg))"
  shows "\<exists>answer. Inverse lib cfg ef current = Go answer \<and>
    (case answer of
       None \<Rightarrow> 1 / 1000 \<le> \<bar>r\<bar> \<and> (vy (ef_pose ef))\<^sup>2 + (vz (ef_pose ef))\<^sup>2 \<le> r\<^sup>2 \<or>
         (\<exists>q. shoulder_rad lib cfg (ef_pose ef) = Go (Some q) \<and>
            vz (il_pose (mi_femur cfg)) + vz (il_pose (mi_tibia cfg)) < hip_distance cfg (ef_pose ef) q)
     | Some js \<Rightarrow> map ij_id js = [il_id (mi_shoulder cfg), il_id (mi_femur cfg), il_id (mi_tibia cfg)])"
proof (cases "\<exists>q. shoulder_rad lib cfg (ef_pose ef) = Go (Some q)")
  case True
  then obtain q where q: "shoulder_rad lib cfg (ef_pose ef) = Go (Some q)" by blast
  have j: "\<And>js. current = Some js \<Longrightarrow> has_joints cfg js" using assms(2) by blast
  consider js where "Inverse lib cfg ef current = Go (Some js)"
    | "Inverse lib cfg ef current = Go None" "vz (il_pose (mi_femur cfg)) + vz (il_pose (mi_tibia cfg)) < hip_distance cfg (ef_pose ef) q"
    using Inverse_returns [OF assms(1) j q] by blast
  then show ?thesis
  proof cases
    case 1
    then show ?thesis by (auto elim: Inverse_Some)
  next
    case 2
    then show ?thesis using q by auto
  qed
next
  case False
  then have s: "shoulder_rad lib cfg (ef_pose ef) = Go None"
    "1 / 1000 \<le> \<bar>r\<bar>" "(vy (ef_pose ef))\<^sup>2 + (vz (ef_pose ef))\<^sup>2 \<le> r\<^sup>2"
    using shoulder_found [OF assms(1,3), of "ef_pose ef"] by auto
  have "Inverse lib cfg ef current = Go None" by (simp add: Inverse_def s(1))
  then show ?thesis using s(2,3) by simp
qed

text \<open>C35 (bounds). The inverse kinematics is accurate. If the foot hangs below the hip and is no closer to the joint of the femur than the
  links allow, the angles of the answer put the foot at the point that was asked for: exactly in the direction of
  the body, and across it up to the tolerance of the shoulder, a tenth of a unit in a thousand, or the offset of the
  shoulder where that is treated as zero. A point that is closer is not refused, and the foot misses it.\<close>

theorem ik_accurate:
  assumes "Inverse lib cfg ef current = Go (Some js)" "clamps lib" "MammalIk_ok cfg"
    and "ij_angle_deg (hd js) = Fin a" "hangs cfg (ef_pose ef) (Radians a)"
    and "\<bar>vz (il_pose (mi_femur cfg)) - vz (il_pose (mi_tibia cfg))\<bar> \<le> hip_distance cfg (ef_pose ef) (Radians a)"
    and "0 < hip_distance cfg (ef_pose ef) (Radians a)"
  shows "\<exists>b c. map ij_angle_deg js = [Fin a, Fin b, Fin c] \<and>
    (let f = foot_point cfg (Radians a) (Radians b) (Radians c); p = ef_pose ef
     in vx f = vx p \<and> (vy f - vy p)\<^sup>2 + (vz f - vz p)\<^sup>2 \<le> 2 * (ik_tolerance (vy (il_pose (mi_shoulder cfg))))\<^sup>2)"
proof -
  obtain q1 femur q3 where i: "shoulder_rad lib cfg (ef_pose ef) = Go (Some q1)"
    "femur_tibia_rad lib cfg (leg_plane cfg (ef_pose ef) q1) = Some (femur, q3)"
    "map ij_angle_deg js = [Fin (Degrees q1), dmap Degrees femur, Fin (Degrees q3)]" by (rule Inverse_Some [OF assms(1)])
  then have a: "a = Degrees q1" using assms(4) by (cases js) auto
  from foot_of_solution [OF i(1,2) assms(2,3)] assms(5-7) obtain q2 where "femur = Fin q2"
    "vx (foot_point cfg q1 q2 q3) = vx (ef_pose ef)"
    "(vy (foot_point cfg q1 q2 q3) - vy (ef_pose ef))\<^sup>2 + (vz (foot_point cfg q1 q2 q3) - vz (ef_pose ef))\<^sup>2
      \<le> 2 * (ik_tolerance (vy (il_pose (mi_shoulder cfg))))\<^sup>2" unfolding a Radians_Degrees by blast
  then show ?thesis using i(3)
    by (intro exI [of _ "Degrees q2"] exI [of _ "Degrees q3"]) (simp add: a dmap_def Let_def)
qed

section \<open>A leg on the bench\<close>

definition bench_library :: ik_library where
  "bench_library = \<lparr>limit = (\<lambda>v lo hi. max lo (min v hi)), linear_jacobian = (\<lambda>_. (vzero, vzero, vzero)),
     com_acceleration = (\<lambda>_ _. vzero), inverse_times = (\<lambda>_ _. (Fin 0, Fin 0, Fin 0))\<rparr>"

definition bench_leg :: ik_config where
  "bench_leg = \<lparr>mi_shoulder = \<lparr>il_pose = vzero, il_id = 1\<rparr>, mi_femur = \<lparr>il_pose = \<lparr>vx = 0, vy = 0, vz = 1\<rparr>, il_id = 2\<rparr>,
     mi_tibia = \<lparr>il_pose = \<lparr>vx = 0, vy = 0, vz = 1\<rparr>, il_id = 3\<rparr>, mi_invert = False\<rparr>"

definition bench_foot :: effector where
  "bench_foot = \<lparr>ef_pose = \<lparr>vx = 0, vy = 0, vz = 1\<rparr>, ef_velocity = vzero, ef_force_N = vzero\<rparr>"

lemma bench_leg_ok: "clamps bench_library" "MammalIk_ok bench_leg"
  by (simp_all add: clamps_def bench_library_def MammalIk_ok_def link_ok_def bench_leg_def)

lemma bench_shoulder: "shoulder_rad bench_library bench_leg (ef_pose bench_foot) = Go (Some 0)"
proof -
  have "Complex 0 (-1) = - \<i>" by (simp add: complex_eq_iff)
  then show ?thesis by (simp add: shoulder_rad_def bench_leg_def bench_foot_def vzero_def atan2_def Let_def)
qed

lemma bench_plane: "leg_plane bench_leg (ef_pose bench_foot) 0 = (0, -1)"
  by (simp add: leg_plane_def bench_leg_def bench_foot_def vzero_def GetSign_def)

theorem ik_answers_witness:
  "\<exists>answer. Inverse bench_library bench_leg bench_foot None = Go answer \<and>
    (case answer of
       None \<Rightarrow> 1 / 1000 \<le> \<bar>0 :: real\<bar> \<and> (vy (ef_pose bench_foot))\<^sup>2 + (vz (ef_pose bench_foot))\<^sup>2 \<le> (0 :: real)\<^sup>2 \<or>
         (\<exists>q. shoulder_rad bench_library bench_leg (ef_pose bench_foot) = Go (Some q) \<and>
            vz (il_pose (mi_femur bench_leg)) + vz (il_pose (mi_tibia bench_leg)) < hip_distance bench_leg (ef_pose bench_foot) q)
     | Some js \<Rightarrow> map ij_id js = [il_id (mi_shoulder bench_leg), il_id (mi_femur bench_leg), il_id (mi_tibia bench_leg)])"
  by (rule ik_answers) (simp_all add: bench_leg_ok, simp add: bench_leg_def vzero_def)

theorem ik_accurate_witness:
  "\<exists>js b c. Inverse bench_library bench_leg bench_foot None = Go (Some js) \<and> map ij_angle_deg js = [Fin 0, Fin b, Fin c] \<and>
     foot_point bench_leg 0 (Radians b) (Radians c) = ef_pose bench_foot"
proof -
  have d: "hip_distance bench_leg (ef_pose bench_foot) 0 = 1" by (simp add: hip_distance_def bench_plane)
  have "(\<exists>js. Inverse bench_library bench_leg bench_foot None = Go (Some js))"
    using Inverse_returns [OF bench_leg_ok(1) _ bench_shoulder, of None] by (simp add: d) (simp add: bench_leg_def)
  then obtain js where js: "Inverse bench_library bench_leg bench_foot None = Go (Some js)" by blast
  obtain q1 femur q3 where i: "shoulder_rad bench_library bench_leg (ef_pose bench_foot) = Go (Some q1)"
    "map ij_angle_deg js = [Fin (Degrees q1), dmap Degrees femur, Fin (Degrees q3)]" by (rule Inverse_Some [OF js])
  then have h: "ij_angle_deg (hd js) = Fin 0" using bench_shoulder by (auto simp: Degrees_def)
  have "\<exists>b c. map ij_angle_deg js = [Fin 0, Fin b, Fin c] \<and>
    (let f = foot_point bench_leg (Radians 0) (Radians b) (Radians c); p = ef_pose bench_foot
     in vx f = vx p \<and> (vy f - vy p)\<^sup>2 + (vz f - vz p)\<^sup>2 \<le> 2 * (ik_tolerance (vy (il_pose (mi_shoulder bench_leg))))\<^sup>2)"
    by (rule ik_accurate [OF js bench_leg_ok h])
      (simp_all add: Radians_def d, simp_all add: hangs_def bench_leg_def bench_foot_def vzero_def)
  then obtain b c where m: "map ij_angle_deg js = [Fin 0, Fin b, Fin c]"
    and f: "vx (foot_point bench_leg 0 (Radians b) (Radians c)) = 0"
      "(vy (foot_point bench_leg 0 (Radians b) (Radians c)))\<^sup>2 + (vz (foot_point bench_leg 0 (Radians b) (Radians c)) - 1)\<^sup>2 \<le> 0"
    by (auto simp: Let_def Radians_def ik_tolerance_def bench_leg_def bench_foot_def vzero_def)
  from f(2) have "vy (foot_point bench_leg 0 (Radians b) (Radians c)) = 0" "vz (foot_point bench_leg 0 (Radians b) (Radians c)) = 1"
    by (simp_all add: sum_power2_le_zero_iff)
  with f(1) have "foot_point bench_leg 0 (Radians b) (Radians c) = ef_pose bench_foot"
    by (cases "foot_point bench_leg 0 (Radians b) (Radians c)") (simp add: bench_foot_def)
  with js m show ?thesis by (intro exI conjI)
qed

end
