(* ===== verification/NrfUsb.thy ===== *)
theory NrfUsb
  imports HexUtil Quadruped
begin

text \<open>
  The radio of the robots, \<^verbatim>\<open>mech/rf_client.h\<close> and \<^verbatim>\<open>mech/nrfusb_client.cc\<close>: the slots of each remote, the lines that
  the nrfusb device sends and receives, and the hand-over of received slots to the one client that waits for them.

  The text of a line is a string, the bytes of a slot are a list. The formats of \<open>fmt\<close> and the tokenizer of mjlib are
  the fields of \<open>nrf_library\<close>. An exception that a handler does not catch, a failed assertion and a write outside of an
  array are all \<open>Abort\<close>.
\<close>

section \<open>Numbers of the C++ library\<close>

text \<open>\<open>strtol\<close>: white space, a sign, a prefix for the bases 0 and 16, and digits; \<open>None\<close> where there is no digit. The
  value is that of the digits, limited to 64 bits.\<close>

definition digit_in :: "nat \<Rightarrow> char \<Rightarrow> nat option" where
  "digit_in base c =
     (case hex_digit c of None \<Rightarrow> None | Some d \<Rightarrow> if unat d < base then Some (unat d) else None)"

fun digits_value :: "nat \<Rightarrow> nat \<Rightarrow> string \<Rightarrow> nat" where
  "digits_value base acc [] = acc"
| "digits_value base acc (c # cs) =
     (case digit_in base c of None \<Rightarrow> acc | Some d \<Rightarrow> digits_value base (acc * base + d) cs)"

fun has_prefix_0x :: "string \<Rightarrow> bool" where
  "has_prefix_0x (a # b # c # cs) \<longleftrightarrow> a = CHR ''0'' \<and> (b = CHR ''x'' \<or> b = CHR ''X'') \<and> digit_in 16 c \<noteq> None"
| "has_prefix_0x _ \<longleftrightarrow> False"

definition strtol :: "nat \<Rightarrow> string \<Rightarrow> int option" where
  "strtol base s =
     (let (neg, s1) = scan_sign (skip_ws s);
          (b, s2) = (if (base = 0 \<or> base = 16) \<and> has_prefix_0x s1 then (16, drop 2 s1)
                     else if base \<noteq> 0 then (base, s1)
                     else if take 1 s1 = ''0'' then (8, s1) else (10, s1));
          v = int (digits_value b 0 s2)
      in if s2 = [] \<or> digit_in b (hd s2) = None then None
         else Some (max (- (2 ^ 63)) (min (2 ^ 63 - 1) (if neg then - v else v))))"

text \<open>\<open>std::stoi\<close>: an exception, \<open>None\<close>, without a digit or for a number that is no \<open>int\<close>.\<close>

definition stoi :: "nat \<Rightarrow> string \<Rightarrow> int option" where
  "stoi base s =
     (case strtol base s of None \<Rightarrow> None
      | Some v \<Rightarrow> if - (2 ^ 31) \<le> v \<and> v < 2 ^ 31 then Some v else None)"

section \<open>Slots and state\<close>

record rf_slot =
  sl_timestamp :: "real option"
  sl_priority :: u32
  sl_size :: nat
  sl_data :: "u8 list"

definition slot_default :: rf_slot where
  "slot_default = \<lparr>sl_timestamp = None, sl_priority = 0, sl_size = 0, sl_data = replicate 16 0\<rparr>"

text \<open>\<open>NrfusbClient::Impl\<close>. \<open>waiting\<close> says that \<open>remote_\<close>, \<open>bitfield_\<close> and \<open>callback_\<close> are set; the two \<open>caller\<close> fields are
  the variables of the client that the pointers lead to, and \<open>posted\<close> counts the callbacks that were posted and have not
  run. Of the text in \<open>write_streambuf_\<close> the first \<open>in_write\<close> characters are being written.\<close>

record nrf =
  rx_slots :: "int \<Rightarrow> rf_slot list"
  tx_slots :: "int \<Rightarrow> rf_slot list"
  write_streambuf :: string
  write_outstanding :: bool
  in_write :: nat
  pending_bitfield :: u16
  waiting :: bool
  caller_remote :: int
  caller_bitfield :: u16
  posted :: nat

text \<open>The libraries: the formats \<open>{:02x}\<close>, \<open>{:08x}\<close> and \<open>{}\<close>, and for a line the text that \<open>next().data()\<close> of the tokenizer
  points to, with what remains after this token.\<close>

record nrf_library =
  hex02 :: "u8 \<Rightarrow> string"
  hex08 :: "u32 \<Rightarrow> string"
  dec :: "int \<Rightarrow> string"
  tokens :: "string \<Rightarrow> string \<times> string"

section \<open>Hexadecimal data\<close>

fun parse_pairs :: "string \<Rightarrow> u8 list run" where
  "parse_pairs (a # b # cs) =
     (case stoi 16 [a, b] of None \<Rightarrow> Abort
      | Some element \<Rightarrow> rbind (parse_pairs cs) (\<lambda>ds. Go (word_of_int element # ds)))"
| "parse_pairs _ = Go []"

definition ParseHexData :: "string \<Rightarrow> u8 list option run" where
  "ParseHexData data = (if odd (length data) then Go None else rbind (parse_pairs data) (\<lambda>ds. Go (Some ds)))"

definition FormatHexData :: "nrf_library \<Rightarrow> u8 list \<Rightarrow> string" where
  "FormatHexData lib data = concat (map (hex02 lib) data)"

section \<open>Writing\<close>

definition MaybeStartWrite :: "nrf \<Rightarrow> nrf" where
  "MaybeStartWrite s =
     (if write_outstanding s then s
      else if write_streambuf s = [] then s
      else s\<lparr>write_outstanding := True, in_write := length (write_streambuf s)\<rparr>)"

definition nrf_Write :: "string \<Rightarrow> nrf \<Rightarrow> nrf" where
  "nrf_Write data s = MaybeStartWrite (s\<lparr>write_streambuf := write_streambuf s @ data\<rparr>)"

text \<open>The end of a write: the characters that were written leave the buffer, and are the second result.\<close>

definition HandleWrite :: "nrf \<Rightarrow> nrf \<times> string" where
  "HandleWrite s =
     (MaybeStartWrite (s\<lparr>write_outstanding := False, in_write := 0, write_streambuf := drop (in_write s) (write_streambuf s)\<rparr>),
      take (in_write s) (write_streambuf s))"

section \<open>Slots\<close>

definition rx_slot :: "int \<Rightarrow> int \<Rightarrow> nrf \<Rightarrow> rf_slot run" where
  "rx_slot remote idx s = (if 0 \<le> idx \<and> idx < 15 then Go (rx_slots s remote ! nat idx) else Abort)"

definition tx_slot_get :: "int \<Rightarrow> int \<Rightarrow> nrf \<Rightarrow> rf_slot run" where
  "tx_slot_get remote idx s = (if 0 \<le> idx \<and> idx < 15 then Go (tx_slots s remote ! nat idx) else Abort)"

definition tx_text :: "nrf_library \<Rightarrow> int \<Rightarrow> int \<Rightarrow> rf_slot \<Rightarrow> string" where
  "tx_text lib remote idx slot =
     ''slot pri2 '' @ dec lib remote @ '' '' @ dec lib idx @ '' '' @ hex08 lib (sl_priority slot) @
     [CHR 0x0A] @ ''slot tx2 '' @ dec lib remote @ '' '' @ dec lib idx @ '' '' @
     FormatHexData lib (take (sl_size slot) (sl_data slot)) @ [CHR 0x0A]"

text \<open>A size above that of the array reads past its end.\<close>

definition tx_slot :: "nrf_library \<Rightarrow> int \<Rightarrow> int \<Rightarrow> rf_slot \<Rightarrow> nrf \<Rightarrow> nrf run" where
  "tx_slot lib remote idx slot s =
     (if 0 \<le> idx \<and> idx < 15 \<and> sl_size slot \<le> 16
      then Go (nrf_Write (tx_text lib remote idx slot)
        (s\<lparr>tx_slots := (tx_slots s)(remote := (tx_slots s remote)[nat idx := slot])\<rparr>))
      else Abort)"

section \<open>Waiting for slots\<close>

definition MaybeProcessCallback :: "nrf \<Rightarrow> nrf" where
  "MaybeProcessCallback s =
     (if \<not> waiting s then s
      else if pending_bitfield s = 0 then s
      else s\<lparr>caller_bitfield := pending_bitfield s, pending_bitfield := 0, posted := posted s + 1, waiting := False\<rparr>)"

definition AsyncWaitForSlot :: "nrf \<Rightarrow> nrf run" where
  "AsyncWaitForSlot s = (if waiting s then Abort else Go (MaybeProcessCallback (s\<lparr>waiting := True\<rparr>)))"

section \<open>Receiving\<close>

text \<open>\<open>memcpy\<close> of the first bytes of the data into the 16 bytes of the slot.\<close>

definition fill_slot :: "real \<Rightarrow> u8 list \<Rightarrow> rf_slot \<Rightarrow> rf_slot" where
  "fill_slot now data slot =
     (let to_copy = min 16 (length data)
      in slot\<lparr>sl_data := take to_copy data @ drop to_copy (sl_data slot), sl_size := to_copy, sl_timestamp := Some now\<rparr>)"

definition HandleField :: "real \<Rightarrow> int \<Rightarrow> string \<Rightarrow> nrf \<Rightarrow> nrf run" where
  "HandleField now remote field s =
     (let before = takeWhile (\<lambda>c. c \<noteq> CHR '':'') field; after = drop (length before + 1) field
      in if CHR '':'' \<notin> set field then Go s
         else (case stoi 10 before of
                 None \<Rightarrow> Abort
               | Some slot_num \<Rightarrow>
                   if slot_num < 0 \<or> slot_num > 14 then Go s
                   else rbind (ParseHexData after) (\<lambda>maybe_data.
                     case maybe_data of
                       None \<Rightarrow> Go s
                     | Some data \<Rightarrow>
                         Go (s\<lparr>rx_slots := (rx_slots s)(remote :=
                               (rx_slots s remote)[nat slot_num := fill_slot now data (rx_slots s remote ! nat slot_num)]),
                             pending_bitfield := pending_bitfield s OR push_bit (nat slot_num) 1\<rparr>))))"

fun handle_fields :: "real \<Rightarrow> int \<Rightarrow> string list \<Rightarrow> nrf \<Rightarrow> nrf run" where
  "handle_fields now remote [] s = Go s"
| "handle_fields now remote (f # fs) s = rbind (HandleField now remote f s) (handle_fields now remote fs)"

text \<open>\<open>boost::split\<close> at the blanks: one field more than there are blanks.\<close>

fun split_blanks :: "string \<Rightarrow> string list" where
  "split_blanks [] = [[]]"
| "split_blanks (c # cs) =
     (if c = CHR '' '' then [] # split_blanks cs
      else (case split_blanks cs of [] \<Rightarrow> [[c]] | f # fs \<Rightarrow> (c # f) # fs))"

definition HandleReceive :: "real \<Rightarrow> int \<Rightarrow> string \<Rightarrow> nrf \<Rightarrow> nrf run" where
  "HandleReceive now remote text s =
     rbind (handle_fields now remote (split_blanks text) s) (\<lambda>s.
       Go (MaybeProcessCallback (if waiting s then s\<lparr>caller_remote := remote\<rparr> else s)))"

text \<open>The number of the remote is cut to the 32 bits of an \<open>int\<close>.\<close>

definition HandleReceive2 :: "nrf_library \<Rightarrow> real \<Rightarrow> string \<Rightarrow> nrf \<Rightarrow> nrf run" where
  "HandleReceive2 lib now text s =
     (let (first, remaining) = tokens lib text;
          remote = sint (word_of_int (case strtol 0 first of None \<Rightarrow> 0 | Some v \<Rightarrow> v) :: 32 word)
      in HandleReceive now remote remaining s)"

definition trim :: "string \<Rightarrow> string" where
  "trim s = rev (dropWhile is_space (rev (dropWhile is_space s)))"

definition nrf_HandleLine :: "nrf_library \<Rightarrow> real \<Rightarrow> string \<Rightarrow> nrf \<Rightarrow> nrf run" where
  "nrf_HandleLine lib now line_in s =
     (let text = trim line_in
      in if text = [] then Go s
         else if text = ''OK'' then Go s
         else if take 5 text = ''rcv2 '' then HandleReceive2 lib now (drop 5 text) s
         else if take 4 text = ''rcv '' then HandleReceive now 0 (drop 4 text) s
         else Go s)"

text \<open>The constructor with its options.\<close>

definition nrf_start :: "nrf_library \<Rightarrow> int \<Rightarrow> int \<Rightarrow> nrf" where
  "nrf_start lib id0 id1 =
     nrf_Write ([CHR 0x0A] @ ''conf set slot.ids.0 '' @ dec lib id0 @ [CHR 0x0A] @ ''conf set slot.ids.1 '' @ dec lib id1 @
         [CHR 0x0A])
       \<lparr>rx_slots = (\<lambda>_. replicate 15 slot_default), tx_slots = (\<lambda>_. replicate 15 slot_default), write_streambuf = [],
         write_outstanding = False, in_write = 0, pending_bitfield = 0, waiting = False, caller_remote = 0,
         caller_bitfield = 0, posted = 0\<rparr>"

end
