(* ===== verification/RfControl.thy ===== *)
theory RfControl
  imports NrfUsb QuadrupedModes
begin

text \<open>
  The radio control of the quadruped, \<^verbatim>\<open>mech/rf_control.cc\<close> with \<^verbatim>\<open>base/saturate.h\<close>: slots that arrive become a
  command of the highest priority, and the state of the robot is reported in the slots that are sent.

  \<open>rf_library\<close> holds the constructor of a Sophus pose, the little endian stream of mjlib and the text of a fault. The
  conversion of a double that is not a number to an integer is undefined in C++: it is \<open>Abort\<close>, as is a write outside of
  an array.
\<close>

section \<open>Limits of integer types\<close>

text \<open>\<open>Saturate\<close>, by the smallest and the largest value of the type.\<close>

definition Saturate :: "int \<Rightarrow> int \<Rightarrow> double \<Rightarrow> int run" where
  "Saturate lo hi value =
     (case value of
        Fin x \<Rightarrow> Go (if x \<ge> of_int hi then hi else if x \<le> of_int lo then lo else trunc x)
      | PosInf \<Rightarrow> Go hi | NegInf \<Rightarrow> Go lo | NaN \<Rightarrow> Abort)"

definition Saturate_int :: "int \<Rightarrow> int \<Rightarrow> int \<Rightarrow> int" where
  "Saturate_int lo hi value = (if value \<ge> hi then hi else if value \<le> lo then lo else value)"

definition Saturate_size :: "nat \<Rightarrow> u8" where
  "Saturate_size n = (if n \<ge> 255 then 255 else if n \<le> 0 then 0 else of_nat n)"

text \<open>\<open>std::min_element\<close> and \<open>std::max_element\<close>: the first element that no later one is below, or above.\<close>

fun min_element :: "('b \<Rightarrow> 'b \<Rightarrow> bool) \<Rightarrow> 'b \<Rightarrow> 'b list \<Rightarrow> 'b" where
  "min_element lt best [] = best"
| "min_element lt best (x # xs) = min_element lt (if lt x best then x else best) xs"

fun max_element :: "('b \<Rightarrow> 'b \<Rightarrow> bool) \<Rightarrow> 'b \<Rightarrow> 'b list \<Rightarrow> 'b" where
  "max_element lt best [] = best"
| "max_element lt best (x # xs) = max_element lt (if lt best x then x else best) xs"

definition vmin :: "('b \<Rightarrow> 'b \<Rightarrow> bool) \<Rightarrow> ('a \<Rightarrow> 'b) \<Rightarrow> 'b \<Rightarrow> 'a list \<Rightarrow> 'b" where
  "vmin lt getter incase container =
     (case map getter container of [] \<Rightarrow> incase | x # xs \<Rightarrow> min_element lt x xs)"

definition vmax :: "('b \<Rightarrow> 'b \<Rightarrow> bool) \<Rightarrow> ('a \<Rightarrow> 'b) \<Rightarrow> 'b \<Rightarrow> 'a list \<Rightarrow> 'b" where
  "vmax lt getter incase container =
     (case map getter container of [] \<Rightarrow> incase | x # xs \<Rightarrow> max_element lt x xs)"

section \<open>Received slots\<close>

record rf_rx =
  rr_timestamp :: "real option"
  rr_size :: nat
  rr_data :: "u8 list"

definition rf_rx_default :: rf_rx where
  "rf_rx_default = \<lparr>rr_timestamp = None, rr_size = 0, rr_data = replicate 15 0\<rparr>"

text \<open>\<open>SlotData\<close> and \<open>RfControl::Impl\<close>; \<open>remote_\<close> and \<open>bitfield_\<close> are the \<open>caller\<close> fields of the radio.\<close>

record rf_control =
  slot_time :: "real option"
  slot_rx :: "rf_rx list"
  last_telemetry :: "real option"
  receive_times :: "real list"

definition rf_control_start :: rf_control where
  "rf_control_start = \<lparr>slot_time = None, slot_rx = replicate 15 rf_rx_default, last_telemetry = None, receive_times = []\<rparr>"

record 'p rf_library =
  SE3d :: "real \<times> real \<times> real \<times> real \<Rightarrow> vec \<Rightarrow> 'p"
  little_endian :: "nat \<Rightarrow> int \<Rightarrow> u8 list"
  fault_text :: "fault \<Rightarrow> u8 list"

text \<open>The copy of one slot: 15 bytes have room. The size is that of a slot with 16.\<close>

definition copy_slot :: "rf_slot \<Rightarrow> rf_rx run" where
  "copy_slot slot =
     (if sl_size slot \<le> 15
      then Go \<lparr>rr_timestamp = sl_timestamp slot, rr_size = sl_size slot,
                rr_data = take (sl_size slot) (sl_data slot) @ replicate (15 - sl_size slot) 0\<rparr>
      else Abort)"

definition kOnlyRemote :: int where "kOnlyRemote = 0"

fun copy_slots :: "nrf \<Rightarrow> nat list \<Rightarrow> rf_rx list \<Rightarrow> rf_rx list run" where
  "copy_slots radio [] rxs = Go rxs"
| "copy_slots radio (i # is) rxs =
     (if \<not> bit (caller_bitfield radio) i then copy_slots radio is rxs
      else rbind (rx_slot kOnlyRemote (int i) radio) (\<lambda>slot.
           rbind (copy_slot slot) (\<lambda>rx. copy_slots radio is (rxs[i := rx]))))"

section \<open>The command\<close>

definition rf_byte :: "rf_rx list \<Rightarrow> nat \<Rightarrow> nat \<Rightarrow> u8" where
  "rf_byte rxs slot pos = rr_data (rxs ! slot) ! pos"

definition read_uint16 :: "rf_rx list \<Rightarrow> nat \<Rightarrow> nat \<Rightarrow> u16" where
  "read_uint16 rxs slot pos = word_cat (rf_byte rxs slot (pos + 1)) (rf_byte rxs slot pos)"

definition read_int16 :: "rf_rx list \<Rightarrow> nat \<Rightarrow> nat \<Rightarrow> int" where
  "read_int16 rxs slot pos = sint (read_uint16 rxs slot pos)"

definition rf_mode :: "u8 \<Rightarrow> Mode" where
  "rf_mode code =
     (if code = 1 then kStopped else if code = 3 then kZeroVelocity else if code = 7 then kRest
      else if code = 8 then kJump else if code = 9 then kWalk else kZeroVelocity)"

definition rf_jump :: "rf_rx list \<Rightarrow> jump_cmd" where
  "rf_jump rxs = \<lparr>jump_acceleration = of_int (uint (read_uint16 rxs 0 2)), jump_repeat = (rf_byte rxs 0 1 \<noteq> 0)\<rparr>"

definition rf_pose :: "'p rf_library \<Rightarrow> rf_rx list \<Rightarrow> 'p" where
  "rf_pose lib rxs =
     (let part = (\<lambda>pos. of_int (read_int16 rxs 1 pos) / 32767 :: real);
          quat = (part 6, part 8, part 10, part 12);
          quat = (if quat = (0, 0, 0, 0) then (1, 0, 0, 0) else quat)
      in SE3d lib quat
           \<lparr>vx = of_int (read_int16 rxs 1 0), vy = of_int (read_int16 rxs 1 2), vz = of_int (read_int16 rxs 1 4)\<rparr>)"

definition rf_command :: "'p rf_library \<Rightarrow> rf_rx list \<Rightarrow> 'p command" where
  "rf_command lib rxs =
     (let code = rf_byte rxs 0 0
      in (command_default (rf_pose lib rxs))
         \<lparr>priority := 99, cmd_mode := rf_mode code,
          cmd_jump := (if code = 8 then Some (rf_jump rxs) else None),
          cmd_walk := (if code = 9 then Some walk_cmd_default else None),
          v_R := \<lparr>vx = of_int (read_int16 rxs 2 0), vy = of_int (read_int16 rxs 2 2), vz = 0\<rparr>,
          w_R := \<lparr>vx = 0, vy = 0, vz = 2 * pi * of_int (read_int16 rxs 2 4) / 32767\<rparr>\<rparr>)"

definition SendCommand :: "'p rf_library \<Rightarrow> config \<Rightarrow> real \<Rightarrow> rf_control \<Rightarrow> ('g, 'p) quad \<Rightarrow> ('g, 'p) quad" where
  "SendCommand lib cfg now rc quad = Command cfg now (rf_command lib (slot_rx rc)) quad"

section \<open>Telemetry\<close>

fun mode_code :: "Mode \<Rightarrow> u8" where
  "mode_code kConfiguring = 0"
| "mode_code kStopped = 1"
| "mode_code kFault = 2"
| "mode_code kZeroVelocity = 3"
| "mode_code kJoint = 4"
| "mode_code kLeg = 5"
| "mode_code kStandUp = 6"
| "mode_code kRest = 7"
| "mode_code kJump = 8"
| "mode_code kWalk = 9"
| "mode_code kBackflip = 10"
| "mode_code kNumModes = 11"

text \<open>A new slot with a priority and its first bytes.\<close>

definition tx_of :: "u32 \<Rightarrow> u8 list \<Rightarrow> rf_slot" where
  "tx_of prio bytes =
     slot_default\<lparr>sl_priority := prio, sl_size := length bytes, sl_data := bytes @ drop (length bytes) (sl_data slot_default)\<rparr>"

definition tx_mode :: "rf_control \<Rightarrow> ('g, 'p) quad \<Rightarrow> rf_slot" where
  "tx_mode rc quad = tx_of 0xffffffff [mode_code (q_mode quad), Saturate_size (length (receive_times rc))]"

definition tx_velocity :: "'p rf_library \<Rightarrow> ('g, 'p) quad \<Rightarrow> rf_slot run" where
  "tx_velocity lib quad =
     rbind (Saturate (- (2 ^ 15)) (2 ^ 15 - 1) (Fin (vx (desired_v quad)))) (\<lambda>x.
     rbind (Saturate (- (2 ^ 15)) (2 ^ 15 - 1) (Fin (vy (desired_v quad)))) (\<lambda>y.
     rbind (Saturate (- (2 ^ 15)) (2 ^ 15 - 1) (Fin (32767 * vz (desired_w quad) / (2 * pi)))) (\<lambda>w.
       Go (tx_of 0xffffffff (little_endian lib 2 x @ little_endian lib 2 y @ little_endian lib 2 w)))))"

definition kVoltageScale :: real where "kVoltageScale = 4"

definition tx_joints :: "'p rf_library \<Rightarrow> ('g, 'p) quad \<Rightarrow> rf_slot run" where
  "tx_joints lib quad =
     (let int8 = Saturate (- (2 ^ 7)) (2 ^ 7 - 1); s = joints quad
      in rbind (int8 (dscale kVoltageScale (vmin dless sj_voltage (Fin 0) s))) (\<lambda>v1.
         rbind (int8 (dscale kVoltageScale (vmax dless sj_voltage (Fin 0) s))) (\<lambda>v2.
         rbind (int8 (vmin dless sj_temperature_C (Fin 0) s)) (\<lambda>t1.
         rbind (int8 (vmax dless sj_temperature_C (Fin 0) s)) (\<lambda>t2.
           Go (tx_of 0x55555555 (concat (map (little_endian lib 1)
             [v1, v2, t1, t2, Saturate_int (- (2 ^ 7)) (2 ^ 7 - 1) (vmax (<) sj_fault 0 s)])))))))) "

definition tx_fault :: "'p rf_library \<Rightarrow> ('g, 'p) quad \<Rightarrow> rf_slot" where
  "tx_fault lib quad =
     (if q_mode quad \<noteq> kFault then tx_of 0x01010101 []
      else tx_of 0xaaaaaaaa (take 13 (fault_text lib (q_fault quad))))"

definition report_due :: "real \<Rightarrow> rf_control \<Rightarrow> bool" where
  "report_due now rc = (case last_telemetry rc of None \<Rightarrow> True | Some t \<Rightarrow> \<not> now - t < 1 / 100)"

definition ReportTelemetry ::
  "nrf_library \<Rightarrow> 'p rf_library \<Rightarrow> real \<Rightarrow> ('g, 'p) quad \<Rightarrow> rf_control \<times> nrf \<Rightarrow> (rf_control \<times> nrf) run" where
  "ReportTelemetry nlib lib now quad st =
     (let (rc, radio) = st
      in if \<not> report_due now rc then Go (rc, radio)
         else (let rc = rc\<lparr>last_telemetry := Some now\<rparr>
               in rbind (tx_slot nlib kOnlyRemote 0 (tx_mode rc quad) radio) (\<lambda>radio.
                  rbind (tx_velocity lib quad) (\<lambda>slot1.
                  rbind (tx_slot nlib kOnlyRemote 1 slot1 radio) (\<lambda>radio.
                  rbind (tx_joints lib quad) (\<lambda>slot8.
                  rbind (tx_slot nlib kOnlyRemote 8 slot8 radio) (\<lambda>radio.
                  rbind (tx_slot nlib kOnlyRemote 14 (tx_fault lib quad) radio) (\<lambda>radio. Go (rc, radio)))))))))"

section \<open>The handler\<close>

definition forget_old :: "real \<Rightarrow> real list \<Rightarrow> real list" where
  "forget_old now ts = dropWhile (\<lambda>t. now - t > 1) ts"

record ('g, 'p) rf_system =
  radio :: nrf
  rf :: rf_control
  robot :: "('g, 'p) quad"

definition HandleSlot ::
  "nrf_library \<Rightarrow> 'p rf_library \<Rightarrow> config \<Rightarrow> real \<Rightarrow> ('g, 'p) rf_system \<Rightarrow> ('g, 'p) rf_system run" where
  "HandleSlot nlib lib cfg now s =
     (let rc = (rf s)\<lparr>slot_time := Some now, receive_times := forget_old now (receive_times (rf s) @ [now])\<rparr>
      in rbind (copy_slots (radio s) [0..<15] (slot_rx rc)) (\<lambda>rxs.
           let rc = rc\<lparr>slot_rx := rxs\<rparr>;
               quad = (if bit (caller_bitfield (radio s)) 0 then SendCommand lib cfg now rc (robot s) else robot s)
           in rbind (ReportTelemetry nlib lib now quad (rc, radio s)) (\<lambda>(rc, radio).
              rbind (AsyncWaitForSlot radio) (\<lambda>radio. Go \<lparr>radio = radio, rf = rc, robot = quad\<rparr>))))"

definition rf_AsyncStart :: "nrf_library \<Rightarrow> int \<Rightarrow> int \<Rightarrow> ('g, 'p) quad \<Rightarrow> ('g, 'p) rf_system run" where
  "rf_AsyncStart nlib id0 id1 quad =
     rbind (AsyncWaitForSlot (nrf_start nlib id0 id1)) (\<lambda>radio. Go \<lparr>radio = radio, rf = rf_control_start, robot = quad\<rparr>)"

text \<open>What the event loop runs: a line of the radio, the end of a write, the handler that was posted, and another client's
  use of the robot.\<close>

datatype ('g, 'p) rf_event = RadioLine string | WriteDone | SlotReady | Robot "('g, 'p) quad"

definition rf_step ::
  "nrf_library \<Rightarrow> 'p rf_library \<Rightarrow> config \<Rightarrow> real \<Rightarrow> ('g, 'p) rf_event \<Rightarrow> ('g, 'p) rf_system \<Rightarrow> ('g, 'p) rf_system run" where
  "rf_step nlib lib cfg now e s =
     (case e of
        RadioLine l \<Rightarrow> rbind (nrf_HandleLine nlib now l (radio s)) (\<lambda>r. Go (s\<lparr>radio := r\<rparr>))
      | WriteDone \<Rightarrow> Go (if write_outstanding (radio s) then s\<lparr>radio := fst (HandleWrite (radio s))\<rparr> else s)
      | SlotReady \<Rightarrow>
          if posted (radio s) = 0 then Go s
          else HandleSlot nlib lib cfg now (s\<lparr>radio := (radio s)\<lparr>posted := posted (radio s) - 1\<rparr>\<rparr>)
      | Robot quad \<Rightarrow> Go (s\<lparr>robot := quad\<rparr>))"

end
