(* ===== verification/TurretControl.thy ===== *)
theory TurretControl
  imports Quadruped RfControl
begin

unbundle bit_operations_syntax

text \<open>
  The controller of the turret, \<^verbatim>\<open>mech/turret_control.cc\<close> and \<^verbatim>\<open>turret_control.h\<close>: the modes, the status of
  the two servos and of the weapon, the stabilised aiming, and the requests that fire.

  The PID controller and \<open>Limit\<close> are those of mjlib and are the fields of \<open>turret_library\<close>; the camera gives the targets.
  A number without a value of the type it is converted to is \<open>Abort\<close>, as are failed assertions.
\<close>

section \<open>Data\<close>

datatype turret_mode = kStop | kActive | kTurretFault

datatype WeaponRegister = kFirePwm | kFireTime | kLoaderPwm | kLoaderTime | kLaser | kShotCount | kArmed

text \<open>The numbers of the registers of the weapon are those of other registers of a servo.\<close>

fun weapon_register :: "Register \<Rightarrow> WeaponRegister option" where
  "weapon_register (OtherRegister n) =
     (if n = 0x10 then Some kFirePwm else if n = 0x11 then Some kFireTime else if n = 0x12 then Some kLoaderPwm
      else if n = 0x13 then Some kLoaderTime else if n = 0x14 then Some kLaser else if n = 0x15 then Some kShotCount
      else if n = 0x16 then Some kArmed else None)"
| "weapon_register _ = None"

definition kWeaponDivider :: nat where "kWeaponDivider = 10"

definition kCommandFeedforwardTorque :: Register where "kCommandFeedforwardTorque = OtherRegister 0x22"

datatype turret_write = ToServo reg_write | ToWeapon WeaponRegister "mvalue list"

record turret_request =
  tq_id :: int
  tq_writes :: "turret_write list"

record gimbal =
  gs_id :: int
  gs_angle_deg :: double
  gs_velocity_dps :: double
  gs_torque_Nm :: double
  gs_temperature_C :: double
  gs_voltage :: double
  gs_mode :: int
  gs_fault :: int

definition gimbal_default :: gimbal where
  "gimbal_default = \<lparr>gs_id = 0, gs_angle_deg = Fin 0, gs_velocity_dps = Fin 0, gs_torque_Nm = Fin 0,
     gs_temperature_C = Fin 0, gs_voltage = Fin 0, gs_mode = 0, gs_fault = 0\<rparr>"

record 's servo_control =
  sc_angle_deg :: double
  sc_rate_dps :: double
  sc_pid :: 's

text \<open>The registers of the weapon, as the 16 and 8 bit integers they are kept in.\<close>

record weapon =
  wp_timestamp :: "real option"
  wp_fire_pwm :: "16 word"
  wp_fire_time :: "16 word"
  wp_loader_pwm :: "16 word"
  wp_loader_time :: "16 word"
  wp_laser_time :: "16 word"
  wp_shot_count :: "16 word"
  wp_armed :: "8 word"

definition weapon_default :: weapon where
  "weapon_default = \<lparr>wp_timestamp = None, wp_fire_pwm = 0, wp_fire_time = 0, wp_loader_pwm = 0, wp_loader_time = 0,
     wp_laser_time = 0, wp_shot_count = 0, wp_armed = 0\<rparr>"

record turret_command =
  tc_priority :: int
  tc_mode :: turret_mode
  tc_pitch_rate_dps :: double
  tc_yaw_rate_dps :: double
  tc_track_target :: bool
  tc_laser_enable :: bool
  tc_trigger_sequence :: int

definition turret_command_default :: turret_command where
  "turret_command_default = \<lparr>tc_priority = 0, tc_mode = kStop, tc_pitch_rate_dps = Fin 0, tc_yaw_rate_dps = Fin 0,
     tc_track_target = False, tc_laser_enable = False, tc_trigger_sequence = 0\<rparr>"

record servo_drive =
  sd_power :: bool
  sd_torque_Nm :: double

definition servo_off :: servo_drive where "servo_off = \<lparr>sd_power = False, sd_torque_Nm = Fin 0\<rparr>"

record attitude =
  at_pitch :: double
  at_yaw :: double
  at_rate_y :: double
  at_rate_z :: double

definition attitude_default :: attitude where
  "attitude_default = \<lparr>at_pitch = Fin 0, at_yaw = Fin 0, at_rate_y = Fin 0, at_rate_z = Fin 0\<rparr>"

record 'c turret_parameters =
  tp_period_s :: real
  tp_pitch :: 'c
  tp_yaw :: 'c
  servo_pitch_min_deg :: real
  servo_pitch_max_deg :: real
  imu_servo_filter_s :: real
  tp_command_timeout_s :: real
  max_rate_accel_dps2 :: real
  target_gain_dps :: real
  target_timeout_s :: real
  laser_time_10ms :: int
  fire_voltage :: real
  loader_voltage :: real
  fire_time_10ms :: int
  loader_time_10ms :: int
  tp_voltage_filter_s :: real

record ('c, 's) turret_library =
  dlimit :: "double \<Rightarrow> double \<Rightarrow> double \<Rightarrow> double"
  pid_apply :: "'c \<Rightarrow> 's \<Rightarrow> double \<Rightarrow> double \<Rightarrow> double \<Rightarrow> double \<Rightarrow> real \<Rightarrow> double \<times> 's"
  pid_start :: 's

text \<open>\<open>TurretControl::Impl\<close> with its \<open>Status\<close>. The text of a fault is given by the servos it names; \<open>transmits\<close> is the
  number of transmissions of \<open>client_command_\<close> that have started and not ended.\<close>

record 's turret =
  tu_mode :: turret_mode
  tu_fault :: "(int \<times> int) list"
  pitch_servo :: gimbal
  yaw_servo :: gimbal
  pitch_control :: "'s servo_control"
  yaw_control :: "'s servo_control"
  tu_imu :: attitude
  imu_servo_pitch_deg :: double
  filtered_bus_V :: double
  tu_weapon :: weapon
  last_trigger_sequence :: int
  tu_command :: turret_command
  tu_command_timestamp :: "real option"
  tu_outstanding :: bool
  status_outstanding :: int
  status_count :: nat
  status_reply :: "reply list"
  tu_client_command :: "turret_request list"
  transmits :: nat
  imu_data :: attitude
  image_timestamp :: real
  targets :: "(real \<times> real) list"

definition control_default :: "('c, 's) turret_library \<Rightarrow> 's servo_control" where
  "control_default lib = \<lparr>sc_angle_deg = Fin 0, sc_rate_dps = Fin 0, sc_pid = pid_start lib\<rparr>"

definition turret_start :: "('c, 's) turret_library \<Rightarrow> 's turret" where
  "turret_start lib =
     \<lparr>tu_mode = kStop, tu_fault = [], pitch_servo = gimbal_default, yaw_servo = gimbal_default,
      pitch_control = control_default lib, yaw_control = control_default lib, tu_imu = attitude_default,
      imu_servo_pitch_deg = Fin 0, filtered_bus_V = Fin 0, tu_weapon = weapon_default, last_trigger_sequence = 0,
      tu_command = turret_command_default, tu_command_timestamp = None, tu_outstanding = False, status_outstanding = 0,
      status_count = 0, status_reply = [], tu_client_command = [], transmits = 0, imu_data = attitude_default,
      image_timestamp = 0, targets = []\<rparr>"

section \<open>Commands and images\<close>

definition turret_Command :: "'c turret_parameters \<Rightarrow> real \<Rightarrow> turret_command \<Rightarrow> 's turret \<Rightarrow> 's turret" where
  "turret_Command p now data s =
     (let higher_priority = (tc_priority data \<ge> tc_priority (tu_command s));
          stale = (case tu_command_timestamp s of None \<Rightarrow> False | Some t \<Rightarrow> now - t > tp_command_timeout_s p)
      in if \<not> higher_priority \<and> \<not> stale then s
         else s\<lparr>tu_command := data, tu_command_timestamp := Some now\<rparr>)"

definition HandleImage :: "real \<Rightarrow> (real \<times> real) list \<Rightarrow> 's turret \<Rightarrow> 's turret" where
  "HandleImage now result s = s\<lparr>image_timestamp := now, targets := result\<rparr>"

section \<open>Status\<close>

text \<open>\<open>servo_sign_\<close>: the two servos.\<close>

definition servo_sign :: "int \<Rightarrow> real run" where
  "servo_sign i = (if i = 1 then Go 1 else if i = 2 then Go (- 1) else Abort)"

definition read_int :: "mvalue \<Rightarrow> int run" where
  "read_int v = (case ReadInt v of Some i \<Rightarrow> Go i | None \<Rightarrow> Abort)"

definition UpdateServo :: "reply \<Rightarrow> gimbal \<Rightarrow> gimbal run" where
  "UpdateServo r servo =
     rbind (servo_sign (rp_id r)) (\<lambda>sign.
       (let servo = servo\<lparr>gs_id := rp_id r\<rparr>
        in case rp_value r of
             None \<Rightarrow> Go servo
           | Some v \<Rightarrow>
               (case rp_reg r of
                  kMode \<Rightarrow> rbind (read_int v) (\<lambda>i. Go (servo\<lparr>gs_mode := i\<rparr>))
                | kPosition \<Rightarrow> Go (servo\<lparr>gs_angle_deg := dscale sign (ReadPosition v)\<rparr>)
                | kVelocity \<Rightarrow> Go (servo\<lparr>gs_velocity_dps := dscale sign (ReadPosition v)\<rparr>)
                | kTorque \<Rightarrow> Go (servo\<lparr>gs_torque_Nm := dscale sign (ReadTorque v)\<rparr>)
                | kVoltage \<Rightarrow> Go (servo\<lparr>gs_voltage := ReadVoltage v\<rparr>)
                | kTemperature \<Rightarrow> Go (servo\<lparr>gs_temperature_C := ReadTemperature v\<rparr>)
                | kFaultReg \<Rightarrow> rbind (read_int v) (\<lambda>i. Go (servo\<lparr>gs_fault := i\<rparr>))
                | _ \<Rightarrow> Go servo)))"

text \<open>The integers are cut to the width of their fields.\<close>

definition set_weapon :: "WeaponRegister \<Rightarrow> int \<Rightarrow> weapon \<Rightarrow> weapon" where
  "set_weapon r i w =
     (case r of
        kFirePwm \<Rightarrow> w\<lparr>wp_fire_pwm := word_of_int i\<rparr> | kFireTime \<Rightarrow> w\<lparr>wp_fire_time := word_of_int i\<rparr>
      | kLoaderPwm \<Rightarrow> w\<lparr>wp_loader_pwm := word_of_int i\<rparr> | kLoaderTime \<Rightarrow> w\<lparr>wp_loader_time := word_of_int i\<rparr>
      | kLaser \<Rightarrow> w\<lparr>wp_laser_time := word_of_int i\<rparr> | kShotCount \<Rightarrow> w\<lparr>wp_shot_count := word_of_int i\<rparr>
      | kArmed \<Rightarrow> w\<lparr>wp_armed := word_of_int i\<rparr>)"

definition UpdateWeapon :: "real \<Rightarrow> reply \<Rightarrow> weapon \<Rightarrow> weapon run" where
  "UpdateWeapon now r w =
     (let w = w\<lparr>wp_timestamp := Some now\<rparr>
      in case rp_value r of
           None \<Rightarrow> Go w
         | Some v \<Rightarrow>
             (case weapon_register (rp_reg r) of
                None \<Rightarrow> Go w
              | Some reg \<Rightarrow> rbind (read_int v) (\<lambda>i. Go (set_weapon reg i w))))"

fun update_replies :: "real \<Rightarrow> reply list \<Rightarrow> 's turret \<Rightarrow> 's turret run" where
  "update_replies now [] s = Go s"
| "update_replies now (r # rs) s =
     (if rp_id r = 1 then rbind (UpdateServo r (pitch_servo s)) (\<lambda>g. update_replies now rs (s\<lparr>pitch_servo := g\<rparr>))
      else if rp_id r = 2 then rbind (UpdateServo r (yaw_servo s)) (\<lambda>g. update_replies now rs (s\<lparr>yaw_servo := g\<rparr>))
      else if rp_id r = 7 then rbind (UpdateWeapon now r (tu_weapon s)) (\<lambda>w. update_replies now rs (s\<lparr>tu_weapon := w\<rparr>))
      else update_replies now rs s)"

section \<open>Requests\<close>

definition AddServoCommand :: "int \<Rightarrow> servo_drive \<Rightarrow> 's turret \<Rightarrow> 's turret run" where
  "AddServoCommand i servo s =
     rbind (servo_sign i) (\<lambda>sign.
       Go (s\<lparr>tu_client_command := tu_client_command s @
         [\<lparr>tq_id = i,
           tq_writes =
             ToServo (WriteSingle kMode (Int8 (servo_mode_code (if sd_power servo then ServoPosition else ServoStopped)))) #
             (if sd_power servo
              then [ToServo (WriteSingle kCommandFeedforwardTorque (Float (dscale sign (sd_torque_Nm servo)))),
                    ToServo (WriteMultiple kCommandKpScale [WritePwm (Fin 0) kInt8, WritePwm (Fin 0) kInt8])]
              else [])\<rparr>]\<rparr>))"

text \<open>\<open>static_cast<int16_t>\<close> of a double and of an \<open>int\<close>; the quotient of a number by a double.\<close>

definition cast_int16 :: "double \<Rightarrow> 16 word run" where
  "cast_int16 d =
     (case d of Fin x \<Rightarrow> if - 32768 \<le> trunc x \<and> trunc x \<le> 32767 then Go (word_of_int (trunc x)) else Abort | _ \<Rightarrow> Abort)"

fun ddiv :: "real \<Rightarrow> double \<Rightarrow> double" where
  "ddiv k (Fin x) = (if x \<noteq> 0 then Fin (k / x) else if k = 0 then NaN else if k > 0 then PosInf else NegInf)"
| "ddiv k NaN = NaN"
| "ddiv k _ = Fin 0"

definition fire_values :: "'c turret_parameters \<Rightarrow> double \<Rightarrow> mvalue list run" where
  "fire_values p V =
     rbind (cast_int16 (ddiv (1000 * fire_voltage p) V)) (\<lambda>fire.
     rbind (cast_int16 (ddiv (1000 * loader_voltage p) V)) (\<lambda>loader.
       Go [Int16 fire, Int16 (word_of_int (fire_time_10ms p)), Int16 loader, Int16 (word_of_int (loader_time_10ms p))]))"

text \<open>Both values of the laser are an \<open>int\<close>.\<close>

definition AddWeapon :: "'c turret_parameters \<Rightarrow> 's turret \<Rightarrow> 's turret run" where
  "AddWeapon p s =
     (let laser = ToWeapon kLaser [Int32 (if tc_laser_enable (tu_command s)
            then word_of_int (sint (word_of_int (laser_time_10ms p) :: 16 word)) else 0)];
          add = (\<lambda>writes s. s\<lparr>tu_client_command := tu_client_command s @ [\<lparr>tq_id = 7, tq_writes = writes\<rparr>]\<rparr>);
          trigger = tc_trigger_sequence (tu_command s)
      in if trigger \<ge> 1024 \<and> trigger \<le> 2048 \<and> trigger \<noteq> last_trigger_sequence s
         then (let old = last_trigger_sequence s; s = s\<lparr>last_trigger_sequence := trigger\<rparr>
               in if old \<noteq> 0
                  then rbind (fire_values p (filtered_bus_V s)) (\<lambda>vs. Go (add [laser, ToWeapon kFirePwm vs] s))
                  else Go (add [laser] s))
         else Go (add [laser] s))"

definition Control :: "'c turret_parameters \<Rightarrow> servo_drive \<Rightarrow> servo_drive \<Rightarrow> 's turret \<Rightarrow> 's turret run" where
  "Control p pitch yaw s =
     rbind (AddServoCommand 1 pitch (s\<lparr>tu_client_command := []\<rparr>)) (\<lambda>s.
     rbind (AddServoCommand 2 yaw s) (\<lambda>s.
     rbind (if status_count s = 0 then AddWeapon p s else Go s) (\<lambda>s.
       Go (s\<lparr>transmits := transmits s + 1\<rparr>))))"

section \<open>The modes\<close>

definition DoControl_Stop :: "'c turret_parameters \<Rightarrow> 's turret \<Rightarrow> 's turret run" where
  "DoControl_Stop p s = Control p servo_off servo_off s"

definition turret_Fault :: "'c turret_parameters \<Rightarrow> (int \<times> int) list \<Rightarrow> 's turret \<Rightarrow> 's turret run" where
  "turret_Fault p message s = DoControl_Stop p (s\<lparr>tu_mode := kTurretFault, tu_fault := message\<rparr>)"

definition filter_step :: "real \<Rightarrow> double \<Rightarrow> double \<Rightarrow> double" where
  "filter_step alpha old new = dadd (dscale (1 - alpha) old) (dscale alpha new)"

definition dminus :: "double \<Rightarrow> double \<Rightarrow> double" where
  "dminus a b = dadd a (dneg b)"

definition servo_faults :: "'s turret \<Rightarrow> (int \<times> int) list" where
  "servo_faults s = [(gs_id g, gs_fault g). g \<leftarrow> [pitch_servo s, yaw_servo s], gs_fault g \<noteq> 0]"

definition turret_UpdateStatus :: "'c turret_parameters \<Rightarrow> real \<Rightarrow> 's turret \<Rightarrow> 's turret run" where
  "turret_UpdateStatus p now s =
     (let s = s\<lparr>imu_servo_pitch_deg := filter_step (tp_period_s p / imu_servo_filter_s p) (imu_servo_pitch_deg s)
                  (dminus (at_pitch (imu_data s)) (gs_angle_deg (pitch_servo s)))\<rparr>
      in rbind (update_replies now (status_reply s) s) (\<lambda>s.
           let s = s\<lparr>tu_imu := imu_data s,
                     filtered_bus_V := dadd (dscale (tp_period_s p / tp_voltage_filter_s p) (gs_voltage (pitch_servo s)))
                       (dscale (1 - tp_period_s p / tp_voltage_filter_s p) (filtered_bus_V s))\<rparr>
           in if tu_mode s \<noteq> kTurretFault \<and> servo_faults s \<noteq> [] then turret_Fault p (servo_faults s) s else Go s))"

definition turret_MaybeChangeMode :: "('c, 's) turret_library \<Rightarrow> 's turret \<Rightarrow> 's turret run" where
  "turret_MaybeChangeMode lib s =
     (let old_mode = tu_mode s
      in rbind
           (case tc_mode (tu_command s) of
              kStop \<Rightarrow> Go (s\<lparr>tu_mode := kStop\<rparr>)
            | kActive \<Rightarrow>
                if tu_mode s = kTurretFault then Go s
                else Go (s\<lparr>pitch_control := (control_default lib)\<lparr>sc_angle_deg := at_pitch (imu_data s)\<rparr>,
                           yaw_control := (control_default lib)\<lparr>sc_angle_deg := at_yaw (imu_data s)\<rparr>, tu_mode := kActive\<rparr>)
            | kTurretFault \<Rightarrow> Abort)
           (\<lambda>s. Go (if old_mode \<noteq> tu_mode s \<and> old_mode = kTurretFault then s\<lparr>tu_fault := []\<rparr> else s)))"

definition target_distance :: "real \<times> real \<Rightarrow> real" where
  "target_distance t = sqrt ((fst t - 1 / 2)\<^sup>2 + (snd t - 1 / 2)\<^sup>2)"

text \<open>The first of the targets that are closest to the center; there has to be one.\<close>

definition PickTarget :: "(real \<times> real) list \<Rightarrow> (real \<times> real) run" where
  "PickTarget ts =
     (case ts of [] \<Rightarrow> Abort | t # ts \<Rightarrow> Go (min_element (\<lambda>a b. target_distance a < target_distance b) t ts))"

definition Recent :: "'c turret_parameters \<Rightarrow> real \<Rightarrow> 's turret \<Rightarrow> bool" where
  "Recent p now s \<longleftrightarrow> now - image_timestamp s < target_timeout_s p"

definition desired_rates :: "'c turret_parameters \<Rightarrow> real \<Rightarrow> 's turret \<Rightarrow> (double \<times> double) run" where
  "desired_rates p now s =
     (if \<not> tc_track_target (tu_command s) then Go (tc_pitch_rate_dps (tu_command s), tc_yaw_rate_dps (tu_command s))
      else if Recent p now s \<and> targets s \<noteq> []
      then rbind (PickTarget (targets s)) (\<lambda>t.
             Go (Fin ((snd t - 1 / 2) * - target_gain_dps p), Fin ((fst t - 1 / 2) * target_gain_dps p)))
      else Go (Fin 0, Fin 0))"

text \<open>The rate of an axis, limited to a change of the given size, and the angle a period later.\<close>

definition step_axis :: "('c, 's) turret_library \<Rightarrow> 'c turret_parameters \<Rightarrow> double \<Rightarrow> 's servo_control \<Rightarrow> 's servo_control" where
  "step_axis lib p wanted c =
     (let change = max_rate_accel_dps2 p * tp_period_s p;
          rate = dlimit lib wanted (dadd (sc_rate_dps c) (Fin (- change))) (dadd (sc_rate_dps c) (Fin change))
      in c\<lparr>sc_rate_dps := rate, sc_angle_deg := dadd (sc_angle_deg c) (dscale (tp_period_s p) rate)\<rparr>)"

definition dwrap :: "double \<Rightarrow> double" where
  "dwrap d = (case d of Fin x \<Rightarrow> Fin (Degrees (WrapNegPiToPi (Radians x))) | _ \<Rightarrow> NaN)"

text \<open>The angles that the servos are to hold, and the pitch rate, which is dropped at a limit of the pitch servo.\<close>

definition aim :: "('c, 's) turret_library \<Rightarrow> 'c turret_parameters \<Rightarrow> double \<times> double \<Rightarrow> 's turret \<Rightarrow> double \<times> 's turret" where
  "aim lib p rates s =
     (let pitch = step_axis lib p (fst rates) (pitch_control s); yaw = step_axis lib p (snd rates) (yaw_control s);
          angle = dlimit lib (sc_angle_deg pitch) (dadd (Fin (servo_pitch_min_deg p)) (imu_servo_pitch_deg s))
            (dadd (Fin (servo_pitch_max_deg p)) (imu_servo_pitch_deg s));
          pitch_rate = (if dneq angle (sc_angle_deg pitch) then Fin 0 else sc_rate_dps pitch);
          delta = dwrap (dminus (sc_angle_deg yaw) (at_yaw (imu_data s)))
      in (pitch_rate, s\<lparr>pitch_control := pitch\<lparr>sc_angle_deg := angle\<rparr>,
                        yaw_control := yaw\<lparr>sc_angle_deg := dadd (at_yaw (imu_data s)) delta\<rparr>\<rparr>))"

definition DoControl_Active :: "('c, 's) turret_library \<Rightarrow> 'c turret_parameters \<Rightarrow> real \<Rightarrow> 's turret \<Rightarrow> 's turret run" where
  "DoControl_Active lib p now s =
     rbind (desired_rates p now s) (\<lambda>rates.
       let (pitch_rate, s) = aim lib p rates s; hz = 1 / tp_period_s p;
           (pitch_torque, pitch_pid) = pid_apply lib (tp_pitch p) (sc_pid (pitch_control s)) (at_pitch (imu_data s))
             (sc_angle_deg (pitch_control s)) (at_rate_y (imu_data s)) pitch_rate hz;
           (yaw_torque, yaw_pid) = pid_apply lib (tp_yaw p) (sc_pid (yaw_control s)) (at_yaw (imu_data s))
             (sc_angle_deg (yaw_control s)) (at_rate_z (imu_data s)) (sc_rate_dps (yaw_control s)) hz
       in Control p \<lparr>sd_power = True, sd_torque_Nm = pitch_torque\<rparr> \<lparr>sd_power = True, sd_torque_Nm = yaw_torque\<rparr>
            (s\<lparr>pitch_control := (pitch_control s)\<lparr>sc_pid := pitch_pid\<rparr>, yaw_control := (yaw_control s)\<lparr>sc_pid := yaw_pid\<rparr>\<rparr>))"

definition turret_RunControl :: "('c, 's) turret_library \<Rightarrow> 'c turret_parameters \<Rightarrow> real \<Rightarrow> 's turret \<Rightarrow> 's turret run" where
  "turret_RunControl lib p now s =
     rbind (if tc_mode (tu_command s) \<noteq> tu_mode s then turret_MaybeChangeMode lib s else Go s) (\<lambda>s.
       case tu_mode s of
         kStop \<Rightarrow> DoControl_Stop p s
       | kActive \<Rightarrow> DoControl_Active lib p now s
       | kTurretFault \<Rightarrow> DoControl_Stop p s)"

section \<open>The cycle\<close>

definition turret_HandleTimer :: "'s turret \<Rightarrow> 's turret" where
  "turret_HandleTimer s =
     (if tu_outstanding s then s
      else s\<lparr>tu_outstanding := True, status_outstanding := 2, status_count := (status_count s + 1) mod kWeaponDivider,
             status_reply := []\<rparr>)"

definition turret_HandleStatus :: "('c, 's) turret_library \<Rightarrow> 'c turret_parameters \<Rightarrow> real \<Rightarrow> 's turret \<Rightarrow> 's turret run" where
  "turret_HandleStatus lib p now s =
     (let s = s\<lparr>status_outstanding := status_outstanding s - 1\<rparr>
      in if status_outstanding s > 0 then Go s
         else rbind (turret_UpdateStatus p now s) (turret_RunControl lib p now))"

definition turret_HandleCommand :: "'s turret \<Rightarrow> 's turret" where
  "turret_HandleCommand s = s\<lparr>tu_outstanding := False, transmits := transmits s - 1\<rparr>"

text \<open>What the event loop runs: the timer, the replies of the servos and the reading of the IMU, which come once each
  after the timer in any order, the end of a transmission, commands and images.\<close>

datatype turret_event = TurretTimer | ServoReplies "reply list" | ImuRead attitude | Transmitted
  | TurretOperator turret_command | Image "(real \<times> real) list"

definition turret_step ::
  "('c, 's) turret_library \<Rightarrow> 'c turret_parameters \<Rightarrow> real \<Rightarrow> turret_event \<Rightarrow> 's turret \<Rightarrow> 's turret run" where
  "turret_step lib p now e s =
     (case e of
        TurretTimer \<Rightarrow> Go (turret_HandleTimer s)
      | ServoReplies rs \<Rightarrow> if status_outstanding s > 0 then turret_HandleStatus lib p now (s\<lparr>status_reply := rs\<rparr>) else Go s
      | ImuRead a \<Rightarrow> if status_outstanding s > 0 then turret_HandleStatus lib p now (s\<lparr>imu_data := a\<rparr>) else Go s
      | Transmitted \<Rightarrow> Go (if transmits s > 0 then turret_HandleCommand s else s)
      | TurretOperator c \<Rightarrow> Go (turret_Command p now c s)
      | Image ts \<Rightarrow> Go (HandleImage now ts s))"

text \<open>\<open>PopulateStatusRequest\<close>: the registers that are read, with the number of values and their type, of the servos and
  in a weapon cycle of the weapon.\<close>

definition turret_status_request :: "bool \<Rightarrow> (int \<times> (nat \<times> nat \<times> nat) list) list" where
  "turret_status_request with_weapon =
     [(1, [(0, 4, 3), (13, 3, 1)]), (2, [(0, 4, 3), (13, 3, 1)])] @ (if with_weapon then [(7, [(0x10, 7, 1)])] else [])"

end
