(* ===== verification/TurretRf.thy ===== *)
theory TurretRf
  imports TurretControl
begin

text \<open>
  The radio control of the turret, \<^verbatim>\<open>mech/turret_rf_control.cc\<close>: the command made of the received slots, and the
  telemetry. Its copies of the slots, its limits and its clock are those of the radio control of the quadruped.
\<close>

section \<open>The command\<close>

definition turret_rf_mode :: "u8 \<Rightarrow> turret_mode" where
  "turret_rf_mode code = (if code = 0 then kStop else if code = 1 then kActive else kStop)"

definition turret_rf_command :: "rf_rx list \<Rightarrow> turret_command" where
  "turret_rf_command rxs =
     \<lparr>tc_priority = 99, tc_mode = turret_rf_mode (rf_byte rxs 0 0),
      tc_pitch_rate_dps = Fin (400 * of_int (read_int16 rxs 1 0) / 32767),
      tc_yaw_rate_dps = Fin (400 * of_int (read_int16 rxs 1 2) / 32767),
      tc_track_target = (rf_byte rxs 1 4 \<noteq> 0), tc_laser_enable = (rf_byte rxs 2 0 \<noteq> 0),
      tc_trigger_sequence = read_int16 rxs 2 1\<rparr>"

definition turret_SendCommand :: "'c turret_parameters \<Rightarrow> real \<Rightarrow> rf_control \<Rightarrow> 's turret \<Rightarrow> 's turret" where
  "turret_SendCommand p now rc t = turret_Command p now (turret_rf_command (slot_rx rc)) t"

section \<open>Telemetry\<close>

fun turret_mode_code :: "turret_mode \<Rightarrow> u8" where
  "turret_mode_code kStop = 0"
| "turret_mode_code kActive = 1"
| "turret_mode_code kTurretFault = 2"

definition Saturate16 :: "double \<Rightarrow> int run" where
  "Saturate16 v = Saturate (- (2 ^ 15)) (2 ^ 15 - 1) v"

definition Saturate8 :: "double \<Rightarrow> int run" where
  "Saturate8 v = Saturate (- (2 ^ 7)) (2 ^ 7 - 1) v"

definition turret_tx_mode :: "rf_control \<Rightarrow> 's turret \<Rightarrow> rf_slot" where
  "turret_tx_mode rc t = tx_of 0xffffffff [turret_mode_code (tu_mode t), Saturate_size (length (receive_times rc))]"

definition turret_tx_imu :: "'p rf_library \<Rightarrow> 's turret \<Rightarrow> rf_slot run" where
  "turret_tx_imu lib t =
     rbind (Saturate16 (dscale (32767 / 180) (at_pitch (tu_imu t)))) (\<lambda>pitch.
     rbind (Saturate16 (dscale (32767 / 180) (at_yaw (tu_imu t)))) (\<lambda>yaw.
     rbind (Saturate16 (dscale (32767 / 400) (at_rate_y (tu_imu t)))) (\<lambda>pitch_rate.
     rbind (Saturate16 (dscale (32767 / 400) (at_rate_z (tu_imu t)))) (\<lambda>yaw_rate.
       Go (tx_of 0xffffffff (concat (map (little_endian lib 2) [pitch, yaw, pitch_rate, yaw_rate])))))))"

text \<open>An angle in degrees as a part of half a turn, within one turn.\<close>

definition half_turns :: "double \<Rightarrow> double" where
  "half_turns d = (case d of Fin x \<Rightarrow> Fin (WrapNegPiToPi (Radians x) / pi) | _ \<Rightarrow> NaN)"

definition turret_tx_servo :: "'p rf_library \<Rightarrow> 's turret \<Rightarrow> rf_slot run" where
  "turret_tx_servo lib t =
     rbind (Saturate16 (dscale (32767 / 180) (gs_angle_deg (pitch_servo t)))) (\<lambda>pitch.
     rbind (Saturate16 (dscale 32767 (half_turns (gs_angle_deg (yaw_servo t))))) (\<lambda>yaw.
       Go (tx_of (if tu_mode t = kTurretFault then 0x01010101 else 0xffffffff)
         (little_endian lib 2 pitch @ little_endian lib 2 yaw))))"

definition turret_tx_weapon :: "'p rf_library \<Rightarrow> 's turret \<Rightarrow> rf_slot" where
  "turret_tx_weapon lib t =
     (let w = tu_weapon t
      in tx_of (if tu_mode t = kTurretFault then 0x02020202 else 0xffffffff)
           (little_endian lib 1 (if wp_armed w \<noteq> 0 then 1 else 0) @
            little_endian lib 1 (if wp_laser_time w \<noteq> 0 then 1 else 0) @ little_endian lib 2 (sint (wp_shot_count w))))"

definition turret_tx_summary :: "'p rf_library \<Rightarrow> 's turret \<Rightarrow> rf_slot run" where
  "turret_tx_summary lib t =
     (let servos = [pitch_servo t, yaw_servo t]
      in rbind (Saturate8 (dscale kVoltageScale (vmin dless gs_voltage (Fin 0) servos))) (\<lambda>v1.
         rbind (Saturate8 (dscale kVoltageScale (vmax dless gs_voltage (Fin 0) servos))) (\<lambda>v2.
         rbind (Saturate8 (vmin dless gs_temperature_C (Fin 0) servos)) (\<lambda>t1.
         rbind (Saturate8 (vmax dless gs_temperature_C (Fin 0) servos)) (\<lambda>t2.
           Go (tx_of 0x55555555 (concat (map (little_endian lib 1)
             [v1, v2, t1, t2, Saturate_int (- (2 ^ 7)) (2 ^ 7 - 1) (vmax (<) gs_fault 0 servos)])))))))) "

text \<open>The text of a fault of the turret is a parameter.\<close>

definition turret_tx_fault :: "((int \<times> int) list \<Rightarrow> u8 list) \<Rightarrow> 's turret \<Rightarrow> rf_slot" where
  "turret_tx_fault message t =
     (if tu_mode t \<noteq> kTurretFault then tx_of 0x01010101 [] else tx_of 0xaaaaaaaa (take 13 (message (tu_fault t))))"

definition turret_ReportTelemetry ::
  "nrf_library \<Rightarrow> 'p rf_library \<Rightarrow> ((int \<times> int) list \<Rightarrow> u8 list) \<Rightarrow> real \<Rightarrow> 's turret \<Rightarrow> rf_control \<times> nrf \<Rightarrow> (rf_control \<times> nrf) run" where
  "turret_ReportTelemetry nlib lib message now t st =
     (let (rc, dev) = st
      in if \<not> report_due now rc then Go (rc, dev)
         else (let rc = rc\<lparr>last_telemetry := Some now\<rparr>
               in rbind (tx_slot nlib kOnlyRemote 0 (turret_tx_mode rc t) dev) (\<lambda>dev.
                  rbind (turret_tx_imu lib t) (\<lambda>slot1.
                  rbind (tx_slot nlib kOnlyRemote 1 slot1 dev) (\<lambda>dev.
                  rbind (turret_tx_servo lib t) (\<lambda>slot2.
                  rbind (tx_slot nlib kOnlyRemote 2 slot2 dev) (\<lambda>dev.
                  rbind (tx_slot nlib kOnlyRemote 3 (turret_tx_weapon lib t) dev) (\<lambda>dev.
                  rbind (turret_tx_summary lib t) (\<lambda>slot8.
                  rbind (tx_slot nlib kOnlyRemote 8 slot8 dev) (\<lambda>dev.
                  rbind (tx_slot nlib kOnlyRemote 14 (turret_tx_fault message t) dev) (\<lambda>dev. Go (rc, dev))))))))))))"

section \<open>The handler\<close>

record 's turret_system =
  tr_radio :: nrf
  tr_rf :: rf_control
  tr_turret :: "'s turret"

definition turret_HandleSlot ::
  "nrf_library \<Rightarrow> 'p rf_library \<Rightarrow> ((int \<times> int) list \<Rightarrow> u8 list) \<Rightarrow> 'c turret_parameters \<Rightarrow> real \<Rightarrow> 's turret_system \<Rightarrow>
     's turret_system run" where
  "turret_HandleSlot nlib lib message p now s =
     (let rc = (tr_rf s)\<lparr>slot_time := Some now, receive_times := forget_old now (receive_times (tr_rf s) @ [now])\<rparr>
      in rbind (copy_slots (tr_radio s) [0..<15] (slot_rx rc)) (\<lambda>rxs.
           let rc = rc\<lparr>slot_rx := rxs\<rparr>;
               t = (if bit (caller_bitfield (tr_radio s)) 0 then turret_SendCommand p now rc (tr_turret s) else tr_turret s)
           in rbind (turret_ReportTelemetry nlib lib message now t (rc, tr_radio s)) (\<lambda>(rc, dev).
              rbind (AsyncWaitForSlot dev) (\<lambda>dev. Go \<lparr>tr_radio = dev, tr_rf = rc, tr_turret = t\<rparr>))))"

text \<open>The start. The assertion is that there is no radio; without one the call of \<open>StartRead\<close> has no object.\<close>

definition turret_rf_AsyncStart :: "nrf option \<Rightarrow> nrf run" where
  "turret_rf_AsyncStart got = (if got \<noteq> None then Abort else (case got of None \<Rightarrow> Abort | Some dev \<Rightarrow> AsyncWaitForSlot dev))"

lemma turret_rf_never_starts: "turret_rf_AsyncStart got = Abort"
  by (cases got) (simp_all add: turret_rf_AsyncStart_def)

end
