(* ===== verification/RfCommand.thy ===== *)
theory RfCommand
  imports TurretRf Swing
begin

text \<open>
  The operator's console, \<^verbatim>\<open>mech/rf_command.cc\<close> with \<^verbatim>\<open>mech/expo_map.h\<close>: the slots sent to the robot and to the turret,
  the slots received from them, and the choices made with the gamepad in each frame. Drawing and video are not modelled;
  the windows of ImGui give the inputs \<open>fr_gait_open\<close>, \<open>fr_turret_open\<close> and the clicked buttons.
\<close>

section \<open>The stick curve\<close>

record expo_options =
  deadband :: real
  slow_range :: real
  slow_value :: real

definition copysign1 :: "real \<Rightarrow> real" where
  "copysign1 v = (if v < 0 then -1 else 1)"

definition ExpoMap :: "expo_options \<Rightarrow> real \<Rightarrow> real" where
  "ExpoMap opts v =
     (if \<bar>v\<bar> < deadband opts then 0
      else (let sign = copysign1 v
            in if \<bar>v\<bar> < slow_range opts
               then slow_value opts * (v - deadband opts * sign) / (slow_range opts - deadband opts)
               else (v - sign * slow_range opts) / (1 - slow_range opts) * (1 - slow_value opts) + sign * slow_value opts))"

section \<open>Sending\<close>

definition kRemoteRobot :: int where "kRemoteRobot = 0"
definition kRemoteTurret :: int where "kRemoteTurret = 1"

record drive_command =
  dc_mode :: Mode
  dc_v_x :: double
  dc_v_y :: real
  dc_w_z :: real
  dc_jump_accel :: real
  dc_turret_mode :: turret_mode
  dc_turret_pitch_dps :: real
  dc_turret_yaw_dps :: real
  dc_turret_track :: bool
  dc_turret_laser :: bool
  dc_fire_sequence :: int

text \<open>The conversion of a double to \<open>uint16_t\<close>.\<close>

definition cast_uint16 :: "real \<Rightarrow> int run" where
  "cast_uint16 x = (if 0 \<le> trunc x \<and> trunc x \<le> 65535 then Go (trunc x) else Abort)"

text \<open>The rates that are not sent are zero: the velocity upwards and the rotation about the other axes.\<close>

definition send_mode :: "'p rf_library \<Rightarrow> drive_command \<Rightarrow> rf_slot run" where
  "send_mode lib d =
     (if dc_mode d = kJump
      then rbind (cast_uint16 (dc_jump_accel d)) (\<lambda>accel.
             Go (tx_of 0xffffffff (mode_code (dc_mode d) # little_endian lib 1 1 @ little_endian lib 2 accel)))
      else Go (tx_of 0xffffffff [mode_code (dc_mode d)]))"

definition send_velocity :: "'p rf_library \<Rightarrow> drive_command \<Rightarrow> rf_slot run" where
  "send_velocity lib d =
     rbind (Saturate16 (dc_v_x d)) (\<lambda>x.
     rbind (Saturate16 (Fin (dc_v_y d))) (\<lambda>y.
     rbind (Saturate16 (Fin (32767 * dc_w_z d / (2 * pi)))) (\<lambda>w.
       Go (tx_of 0xffffffff (concat (map (little_endian lib 2) [x, y, w]))))))"

definition send_turret_mode :: "drive_command \<Rightarrow> rf_slot" where
  "send_turret_mode d = tx_of 0xffffffff [turret_mode_code (dc_turret_mode d)]"

definition send_turret_rate :: "'p rf_library \<Rightarrow> drive_command \<Rightarrow> rf_slot run" where
  "send_turret_rate lib d =
     rbind (Saturate16 (Fin (32767 * dc_turret_pitch_dps d / 400))) (\<lambda>pitch.
     rbind (Saturate16 (Fin (32767 * dc_turret_yaw_dps d / 400))) (\<lambda>yaw.
       Go (tx_of 0xffffffff (little_endian lib 2 pitch @ little_endian lib 2 yaw @
         little_endian lib 1 (if dc_turret_track d then 1 else 0)))))"

definition send_turret_weapon :: "'p rf_library \<Rightarrow> drive_command \<Rightarrow> rf_slot" where
  "send_turret_weapon lib d =
     tx_of 0xffffffff (little_endian lib 1 (if dc_turret_laser d then 1 else 0) @ little_endian lib 2 (dc_fire_sequence d))"

definition SlotCommand :: "nrf_library \<Rightarrow> 'p rf_library \<Rightarrow> drive_command \<Rightarrow> nrf \<Rightarrow> nrf run" where
  "SlotCommand nlib lib d dev =
     rbind (send_mode lib d) (\<lambda>slot.
     rbind (tx_slot nlib kRemoteRobot 0 slot dev) (\<lambda>dev.
     rbind (send_velocity lib d) (\<lambda>slot.
     rbind (tx_slot nlib kRemoteRobot 2 slot dev) (\<lambda>dev.
     rbind (tx_slot nlib kRemoteTurret 0 (send_turret_mode d) dev) (\<lambda>dev.
     rbind (send_turret_rate lib d) (\<lambda>slot.
     rbind (tx_slot nlib kRemoteTurret 1 slot dev) (\<lambda>dev.
     tx_slot nlib kRemoteTurret 2 (send_turret_weapon lib d) dev)))))))"

section \<open>Receiving\<close>

record turret_data =
  td_mode :: int
  td_rx_count :: int
  td_imu_pitch_deg :: real
  td_imu_yaw_deg :: real
  td_imu_pitch_rate_dps :: real
  td_imu_yaw_rate_dps :: real
  td_servo_pitch_deg :: real
  td_servo_yaw_deg :: real
  td_min_voltage :: real
  td_max_voltage :: real
  td_min_temp_C :: real
  td_max_temp_C :: real
  td_fault :: int
  td_armed :: int
  td_laser :: int
  td_shot_count :: int

record robot_data =
  rd_mode :: int
  rd_tx_count :: int
  rd_rx_count :: nat
  rd_v_R :: vec
  rd_w_LB :: vec
  rd_min_voltage :: real
  rd_max_voltage :: real
  rd_min_temp_C :: real
  rd_max_temp_C :: real
  rd_fault :: int

definition turret_data_default :: turret_data where
  "turret_data_default = \<lparr>td_mode = 0, td_rx_count = 0, td_imu_pitch_deg = 0, td_imu_yaw_deg = 0, td_imu_pitch_rate_dps = 0,
     td_imu_yaw_rate_dps = 0, td_servo_pitch_deg = 0, td_servo_yaw_deg = 0, td_min_voltage = 0, td_max_voltage = 0,
     td_min_temp_C = 0, td_max_temp_C = 0, td_fault = 0, td_armed = 0, td_laser = 0, td_shot_count = 0\<rparr>"

definition robot_data_default :: robot_data where
  "robot_data_default = \<lparr>rd_mode = 1, rd_tx_count = 0, rd_rx_count = 0, rd_v_R = vzero, rd_w_LB = vzero, rd_min_voltage = 0,
     rd_max_voltage = 0, rd_min_temp_C = 0, rd_max_temp_C = 0, rd_fault = 0\<rparr>"

record console =
  cn_radio :: nrf
  cn_robot :: robot_data
  cn_turret :: turret_data
  cn_receive_times :: "real list"

text \<open>Integers of a slot. The read of the stream of mjlib has no value where the slot is too short, which the code does
  not check: \<open>Abort\<close>.\<close>

definition slot_byte :: "rf_slot \<Rightarrow> nat \<Rightarrow> int" where
  "slot_byte slot i = sint (sl_data slot ! i)"

definition Read16 :: "rf_slot \<Rightarrow> nat \<Rightarrow> int run" where
  "Read16 slot i =
     (if i + 2 \<le> sl_size slot then Go (sint (word_cat (sl_data slot ! (i + 1)) (sl_data slot ! i) :: u16)) else Abort)"

definition Read8 :: "rf_slot \<Rightarrow> nat \<Rightarrow> int run" where
  "Read8 slot i = (if i + 1 \<le> sl_size slot then Go (slot_byte slot i) else Abort)"

definition robot_slot :: "nat \<Rightarrow> rf_slot \<Rightarrow> robot_data \<Rightarrow> robot_data run" where
  "robot_slot i slot d =
     (if i = 0 then Go (d\<lparr>rd_mode := slot_byte slot 0, rd_tx_count := slot_byte slot 1\<rparr>)
      else if i = 1
      then rbind (Read16 slot 0) (\<lambda>x. rbind (Read16 slot 2) (\<lambda>y. rbind (Read16 slot 4) (\<lambda>w.
             Go (d\<lparr>rd_v_R := \<lparr>vx = of_int x, vy = of_int y, vz = 0\<rparr>, rd_w_LB := \<lparr>vx = 0, vy = 0, vz = of_int w\<rparr>\<rparr>))))
      else if i = 8
      then Go (d\<lparr>rd_min_voltage := of_int (slot_byte slot 0) / 4, rd_max_voltage := of_int (slot_byte slot 1) / 4,
                 rd_min_temp_C := of_int (slot_byte slot 2), rd_max_temp_C := of_int (slot_byte slot 3),
                 rd_fault := slot_byte slot 4\<rparr>)
      else Go d)"

definition turret_slot :: "nat \<Rightarrow> rf_slot \<Rightarrow> turret_data \<Rightarrow> turret_data run" where
  "turret_slot i slot d =
     (let angle = (\<lambda>v. of_int v / 32767 * 180 :: real); rate = (\<lambda>v. of_int v / 32767 * 400 :: real)
      in if i = 0 then Go (d\<lparr>td_mode := slot_byte slot 0, td_rx_count := slot_byte slot 1\<rparr>)
         else if i = 1
         then rbind (Read16 slot 0) (\<lambda>a. rbind (Read16 slot 2) (\<lambda>b. rbind (Read16 slot 4) (\<lambda>c. rbind (Read16 slot 6) (\<lambda>e.
                Go (d\<lparr>td_imu_pitch_deg := angle a, td_imu_yaw_deg := angle b, td_imu_pitch_rate_dps := rate c,
                      td_imu_yaw_rate_dps := rate e\<rparr>)))))
         else if i = 2
         then rbind (Read16 slot 0) (\<lambda>a. rbind (Read16 slot 2) (\<lambda>b.
                Go (d\<lparr>td_servo_pitch_deg := angle a, td_servo_yaw_deg := angle b\<rparr>)))
         else if i = 3
         then rbind (Read8 slot 0) (\<lambda>a. rbind (Read8 slot 1) (\<lambda>b. rbind (Read16 slot 2) (\<lambda>c.
                Go (d\<lparr>td_armed := a, td_laser := b, td_shot_count := c\<rparr>))))
         else if i = 8
         then Go (d\<lparr>td_min_voltage := of_int (slot_byte slot 0) / 4, td_max_voltage := of_int (slot_byte slot 1) / 4,
                    td_min_temp_C := of_int (slot_byte slot 2), td_max_temp_C := of_int (slot_byte slot 3),
                    td_fault := slot_byte slot 4\<rparr>)
         else Go d)"

fun read_slots :: "(nat \<Rightarrow> rf_slot \<Rightarrow> 'd \<Rightarrow> 'd run) \<Rightarrow> nrf \<Rightarrow> nat list \<Rightarrow> 'd \<Rightarrow> 'd run" where
  "read_slots f dev [] d = Go d"
| "read_slots f dev (i # is) d =
     (if \<not> bit (caller_bitfield dev) i then read_slots f dev is d
      else rbind (rx_slot (caller_remote dev) (int i) dev) (\<lambda>slot. rbind (f i slot d) (read_slots f dev is)))"

definition ProcessRobot :: "real \<Rightarrow> console \<Rightarrow> console run" where
  "ProcessRobot now s =
     (let received = forget_old now (cn_receive_times s @ [now])
      in rbind (read_slots robot_slot (cn_radio s) [0..<15] ((cn_robot s)\<lparr>rd_rx_count := length received\<rparr>)) (\<lambda>d.
           Go (s\<lparr>cn_receive_times := received, cn_robot := d\<rparr>)))"

definition ProcessTurret :: "console \<Rightarrow> console run" where
  "ProcessTurret s =
     rbind (read_slots turret_slot (cn_radio s) [0..<15] (cn_turret s)) (\<lambda>d. Go (s\<lparr>cn_turret := d\<rparr>))"

definition ProcessRead :: "real \<Rightarrow> console \<Rightarrow> console run" where
  "ProcessRead now s =
     (if caller_remote (cn_radio s) = kRemoteRobot then ProcessRobot now s
      else if caller_remote (cn_radio s) = kRemoteTurret then ProcessTurret s
      else Go s)"

definition console_HandleRead :: "real \<Rightarrow> console \<Rightarrow> console run" where
  "console_HandleRead now s =
     rbind (ProcessRead now s) (\<lambda>s.
     rbind (AsyncWaitForSlot ((cn_radio s)\<lparr>caller_bitfield := 0\<rparr>)) (\<lambda>dev. Go (s\<lparr>cn_radio := dev\<rparr>)))"

section \<open>The operator\<close>

text \<open>One frame of the gamepad: the buttons that are held, the axes, and what ImGui tells of the two windows: whether
  they were open, and the mode whose button was clicked.\<close>

datatype button = ButtonA | ButtonB | ButtonX | ButtonY | DpadUp | DpadDown | LeftBumper | RightBumper

record frame =
  fr_buttons :: "button list"
  fr_left_x :: real
  fr_left_y :: real
  fr_right_x :: real
  fr_right_y :: real
  fr_right_trigger :: real
  fr_gait_open :: bool
  fr_turret_open :: bool
  fr_gait_click :: "nat option"
  fr_turret_click :: "nat option"

record options =
  opt_turret :: bool
  jump_accel :: real
  max_forward_velocity :: real
  max_rotation_deg_s :: real
  zoom_in :: real
  derate_scale :: real

record operator =
  op_command_mode :: Mode
  op_pending_gait :: nat
  op_turret_mode :: turret_mode
  op_pending_turret :: nat
  op_old_buttons :: "button list"
  op_trigger_down :: bool
  op_old_trigger_down :: bool
  op_zoom :: real
  op_laser :: bool
  op_fire_sequence :: int

definition operator_start :: operator where
  "operator_start = \<lparr>op_command_mode = kStopped, op_pending_gait = 0, op_turret_mode = kStop, op_pending_turret = 0,
     op_old_buttons = [], op_trigger_down = False, op_old_trigger_down = False, op_zoom = 1, op_laser = False,
     op_fire_sequence = 0\<rparr>"

definition held :: "button \<Rightarrow> frame \<Rightarrow> bool" where
  "held b fr \<longleftrightarrow> b \<in> set (fr_buttons fr)"

definition pressed :: "button \<Rightarrow> frame \<Rightarrow> operator \<Rightarrow> bool" where
  "pressed b fr s \<longleftrightarrow> held b fr \<and> b \<notin> set (op_old_buttons s)"

text \<open>The selection of a mode from \<open>n\<close>: with the button held, up and down step through them.\<close>

definition select :: "nat \<Rightarrow> bool \<Rightarrow> frame \<Rightarrow> operator \<Rightarrow> nat option \<Rightarrow> nat \<Rightarrow> nat" where
  "select n selecting fr s click pending =
     (let pending = (if selecting \<and> pressed DpadUp fr s then (pending + n - 1) mod n else pending);
          pending = (if selecting \<and> pressed DpadDown fr s then (pending + 1) mod n else pending)
      in case click of Some k \<Rightarrow> k | None \<Rightarrow> pending)"

definition kNumGaitModes :: nat where "kNumGaitModes = 5"
definition kNumTurretModes :: nat where "kNumTurretModes = 2"

definition gait_mode :: "nat \<Rightarrow> Mode run" where
  "gait_mode k =
     (if k = 0 then Go kStopped else if k = 1 then Go kRest else if k = 2 then Go kWalk else if k = 3 then Go kJump
      else if k = 4 then Go kZeroVelocity else Abort)"

definition DrawGait :: "frame \<Rightarrow> operator \<Rightarrow> operator run" where
  "DrawGait fr s =
     (let gait_select_mode = held ButtonY fr;
          pending = select kNumGaitModes gait_select_mode fr s (fr_gait_click fr) (op_pending_gait s);
          s = s\<lparr>op_pending_gait := pending\<rparr>
      in if \<not> gait_select_mode \<and> fr_gait_open fr then rbind (gait_mode pending) (\<lambda>m. Go (s\<lparr>op_command_mode := m\<rparr>))
         else Go s)"

definition turret_mode_of :: "nat \<Rightarrow> turret_mode run" where
  "turret_mode_of k = (if k = 0 then Go kStop else if k = 1 then Go kActive else Abort)"

definition DrawTurret :: "frame \<Rightarrow> operator \<Rightarrow> operator run" where
  "DrawTurret fr s =
     (let turret_select_mode = held ButtonX fr;
          pending = select kNumTurretModes turret_select_mode fr s (fr_turret_click fr) (op_pending_turret s);
          s = s\<lparr>op_pending_turret := pending\<rparr>
      in if \<not> turret_select_mode \<and> fr_turret_open fr then rbind (turret_mode_of pending) (\<lambda>m. Go (s\<lparr>op_turret_mode := m\<rparr>))
         else Go s)"

text \<open>The trigger with its hysteresis, and the zoom.\<close>

definition read_trigger :: "frame \<Rightarrow> operator \<Rightarrow> operator" where
  "read_trigger fr s =
     s\<lparr>op_trigger_down := (if fr_right_trigger fr > 0 then True else if fr_right_trigger fr < - (1 / 2) then False else op_trigger_down s)\<rparr>"

definition trigger_pressed :: "operator \<Rightarrow> bool" where
  "trigger_pressed s \<longleftrightarrow> op_trigger_down s \<and> \<not> op_old_trigger_down s"

definition zoom_step :: "options \<Rightarrow> frame \<Rightarrow> operator \<Rightarrow> operator" where
  "zoom_step opt fr s =
     (let alpha = (1 / 60) / (1 / 5)
      in s\<lparr>op_zoom := alpha * (if held LeftBumper fr then zoom_in opt else 1) + (1 - alpha) * op_zoom s\<rparr>)"

definition expo :: expo_options where "expo = \<lparr>deadband = 15 / 100, slow_range = 40 / 100, slow_value = 10 / 100\<rparr>"
definition turret_walk_expo :: expo_options where "turret_walk_expo = \<lparr>deadband = 0, slow_range = 30 / 100, slow_value = 50 / 100\<rparr>"
definition lateral_walk_expo :: expo_options where "lateral_walk_expo = \<lparr>deadband = 15 / 100, slow_range = 30 / 100, slow_value = 15 / 100\<rparr>"

definition kMaxLateralVelocity :: real where "kMaxLateralVelocity = 1 / 10"
definition kMaxTurretPitch_dps :: real where "kMaxTurretPitch_dps = 50"
definition kMaxTurretYaw_dps :: real where "kMaxTurretYaw_dps = 200"
definition kMovementEpsilon :: real where "kMovementEpsilon = 25 / 1000"
definition kMovementEpsilon_rad_s :: real where "kMovementEpsilon_rad_s = (7 / 180) * pi"

text \<open>The rates of the robot without a turret, and with one, in whose frame the stick steers. With the stick in the
  middle the ratio of the turn is zero divided by zero. \<open>limit_fn\<close> is \<open>Limit\<close> of mjlib.\<close>

definition walk_rates :: "options \<Rightarrow> frame \<Rightarrow> double \<times> real \<times> real" where
  "walk_rates opt fr =
     (Fin (- max_forward_velocity opt * fr_left_y fr), kMaxLateralVelocity * ExpoMap lateral_walk_expo (fr_left_x fr),
      (max_rotation_deg_s opt / 180) * pi * fr_right_x fr)"

definition forward_scale :: "(double \<Rightarrow> double \<Rightarrow> double \<Rightarrow> double) \<Rightarrow> real \<Rightarrow> real \<Rightarrow> double" where
  "forward_scale limit_fn rx ry =
     limit_fn (if sqrt (rx\<^sup>2 + ry\<^sup>2) = 0 then NaN
          else Fin (Interpolate 1 0 ((rx / sqrt (rx\<^sup>2 + ry\<^sup>2) - 1 / 2) / (1 - 1 / 2)))) (Fin 0) (Fin 1)"

definition turret_walk_rates ::
  "(double \<Rightarrow> double \<Rightarrow> double \<Rightarrow> double) \<Rightarrow> options \<Rightarrow> real \<Rightarrow> frame \<Rightarrow> double \<times> real \<times> real" where
  "turret_walk_rates limit_fn opt servo_yaw_deg fr =
     (let cx = ExpoMap lateral_walk_expo (fr_left_x fr); cy = - fr_left_y fr;
          turret_rad = WrapNegPiToPi (Radians (- servo_yaw_deg));
          rx = cos turret_rad * cx - sin turret_rad * cy; ry = sin turret_rad * cx + cos turret_rad * cy;
          forward = dscale (max_forward_velocity opt * ry) (forward_scale limit_fn rx ry)
      in (forward, 0, (case forward of Fin x \<Rightarrow> copysign1 x | NegInf \<Rightarrow> -1 | _ \<Rightarrow> 1) * 1 * (max_rotation_deg_s opt / 180) * pi *
           ExpoMap turret_walk_expo rx))"

definition next_fire_sequence :: "int \<Rightarrow> int" where
  "next_fire_sequence n = (let n = max 1024 (n + 1) in if n > 2048 then 1024 else n)"

definition turret_buttons :: "frame \<Rightarrow> operator \<Rightarrow> operator" where
  "turret_buttons fr s =
     s\<lparr>op_laser := (if pressed ButtonB fr s then \<not> op_laser s else op_laser s),
       op_fire_sequence := (if trigger_pressed s then next_fire_sequence (op_fire_sequence s) else op_fire_sequence s)\<rparr>"

text \<open>A walk or jump without motion is a rest.\<close>

definition movement_commanded :: "double \<times> real \<times> real \<Rightarrow> bool" where
  "movement_commanded rates \<longleftrightarrow>
     (let (x, y, w) = rates
      in (case x of Fin x \<Rightarrow> sqrt (x\<^sup>2 + y\<^sup>2) > kMovementEpsilon | NaN \<Rightarrow> False | _ \<Rightarrow> True) \<or> \<bar>w\<bar> > kMovementEpsilon_rad_s)"

definition actual_mode :: "Mode \<Rightarrow> double \<times> real \<times> real \<Rightarrow> Mode" where
  "actual_mode mode rates =
     (if \<not> movement_commanded rates \<and> (mode = kWalk \<or> mode = kJump) then kRest else mode)"

definition end_frame :: "frame \<Rightarrow> operator \<Rightarrow> operator" where
  "end_frame fr s = s\<lparr>op_old_buttons := fr_buttons fr, op_old_trigger_down := op_trigger_down s\<rparr>"

text \<open>A frame: the state of the operator and the command that is sent.\<close>

definition operator_frame ::
  "(double \<Rightarrow> double \<Rightarrow> double \<Rightarrow> double) \<Rightarrow> options \<Rightarrow> real \<Rightarrow> frame \<Rightarrow> operator \<Rightarrow> (drive_command \<times> operator) run" where
  "operator_frame limit_fn opt servo_yaw_deg fr s =
     rbind (DrawGait fr (zoom_step opt fr (read_trigger fr s))) (\<lambda>s.
     rbind (DrawTurret fr s) (\<lambda>s.
       let rates = (if opt_turret opt then turret_walk_rates limit_fn opt servo_yaw_deg fr else walk_rates opt fr);
           derate = 1 / ((op_zoom s - 1) * derate_scale opt + 1);
           t = (if opt_turret opt then turret_buttons fr s else s);
           d = \<lparr>dc_mode = actual_mode (op_command_mode t) rates, dc_v_x = fst rates, dc_v_y = fst (snd rates),
                dc_w_z = snd (snd rates), dc_jump_accel = jump_accel opt, dc_turret_mode = op_turret_mode t,
                dc_turret_pitch_dps = (if opt_turret opt then derate * - kMaxTurretPitch_dps * ExpoMap expo (fr_right_y fr) else 0),
                dc_turret_yaw_dps = (if opt_turret opt then derate * kMaxTurretYaw_dps * ExpoMap expo (fr_right_x fr) else 0),
                dc_turret_track = (opt_turret opt \<and> held RightBumper fr), dc_turret_laser = op_laser t,
                dc_fire_sequence = op_fire_sequence t\<rparr>
       in Go (d, end_frame fr t)))"

end
