(* ===== verification/NrfProps.thy ===== *)
theory NrfProps
  imports NrfUsb
begin

unbundle bit_operations_syntax

text \<open>
  What the radio of \<^verbatim>\<open>mech/nrfusb_client.cc\<close> keeps and delivers: lines that carry slots in the hexadecimal format, lines
  that stop the process, and the order of the text that is written.
\<close>

section \<open>Formats\<close>

definition lower_digit :: "u8 \<Rightarrow> char" where
  "lower_digit v = (if v < 10 then chr (v + 48) else chr (v + 97 - 10))"

text \<open>What the client relies on of \<open>fmt\<close>: two lower case digits, and decimal numbers that \<open>stoi\<close> reads back.\<close>

definition formats :: "nrf_library \<Rightarrow> bool" where
  "formats lib \<longleftrightarrow>
     (\<forall>v. hex02 lib v = [lower_digit (drop_bit 4 (v AND 0xF0)), lower_digit (v AND 0x0F)]) \<and>
     (\<forall>k. 0 \<le> k \<longrightarrow> k < 15 \<longrightarrow> stoi 10 (dec lib k) = Some k \<and> CHR '':'' \<notin> set (dec lib k) \<and> \<not> list_ex is_space (dec lib k))"

lemma hex_digit_of_lower:
  assumes "v < 16" shows "hex_digit (lower_digit v) = Some v"
proof -
  from assms have "v < of_nat 16" by simp
  then obtain k where k: "k < 16" "v = of_nat k" by (rule word_lt_of_natE) simp
  from less_16_cases [OF k(1)] show ?thesis
    unfolding k(2) by (elim insertE emptyE) (simp_all add: hex_digit_def lower_digit_def)
qed

lemma hex_digit_lower:
  assumes "v < (16 :: u8)"
  shows "hex_digit (lower_digit v) = Some v" "lower_digit v \<noteq> CHR ''-''" "lower_digit v \<noteq> CHR ''+''"
    "\<not> is_space (lower_digit v)" "lower_digit v \<noteq> CHR '':''"
  using hex_digit_of_lower [OF assms] hex_digit_not_space [OF hex_digit_of_lower [OF assms]]
  by (auto simp: hex_digit_def ord_def)

lemma unat_lt_16: "v < (16 :: u8) \<Longrightarrow> unat v < 16"
  by (simp add: word_less_nat_alt)

lemma stoi_small: "0 \<le> v \<Longrightarrow> v < 2 ^ 31 \<Longrightarrow> strtol base s = Some (max (- (2 ^ 63)) (min (2 ^ 63 - 1) v)) \<Longrightarrow> stoi base s = Some v"
  by (simp add: stoi_def)

lemma stoi_pair:
  assumes "hi < (16 :: u8)" "lo < 16"
  shows "stoi 16 [lower_digit hi, lower_digit lo] = Some (int (unat hi) * 16 + int (unat lo))"
proof (rule stoi_small)
  show "0 \<le> int (unat hi) * 16 + int (unat lo)" by simp
  have "int (unat hi) * 16 + int (unat lo) < 1000" using unat_lt_16 [OF assms(1)] unat_lt_16 [OF assms(2)] by linarith
  then show "int (unat hi) * 16 + int (unat lo) < 2 ^ 31" by simp
  show "strtol 16 [lower_digit hi, lower_digit lo] =
      Some (max (- (2 ^ 63)) (min (2 ^ 63 - 1) (int (unat hi) * 16 + int (unat lo))))"
    using hex_digit_lower [OF assms(1)] hex_digit_lower [OF assms(2)] unat_lt_16 [OF assms(1)] unat_lt_16 [OF assms(2)]
    by (simp add: strtol_def skip_ws_def scan_sign_def digit_in_def)
qed

lemma nybbles_value: "word_of_int (int (unat (drop_bit 4 (v AND 0xF0))) * 16 + int (unat (v AND 0x0F))) = (v :: u8)"
proof -
  have o: "word_of_int (int (unat h) * 16 + int (unat l)) = push_bit 4 h + l" for h l :: u8
    by (simp add: push_bit_eq_mult)
  have "push_bit 4 (drop_bit 4 (v AND 0xF0)) AND (v AND 0x0F) = 0"
    unfolding u8_mask4 by (rule bit_eqI) (auto simp: bit_simps)
  then have "push_bit 4 (drop_bit 4 (v AND 0xF0)) + (v AND 0x0F) = push_bit 4 (drop_bit 4 (v AND 0xF0)) OR (v AND 0x0F)"
    by (rule disjunctive_add_eq_or)
  then show ?thesis unfolding o nybbles_join .
qed

text \<open>Hexadecimal data read back.\<close>

lemma parse_format: "formats lib \<Longrightarrow> parse_pairs (FormatHexData lib data) = Go data"
proof (induction data)
  case Nil
  then show ?case by (simp add: FormatHexData_def)
next
  case (Cons v data)
  then show ?case
    using stoi_pair [OF high_nybble_lt low_nybble_lt, of v v] nybbles_value [of v]
    by (simp add: FormatHexData_def formats_def)
qed

lemma length_FormatHexData: "formats lib \<Longrightarrow> length (FormatHexData lib data) = 2 * length data"
  by (induction data) (simp_all add: FormatHexData_def formats_def)

lemma ParseHexData_Format: "formats lib \<Longrightarrow> ParseHexData (FormatHexData lib data) = Go (Some data)"
  by (simp add: ParseHexData_def length_FormatHexData parse_format)

lemma FormatHexData_chars: "formats lib \<Longrightarrow> c \<in> set (FormatHexData lib data) \<Longrightarrow> \<not> is_space c"
  using hex_digit_lower(4) high_nybble_lt low_nybble_lt by (fastforce simp: FormatHexData_def formats_def)

section \<open>Fields\<close>

definition field_of :: "nrf_library \<Rightarrow> nat \<times> u8 list \<Rightarrow> string" where
  "field_of lib f = dec lib (int (fst f)) @ '':'' @ FormatHexData lib (snd f)"

definition store_field :: "real \<Rightarrow> int \<Rightarrow> nat \<times> u8 list \<Rightarrow> nrf \<Rightarrow> nrf" where
  "store_field now remote f s =
     s\<lparr>rx_slots := (rx_slots s)(remote := (rx_slots s remote)[fst f := fill_slot now (snd f) (rx_slots s remote ! fst f)]),
       pending_bitfield := pending_bitfield s OR push_bit (fst f) 1\<rparr>"

lemma HandleField_of:
  assumes "formats lib" "fst f < 15"
  shows "HandleField now remote (field_of lib f) s = Go (store_field now remote f s)"
proof -
  have d: "stoi 10 (dec lib (int (fst f))) = Some (int (fst f))" "CHR '':'' \<notin> set (dec lib (int (fst f)))"
    using assms by (auto simp: formats_def)
  have t: "takeWhile (\<lambda>c. c \<noteq> CHR '':'') (dec lib (int (fst f)) @ '':'' @ FormatHexData lib (snd f)) = dec lib (int (fst f))"
    using d(2) by (subst takeWhile_append2) auto
  show ?thesis
    unfolding HandleField_def field_of_def t Let_def using assms d(1)
    by (simp add: ParseHexData_Format store_field_def)
qed

lemma handle_fields_of:
  "formats lib \<Longrightarrow> \<forall>f \<in> set fs. fst f < 15 \<Longrightarrow>
    handle_fields now remote (map (field_of lib) fs) s = Go (fold (store_field now remote) fs s)"
  by (induction fs arbitrary: s) (simp_all add: HandleField_of)

text \<open>Fields separated by blanks.\<close>

fun join_blanks :: "string list \<Rightarrow> string" where
  "join_blanks [] = []"
| "join_blanks [f] = f"
| "join_blanks (f # fs) = f @ '' '' @ join_blanks fs"

lemma split_blanks_nonempty: "split_blanks s \<noteq> []"
  by (cases s) (auto split: list.splits)

lemma split_blanks_word: "CHR '' '' \<notin> set w \<Longrightarrow> split_blanks (w @ CHR '' '' # s) = w # split_blanks s"
  by (induction w) auto

lemma split_blanks_one: "CHR '' '' \<notin> set w \<Longrightarrow> split_blanks w = [w]"
  by (induction w) auto

lemma split_join: "fs \<noteq> [] \<Longrightarrow> \<forall>f \<in> set fs. CHR '' '' \<notin> set f \<Longrightarrow> split_blanks (join_blanks fs) = fs"
  by (induction fs rule: join_blanks.induct) (simp_all add: split_blanks_one split_blanks_word)

section \<open>Lines that deliver slots\<close>

definition slots_typed :: "(int \<Rightarrow> rf_slot list) \<Rightarrow> bool" where
  "slots_typed slots \<longleftrightarrow>
     (\<forall>remote. length (slots remote) = 15 \<and> (\<forall>slot \<in> set (slots remote). length (sl_data slot) = 16 \<and> sl_size slot \<le> 16))"

lemma slots_typedD:
  assumes "slots_typed slots"
  shows "length (slots remote) = 15"
    "k < 15 \<Longrightarrow> length (sl_data (slots remote ! k)) = 16 \<and> sl_size (slots remote ! k) \<le> 16"
proof -
  show l: "length (slots remote) = 15" using assms by (simp add: slots_typed_def)
  assume "k < 15"
  then have "slots remote ! k \<in> set (slots remote)" using l by simp
  then show "length (sl_data (slots remote ! k)) = 16 \<and> sl_size (slots remote ! k) \<le> 16"
    using assms by (simp add: slots_typed_def)
qed

lemma slots_typed_update:
  assumes "slots_typed slots" "length (sl_data slot) = 16" "sl_size slot \<le> 16"
  shows "slots_typed (slots(remote := (slots remote)[k := slot]))"
  using assms by (auto simp: slots_typed_def dest!: set_update_subset_insert [THEN subsetD])

lemma fill_slot_typed: "length (sl_data slot) = 16 \<Longrightarrow> length (sl_data (fill_slot now d slot)) = 16 \<and> sl_size (fill_slot now d slot) \<le> 16"
  by (simp add: fill_slot_def Let_def)

lemma fill_slot_data: "length d \<le> 16 \<Longrightarrow> take (sl_size (fill_slot now d slot)) (sl_data (fill_slot now d slot)) = d"
  "sl_timestamp (fill_slot now d slot) = Some now"
  by (simp_all add: fill_slot_def Let_def)

lemma store_field_frame [simp]:
  "waiting (store_field now r f s) = waiting s" "posted (store_field now r f s) = posted s"
  "rx_slots (store_field now r f s) remote =
     (if remote = r then (rx_slots s r)[fst f := fill_slot now (snd f) (rx_slots s r ! fst f)] else rx_slots s remote)"
  "pending_bitfield (store_field now r f s) = pending_bitfield s OR push_bit (fst f) 1"
  by (simp_all add: store_field_def)

lemma fold_store_frame [simp]:
  "waiting (fold (store_field now r) fs s) = waiting s" "posted (fold (store_field now r) fs s) = posted s"
  "length (rx_slots (fold (store_field now r) fs s) remote) = length (rx_slots s remote)"
  by (induction fs arbitrary: s) simp_all

lemma fold_store_other:
  "remote \<noteq> r \<or> k \<notin> fst ` set fs \<Longrightarrow> rx_slots (fold (store_field now r) fs s) remote ! k = rx_slots s remote ! k"
  by (induction fs arbitrary: s) auto

lemma fold_store_slot:
  assumes "f \<in> set fs" "distinct (map fst fs)" "fst f < length (rx_slots s r)"
  shows "rx_slots (fold (store_field now r) fs s) r ! fst f = fill_slot now (snd f) (rx_slots s r ! fst f)"
  using assms
proof (induction fs arbitrary: s)
  case (Cons g fs)
  show ?case
  proof (cases "f = g")
    case True
    then show ?thesis using Cons.prems by (simp add: fold_store_other)
  next
    case False
    then have "f \<in> set fs" using Cons.prems(1) by simp
    moreover from this have "fst f \<noteq> fst g" using Cons.prems(2) by (metis distinct.simps(2) image_eqI list.simps(9) list.set_map)
    ultimately have "f \<in> set fs" "fst f \<noteq> fst g" by simp_all
    then show ?thesis using Cons.IH [of "store_field now r g s"] Cons.prems by simp
  qed
qed simp

lemma fold_store_bits:
  "k < 16 \<Longrightarrow> bit (pending_bitfield (fold (store_field now r) fs s)) k \<longleftrightarrow> bit (pending_bitfield s) k \<or> k \<in> fst ` set fs"
  by (induction fs arbitrary: s) (auto simp: bit_simps)

lemma bits_nonzero: "k < 16 \<Longrightarrow> bit (w :: u16) k \<Longrightarrow> w \<noteq> 0"
  by auto

text \<open>The text of the line, and what \<open>trim\<close> leaves of it.\<close>

definition tokenizes :: "nrf_library \<Rightarrow> bool" where
  "tokenizes lib \<longleftrightarrow> (\<forall>w rest. w \<noteq> [] \<longrightarrow> CHR '' '' \<notin> set w \<longrightarrow> tokens lib (w @ '' '' @ rest) = (w @ '' '' @ rest, rest))"

definition slot_line :: "nrf_library \<Rightarrow> nat \<Rightarrow> (nat \<times> u8 list) list \<Rightarrow> string" where
  "slot_line lib r fs = ''rcv2 '' @ [lower_digit (of_nat r)] @ '' '' @ join_blanks (map (field_of lib) fs)"

lemma trim_trailing:
  assumes "\<forall>c \<in> set tail. is_space c" "s \<noteq> []" "\<not> is_space (hd s)" "\<not> is_space (last s)"
  shows "trim (s @ tail) = s"
proof -
  have "dropWhile is_space (s @ tail) = s @ tail" using assms(2,3) by (cases s) auto
  moreover have "dropWhile is_space (rev tail @ rev s) = rev s"
    using assms by (subst dropWhile_append2) (auto simp: hd_rev dropWhile_eq_self_iff)
  ultimately show ?thesis by (simp add: trim_def)
qed

lemma last_join: "fs \<noteq> [] \<Longrightarrow> last fs \<noteq> [] \<Longrightarrow> join_blanks fs \<noteq> [] \<and> last (join_blanks fs) = last (last fs)"
  by (induction fs rule: join_blanks.induct) auto

lemma field_of_chars:
  assumes "formats lib" "fst f < 15" "c \<in> set (field_of lib f)"
  shows "\<not> is_space c"
proof -
  have "0 \<le> int (fst f) \<and> int (fst f) < 15" using assms(2) by simp
  then have "\<not> list_ex is_space (dec lib (int (fst f)))" using assms(1) unfolding formats_def by blast
  then show ?thesis
    using assms FormatHexData_chars [of lib c "snd f"] by (auto simp: field_of_def list_ex_iff is_space_def [of "CHR '':''"])
qed

lemma field_of_nonempty: "field_of lib f \<noteq> []"
  by (simp add: field_of_def)

lemma space_is_space: "is_space (CHR '' '')"
  by (simp add: is_space_def)

lemma strtol_remote:
  assumes "r < 10"
  shows "strtol 0 (lower_digit (of_nat r) # CHR '' '' # rest) = Some (int r)"
proof -
  let ?c = "lower_digit (of_nat r)"
  have u: "unat (of_nat r :: u8) = r" using assms by (simp add: unat_of_nat)
  then have "(of_nat r :: u8) < 16" using assms by (simp add: word_less_nat_alt)
  note c = hex_digit_lower [OF this]
  have p: "\<not> has_prefix_0x (?c # CHR '' '' # rest)" by (cases rest) auto
  have z: "?c = CHR ''0'' \<Longrightarrow> r = 0" using c(1) u by (auto simp: hex_digit_def ord_def)
  have h: "hex_digit (CHR '' '') = None" by (simp add: hex_digit_def ord_def)
  show ?thesis
    unfolding strtol_def skip_ws_def using c p z h u assms by (auto simp: scan_sign_def digit_in_def Let_def)
qed

lemma HandleLine_slots:
  assumes "formats lib" "tokenizes lib" "r < 10" "fs \<noteq> []" "\<forall>f \<in> set fs. fst f < 15" "\<forall>c \<in> set tail. is_space c"
  shows "nrf_HandleLine lib now (slot_line lib r fs @ tail) s =
    (let s' = fold (store_field now (int r)) fs s
     in Go (MaybeProcessCallback (if waiting s then s'\<lparr>caller_remote := int r\<rparr> else s')))"
proof -
  let ?w = "[lower_digit (of_nat r)]" and ?j = "join_blanks (map (field_of lib) fs)"
  have u: "unat (of_nat r :: u8) = r" using assms(3) by (simp add: unat_of_nat)
  then have "(of_nat r :: u8) < 16" using assms(3) by (simp add: word_less_nat_alt)
  note c = hex_digit_lower [OF this]
  have l: "last (field_of lib (last fs)) \<in> set (field_of lib (last fs))" by (simp add: field_of_nonempty)
  have "?j \<noteq> [] \<and> last ?j = last (field_of lib (last fs))"
    using last_join [of "map (field_of lib) fs"] assms(4) field_of_nonempty by (simp add: last_map)
  moreover have "\<not> is_space (last (field_of lib (last fs)))" using field_of_chars [OF assms(1) _ l] assms(4,5) by simp
  ultimately have t: "trim (slot_line lib r fs @ tail) = slot_line lib r fs"
    using trim_trailing [OF assms(6), of "slot_line lib r fs"] by (simp add: slot_line_def is_space_def)
  have n: "CHR '' '' \<notin> set ?w" using c(4) space_is_space by auto
  then have k: "tokens lib (?w @ '' '' @ ?j) = (?w @ '' '' @ ?j, ?j)" using assms(2) unfolding tokenizes_def by blast
  have "\<forall>f \<in> set (map (field_of lib) fs). CHR '' '' \<notin> set f"
    using field_of_chars [OF assms(1)] assms(5) space_is_space by auto
  then have j: "split_blanks ?j = map (field_of lib) fs" using split_join assms(4) by simp
  have i: "sint (word_of_int (int r) :: 32 word) = int r" by (rule sint_word_of_int_id) (use assms(3) in simp_all)
  have "nrf_HandleLine lib now (slot_line lib r fs @ tail) s = HandleReceive2 lib now (?w @ '' '' @ ?j) s"
    unfolding nrf_HandleLine_def t by (simp add: slot_line_def)
  also have "\<dots> = HandleReceive now (int r) ?j s"
    unfolding HandleReceive2_def k using strtol_remote [OF assms(3), of ?j] i by simp
  finally show ?thesis
    unfolding HandleReceive_def j using handle_fields_of [OF assms(1,5)] by (simp add: Let_def)
qed

text \<open>C31 (roundtrip). A line of the device that carries the slots of a remote in hexadecimal, each at most once, is
  stored: the slots hold the bytes and the time, no other slot changes, and a client that waits gets the remote and
  exactly the slots that have arrived since it was called last.\<close>

theorem slots_delivered:
  assumes "formats lib" "tokenizes lib" "r < 10" "fs \<noteq> []" "\<forall>f \<in> set fs. fst f < 15 \<and> length (snd f) \<le> 16"
    and "distinct (map fst fs)" "\<forall>c \<in> set tail. is_space c" "slots_typed (rx_slots s)"
  shows "\<exists>s'. nrf_HandleLine lib now (slot_line lib r fs @ tail) s = Go s' \<and>
    (\<forall>(k, d) \<in> set fs. let slot = rx_slots s' (int r) ! k
       in take (sl_size slot) (sl_data slot) = d \<and> sl_timestamp slot = Some now) \<and>
    (\<forall>remote k. remote \<noteq> int r \<or> k \<notin> fst ` set fs \<longrightarrow> rx_slots s' remote ! k = rx_slots s remote ! k) \<and>
    (let arrived = {k. k < 16 \<and> (bit (pending_bitfield s) k \<or> k \<in> fst ` set fs)}
     in if waiting s
        then caller_remote s' = int r \<and> {k. k < 16 \<and> bit (caller_bitfield s') k} = arrived \<and>
          posted s' = posted s + 1 \<and> \<not> waiting s' \<and> pending_bitfield s' = 0
        else {k. k < 16 \<and> bit (pending_bitfield s') k} = arrived \<and> posted s' = posted s \<and> \<not> waiting s')"
proof -
  let ?f = "fold (store_field now (int r)) fs s"
  have "hd fs \<in> set fs" using assms(4) by simp
  moreover from this have "fst (hd fs) < 15" using assms(5) by blast
  ultimately obtain g where g: "g \<in> set fs" "fst g < 16" using that [of "hd fs"] by simp
  then have "bit (pending_bitfield ?f) (fst g)" by (simp add: fold_store_bits)
  then have nz: "pending_bitfield ?f \<noteq> 0" by (rule bits_nonzero [OF g(2)])
  have slot: "rx_slots ?f (int r) ! k = fill_slot now d (rx_slots s (int r) ! k) \<and> length d \<le> 16" if "(k, d) \<in> set fs" for k d
    using fold_store_slot [OF that assms(6)] that assms(5) slots_typedD(1) [OF assms(8)] by auto
  have other: "remote \<noteq> int r \<or> k \<notin> fst ` set fs \<Longrightarrow> rx_slots ?f remote ! k = rx_slots s remote ! k" for remote k
    by (rule fold_store_other)
  have bits: "{k. k < 16 \<and> bit (pending_bitfield ?f) k} = {k. k < 16 \<and> (bit (pending_bitfield s) k \<or> k \<in> fst ` set fs)}"
    using fold_store_bits by blast
  have h: "nrf_HandleLine lib now (slot_line lib r fs @ tail) s =
      Go (MaybeProcessCallback (if waiting s then ?f\<lparr>caller_remote := int r\<rparr> else ?f))"
    using HandleLine_slots [OF assms(1-4) _ assms(7)] assms(5) by (simp add: Let_def)
  show ?thesis
    unfolding h Let_def run.inject
    by (rule exI, rule conjI [OF refl]) (use slot other bits nz in \<open>auto simp: MaybeProcessCallback_def fill_slot_data\<close>)
qed

section \<open>Lines that stop the process\<close>

definition bad_field :: "string \<Rightarrow> bool" where
  "bad_field f \<longleftrightarrow>
     (\<exists>num data. f = num @ '':'' @ data \<and> CHR '':'' \<notin> set num \<and>
       (case stoi 10 num of
          None \<Rightarrow> True
        | Some k \<Rightarrow> 0 \<le> k \<and> k \<le> 14 \<and> even (length data) \<and>
            (\<exists>i < length data div 2. stoi 16 [data ! (2 * i), data ! (2 * i + 1)] = None)))"

definition line_fields :: "nrf_library \<Rightarrow> string \<Rightarrow> string list" where
  "line_fields lib line_in =
     (let text = trim line_in
      in if take 5 text = ''rcv2 '' then split_blanks (snd (tokens lib (drop 5 text)))
         else if take 4 text = ''rcv '' then split_blanks (drop 4 text) else [])"

lemma parse_pairs_Abort:
  "parse_pairs s = Abort \<longleftrightarrow> (\<exists>i < length s div 2. stoi 16 [s ! (2 * i), s ! (2 * i + 1)] = None)"
proof (induction s rule: parse_pairs.induct)
  case (1 a b cs)
  have "(\<exists>i < Suc n. P i) \<longleftrightarrow> P 0 \<or> (\<exists>i < n. P (Suc i))" for P :: "nat \<Rightarrow> bool" and n
    by (metis Suc_less_eq gr0_implies_Suc not_gr_zero zero_less_Suc)
  note step = this [of "length cs div 2" "\<lambda>i. stoi 16 [(a # b # cs) ! (2 * i), (a # b # cs) ! (2 * i + 1)] = None"]
  have "rbind (parse_pairs cs) (\<lambda>ds. Go (x # ds)) = Abort \<longleftrightarrow> parse_pairs cs = Abort" for x
    by (cases "parse_pairs cs") auto
  then show ?case using step 1 by (auto split: option.splits)
qed auto

lemma ParseHexData_cases:
  "ParseHexData s = Abort \<longleftrightarrow> even (length s) \<and> (\<exists>i < length s div 2. stoi 16 [s ! (2 * i), s ! (2 * i + 1)] = None)"
  "ParseHexData s \<noteq> Spin"
proof -
  have "parse_pairs s \<noteq> Spin" for s
    by (induction s rule: parse_pairs.induct) (auto simp: rbind_Spin split: option.splits)
  then show "ParseHexData s \<noteq> Spin" by (auto simp: ParseHexData_def rbind_Spin)
  show "ParseHexData s = Abort \<longleftrightarrow> even (length s) \<and> (\<exists>i < length s div 2. stoi 16 [s ! (2 * i), s ! (2 * i + 1)] = None)"
    unfolding parse_pairs_Abort [symmetric] by (cases "parse_pairs s") (auto simp: ParseHexData_def)
qed

lemma first_colon: "CHR '':'' \<in> set f \<Longrightarrow> f = takeWhile (\<lambda>c. c \<noteq> CHR '':'') f @ '':'' @
    drop (length (takeWhile (\<lambda>c. c \<noteq> CHR '':'') f) + 1) f"
  by (induction f) auto

lemma HandleField_Abort: "HandleField now r f s = Abort \<longleftrightarrow> bad_field f" "HandleField now r f s \<noteq> Spin"
proof -
  let ?n = "takeWhile (\<lambda>c. c \<noteq> CHR '':'') f" and ?d = "drop (length (takeWhile (\<lambda>c. c \<noteq> CHR '':'') f) + 1) f"
  have u: "num = ?n \<and> data = ?d" if "f = num @ '':'' @ data" "CHR '':'' \<notin> set num" for num data
    using that by (simp add: takeWhile_append)
  have b: "bad_field f \<longleftrightarrow> CHR '':'' \<in> set f \<and> (case stoi 10 ?n of None \<Rightarrow> True
        | Some k \<Rightarrow> 0 \<le> k \<and> k \<le> 14 \<and> ParseHexData ?d = Abort)"
  proof
    assume "bad_field f"
    then obtain num data where f: "f = num @ '':'' @ data" "CHR '':'' \<notin> set num"
      and c: "case stoi 10 num of None \<Rightarrow> True | Some k \<Rightarrow> 0 \<le> k \<and> k \<le> 14 \<and> ParseHexData data = Abort"
      unfolding bad_field_def ParseHexData_cases by blast
    then show "CHR '':'' \<in> set f \<and> (case stoi 10 ?n of None \<Rightarrow> True | Some k \<Rightarrow> 0 \<le> k \<and> k \<le> 14 \<and> ParseHexData ?d = Abort)"
      using u [OF f] in_set_conv_decomp f(1) by (metis append_Cons append_Nil)
  next
    assume a: "CHR '':'' \<in> set f \<and> (case stoi 10 ?n of None \<Rightarrow> True | Some k \<Rightarrow> 0 \<le> k \<and> k \<le> 14 \<and> ParseHexData ?d = Abort)"
    have "CHR '':'' \<notin> set ?n" by (auto dest: set_takeWhileD)
    then show "bad_field f" unfolding bad_field_def using a first_colon [of f]
      by - (rule exI [of _ ?n], rule exI [of _ ?d], simp only: ParseHexData_cases, blast)
  qed
  show "HandleField now r f s = Abort \<longleftrightarrow> bad_field f"
    unfolding b HandleField_def Let_def by (cases "ParseHexData ?d") (auto split: option.splits)
  show "HandleField now r f s \<noteq> Spin"
    using ParseHexData_cases(2) [of ?d] by (auto simp: HandleField_def Let_def rbind_Spin split: option.splits)
qed

lemma handle_fields_Abort: "handle_fields now r fs s = Abort \<longleftrightarrow> (\<exists>f \<in> set fs. bad_field f)"
proof (induction fs arbitrary: s)
  case (Cons f fs)
  show ?case
    using Cons HandleField_Abort [of now r f s] by (cases "HandleField now r f s") auto
qed simp

text \<open>A line of the device stops the process if and only if one of its fields has a slot number that
  \<open>stoi\<close> refuses, or names one of the slots and has an even number of characters with a pair that \<open>stoi\<close> refuses.\<close>

theorem line_aborts_iff:
  "nrf_HandleLine lib now line_in s = Abort \<longleftrightarrow> (\<exists>f \<in> set (line_fields lib line_in). bad_field f)"
proof -
  have r: "HandleReceive now r l s = Abort \<longleftrightarrow> (\<exists>f \<in> set (split_blanks l). bad_field f)" for r l
    unfolding HandleReceive_def handle_fields_Abort [symmetric, where now = now and r = r and s = s]
    by (cases "handle_fields now r (split_blanks l) s") auto
  then have r2: "HandleReceive2 lib now l s = Abort \<longleftrightarrow> (\<exists>f \<in> set (split_blanks (snd (tokens lib l))). bad_field f)" for l
    by (simp add: HandleReceive2_def Let_def split: prod.splits)
  show ?thesis
    unfolding nrf_HandleLine_def line_fields_def Let_def using r r2 by auto
qed

section \<open>A radio on the bench\<close>

definition bench_nrf :: nrf_library where
  "bench_nrf =
     \<lparr>hex02 = (\<lambda>v. [lower_digit (drop_bit 4 (v AND 0xF0)), lower_digit (v AND 0x0F)]), hex08 = (\<lambda>_. ''00000000''),
      dec = (\<lambda>k. [''0'', ''1'', ''2'', ''3'', ''4'', ''5'', ''6'', ''7'', ''8'', ''9'', ''10'', ''11'', ''12'', ''13'', ''14''] ! nat k),
      tokens = (\<lambda>s. (s, drop 1 (dropWhile (\<lambda>c. c \<noteq> CHR '' '') s)))\<rparr>"

lemma bench_dec: "0 \<le> k \<Longrightarrow> k < 15 \<Longrightarrow> stoi 10 (dec bench_nrf k) = Some k \<and> CHR '':'' \<notin> set (dec bench_nrf k) \<and>
    \<not> list_ex is_space (dec bench_nrf k)"
proof -
  assume "0 \<le> k" "k < 15"
  then have "k \<in> {0, 1, 2, 3, 4, 5, 6, 7, 8, 9, 10, 11, 12, 13, 14}" by (simp, presburger)
  then show ?thesis
    by (elim insertE emptyE) (simp_all add: bench_nrf_def stoi_def strtol_def skip_ws_def is_space_def scan_sign_def digit_in_def
        hex_digit_def ord_def lower_digit_def chr_def)
qed

lemma bench_nrf_ok: "formats bench_nrf" "tokenizes bench_nrf"
proof -
  show "formats bench_nrf" unfolding formats_def using bench_dec by (simp add: bench_nrf_def)
  have "dropWhile (\<lambda>c. c \<noteq> CHR '' '') (w @ CHR '' '' # rest) = CHR '' '' # rest" if "CHR '' '' \<notin> set w" for w rest
    using that by (induction w) auto
  then show "tokenizes bench_nrf" by (simp add: tokenizes_def bench_nrf_def)
qed

theorem slots_delivered_witness:
  "\<exists>s'. nrf_HandleLine bench_nrf 3 (slot_line bench_nrf 0 [(0, [3]), (2, [1, 255])] @ [CHR 0x0D]) (nrf_start bench_nrf 5678 88754) = Go s' \<and>
     take (sl_size (rx_slots s' 0 ! 2)) (sl_data (rx_slots s' 0 ! 2)) = [1, 255] \<and> {k. k < 16 \<and> bit (pending_bitfield s') k} = {0, 2}"
proof -
  have t: "slots_typed (rx_slots (nrf_start bench_nrf 5678 88754))"
    by (auto simp: nrf_start_def nrf_Write_def MaybeStartWrite_def slots_typed_def slot_default_def)
  have w: "\<not> waiting (nrf_start bench_nrf 5678 88754)" "pending_bitfield (nrf_start bench_nrf 5678 88754) = 0"
    by (simp_all add: nrf_start_def nrf_Write_def MaybeStartWrite_def)
  have c: "\<forall>c \<in> set [CHR 0x0D]. is_space c" by (simp add: is_space_def)
  let ?fs = "[(0, [3]), (2, [1, 255])] :: (nat \<times> u8 list) list"
  have f: "?fs \<noteq> []" "\<forall>f \<in> set ?fs. fst f < 15 \<and> length (snd f) \<le> 16" "distinct (map fst ?fs)" "(0 :: nat) < 10" by simp_all
  from slots_delivered [OF bench_nrf_ok f(4,1,2,3) c t, of 3]
  obtain s' where s: "nrf_HandleLine bench_nrf 3 (slot_line bench_nrf 0 ?fs @ [CHR 0x0D]) (nrf_start bench_nrf 5678 88754) = Go s'"
    "\<forall>(k, d) \<in> set ?fs. let slot = rx_slots s' (int 0) ! k in take (sl_size slot) (sl_data slot) = d \<and> sl_timestamp slot = Some 3"
    "{k. k < 16 \<and> bit (pending_bitfield s') k} = {k. k < 16 \<and> (bit (0 :: u16) k \<or> k \<in> fst ` set ?fs)}"
    unfolding Let_def w(2) using w(1) by auto
  have "{k. k < 16 \<and> bit (pending_bitfield s') k} = {0, 2}" unfolding s(3) by auto
  moreover have "take (sl_size (rx_slots s' 0 ! 2)) (sl_data (rx_slots s' 0 ! 2)) = [1, 255]" using s(2) by (simp add: Let_def)
  ultimately show ?thesis using s(1) by blast
qed

end
