(* ===== verification/RfProps.thy ===== *)
theory RfProps
  imports RfControl NrfProps
begin

unbundle bit_operations_syntax

text \<open>
  The radio control of the quadruped: the slots keep their types, the handler never finds the radio busy, a slot of
  sixteen bytes overruns the copy of it, only allowed commands reach the robot, and the telemetry reads back as the
  state of the robot within the range of its integers.
\<close>

section \<open>The radio\<close>

definition nrf_ok :: "nrf \<Rightarrow> bool" where
  "nrf_ok s \<longleftrightarrow> slots_typed (rx_slots s) \<and> slots_typed (tx_slots s) \<and> (\<forall>k \<ge> 15. \<not> bit (pending_bitfield s) k) \<and>
     (\<forall>k \<ge> 15. \<not> bit (caller_bitfield s) k) \<and> in_write s \<le> length (write_streambuf s) \<and>
     (write_outstanding s \<or> write_streambuf s = []) \<and> (waiting s \<longrightarrow> pending_bitfield s = 0) \<and>
     (waiting s \<longleftrightarrow> posted s = 0) \<and> posted s \<le> 1"

text \<open>What holds while a handler runs: nobody waits, and no callback is posted.\<close>

definition nrf_between :: "nrf \<Rightarrow> bool" where
  "nrf_between s \<longleftrightarrow> slots_typed (rx_slots s) \<and> slots_typed (tx_slots s) \<and> (\<forall>k \<ge> 15. \<not> bit (pending_bitfield s) k) \<and>
     (\<forall>k \<ge> 15. \<not> bit (caller_bitfield s) k) \<and> in_write s \<le> length (write_streambuf s) \<and>
     (write_outstanding s \<or> write_streambuf s = []) \<and> \<not> waiting s \<and> posted s = 0"

lemma AsyncWaitForSlot_between: "nrf_between s \<Longrightarrow> \<exists>s'. AsyncWaitForSlot s = Go s' \<and> nrf_ok s'"
  by (auto simp: AsyncWaitForSlot_def nrf_between_def nrf_ok_def MaybeProcessCallback_def)

lemma nrf_Write_frame [simp]:
  "rx_slots (nrf_Write t s) = rx_slots s" "tx_slots (nrf_Write t s) = tx_slots s" "waiting (nrf_Write t s) = waiting s"
  "posted (nrf_Write t s) = posted s" "pending_bitfield (nrf_Write t s) = pending_bitfield s"
  "caller_bitfield (nrf_Write t s) = caller_bitfield s" "caller_remote (nrf_Write t s) = caller_remote s"
  "write_streambuf (nrf_Write t s) = write_streambuf s @ t"
  by (simp_all add: nrf_Write_def MaybeStartWrite_def)

lemma nrf_between_write: "nrf_between s \<Longrightarrow> nrf_between (nrf_Write t s)"
  by (auto simp: nrf_between_def nrf_Write_def MaybeStartWrite_def)

lemma tx_slot_between:
  assumes "nrf_between s" "0 \<le> i" "i < 15" "length (sl_data slot) = 16" "sl_size slot \<le> 16"
  shows "\<exists>s'. tx_slot lib r i slot s = Go s' \<and> nrf_between s' \<and> caller_bitfield s' = caller_bitfield s \<and>
    rx_slots s' = rx_slots s \<and> tx_slots s' = (tx_slots s)(r := (tx_slots s r)[nat i := slot])"
proof -
  have "slots_typed (tx_slots s)" using assms(1) by (simp add: nrf_between_def)
  then have "nrf_between (s\<lparr>tx_slots := (tx_slots s)(r := (tx_slots s r)[nat i := slot])\<rparr>)"
    using assms(1) slots_typed_update [OF _ assms(4,5)] by (simp add: nrf_between_def)
  then show ?thesis using assms(2-5) nrf_between_write by (simp add: tx_slot_def)
qed

lemma nrf_start_between: "nrf_between (nrf_start lib i j)"
  unfolding nrf_start_def by (rule nrf_between_write) (simp add: nrf_between_def slots_typed_def slot_default_def)

lemma HandleWrite_ok: "nrf_ok s \<Longrightarrow> write_outstanding s \<Longrightarrow> nrf_ok (fst (HandleWrite s))"
  by (auto simp: HandleWrite_def MaybeStartWrite_def nrf_ok_def)

text \<open>The text goes out in the order in which it was written, and none of it is lost or repeated.\<close>

lemma write_order:
  "snd (HandleWrite s) @ write_streambuf (fst (HandleWrite s)) = write_streambuf s"
  by (simp add: HandleWrite_def MaybeStartWrite_def)

section \<open>Lines\<close>

text \<open>While the fields of a line are stored.\<close>

definition nrf_storing :: "nrf \<Rightarrow> bool" where
  "nrf_storing s \<longleftrightarrow> slots_typed (rx_slots s) \<and> slots_typed (tx_slots s) \<and> (\<forall>k \<ge> 15. \<not> bit (pending_bitfield s) k) \<and>
     (\<forall>k \<ge> 15. \<not> bit (caller_bitfield s) k) \<and> in_write s \<le> length (write_streambuf s) \<and>
     (write_outstanding s \<or> write_streambuf s = []) \<and> (waiting s \<longleftrightarrow> posted s = 0) \<and> posted s \<le> 1"

lemma HandleField_storing:
  assumes "nrf_storing s" "HandleField now r f s = Go s'"
  shows "nrf_storing s'"
proof -
  have "slots_typed ((rx_slots s)(r := (rx_slots s r)[k := fill_slot now d (rx_slots s r ! k)]))" if "k < 15" for k d
    using assms(1) slots_typedD [of "rx_slots s"] that by (intro slots_typed_update) (auto simp: nrf_storing_def fill_slot_typed)
  moreover have "\<not> bit (pending_bitfield s OR push_bit k 1) j" if "k < 15" "15 \<le> j" for k j
    using assms(1) that by (auto simp: nrf_storing_def bit_simps)
  moreover have "nat k < 15" if "\<not> (k < 0 \<or> k > 14)" for k :: int using that by linarith
  ultimately show ?thesis
    using assms by (auto simp: HandleField_def Let_def rbind_Go nrf_storing_def split: option.splits if_splits)
qed

lemma handle_fields_storing: "nrf_storing s \<Longrightarrow> handle_fields now r fs s = Go s' \<Longrightarrow> nrf_storing s'"
  by (induction fs arbitrary: s) (auto simp: rbind_Go dest: HandleField_storing)

lemma HandleReceive_ok:
  assumes "nrf_ok s" "HandleReceive now r l s = Go s'"
  shows "nrf_ok s'"
proof -
  have "nrf_storing s" using assms(1) by (simp add: nrf_ok_def nrf_storing_def)
  then obtain t where "nrf_storing t" "s' = MaybeProcessCallback (if waiting t then t\<lparr>caller_remote := r\<rparr> else t)"
    using assms(2) unfolding HandleReceive_def rbind_Go run.inject by (metis handle_fields_storing)
  then show ?thesis by (auto simp: nrf_storing_def nrf_ok_def MaybeProcessCallback_def)
qed

lemma nrf_HandleLine_ok: "nrf_ok s \<Longrightarrow> nrf_HandleLine lib now l s = Go s' \<Longrightarrow> nrf_ok s'"
  by (auto simp: nrf_HandleLine_def HandleReceive2_def Let_def HandleReceive_ok split: if_splits prod.splits)

section \<open>Slots to send\<close>

text \<open>The stream of mjlib writes integers with the lowest byte first.\<close>

definition little :: "'p rf_library \<Rightarrow> bool" where
  "little lib \<longleftrightarrow> (\<forall>n x. little_endian lib n x = map (\<lambda>i. word_of_int (x div 256 ^ i)) [0..<n])"

lemma little_length: "little lib \<Longrightarrow> length (little_endian lib n x) = n"
  by (simp add: little_def)

lemma tx_of_fields [simp]:
  "sl_size (tx_of p bytes) = length bytes" "length bytes \<le> 16 \<Longrightarrow> length (sl_data (tx_of p bytes)) = 16"
  "take (length bytes) (sl_data (tx_of p bytes)) = bytes" "sl_priority (tx_of p bytes) = p"
  by (simp_all add: tx_of_def slot_default_def)

definition joints_readable :: "('g, 'p) quad \<Rightarrow> bool" where
  "joints_readable quad \<longleftrightarrow> (\<forall>j \<in> set (joints quad). sj_voltage j \<noteq> NaN \<and> sj_temperature_C j \<noteq> NaN)"

lemma min_element_in: "min_element lt x xs \<in> set (x # xs)"
  by (induction xs arbitrary: x) (auto simp del: list.set, force+)

lemma max_element_in: "max_element lt x xs \<in> set (x # xs)"
  by (induction xs arbitrary: x) (auto simp del: list.set, force+)

lemma vmin_in: "vmin lt f d xs \<in> insert d (f ` set xs)" and vmax_in: "vmax lt f d xs \<in> insert d (f ` set xs)"
  using min_element_in [of lt "hd (map f xs)" "tl (map f xs)"] max_element_in [of lt "hd (map f xs)" "tl (map f xs)"]
  by (cases xs; simp add: vmin_def vmax_def)+

lemma dscale_NaN: "k \<noteq> 0 \<Longrightarrow> dscale k d = NaN \<longleftrightarrow> d = NaN"
  by (cases d) auto

lemma Saturate_Go: "v \<noteq> NaN \<Longrightarrow> \<exists>i. Saturate lo hi v = Go i"
  by (cases v) (auto simp: Saturate_def)

lemma Saturate_not_Spin: "Saturate lo hi v \<noteq> Spin"
  by (simp add: Saturate_def split: double.splits)

lemma tx_joints_Go:
  assumes "joints_readable quad" "little lib"
  shows "\<exists>slot. tx_joints lib quad = Go slot \<and> length (sl_data slot) = 16 \<and> sl_size slot \<le> 15"
proof -
  have "vmin dless sj_voltage (Fin 0) (joints quad) \<noteq> NaN" "vmax dless sj_voltage (Fin 0) (joints quad) \<noteq> NaN"
    "vmin dless sj_temperature_C (Fin 0) (joints quad) \<noteq> NaN" "vmax dless sj_temperature_C (Fin 0) (joints quad) \<noteq> NaN"
    using assms(1) vmin_in [of dless _ "Fin 0" "joints quad"] vmax_in [of dless _ "Fin 0" "joints quad"]
    unfolding joints_readable_def by (metis (no_types, lifting) double.distinct(5) image_iff insert_iff)+
  then obtain a b c d where
    "Saturate (- (2 ^ 7)) (2 ^ 7 - 1) (dscale kVoltageScale (vmin dless sj_voltage (Fin 0) (joints quad))) = Go a"
    "Saturate (- (2 ^ 7)) (2 ^ 7 - 1) (dscale kVoltageScale (vmax dless sj_voltage (Fin 0) (joints quad))) = Go b"
    "Saturate (- (2 ^ 7)) (2 ^ 7 - 1) (vmin dless sj_temperature_C (Fin 0) (joints quad)) = Go c"
    "Saturate (- (2 ^ 7)) (2 ^ 7 - 1) (vmax dless sj_temperature_C (Fin 0) (joints quad)) = Go d"
    using Saturate_Go dscale_NaN [of kVoltageScale] unfolding kVoltageScale_def by (metis zero_neq_numeral)
  then show ?thesis using little_length [OF assms(2)] by (simp add: tx_joints_def Let_def)
qed

lemma tx_joints_Go_typed:
  assumes "little lib" "tx_joints lib quad = Go slot"
  shows "length (sl_data slot) = 16" "sl_size slot \<le> 15"
  using assms little_length [OF assms(1)] by (auto simp: tx_joints_def Let_def rbind_Go)

lemma tx_joints_not_Spin: "tx_joints lib quad \<noteq> Spin"
  by (auto simp: tx_joints_def Let_def rbind_Spin Saturate_not_Spin)

lemma tx_velocity_Go:
  assumes "little lib"
  shows "\<exists>slot. tx_velocity lib quad = Go slot \<and> length (sl_data slot) = 16 \<and> sl_size slot \<le> 15"
  using little_length [OF assms] by (simp add: tx_velocity_def Saturate_def)

lemma tx_mode_typed: "length (sl_data (tx_mode rc quad)) = 16" "sl_size (tx_mode rc quad) \<le> 15"
  by (simp_all add: tx_mode_def)

lemma tx_fault_typed: "length (sl_data (tx_fault lib quad)) = 16" "sl_size (tx_fault lib quad) \<le> 15"
  by (simp_all add: tx_fault_def min.coboundedI2)

section \<open>The handler\<close>

definition rx_typed :: "rf_rx list \<Rightarrow> bool" where
  "rx_typed rxs \<longleftrightarrow> length rxs = 15 \<and> (\<forall>rx \<in> set rxs. length (rr_data rx) = 15 \<and> rr_size rx \<le> 15)"

lemma rx_typed_update: "rx_typed rxs \<Longrightarrow> length (rr_data rx) = 15 \<Longrightarrow> rr_size rx \<le> 15 \<Longrightarrow> rx_typed (rxs[i := rx])"
  by (auto simp: rx_typed_def dest!: set_update_subset_insert [THEN subsetD])

text \<open>Which slots the loop copies, and when it fails.\<close>

lemma copy_slots_Go:
  assumes "copy_slots dev is rxs = Go rxs'" "distinct is" "slots_typed (rx_slots dev)" "rx_typed rxs"
  shows "rx_typed rxs' \<and> (\<forall>k. k < 15 \<longrightarrow>
    (if k \<in> set is \<and> bit (caller_bitfield dev) k then copy_slot (rx_slots dev 0 ! k) = Go (rxs' ! k) else rxs' ! k = rxs ! k))"
  using assms
proof (induction "is" arbitrary: rxs)
  case (Cons i "is")
  show ?case
  proof (cases "bit (caller_bitfield dev) i")
    case False
    then show ?thesis using Cons by auto
  next
    case True
    with Cons.prems(1) obtain rx where rx: "i < 15" "copy_slot (rx_slots dev 0 ! i) = Go rx" "copy_slots dev is (rxs[i := rx]) = Go rxs'"
      by (auto simp: rbind_Go rx_slot_def kOnlyRemote_def split: if_splits)
    have "length (rr_data rx) = 15 \<and> rr_size rx \<le> 15"
      using rx(2) slots_typedD(2) [OF Cons.prems(3) rx(1), of 0] by (auto simp: copy_slot_def split: if_splits)
    then have t: "rx_typed (rxs[i := rx])" using Cons.prems(4) rx_typed_update by blast
    have "length rxs = 15" using Cons.prems(4) by (simp add: rx_typed_def)
    then show ?thesis
      using Cons.IH [OF rx(3) _ Cons.prems(3) t] Cons.prems(2) rx(1,2) True by (auto simp: nth_list_update)
  qed
qed auto

lemma copy_slots_Abort:
  assumes "slots_typed (rx_slots dev)"
  shows "\<forall>i \<in> set is. i < 15 \<Longrightarrow> (copy_slots dev is rxs = Abort \<longleftrightarrow>
      (\<exists>i \<in> set is. bit (caller_bitfield dev) i \<and> sl_size (rx_slots dev 0 ! i) = 16)) \<and> copy_slots dev is rxs \<noteq> Spin"
proof (induction "is" arbitrary: rxs)
  case (Cons i "is")
  then have s: "sl_size (rx_slots dev 0 ! i) \<le> 16" using slots_typedD(2) [OF assms] by simp
  show ?case using Cons s by (auto simp: rx_slot_def kOnlyRemote_def copy_slot_def)
qed auto

lemma Command_frame [simp]: "joints (Command cfg now c q) = joints q" "q_mode (Command cfg now c q) = q_mode q"
  by (simp_all add: Command_def Let_def)

lemma SendCommand_frame [simp]: "joints (SendCommand lib cfg now rc q) = joints q" "q_mode (SendCommand lib cfg now rc q) = q_mode q"
  by (simp_all add: SendCommand_def)

text \<open>The report: which slots it sets.\<close>

definition reported :: "'p rf_library \<Rightarrow> ('g, 'p) quad \<Rightarrow> rf_control \<Rightarrow> rf_slot list \<Rightarrow> rf_slot list \<Rightarrow> bool" where
  "reported lib quad rc before after \<longleftrightarrow>
     (\<exists>slot1 slot8. tx_velocity lib quad = Go slot1 \<and> tx_joints lib quad = Go slot8 \<and>
        after = before[0 := tx_mode rc quad, 1 := slot1, 8 := slot8, 14 := tx_fault lib quad])"

lemma ReportTelemetry_between:
  assumes "nrf_between dev" "little lib"
  shows "ReportTelemetry nlib lib now quad (rc, dev) = Abort \<longleftrightarrow> report_due now rc \<and> tx_joints lib quad = Abort"
    "ReportTelemetry nlib lib now quad (rc, dev) \<noteq> Spin"
    "ReportTelemetry nlib lib now quad (rc, dev) = Go (rc', dev') \<Longrightarrow>
      nrf_between dev' \<and> rx_slots dev' = rx_slots dev \<and> slot_rx rc' = slot_rx rc \<and> receive_times rc' = receive_times rc \<and>
      (if report_due now rc then reported lib quad rc' (tx_slots dev 0) (tx_slots dev' 0) else tx_slots dev' = tx_slots dev)"
proof -
  let ?rc = "rc\<lparr>last_telemetry := Some now\<rparr>"
  obtain r1 where r1: "tx_slot nlib kOnlyRemote 0 (tx_mode ?rc quad) dev = Go r1" "nrf_between r1"
    "rx_slots r1 = rx_slots dev" "tx_slots r1 0 = (tx_slots dev 0)[0 := tx_mode ?rc quad]"
    using tx_slot_between [OF assms(1), of 0 "tx_mode ?rc quad" nlib kOnlyRemote] tx_mode_typed [of ?rc quad] by (auto simp: kOnlyRemote_def)
  obtain s1 where s1: "tx_velocity lib quad = Go s1" "length (sl_data s1) = 16" "sl_size s1 \<le> 15"
    using tx_velocity_Go [OF assms(2)] by blast
  obtain r2 where r2: "tx_slot nlib kOnlyRemote 1 s1 r1 = Go r2" "nrf_between r2"
    "rx_slots r2 = rx_slots dev" "tx_slots r2 0 = (tx_slots dev 0)[0 := tx_mode ?rc quad, 1 := s1]"
    using tx_slot_between [OF r1(2), of 1 s1 nlib kOnlyRemote] s1 r1 by (auto simp: kOnlyRemote_def)
  have r3: "\<exists>r3 r4. tx_slot nlib kOnlyRemote 8 s8 r2 = Go r3 \<and> tx_slot nlib kOnlyRemote 14 (tx_fault lib quad) r3 = Go r4 \<and>
      nrf_between r4 \<and> rx_slots r4 = rx_slots dev \<and>
      tx_slots r4 0 = (tx_slots dev 0)[0 := tx_mode ?rc quad, 1 := s1, 8 := s8, 14 := tx_fault lib quad]"
    if "tx_joints lib quad = Go s8" for s8
  proof -
    note t = tx_joints_Go_typed [OF assms(2) that]
    obtain r3 where r3: "tx_slot nlib kOnlyRemote 8 s8 r2 = Go r3" "nrf_between r3"
      "rx_slots r3 = rx_slots dev" "tx_slots r3 0 = (tx_slots dev 0)[0 := tx_mode ?rc quad, 1 := s1, 8 := s8]"
      using tx_slot_between [OF r2(2), of 8 s8 nlib kOnlyRemote] t r2 by (auto simp: kOnlyRemote_def)
    then show ?thesis
      using tx_slot_between [OF r3(2), of 14 "tx_fault lib quad" nlib kOnlyRemote] tx_fault_typed [of lib quad] by (auto simp: kOnlyRemote_def)
  qed
  have report: "ReportTelemetry nlib lib now quad (rc, dev) = (if \<not> report_due now rc then Go (rc, dev)
      else rbind (tx_joints lib quad) (\<lambda>s8. rbind (tx_slot nlib kOnlyRemote 8 s8 r2) (\<lambda>r.
           rbind (tx_slot nlib kOnlyRemote 14 (tx_fault lib quad) r) (\<lambda>r. Go (?rc, r)))))"
    by (simp add: ReportTelemetry_def r1(1) s1(1) r2(1))
  have sent: "\<exists>p. rbind (tx_slot nlib kOnlyRemote 8 s8 r2) (\<lambda>r.
      rbind (tx_slot nlib kOnlyRemote 14 (tx_fault lib quad) r) (\<lambda>r. Go (?rc, r))) = Go p" if "tx_joints lib quad = Go s8" for s8
    using r3 [OF that] by force
  then have c: "ReportTelemetry nlib lib now quad (rc, dev) = Abort \<and> report_due now rc \<and> tx_joints lib quad = Abort \<or>
      (\<exists>p. ReportTelemetry nlib lib now quad (rc, dev) = Go p) \<and> (report_due now rc \<longrightarrow> tx_joints lib quad \<noteq> Abort)"
    unfolding report using tx_joints_not_Spin [of lib quad] by (cases "tx_joints lib quad") simp_all
  show "ReportTelemetry nlib lib now quad (rc, dev) = Abort \<longleftrightarrow> report_due now rc \<and> tx_joints lib quad = Abort"
    using c by auto
  show "ReportTelemetry nlib lib now quad (rc, dev) \<noteq> Spin" using c by auto
  assume g: "ReportTelemetry nlib lib now quad (rc, dev) = Go (rc', dev')"
  show "nrf_between dev' \<and> rx_slots dev' = rx_slots dev \<and> slot_rx rc' = slot_rx rc \<and> receive_times rc' = receive_times rc \<and>
      (if report_due now rc then reported lib quad rc' (tx_slots dev 0) (tx_slots dev' 0) else tx_slots dev' = tx_slots dev)"
  proof (cases "report_due now rc")
    case True
    with g obtain s8 where s8: "tx_joints lib quad = Go s8" unfolding report by (auto simp: rbind_Go)
    from r3 [OF s8] obtain r3 r4 where "tx_slot nlib kOnlyRemote 8 s8 r2 = Go r3" "tx_slot nlib kOnlyRemote 14 (tx_fault lib quad) r3 = Go r4"
      and r: "nrf_between r4" "rx_slots r4 = rx_slots dev"
        "tx_slots r4 0 = (tx_slots dev 0)[0 := tx_mode ?rc quad, 1 := s1, 8 := s8, 14 := tx_fault lib quad]" by blast
    then have "rc' = ?rc" "dev' = r4" using g True s8 unfolding report by auto
    then show ?thesis using r s1(1) s8 True by (simp add: reported_def)
  next
    case False
    then show ?thesis using g assms(1) unfolding report by auto
  qed
qed

lemma HandleSlot_Go:
  assumes "HandleSlot nlib lib cfg now s = Go s'" "nrf_between (radio s)" "rx_typed (slot_rx (rf s))" "little lib"
  shows "nrf_ok (radio s')" "rx_typed (slot_rx (rf s'))"
    "receive_times (rf s') = forget_old now (receive_times (rf s) @ [now])"
    "\<forall>k < 15. if bit (caller_bitfield (radio s)) k then copy_slot (rx_slots (radio s) 0 ! k) = Go (slot_rx (rf s') ! k)
       else slot_rx (rf s') ! k = slot_rx (rf s) ! k"
    "robot s' = (if bit (caller_bitfield (radio s)) 0 then Command cfg now (rf_command lib (slot_rx (rf s'))) (robot s) else robot s)"
    "if report_due now (rf s) then reported lib (robot s') (rf s') (tx_slots (radio s) 0) (tx_slots (radio s') 0)
       else tx_slots (radio s') = tx_slots (radio s)"
proof -
  let ?rc = "(rf s)\<lparr>slot_time := Some now, receive_times := forget_old now (receive_times (rf s) @ [now])\<rparr>"
  from assms(1) obtain rxs rc dev dev' where h: "copy_slots (radio s) [0..<15] (slot_rx (rf s)) = Go rxs"
    "ReportTelemetry nlib lib now (robot s') (?rc\<lparr>slot_rx := rxs\<rparr>, radio s) = Go (rc, dev)" "AsyncWaitForSlot dev = Go dev'"
    "radio s' = dev'" "rf s' = rc"
    "robot s' = (if bit (caller_bitfield (radio s)) 0 then Command cfg now (rf_command lib rxs) (robot s) else robot s)"
    by (auto simp: HandleSlot_def Let_def rbind_Go SendCommand_def split: if_splits)
  have ok: "slots_typed (rx_slots (radio s))" using assms(2) by (simp add: nrf_between_def)
  note c = copy_slots_Go [OF h(1) _ ok assms(3)]
  note r = ReportTelemetry_between(3) [OF assms(2,4) h(2)]
  have rx: "slot_rx (rf s') = rxs" using r h(5) by simp
  show "nrf_ok (radio s')" using AsyncWaitForSlot_between r h(3,4) by fastforce
  show "rx_typed (slot_rx (rf s'))" using c rx by simp
  show "receive_times (rf s') = forget_old now (receive_times (rf s) @ [now])" using r h(5) by simp
  show "\<forall>k < 15. if bit (caller_bitfield (radio s)) k then copy_slot (rx_slots (radio s) 0 ! k) = Go (slot_rx (rf s') ! k)
       else slot_rx (rf s') ! k = slot_rx (rf s) ! k" using c rx by auto
  show "robot s' = (if bit (caller_bitfield (radio s)) 0 then Command cfg now (rf_command lib (slot_rx (rf s'))) (robot s) else robot s)"
    using h(6) rx by simp
  have "tx_slots dev' = tx_slots dev" using h(3) by (auto simp: AsyncWaitForSlot_def MaybeProcessCallback_def split: if_splits)
  then show "if report_due now (rf s) then reported lib (robot s') (rf s') (tx_slots (radio s) 0) (tx_slots (radio s') 0)
       else tx_slots (radio s') = tx_slots (radio s)"
    using r h(4,5) by (simp add: report_due_def)
qed

lemma HandleSlot_Abort:
  assumes "nrf_between (radio s)" "little lib"
  shows "HandleSlot nlib lib cfg now s = Abort \<longleftrightarrow>
      (\<exists>k < 15. bit (caller_bitfield (radio s)) k \<and> sl_size (rx_slots (radio s) 0 ! k) = 16) \<or>
      report_due now (rf s) \<and> tx_joints lib (robot s) = Abort"
    "HandleSlot nlib lib cfg now s \<noteq> Spin"
proof -
  let ?rc = "(rf s)\<lparr>slot_time := Some now, receive_times := forget_old now (receive_times (rf s) @ [now])\<rparr>"
  let ?q = "\<lambda>rxs. if bit (caller_bitfield (radio s)) 0 then SendCommand lib cfg now (?rc\<lparr>slot_rx := rxs\<rparr>) (robot s) else robot s"
  have ok: "slots_typed (rx_slots (radio s))" using assms(1) by (simp add: nrf_between_def)
  note c = copy_slots_Abort [OF ok, of "[0..<15]" "slot_rx (rf s)"]
  have j: "tx_joints lib (?q rxs) = tx_joints lib (robot s)" for rxs by (simp add: tx_joints_def)
  have d: "report_due now (?rc\<lparr>slot_rx := rxs\<rparr>) = report_due now (rf s)" for rxs by (simp add: report_due_def)
  note r = ReportTelemetry_between [OF assms, of nlib now]
  have w: "\<exists>dev'. AsyncWaitForSlot dev = Go dev'" if "nrf_between dev" for dev using AsyncWaitForSlot_between [OF that] by blast
  have rest: "rbind (ReportTelemetry nlib lib now q (rc, radio s)) (\<lambda>(rc, radio).
        rbind (AsyncWaitForSlot radio) (\<lambda>radio. Go \<lparr>radio = radio, rf = rc, robot = q\<rparr>)) = Abort \<longleftrightarrow>
      report_due now rc \<and> tx_joints lib q = Abort"
    "rbind (ReportTelemetry nlib lib now q (rc, radio s)) (\<lambda>(rc, radio).
        rbind (AsyncWaitForSlot radio) (\<lambda>radio. Go \<lparr>radio = radio, rf = rc, robot = q\<rparr>)) \<noteq> Spin" for q rc
  proof -
    show "rbind (ReportTelemetry nlib lib now q (rc, radio s)) (\<lambda>(rc, radio).
        rbind (AsyncWaitForSlot radio) (\<lambda>radio. Go \<lparr>radio = radio, rf = rc, robot = q\<rparr>)) = Abort \<longleftrightarrow>
      report_due now rc \<and> tx_joints lib q = Abort"
      unfolding r(1) [of q rc, symmetric] using r(3) [of q rc] w by (cases "ReportTelemetry nlib lib now q (rc, radio s)") fastforce+
    show "rbind (ReportTelemetry nlib lib now q (rc, radio s)) (\<lambda>(rc, radio).
        rbind (AsyncWaitForSlot radio) (\<lambda>radio. Go \<lparr>radio = radio, rf = rc, robot = q\<rparr>)) \<noteq> Spin"
      using r(2,3) [of q rc] w by (cases "ReportTelemetry nlib lib now q (rc, radio s)") fastforce+
  qed
  show "HandleSlot nlib lib cfg now s = Abort \<longleftrightarrow>
      (\<exists>k < 15. bit (caller_bitfield (radio s)) k \<and> sl_size (rx_slots (radio s) 0 ! k) = 16) \<or>
      report_due now (rf s) \<and> tx_joints lib (robot s) = Abort"
  proof (cases "copy_slots (radio s) [0..<15] (slot_rx (rf s))")
    case (Go rxs)
    have "HandleSlot nlib lib cfg now s = Abort \<longleftrightarrow> report_due now (rf s) \<and> tx_joints lib (robot s) = Abort"
      using rest(1) [of "?q rxs" "?rc\<lparr>slot_rx := rxs\<rparr>"] j [of rxs] d [of rxs] Go by (simp add: HandleSlot_def Let_def)
    then show ?thesis using c Go by auto
  qed (use c in \<open>auto simp: HandleSlot_def Let_def\<close>)
  show "HandleSlot nlib lib cfg now s \<noteq> Spin"
  proof (cases "copy_slots (radio s) [0..<15] (slot_rx (rf s))")
    case (Go rxs)
    then show ?thesis using rest(2) [of "?q rxs" "?rc\<lparr>slot_rx := rxs\<rparr>"] by (simp add: HandleSlot_def Let_def)
  qed (use c in \<open>auto simp: HandleSlot_def Let_def\<close>)
qed

section \<open>Reachable states\<close>

inductive rf_reach :: "nrf_library \<Rightarrow> 'p rf_library \<Rightarrow> config \<Rightarrow> ('g, 'p) rf_system \<Rightarrow> bool"
  for nlib lib cfg where
  start: "rf_AsyncStart nlib i j quad = Go s \<Longrightarrow> rf_reach nlib lib cfg s"
| step: "rf_reach nlib lib cfg s \<Longrightarrow> rf_step nlib lib cfg now e s = Go s' \<Longrightarrow> rf_reach nlib lib cfg s'"

definition posted_taken :: "('g, 'p) rf_system \<Rightarrow> ('g, 'p) rf_system" where
  "posted_taken s = s\<lparr>radio := (radio s)\<lparr>posted := posted (radio s) - 1\<rparr>\<rparr>"

lemma between_taken: "nrf_ok (radio s) \<Longrightarrow> posted (radio s) \<noteq> 0 \<Longrightarrow> nrf_between (radio (posted_taken s))"
  by (auto simp: nrf_ok_def nrf_between_def posted_taken_def)

lemma taken_fields [simp]:
  "rf (posted_taken s) = rf s" "robot (posted_taken s) = robot s" "caller_bitfield (radio (posted_taken s)) = caller_bitfield (radio s)"
  "rx_slots (radio (posted_taken s)) = rx_slots (radio s)" "tx_slots (radio (posted_taken s)) = tx_slots (radio s)"
  by (simp_all add: posted_taken_def)

lemma SlotReady_step:
  "rf_step nlib lib cfg now SlotReady s = (if posted (radio s) = 0 then Go s else HandleSlot nlib lib cfg now (posted_taken s))"
  by (simp add: rf_step_def posted_taken_def)

lemma rf_reach_ok:
  assumes "rf_reach nlib lib cfg s" "little lib"
  shows "nrf_ok (radio s) \<and> rx_typed (slot_rx (rf s))"
  using assms(1)
proof induction
  case (start i j quad s)
  then show ?case
    using AsyncWaitForSlot_between [OF nrf_start_between, of nlib i j]
    by (auto simp: rf_AsyncStart_def rf_control_start_def rx_typed_def rf_rx_default_def)
next
  case (step s now e s')
  show ?case
  proof (cases e)
    case SlotReady
    show ?thesis
    proof (cases "posted (radio s) = 0")
      case False
      then have "HandleSlot nlib lib cfg now (posted_taken s) = Go s'" using step.hyps(2) by (simp add: SlotReady SlotReady_step)
      then show ?thesis using HandleSlot_Go(1,2) [OF _ between_taken] False step.IH assms(2) by fastforce
    qed (use step SlotReady in \<open>simp add: SlotReady_step\<close>)
  qed (use step nrf_HandleLine_ok HandleWrite_ok in \<open>auto simp: rf_step_def rbind_Go split: if_splits\<close>)
qed

text \<open>C32 (type). In every reachable state all slots hold sixteen bytes with a size within them, the copies of the
  received slots hold fifteen, only the fifteen slots are marked, and either the radio control waits for slots or exactly
  one call of its handler is posted.\<close>

theorem rf_reach_typed:
  assumes "rf_reach nlib lib cfg s" "little lib"
  shows "slots_typed (rx_slots (radio s)) \<and> slots_typed (tx_slots (radio s)) \<and> rx_typed (slot_rx (rf s)) \<and>
    (\<forall>k \<ge> 15. \<not> bit (pending_bitfield (radio s)) k \<and> \<not> bit (caller_bitfield (radio s)) k) \<and>
    (if waiting (radio s) then posted (radio s) = 0 \<and> pending_bitfield (radio s) = 0 else posted (radio s) = 1)"
  using rf_reach_ok [OF assms] by (auto simp: nrf_ok_def)

text \<open>C11 (safety). The handler of received slots returns, unless a slot that it was told of holds sixteen bytes, one more
  than its copy has room for; the voltages and temperatures of the servos have to be numbers where they are reported.\<close>

theorem rf_handler_overrun_iff:
  assumes "rf_reach nlib lib cfg s" "little lib" "posted (radio s) \<noteq> 0" "joints_readable (robot s)"
  shows "(\<exists>s'. rf_step nlib lib cfg now SlotReady s = Go s') \<longleftrightarrow>
    \<not> (\<exists>k < 15. bit (caller_bitfield (radio s)) k \<and> sl_size (rx_slots (radio s) 0 ! k) = 16)"
proof -
  have b: "nrf_between (radio (posted_taken s))" using between_taken rf_reach_ok [OF assms(1,2)] assms(3) by blast
  have "tx_joints lib (robot s) \<noteq> Abort" using tx_joints_Go [OF assms(4,2)] by auto
  then show ?thesis
    using HandleSlot_Abort [OF b assms(2), of nlib cfg now] assms(3)
    by (cases "HandleSlot nlib lib cfg now (posted_taken s)") (auto simp: SlotReady_step)
qed

lemma read_int16_bounds: "- 32768 \<le> read_int16 rxs i j" "read_int16 rxs i j \<le> 32767"
  using sint_ge [of "read_uint16 rxs i j"] sint_lt [of "read_uint16 rxs i j"] by (simp_all add: read_int16_def)

lemma rf_mode_cases: "rf_mode c \<in> {kStopped, kZeroVelocity, kRest, kJump, kWalk}"
  by (simp add: rf_mode_def)

lemma change_mode_known: "cmd_mode (current_command q) \<notin> {kConfiguring, kFault, kNumModes} \<Longrightarrow> change_mode geo now q \<noteq> Abort"
  by (auto simp: change_mode_def Let_def)

text \<open>The commands that slots can give.\<close>

definition rf_allowed :: "'p command \<Rightarrow> bool" where
  "rf_allowed c \<longleftrightarrow> priority c = 99 \<and> cmd_mode c \<in> {kStopped, kZeroVelocity, kRest, kJump, kWalk} \<and>
     \<bar>vx (v_R c)\<bar> \<le> 32768 \<and> \<bar>vy (v_R c)\<bar> \<le> 32768 \<and> vz (v_R c) = 0 \<and>
     vx (w_R c) = 0 \<and> vy (w_R c) = 0 \<and> \<bar>vz (w_R c)\<bar> \<le> 2 * pi * 32768 / 32767"

text \<open>The slots a command is made of: those of the one remote that were marked, and of the others what they held.\<close>

definition rf_copied :: "nrf \<Rightarrow> rf_rx list \<Rightarrow> rf_rx list \<Rightarrow> bool" where
  "rf_copied dev old new \<longleftrightarrow>
     (\<forall>k < 15. if bit (caller_bitfield dev) k
        then (let slot = rx_slots dev 0 ! k
              in rr_size (new ! k) = sl_size slot \<and> rr_timestamp (new ! k) = sl_timestamp slot \<and>
                rr_data (new ! k) = take (sl_size slot) (sl_data slot) @ replicate (15 - sl_size slot) 0)
        else new ! k = old ! k)"

lemma rf_copied_slots:
  assumes "\<forall>k < 15. if bit (caller_bitfield dev) k then copy_slot (rx_slots dev 0 ! k) = Go (new ! k) else new ! k = old ! k"
  shows "rf_copied dev old new"
  unfolding rf_copied_def
proof (intro allI impI)
  fix k :: nat assume k: "k < 15"
  show "if bit (caller_bitfield dev) k
        then (let slot = rx_slots dev 0 ! k
              in rr_size (new ! k) = sl_size slot \<and> rr_timestamp (new ! k) = sl_timestamp slot \<and>
                rr_data (new ! k) = take (sl_size slot) (sl_data slot) @ replicate (15 - sl_size slot) 0)
        else new ! k = old ! k"
  proof (cases "bit (caller_bitfield dev) k")
    case True
    with assms k have "copy_slot (rx_slots dev 0 ! k) = Go (new ! k)" by simp
    then have "new ! k = \<lparr>rr_timestamp = sl_timestamp (rx_slots dev 0 ! k), rr_size = sl_size (rx_slots dev 0 ! k),
      rr_data = take (sl_size (rx_slots dev 0 ! k)) (sl_data (rx_slots dev 0 ! k)) @ replicate (15 - sl_size (rx_slots dev 0 ! k)) 0\<rparr>"
      by (simp add: copy_slot_def split: if_splits)
    then show ?thesis using True by (simp add: Let_def)
  qed (use assms k in simp)
qed

lemma rf_command_allowed: "rf_allowed (rf_command lib rxs)"
proof -
  have r: "\<bar>of_int (read_int16 rxs i j) :: real\<bar> \<le> 32768" for i j
    using read_int16_bounds [of rxs i j] by linarith
  have "\<bar>2 * pi * of_int (read_int16 rxs i j) / 32767\<bar> \<le> 2 * pi * 32768 / 32767" for i j
    using mult_left_mono [OF r, of "2 * pi" i j] by (simp add: abs_mult)
  then show ?thesis
    using r rf_mode_cases [of "rf_byte rxs 0 0"] by (simp add: rf_allowed_def rf_command_def Let_def)
qed

lemma rf_command_accepted:
  "current_command q = rf_command lib rxs \<Longrightarrow> change_mode geo t q \<noteq> Abort"
  by (rule change_mode_known) (simp add: rf_command_def rf_mode_def Let_def)


section \<open>Telemetry\<close>

text \<open>A reader of the slots: integers with the lowest byte first.\<close>

definition int16_at :: "rf_slot \<Rightarrow> nat \<Rightarrow> int" where
  "int16_at slot pos = sint (word_cat (sl_data slot ! (pos + 1)) (sl_data slot ! pos) :: u16)"

definition int8_at :: "rf_slot \<Rightarrow> nat \<Rightarrow> int" where
  "int8_at slot pos = sint (sl_data slot ! pos)"

definition clamp :: "int \<Rightarrow> int \<Rightarrow> int \<Rightarrow> int" where
  "clamp lo hi x = max lo (min hi x)"

lemma Saturate_clamp:
  assumes "lo \<le> 0" "0 \<le> hi"
  shows "Saturate lo hi (Fin x) = Go (clamp lo hi (trunc x))"
proof -
  have "x \<ge> of_int hi \<Longrightarrow> trunc x \<ge> hi" using assms(2) by (auto simp: trunc_def le_floor_iff of_int_le_0_iff)
  moreover have "x \<le> of_int lo \<Longrightarrow> trunc x \<le> lo" using assms(1) by (auto simp: trunc_def ceiling_le_iff floor_le_iff)
  moreover have "\<not> x \<ge> of_int hi \<Longrightarrow> trunc x \<le> hi" using assms(2) by (auto simp: trunc_def floor_le_iff ceiling_le_iff)
  moreover have "\<not> x \<le> of_int lo \<Longrightarrow> trunc x \<ge> lo" using assms(1) by (auto simp: trunc_def le_floor_iff le_ceiling_iff)
  moreover have "lo \<le> hi" using assms by linarith
  ultimately show ?thesis by (auto simp: Saturate_def clamp_def max_def min_def)
qed

lemma Saturate_range: "lo \<le> hi \<Longrightarrow> Saturate lo hi v = Go i \<Longrightarrow> lo \<le> i \<and> i \<le> hi"
  unfolding Saturate_def by (auto simp: trunc_def le_floor_iff floor_le_iff ceiling_le_iff le_ceiling_iff split: double.splits if_splits)

lemma word_cat_bytes: "word_cat (word_of_int (x div 256) :: u8) (word_of_int x :: u8) = (word_of_int x :: u16)"
proof (rule bit_word_eqI)
  fix n assume "n < LENGTH(16)"
  moreover have "x div 256 = drop_bit 8 x" by (simp add: drop_bit_eq_div)
  ultimately show "bit (word_cat (word_of_int (x div 256) :: u8) (word_of_int x :: u8) :: u16) n = bit (word_of_int x :: u16) n"
    by (auto simp: bit_word_cat_iff bit_simps)
qed

lemma int16_little:
  assumes "- (2 ^ 15) \<le> x" "x \<le> 2 ^ 15 - 1"
  shows "sint (word_cat (word_of_int (x div 256) :: u8) (word_of_int x :: u8) :: u16) = x"
  unfolding word_cat_bytes by (rule sint_word_of_int_id) (use assms in simp_all)

lemma little_16: "little lib \<Longrightarrow> little_endian lib 2 x = [word_of_int x, word_of_int (x div 256)]"
  by (simp add: little_def eval_nat_numeral)

lemma little_8: "little lib \<Longrightarrow> little_endian lib (Suc 0) x = [word_of_int x]"
  by (simp add: little_def)

lemma tx_of_nth: "k < length bytes \<Longrightarrow> sl_data (tx_of p bytes) ! k = bytes ! k"
  by (simp add: tx_of_def nth_append)

lemma tx_velocity_read:
  assumes "little lib" "tx_velocity lib quad = Go slot"
  shows "int16_at slot 0 = clamp (- 32768) 32767 (trunc (vx (desired_v quad)))"
    "int16_at slot 2 = clamp (- 32768) 32767 (trunc (vy (desired_v quad)))"
    "int16_at slot 4 = clamp (- 32768) 32767 (trunc (32767 * vz (desired_w quad) / (2 * pi)))"
proof -
  let ?c = "clamp (- 32768) 32767"
  have r: "- (2 ^ 15) \<le> ?c x" "?c x \<le> 2 ^ 15 - 1" for x by (simp_all add: clamp_def)
  define a where "a = ?c (trunc (vx (desired_v quad)))"
  define b where "b = ?c (trunc (vy (desired_v quad)))"
  define d where "d = ?c (trunc (32767 * vz (desired_w quad) / (2 * pi)))"
  have "slot = tx_of 0xffffffff [word_of_int a, word_of_int (a div 256), word_of_int b, word_of_int (b div 256),
      word_of_int d, word_of_int (d div 256)]"
    using assms(2) by (simp add: tx_velocity_def Saturate_clamp little_16 [OF assms(1)] a_def b_def d_def)
  then show "int16_at slot 0 = ?c (trunc (vx (desired_v quad)))" "int16_at slot 2 = ?c (trunc (vy (desired_v quad)))"
    "int16_at slot 4 = ?c (trunc (32767 * vz (desired_w quad) / (2 * pi)))"
    unfolding a_def [symmetric] b_def [symmetric] d_def [symmetric]
    using int16_little [of a] int16_little [of b] int16_little [of d] r by (simp_all add: int16_at_def tx_of_nth a_def b_def d_def)
qed

lemma int8_little: "- (2 ^ 7) \<le> x \<Longrightarrow> x \<le> 2 ^ 7 - 1 \<Longrightarrow> sint (word_of_int x :: u8) = x"
  by (rule sint_word_of_int_id) simp_all

lemma Saturate_int_clamp: "lo \<le> hi \<Longrightarrow> Saturate_int lo hi x = clamp lo hi x"
  by (auto simp: Saturate_int_def clamp_def)

lemma tx_joints_read:
  assumes "little lib" "tx_joints lib quad = Go slot"
  shows "Saturate (- 128) 127 (dscale 4 (vmin dless sj_voltage (Fin 0) (joints quad))) = Go (int8_at slot 0)"
    "Saturate (- 128) 127 (dscale 4 (vmax dless sj_voltage (Fin 0) (joints quad))) = Go (int8_at slot 1)"
    "Saturate (- 128) 127 (vmin dless sj_temperature_C (Fin 0) (joints quad)) = Go (int8_at slot 2)"
    "Saturate (- 128) 127 (vmax dless sj_temperature_C (Fin 0) (joints quad)) = Go (int8_at slot 3)"
    "int8_at slot 4 = clamp (- 128) 127 (vmax (<) sj_fault 0 (joints quad))"
proof -
  from assms(2) obtain a b c d where s: "Saturate (- 128) 127 (dscale 4 (vmin dless sj_voltage (Fin 0) (joints quad))) = Go a"
    "Saturate (- 128) 127 (dscale 4 (vmax dless sj_voltage (Fin 0) (joints quad))) = Go b"
    "Saturate (- 128) 127 (vmin dless sj_temperature_C (Fin 0) (joints quad)) = Go c"
    "Saturate (- 128) 127 (vmax dless sj_temperature_C (Fin 0) (joints quad)) = Go d"
    and slot: "slot = tx_of 0x55555555 (concat (map (little_endian lib (Suc 0)) [a, b, c, d, clamp (- 128) 127 (vmax (<) sj_fault 0 (joints quad))]))"
    by (auto simp: tx_joints_def Let_def rbind_Go kVoltageScale_def Saturate_int_clamp)
  have r: "- (2 ^ 7) \<le> x \<and> x \<le> 2 ^ 7 - 1" if "Saturate (- 128) 127 v = Go x" for v x using Saturate_range [OF _ that] by simp
  have f: "- (2 ^ 7) \<le> clamp (- 128) 127 x" "clamp (- 128) 127 x \<le> 2 ^ 7 - 1" for x by (simp_all add: clamp_def)
  have i: "sint (word_of_int x :: u8) = x" if "Saturate (- 128) 127 v = Go x" for v x using r [OF that] int8_little by blast
  have "int8_at slot 0 = a" "int8_at slot 1 = b" "int8_at slot 2 = c" "int8_at slot 3 = d"
    "int8_at slot 4 = clamp (- 128) 127 (vmax (<) sj_fault 0 (joints quad))"
    unfolding slot using i [OF s(1)] i [OF s(2)] i [OF s(3)] i [OF s(4)] int8_little [OF f]
    by (simp_all add: int8_at_def tx_of_nth little_8 [OF assms(1)] eval_nat_numeral del: word_of_int_eq_iff)
  then show "Saturate (- 128) 127 (dscale 4 (vmin dless sj_voltage (Fin 0) (joints quad))) = Go (int8_at slot 0)"
    "Saturate (- 128) 127 (dscale 4 (vmax dless sj_voltage (Fin 0) (joints quad))) = Go (int8_at slot 1)"
    "Saturate (- 128) 127 (vmin dless sj_temperature_C (Fin 0) (joints quad)) = Go (int8_at slot 2)"
    "Saturate (- 128) 127 (vmax dless sj_temperature_C (Fin 0) (joints quad)) = Go (int8_at slot 3)"
    "int8_at slot 4 = clamp (- 128) 127 (vmax (<) sj_fault 0 (joints quad))"
    using s by simp_all
qed

text \<open>Ten milliseconds after the last report the handler sets the slots to send, and a reader gets from
  them the mode, the number of messages of the last second up to 255, the desired rates of the robot in whole steps limited
  to the range of 16 bits, the extreme voltages and temperatures and the largest fault of the servos limited to 8 bits,
  and the first characters of the fault where there is one.\<close>

theorem rf_telemetry:
  assumes "rf_reach nlib lib cfg s" "little lib" "posted (radio s) \<noteq> 0" "rf_step nlib lib cfg now SlotReady s = Go s'"
    and "report_due now (rf s)"
  shows "let tx = tx_slots (radio s') 0; q = robot s'
     in take (sl_size (tx ! 0)) (sl_data (tx ! 0)) = [mode_code (q_mode q), of_nat (min 255 (length (receive_times (rf s'))))] \<and>
        int16_at (tx ! 1) 0 = clamp (- 32768) 32767 (trunc (vx (desired_v q))) \<and>
        int16_at (tx ! 1) 2 = clamp (- 32768) 32767 (trunc (vy (desired_v q))) \<and>
        int16_at (tx ! 1) 4 = clamp (- 32768) 32767 (trunc (32767 * vz (desired_w q) / (2 * pi))) \<and>
        Saturate (- 128) 127 (dscale 4 (vmin dless sj_voltage (Fin 0) (joints q))) = Go (int8_at (tx ! 8) 0) \<and>
        Saturate (- 128) 127 (dscale 4 (vmax dless sj_voltage (Fin 0) (joints q))) = Go (int8_at (tx ! 8) 1) \<and>
        Saturate (- 128) 127 (vmin dless sj_temperature_C (Fin 0) (joints q)) = Go (int8_at (tx ! 8) 2) \<and>
        Saturate (- 128) 127 (vmax dless sj_temperature_C (Fin 0) (joints q)) = Go (int8_at (tx ! 8) 3) \<and>
        int8_at (tx ! 8) 4 = clamp (- 128) 127 (vmax (<) sj_fault 0 (joints q)) \<and>
        take (sl_size (tx ! 14)) (sl_data (tx ! 14)) = (if q_mode q = kFault then take 13 (fault_text lib (q_fault q)) else [])"
proof -
  have ok: "nrf_ok (radio s)" "rx_typed (slot_rx (rf (posted_taken s)))" using rf_reach_ok [OF assms(1,2)] by simp_all
  have h: "HandleSlot nlib lib cfg now (posted_taken s) = Go s'" using assms(3,4) by (simp add: SlotReady_step)
  have "reported lib (robot s') (rf s') (tx_slots (radio s) 0) (tx_slots (radio s') 0)"
    using HandleSlot_Go(6) [OF h between_taken [OF ok(1) assms(3)] ok(2) assms(2)] assms(5) by simp
  moreover have "length (tx_slots (radio s) 0) = 15" using ok(1) slots_typedD(1) by (simp add: nrf_ok_def)
  ultimately obtain slot1 slot8 where t: "tx_velocity lib (robot s') = Go slot1" "tx_joints lib (robot s') = Go slot8"
    and tx: "tx_slots (radio s') 0 ! 0 = tx_mode (rf s') (robot s')" "tx_slots (radio s') 0 ! 1 = slot1"
      "tx_slots (radio s') 0 ! 8 = slot8" "tx_slots (radio s') 0 ! 14 = tx_fault lib (robot s')"
    by (auto simp: reported_def nth_list_update)
  have "Saturate_size n = of_nat (min 255 n)" for n by (simp add: Saturate_size_def min_def)
  then have m: "take (sl_size (tx_mode (rf s') (robot s'))) (sl_data (tx_mode (rf s') (robot s'))) =
      [mode_code (q_mode (robot s')), of_nat (min 255 (length (receive_times (rf s'))))]"
    unfolding tx_mode_def tx_of_fields(1) by (subst tx_of_fields(3)) simp
  have f: "take (sl_size (tx_fault lib (robot s'))) (sl_data (tx_fault lib (robot s'))) =
      (if q_mode (robot s') = kFault then take 13 (fault_text lib (q_fault (robot s'))) else [])"
    unfolding tx_fault_def by (simp only: tx_of_fields(1,3) split: if_splits) simp
  show ?thesis
    unfolding Let_def tx m f using tx_velocity_read [OF assms(2) t(1)] tx_joints_read [OF assms(2) t(2)] by simp
qed

section \<open>A robot with a radio on the bench\<close>

definition bench_rf :: "unit rf_library" where
  "bench_rf = \<lparr>SE3d = (\<lambda>_ _. ()), little_endian = (\<lambda>n x. map (\<lambda>i. word_of_int (x div 256 ^ i)) [0..<n]), fault_text = (\<lambda>_. [])\<rparr>"

lemma bench_rf_little: "little bench_rf"
  by (simp add: little_def bench_rf_def)

text \<open>The radio is started and receives a line with slots.\<close>

lemma bench_received:
  assumes "fs \<noteq> []" "\<forall>f \<in> set fs. fst f < 15 \<and> length (snd f) \<le> 16" "distinct (map fst fs)"
  shows "\<exists>s. rf_reach bench_nrf bench_rf bench_config s \<and> posted (radio s) \<noteq> 0 \<and> robot s = quad_start flat () () \<and>
    report_due now (rf s) \<and> joints_readable (robot s) \<and> tx_joints bench_rf (robot s) \<noteq> Abort \<and>
    (\<forall>k < 15. bit (caller_bitfield (radio s)) k \<longleftrightarrow> k \<in> fst ` set fs) \<and>
    (\<forall>f \<in> set fs. rx_slots (radio s) 0 ! fst f = fill_slot 1 (snd f) slot_default)"
proof -
  let ?q = "quad_start flat () ()"
  obtain dev where d: "AsyncWaitForSlot (nrf_start bench_nrf 5678 88754) = Go dev" "nrf_ok dev"
    using AsyncWaitForSlot_between [OF nrf_start_between] by blast
  then have w: "waiting dev" "pending_bitfield dev = 0" "posted dev = 0" "rx_slots dev = (\<lambda>_. replicate 15 slot_default)"
    by (auto simp: AsyncWaitForSlot_def MaybeProcessCallback_def nrf_start_def nrf_Write_def MaybeStartWrite_def)
  let ?s0 = "\<lparr>radio = dev, rf = rf_control_start, robot = ?q\<rparr>"
  have r0: "rf_reach bench_nrf bench_rf bench_config ?s0"
    by (rule rf_reach.start [of _ 5678 88754 ?q]) (simp add: rf_AsyncStart_def d(1))
  let ?f = "fold (store_field 1 0) fs dev" and ?l = "slot_line bench_nrf 0 fs @ []"
  have "hd fs \<in> set fs" using assms(1) by simp
  then have "fst (hd fs) < 16 \<and> bit (pending_bitfield ?f) (fst (hd fs))"
    using assms(2) by (auto simp: fold_store_bits)
  then have nz: "pending_bitfield ?f \<noteq> 0" using bits_nonzero by blast
  have h: "nrf_HandleLine bench_nrf 1 ?l dev = Go (MaybeProcessCallback (?f\<lparr>caller_remote := 0\<rparr>))"
    using HandleLine_slots [OF bench_nrf_ok _ assms(1), of 0 "[]" 1 dev] assms(2) w(1) by (simp add: Let_def)
  let ?s = "?s0\<lparr>radio := MaybeProcessCallback (?f\<lparr>caller_remote := 0\<rparr>)\<rparr>"
  have r1: "rf_reach bench_nrf bench_rf bench_config ?s"
    by (rule rf_reach.step [OF r0, of 1 "RadioLine ?l"]) (simp only: rf_step_def rf_event.case rf_system.simps h rbind.simps)
  have f: "MaybeProcessCallback (?f\<lparr>caller_remote := 0\<rparr>) = ?f\<lparr>caller_remote := 0, caller_bitfield := pending_bitfield ?f,
      pending_bitfield := 0, posted := 1, waiting := False\<rparr>"
    using nz w(1,3) by (simp add: MaybeProcessCallback_def)
  have bits: "\<forall>k < 15. bit (pending_bitfield ?f) k \<longleftrightarrow> k \<in> fst ` set fs" using w(2) by (auto simp: fold_store_bits)
  have slots: "\<forall>f \<in> set fs. rx_slots ?f 0 ! fst f = fill_slot 1 (snd f) slot_default"
    using fold_store_slot [OF _ assms(3), of _ dev 0 1] assms(2) w(4) by auto
  have q: "joints_readable ?q" "tx_joints bench_rf ?q \<noteq> Abort" by (simp_all add: joints_readable_def quad_start_def tx_joints_def vmin_def vmax_def Saturate_def)
  show ?thesis
    by (rule exI [of _ ?s]) (use r1 q bits slots in \<open>simp add: f [simplified] report_due_def rf_control_start_def\<close>)
qed

theorem rf_reach_typed_witness:
  "\<exists>s. rf_reach bench_nrf bench_rf bench_config s \<and> robot s = quad_start flat () () \<and> slots_typed (tx_slots (radio s)) \<and>
     (if waiting (radio s) then posted (radio s) = 0 else posted (radio s) = 1)"
proof -
  obtain s where "rf_reach bench_nrf bench_rf bench_config s" "robot s = quad_start flat () ()"
    using bench_received [of "[(0, [3])]"] by auto
  with rf_reach_typed [OF this(1) bench_rf_little] show ?thesis by auto
qed

text \<open>A field of sixteen bytes.\<close>

theorem rf_handler_overrun_iff_witness:
  "\<exists>s :: (unit, unit) rf_system. rf_reach bench_nrf bench_rf bench_config s \<and> posted (radio s) \<noteq> 0 \<and>
     \<not> (\<exists>s'. rf_step bench_nrf bench_rf bench_config 2 SlotReady s = Go s')"
proof -
  obtain s :: "(unit, unit) rf_system" where s: "rf_reach bench_nrf bench_rf bench_config s" "posted (radio s) \<noteq> 0" "joints_readable (robot s)"
    "\<forall>k < 15. bit (caller_bitfield (radio s)) k = (k = 4)" "rx_slots (radio s) 0 ! 4 = fill_slot 1 (replicate 16 7) slot_default"
    using bench_received [of "[(4, replicate 16 7)]" 0] by auto
  have "sl_size (rx_slots (radio s) 0 ! 4) = 16" unfolding s(5) by (simp add: fill_slot_def)
  then have "\<exists>k < 15. bit (caller_bitfield (radio s)) k \<and> sl_size (rx_slots (radio s) 0 ! k) = 16" using s(4) by (intro exI [of _ 4]) simp
  then show ?thesis using rf_handler_overrun_iff [OF s(1) bench_rf_little s(2,3), of 2] s(1,2) by blast
qed

lemma bench_handled:
  "\<exists>s s'. rf_reach bench_nrf bench_rf bench_config s \<and> posted (radio s) \<noteq> 0 \<and> robot s = quad_start flat () () \<and>
     report_due 2 (rf s) \<and> bit (caller_bitfield (radio s)) 0 \<and> rx_slots (radio s) 0 ! 0 = fill_slot 1 [1] slot_default \<and>
     rf_step bench_nrf bench_rf bench_config 2 SlotReady s = Go s' \<and> q_mode (robot s') = kConfiguring \<and> desired_v (robot s') = vzero"
proof -
  obtain s :: "(unit, unit) rf_system" where s: "rf_reach bench_nrf bench_rf bench_config s" "posted (radio s) \<noteq> 0" "robot s = quad_start flat () ()"
    "report_due 2 (rf s)" "tx_joints bench_rf (robot s) \<noteq> Abort" "\<forall>k < 15. bit (caller_bitfield (radio s)) k \<longleftrightarrow> k \<in> fst ` {(0 :: nat, [1 :: u8])}"
    "rx_slots (radio s) 0 ! 0 = fill_slot 1 [1] slot_default"
    using bench_received [of "[(0, [1])]" 2] by auto
  have b: "nrf_between (radio (posted_taken s))" using between_taken rf_reach_ok [OF s(1) bench_rf_little] s(2) by blast
  have "\<not> (\<exists>k < 15. bit (caller_bitfield (radio s)) k \<and> sl_size (rx_slots (radio s) 0 ! k) = 16)"
    using s(6,7) by (auto simp: fill_slot_def)
  then obtain s' where "HandleSlot bench_nrf bench_rf bench_config 2 (posted_taken s) = Go s'"
    using HandleSlot_Abort [OF b bench_rf_little, of bench_nrf bench_config 2] s(5)
    by (cases "HandleSlot bench_nrf bench_rf bench_config 2 (posted_taken s)") auto
  then have h: "rf_step bench_nrf bench_rf bench_config 2 SlotReady s = Go s'" using s(2) by (simp add: SlotReady_step)
  have "rx_typed (slot_rx (rf (posted_taken s)))" using rf_reach_ok [OF s(1) bench_rf_little] by simp
  with HandleSlot_Go(5) [OF _ b _ bench_rf_little, of bench_nrf bench_config 2 s'] h s(2)
  have "robot s' = Command bench_config 2 (rf_command bench_rf (slot_rx (rf s'))) (robot s) \<or> robot s' = robot s"
    by (auto simp: SlotReady_step split: if_splits)
  then have "q_mode (robot s') = kConfiguring" "desired_v (robot s') = vzero" by (auto simp: s(3) quad_start_def Command_def)
  then show ?thesis using s h by (intro exI [of _ s] exI [of _ s']) auto
qed


theorem rf_telemetry_witness:
  "\<exists>s' :: (unit, unit) rf_system. rf_reach bench_nrf bench_rf bench_config s' \<and> int16_at (tx_slots (radio s') 0 ! 1) 0 = 0 \<and>
     hd (take (sl_size (tx_slots (radio s') 0 ! 0)) (sl_data (tx_slots (radio s') 0 ! 0))) = mode_code kConfiguring"
proof -
  obtain s s' :: "(unit, unit) rf_system" where s: "rf_reach bench_nrf bench_rf bench_config s" "posted (radio s) \<noteq> 0"
    "report_due 2 (rf s)" "rf_step bench_nrf bench_rf bench_config 2 SlotReady s = Go s'"
    "q_mode (robot s') = kConfiguring" "desired_v (robot s') = vzero"
    using bench_handled by blast
  have "rf_reach bench_nrf bench_rf bench_config s'" by (rule rf_reach.step [OF s(1,4)])
  then show ?thesis
    using rf_telemetry [OF s(1) bench_rf_little s(2,4,3)] s(5,6)
    by (intro exI [of _ s']) (simp add: Let_def vzero_def clamp_def trunc_def)
qed

end
