(* ===== verification/TurretProps.thy ===== *)
theory TurretProps
  imports TurretControl SwingProps
begin

text \<open>
  What the controller of the turret guarantees: the servos have power only in the active mode, which a fault ends in the
  cycle that sees it; shots follow the trigger sequence; and the aim stays within its limits.
\<close>

section \<open>Requests to the servos\<close>

definition off_request :: "int \<Rightarrow> turret_request" where
  "off_request i = \<lparr>tq_id = i, tq_writes = [ToServo (WriteSingle kMode (Int8 (servo_mode_code ServoStopped)))]\<rparr>"

definition servos_off :: "turret_request list \<Rightarrow> bool" where
  "servos_off rs \<longleftrightarrow> (\<exists>weapon. rs = off_request 1 # off_request 2 # weapon \<and> (\<forall>r \<in> set weapon. tq_id r = 7))"

definition servos_on :: "turret_request list \<Rightarrow> bool" where
  "servos_on rs \<longleftrightarrow> (\<exists>a b weapon. rs = a # b # weapon \<and> tq_id a = 1 \<and> tq_id b = 2 \<and> (\<forall>r \<in> set weapon. tq_id r = 7) \<and>
     (\<forall>r \<in> {a, b}. \<exists>torque. tq_writes r =
        [ToServo (WriteSingle kMode (Int8 (servo_mode_code ServoPosition))), ToServo (WriteSingle kCommandFeedforwardTorque (Float torque)),
         ToServo (WriteMultiple kCommandKpScale [WritePwm (Fin 0) kInt8, WritePwm (Fin 0) kInt8])]))"

text \<open>What sending requests does not change.\<close>

definition unsent :: "'s turret \<Rightarrow> 's turret" where
  "unsent s = s\<lparr>tu_client_command := [], transmits := 0, last_trigger_sequence := 0\<rparr>"

lemma unsent_eqD:
  assumes "unsent s' = unsent s"
  shows "tu_mode s' = tu_mode s" "tu_fault s' = tu_fault s" "pitch_servo s' = pitch_servo s" "yaw_servo s' = yaw_servo s"
    "pitch_control s' = pitch_control s" "yaw_control s' = yaw_control s" "tu_command s' = tu_command s"
    "status_count s' = status_count s" "imu_data s' = imu_data s" "imu_servo_pitch_deg s' = imu_servo_pitch_deg s"
    "status_outstanding s' = status_outstanding s" "tu_outstanding s' = tu_outstanding s"
  using assms by (cases s; cases s'; simp add: unsent_def)+

lemma unsent_updates [simp]:
  "unsent (s\<lparr>tu_client_command := c\<rparr>) = unsent s" "unsent (s\<lparr>transmits := n\<rparr>) = unsent s"
  "unsent (s\<lparr>last_trigger_sequence := l\<rparr>) = unsent s"
  by (simp_all add: unsent_def)

definition sent_only :: "'s turret \<Rightarrow> 's turret \<Rightarrow> bool" where
  "sent_only s s' \<longleftrightarrow> unsent s' = unsent s \<and> transmits s' = transmits s + 1"

lemma AddServoCommand_result:
  "AddServoCommand i d s = Go s' \<Longrightarrow> unsent s' = unsent s \<and> transmits s' = transmits s \<and> last_trigger_sequence s' = last_trigger_sequence s"
  by (auto simp: AddServoCommand_def rbind_Go)

lemma AddWeapon_result:
  assumes "AddWeapon p s = Go s'"
  shows "unsent s' = unsent s \<and> transmits s' = transmits s \<and>
    (\<exists>writes. tu_client_command s' = tu_client_command s @ [\<lparr>tq_id = 7, tq_writes = writes\<rparr>])"
  using assms unfolding AddWeapon_def Let_def by (auto simp: rbind_Go split: if_splits)

lemma Control_result:
  assumes "Control p pitch yaw s = Go s'"
  shows "sent_only s s'" "\<not> sd_power pitch \<Longrightarrow> \<not> sd_power yaw \<Longrightarrow> servos_off (tu_client_command s')"
    "sd_power pitch \<Longrightarrow> sd_power yaw \<Longrightarrow> servos_on (tu_client_command s')"
proof -
  from assms obtain s1 s2 s3 where c: "AddServoCommand 1 pitch (s\<lparr>tu_client_command := []\<rparr>) = Go s1" "AddServoCommand 2 yaw s1 = Go s2"
    and s3: "(if status_count s2 = 0 then AddWeapon p s2 else Go s2) = Go s3" and s: "s' = s3\<lparr>transmits := transmits s3 + 1\<rparr>"
    unfolding Control_def by (auto simp: rbind_Go)
  have w3: "unsent s3 = unsent s2 \<and> transmits s3 = transmits s2 \<and>
      (\<exists>weapon. tu_client_command s3 = tu_client_command s2 @ weapon \<and> (\<forall>r \<in> set weapon. tq_id r = 7))"
  proof (cases "status_count s2 = 0")
    case True
    with s3 have "AddWeapon p s2 = Go s3" by simp
    from AddWeapon_result [OF this] show ?thesis by fastforce
  qed (use s3 in simp)
  then obtain weapon where w: "tu_client_command s' = tu_client_command s2 @ weapon" "\<forall>r \<in> set weapon. tq_id r = 7" unfolding s by auto
  show "sent_only s s'" using w3 AddServoCommand_result [OF c(1)] AddServoCommand_result [OF c(2)] unfolding s sent_only_def by simp
  show "\<not> sd_power pitch \<Longrightarrow> \<not> sd_power yaw \<Longrightarrow> servos_off (tu_client_command s')"
    using c w(2) unfolding w(1) servos_off_def by (auto simp: AddServoCommand_def servo_sign_def off_request_def)
  show "sd_power pitch \<Longrightarrow> sd_power yaw \<Longrightarrow> servos_on (tu_client_command s')"
    using c w(2) unfolding w(1) servos_on_def by (auto simp: AddServoCommand_def servo_sign_def)
qed

section \<open>The cycle\<close>

lemma update_replies_frame:
  "update_replies now rs s = Go s' \<Longrightarrow> \<exists>g h w. s' = s\<lparr>pitch_servo := g, yaw_servo := h, tu_weapon := w\<rparr>"
proof (induction rs arbitrary: s)
  case Nil
  then show ?case by (intro exI [of _ "pitch_servo s"] exI [of _ "yaw_servo s"] exI [of _ "tu_weapon s"]) simp
next
  case (Cons r rs)
  then show ?case by (fastforce simp: rbind_Go split: if_splits)
qed

text \<open>What an update of the status leaves, but for the measured values.\<close>

definition unmeasured :: "'s turret \<Rightarrow> 's turret" where
  "unmeasured s = s\<lparr>status_outstanding := 0, imu_servo_pitch_deg := NaN, pitch_servo := gimbal_default, yaw_servo := gimbal_default,
     tu_weapon := weapon_default, tu_imu := attitude_default, filtered_bus_V := NaN\<rparr>"

lemma unmeasured_updates [simp]:
  "unmeasured (s\<lparr>status_outstanding := i\<rparr>) = unmeasured s" "unmeasured (s\<lparr>imu_servo_pitch_deg := d\<rparr>) = unmeasured s"
  "unmeasured (s\<lparr>pitch_servo := g\<rparr>) = unmeasured s" "unmeasured (s\<lparr>yaw_servo := g\<rparr>) = unmeasured s"
  "unmeasured (s\<lparr>tu_weapon := w\<rparr>) = unmeasured s" "unmeasured (s\<lparr>tu_imu := a\<rparr>) = unmeasured s"
  "unmeasured (s\<lparr>filtered_bus_V := d\<rparr>) = unmeasured s"
  by (simp_all add: unmeasured_def)

lemma unmeasured_eqD:
  assumes "unmeasured s' = unmeasured s"
  shows "tu_mode s' = tu_mode s" "tu_fault s' = tu_fault s" "tu_command s' = tu_command s" "transmits s' = transmits s"
    "pitch_control s' = pitch_control s" "yaw_control s' = yaw_control s" "tu_client_command s' = tu_client_command s"
    "status_count s' = status_count s" "imu_data s' = imu_data s" "last_trigger_sequence s' = last_trigger_sequence s"
    "tu_outstanding s' = tu_outstanding s"
  using assms by (cases s; cases s'; simp add: unmeasured_def)+

lemma turret_UpdateStatus_result:
  assumes "turret_UpdateStatus p now s = Go t"
  shows "\<exists>u. unmeasured u = unmeasured s \<and> (if tu_mode s \<noteq> kTurretFault \<and> servo_faults u \<noteq> []
    then turret_Fault p (servo_faults u) u = Go t else t = u)"
proof -
  from assms obtain r where r: "update_replies now (status_reply s) (s\<lparr>imu_servo_pitch_deg :=
      filter_step (tp_period_s p / imu_servo_filter_s p) (imu_servo_pitch_deg s) (dminus (at_pitch (imu_data s)) (gs_angle_deg (pitch_servo s)))\<rparr>) = Go r"
    and t: "(let u = r\<lparr>tu_imu := imu_data r,
                     filtered_bus_V := dadd (dscale (tp_period_s p / tp_voltage_filter_s p) (gs_voltage (pitch_servo r)))
                       (dscale (1 - tp_period_s p / tp_voltage_filter_s p) (filtered_bus_V r))\<rparr>
           in if tu_mode u \<noteq> kTurretFault \<and> servo_faults u \<noteq> [] then turret_Fault p (servo_faults u) u else Go u) = Go t"
    by (auto simp: turret_UpdateStatus_def Let_def rbind_Go)
  from update_replies_frame [OF r] have e: "unmeasured r = unmeasured s" by auto
  then have m: "tu_mode r = tu_mode s" by (rule unmeasured_eqD)
  show ?thesis
    using t e m by (intro exI [of _ "r\<lparr>tu_imu := imu_data r,
                     filtered_bus_V := dadd (dscale (tp_period_s p / tp_voltage_filter_s p) (gs_voltage (pitch_servo r)))
                       (dscale (1 - tp_period_s p / tp_voltage_filter_s p) (filtered_bus_V r))\<rparr>"])
      (auto simp: Let_def split: if_splits)
qed

lemma DoControl_Stop_result:
  assumes "DoControl_Stop p s = Go s'"
  shows "sent_only s s'" "servos_off (tu_client_command s')"
  using Control_result [OF assms [unfolded DoControl_Stop_def]] by (simp_all add: servo_off_def)

lemma DoControl_Active_Go:
  assumes "DoControl_Active lib p now s = Go s'"
  obtains rates rate t pitch_torque yaw_torque pp yp where "desired_rates p now s = Go rates" "aim lib p rates s = (rate, t)"
    "Control p \<lparr>sd_power = True, sd_torque_Nm = pitch_torque\<rparr> \<lparr>sd_power = True, sd_torque_Nm = yaw_torque\<rparr>
       (t\<lparr>pitch_control := (pitch_control t)\<lparr>sc_pid := pp\<rparr>, yaw_control := (yaw_control t)\<lparr>sc_pid := yp\<rparr>\<rparr>) = Go s'"
proof -
  from assms obtain rates where r: "desired_rates p now s = Go rates"
    unfolding DoControl_Active_def rbind_Go by blast
  obtain rate t where t: "aim lib p rates s = (rate, t)" by (cases "aim lib p rates s") auto
  obtain pt pp where pitch: "pid_apply lib (tp_pitch p) (sc_pid (pitch_control t)) (at_pitch (imu_data t))
      (sc_angle_deg (pitch_control t)) (at_rate_y (imu_data t)) rate (1 / tp_period_s p) = (pt, pp)" by fastforce
  obtain yt yp where yaw: "pid_apply lib (tp_yaw p) (sc_pid (yaw_control t)) (at_yaw (imu_data t))
      (sc_angle_deg (yaw_control t)) (at_rate_z (imu_data t)) (sc_rate_dps (yaw_control t)) (1 / tp_period_s p) = (yt, yp)" by fastforce
  show ?thesis
    using assms r t pitch yaw that [OF r t, of pt yt yp pp] unfolding DoControl_Active_def Let_def by simp
qed

lemma aim_frame: "aim lib p rates s = (rate, t) \<Longrightarrow> t = s\<lparr>pitch_control := pitch_control t, yaw_control := yaw_control t\<rparr>"
  by (auto simp: aim_def Let_def)

lemma DoControl_Active_result:
  assumes "DoControl_Active lib p now s = Go s'"
  shows "\<exists>a b. sent_only (s\<lparr>pitch_control := a, yaw_control := b\<rparr>) s'" "servos_on (tu_client_command s')"
proof -
  from assms obtain rates rate t pt yt pp yp where t: "aim lib p rates s = (rate, t)"
    and c: "Control p \<lparr>sd_power = True, sd_torque_Nm = pt\<rparr> \<lparr>sd_power = True, sd_torque_Nm = yt\<rparr>
       (t\<lparr>pitch_control := (pitch_control t)\<lparr>sc_pid := pp\<rparr>, yaw_control := (yaw_control t)\<lparr>sc_pid := yp\<rparr>\<rparr>) = Go s'"
    by (rule DoControl_Active_Go)
  note r = Control_result [OF c]
  have "t\<lparr>pitch_control := x, yaw_control := y\<rparr> = s\<lparr>pitch_control := x, yaw_control := y\<rparr>" for x y
    by (subst aim_frame [OF t]) simp
  then show "\<exists>a b. sent_only (s\<lparr>pitch_control := a, yaw_control := b\<rparr>) s'" using r(1) by metis
  show "servos_on (tu_client_command s')" using r(3) by simp
qed

lemma turret_MaybeChangeMode_result:
  assumes "turret_MaybeChangeMode lib s = Go s'"
  shows "pitch_servo s' = pitch_servo s" "yaw_servo s' = yaw_servo s" "transmits s' = transmits s" "tu_command s' = tu_command s"
    "status_count s' = status_count s" "last_trigger_sequence s' = last_trigger_sequence s" "tu_client_command s' = tu_client_command s"
    "tu_mode s' = (if tc_mode (tu_command s) = kStop then kStop else if tu_mode s = kTurretFault then kTurretFault else kActive)"
    "tu_fault s' = (if tu_mode s = kTurretFault \<and> tc_mode (tu_command s) = kStop then [] else tu_fault s)"
    "tc_mode (tu_command s) \<noteq> kTurretFault"
  using assms unfolding turret_MaybeChangeMode_def Let_def
  by (cases "tc_mode (tu_command s)"; auto simp: rbind_Go split: if_splits)+

lemma servo_faults_cong: "pitch_servo s' = pitch_servo s \<Longrightarrow> yaw_servo s' = yaw_servo s \<Longrightarrow> servo_faults s' = servo_faults s"
  by (simp add: servo_faults_def)

text \<open>The mode after the controls of a cycle, in a state with the given old mode.\<close>

definition mode_after :: "turret_mode \<Rightarrow> turret_mode \<Rightarrow> turret_mode" where
  "mode_after old wanted = (if wanted = kStop then kStop else if old = kTurretFault then kTurretFault else kActive)"

lemma turret_RunControl_result:
  assumes "turret_RunControl lib p now s = Go s'" "tc_mode (tu_command s) = kTurretFault \<longrightarrow> tu_mode s = kTurretFault"
  shows "tu_mode s' = mode_after (tu_mode s) (tc_mode (tu_command s))" "transmits s' = transmits s + 1"
    "servo_faults s' = servo_faults s" "tu_command s' = tu_command s"
    "tu_fault s' = (if tu_mode s = kTurretFault \<and> tc_mode (tu_command s) = kStop then [] else tu_fault s)"
    "if tu_mode s' = kActive then servos_on (tu_client_command s') else servos_off (tu_client_command s')"
proof -
  from assms(1) obtain t where t: "(if tc_mode (tu_command s) \<noteq> tu_mode s then turret_MaybeChangeMode lib s else Go s) = Go t"
    and c: "(case tu_mode t of kStop \<Rightarrow> DoControl_Stop p t | kActive \<Rightarrow> DoControl_Active lib p now t | kTurretFault \<Rightarrow> DoControl_Stop p t) = Go s'"
    unfolding turret_RunControl_def rbind_Go by blast
  have m: "pitch_servo t = pitch_servo s" "yaw_servo t = yaw_servo s" "transmits t = transmits s" "tu_command t = tu_command s"
    "tu_mode t = mode_after (tu_mode s) (tc_mode (tu_command s))"
    "tu_fault t = (if tu_mode s = kTurretFault \<and> tc_mode (tu_command s) = kStop then [] else tu_fault s)"
  proof -
    have "pitch_servo t = pitch_servo s \<and> yaw_servo t = yaw_servo s \<and> transmits t = transmits s \<and> tu_command t = tu_command s \<and>
      tu_mode t = mode_after (tu_mode s) (tc_mode (tu_command s)) \<and>
      tu_fault t = (if tu_mode s = kTurretFault \<and> tc_mode (tu_command s) = kStop then [] else tu_fault s)"
    proof (cases "tc_mode (tu_command s) = tu_mode s")
      case True
      then have "t = s" using t by simp
      then show ?thesis using True by (cases "tu_mode s") (simp_all add: mode_after_def)
    next
      case False
      with t have "turret_MaybeChangeMode lib s = Go t" by simp
      note c = turret_MaybeChangeMode_result [OF this]
      show ?thesis using c by (simp add: mode_after_def)
    qed
    then show "pitch_servo t = pitch_servo s" "yaw_servo t = yaw_servo s" "transmits t = transmits s" "tu_command t = tu_command s"
      "tu_mode t = mode_after (tu_mode s) (tc_mode (tu_command s))"
      "tu_fault t = (if tu_mode s = kTurretFault \<and> tc_mode (tu_command s) = kStop then [] else tu_fault s)" by blast+
  qed
  have r: "(\<exists>a b. sent_only (t\<lparr>pitch_control := a, yaw_control := b\<rparr>) s')"
  proof (cases "tu_mode t = kActive")
    case True
    then show ?thesis using c DoControl_Active_result by fastforce
  next
    case False
    then have "sent_only t s'" using c DoControl_Stop_result by (cases "tu_mode t") fastforce+
    then show ?thesis by (intro exI [of _ "pitch_control t"] exI [of _ "yaw_control t"]) simp
  qed
  then obtain a b where u: "unsent s' = unsent (t\<lparr>pitch_control := a, yaw_control := b\<rparr>)" "transmits s' = transmits t + 1"
    by (auto simp: sent_only_def)
  note e = unsent_eqD [OF u(1), simplified]
  show "tu_mode s' = mode_after (tu_mode s) (tc_mode (tu_command s))" using e m by simp
  show "transmits s' = transmits s + 1" using u m by simp
  show "servo_faults s' = servo_faults s" using e m by (intro servo_faults_cong) simp_all
  show "tu_command s' = tu_command s" using e m by simp
  show "tu_fault s' = (if tu_mode s = kTurretFault \<and> tc_mode (tu_command s) = kStop then [] else tu_fault s)" using e m by simp
  show "if tu_mode s' = kActive then servos_on (tu_client_command s') else servos_off (tu_client_command s')"
    using c e(1) DoControl_Active_result DoControl_Stop_result by (cases "tu_mode t") auto
qed

lemma turret_RunControl_fault_command:
  "turret_RunControl lib p now s = Go s' \<Longrightarrow> tc_mode (tu_command s) = kTurretFault \<longrightarrow> tu_mode s = kTurretFault"
  by (auto simp: turret_RunControl_def rbind_Go dest: turret_MaybeChangeMode_result(10) split: if_splits)

text \<open>A completed cycle.\<close>

lemma turret_cycle:
  assumes "turret_HandleStatus lib p now s = Go s'" "status_outstanding s \<le> 1"
  shows "\<exists>old. old = (if tu_mode s \<noteq> kTurretFault \<and> servo_faults s' \<noteq> [] then kTurretFault else tu_mode s) \<and>
    tu_mode s' = mode_after old (tc_mode (tu_command s)) \<and>
    tu_fault s' = (if old = kTurretFault \<and> tc_mode (tu_command s) = kStop then []
      else if old = kTurretFault \<and> tu_mode s \<noteq> kTurretFault then servo_faults s' else tu_fault s) \<and>
    transmits s' = transmits s + (if old = tu_mode s then 1 else 2) \<and> tu_command s' = tu_command s \<and>
    (tu_mode s' = kActive \<longrightarrow> tc_mode (tu_command s) = kActive) \<and>
    (if tu_mode s' = kActive then servos_on (tu_client_command s') else servos_off (tu_client_command s'))"
proof -
  let ?s = "s\<lparr>status_outstanding := status_outstanding s - 1\<rparr>"
  from assms obtain t where t: "turret_UpdateStatus p now ?s = Go t" "turret_RunControl lib p now t = Go s'"
    by (auto simp: turret_HandleStatus_def rbind_Go split: if_splits)
  from turret_UpdateStatus_result [OF t(1)] obtain u where u: "unmeasured u = unmeasured s"
    "if tu_mode s \<noteq> kTurretFault \<and> servo_faults u \<noteq> [] then turret_Fault p (servo_faults u) u = Go t else t = u" by auto
  note k = turret_RunControl_fault_command [OF t(2)]
  note r = turret_RunControl_result [OF t(2) k]
  note m = unmeasured_eqD(1-4) [OF u(1)]
  have a: "tu_mode s' = kActive \<longrightarrow> tc_mode (tu_command t) = kActive"
    unfolding r(1) mode_after_def using k by (cases "tc_mode (tu_command t)") auto
  show ?thesis
  proof (cases "tu_mode s \<noteq> kTurretFault \<and> servo_faults u \<noteq> []")
    case True
    with u(2) have "DoControl_Stop p (u\<lparr>tu_mode := kTurretFault, tu_fault := servo_faults u\<rparr>) = Go t" by (simp add: turret_Fault_def)
    from DoControl_Stop_result(1) [OF this] have d: "unsent t = unsent (u\<lparr>tu_mode := kTurretFault, tu_fault := servo_faults u\<rparr>)"
      "transmits t = transmits u + 1" by (auto simp: sent_only_def)
    note e = unsent_eqD(1-4,7) [OF d(1), simplified]
    have f: "servo_faults t = servo_faults u" using e by (intro servo_faults_cong) simp_all
    have "kTurretFault \<noteq> tu_mode s" using True by auto
    then show ?thesis using r a e d(2) m True f by simp
  next
    case False
    with u(2) have t: "t = u" by simp
    have "\<not> (tu_mode s \<noteq> kTurretFault \<and> servo_faults s' \<noteq> [])" using False r(3) by (simp add: t)
    then show ?thesis using r(1,2,4-6) a m by (intro exI [of _ "tu_mode s"]) (simp add: t)
  qed
qed

section \<open>Faults\<close>

text \<open>C18 (safety). The cycle in which a servo reports a fault leaves the active mode, and a fault is left only by a stop;
  unless the turret is active, neither servo gets power. The cycle transmits once, but in the one that finds
  the fault a second time, from the buffer that the first transmission still uses.\<close>

theorem turret_fault_stops:
  assumes "turret_HandleStatus lib p now s = Go s'" "status_outstanding s = 1"
  shows "(servo_faults s' \<noteq> [] \<longrightarrow> tu_mode s' \<noteq> kActive) \<and>
    (tu_mode s = kTurretFault \<and> tc_mode (tu_command s) \<noteq> kStop \<longrightarrow> tu_mode s' = kTurretFault) \<and>
    (tu_mode s' = kActive \<longrightarrow> tc_mode (tu_command s) = kActive) \<and>
    (if tu_mode s' = kActive then servos_on (tu_client_command s') else servos_off (tu_client_command s')) \<and>
    transmits s' = transmits s + (if tu_mode s \<noteq> kTurretFault \<and> servo_faults s' \<noteq> [] then 2 else 1)"
proof -
  let ?new = "tu_mode s \<noteq> kTurretFault \<and> servo_faults s' \<noteq> []"
  have "status_outstanding s \<le> 1" using assms(2) by simp
  from turret_cycle [OF assms(1) this] obtain old where o: "old = (if ?new then kTurretFault else tu_mode s)" "tu_mode s' = mode_after old (tc_mode (tu_command s))"
    "transmits s' = transmits s + (if old = tu_mode s then 1 else 2)" "tu_mode s' = kActive \<longrightarrow> tc_mode (tu_command s) = kActive"
    "if tu_mode s' = kActive then servos_on (tu_client_command s') else servos_off (tu_client_command s')"
    by blast
  have t: "transmits s' = transmits s + (if ?new then 2 else 1)" using o(1,3) by auto
  have "servo_faults s' \<noteq> [] \<longrightarrow> old = kTurretFault" "tu_mode s = kTurretFault \<longrightarrow> old = kTurretFault" using o(1) by auto
  then show ?thesis using o(2,4,5) t by (auto simp: mode_after_def)
qed

section \<open>Reachable states\<close>

inductive turret_reach :: "('c, 's) turret_library \<Rightarrow> 'c turret_parameters \<Rightarrow> 's turret \<Rightarrow> bool" for lib p where
  start: "turret_reach lib p (turret_start lib)"
| step: "turret_reach lib p s \<Longrightarrow> turret_step lib p now e s = Go s' \<Longrightarrow> turret_reach lib p s'"

definition turret_inv :: "'s turret \<Rightarrow> bool" where
  "turret_inv s \<longleftrightarrow>
     (if tu_client_command s = [] then tu_mode s = kStop
      else if tu_mode s = kActive then servos_on (tu_client_command s) else servos_off (tu_client_command s)) \<and>
     (tu_fault s \<noteq> [] \<longleftrightarrow> tu_mode s = kTurretFault)"

lemma requests_nonempty: "servos_on rs \<Longrightarrow> rs \<noteq> []" "servos_off rs \<Longrightarrow> rs \<noteq> []"
  by (auto simp: servos_on_def servos_off_def)

lemma turret_HandleStatus_inv:
  assumes "turret_HandleStatus lib p now s = Go s'" "turret_inv s"
  shows "turret_inv s'"
proof (cases "status_outstanding s \<le> 1")
  case True
  from turret_cycle [OF assms(1) True] obtain old where
    o: "old = (if tu_mode s \<noteq> kTurretFault \<and> servo_faults s' \<noteq> [] then kTurretFault else tu_mode s)"
    "tu_mode s' = mode_after old (tc_mode (tu_command s))"
    and f: "tu_fault s' = (if old = kTurretFault \<and> tc_mode (tu_command s) = kStop then []
      else if old = kTurretFault \<and> tu_mode s \<noteq> kTurretFault then servo_faults s' else tu_fault s)"
    and r: "if tu_mode s' = kActive then servos_on (tu_client_command s') else servos_off (tu_client_command s')" by blast
  have i: "tu_fault s \<noteq> [] \<longleftrightarrow> tu_mode s = kTurretFault" using assms(2) by (simp add: turret_inv_def)
  have m: "tu_mode s' = kTurretFault \<longleftrightarrow> old = kTurretFault \<and> tc_mode (tu_command s) \<noteq> kStop" using o(2) by (simp add: mode_after_def)
  have "tu_fault s' \<noteq> [] \<longleftrightarrow> tu_mode s' = kTurretFault" unfolding m f using i o(1) by (cases "tu_mode s = kTurretFault") auto
  then show ?thesis using r requests_nonempty unfolding turret_inv_def by (cases "tu_mode s' = kActive") auto
next
  case False
  then show ?thesis using assms by (auto simp: turret_HandleStatus_def turret_inv_def)
qed

lemma turret_inv_frame [simp]:
  "turret_inv (s\<lparr>status_reply := rs\<rparr>) = turret_inv s" "turret_inv (s\<lparr>imu_data := a\<rparr>) = turret_inv s"
  "turret_inv (turret_HandleTimer s) = turret_inv s" "turret_inv (turret_HandleCommand s) = turret_inv s"
  "turret_inv (turret_Command p now c s) = turret_inv s" "turret_inv (HandleImage now ts s) = turret_inv s"
  by (simp_all add: turret_inv_def turret_HandleTimer_def turret_HandleCommand_def turret_Command_def HandleImage_def Let_def)

lemma turret_step_inv:
  assumes "turret_step lib p now e s = Go s'" "turret_inv s"
  shows "turret_inv s'"
proof (cases e)
  case (ServoReplies rs)
  then show ?thesis using assms turret_HandleStatus_inv [of lib p now "s\<lparr>status_reply := rs\<rparr>" s'] by (auto simp: turret_step_def split: if_splits)
next
  case (ImuRead a)
  then show ?thesis using assms turret_HandleStatus_inv [of lib p now "s\<lparr>imu_data := a\<rparr>" s'] by (auto simp: turret_step_def split: if_splits)
next
  case Transmitted
  then show ?thesis using assms by (cases "transmits s > 0") (auto simp: turret_step_def)
qed (use assms in \<open>auto simp: turret_step_def\<close>)


section \<open>Shots\<close>

text \<open>The controls of successive weapon cycles, each with its command, its voltage and its drives; the requests of each.\<close>

fun weapon_cycles ::
  "'c turret_parameters \<Rightarrow> (turret_command \<times> double \<times> servo_drive \<times> servo_drive) list \<Rightarrow> 's turret \<Rightarrow> turret_request list list run" where
  "weapon_cycles p [] s = Go []"
| "weapon_cycles p ((c, V, pitch, yaw) # cs) s =
     rbind (Control p pitch yaw (s\<lparr>tu_command := c, filtered_bus_V := V\<rparr>)) (\<lambda>s.
     rbind (weapon_cycles p cs s) (\<lambda>rss. Go (tu_client_command s # rss)))"

definition shot_values :: "turret_request list \<Rightarrow> mvalue list list" where
  "shot_values rs = [vs. r \<leftarrow> rs, ToWeapon reg vs \<leftarrow> tq_writes r, reg = kFirePwm]"

definition valid_trigger :: "int \<Rightarrow> bool" where
  "valid_trigger t \<longleftrightarrow> 1024 \<le> t \<and> t \<le> 2048"

text \<open>The trigger sequence numbers of the cycles that fire.\<close>

definition shots :: "(turret_command \<times> double \<times> servo_drive \<times> servo_drive) list \<Rightarrow> turret_request list list \<Rightarrow> int list" where
  "shots cs rss = [tc_trigger_sequence (fst c). (c, rs) \<leftarrow> zip cs rss, shot_values rs \<noteq> []]"

lemma Control_weapon:
  assumes "status_count s = 0" "fire_values p V = Go vs"
  shows "\<exists>s'. Control p pitch yaw (s\<lparr>tu_command := c, filtered_bus_V := V\<rparr>) = Go s' \<and> status_count s' = 0 \<and>
    (let t = tc_trigger_sequence c; l = last_trigger_sequence s; new = valid_trigger t \<and> t \<noteq> l
     in last_trigger_sequence s' = (if new then t else l) \<and> shot_values (tu_client_command s') = (if new \<and> l \<noteq> 0 then [vs] else []))"
  using assms
  by (cases "sd_power pitch"; cases "sd_power yaw")
    (simp_all add: Control_def AddServoCommand_def servo_sign_def AddWeapon_def Let_def valid_trigger_def shot_values_def)

definition shots_ok :: "'c turret_parameters \<Rightarrow> turret_command \<times> double \<times> servo_drive \<times> servo_drive \<Rightarrow> turret_request list \<Rightarrow> bool" where
  "shots_ok p c rs \<longleftrightarrow> shot_values rs = [] \<or> (\<exists>vs. fire_values p (fst (snd c)) = Go vs \<and> shot_values rs = [vs])"

lemma remdups_adj_tl: "xs \<noteq> [] \<Longrightarrow> remdups_adj xs = hd xs # tl (remdups_adj xs)"
  by (cases xs) (auto simp: remdups_adj_Cons split: list.splits)

lemma weapon_cycles_shots:
  "status_count s = 0 \<Longrightarrow> \<forall>c \<in> set cs. \<exists>vs. fire_values p (fst (snd c)) = Go vs \<Longrightarrow>
    \<exists>rss. weapon_cycles p cs s = Go rss \<and> list_all2 (shots_ok p) cs rss \<and>
      shots cs rss = (let l = last_trigger_sequence s; ts = filter valid_trigger (map (\<lambda>c. tc_trigger_sequence (fst c)) cs)
                      in tl (remdups_adj (if l = 0 then ts else l # ts)))"
proof (induction cs arbitrary: s)
  case Nil
  then show ?case by (simp add: shots_def Let_def)
next
  case (Cons c cs)
  obtain c' V pitch yaw where c: "c = (c', V, pitch, yaw)" by (cases c) auto
  let ?t = "tc_trigger_sequence c'" and ?l = "last_trigger_sequence s"
  let ?ts = "filter valid_trigger (map (\<lambda>c. tc_trigger_sequence (fst c)) cs)"
  obtain vs where vs: "fire_values p V = Go vs" using Cons.prems(2) c by auto
  obtain s' where s': "Control p pitch yaw (s\<lparr>tu_command := c', filtered_bus_V := V\<rparr>) = Go s'" "status_count s' = 0"
    "last_trigger_sequence s' = (if valid_trigger ?t \<and> ?t \<noteq> ?l then ?t else ?l)"
    "shot_values (tu_client_command s') = (if valid_trigger ?t \<and> ?t \<noteq> ?l \<and> ?l \<noteq> 0 then [vs] else [])"
    using Control_weapon [OF Cons.prems(1) vs, of pitch yaw c'] by (auto simp: Let_def)
  obtain rss where r: "weapon_cycles p cs s' = Go rss" "list_all2 (shots_ok p) cs rss"
    "shots cs rss = (let l = last_trigger_sequence s' in tl (remdups_adj (if l = 0 then ?ts else l # ?ts)))"
    using Cons.IH [OF s'(2)] Cons.prems(2) by (auto simp: Let_def)
  have nz: "valid_trigger ?t \<Longrightarrow> ?t \<noteq> 0" by (simp add: valid_trigger_def)
  have "shots (c # cs) (tu_client_command s' # rss) = (let ts = filter valid_trigger (map (\<lambda>c. tc_trigger_sequence (fst c)) (c # cs))
      in tl (remdups_adj (if ?l = 0 then ts else ?l # ts)))"
    using r(3) s'(3,4) nz remdups_adj_tl [of "?t # ?ts"] by (auto simp: shots_def c Let_def)
  moreover have "shots_ok p c (tu_client_command s')" using s'(4) vs c by (simp add: shots_ok_def)
  ultimately show ?case using r(1,2) s'(1) c by (simp add: Let_def)
qed

text \<open>C21 (equivalence). From the start the weapon fires in those of its cycles in which the trigger sequence has changed to
  another valid number since the last valid one: the shots are the valid numbers in their order, without repetitions
  and without the first. Each shot carries the values for the voltage of its cycle.\<close>

theorem turret_shots:
  assumes "status_count s = 0" "last_trigger_sequence s = 0" "\<forall>c \<in> set cs. \<exists>vs. fire_values p (fst (snd c)) = Go vs"
  shows "\<exists>rss. weapon_cycles p cs s = Go rss \<and> list_all2 (shots_ok p) cs rss \<and>
    shots cs rss = tl (remdups_adj (filter valid_trigger (map (\<lambda>c. tc_trigger_sequence (fst c)) cs)))"
  using weapon_cycles_shots [OF assms(1,3)] assms(2) by (simp add: Let_def)

section \<open>Aiming\<close>

definition dclamps :: "('c, 's) turret_library \<Rightarrow> bool" where
  "dclamps lib \<longleftrightarrow> (\<forall>x lo hi. lo \<le> hi \<longrightarrow> dlimit lib (Fin x) (Fin lo) (Fin hi) = Fin (max lo (min hi x)))"

text \<open>An axis at an angle and with a rate that are numbers.\<close>

definition axis_at :: "'s servo_control \<Rightarrow> real \<Rightarrow> real \<Rightarrow> bool" where
  "axis_at c angle rate \<longleftrightarrow> sc_angle_deg c = Fin angle \<and> sc_rate_dps c = Fin rate"

lemma step_axis_at:
  assumes "axis_at c a r" "dclamps lib" "0 \<le> max_rate_accel_dps2 p * tp_period_s p"
  shows "\<exists>r'. axis_at (step_axis lib p (Fin w) c) (a + tp_period_s p * r') r' \<and> \<bar>r' - r\<bar> \<le> max_rate_accel_dps2 p * tp_period_s p \<and>
    (\<bar>w - r\<bar> \<le> max_rate_accel_dps2 p * tp_period_s p \<longrightarrow> r' = w)"
proof -
  define ch where "ch = max_rate_accel_dps2 p * tp_period_s p"
  have "dlimit lib (Fin w) (Fin (r - ch)) (Fin (r + ch)) = Fin (max (r - ch) (min (r + ch) w))"
    using assms(2,3) unfolding ch_def dclamps_def by simp
  then have "axis_at (step_axis lib p (Fin w) c) (a + tp_period_s p * max (r - ch) (min (r + ch) w)) (max (r - ch) (min (r + ch) w))"
    using assms(1) by (simp add: step_axis_def axis_at_def Let_def ch_def [symmetric])
  moreover have "\<bar>max (r - ch) (min (r + ch) w) - r\<bar> \<le> ch" "\<bar>w - r\<bar> \<le> ch \<longrightarrow> max (r - ch) (min (r + ch) w) = w"
    using assms(3) unfolding ch_def [symmetric] by (auto simp: max_def min_def abs_le_iff)
  ultimately show ?thesis unfolding ch_def by blast
qed

text \<open>C30 (bounds). In an active cycle with measured values that are numbers each rate changes by no more than the limit
  and becomes the wanted one where that is within it; the pitch is a period further or at a limit of the pitch
  servo, within both limits; and the yaw is a period further up to whole turns, at most half a turn from where the turret
  looks.\<close>

theorem turret_aim_bounds:
  assumes "DoControl_Active lib p now s = Go s'" "dclamps lib" "desired_rates p now s = Go (Fin w, Fin v)"
    and "axis_at (pitch_control s) a r" "axis_at (yaw_control s) b q" "imu_servo_pitch_deg s = Fin m" "at_yaw (imu_data s) = Fin y"
    and "0 \<le> max_rate_accel_dps2 p * tp_period_s p" "servo_pitch_min_deg p \<le> servo_pitch_max_deg p"
  shows "\<exists>a' r' b' q'. axis_at (pitch_control s') a' r' \<and> axis_at (yaw_control s') b' q' \<and>
    (let change = max_rate_accel_dps2 p * tp_period_s p; low = servo_pitch_min_deg p + m; high = servo_pitch_max_deg p + m
     in \<bar>r' - r\<bar> \<le> change \<and> (\<bar>w - r\<bar> \<le> change \<longrightarrow> r' = w) \<and> \<bar>q' - q\<bar> \<le> change \<and> (\<bar>v - q\<bar> \<le> change \<longrightarrow> q' = v) \<and>
        low \<le> a' \<and> a' \<le> high \<and> a' \<in> {a + tp_period_s p * r', low, high} \<and>
        \<bar>b' - y\<bar> \<le> 180 \<and> (\<exists>k :: int. b' = b + tp_period_s p * q' + 360 * of_int k))"
proof -
  from assms(1) obtain rates rate t pt yt pp yp where g: "desired_rates p now s = Go rates" "aim lib p rates s = (rate, t)"
    "Control p \<lparr>sd_power = True, sd_torque_Nm = pt\<rparr> \<lparr>sd_power = True, sd_torque_Nm = yt\<rparr>
       (t\<lparr>pitch_control := (pitch_control t)\<lparr>sc_pid := pp\<rparr>, yaw_control := (yaw_control t)\<lparr>sc_pid := yp\<rparr>\<rparr>) = Go s'"
    by (rule DoControl_Active_Go)
  from Control_result(1) [OF g(3)] have u: "unsent s' = unsent (t\<lparr>pitch_control := (pitch_control t)\<lparr>sc_pid := pp\<rparr>,
      yaw_control := (yaw_control t)\<lparr>sc_pid := yp\<rparr>\<rparr>)" by (simp add: sent_only_def)
  have same: "axis_at (pitch_control s') x z = axis_at (pitch_control t) x z" "axis_at (yaw_control s') x z = axis_at (yaw_control t) x z" for x z
    using unsent_eqD(5,6) [OF u] by (simp_all add: axis_at_def)
  obtain r' where r: "axis_at (step_axis lib p (Fin w) (pitch_control s)) (a + tp_period_s p * r') r'"
    "\<bar>r' - r\<bar> \<le> max_rate_accel_dps2 p * tp_period_s p" "\<bar>w - r\<bar> \<le> max_rate_accel_dps2 p * tp_period_s p \<longrightarrow> r' = w"
    using step_axis_at [OF assms(4,2,8)] by blast
  obtain q' where q: "axis_at (step_axis lib p (Fin v) (yaw_control s)) (b + tp_period_s p * q') q'"
    "\<bar>q' - q\<bar> \<le> max_rate_accel_dps2 p * tp_period_s p" "\<bar>v - q\<bar> \<le> max_rate_accel_dps2 p * tp_period_s p \<longrightarrow> q' = v"
    using step_axis_at [OF assms(5,2,8)] by blast
  define a' where "a' = max (servo_pitch_min_deg p + m) (min (servo_pitch_max_deg p + m) (a + tp_period_s p * r'))"
  define b' where "b' = y + Degrees (WrapNegPiToPi (Radians (b + tp_period_s p * q' - y)))"
  have rates: "rates = (Fin w, Fin v)" using g(1) assms(3) by simp
  have lim: "dlimit lib (Fin (a + tp_period_s p * r')) (Fin (servo_pitch_min_deg p + m)) (Fin (servo_pitch_max_deg p + m)) = Fin a'"
    using assms(2,9) unfolding a'_def dclamps_def by simp
  have t: "axis_at (pitch_control t) a' r'" "axis_at (yaw_control t) b' q'"
    using g(2) r(1) q(1) lim assms(6,7) unfolding rates b'_def by (auto simp: aim_def Let_def axis_at_def dwrap_def dminus_def)
  have A: "servo_pitch_min_deg p + m \<le> a'" "a' \<le> servo_pitch_max_deg p + m"
    "a' \<in> {a + tp_period_s p * r', servo_pitch_min_deg p + m, servo_pitch_max_deg p + m}"
    using assms(9) unfolding a'_def by (auto simp: max_def min_def)
  let ?x = "b + tp_period_s p * q' - y"
  obtain k :: int where k: "- pi \<le> WrapNegPiToPi (Radians ?x)" "WrapNegPiToPi (Radians ?x) \<le> pi"
    "WrapNegPiToPi (Radians ?x) = Radians ?x + of_int k * (2 * pi)" using wrap_radians by blast
  have d: "b' - y = Degrees (WrapNegPiToPi (Radians ?x))" by (simp add: b'_def)
  have g: "\<bar>Degrees z\<bar> \<le> 180" if "- pi \<le> z" "z \<le> pi" for z
  proof -
    have "\<bar>z\<bar> * 180 \<le> pi * 180" using that by (intro mult_right_mono) auto
    then show ?thesis by (simp add: Degrees_def abs_mult pos_divide_le_eq mult.commute)
  qed
  have "Degrees (WrapNegPiToPi (Radians ?x)) = ?x + 360 * of_int k" unfolding k(3) by (simp add: Degrees_def Radians_def field_simps)
  then have B: "\<bar>b' - y\<bar> \<le> 180" "b' = b + tp_period_s p * q' + 360 * of_int k"
    using g [OF k(1,2)] d by linarith+
  show ?thesis
    unfolding same Let_def
    by (rule exI [of _ a'], rule exI [of _ r'], rule exI [of _ b'], rule exI [of _ q'], intro conjI exI [of _ k])
      (fact t r(2,3) q(2,3) A B)+
qed

section \<open>A turret on the bench\<close>

definition bench_turret :: "(unit, unit) turret_library" where
  "bench_turret = \<lparr>dlimit = (\<lambda>x lo hi. case (x, lo, hi) of (Fin a, Fin b, Fin c) \<Rightarrow> Fin (max b (min c a)) | _ \<Rightarrow> x),
     pid_apply = (\<lambda>_ _ _ _ _ _ _. (Fin 0, ())), pid_start = ()\<rparr>"

definition bench_parameters :: "unit turret_parameters" where
  "bench_parameters = \<lparr>tp_period_s = 1 / 100, tp_pitch = (), tp_yaw = (), servo_pitch_min_deg = - 15, servo_pitch_max_deg = 10,
     imu_servo_filter_s = 2, tp_command_timeout_s = 1, max_rate_accel_dps2 = 1000, target_gain_dps = 10, target_timeout_s = 3 / 10,
     laser_time_10ms = 100, fire_voltage = 6, loader_voltage = 6, fire_time_10ms = 11, loader_time_10ms = 4, tp_voltage_filter_s = 1\<rparr>"

lemma bench_turret_clamps: "dclamps bench_turret"
  by (simp add: dclamps_def bench_turret_def)

text \<open>The first cycle, in which the pitch servo reports a fault.\<close>

definition bench_cycle :: "unit turret" where
  "bench_cycle = (turret_HandleTimer (turret_start bench_turret))\<lparr>tu_command := turret_command_default\<lparr>tc_mode := kActive\<rparr>,
     status_outstanding := 1, status_reply := [\<lparr>rp_id = 1, rp_reg = kFaultReg, rp_value = Some (Int16 5)\<rparr>]\<rparr>"

lemma bench_cycle_runs:
  "\<exists>s'. turret_HandleStatus bench_turret bench_parameters 1 bench_cycle = Go s' \<and> servo_faults s' = [(1, 5)]"
  by (simp add: turret_HandleStatus_def bench_cycle_def turret_HandleTimer_def turret_start_def kWeaponDivider_def turret_UpdateStatus_def
      UpdateServo_def servo_sign_def read_int_def ReadInt_def turret_Fault_def DoControl_Stop_def Control_def AddServoCommand_def
      turret_RunControl_def turret_MaybeChangeMode_def turret_command_default_def servo_faults_def gimbal_default_def servo_off_def Let_def)

theorem turret_fault_stops_witness:
  "\<exists>s'. turret_HandleStatus bench_turret bench_parameters 1 bench_cycle = Go s' \<and> servo_faults s' = [(1, 5)] \<and> tu_mode s' \<noteq> kActive \<and>
     servos_off (tu_client_command s') \<and> transmits s' = 2"
proof -
  obtain s' where s: "turret_HandleStatus bench_turret bench_parameters 1 bench_cycle = Go s'" "servo_faults s' = [(1, 5)]"
    using bench_cycle_runs by blast
  have o: "status_outstanding bench_cycle = 1" "tu_mode bench_cycle = kStop" "transmits bench_cycle = 0"
    by (simp_all add: bench_cycle_def turret_HandleTimer_def turret_start_def)
  from turret_fault_stops [OF s(1) o(1)] s(2) o(2,3) have "tu_mode s' \<noteq> kActive" "transmits s' = 2"
    "if tu_mode s' = kActive then servos_on (tu_client_command s') else servos_off (tu_client_command s')" by simp_all
  then show ?thesis using s by (intro exI [of _ s']) simp
qed


definition bench_pulls :: "(turret_command \<times> double \<times> servo_drive \<times> servo_drive) list" where
  "bench_pulls = map (\<lambda>t. (turret_command_default\<lparr>tc_trigger_sequence := t\<rparr>, Fin 12, servo_off, servo_off)) [1024, 1024, 0, 1030, 1030, 1031]"

theorem turret_shots_witness:
  "\<exists>rss. weapon_cycles bench_parameters bench_pulls (turret_start bench_turret) = Go rss \<and> shots bench_pulls rss = [1030, 1031]"
proof -
  have v: "fire_values bench_parameters (Fin 12) = Go [Int16 500, Int16 11, Int16 500, Int16 4]"
    by (simp add: fire_values_def cast_int16_def bench_parameters_def trunc_def)
  have s: "status_count (turret_start bench_turret) = 0" "last_trigger_sequence (turret_start bench_turret) = 0"
    by (simp_all add: turret_start_def)
  have "\<forall>c \<in> set bench_pulls. \<exists>vs. fire_values bench_parameters (fst (snd c)) = Go vs" using v by (auto simp: bench_pulls_def)
  from turret_shots [OF s this] show ?thesis by (simp add: bench_pulls_def valid_trigger_def turret_command_default_def) blast
qed

theorem turret_aim_bounds_witness:
  "\<exists>s' a' r'. DoControl_Active bench_turret bench_parameters 1 (turret_HandleTimer (turret_start bench_turret)) = Go s' \<and>
     axis_at (pitch_control s') a' r' \<and> - 15 \<le> a' \<and> a' \<le> 10"
proof -
  let ?s = "turret_HandleTimer (turret_start bench_turret)"
  obtain s' where s: "DoControl_Active bench_turret bench_parameters 1 ?s = Go s'"
    by (simp add: DoControl_Active_def desired_rates_def aim_def turret_HandleTimer_def turret_start_def turret_command_default_def
        Control_def AddServoCommand_def servo_sign_def kWeaponDivider_def bench_turret_def Let_def case_prod_beta)
  have d: "desired_rates bench_parameters 1 ?s = Go (Fin 0, Fin 0)"
    by (simp add: desired_rates_def turret_HandleTimer_def turret_start_def turret_command_default_def)
  have a: "axis_at (pitch_control ?s) 0 0" "axis_at (yaw_control ?s) 0 0" "imu_servo_pitch_deg ?s = Fin 0" "at_yaw (imu_data ?s) = Fin 0"
    by (simp_all add: turret_HandleTimer_def turret_start_def control_default_def axis_at_def attitude_default_def)
  have p: "0 \<le> max_rate_accel_dps2 bench_parameters * tp_period_s bench_parameters"
    "servo_pitch_min_deg bench_parameters = - 15" "servo_pitch_max_deg bench_parameters = 10" by (simp_all add: bench_parameters_def)
  then have l: "servo_pitch_min_deg bench_parameters \<le> servo_pitch_max_deg bench_parameters" by simp
  obtain a' r' where "axis_at (pitch_control s') a' r'" "servo_pitch_min_deg bench_parameters + 0 \<le> a'"
    "a' \<le> servo_pitch_max_deg bench_parameters + 0"
    using turret_aim_bounds [OF s bench_turret_clamps d a p(1) l] unfolding Let_def by blast
  then show ?thesis using s p by (intro exI [of _ s'] exI [of _ a'] exI [of _ r']) simp
qed

end
