(* ===== verification/LinkProps.thy ===== *)
theory LinkProps
  imports RfCommand RfProps TurretProps
begin

unbundle bit_operations_syntax

text \<open>
  The console and the robots together: what the operator's console sends is what the controllers of the robot and of the
  turret get, up to the steps and the range of the integers of the slots; the curve of the sticks; and the shots that the
  trigger of the gamepad gives.
\<close>

section \<open>Slots over the air\<close>

text \<open>A slot that has arrived: its bytes, and zeros up to the end.\<close>

definition arrives :: "rf_slot \<Rightarrow> rf_rx \<Rightarrow> bool" where
  "arrives slot rx \<longleftrightarrow> rr_data rx = take (sl_size slot) (sl_data slot) @ replicate (15 - sl_size slot) 0"

lemma arrives_tx_of: "arrives (tx_of p bytes) rx \<Longrightarrow> rr_data rx = bytes @ replicate (15 - length bytes) 0"
  by (simp add: arrives_def)

abbreviation clamp16 :: "int \<Rightarrow> int" where
  "clamp16 \<equiv> clamp (- 32768) 32767"

lemma Saturate16_Fin: "Saturate16 (Fin x) = Go (clamp16 (trunc x))"
  by (simp add: Saturate16_def Saturate_clamp)

lemma clamp16_range: "- (2 ^ 15) \<le> clamp16 x" "clamp16 x \<le> 2 ^ 15 - 1"
  by (simp_all add: clamp_def)

lemma clamp16_id: "- 32768 \<le> x \<Longrightarrow> x \<le> 32767 \<Longrightarrow> clamp16 x = x"
  by (simp add: clamp_def)

text \<open>Two bytes of a slot, as the controllers read them.\<close>

lemma read_int16_little:
  assumes "rf_byte rxs slot pos = word_of_int x" "rf_byte rxs slot (pos + 1) = word_of_int (x div 256)"
    and "- (2 ^ 15) \<le> x" "x \<le> 2 ^ 15 - 1"
  shows "read_int16 rxs slot pos = x"
  unfolding read_int16_def read_uint16_def assms(1,2) by (rule int16_little [OF assms(3,4)])

lemma read_int16_clamp:
  assumes "rf_byte rxs slot pos = word_of_int (clamp16 x)" "rf_byte rxs slot (Suc pos) = word_of_int (clamp16 x div 256)"
  shows "read_int16 rxs slot pos = clamp16 x"
  using read_int16_little [OF assms(1) _ clamp16_range] assms(2) by simp

lemma read_uint16_little:
  assumes "rf_byte rxs slot pos = word_of_int x" "rf_byte rxs slot (pos + 1) = word_of_int (x div 256)"
    and "0 \<le> x" "x \<le> 65535"
  shows "uint (read_uint16 rxs slot pos) = x"
proof -
  have "read_uint16 rxs slot pos = word_of_int x"
    unfolding read_uint16_def assms(1,2)
    by (rule word_cat_bytes)
  then show ?thesis using assms(3,4) by (simp add: unsigned_of_int take_bit_int_eq_self)
qed

lemma scaled_step:
  assumes "\<bar>x\<bar> \<le> scale" "0 < scale"
  shows "\<bar>scale * of_int (clamp16 (trunc (32767 * x / scale))) / 32767 - x\<bar> < scale / 32767"
proof -
  let ?s = "32767 * x / scale" and ?t = "trunc (32767 * x / scale)"
  have "\<bar>?s\<bar> \<le> 32767" using assms by (simp add: abs_mult pos_divide_le_eq)
  then have "\<bar>of_int ?t :: real\<bar> \<le> 32767" using trunc_error(2) [of ?s] by linarith
  then have "clamp16 ?t = ?t" by (intro clamp16_id) linarith+
  moreover have "scale * of_int ?t / 32767 - x = - ((?s - of_int ?t) * (scale / 32767))"
    using assms(2) by (simp add: field_simps)
  moreover have "\<bar>?s - of_int ?t\<bar> * (scale / 32767) < 1 * (scale / 32767)"
    using trunc_error(1) [of ?s] assms(2) by (intro mult_strict_right_mono) auto
  ultimately show ?thesis using assms(2) by (simp add: abs_mult)
qed

section \<open>The slots of the console\<close>

lemma tx_slot_sent:
  assumes "tx_slot lib r (int k) slot s = Go s'" "length (tx_slots s r) = 15"
  shows "tx_slots s' r ! k = slot" "remote \<noteq> r \<or> j \<noteq> k \<Longrightarrow> tx_slots s' remote ! j = tx_slots s remote ! j"
    "length (tx_slots s' remote) = length (tx_slots s remote)"
  using assms by (auto simp: tx_slot_def split: if_splits)

lemma SlotCommand_sent:
  assumes "SlotCommand nlib lib d dev = Go dev'" "slots_typed (tx_slots dev)"
  shows "send_mode lib d = Go (tx_slots dev' 0 ! 0)" "send_velocity lib d = Go (tx_slots dev' 0 ! 2)"
    "tx_slots dev' 1 ! 0 = send_turret_mode d" "send_turret_rate lib d = Go (tx_slots dev' 1 ! 1)"
    "tx_slots dev' 1 ! 2 = send_turret_weapon lib d"
proof -
  from assms(1) obtain a b c d1 d2 d3 d4 where
    s: "send_mode lib d = Go a" "send_velocity lib d = Go b" "send_turret_rate lib d = Go c"
    and t: "tx_slot nlib 0 (int 0) a dev = Go d1" "tx_slot nlib 0 (int 2) b d1 = Go d2" "tx_slot nlib 1 (int 0) (send_turret_mode d) d2 = Go d3"
      "tx_slot nlib 1 (int 1) c d3 = Go d4" "tx_slot nlib 1 (int 2) (send_turret_weapon lib d) d4 = Go dev'"
    by (auto simp: SlotCommand_def rbind_Go kRemoteRobot_def kRemoteTurret_def)
  have l: "length (tx_slots dev r) = 15" for r using slots_typedD(1) [OF assms(2)] .
  have l1: "length (tx_slots d1 r) = 15" for r using tx_slot_sent(3) [OF t(1) l] l by simp
  have l2: "length (tx_slots d2 r) = 15" for r using tx_slot_sent(3) [OF t(2) l1] l1 by simp
  have l3: "length (tx_slots d3 r) = 15" for r using tx_slot_sent(3) [OF t(3) l2] l2 by simp
  have l4: "length (tx_slots d4 r) = 15" for r using tx_slot_sent(3) [OF t(4) l3] l3 by simp
  note p = tx_slot_sent(1,2) [OF t(1) l] tx_slot_sent(1,2) [OF t(2) l1] tx_slot_sent(1,2) [OF t(3) l2]
    tx_slot_sent(1,2) [OF t(4) l3] tx_slot_sent(1,2) [OF t(5) l4]
  show "send_mode lib d = Go (tx_slots dev' 0 ! 0)" "send_velocity lib d = Go (tx_slots dev' 0 ! 2)"
    "tx_slots dev' 1 ! 0 = send_turret_mode d" "send_turret_rate lib d = Go (tx_slots dev' 1 ! 1)"
    "tx_slots dev' 1 ! 2 = send_turret_weapon lib d"
    using s p by simp_all
qed

lemma little_pair: "little lib \<Longrightarrow> little_endian lib 2 x @ ys = word_of_int x # word_of_int (x div 256) # ys"
  by (simp add: little_16)

text \<open>The slot of the mode: its first byte, and the jump.\<close>

lemma send_mode_arrives:
  assumes "send_mode lib d = Go slot" "little lib" "arrives slot (rxs ! 0)"
  shows "rf_byte rxs 0 0 = mode_code (dc_mode d) \<and>
    (dc_mode d = kJump \<longrightarrow> rf_jump rxs = \<lparr>jump_acceleration = of_int (trunc (dc_jump_accel d)), jump_repeat = True\<rparr>)"
proof (cases "dc_mode d = kJump")
  case False
  then show ?thesis using assms(1) arrives_tx_of [where rx = "rxs ! 0"] assms(3)
    by (auto simp: send_mode_def rf_byte_def)
next
  case True
  define accel where "accel = trunc (dc_jump_accel d)"
  have range: "0 \<le> accel" "accel \<le> 65535"
    and slot: "slot = tx_of 0xffffffff [8, 1, word_of_int accel, word_of_int (accel div 256)]"
    using assms(1,2) True
    by (auto simp: send_mode_def rbind_Go cast_uint16_def accel_def little_16 little_8 split: if_splits)
  have v: "rr_data (rxs ! 0) = [8, 1, word_of_int accel, word_of_int (accel div 256)] @ replicate 11 0"
    using arrives_tx_of [where rx = "rxs ! 0"] assms(3) slot by simp
  have "uint (read_uint16 rxs 0 2) = accel"
    by (rule read_uint16_little) (simp_all add: rf_byte_def v range)
  then show ?thesis using v True by (simp add: rf_jump_def rf_byte_def accel_def)
qed

text \<open>C22 (roundtrip). The command that the robot makes of the slots of the console has the mode of the operator, a jump with
  the whole part of the acceleration, the velocities cut to whole units, so none of them below one unit, and the
  rotation up to one step of its scale.\<close>

theorem robot_link:
  assumes "SlotCommand nlib lib d dev = Go dev'" "slots_typed (tx_slots dev)" "little lib" "dc_v_x d = Fin x"
    and "arrives (tx_slots dev' 0 ! 0) (rxs ! 0)" "arrives (tx_slots dev' 0 ! 2) (rxs ! 2)"
  shows "let c = rf_command lib' rxs
    in (dc_mode d \<in> {kStopped, kZeroVelocity, kRest, kJump, kWalk} \<longrightarrow> cmd_mode c = dc_mode d) \<and>
       cmd_jump c = (if dc_mode d = kJump then Some \<lparr>jump_acceleration = of_int (trunc (dc_jump_accel d)), jump_repeat = True\<rparr> else None) \<and>
       vx (v_R c) = of_int (clamp16 (trunc x)) \<and> vy (v_R c) = of_int (clamp16 (trunc (dc_v_y d))) \<and>
       (\<bar>x\<bar> < 1 \<longrightarrow> vx (v_R c) = 0) \<and> (\<bar>dc_v_y d\<bar> < 1 \<longrightarrow> vy (v_R c) = 0) \<and>
       (\<bar>dc_w_z d\<bar> \<le> 2 * pi \<longrightarrow> \<bar>vz (w_R c) - dc_w_z d\<bar> < 2 * pi / 32767)"
proof -
  note s = SlotCommand_sent [OF assms(1,2)]
  define a where "a = clamp16 (trunc x)"
  define b where "b = clamp16 (trunc (dc_v_y d))"
  define w where "w = clamp16 (trunc (32767 * dc_w_z d / (2 * pi)))"
  have "tx_slots dev' 0 ! 2 = tx_of 0xffffffff [word_of_int a, word_of_int (a div 256), word_of_int b, word_of_int (b div 256),
      word_of_int w, word_of_int (w div 256)]"
    using s(2) by (simp add: send_velocity_def Saturate16_Fin assms(4) little_16 [OF assms(3)] a_def b_def w_def)
  then have v: "rr_data (rxs ! 2) = [word_of_int a, word_of_int (a div 256), word_of_int b, word_of_int (b div 256),
      word_of_int w, word_of_int (w div 256)] @ replicate 9 0"
    using arrives_tx_of [where rx = "rxs ! 2"] assms(6) by simp
  have r: "read_int16 rxs 2 0 = a" "read_int16 rxs 2 2 = b" "read_int16 rxs 2 4 = w"
    by (simp_all add: read_int16_clamp rf_byte_def v a_def b_def w_def)
  have z: "\<bar>y\<bar> < 1 \<Longrightarrow> clamp16 (trunc y) = 0" for y :: real
    using trunc_error(2) [of y] by (simp add: clamp_def)
  have rot: "\<bar>2 * pi * of_int w / 32767 - dc_w_z d\<bar> < 2 * pi / 32767" if "\<bar>dc_w_z d\<bar> \<le> 2 * pi"
    using scaled_step [OF that] by (simp add: w_def)
  have m: "rf_byte rxs 0 0 = mode_code (dc_mode d)"
    and j: "dc_mode d = kJump \<Longrightarrow> rf_jump rxs = \<lparr>jump_acceleration = of_int (trunc (dc_jump_accel d)), jump_repeat = True\<rparr>"
    using send_mode_arrives [OF s(1) assms(3,5)] by auto
  have "cmd_mode (rf_command lib' rxs) = dc_mode d" if "dc_mode d \<in> {kStopped, kZeroVelocity, kRest, kJump, kWalk}"
    using m that by (auto simp: rf_command_def rf_mode_def Let_def)
  moreover have "cmd_jump (rf_command lib' rxs) =
      (if dc_mode d = kJump then Some \<lparr>jump_acceleration = of_int (trunc (dc_jump_accel d)), jump_repeat = True\<rparr> else None)"
    using m j by (cases "dc_mode d") (simp_all add: rf_command_def Let_def)
  moreover have "v_R (rf_command lib' rxs) = \<lparr>vx = of_int a, vy = of_int b, vz = 0\<rparr>"
    by (simp add: rf_command_def Let_def r)
  moreover have "\<bar>vz (w_R (rf_command lib' rxs)) - dc_w_z d\<bar> < 2 * pi / 32767" if "\<bar>dc_w_z d\<bar> \<le> 2 * pi"
    using rot [OF that] by (simp add: rf_command_def Let_def r)
  ultimately show ?thesis using z [of x] z [of "dc_v_y d"] by (simp add: Let_def a_def b_def)
qed

text \<open>The console with no text to send, and its slots in the air.\<close>

lemma SlotCommand_Go:
  assumes "nrf_between dev" "little lib" "send_mode lib d = Go a" "send_velocity lib d = Go b" "length (sl_data a) = 16" "sl_size a \<le> 16"
  shows "\<exists>dev'. SlotCommand nlib lib d dev = Go dev'"
proof -
  have b: "length (sl_data b) = 16" "sl_size b \<le> 16"
    using assms(4) little_length [OF assms(2)] by (auto simp: send_velocity_def rbind_Go)
  obtain c where c: "send_turret_rate lib d = Go c" by (simp add: send_turret_rate_def Saturate16_Fin)
  have cl: "length (sl_data c) = 16" "sl_size c \<le> 16"
    using c little_length [OF assms(2)] by (auto simp: send_turret_rate_def rbind_Go)
  obtain d1 where d1: "tx_slot nlib kRemoteRobot 0 a dev = Go d1" "nrf_between d1"
    using tx_slot_between [OF assms(1) _ _ assms(5,6), of 0 nlib kRemoteRobot] by auto
  obtain d2 where d2: "tx_slot nlib kRemoteRobot 2 b d1 = Go d2" "nrf_between d2"
    using tx_slot_between [OF d1(2) _ _ b, of 2 nlib kRemoteRobot] by auto
  obtain d3 where d3: "tx_slot nlib kRemoteTurret 0 (send_turret_mode d) d2 = Go d3" "nrf_between d3"
    using tx_slot_between [OF d2(2), of 0 "send_turret_mode d" nlib kRemoteTurret] by (auto simp: send_turret_mode_def)
  obtain d4 where d4: "tx_slot nlib kRemoteTurret 1 c d3 = Go d4" "nrf_between d4"
    using tx_slot_between [OF d3(2) _ _ cl, of 1 nlib kRemoteTurret] by auto
  obtain d5 where "tx_slot nlib kRemoteTurret 2 (send_turret_weapon lib d) d4 = Go d5"
    using tx_slot_between [OF d4(2), of 2 "send_turret_weapon lib d" nlib kRemoteTurret] little_length [OF assms(2)]
    by (auto simp: send_turret_weapon_def)
  then show ?thesis using assms(3,4) c d1 d2 d3 d4 by (simp add: SlotCommand_def)
qed

definition bench_drive :: "Mode \<Rightarrow> real \<Rightarrow> drive_command" where
  "bench_drive mode x = \<lparr>dc_mode = mode, dc_v_x = Fin x, dc_v_y = 0, dc_w_z = 1, dc_jump_accel = 2, dc_turret_mode = kActive,
     dc_turret_pitch_dps = 20, dc_turret_yaw_dps = 10, dc_turret_track = True, dc_turret_laser = False, dc_fire_sequence = 1024\<rparr>"

definition arrival :: "rf_slot \<Rightarrow> rf_rx" where
  "arrival slot = \<lparr>rr_timestamp = Some 0, rr_size = sl_size slot,
     rr_data = take (sl_size slot) (sl_data slot) @ replicate (15 - sl_size slot) 0\<rparr>"

lemma arrives_arrival: "arrives slot (arrival slot)"
  by (simp add: arrives_def arrival_def)

lemma bench_sent: "\<exists>dev'. SlotCommand bench_nrf bench_rf (bench_drive kJump x) (nrf_start bench_nrf 1 2) = Go dev'"
  by (rule SlotCommand_Go [OF nrf_start_between bench_rf_little, where a = "tx_of 0xffffffff [8, 1, 2, 0]"])
    (simp_all add: bench_rf_little send_mode_def send_velocity_def bench_drive_def cast_uint16_def trunc_def Saturate16_Fin little_16 little_8)

lemma bench_typed: "slots_typed (tx_slots (nrf_start bench_nrf 1 2))"
  using nrf_start_between by (simp add: nrf_between_def)

theorem robot_link_witness:
  "\<exists>rxs. cmd_jump (rf_command bench_rf rxs) = Some \<lparr>jump_acceleration = 2, jump_repeat = True\<rparr> \<and> vx (v_R (rf_command bench_rf rxs)) = 0 \<and>
     \<bar>vz (w_R (rf_command bench_rf rxs)) - 1\<bar> < 2 * pi / 32767"
proof -
  obtain dev' where s: "SlotCommand bench_nrf bench_rf (bench_drive kJump (4 / 10)) (nrf_start bench_nrf 1 2) = Go dev'"
    using bench_sent by blast
  define rxs where "rxs = [arrival (tx_slots dev' 0 ! 0), arrival (tx_slots dev' 0 ! 1), arrival (tx_slots dev' 0 ! 2)]"
  have "1 \<le> 2 * pi" using pi_ge_two by simp
  then show ?thesis
    using robot_link [OF s bench_typed bench_rf_little, of "4 / 10" rxs bench_rf]
    by (intro exI [of _ rxs]) (simp add: Let_def bench_drive_def rxs_def arrives_arrival trunc_def)
qed

text \<open>C26 (roundtrip). The command that the turret makes of the slots of the console has the mode, the tracking, the laser and
  the number of the trigger of the operator, and the rates up to one step of their scale.\<close>

theorem turret_link:
  assumes "SlotCommand nlib lib d dev = Go dev'" "slots_typed (tx_slots dev)" "little lib"
    and "\<And>k. k < 3 \<Longrightarrow> arrives (tx_slots dev' 1 ! k) (rxs ! k)"
    and "\<bar>dc_turret_pitch_dps d\<bar> \<le> 400" "\<bar>dc_turret_yaw_dps d\<bar> \<le> 400" "\<bar>dc_fire_sequence d\<bar> < 2 ^ 15"
  shows "let c = turret_rf_command rxs
    in (dc_turret_mode d \<noteq> kTurretFault \<longrightarrow> tc_mode c = dc_turret_mode d) \<and> tc_track_target c = dc_turret_track d \<and>
       tc_laser_enable c = dc_turret_laser d \<and> tc_trigger_sequence c = dc_fire_sequence d \<and>
       (\<exists>p y. tc_pitch_rate_dps c = Fin p \<and> tc_yaw_rate_dps c = Fin y \<and>
          \<bar>p - dc_turret_pitch_dps d\<bar> < 400 / 32767 \<and> \<bar>y - dc_turret_yaw_dps d\<bar> < 400 / 32767)"
proof -
  note s = SlotCommand_sent(3-5) [OF assms(1,2)]
  define a where "a = clamp16 (trunc (32767 * dc_turret_pitch_dps d / 400))"
  define b where "b = clamp16 (trunc (32767 * dc_turret_yaw_dps d / 400))"
  have v0: "rf_byte rxs 0 0 = turret_mode_code (dc_turret_mode d)"
    using arrives_tx_of [where rx = "rxs ! 0"] assms(4) [of 0] by (simp add: s(1) send_turret_mode_def rf_byte_def)
  have "tx_slots dev' 1 ! 1 = tx_of 0xffffffff [word_of_int a, word_of_int (a div 256), word_of_int b, word_of_int (b div 256),
      if dc_turret_track d then 1 else 0]"
    using s(2) by (cases "dc_turret_track d")
      (simp_all add: send_turret_rate_def Saturate16_Fin little_16 [OF assms(3)] little_8 [OF assms(3)] a_def b_def)
  then have v1: "rr_data (rxs ! 1) = [word_of_int a, word_of_int (a div 256), word_of_int b, word_of_int (b div 256),
      if dc_turret_track d then 1 else 0] @ replicate 10 0"
    using arrives_tx_of [where rx = "rxs ! 1"] assms(4) [of 1] by simp
  have v2: "rr_data (rxs ! 2) = [if dc_turret_laser d then 1 else 0, word_of_int (dc_fire_sequence d),
      word_of_int (dc_fire_sequence d div 256)] @ replicate 12 0"
    using arrives_tx_of [where rx = "rxs ! 2"] assms(4) [of 2]
    by (simp add: s(3) send_turret_weapon_def little_16 [OF assms(3)] little_8 [OF assms(3)])
  have r: "read_int16 rxs 1 0 = a" "read_int16 rxs 1 2 = b" using v1 by (simp_all add: read_int16_clamp rf_byte_def a_def b_def)
  have f: "read_int16 rxs 2 1 = dc_fire_sequence d"
    using assms(7) by (intro read_int16_little) (simp_all add: rf_byte_def v2)
  have rates: "\<bar>400 * of_int a / 32767 - dc_turret_pitch_dps d\<bar> < 400 / 32767" "\<bar>400 * of_int b / 32767 - dc_turret_yaw_dps d\<bar> < 400 / 32767"
    using scaled_step [OF assms(5)] scaled_step [OF assms(6)] by (simp_all add: a_def b_def)
  have m: "turret_rf_mode (rf_byte rxs 0 0) = dc_turret_mode d" if "dc_turret_mode d \<noteq> kTurretFault"
    using that by (cases "dc_turret_mode d") (simp_all add: v0 turret_rf_mode_def)
  have "tc_track_target (turret_rf_command rxs) = dc_turret_track d" "tc_laser_enable (turret_rf_command rxs) = dc_turret_laser d"
    using v1 v2 by (simp_all add: turret_rf_command_def rf_byte_def)
  moreover have "tc_pitch_rate_dps (turret_rf_command rxs) = Fin (400 * of_int a / 32767)"
    "tc_yaw_rate_dps (turret_rf_command rxs) = Fin (400 * of_int b / 32767)"
    "tc_mode (turret_rf_command rxs) = turret_rf_mode (rf_byte rxs 0 0)" "tc_trigger_sequence (turret_rf_command rxs) = dc_fire_sequence d"
    by (simp_all only: turret_rf_command_def r f turret_command.simps)
  ultimately show ?thesis using m rates unfolding Let_def by metis
qed

theorem turret_link_witness:
  "\<exists>rxs p. tc_mode (turret_rf_command rxs) = kActive \<and> tc_trigger_sequence (turret_rf_command rxs) = 1024 \<and>
     tc_pitch_rate_dps (turret_rf_command rxs) = Fin p \<and> \<bar>p - 20\<bar> < 400 / 32767"
proof -
  obtain dev' where s: "SlotCommand bench_nrf bench_rf (bench_drive kJump 0) (nrf_start bench_nrf 1 2) = Go dev'"
    using bench_sent by blast
  define rxs where "rxs = [arrival (tx_slots dev' 1 ! 0), arrival (tx_slots dev' 1 ! 1), arrival (tx_slots dev' 1 ! 2)]"
  have a: "arrives (tx_slots dev' 1 ! k) (rxs ! k)" if "k < 3" for k
    using that arrives_arrival by (auto simp: rxs_def less_Suc_eq eval_nat_numeral)
  show ?thesis
    using turret_link [OF s bench_typed bench_rf_little a]
    by (intro exI [of _ rxs]) (auto simp: Let_def bench_drive_def)
qed

section \<open>The sticks\<close>

definition expo_ok :: "expo_options \<Rightarrow> bool" where
  "expo_ok o1 \<longleftrightarrow> 0 \<le> deadband o1 \<and> deadband o1 < slow_range o1 \<and> slow_range o1 < 1 \<and> 0 \<le> slow_value o1 \<and> slow_value o1 \<le> 1"

lemma expo_console: "expo_ok expo" "expo_ok turret_walk_expo" "expo_ok lateral_walk_expo"
  by (simp_all add: expo_ok_def expo_def turret_walk_expo_def lateral_walk_expo_def)

text \<open>The curve on the positive side: three pieces that meet.\<close>

definition expo_pos :: "expo_options \<Rightarrow> real \<Rightarrow> real" where
  "expo_pos o1 x =
     (if x < deadband o1 then 0
      else if x < slow_range o1 then slow_value o1 * (x - deadband o1) / (slow_range o1 - deadband o1)
      else (x - slow_range o1) / (1 - slow_range o1) * (1 - slow_value o1) + slow_value o1)"

lemma ExpoMap_pos: "0 \<le> x \<Longrightarrow> ExpoMap o1 x = expo_pos o1 x"
  by (simp add: ExpoMap_def expo_pos_def copysign1_def)

lemma ExpoMap_neg: "expo_ok o1 \<Longrightarrow> x < 0 \<Longrightarrow> ExpoMap o1 x = - expo_pos o1 (- x)"
  by (simp add: ExpoMap_def expo_pos_def copysign1_def Let_def expo_ok_def divide_simps) (simp add: algebra_simps)

lemma expo_slow:
  assumes "expo_ok o1" "deadband o1 \<le> x" "x < slow_range o1"
  shows "0 \<le> slow_value o1 * (x - deadband o1) / (slow_range o1 - deadband o1)"
    "slow_value o1 * (x - deadband o1) / (slow_range o1 - deadband o1) \<le> slow_value o1"
  using assms by (simp_all add: expo_ok_def pos_divide_le_eq mult_left_mono)

lemma expo_fast:
  assumes "expo_ok o1" "slow_range o1 \<le> x"
  shows "slow_value o1 \<le> (x - slow_range o1) / (1 - slow_range o1) * (1 - slow_value o1) + slow_value o1"
  using assms by (simp add: expo_ok_def)

lemma expo_pos_mono:
  assumes "expo_ok o1" "x \<le> y"
  shows "expo_pos o1 x \<le> expo_pos o1 y"
proof -
  consider "y < slow_range o1" | "slow_range o1 \<le> x" | "x < slow_range o1" "slow_range o1 \<le> y" by linarith
  then show ?thesis
  proof cases
    case 1
    then show ?thesis using assms expo_slow [OF assms(1), of y]
      by (auto simp: expo_pos_def expo_ok_def intro!: divide_right_mono mult_left_mono)
  next
    case 2
    then show ?thesis using assms
      by (auto simp: expo_pos_def expo_ok_def intro!: divide_right_mono mult_right_mono)
  next
    case 3
    have "expo_pos o1 x \<le> slow_value o1"
      using expo_slow [OF assms(1), of x] 3 assms(1) by (auto simp: expo_pos_def expo_ok_def)
    also have "slow_value o1 \<le> expo_pos o1 y"
      using expo_fast [OF assms(1) 3(2)] 3 assms(1) by (simp only: expo_pos_def expo_ok_def) auto
    finally show ?thesis .
  qed
qed

lemma expo_pos_0: "expo_ok o1 \<Longrightarrow> expo_pos o1 0 = 0" and expo_pos_1: "expo_ok o1 \<Longrightarrow> expo_pos o1 1 = 1"
  by (auto simp: expo_pos_def expo_ok_def)

text \<open>The curve of a stick is odd and monotone; it is zero in the middle and one at the end, so a stick within
  one is mapped within one.\<close>

theorem expo_curve:
  assumes "0 \<le> deadband o1" "deadband o1 < slow_range o1" "slow_range o1 < 1" "0 \<le> slow_value o1" "slow_value o1 \<le> 1"
  shows "ExpoMap o1 (- x) = - ExpoMap o1 x \<and> (x \<le> y \<longrightarrow> ExpoMap o1 x \<le> ExpoMap o1 y) \<and>
    (\<bar>x\<bar> < deadband o1 \<longrightarrow> ExpoMap o1 x = 0) \<and> ExpoMap o1 1 = 1 \<and> (\<bar>x\<bar> \<le> 1 \<longrightarrow> \<bar>ExpoMap o1 x\<bar> \<le> 1)"
proof -
  have ok: "expo_ok o1" using assms by (simp add: expo_ok_def)
  have nonneg: "0 \<le> z \<Longrightarrow> 0 \<le> expo_pos o1 z" and le1: "z \<le> 1 \<Longrightarrow> expo_pos o1 z \<le> 1" for z
    using expo_pos_mono [OF ok] expo_pos_0 [OF ok] expo_pos_1 [OF ok] by metis+
  note e = ExpoMap_pos [of _ o1] ExpoMap_neg [OF ok]
  have odd: "ExpoMap o1 (- x) = - ExpoMap o1 x"
    using e expo_pos_0 [OF ok] by (cases x "0 :: real" rule: linorder_cases) simp_all
  moreover have "ExpoMap o1 x \<le> ExpoMap o1 y" if "x \<le> y"
  proof -
    consider "0 \<le> x" | "y < 0" | "x < 0" "0 \<le> y" by linarith
    then show ?thesis using that nonneg [of "- x"] nonneg [of y] expo_pos_mono [OF ok]
      by cases (simp_all add: e)
  qed
  moreover have "\<bar>ExpoMap o1 x\<bar> \<le> 1" if "\<bar>x\<bar> \<le> 1"
    using that nonneg [of "\<bar>x\<bar>"] le1 [of "\<bar>x\<bar>"] by (cases "0 \<le> x") (simp_all add: e)
  ultimately show ?thesis by (simp add: ExpoMap_def [of o1 x]) (simp add: e expo_pos_1 [OF ok])
qed

theorem expo_curve_witness: "ExpoMap expo (- 1) = - 1 \<and> \<bar>ExpoMap expo (1 / 2)\<bar> \<le> 1"
  using expo_curve [of expo 1 1] expo_curve [of expo "1 / 2" 1] expo_console(1) by (simp add: expo_ok_def)

section \<open>The trigger\<close>

text \<open>The frames of a session, each with the angle of the turret; the commands that the console sends.\<close>

fun operator_run ::
  "(double \<Rightarrow> double \<Rightarrow> double \<Rightarrow> double) \<Rightarrow> options \<Rightarrow> (real \<times> frame) list \<Rightarrow> operator \<Rightarrow> drive_command list run" where
  "operator_run limit_fn opt [] s = Go []"
| "operator_run limit_fn opt ((yaw, fr) # frs) s =
     rbind (operator_frame limit_fn opt yaw fr s) (\<lambda>(d, s). rbind (operator_run limit_fn opt frs s) (\<lambda>ds. Go (d # ds)))"

text \<open>The pulls of the trigger, with the hysteresis of its axis: it is down above zero and up below minus a half.\<close>

definition trigger_after :: "bool \<Rightarrow> frame \<Rightarrow> bool" where
  "trigger_after down fr \<longleftrightarrow> (if down then fr_right_trigger fr \<ge> - (1 / 2) else fr_right_trigger fr > 0)"

fun trigger_pulls :: "bool \<Rightarrow> frame list \<Rightarrow> nat" where
  "trigger_pulls down [] = 0"
| "trigger_pulls down (fr # frs) =
     (if trigger_after down fr \<and> \<not> down then 1 else 0) + trigger_pulls (trigger_after down fr) frs"

definition operator_ok :: "operator \<Rightarrow> bool" where
  "operator_ok s \<longleftrightarrow> op_pending_gait s < kNumGaitModes \<and> op_pending_turret s < kNumTurretModes \<and>
     op_old_trigger_down s = op_trigger_down s \<and> (op_fire_sequence s = 0 \<or> valid_trigger (op_fire_sequence s))"

definition clicks_ok :: "frame \<Rightarrow> bool" where
  "clicks_ok fr \<longleftrightarrow> (\<forall>k. fr_gait_click fr = Some k \<longrightarrow> k < kNumGaitModes) \<and> (\<forall>k. fr_turret_click fr = Some k \<longrightarrow> k < kNumTurretModes)"

lemma select_less: "pending < n \<Longrightarrow> \<forall>k. click = Some k \<longrightarrow> k < n \<Longrightarrow> select n b fr s click pending < n"
  by (auto simp: select_def Let_def split: option.splits)

lemma gait_mode_Go: "k < kNumGaitModes \<Longrightarrow> \<exists>m. gait_mode k = Go m"
  by (auto simp: gait_mode_def kNumGaitModes_def)

lemma turret_mode_of_Go: "k < kNumTurretModes \<Longrightarrow> \<exists>m. turret_mode_of k = Go m"
  by (auto simp: turret_mode_of_def kNumTurretModes_def)

lemma next_fire_sequence_valid: "n = 0 \<or> valid_trigger n \<Longrightarrow> valid_trigger (next_fire_sequence n) \<and> next_fire_sequence n \<noteq> n"
  by (auto simp: next_fire_sequence_def valid_trigger_def Let_def)

text \<open>What a frame does, seen at the trigger.\<close>

definition same_trigger :: "operator \<Rightarrow> operator \<Rightarrow> bool" where
  "same_trigger s' s \<longleftrightarrow> op_trigger_down s' = op_trigger_down s \<and> op_old_trigger_down s' = op_old_trigger_down s \<and>
     op_fire_sequence s' = op_fire_sequence s"

lemma DrawGait_Go:
  assumes "op_pending_gait s < kNumGaitModes" "clicks_ok fr"
  shows "\<exists>s'. DrawGait fr s = Go s' \<and> op_pending_gait s' < kNumGaitModes \<and> op_pending_turret s' = op_pending_turret s \<and> same_trigger s' s"
proof -
  define k where "k = select kNumGaitModes (held ButtonY fr) fr s (fr_gait_click fr) (op_pending_gait s)"
  have "k < kNumGaitModes" unfolding k_def by (rule select_less) (use assms in \<open>simp_all add: clicks_ok_def\<close>)
  moreover obtain m where "gait_mode k = Go m" using gait_mode_Go [OF calculation] by blast
  ultimately show ?thesis by (simp only: DrawGait_def Let_def k_def [symmetric]) (simp add: same_trigger_def)
qed

lemma DrawTurret_Go:
  assumes "op_pending_turret s < kNumTurretModes" "clicks_ok fr"
  shows "\<exists>s'. DrawTurret fr s = Go s' \<and> op_pending_turret s' < kNumTurretModes \<and> op_pending_gait s' = op_pending_gait s \<and> same_trigger s' s"
proof -
  define k where "k = select kNumTurretModes (held ButtonX fr) fr s (fr_turret_click fr) (op_pending_turret s)"
  have "k < kNumTurretModes" unfolding k_def by (rule select_less) (use assms in \<open>simp_all add: clicks_ok_def\<close>)
  moreover obtain m where "turret_mode_of k = Go m" using turret_mode_of_Go [OF calculation] by blast
  ultimately show ?thesis by (simp only: DrawTurret_def Let_def k_def [symmetric]) (simp add: same_trigger_def)
qed

lemma operator_frame_Go:
  assumes "operator_ok s" "clicks_ok fr" "opt_turret opt"
  shows "\<exists>d s'. operator_frame limit_fn opt yaw fr s = Go (d, s') \<and> operator_ok s' \<and> dc_fire_sequence d = op_fire_sequence s' \<and>
    op_trigger_down s' = trigger_after (op_trigger_down s) fr \<and>
    op_fire_sequence s' = (if op_trigger_down s' \<and> \<not> op_trigger_down s then next_fire_sequence (op_fire_sequence s) else op_fire_sequence s)"
proof -
  let ?s0 = "zoom_step opt fr (read_trigger fr s)"
  have s0: "op_pending_gait ?s0 = op_pending_gait s" "op_pending_turret ?s0 = op_pending_turret s"
    "op_trigger_down ?s0 = trigger_after (op_trigger_down s) fr" "op_old_trigger_down ?s0 = op_trigger_down s"
    "op_fire_sequence ?s0 = op_fire_sequence s"
    using assms(1) by (auto simp: zoom_step_def read_trigger_def trigger_after_def operator_ok_def Let_def)
  obtain s1 where s1: "DrawGait fr ?s0 = Go s1" "op_pending_gait s1 < kNumGaitModes" "op_pending_turret s1 = op_pending_turret ?s0"
    "same_trigger s1 ?s0"
    using DrawGait_Go [OF _ assms(2), of ?s0] assms(1) s0(1) by (auto simp: operator_ok_def)
  obtain s2 where s2: "DrawTurret fr s1 = Go s2" "op_pending_turret s2 < kNumTurretModes" "op_pending_gait s2 = op_pending_gait s1"
    "same_trigger s2 s1"
    using DrawTurret_Go [OF _ assms(2), of s1] assms(1) s0(2) s1(3) by (auto simp: operator_ok_def)
  have t: "op_trigger_down s2 = trigger_after (op_trigger_down s) fr" "op_old_trigger_down s2 = op_trigger_down s"
    "op_fire_sequence s2 = op_fire_sequence s"
    using s1(4) s2(4) s0 by (simp_all add: same_trigger_def)
  show ?thesis
    using s1(1-3) s2(1-3) t assms(1,3) next_fire_sequence_valid [of "op_fire_sequence s"]
    by (auto simp: operator_frame_def Let_def turret_buttons_def trigger_pressed_def end_frame_def operator_ok_def)
qed

lemma remdups_adj_cong: "remdups_adj xs = remdups_adj ys \<Longrightarrow> remdups_adj (x # xs) = remdups_adj (x # ys)"
  by (simp add: remdups_adj_Cons)

lemma remdups_adj_filter: "remdups_adj (filter P (remdups_adj xs)) = remdups_adj (filter P xs)"
proof (induction xs rule: remdups_adj.induct)
  case (3 x y xs)
  then show ?case using remdups_adj_cong [of "filter P (remdups_adj (y # xs))" "filter P (y # xs)" x]
    by (cases "x = y") auto
qed simp_all

lemma operator_run_pulls:
  assumes "operator_ok s" "\<forall>f \<in> set fs. clicks_ok (snd f)" "opt_turret opt"
  shows "\<exists>ds. operator_run limit_fn opt fs s = Go ds \<and> length ds = length fs \<and>
    length (remdups_adj (op_fire_sequence s # map dc_fire_sequence ds)) = Suc (trigger_pulls (op_trigger_down s) (map snd fs)) \<and>
    remdups_adj (op_fire_sequence s # map dc_fire_sequence ds) =
      (if op_fire_sequence s = 0 then 0 # remdups_adj (filter valid_trigger (map dc_fire_sequence ds))
       else remdups_adj (op_fire_sequence s # filter valid_trigger (map dc_fire_sequence ds)))"
  using assms(1,2)
proof (induction fs arbitrary: s)
  case Nil
  then show ?case by simp
next
  case (Cons f fs)
  obtain yaw fr where f: "f = (yaw, fr)" by (cases f)
  let ?n = "op_fire_sequence s"
  obtain d s' where d: "operator_frame limit_fn opt yaw fr s = Go (d, s')" "operator_ok s'" "dc_fire_sequence d = op_fire_sequence s'"
    "op_trigger_down s' = trigger_after (op_trigger_down s) fr"
    "op_fire_sequence s' = (if op_trigger_down s' \<and> \<not> op_trigger_down s then next_fire_sequence ?n else ?n)"
    using operator_frame_Go [OF Cons.prems(1) _ assms(3), of fr limit_fn yaw] Cons.prems(2) f by auto
  let ?m = "op_fire_sequence s'"
  obtain ds where ds: "operator_run limit_fn opt fs s' = Go ds" "length ds = length fs"
    "length (remdups_adj (?m # map dc_fire_sequence ds)) = Suc (trigger_pulls (op_trigger_down s') (map snd fs))"
    "remdups_adj (?m # map dc_fire_sequence ds) =
      (if ?m = 0 then 0 # remdups_adj (filter valid_trigger (map dc_fire_sequence ds))
       else remdups_adj (?m # filter valid_trigger (map dc_fire_sequence ds)))"
    using Cons.IH [OF d(2)] Cons.prems(2) by auto
  have v: "?n = 0 \<or> valid_trigger ?n" "\<not> valid_trigger 0" using Cons.prems(1) by (simp_all add: operator_ok_def valid_trigger_def)
  have m: "?m = ?n \<or> valid_trigger ?m" "?m = ?n \<longleftrightarrow> \<not> (op_trigger_down s' \<and> \<not> op_trigger_down s)"
    using d(5) next_fire_sequence_valid [OF v(1)] by auto
  have "length (remdups_adj (?n # map dc_fire_sequence (d # ds))) = Suc (trigger_pulls (op_trigger_down s) (map snd (f # fs)))"
    using ds(3) m(2) by (auto simp: d(3) f d(4) [symmetric] simp del: remdups_adj.simps) (auto simp: d(4))
  moreover have "remdups_adj (?n # map dc_fire_sequence (d # ds)) =
      (if ?n = 0 then 0 # remdups_adj (filter valid_trigger (map dc_fire_sequence (d # ds)))
       else remdups_adj (?n # filter valid_trigger (map dc_fire_sequence (d # ds))))"
    using ds(4) m(1) v by (cases "?m = ?n") (auto simp: d(3))
  ultimately show ?case using d(1) ds(1,2) f by (intro exI [of _ "d # ds"]) simp
qed


definition bench_frame :: "real \<Rightarrow> frame" where
  "bench_frame trigger = \<lparr>fr_buttons = [], fr_left_x = 0, fr_left_y = 0, fr_right_x = 0, fr_right_y = 0, fr_right_trigger = trigger,
     fr_gait_open = True, fr_turret_open = True, fr_gait_click = None, fr_turret_click = Some 1\<rparr>"

definition bench_options :: options where
  "bench_options = \<lparr>opt_turret = True, jump_accel = 2, max_forward_velocity = 4 / 10, max_rotation_deg_s = 60, zoom_in = 2,
     derate_scale = 1\<rparr>"


end
