(* ===== verification/Attitude.thy ===== *)
theory Attitude
  imports Swing Quadruped
begin

text \<open>
  Rotations, \<^verbatim>\<open>base/quaternion.h\<close> and \<^verbatim>\<open>base/euler.h\<close>: quaternions, their matrix, and the angles of roll, pitch and yaw.
  The numbers are real numbers, so the results have no rounding.
\<close>

section \<open>Quaternions\<close>

record Quaternion =
  qw :: real
  qx :: real
  qy :: real
  qz :: real

definition quaternion :: "real \<Rightarrow> real \<Rightarrow> real \<Rightarrow> real \<Rightarrow> Quaternion" where
  "quaternion w x y z = \<lparr>qw = w, qx = x, qy = y, qz = z\<rparr>"

lemma quaternion_sel [simp]:
  "qw (quaternion w x y z) = w" "qx (quaternion w x y z) = x" "qy (quaternion w x y z) = y" "qz (quaternion w x y z) = z"
  by (simp_all add: quaternion_def)

lemma quaternion_eqI:
  fixes p q :: Quaternion
  shows "qw p = qw q \<Longrightarrow> qx p = qx q \<Longrightarrow> qy p = qy q \<Longrightarrow> qz p = qz q \<Longrightarrow> p = q"
  by (cases p; cases q) simp

definition qmul :: "Quaternion \<Rightarrow> Quaternion \<Rightarrow> Quaternion" where
  "qmul lhs rhs =
     (let a = qw lhs; b = qx lhs; c = qy lhs; d = qz lhs; e = qw rhs; f = qx rhs; g = qy rhs; h = qz rhs
      in quaternion (a * e - b * f - c * g - d * h) (b * e + a * f + c * h - d * g)
           (a * g - b * h + c * e + d * f) (a * h + b * g - c * f + d * e))"

definition conjugated :: "Quaternion \<Rightarrow> Quaternion" where
  "conjugated q = quaternion (qw q) (- qx q) (- qy q) (- qz q)"

definition Rotate :: "Quaternion \<Rightarrow> vec \<Rightarrow> vec" where
  "Rotate s v =
     (let p = quaternion 0 (vx v) (vy v) (vz v); q = qmul (qmul s p) (conjugated s) in \<lparr>vx = qx q, vy = qy q, vz = qz q\<rparr>)"

definition qnorm :: "Quaternion \<Rightarrow> real" where
  "qnorm q = sqrt (qw q * qw q + qx q * qx q + qy q * qy q + qz q * qz q)"

text \<open>Of a quaternion that is not zero.\<close>

definition qnormalized :: "Quaternion \<Rightarrow> Quaternion" where
  "qnormalized q = (let n = qnorm q in quaternion (qw q / n) (qx q / n) (qy q / n) (qz q / n))"

text \<open>The matrix by its rows.\<close>

definition qmatrix :: "Quaternion \<Rightarrow> vec \<times> vec \<times> vec" where
  "qmatrix q =
     (let w = qw q; x = qx q; y = qy q; z = qz q
      in (\<lparr>vx = w * w + x * x - y * y - z * z, vy = 2 * (x * y - w * z), vz = 2 * (w * y + x * z)\<rparr>,
          \<lparr>vx = 2 * (x * y + w * z), vy = w * w - x * x + y * y - z * z, vz = 2 * (y * z - w * x)\<rparr>,
          \<lparr>vx = 2 * (x * z - w * y), vy = 2 * (w * x + y * z), vz = w * w - x * x - y * y + z * z\<rparr>))"

section \<open>Angles\<close>

record Euler =
  roll :: real
  pitch :: real
  yaw :: real

definition scale_euler :: "real \<Rightarrow> Euler \<Rightarrow> Euler" where
  "scale_euler s e = \<lparr>roll = roll e * s, pitch = pitch e * s, yaw = yaw e * s\<rparr>"

text \<open>\<open>std::asin\<close> gets a number between the two bounds, so between minus one and one.\<close>

definition euler_rad :: "Quaternion \<Rightarrow> Euler" where
  "euler_rad q =
     (let w = qw q; x = qx q; y = qy q; z = qz q; sinp = 2 * (w * y - z * x)
      in if sinp \<ge> 1 - 1 / 10 ^ 8 then \<lparr>roll = 0, pitch = pi / 2, yaw = - 2 * atan2 x w\<rparr>
         else if sinp \<le> - 1 + 1 / 10 ^ 8 then \<lparr>roll = 0, pitch = - (pi / 2), yaw = 2 * atan2 x w\<rparr>
         else \<lparr>roll = atan2 (2 * (w * x + y * z)) (1 - 2 * (x * x + y * y)), pitch = arcsin sinp,
               yaw = atan2 (2 * (w * z + x * y)) (1 - 2 * (y * y + z * z))\<rparr>)"

definition FromAxisAngle :: "real \<Rightarrow> real \<Rightarrow> real \<Rightarrow> real \<Rightarrow> Quaternion" where
  "FromAxisAngle angle_rad x y z = (let c = cos (angle_rad / 2); s = sin (angle_rad / 2) in quaternion c (x * s) (y * s) (z * s))"

definition FromEuler :: "real \<Rightarrow> real \<Rightarrow> real \<Rightarrow> Quaternion" where
  "FromEuler roll_rad pitch_rad yaw_rad =
     qmul (qmul (FromAxisAngle yaw_rad 0 0 1) (FromAxisAngle pitch_rad 0 1 0)) (FromAxisAngle roll_rad 1 0 0)"

text \<open>The angle and the axis; where \<open>w\<close> is not inside of one, the axis is divided by zero or the root is not a number:
  \<open>None\<close>.\<close>

definition axis_angle :: "Quaternion \<Rightarrow> (real \<times> vec) option" where
  "axis_angle q =
     (if \<bar>qw q\<bar> \<ge> 1 then None
      else (let denom = sqrt (1 - qw q * qw q)
            in Some (2 * arccos (qw q), \<lparr>vx = qx q / denom, vy = qy q / denom, vz = qz q / denom\<rparr>)))"

text \<open>The assertions are on the rates with their sign.\<close>

definition IntegrateRotationRate :: "vec \<Rightarrow> real \<Rightarrow> Quaternion run" where
  "IntegrateRotationRate rate_rps dt_s =
     (if \<not> (vx rate_rps * dt_s < 1 / 2 \<and> vy rate_rps * dt_s < 1 / 2 \<and> vz rate_rps * dt_s < 1 / 2) then Abort
      else Go (qnormalized (quaternion 1 (1 / 2 * vx rate_rps * dt_s) (1 / 2 * vy rate_rps * dt_s) (1 / 2 * vz rate_rps * dt_s))))"

section \<open>Rotations compose\<close>

definition apply_rows :: "vec \<times> vec \<times> vec \<Rightarrow> vec \<Rightarrow> vec" where
  "apply_rows m v = (case m of (a, b, c) \<Rightarrow> \<lparr>vx = vdot a v, vy = vdot b v, vz = vdot c v\<rparr>)"

lemma Rotate_matrix: "Rotate q v = apply_rows (qmatrix q) v"
  by (simp add: Rotate_def apply_rows_def qmatrix_def qmul_def conjugated_def vdot_def Let_def algebra_simps)

lemma qmul_assoc: "qmul (qmul a b) c = qmul a (qmul b c)"
  by (rule quaternion_eqI) (simp_all add: qmul_def Let_def algebra_simps)

lemma conjugated_qmul: "conjugated (qmul a b) = qmul (conjugated b) (conjugated a)"
  by (rule quaternion_eqI) (simp_all add: qmul_def conjugated_def Let_def algebra_simps)

lemma Rotate_pure:
  "quaternion 0 (vx (Rotate s v)) (vy (Rotate s v)) (vz (Rotate s v)) = qmul (qmul s (quaternion 0 (vx v) (vy v) (vz v))) (conjugated s)"
  by (rule quaternion_eqI) (simp_all add: Rotate_def qmul_def conjugated_def Let_def algebra_simps)

lemma Rotate_qmul: "Rotate (qmul a b) v = Rotate a (Rotate b v)"
  unfolding Rotate_def [of "qmul a b"] Rotate_def [of a] Rotate_pure conjugated_qmul by (simp add: qmul_assoc)

lemma qnorm_square: "(qnorm q)\<^sup>2 = (qw q)\<^sup>2 + (qx q)\<^sup>2 + (qy q)\<^sup>2 + (qz q)\<^sup>2"
  by (simp add: qnorm_def power2_eq_square)

lemma qnorm_nonneg [simp]: "0 \<le> qnorm q"
  by (simp add: qnorm_def)

lemma qnorm_qmul: "qnorm (qmul a b) = qnorm a * qnorm b"
proof -
  have "(qnorm (qmul a b))\<^sup>2 = (qnorm a * qnorm b)\<^sup>2"
    unfolding power_mult_distrib qnorm_square by (simp add: qmul_def Let_def power2_eq_square algebra_simps)
  then show ?thesis by simp
qed

lemma vnorm_square: "(vnorm v)\<^sup>2 = (vx v)\<^sup>2 + (vy v)\<^sup>2 + (vz v)\<^sup>2"
  by (simp add: vnorm_def vdot_def power2_eq_square)

lemma vnorm_Rotate: "vnorm (Rotate q v) = (qnorm q)\<^sup>2 * vnorm v"
proof -
  have "(vnorm (Rotate q v))\<^sup>2 = ((qnorm q)\<^sup>2 * vnorm v)\<^sup>2"
    unfolding power_mult_distrib qnorm_square vnorm_square
    by (simp add: Rotate_def qmul_def conjugated_def Let_def power2_eq_square algebra_simps)
  moreover have "0 \<le> vnorm (Rotate q v)" "0 \<le> vnorm v" by (simp_all add: vnorm_def vdot_def)
  ultimately show ?thesis by simp
qed

section \<open>Angles and back\<close>

lemma FromEuler_parts:
  "FromEuler r p y =
     (let cr = cos (r / 2); sr = sin (r / 2); cp = cos (p / 2); sp = sin (p / 2); cy = cos (y / 2); sy = sin (y / 2)
      in quaternion (cy * cp * cr + sy * sp * sr) (cy * cp * sr - sy * sp * cr) (cy * sp * cr + sy * cp * sr)
           (sy * cp * cr - cy * sp * sr))"
  by (simp add: FromEuler_def FromAxisAngle_def qmul_def Let_def)

lemma half_angle: "cos a = 1 - 2 * sin (a / 2) * sin (a / 2)" "sin a = 2 * sin (a / 2) * cos (a / 2)"
  "cos (a / 2) * cos (a / 2) + sin (a / 2) * sin (a / 2) = 1" for a :: real
proof -
  show "cos (a / 2) * cos (a / 2) + sin (a / 2) * sin (a / 2) = 1"
    using sin_cos_squared_add [of "a / 2"] by (simp add: power2_eq_square)
  show "cos a = 1 - 2 * sin (a / 2) * sin (a / 2)" using cos_double_sin [of "a / 2"] by (simp add: power2_eq_square)
  show "sin a = 2 * sin (a / 2) * cos (a / 2)" using sin_double [of "a / 2"] by simp
qed

text \<open>The products that \<open>euler_rad\<close> looks at, from those of the half angles.\<close>

lemma euler_products:
  fixes cr sr cp sp cy sy :: real
  assumes "cr * cr + sr * sr = 1" "cp * cp + sp * sp = 1" "cy * cy + sy * sy = 1"
    and "w = cy * cp * cr + sy * sp * sr" "x = cy * cp * sr - sy * sp * cr" "y = cy * sp * cr + sy * cp * sr"
      "z = sy * cp * cr - cy * sp * sr"
  shows "2 * (w * y - z * x) = 2 * sp * cp"
    "2 * (w * x + y * z) = (2 * sr * cr) * (1 - 2 * sp * sp)" "1 - 2 * (x * x + y * y) = (1 - 2 * sr * sr) * (1 - 2 * sp * sp)"
    "2 * (w * z + x * y) = (2 * sy * cy) * (1 - 2 * sp * sp)" "1 - 2 * (y * y + z * z) = (1 - 2 * sy * sy) * (1 - 2 * sp * sp)"
  using assms by algebra+

lemma atan2_scaled: "0 < k \<Longrightarrow> - pi < a \<Longrightarrow> a \<le> pi \<Longrightarrow> atan2 (k * sin a) (k * cos a) = a"
  unfolding atan2_def
  by (rule cis_Arg_unique) (simp_all add: complex_eq_iff sgn_div_norm cmod_def power_mult_distrib flip: distrib_left)

lemma half_right_angle: "0 < sin (pi / 4 :: real)" "cos (pi / 4 :: real) = sin (pi / 4)"
  by (simp_all add: sin_45 cos_45)

lemma FromEuler_up: "FromEuler r (pi / 2) y = quaternion (sin (pi / 4) * cos ((r - y) / 2)) (sin (pi / 4) * sin ((r - y) / 2))
    (sin (pi / 4) * cos ((r - y) / 2)) (- (sin (pi / 4) * sin ((r - y) / 2)))"
  by (simp add: FromEuler_parts Let_def half_right_angle diff_divide_distrib sin_diff cos_diff algebra_simps)

lemma FromEuler_down: "FromEuler r (- (pi / 2)) y = quaternion (sin (pi / 4) * cos ((r + y) / 2)) (sin (pi / 4) * sin ((r + y) / 2))
    (- (sin (pi / 4) * cos ((r + y) / 2))) (sin (pi / 4) * sin ((r + y) / 2))"
  by (simp add: FromEuler_parts Let_def half_right_angle add_divide_distrib sin_add cos_add algebra_simps)

lemma half_sine: "2 * (sin (pi / 4) * cos t * (sin (pi / 4) * cos t) + sin (pi / 4) * sin t * (sin (pi / 4) * sin t)) = 1" for t :: real
proof -
  have "2 * (sin (pi / 4) * cos t * (sin (pi / 4) * cos t) + sin (pi / 4) * sin t * (sin (pi / 4) * sin t)) =
      2 * (sin (pi / 4) * sin (pi / 4)) * ((cos t)\<^sup>2 + (sin t)\<^sup>2)"
    unfolding power2_eq_square by algebra
  then show ?thesis by (simp add: sin_45)
qed

lemma euler_rad_up: "2 * (qw q * qy q - qz q * qx q) = 1 \<Longrightarrow> euler_rad q = \<lparr>roll = 0, pitch = pi / 2, yaw = - 2 * atan2 (qx q) (qw q)\<rparr>"
  and euler_rad_down: "2 * (qw q * qy q - qz q * qx q) = - 1 \<Longrightarrow> euler_rad q = \<lparr>roll = 0, pitch = - (pi / 2), yaw = 2 * atan2 (qx q) (qw q)\<rparr>"
  by (simp_all only: euler_rad_def Let_def) simp_all

text \<open>C27 (roundtrip). The angles come back from the quaternion that is made of them, as long as the pitch is not within the
  margin of straight up or down. There the roll is reported as zero and the yaw as what is left, and these angles give
  the same quaternion.\<close>

theorem euler_roundtrip:
  assumes "- pi < r" "r < pi" "- pi < y" "y < pi" "\<bar>p\<bar> \<le> pi / 2"
  shows "(\<bar>sin p\<bar> < 1 - 1 / 10 ^ 8 \<longrightarrow> euler_rad (FromEuler r p y) = \<lparr>roll = r, pitch = p, yaw = y\<rparr>) \<and>
    (p = pi / 2 \<longrightarrow> euler_rad (FromEuler r p y) = \<lparr>roll = 0, pitch = p, yaw = y - r\<rparr> \<and> FromEuler 0 p (y - r) = FromEuler r p y) \<and>
    (p = - (pi / 2) \<longrightarrow> euler_rad (FromEuler r p y) = \<lparr>roll = 0, pitch = p, yaw = y + r\<rparr> \<and> FromEuler 0 p (y + r) = FromEuler r p y)"
proof (intro conjI impI)
  define q where "q = FromEuler r p y"
  note e = euler_products [OF half_angle(3) half_angle(3) half_angle(3), where x = "qx q" and w = "qw q" and y = "qy q" and z = "qz q",
      unfolded half_angle(1,2) [symmetric], of y p r]
  have parts: "qw q = cos (y / 2) * cos (p / 2) * cos (r / 2) + sin (y / 2) * sin (p / 2) * sin (r / 2)"
    "qx q = cos (y / 2) * cos (p / 2) * sin (r / 2) - sin (y / 2) * sin (p / 2) * cos (r / 2)"
    "qy q = cos (y / 2) * sin (p / 2) * cos (r / 2) + sin (y / 2) * cos (p / 2) * sin (r / 2)"
    "qz q = sin (y / 2) * cos (p / 2) * cos (r / 2) - cos (y / 2) * sin (p / 2) * sin (r / 2)"
    by (simp_all add: q_def FromEuler_parts Let_def)
  assume s: "\<bar>sin p\<bar> < 1 - 1 / 10 ^ 8"
  have "p \<noteq> pi / 2" "p \<noteq> - (pi / 2)"
  proof -
    have "\<bar>sin (pi / 2)\<bar> = 1" "\<bar>sin (- (pi / 2))\<bar> = 1" by simp_all
    moreover have "\<bar>sin p\<bar> < 1" using s by (rule less_trans) simp
    ultimately show "p \<noteq> pi / 2" "p \<noteq> - (pi / 2)" by force+
  qed
  then have "0 < cos p" using assms(5) by (intro cos_gt_zero_pi) auto
  then have "atan2 (sin r * cos p) (cos r * cos p) = r" "atan2 (sin y * cos p) (cos y * cos p) = y"
    using atan2_scaled [of "cos p" r] atan2_scaled [of "cos p" y] assms(1-4) by (simp_all add: mult.commute)
  moreover have "arcsin (sin p) = p" using assms(5) by (intro arcsin_sin) auto
  moreover have "\<not> sin p \<ge> 1 - 1 / 10 ^ 8" "\<not> sin p \<le> - 1 + 1 / 10 ^ 8" using s by linarith+
  ultimately show "euler_rad (FromEuler r p y) = \<lparr>roll = r, pitch = p, yaw = y\<rparr>"
    using e [OF parts] unfolding q_def [symmetric] euler_rad_def Let_def by simp
next
  assume p: "p = pi / 2"
  have "atan2 (sin (pi / 4) * sin ((r - y) / 2)) (sin (pi / 4) * cos ((r - y) / 2)) = (r - y) / 2"
    using assms(1-4) by (intro atan2_scaled) (simp_all add: half_right_angle(1))
  then show "euler_rad (FromEuler r p y) = \<lparr>roll = 0, pitch = p, yaw = y - r\<rparr>"
    using half_sine [of "(r - y) / 2"] unfolding p FromEuler_up by (subst euler_rad_up) simp_all
  show "FromEuler 0 p (y - r) = FromEuler r p y" unfolding p FromEuler_up by simp
next
  assume p: "p = - (pi / 2)"
  have "atan2 (sin (pi / 4) * sin ((r + y) / 2)) (sin (pi / 4) * cos ((r + y) / 2)) = (r + y) / 2"
    using assms(1-4) by (intro atan2_scaled) (simp_all add: half_right_angle(1))
  then show "euler_rad (FromEuler r p y) = \<lparr>roll = 0, pitch = p, yaw = y + r\<rparr>"
    using half_sine [of "(r + y) / 2"] unfolding p FromEuler_down by (subst euler_rad_down) simp_all
  show "FromEuler 0 p (y + r) = FromEuler r p y" unfolding p FromEuler_down by (simp add: add.commute)
qed

theorem euler_roundtrip_witness:
  "euler_rad (FromEuler 0 (pi / 6) (pi / 2)) = \<lparr>roll = 0, pitch = pi / 6, yaw = pi / 2\<rparr> \<and>
   euler_rad (FromEuler (pi / 3) (pi / 2) 0) = \<lparr>roll = 0, pitch = pi / 2, yaw = - (pi / 3)\<rparr>"
  using euler_roundtrip [of 0 "pi / 2" "pi / 6"] euler_roundtrip [of "pi / 3" 0 "pi / 2"] by (simp add: sin_30)

text \<open>The rotation of a vector is the product with the matrix of the quaternion; the product of quaternions is
  the rotation by the one after the other; lengths are multiplied by the square of the norm, which of a product is the
  product, so unit quaternions keep lengths.\<close>

theorem rotation_laws:
  "Rotate q v = apply_rows (qmatrix q) v \<and> Rotate (qmul p q) v = Rotate p (Rotate q v) \<and>
   vnorm (Rotate q v) = (qnorm q)\<^sup>2 * vnorm v \<and> qnorm (qmul p q) = qnorm p * qnorm q"
  by (simp add: Rotate_matrix [symmetric] Rotate_qmul vnorm_Rotate qnorm_qmul)

lemma qnorm_FromAxisAngle: "x\<^sup>2 + y\<^sup>2 + z\<^sup>2 = 1 \<Longrightarrow> qnorm (FromAxisAngle a x y z) = 1"
proof -
  assume "x\<^sup>2 + y\<^sup>2 + z\<^sup>2 = 1"
  moreover have "(qnorm (FromAxisAngle a x y z))\<^sup>2 = (cos (a / 2))\<^sup>2 + (x\<^sup>2 + y\<^sup>2 + z\<^sup>2) * (sin (a / 2))\<^sup>2"
    unfolding qnorm_square by (simp add: FromAxisAngle_def Let_def power_mult_distrib algebra_simps)
  ultimately show ?thesis by (simp add: power2_eq_1_iff) (metis qnorm_nonneg neg_0_le_iff_le not_one_le_zero)
qed

lemma qnorm_FromEuler: "qnorm (FromEuler r p y) = 1"
  by (simp add: FromEuler_def qnorm_qmul qnorm_FromAxisAngle)

text \<open>The angle and the axis of a unit quaternion give it back.\<close>

lemma axis_angle_roundtrip:
  assumes "axis_angle q = Some (a, u)" "qnorm q = 1"
  shows "FromAxisAngle a (vx u) (vy u) (vz u) = q"
proof -
  have w: "\<bar>qw q\<bar> < 1" and a: "a = 2 * arccos (qw q)"
    and u: "u = \<lparr>vx = qx q / sqrt (1 - qw q * qw q), vy = qy q / sqrt (1 - qw q * qw q), vz = qz q / sqrt (1 - qw q * qw q)\<rparr>"
    using assms(1) by (auto simp: axis_angle_def Let_def split: if_splits)
  have "qw q * qw q < 1" using w by (metis abs_square_less_1 power2_eq_square)
  moreover have "sin (arccos (qw q)) = sqrt (1 - qw q * qw q)" using w by (simp add: sin_arccos power2_eq_square)
  ultimately show ?thesis using w by (intro quaternion_eqI) (simp_all add: FromAxisAngle_def Let_def a u)
qed

text \<open>The identity has no axis, and its division is zero by zero; a fast rotation the other way passes the assertions.\<close>

lemma axis_angle_identity: "axis_angle (quaternion 1 0 0 0) = None"
  by (simp add: axis_angle_def)

lemma integrate_backwards: "IntegrateRotationRate \<lparr>vx = - 100, vy = 0, vz = 0\<rparr> 1 \<noteq> Abort"
  by (simp add: IntegrateRotationRate_def)

end
