(* ===== verification/Pi3hat.thy ===== *)
theory Pi3hat
  imports Attitude NrfUsb
begin

unbundle bit_operations_syntax

text \<open>
  The board of the robot, \<^verbatim>\<open>mech/pi3hat_wrapper.cc\<close>, in its build for the Raspberry Pi: requests to the servos, readings of
  the IMU and slots of the radio are handed to a second thread, which runs the cycles of the device, and come back
  to the thread of the application.

  Both threads run the jobs of their \<open>io_context\<close> in order, and one job is one step. The device is a function from its
  input to its output, given with each step of the second thread. The library of the device, the stream of mjlib and
  the requests and replies of its register protocol are the fields of \<open>hat_library\<close>. Reads and writes outside of an
  array are \<open>Abort\<close>. The buffers that a client passes are fields of the state, numbered by the client.
\<close>

section \<open>The device\<close>

record can_frame =
  cf_id :: u32
  cf_bus :: int
  cf_expect_reply :: bool
  cf_data :: "u8 list"

record rf_frame =
  rf_slot_number :: nat
  rf_priority :: u32
  rf_data :: "u8 list"

record raw_attitude =
  ra_attitude :: Quaternion
  ra_rate_dps :: vec
  ra_accel_mps2 :: vec
  ra_bias_dps :: vec
  ra_attitude_uncertainty :: Quaternion
  ra_bias_uncertainty_dps :: vec

record hat_input =
  in_tx_can :: "can_frame list"
  in_rx_can :: nat
  in_tx_rf :: "rf_frame list"
  in_rx_rf :: nat
  in_force_can_check :: u32
  in_request_attitude :: bool
  in_wait_for_attitude :: bool
  in_request_attitude_detail :: bool
  in_request_rf :: bool
  in_timeout_ns :: int
  in_min_tx_wait_ns :: int
  in_rx_extra_wait_ns :: int

text \<open>What a cycle gives: the frames and the slots that were received, and the attitude where it was read.\<close>

record hat_output =
  out_rx_can :: "can_frame list"
  out_rx_rf :: "rf_frame list"
  out_attitude :: "raw_attitude option"

section \<open>The library and the options\<close>

record 'r hat_library =
  input_default :: hat_input
  can_room :: nat
  request_bytes :: "'r \<Rightarrow> u8 list"
  wants_reply :: "'r \<Rightarrow> bool"
  parse_reply :: "u8 list \<Rightarrow> (Register \<times> mvalue option) list"
  varuint :: "nat \<Rightarrow> u8 list"
  read_varuint :: "u8 list \<Rightarrow> (nat \<times> u8 list) option"
  stream_read :: "nat \<Rightarrow> u8 list \<Rightarrow> u8 list \<times> u8 list"
  kClientToServer :: nat
  kServerToClient :: nat
  kClientPollServer :: nat

record hat_options =
  query_timeout_s :: real
  min_wait_s :: real
  shutdown_timeout_s :: real
  attitude_detail :: bool
  force_bus :: int

section \<open>The state\<close>

record AttitudeData =
  ad_timestamp :: real
  ad_attitude :: Quaternion
  ad_rate_dps :: vec
  ad_euler_deg :: Euler
  ad_accel_mps2 :: vec
  ad_bias_dps :: vec
  ad_attitude_uncertainty :: Quaternion
  ad_bias_uncertainty_dps :: vec

text \<open>\<open>Pi3Data\<close>. The vectors for received frames are their sizes and the first of their frames, those that the last cycle
  has written.\<close>

record pi3data =
  tx_can :: "can_frame list"
  rx_can_room :: nat
  tx_rf :: "rf_frame list"
  attitude :: raw_attitude
  child_tx_slots :: "rf_slot list"
  child_to_send :: u16
  rx_can :: "can_frame list"
  rx_rf :: "rf_frame list"

text \<open>The jobs of the two threads. A number stands for the reply vector, or the buffers, of a client and its callback.\<close>

datatype 'r child_job =
    Transmit nat "(int \<times> 'r) list" bool bool
  | CycleJob nat "(int \<times> 'r) list" bool
  | TunnelPoll nat nat nat
  | TunnelWrite nat nat nat "u8 list list"

datatype main_job =
    FinishTransmit nat | FinishCycle nat | TransmitDone nat | ImuDone | RfDone
  | TunnelRead nat nat | TunnelWait nat nat nat | TunnelWritten nat nat

text \<open>\<open>waiting_imu\<close> and \<open>waiting_rf\<close> say that the pointers of the client are set; \<open>imu\<close>, \<open>cycle_imu\<close>, \<open>rf_remote\<close>, \<open>rf_bitfield\<close>,
  \<open>replies\<close> and \<open>buffers\<close> are the variables that they lead to. \<open>wire\<close> has the inputs of the cycles of the device.\<close>

record 'r hat =
  waiting_imu :: bool
  imu :: AttitudeData
  cycle_imu :: AttitudeData
  waiting_rf :: bool
  rf_remote :: int
  rf_bitfield :: u16
  hat_rx_slots :: "rf_slot list"
  hat_tx_slots :: "rf_slot list"
  rf_to_send :: u16
  power_poll :: bool
  data :: pi3data
  replies :: "nat \<Rightarrow> reply list"
  buffers :: "nat \<Rightarrow> u8 list list"
  child_queue :: "'r child_job list"
  main_queue :: "main_job list"
  wire :: "hat_input list"
  exited :: bool

section \<open>The thread of the application\<close>

definition ReadImu :: "'r hat \<Rightarrow> 'r hat" where
  "ReadImu s = s\<lparr>waiting_imu := True\<rparr>"

definition hat_AsyncWaitForSlot :: "'r hat \<Rightarrow> 'r hat" where
  "hat_AsyncWaitForSlot s = s\<lparr>waiting_rf := True\<rparr>"

definition hat_rx_slot :: "int \<Rightarrow> int \<Rightarrow> 'r hat \<Rightarrow> rf_slot run" where
  "hat_rx_slot remote idx s = (if 0 \<le> idx \<and> idx < 16 then Go (hat_rx_slots s ! nat idx) else Abort)"

definition hat_tx_slot :: "int \<Rightarrow> int \<Rightarrow> rf_slot \<Rightarrow> 'r hat \<Rightarrow> 'r hat run" where
  "hat_tx_slot remote idx slot s =
     (if 0 \<le> idx \<and> idx < 16
      then Go (s\<lparr>hat_tx_slots := (hat_tx_slots s)[nat idx := slot], rf_to_send := rf_to_send s OR push_bit (nat idx) 1\<rparr>)
      else Abort)"

definition hat_tx_slot_get :: "int \<Rightarrow> int \<Rightarrow> 'r hat \<Rightarrow> rf_slot run" where
  "hat_tx_slot_get remote idx s = (if 0 \<le> idx \<and> idx < 16 then Go (hat_tx_slots s ! nat idx) else Abort)"

definition copy_rf :: "'r hat \<Rightarrow> 'r hat" where
  "copy_rf s =
     (if rf_to_send s \<noteq> 0
      then s\<lparr>data := (data s)\<lparr>child_tx_slots := hat_tx_slots s, child_to_send := rf_to_send s\<rparr>, rf_to_send := 0\<rparr>
      else s)"

definition AsyncTransmit :: "nat \<Rightarrow> (int \<times> 'r) list \<Rightarrow> 'r hat \<Rightarrow> 'r hat" where
  "AsyncTransmit client requests s =
     (let s = copy_rf s in s\<lparr>child_queue := child_queue s @ [Transmit client requests (waiting_imu s) (waiting_rf s)]\<rparr>)"

definition Cycle :: "nat \<Rightarrow> (int \<times> 'r) list \<Rightarrow> 'r hat \<Rightarrow> 'r hat" where
  "Cycle client requests s =
     (let s = copy_rf s in s\<lparr>child_queue := child_queue s @ [CycleJob client requests (waiting_rf s)]\<rparr>)"

definition HandlePowerPoll :: "'r hat \<Rightarrow> 'r hat" where
  "HandlePowerPoll s = s\<lparr>power_poll := True\<rparr>"

text \<open>A tunnel: the reads and the writes of its stream, by the number of the client, the servo and the channel.\<close>

definition async_read_some :: "nat \<Rightarrow> nat \<Rightarrow> nat \<Rightarrow> 'r hat \<Rightarrow> 'r hat" where
  "async_read_some client i channel s = s\<lparr>child_queue := child_queue s @ [TunnelPoll client i channel]\<rparr>"

definition async_write_some :: "nat \<Rightarrow> nat \<Rightarrow> nat \<Rightarrow> u8 list list \<Rightarrow> 'r hat \<Rightarrow> 'r hat" where
  "async_write_some client i channel bufs s = s\<lparr>child_queue := child_queue s @ [TunnelWrite client i channel bufs]\<rparr>"

section \<open>The second thread\<close>

definition SelectBus :: "hat_options \<Rightarrow> int \<Rightarrow> int" where
  "SelectBus opts i =
     (if force_bus opts \<ge> 0 then force_bus opts
      else if i \<ge> 1 \<and> i \<le> 3 then 1 else if i \<ge> 4 \<and> i \<le> 6 then 2 else if i \<ge> 7 \<and> i \<le> 9 then 3
      else if i \<ge> 10 \<and> i \<le> 12 then 4 else 1)"

text \<open>The radio: the marked ones of the first fifteen slots, with as many of their bytes as they have.\<close>

fun setup_slots :: "u16 \<Rightarrow> rf_slot list \<Rightarrow> nat list \<Rightarrow> rf_frame list run" where
  "setup_slots marks slots [] = Go []"
| "setup_slots marks slots (i # is) =
     (if \<not> bit marks i then setup_slots marks slots is
      else if sl_size (slots ! i) \<le> 16
      then rbind (setup_slots marks slots is) (\<lambda>fs.
             Go (\<lparr>rf_slot_number = i, rf_priority = sl_priority (slots ! i), rf_data = take (sl_size (slots ! i)) (sl_data (slots ! i))\<rparr> # fs))
      else Abort)"

definition CHILD_SetupRf :: "hat_input \<Rightarrow> pi3data \<Rightarrow> (hat_input \<times> pi3data) run" where
  "CHILD_SetupRf input d =
     rbind (if child_to_send d \<noteq> 0
            then rbind (setup_slots (child_to_send d) (child_tx_slots d) [0..<15]) (\<lambda>fs.
                   Go (input\<lparr>in_tx_rf := fs\<rparr>, d\<lparr>tx_rf := fs\<rparr>))
            else Go (input, d\<lparr>tx_rf := []\<rparr>)) (\<lambda>(input, d).
       Go (input\<lparr>in_rx_rf := 16\<rparr>, d))"

definition request_frame :: "'r hat_library \<Rightarrow> hat_options \<Rightarrow> int \<times> 'r \<Rightarrow> can_frame run" where
  "request_frame lib opts request =
     (let (i, r) = request
      in if length (request_bytes lib r) \<le> can_room lib
         then Go \<lparr>cf_id = word_of_int i OR (if wants_reply lib r then 0x8000 else 0), cf_bus = SelectBus opts i,
                   cf_expect_reply = wants_reply lib r, cf_data = request_bytes lib r\<rparr>
         else Abort)"

fun request_frames :: "'r hat_library \<Rightarrow> hat_options \<Rightarrow> (int \<times> 'r) list \<Rightarrow> can_frame list run" where
  "request_frames lib opts [] = Go []"
| "request_frames lib opts (r # rs) =
     rbind (request_frame lib opts r) (\<lambda>f. rbind (request_frames lib opts rs) (\<lambda>fs. Go (f # fs)))"

text \<open>The power poll; the timeout is a number, limited to a byte. Whether it expects a reply is what a new frame has.\<close>

definition poll_frame :: "hat_options \<Rightarrow> can_frame" where
  "poll_frame opts =
     (let x = shutdown_timeout_s opts / (1 / 10)
      in \<lparr>cf_id = 0x00010005, cf_bus = 5, cf_expect_reply = False,
          cf_data = [0, word_of_int (if x \<ge> 255 then 255 else if x \<le> 0 then 0 else trunc x)]\<rparr>)"

definition CHILD_SetupCAN :: "'r hat_library \<Rightarrow> hat_options \<Rightarrow> (int \<times> 'r) list \<Rightarrow> hat_input \<Rightarrow> 'r hat \<Rightarrow> (hat_input \<times> 'r hat) run" where
  "CHILD_SetupCAN lib opts requests input s =
     rbind (request_frames lib opts requests) (\<lambda>fs.
       let frames = fs @ (if power_poll s then [poll_frame opts] else []);
           input = (if power_poll s then input\<lparr>in_force_can_check := in_force_can_check input OR push_bit 5 1\<rparr> else input);
           input = (if frames \<noteq> [] then input\<lparr>in_tx_can := frames\<rparr> else input);
           room = max (length frames * 2) 24
       in Go (input\<lparr>in_rx_can := room\<rparr>, s\<lparr>power_poll := False, data := (data s)\<lparr>tx_can := frames, rx_can_room := room\<rparr>\<rparr>))"

text \<open>One cycle of the device: it writes no more frames and slots than there is room for, and an attitude where it got a
  pointer to one.\<close>

definition device_cycle :: "(hat_input \<Rightarrow> hat_output) \<Rightarrow> bool \<Rightarrow> hat_input \<Rightarrow> 'r hat \<Rightarrow> 'r hat" where
  "device_cycle dev with_attitude input s =
     (let out = dev input
      in s\<lparr>wire := wire s @ [input],
           data := (data s)\<lparr>rx_can := take (in_rx_can input) (out_rx_can out), rx_rf := take (in_rx_rf input) (out_rx_rf out),
             attitude := (case out_attitude out of Some a \<Rightarrow> if with_attitude then a else attitude (data s) | None \<Rightarrow> attitude (data s))\<rparr>\<rparr>)"

definition post_main :: "main_job \<Rightarrow> 'r hat \<Rightarrow> 'r hat" where
  "post_main job s = s\<lparr>main_queue := main_queue s @ [job]\<rparr>"

definition CHILD_Cycle ::
  "'r hat_library \<Rightarrow> hat_options \<Rightarrow> (hat_input \<Rightarrow> hat_output) \<Rightarrow> nat \<Rightarrow> (int \<times> 'r) list \<Rightarrow> bool \<Rightarrow> 'r hat \<Rightarrow> 'r hat run" where
  "CHILD_Cycle lib opts dev client requests request_rf s =
     rbind (CHILD_SetupRf (input_default lib) (data s)) (\<lambda>(input, d).
     rbind (CHILD_SetupCAN lib opts requests input (s\<lparr>data := d\<rparr>)) (\<lambda>(input, s).
       let input = input\<lparr>in_request_attitude := True, in_wait_for_attitude := True, in_request_attitude_detail := attitude_detail opts,
             in_request_rf := request_rf, in_timeout_ns := trunc (query_timeout_s opts * 10 ^ 9), in_rx_extra_wait_ns := 0\<rparr>
       in Go (post_main (FinishCycle client) (device_cycle dev True input s))))"

definition CHILD_Transmit ::
  "'r hat_library \<Rightarrow> hat_options \<Rightarrow> (hat_input \<Rightarrow> hat_output) \<Rightarrow> nat \<Rightarrow> (int \<times> 'r) list \<Rightarrow> bool \<Rightarrow> bool \<Rightarrow> 'r hat \<Rightarrow> 'r hat run" where
  "CHILD_Transmit lib opts dev client requests request_attitude request_rf s =
     rbind (CHILD_SetupRf (input_default lib) (data s)) (\<lambda>(input, d).
     rbind (CHILD_SetupCAN lib opts requests input (s\<lparr>data := d\<rparr>)) (\<lambda>(input, s).
       let input = input\<lparr>in_request_attitude := request_attitude, in_wait_for_attitude := False,
             in_request_attitude_detail := attitude_detail opts, in_request_rf := request_rf,
             in_timeout_ns := trunc (query_timeout_s opts * 10 ^ 9)\<rparr>
       in Go (post_main (FinishTransmit client) (device_cycle dev True input s))))"

section \<open>Tunnels\<close>

text \<open>The bytes that one frame brings for the channel, and how many of them it announces.\<close>

definition tunnel_payload :: "'r hat_library \<Rightarrow> nat \<Rightarrow> nat \<Rightarrow> can_frame \<Rightarrow> (nat \<times> u8 list) option" where
  "tunnel_payload lib i channel src =
     (if unat (drop_bit 8 (cf_id src) AND 0xff) \<noteq> i then None
      else (case read_varuint lib (cf_data src) of
              None \<Rightarrow> None
            | Some (subframe, rest) \<Rightarrow>
                if subframe \<noteq> kServerToClient lib then None
                else (case read_varuint lib rest of
                        None \<Rightarrow> None
                      | Some (ch, rest) \<Rightarrow>
                          if ch \<noteq> channel then None
                          else (case read_varuint lib rest of
                                  None \<Rightarrow> None
                                | Some (n, rest) \<Rightarrow> if n = 0 then None else Some (n, rest)))))"

text \<open>The bytes go to the buffers from the first one on; the count is of the bytes that were asked for.\<close>

fun fill_buffers :: "'r hat_library \<Rightarrow> nat \<Rightarrow> u8 list \<Rightarrow> u8 list list \<Rightarrow> u8 list list \<times> nat" where
  "fill_buffers lib remaining bytes [] = ([], 0)"
| "fill_buffers lib remaining bytes (b # bs) =
     (if remaining = 0 then (b # bs, 0)
      else (let to_read = min (length b) remaining; (got, rest) = stream_read lib to_read bytes;
                (bs', n) = fill_buffers lib (remaining - to_read) rest bs
            in ((got @ drop (length got) b) # bs', to_read + n)))"

fun CHILD_ParseTunnelPoll :: "'r hat_library \<Rightarrow> nat \<Rightarrow> nat \<Rightarrow> can_frame list \<Rightarrow> u8 list list \<Rightarrow> u8 list list \<times> nat" where
  "CHILD_ParseTunnelPoll lib i channel [] bufs = (bufs, 0)"
| "CHILD_ParseTunnelPoll lib i channel (src # srcs) bufs =
     (case tunnel_payload lib i channel src of
        None \<Rightarrow> CHILD_ParseTunnelPoll lib i channel srcs bufs
      | Some (stream_size, bytes) \<Rightarrow>
          (let (bufs, n) = fill_buffers lib stream_size bytes bufs; (bufs, m) = CHILD_ParseTunnelPoll lib i channel srcs bufs
           in (bufs, n + m)))"

definition buffer_size :: "u8 list list \<Rightarrow> nat" where
  "buffer_size bufs = sum_list (map length bufs)"

text \<open>A frame written with the stream of mjlib: its bytes have room in it.\<close>

definition tunnel_frame :: "'r hat_library \<Rightarrow> hat_options \<Rightarrow> nat \<Rightarrow> u32 \<Rightarrow> bool \<Rightarrow> u8 list \<Rightarrow> can_frame run" where
  "tunnel_frame lib opts i cid expect bytes =
     (if length bytes \<le> can_room lib
      then Go \<lparr>cf_id = cid, cf_bus = SelectBus opts (int i), cf_expect_reply = expect, cf_data = bytes\<rparr> else Abort)"

definition set_first :: "'a \<Rightarrow> 'a list \<Rightarrow> 'a list" where
  "set_first x xs = (if xs = [] then [x] else xs[0 := x])"

definition CHILD_TunnelPoll ::
  "'r hat_library \<Rightarrow> hat_options \<Rightarrow> (hat_input \<Rightarrow> hat_output) \<Rightarrow> nat \<Rightarrow> nat \<Rightarrow> nat \<Rightarrow> 'r hat \<Rightarrow> (nat \<times> 'r hat) run" where
  "CHILD_TunnelPoll lib opts dev client i channel s =
     (let room = max 4 (rx_can_room (data s));
          input = (input_default lib)\<lparr>in_rx_can := room, in_force_can_check := push_bit (nat (SelectBus opts (int i))) 1,
            in_timeout_ns := 0, in_min_tx_wait_ns := 0\<rparr>;
          s = device_cycle dev False input (s\<lparr>data := (data s)\<lparr>rx_can_room := room\<rparr>\<rparr>);
          parse = (\<lambda>s. let (bufs, n) = CHILD_ParseTunnelPoll lib i channel (rx_can (data s)) (buffers s client)
                        in (n, s\<lparr>buffers := (buffers s)(client := bufs)\<rparr>))
      in if rx_can (data s) \<noteq> [] then Go (parse s)
         else rbind (tunnel_frame lib opts i (0x8000 OR of_nat i) True
                (varuint lib (kClientPollServer lib) @ varuint lib channel @ varuint lib (min 48 (buffer_size (buffers s client))))) (\<lambda>f.
                let input = input\<lparr>in_timeout_ns := trunc (query_timeout_s opts * 10 ^ 9),
                      in_min_tx_wait_ns := trunc (min_wait_s opts * 10 ^ 9), in_tx_can := [f]\<rparr>
                in Go (parse (device_cycle dev False input (s\<lparr>data := (data s)\<lparr>tx_can := set_first f (tx_can (data s))\<rparr>\<rparr>)))))"

text \<open>The output of this cycle is not kept.\<close>

definition CHILD_TunnelWrite ::
  "'r hat_library \<Rightarrow> hat_options \<Rightarrow> nat \<Rightarrow> nat \<Rightarrow> nat \<Rightarrow> u8 list list \<Rightarrow> 'r hat \<Rightarrow> 'r hat run" where
  "CHILD_TunnelWrite lib opts client i channel bufs s =
     (let n = min 48 (buffer_size bufs)
      in rbind (tunnel_frame lib opts i (of_nat i)
             (case tx_can (data s) of [] \<Rightarrow> False | f # _ \<Rightarrow> cf_expect_reply f)
             (varuint lib (kClientToServer lib) @ varuint lib channel @ varuint lib n @ take n (concat bufs))) (\<lambda>f.
           Go (post_main (TunnelWritten client n)
             (s\<lparr>data := (data s)\<lparr>tx_can := set_first f (tx_can (data s))\<rparr>,
                wire := wire s @ [(input_default lib)\<lparr>in_tx_can := [f]\<rparr>]\<rparr>))))"

text \<open>The next job of the second thread.\<close>

definition child_run :: "'r hat_library \<Rightarrow> hat_options \<Rightarrow> (hat_input \<Rightarrow> hat_output) \<Rightarrow> 'r hat \<Rightarrow> 'r hat run" where
  "child_run lib opts dev s =
     (case child_queue s of
        [] \<Rightarrow> Go s
      | job # rest \<Rightarrow>
          (let s = s\<lparr>child_queue := rest\<rparr>
           in case job of
                Transmit client requests request_attitude request_rf \<Rightarrow> CHILD_Transmit lib opts dev client requests request_attitude request_rf s
              | CycleJob client requests request_rf \<Rightarrow> CHILD_Cycle lib opts dev client requests request_rf s
              | TunnelPoll client i channel \<Rightarrow>
                  rbind (CHILD_TunnelPoll lib opts dev client i channel s) (\<lambda>(n, s).
                    Go (post_main (if n > 0 then TunnelRead client n else TunnelWait client i channel) s))
              | TunnelWrite client i channel bufs \<Rightarrow> CHILD_TunnelWrite lib opts client i channel bufs s))"

section \<open>Results\<close>

text \<open>The power switch, in the first byte of a frame of the power board. In a frame without bytes it is what an earlier frame
  has left in the array, which is taken as on.\<close>

definition switch_off :: "can_frame \<Rightarrow> bool" where
  "switch_off src \<longleftrightarrow> cf_id src = 0x10004 \<and> (case cf_data src of [] \<Rightarrow> False | b # _ \<Rightarrow> b = 0)"

text \<open>The replies of the servos; a frame of the power board that says that the switch is off ends the process.\<close>

fun FinishCAN :: "'r hat_library \<Rightarrow> can_frame list \<Rightarrow> reply list \<Rightarrow> reply list option" where
  "FinishCAN lib [] reply = Some reply"
| "FinishCAN lib (src # srcs) reply =
     (if cf_id src = 0x10004
      then (if switch_off src then None else FinishCAN lib srcs reply)
      else FinishCAN lib srcs (reply @
        map (\<lambda>(reg, value). \<lparr>rp_id = int (unat (drop_bit 8 (cf_id src) AND 0xff)), rp_reg = reg, rp_value = value\<rparr>)
          (parse_reply lib (cf_data src))))"

definition FinishAttitude :: "real \<Rightarrow> raw_attitude \<Rightarrow> AttitudeData" where
  "FinishAttitude now raw =
     \<lparr>ad_timestamp = now, ad_attitude = ra_attitude raw, ad_rate_dps = ra_rate_dps raw,
      ad_euler_deg = scale_euler (180 / pi) (euler_rad (ra_attitude raw)), ad_accel_mps2 = ra_accel_mps2 raw,
      ad_bias_dps = ra_bias_dps raw, ad_attitude_uncertainty = ra_attitude_uncertainty raw,
      ad_bias_uncertainty_dps = ra_bias_uncertainty_dps raw\<rparr>"

text \<open>The received slots: the marks of their numbers, and their bytes. There are sixteen slots of sixteen bytes.\<close>

fun receive_slots :: "real \<Rightarrow> rf_frame list \<Rightarrow> u16 \<times> rf_slot list \<Rightarrow> (u16 \<times> rf_slot list) run" where
  "receive_slots now [] st = Go st"
| "receive_slots now (src # srcs) (marks, slots) =
     (let i = rf_slot_number src; n = length (rf_data src)
      in if i < 16 \<and> n \<le> 16
         then receive_slots now srcs (marks OR push_bit i 1,
                slots[i := (slots ! i)\<lparr>sl_size := n, sl_data := rf_data src @ drop n (sl_data (slots ! i)), sl_timestamp := Some now\<rparr>])
         else Abort)"

definition FinishRF :: "real \<Rightarrow> 'r hat \<Rightarrow> 'r hat run" where
  "FinishRF now s =
     (if \<not> waiting_rf s then Go s
      else rbind (receive_slots now (rx_rf (data s)) (0, hat_rx_slots s)) (\<lambda>(marks, slots).
             Go (post_main RfDone (s\<lparr>rf_remote := 0, rf_bitfield := marks, hat_rx_slots := slots, waiting_rf := False\<rparr>))))"

definition with_replies :: "'r hat_library \<Rightarrow> nat \<Rightarrow> 'r hat \<Rightarrow> ('r hat \<Rightarrow> 'r hat run) \<Rightarrow> 'r hat run" where
  "with_replies lib client s f =
     (case FinishCAN lib (rx_can (data s)) (replies s client) of
        None \<Rightarrow> Go (s\<lparr>exited := True\<rparr>)
      | Some reply \<Rightarrow> f (s\<lparr>replies := (replies s)(client := reply)\<rparr>))"

definition hat_FinishCycle :: "'r hat_library \<Rightarrow> real \<Rightarrow> nat \<Rightarrow> 'r hat \<Rightarrow> 'r hat run" where
  "hat_FinishCycle lib now client s =
     with_replies lib client s (\<lambda>s.
       rbind (FinishRF now (s\<lparr>cycle_imu := FinishAttitude now (attitude (data s))\<rparr>)) (\<lambda>s. Go (post_main (TransmitDone client) s)))"

definition hat_FinishTransmit :: "'r hat_library \<Rightarrow> real \<Rightarrow> nat \<Rightarrow> 'r hat \<Rightarrow> 'r hat run" where
  "hat_FinishTransmit lib now client s =
     with_replies lib client s (\<lambda>s.
       let s = (if waiting_imu s
                then post_main ImuDone (s\<lparr>imu := FinishAttitude now (attitude (data s)), waiting_imu := False\<rparr>) else s)
       in rbind (FinishRF now s) (\<lambda>s. Go (post_main (TransmitDone client) s)))"

text \<open>The next job of the application's thread. The callbacks of the clients are steps of the clients, and the timer of a
  tunnel asks again.\<close>

definition main_run :: "'r hat_library \<Rightarrow> real \<Rightarrow> 'r hat \<Rightarrow> 'r hat run" where
  "main_run lib now s =
     (case main_queue s of
        [] \<Rightarrow> Go s
      | job # rest \<Rightarrow>
          (let s = s\<lparr>main_queue := rest\<rparr>
           in case job of
                FinishTransmit client \<Rightarrow> hat_FinishTransmit lib now client s
              | FinishCycle client \<Rightarrow> hat_FinishCycle lib now client s
              | TunnelWait client i channel \<Rightarrow> Go (async_read_some client i channel s)
              | _ \<Rightarrow> Go s))"

text \<open>The state after the constructor; the attitude is that of a new \<open>Attitude\<close>.\<close>

definition imu_default :: AttitudeData where
  "imu_default = \<lparr>ad_timestamp = 0, ad_attitude = quaternion 1 0 0 0, ad_rate_dps = vzero, ad_euler_deg = \<lparr>roll = 0, pitch = 0, yaw = 0\<rparr>,
     ad_accel_mps2 = vzero, ad_bias_dps = vzero, ad_attitude_uncertainty = quaternion 1 0 0 0, ad_bias_uncertainty_dps = vzero\<rparr>"

definition hat_start :: "raw_attitude \<Rightarrow> 'r hat" where
  "hat_start raw =
     \<lparr>waiting_imu = False, imu = imu_default, cycle_imu = imu_default, waiting_rf = False, rf_remote = 0, rf_bitfield = 0,
      hat_rx_slots = replicate 16 slot_default, hat_tx_slots = replicate 16 slot_default, rf_to_send = 0, power_poll = False,
      data = \<lparr>tx_can = [], rx_can_room = 0, tx_rf = [], attitude = raw, child_tx_slots = replicate 16 slot_default, child_to_send = 0,
        rx_can = [], rx_rf = []\<rparr>,
      replies = (\<lambda>_. []), buffers = (\<lambda>_. []), child_queue = [], main_queue = [], wire = [], exited = False\<rparr>"

end
