(* ===== verification/Pi3hatProps.thy ===== *)
theory Pi3hatProps
  imports Pi3hat RfProps
begin

unbundle bit_operations_syntax

text \<open>
  The board of the robot and its clients: the interface of the radio that the device of the console and the board share,
  what a request gets back whatever the clients do meanwhile, which slots and readings of the IMU a cycle carries, and
  the count of a tunnel.
\<close>

section \<open>The radio interface\<close>

text \<open>Several slots, one after the other.\<close>

fun send_all :: "(int \<Rightarrow> int \<Rightarrow> rf_slot \<Rightarrow> 's \<Rightarrow> 's run) \<Rightarrow> int \<Rightarrow> (int \<times> rf_slot) list \<Rightarrow> 's \<Rightarrow> 's run" where
  "send_all tx r [] s = Go s"
| "send_all tx r ((i, slot) # is) s = rbind (tx r i slot s) (send_all tx r is)"

definition sendable :: "(int \<times> rf_slot) list \<Rightarrow> bool" where
  "sendable is \<longleftrightarrow> (\<forall>(i, slot) \<in> set is. 0 \<le> i \<and> i < 15 \<and> sl_size slot \<le> 16 \<and> length (sl_data slot) = 16)"

text \<open>\<open>RfClient\<close>: a slot that was set can be read back, the other slots stay as they are, and so do the received ones.\<close>

locale rf_client =
  fixes ok :: "'s \<Rightarrow> bool" and tx :: "int \<Rightarrow> int \<Rightarrow> rf_slot \<Rightarrow> 's \<Rightarrow> 's run" and tx_get rx :: "int \<Rightarrow> int \<Rightarrow> 's \<Rightarrow> rf_slot run"
  assumes tx_ok: "ok s \<Longrightarrow> 0 \<le> i \<Longrightarrow> i < 15 \<Longrightarrow> sl_size slot \<le> 16 \<Longrightarrow> length (sl_data slot) = 16 \<Longrightarrow>
      \<exists>s'. tx r i slot s = Go s' \<and> ok s'"
    and tx_same: "ok s \<Longrightarrow> 0 \<le> i \<Longrightarrow> i < 15 \<Longrightarrow> tx r i slot s = Go s' \<Longrightarrow> tx_get r i s' = Go slot"
    and tx_other: "0 \<le> i \<Longrightarrow> i < 15 \<Longrightarrow> tx r i slot s = Go s' \<Longrightarrow> 0 \<le> j \<Longrightarrow> j < 15 \<Longrightarrow> i \<noteq> j \<Longrightarrow> tx_get r j s' = tx_get r j s"
    and tx_rx: "tx r i slot s = Go s' \<Longrightarrow> rx q j s' = rx q j s"
begin

lemma send_all_Go: "ok s \<Longrightarrow> sendable is \<Longrightarrow> \<exists>s'. send_all tx r is s = Go s' \<and> ok s'"
proof (induction "is" arbitrary: s)
  case (Cons x "is")
  obtain i slot where x: "x = (i, slot)" by (cases x)
  obtain s1 where "tx r i slot s = Go s1" "ok s1" using tx_ok [of s i slot r] Cons.prems x by (auto simp: sendable_def)
  then show ?case using Cons.IH [of s1] Cons.prems x by (simp add: sendable_def)
qed simp

lemma send_all_other: "send_all tx r is s = Go s' \<Longrightarrow> sendable is \<Longrightarrow> 0 \<le> j \<Longrightarrow> j < 15 \<Longrightarrow> j \<notin> fst ` set is \<Longrightarrow> tx_get r j s' = tx_get r j s"
proof (induction "is" arbitrary: s)
  case (Cons x "is")
  obtain i slot where x: "x = (i, slot)" by (cases x)
  obtain s1 where s1: "tx r i slot s = Go s1" "send_all tx r is s1 = Go s'" using Cons.prems(1) x by (auto simp: rbind_Go)
  have "tx_get r j s1 = tx_get r j s" using tx_other [OF _ _ s1(1), of j] Cons.prems x by (auto simp: sendable_def)
  then show ?case using Cons.IH [OF s1(2)] Cons.prems x by (auto simp: sendable_def)
qed simp

lemma send_all_rx: "send_all tx r is s = Go s' \<Longrightarrow> rx q j s' = rx q j s"
  by (induction "is" arbitrary: s) (auto simp: rbind_Go dest!: tx_rx [of r _ _ _ _ q j])

lemma send_all_get:
  assumes "ok s" "sendable is" "distinct (map fst is)" "send_all tx r is s = Go s'" "(i, slot) \<in> set is"
  shows "tx_get r i s' = Go slot"
  using assms
proof (induction "is" arbitrary: s)
  case (Cons x "is")
  obtain j other where x: "x = (j, other)" by (cases x)
  have j: "0 \<le> j" "j < 15" "sendable is" using Cons.prems(2) x by (auto simp: sendable_def)
  obtain s1 where s1: "tx r j other s = Go s1" "send_all tx r is s1 = Go s'" using Cons.prems(4) x by (auto simp: rbind_Go)
  have "ok s1" using tx_ok [of s j other r] Cons.prems(1,2) x s1(1) by (auto simp: sendable_def)
  show ?case
  proof (cases "(i, slot) = (j, other)")
    case True
    then have "tx_get r i s1 = Go slot" using tx_same [OF Cons.prems(1) j(1,2)] s1(1) by simp
    moreover have "i \<notin> fst ` set is" using Cons.prems(3) x True by simp
    ultimately show ?thesis using send_all_other [OF s1(2) j(3)] j(1,2) True by simp
  next
    case False
    then show ?thesis using Cons.IH [OF \<open>ok s1\<close> j(3) _ s1(2)] Cons.prems(3,5) x by auto
  qed
qed simp

end

text \<open>The console's device.\<close>

interpretation usb: rf_client "\<lambda>s. slots_typed (tx_slots s)" "tx_slot lib" tx_slot_get rx_slot for lib
proof
  fix s :: nrf and i r :: int and slot :: rf_slot
  assume "slots_typed (tx_slots s)" "0 \<le> i" "i < 15" "sl_size slot \<le> 16" "length (sl_data slot) = 16"
  then show "\<exists>s'. tx_slot lib r i slot s = Go s' \<and> slots_typed (tx_slots s')"
    using slots_typed_update by (simp add: tx_slot_def)
next
  fix s s' :: nrf and i r :: int and slot :: rf_slot
  assume "slots_typed (tx_slots s)" "0 \<le> i" "i < 15" "tx_slot lib r i slot s = Go s'"
  then show "tx_slot_get r i s' = Go slot"
    using slots_typedD(1) [of "tx_slots s" r] by (auto simp: tx_slot_def tx_slot_get_def split: if_splits)
next
  fix s s' :: nrf and i j r :: int and slot :: rf_slot
  assume "0 \<le> i" "i < 15" "tx_slot lib r i slot s = Go s'" "0 \<le> j" "j < 15" "i \<noteq> j"
  then show "tx_slot_get r j s' = tx_slot_get r j s"
    by (auto simp: tx_slot_def tx_slot_get_def split: if_splits)
next
  fix s s' :: nrf and i j r q :: int and slot :: rf_slot
  assume "tx_slot lib r i slot s = Go s'"
  then show "rx_slot q j s' = rx_slot q j s" by (auto simp: tx_slot_def rx_slot_def split: if_splits)
qed

text \<open>The board, whatever the remote.\<close>

interpretation board: rf_client "\<lambda>s. length (hat_tx_slots s) = 16" hat_tx_slot hat_tx_slot_get hat_rx_slot
  by unfold_locales (auto simp: hat_tx_slot_def hat_tx_slot_get_def hat_rx_slot_def nth_list_update split: if_splits)

section \<open>What the device gets\<close>

definition slots16 :: "rf_slot list \<Rightarrow> bool" where
  "slots16 slots \<longleftrightarrow> length slots = 16 \<and> (\<forall>slot \<in> set slots. sl_size slot \<le> 16)"

definition slot_frame :: "rf_slot list \<Rightarrow> nat \<Rightarrow> rf_frame" where
  "slot_frame slots i = \<lparr>rf_slot_number = i, rf_priority = sl_priority (slots ! i), rf_data = take (sl_size (slots ! i)) (sl_data (slots ! i))\<rparr>"

lemma setup_slots_Go: "\<forall>i \<in> set is. i < length slots \<Longrightarrow> \<forall>slot \<in> set slots. sl_size slot \<le> 16 \<Longrightarrow>
    setup_slots marks slots is = Go (map (slot_frame slots) (filter (bit marks) is))"
  by (induction "is") (auto simp: slot_frame_def)

definition marked_frames :: "pi3data \<Rightarrow> rf_frame list" where
  "marked_frames d = map (slot_frame (child_tx_slots d)) (filter (bit (child_to_send d)) [0..<15])"

lemma CHILD_SetupRf_Go:
  assumes "slots16 (child_tx_slots d)"
  shows "CHILD_SetupRf input d = Go (input\<lparr>in_tx_rf := if child_to_send d \<noteq> 0 then marked_frames d else in_tx_rf input, in_rx_rf := 16\<rparr>,
    d\<lparr>tx_rf := if child_to_send d \<noteq> 0 then marked_frames d else []\<rparr>)"
  using assms by (simp add: CHILD_SetupRf_def setup_slots_Go slots16_def marked_frames_def)

definition requests_fit :: "'r hat_library \<Rightarrow> (int \<times> 'r) list \<Rightarrow> bool" where
  "requests_fit lib rs \<longleftrightarrow> (\<forall>(i, r) \<in> set rs. length (request_bytes lib r) \<le> can_room lib)"

definition frame_of :: "'r hat_library \<Rightarrow> hat_options \<Rightarrow> int \<times> 'r \<Rightarrow> can_frame" where
  "frame_of lib opts q = \<lparr>cf_id = word_of_int (fst q) OR (if wants_reply lib (snd q) then 0x8000 else 0), cf_bus = SelectBus opts (fst q),
     cf_expect_reply = wants_reply lib (snd q), cf_data = request_bytes lib (snd q)\<rparr>"

lemma request_frames_Go: "requests_fit lib rs \<Longrightarrow> request_frames lib opts rs = Go (map (frame_of lib opts) rs)"
  by (induction rs) (auto simp: requests_fit_def request_frame_def frame_of_def)

lemma requests_fit_iff: "request_frames lib opts rs = Go fs \<Longrightarrow> requests_fit lib rs"
  by (induction rs arbitrary: fs) (auto simp: requests_fit_def request_frame_def rbind_Go split: if_splits)

text \<open>The input of a cycle for the requests of a client, and the state after it.\<close>

definition cycle_frames :: "'r hat_library \<Rightarrow> hat_options \<Rightarrow> (int \<times> 'r) list \<Rightarrow> bool \<Rightarrow> can_frame list" where
  "cycle_frames lib opts rs poll = map (frame_of lib opts) rs @ (if poll then [poll_frame opts] else [])"

definition cycle_input :: "'r hat_library \<Rightarrow> hat_options \<Rightarrow> (int \<times> 'r) list \<Rightarrow> bool \<Rightarrow> bool \<Rightarrow> pi3data \<Rightarrow> bool \<Rightarrow> hat_input" where
  "cycle_input lib opts rs att wants_rf d poll =
     (input_default lib)
       \<lparr>in_tx_rf := if child_to_send d \<noteq> 0 then marked_frames d else in_tx_rf (input_default lib), in_rx_rf := 16,
        in_force_can_check := if poll then in_force_can_check (input_default lib) OR push_bit 5 1 else in_force_can_check (input_default lib),
        in_tx_can := if cycle_frames lib opts rs poll \<noteq> [] then cycle_frames lib opts rs poll else in_tx_can (input_default lib),
        in_rx_can := max (length (cycle_frames lib opts rs poll) * 2) 24, in_request_attitude := att, in_wait_for_attitude := False,
        in_request_attitude_detail := attitude_detail opts, in_request_rf := wants_rf, in_timeout_ns := trunc (query_timeout_s opts * 10 ^ 9)\<rparr>"

lemma CHILD_Transmit_Go:
  assumes "slots16 (child_tx_slots (data s))" "requests_fit lib rs"
  shows "CHILD_Transmit lib opts dev k rs att wants_rf s = Go (post_main (FinishTransmit k)
    (device_cycle dev True (cycle_input lib opts rs att wants_rf (data s) (power_poll s))
      (s\<lparr>power_poll := False,
         data := (data s)\<lparr>tx_rf := if child_to_send (data s) \<noteq> 0 then marked_frames (data s) else [],
           tx_can := cycle_frames lib opts rs (power_poll s), rx_can_room := max (length (cycle_frames lib opts rs (power_poll s)) * 2) 24\<rparr>\<rparr>)))"
  by (cases "power_poll s"; cases "rs = []")
    (simp_all add: CHILD_Transmit_def CHILD_SetupRf_Go [OF assms(1)] CHILD_SetupCAN_def request_frames_Go [OF assms(2)] cycle_frames_def
      cycle_input_def Let_def)

section \<open>The clients\<close>

text \<open>What clients do that wait for no result.\<close>

datatype client_op = OpReadImu | OpWaitSlot | OpTxSlot int int rf_slot | OpPowerPoll

fun client_ops :: "client_op list \<Rightarrow> 'r hat \<Rightarrow> 'r hat run" where
  "client_ops [] s = Go s"
| "client_ops (OpReadImu # ops) s = client_ops ops (ReadImu s)"
| "client_ops (OpWaitSlot # ops) s = client_ops ops (hat_AsyncWaitForSlot s)"
| "client_ops (OpTxSlot r i slot # ops) s = rbind (hat_tx_slot r i slot s) (client_ops ops)"
| "client_ops (OpPowerPoll # ops) s = client_ops ops (HandlePowerPoll s)"

definition same_work :: "'r hat \<Rightarrow> 'r hat \<Rightarrow> bool" where
  "same_work s' s \<longleftrightarrow> data s' = data s \<and> replies s' = replies s \<and> child_queue s' = child_queue s \<and> main_queue s' = main_queue s \<and>
     wire s' = wire s \<and> exited s' = exited s \<and> hat_rx_slots s' = hat_rx_slots s"

lemma client_ops_same: "client_ops ops s = Go s' \<Longrightarrow> same_work s' s \<and> (power_poll s' \<longleftrightarrow> power_poll s \<or> OpPowerPoll \<in> set ops) \<and>
    (waiting_imu s' \<longleftrightarrow> waiting_imu s \<or> OpReadImu \<in> set ops) \<and> (waiting_rf s' \<longleftrightarrow> waiting_rf s \<or> OpWaitSlot \<in> set ops)"
  by (induction ops s rule: client_ops.induct)
    (auto simp: same_work_def ReadImu_def hat_AsyncWaitForSlot_def HandlePowerPoll_def rbind_Go hat_tx_slot_def split: if_splits)

lemma child_run_Transmit: "child_queue s = Transmit k rs att wants_rf # rest \<Longrightarrow>
    child_run lib opts dev s = CHILD_Transmit lib opts dev k rs att wants_rf (s\<lparr>child_queue := rest\<rparr>)"
  by (simp add: child_run_def)

section \<open>Replies\<close>

definition frame_replies :: "'r hat_library \<Rightarrow> can_frame \<Rightarrow> reply list" where
  "frame_replies lib f = map (\<lambda>(reg, value). \<lparr>rp_id = int (unat (drop_bit 8 (cf_id f) AND 0xff)), rp_reg = reg, rp_value = value\<rparr>)
     (parse_reply lib (cf_data f))"

lemma FinishCAN_replies:
  "FinishCAN lib fs rs = (if \<exists>f \<in> set fs. switch_off f then None
     else Some (rs @ concat (map (frame_replies lib) (filter (\<lambda>f. cf_id f \<noteq> 0x10004) fs))))"
  by (induction fs arbitrary: rs) (auto simp: frame_replies_def switch_off_def)

lemma FinishRF_same:
  assumes "FinishRF now s = Go s'"
  shows "replies s' = replies s \<and> exited s' = exited s \<and> data s' = data s \<and> wire s' = wire s \<and> imu s' = imu s \<and>
    waiting_imu s' = waiting_imu s \<and> hat_tx_slots s' = hat_tx_slots s \<and> child_queue s' = child_queue s"
  using assms by (auto simp: FinishRF_def rbind_Go post_main_def split: if_splits)

text \<open>Slots whose sizes fit, on both sides.\<close>

definition hat_ok :: "'r hat \<Rightarrow> bool" where
  "hat_ok s \<longleftrightarrow> slots16 (hat_tx_slots s) \<and> slots16 (child_tx_slots (data s))"

definition hat_idle :: "'r hat \<Rightarrow> bool" where
  "hat_idle s \<longleftrightarrow> child_queue s = [] \<and> main_queue s = []"

lemma copy_rf_fields [simp]:
  "child_queue (copy_rf s) = child_queue s" "main_queue (copy_rf s) = main_queue s" "wire (copy_rf s) = wire s"
  "replies (copy_rf s) = replies s" "exited (copy_rf s) = exited s" "power_poll (copy_rf s) = power_poll s"
  "waiting_imu (copy_rf s) = waiting_imu s" "waiting_rf (copy_rf s) = waiting_rf s" "hat_rx_slots (copy_rf s) = hat_rx_slots s"
  "attitude (data (copy_rf s)) = attitude (data s)" "hat_tx_slots (copy_rf s) = hat_tx_slots s" "rf_to_send (copy_rf s) = 0"
  "imu (copy_rf s) = imu s"
  by (simp_all add: copy_rf_def)

lemma copy_rf_child: "hat_ok s \<Longrightarrow> slots16 (child_tx_slots (data (copy_rf s)))"
  by (simp add: copy_rf_def hat_ok_def)

lemma post_main_fields [simp]:
  "data (post_main j s) = data s" "replies (post_main j s) = replies s" "child_queue (post_main j s) = child_queue s"
  "main_queue (post_main j s) = main_queue s @ [j]" "wire (post_main j s) = wire s" "exited (post_main j s) = exited s"
  "waiting_imu (post_main j s) = waiting_imu s" "waiting_rf (post_main j s) = waiting_rf s" "hat_rx_slots (post_main j s) = hat_rx_slots s"
  "rf_bitfield (post_main j s) = rf_bitfield s" "imu (post_main j s) = imu s" "hat_tx_slots (post_main j s) = hat_tx_slots s"
  "rf_to_send (post_main j s) = rf_to_send s" "power_poll (post_main j s) = power_poll s"
  by (simp_all add: post_main_def)

lemma device_cycle_fields [simp]:
  "replies (device_cycle dev w i s) = replies s" "child_queue (device_cycle dev w i s) = child_queue s"
  "main_queue (device_cycle dev w i s) = main_queue s" "wire (device_cycle dev w i s) = wire s @ [i]"
  "exited (device_cycle dev w i s) = exited s" "waiting_imu (device_cycle dev w i s) = waiting_imu s"
  "waiting_rf (device_cycle dev w i s) = waiting_rf s" "hat_rx_slots (device_cycle dev w i s) = hat_rx_slots s"
  "imu (device_cycle dev w i s) = imu s" "hat_tx_slots (device_cycle dev w i s) = hat_tx_slots s"
  "rf_to_send (device_cycle dev w i s) = rf_to_send s"
  "rx_can (data (device_cycle dev w i s)) = take (in_rx_can i) (out_rx_can (dev i))"
  "rx_rf (data (device_cycle dev w i s)) = take (in_rx_rf i) (out_rx_rf (dev i))"
  "child_tx_slots (data (device_cycle dev w i s)) = child_tx_slots (data s)"
  "child_to_send (data (device_cycle dev w i s)) = child_to_send (data s)"
  "attitude (data (device_cycle dev w i s)) = (case out_attitude (dev i) of Some a \<Rightarrow> if w then a else attitude (data s) | None \<Rightarrow> attitude (data s))"
  by (simp_all add: device_cycle_def Let_def)

text \<open>A transmission in the second thread, after other work of the clients.\<close>

lemma transmit_child:
  assumes "hat_ok s" "hat_idle s" "requests_fit lib rs" "client_ops ops (AsyncTransmit k rs s) = Go s1"
  shows "let input = cycle_input lib opts rs (waiting_imu s) (waiting_rf s) (data (copy_rf s)) (power_poll s \<or> OpPowerPoll \<in> set ops)
    in \<exists>s2. child_run lib opts dev s1 = Go s2 \<and> wire s2 = wire s @ [input] \<and> replies s2 = replies s \<and> exited s2 = exited s \<and>
      child_queue s2 = [] \<and> main_queue s2 = [FinishTransmit k] \<and> hat_rx_slots s2 = hat_rx_slots s \<and>
      rx_can (data s2) = take (in_rx_can input) (out_rx_can (dev input)) \<and> rx_rf (data s2) = take 16 (out_rx_rf (dev input)) \<and>
      (waiting_imu s2 \<longleftrightarrow> waiting_imu s \<or> OpReadImu \<in> set ops) \<and> (waiting_rf s2 \<longleftrightarrow> waiting_rf s \<or> OpWaitSlot \<in> set ops) \<and>
      attitude (data s2) = (case out_attitude (dev input) of Some a \<Rightarrow> a | None \<Rightarrow> attitude (data s)) \<and>
      child_tx_slots (data s2) = child_tx_slots (data (copy_rf s)) \<and> child_to_send (data s2) = child_to_send (data (copy_rf s)) \<and>
      hat_tx_slots s2 = hat_tx_slots s1 \<and> rf_to_send s2 = rf_to_send s1"
proof -
  note c = client_ops_same [OF assms(4)]
  have a: "child_queue (AsyncTransmit k rs s) = [Transmit k rs (waiting_imu s) (waiting_rf s)]" "data (AsyncTransmit k rs s) = data (copy_rf s)"
    "main_queue (AsyncTransmit k rs s) = []" "wire (AsyncTransmit k rs s) = wire s" "replies (AsyncTransmit k rs s) = replies s"
    "exited (AsyncTransmit k rs s) = exited s" "power_poll (AsyncTransmit k rs s) = power_poll s"
    "waiting_imu (AsyncTransmit k rs s) = waiting_imu s" "waiting_rf (AsyncTransmit k rs s) = waiting_rf s"
    "hat_rx_slots (AsyncTransmit k rs s) = hat_rx_slots s"
    using assms(2) by (simp_all add: AsyncTransmit_def Let_def hat_idle_def)
  have q: "child_queue s1 = [Transmit k rs (waiting_imu s) (waiting_rf s)]" "data s1 = data (copy_rf s)" "main_queue s1 = []" "wire s1 = wire s"
    "replies s1 = replies s" "exited s1 = exited s" "hat_rx_slots s1 = hat_rx_slots s"
    "power_poll s1 \<longleftrightarrow> power_poll s \<or> OpPowerPoll \<in> set ops" "waiting_imu s1 \<longleftrightarrow> waiting_imu s \<or> OpReadImu \<in> set ops"
    "waiting_rf s1 \<longleftrightarrow> waiting_rf s \<or> OpWaitSlot \<in> set ops"
    using c a by (simp_all add: same_work_def)
  have "slots16 (child_tx_slots (data (s1\<lparr>child_queue := []\<rparr>)))" using copy_rf_child [OF assms(1)] q(2) by simp
  from CHILD_Transmit_Go [OF this assms(3)] q(1) show ?thesis
    unfolding Let_def child_run_Transmit [OF q(1)]
    by (simp add: q(2-7) q(8) [symmetric] q(9,10) cong: option.case_cong) (simp add: cycle_input_def)
qed


text \<open>Slots that are set are marked.\<close>

lemma send_all_marks:
  assumes "send_all hat_tx_slot r is s = Go s'" "sendable is" "hat_ok s"
  shows "\<forall>(i, slot) \<in> set is. bit (rf_to_send s') (nat i)" "hat_ok s'" "child_queue s' = child_queue s \<and> main_queue s' = main_queue s"
proof -
  have "(\<forall>(i, slot) \<in> set is. bit (rf_to_send s') (nat i)) \<and> (\<forall>k. bit (rf_to_send s) k \<longrightarrow> bit (rf_to_send s') k) \<and> hat_ok s' \<and>
      child_queue s' = child_queue s \<and> main_queue s' = main_queue s"
    using assms
  proof (induction "is" arbitrary: s)
    case (Cons x "is")
    obtain i slot where x: "x = (i, slot)" by (cases x)
    have i: "0 \<le> i" "i < 15" "sl_size slot \<le> 16" "sendable is" using Cons.prems(2) x by (auto simp: sendable_def)
    let ?s = "s\<lparr>hat_tx_slots := (hat_tx_slots s)[nat i := slot], rf_to_send := rf_to_send s OR push_bit (nat i) 1\<rparr>"
    have "nat i < LENGTH(16)" using i(2) by simp
    then have b: "bit (rf_to_send ?s) (nat i)" by (simp add: bit_simps)
    have "hat_ok ?s" using Cons.prems(3) i(3)
      by (auto simp: hat_ok_def slots16_def dest!: set_update_subset_insert [THEN subsetD])
    moreover have "hat_tx_slot r i slot s = Go ?s" using i by (simp add: hat_tx_slot_def)
    then have "send_all hat_tx_slot r is ?s = Go s'" using Cons.prems(1) x by simp
    ultimately show ?case using Cons.IH [of ?s] i(4) b x by (auto simp: bit_simps)
  qed simp
  then show "\<forall>(i, slot) \<in> set is. bit (rf_to_send s') (nat i)" "hat_ok s'"
    "child_queue s' = child_queue s \<and> main_queue s' = main_queue s" by blast+
qed


section \<open>The IMU\<close>

text \<open>A device that reads its attitude where it is asked to, as the library says.\<close>

definition attitude_on_request :: "(hat_input \<Rightarrow> hat_output) \<Rightarrow> bool" where
  "attitude_on_request dev \<longleftrightarrow> (\<forall>input. (out_attitude (dev input) \<noteq> None) = in_request_attitude input)"

text \<open>The order of \<open>TurretControl\<close>: in every period the transmission first, then the request for the IMU, then the device
  and the results.\<close>

fun imu_rounds :: "'r hat_library \<Rightarrow> hat_options \<Rightarrow> (hat_input \<Rightarrow> hat_output) \<Rightarrow> nat \<Rightarrow> (real \<times> (int \<times> 'r) list) list \<Rightarrow> 'r hat \<Rightarrow> 'r hat run" where
  "imu_rounds lib opts dev k [] s = Go s"
| "imu_rounds lib opts dev k ((now, rs) # rounds) s =
     rbind (child_run lib opts dev (ReadImu (AsyncTransmit k rs s))) (\<lambda>s.
     rbind (main_run lib now s) (\<lambda>s. if exited s then Go s else imu_rounds lib opts dev k rounds (s\<lparr>main_queue := []\<rparr>)))"

lemma cycle_input_request [simp]: "in_request_attitude (cycle_input lib opts rs att wants_rf d poll) = att"
  by (simp add: cycle_input_def)

lemma transmit_imu:
  assumes "hat_ok s" "hat_idle s" "requests_fit lib rs" "client_ops ops (AsyncTransmit k rs s) = Go s1"
    "child_run lib opts dev s1 = Go s2" "main_run lib now s2 = Go s3" "\<not> exited s3" "attitude_on_request dev"
    "waiting_imu s \<or> OpReadImu \<in> set ops"
  shows "\<exists>input. wire s3 = wire s @ [input] \<and> (in_request_attitude input \<longleftrightarrow> waiting_imu s) \<and> \<not> waiting_imu s3 \<and> child_queue s3 = [] \<and>
    attitude (data s3) = (if waiting_imu s then the (out_attitude (dev input)) else attitude (data s)) \<and>
    imu s3 = FinishAttitude now (attitude (data s3)) \<and> child_tx_slots (data s3) = child_tx_slots (data (copy_rf s)) \<and>
    hat_tx_slots s3 = hat_tx_slots s1"
proof -
  let ?i = "cycle_input lib opts rs (waiting_imu s) (waiting_rf s) (data (copy_rf s)) (power_poll s \<or> OpPowerPoll \<in> set ops)"
  have s2: "wire s2 = wire s @ [?i]" "child_queue s2 = []" "main_queue s2 = [FinishTransmit k]" "waiting_imu s2"
    "attitude (data s2) = (case out_attitude (dev ?i) of Some a \<Rightarrow> a | None \<Rightarrow> attitude (data s))"
    "child_tx_slots (data s2) = child_tx_slots (data (copy_rf s))" "hat_tx_slots s2 = hat_tx_slots s1"
    using transmit_child [OF assms(1-4), of opts dev] assms(5,9) unfolding Let_def by auto
  have a: "(out_attitude (dev ?i) \<noteq> None) = waiting_imu s" using assms(8) by (simp add: attitude_on_request_def)
  have "hat_FinishTransmit lib now k (s2\<lparr>main_queue := []\<rparr>) = Go s3" using assms(6) s2(3) by (simp add: main_run_def)
  then have "wire s3 = wire s2 \<and> \<not> waiting_imu s3 \<and> child_queue s3 = [] \<and> data s3 = data s2 \<and>
      imu s3 = FinishAttitude now (attitude (data s2)) \<and> hat_tx_slots s3 = hat_tx_slots s2"
    using assms(7) s2(2,4) unfolding hat_FinishTransmit_def with_replies_def Let_def
    by (auto simp: rbind_Go dest!: FinishRF_same split: option.splits if_splits)
  then show ?thesis using s2 a by (intro exI [of _ ?i]) (auto split: option.splits)
qed

text \<open>The periods go on as long as the power switch is on and nobody waits for a slot.\<close>

lemma imu_rounds_Go:
  assumes "hat_ok s" "hat_idle s" "\<not> waiting_rf s" "\<not> exited s" "\<forall>(now, rs) \<in> set rounds. requests_fit lib rs"
    "\<And>input. \<forall>f \<in> set (out_rx_can (dev input)). \<not> switch_off f"
  shows "\<exists>s'. imu_rounds lib opts dev k rounds s = Go s' \<and> \<not> exited s'"
  using assms(1-5)
proof (induction rounds arbitrary: s)
  case (Cons x rounds)
  obtain now rs where x: "x = (now, rs)" by (cases x)
  have c: "client_ops [OpReadImu] (AsyncTransmit k rs s) = Go (ReadImu (AsyncTransmit k rs s))" by simp
  have fit: "requests_fit lib rs" using Cons.prems(5) x by simp
  let ?input = "cycle_input lib opts rs (waiting_imu s) (waiting_rf s) (data (copy_rf s)) (power_poll s)"
  obtain s2 where s2: "child_run lib opts dev (ReadImu (AsyncTransmit k rs s)) = Go s2" "\<not> exited s2" "\<not> waiting_rf s2" "child_queue s2 = []"
    "main_queue s2 = [FinishTransmit k]" "rx_can (data s2) = take (in_rx_can ?input) (out_rx_can (dev ?input))"
    "child_tx_slots (data s2) = child_tx_slots (data (copy_rf s))" "hat_tx_slots s2 = hat_tx_slots s"
    using transmit_child [OF Cons.prems(1,2) fit c, of opts dev] Cons.prems(3,4) unfolding Let_def
    by (auto simp: ReadImu_def AsyncTransmit_def Let_def)
  have "\<forall>f \<in> set (rx_can (data s2)). \<not> switch_off f" using assms(6) s2(6) by (auto dest: in_set_takeD)
  then have off: "\<not> (\<exists>f \<in> set (rx_can (data s2)). switch_off f)" by blast
  have "\<exists>s3. main_run lib now s2 = Go s3 \<and> \<not> exited s3 \<and> \<not> waiting_rf s3 \<and> child_queue s3 = [] \<and> data s3 = data s2 \<and>
      hat_tx_slots s3 = hat_tx_slots s2"
    using s2(2-5) by (cases "waiting_imu s2")
      (simp_all add: main_run_def hat_FinishTransmit_def with_replies_def FinishCAN_replies off FinishRF_def)
  then obtain s3 where s3: "main_run lib now s2 = Go s3" "\<not> exited s3" "\<not> waiting_rf s3" "child_queue s3 = []" "data s3 = data s2"
    "hat_tx_slots s3 = hat_tx_slots s2" by blast
  have "hat_ok (s3\<lparr>main_queue := []\<rparr>)" "hat_idle (s3\<lparr>main_queue := []\<rparr>)" "\<not> waiting_rf (s3\<lparr>main_queue := []\<rparr>)" "\<not> exited (s3\<lparr>main_queue := []\<rparr>)"
    using Cons.prems(1) s3 copy_rf_child [OF Cons.prems(1)] by (simp_all add: hat_ok_def hat_idle_def s2(7,8))
  from Cons.IH [OF this] Cons.prems(5) show ?case using s2(1) s3(1,2) x by auto
qed simp

text \<open>C14 (safety). A reading of the IMU that is asked for before a transmission is the one of its cycle, whatever the clients ask
  in between. Asked for after the transmission, as the turret does in each of its periods, it completes as well but
  without the device: no cycle of any number of periods requests the attitude, and the client gets the values of before
  the first one, under the new time.\<close>

theorem hat_imu_order:
  assumes "hat_ok s" "hat_idle s" "attitude_on_request dev"
  shows "(\<forall>ops rs now s1 s2 s3. requests_fit lib rs \<and> client_ops ops (AsyncTransmit k rs (ReadImu s)) = Go s1 \<and> child_run lib opts dev s1 = Go s2 \<and>
      main_run lib now s2 = Go s3 \<and> \<not> exited s3 \<longrightarrow>
      (\<exists>a. out_attitude (dev (last (wire s3))) = Some a \<and> imu s3 = FinishAttitude now a)) \<and>
    (\<forall>rounds s'. \<not> waiting_imu s \<and> rounds \<noteq> [] \<and> (\<forall>(now, rs) \<in> set rounds. requests_fit lib rs) \<and> imu_rounds lib opts dev k rounds s = Go s' \<and>
      \<not> exited s' \<longrightarrow>
      imu s' = FinishAttitude (fst (last rounds)) (attitude (data s)) \<and>
      (\<exists>inputs. wire s' = wire s @ inputs \<and> length inputs = length rounds \<and> (\<forall>input \<in> set inputs. \<not> in_request_attitude input)))"
proof -
  have fresh: "\<exists>a. out_attitude (dev (last (wire s3))) = Some a \<and> imu s3 = FinishAttitude now a"
    if t: "requests_fit lib rs" "client_ops ops (AsyncTransmit k rs (ReadImu s)) = Go s1" "child_run lib opts dev s1 = Go s2"
      "main_run lib now s2 = Go s3" "\<not> exited s3" for ops rs now s1 s2 s3
  proof -
    have r: "hat_ok (ReadImu s)" "hat_idle (ReadImu s)" "waiting_imu (ReadImu s)"
      using assms(1,2) by (simp_all add: ReadImu_def hat_ok_def hat_idle_def)
    obtain input where i: "wire s3 = wire (ReadImu s) @ [input]" "in_request_attitude input" "imu s3 = FinishAttitude now (the (out_attitude (dev input)))"
      using transmit_imu [OF r(1,2) t assms(3) disjI1 [OF r(3)]] r(3) by auto
    have "out_attitude (dev input) \<noteq> None" using assms(3) i(2) by (simp add: attitude_on_request_def)
    then show ?thesis using i(1,3) by auto
  qed
  have stale: "imu s' = FinishAttitude (fst (last rounds)) (attitude (data s)) \<and>
      (\<exists>inputs. wire s' = wire s @ inputs \<and> length inputs = length rounds \<and> (\<forall>input \<in> set inputs. \<not> in_request_attitude input))"
    if "\<not> waiting_imu s" "rounds \<noteq> []" "\<forall>(now, rs) \<in> set rounds. requests_fit lib rs" "imu_rounds lib opts dev k rounds s = Go s'" "\<not> exited s'"
    for rounds s'
    using that assms(1,2)
  proof (induction rounds arbitrary: s)
    case (Cons x rounds)
    obtain now rs where x: "x = (now, rs)" by (cases x)
    obtain s2 s3 where s3: "child_run lib opts dev (ReadImu (AsyncTransmit k rs s)) = Go s2" "main_run lib now s2 = Go s3"
      "if exited s3 then s' = s3 else imu_rounds lib opts dev k rounds (s3\<lparr>main_queue := []\<rparr>) = Go s'"
      using Cons.prems(4) x by (auto simp: rbind_Go split: if_splits)
    have n: "\<not> exited s3" using s3(3) Cons.prems(5) by auto
    have fit: "requests_fit lib rs" using Cons.prems(3) x by simp
    have c: "client_ops [OpReadImu] (AsyncTransmit k rs s) = Go (ReadImu (AsyncTransmit k rs s))" by simp
    obtain input where i: "wire s3 = wire s @ [input]" "\<not> in_request_attitude input" "\<not> waiting_imu s3" "child_queue s3 = []"
      "attitude (data s3) = attitude (data s)" "imu s3 = FinishAttitude now (attitude (data s))"
      "child_tx_slots (data s3) = child_tx_slots (data (copy_rf s))" "hat_tx_slots s3 = hat_tx_slots s"
      using transmit_imu [OF Cons.prems(6,7) fit c s3(1,2) n assms(3)] Cons.prems(1)
      by (auto simp: ReadImu_def AsyncTransmit_def Let_def)
    have ok: "hat_ok (s3\<lparr>main_queue := []\<rparr>)" "hat_idle (s3\<lparr>main_queue := []\<rparr>)" "\<not> waiting_imu (s3\<lparr>main_queue := []\<rparr>)"
      using Cons.prems(6) i(3,4,8) copy_rf_child [OF Cons.prems(6)] by (simp_all add: hat_ok_def hat_idle_def i(7))
    show ?case
    proof (cases "rounds = []")
      case True
      then show ?thesis using s3(3) n i x by auto
    next
      case False
      have "imu_rounds lib opts dev k rounds (s3\<lparr>main_queue := []\<rparr>) = Go s'" using s3(3) n by simp
      from Cons.IH [OF ok(3) False _ this Cons.prems(5) ok(1,2)] Cons.prems(3)
      obtain inputs where "imu s' = FinishAttitude (fst (last rounds)) (attitude (data s))" "wire s' = wire s @ input # inputs"
        "length inputs = length rounds" "\<forall>input \<in> set inputs. \<not> in_request_attitude input"
        by (auto simp: i(1,5))
      then show ?thesis using i(2) False by (intro conjI exI [of _ "input # inputs"]) auto
    qed
  qed simp
  show ?thesis using fresh stale by blast
qed

section \<open>Tunnels\<close>

text \<open>The stream of mjlib over the bytes of a frame.\<close>

definition stream_reads :: "'r hat_library \<Rightarrow> bool" where
  "stream_reads lib \<longleftrightarrow> (\<forall>n bytes. stream_read lib n bytes = (take n bytes, drop n bytes))"

definition overlay :: "nat \<times> u8 list \<Rightarrow> u8 list \<Rightarrow> u8 list" where
  "overlay p bytes = take (min (fst p) (length bytes)) (snd p) @ drop (min (fst p) (length bytes)) bytes"

lemma fill_buffers_stream:
  assumes "stream_reads lib" "n \<le> length bytes" "fill_buffers lib n bytes bufs = (bufs', m)"
  shows "concat bufs' = overlay (n, bytes) (concat bufs) \<and> m = min n (buffer_size bufs) \<and> map length bufs' = map length bufs"
  using assms(2,3)
proof (induction bufs arbitrary: n bytes bufs' m)
  case (Cons b bs)
  show ?case
  proof (cases "n = 0")
    case False
    let ?k = "min (length b) n"
    obtain bs' m' where r: "fill_buffers lib (n - ?k) (drop ?k bytes) bs = (bs', m')" by fastforce
    have e: "bufs' = (take ?k bytes @ drop ?k b) # bs'" "m = ?k + m'"
      using Cons.prems False assms(1) r by (auto simp: stream_reads_def Let_def)
    have "n - ?k \<le> length (drop ?k bytes)" using Cons.prems(1) by simp
    note h = Cons.IH [OF this r]
    show ?thesis
    proof (cases "length b \<le> n")
      case True
      then have "min n (length b + L) = length b + min (n - length b) L" for L by linarith
      with h True Cons.prems(1) show ?thesis by (simp add: e buffer_size_def overlay_def length_concat take_add)
    next
      case less: False
      then have "min n (length b + L) = n" for L by linarith
      with h less Cons.prems(1) show ?thesis by (simp add: e buffer_size_def overlay_def length_concat)
    qed
  qed (use Cons.prems in \<open>simp add: buffer_size_def overlay_def\<close>)
qed (simp add: buffer_size_def overlay_def)

definition payloads :: "'r hat_library \<Rightarrow> nat \<Rightarrow> nat \<Rightarrow> can_frame list \<Rightarrow> (nat \<times> u8 list) list" where
  "payloads lib i channel fs = List.map_filter (tunnel_payload lib i channel) fs"

lemma ParseTunnelPoll_payloads:
  assumes "stream_reads lib" "\<forall>(n, bytes) \<in> set (payloads lib i channel fs). n \<le> length bytes"
    "CHILD_ParseTunnelPoll lib i channel fs bufs = (bufs', m)"
  shows "concat bufs' = fold overlay (payloads lib i channel fs) (concat bufs) \<and> map length bufs' = map length bufs \<and>
    m = sum_list (map (\<lambda>p. min (fst p) (buffer_size bufs)) (payloads lib i channel fs))"
  using assms(2,3)
proof (induction fs arbitrary: bufs bufs' m)
  case (Cons f fs)
  show ?case
  proof (cases "tunnel_payload lib i channel f")
    case None
    then show ?thesis using Cons by (simp add: payloads_def List.map_filter_simps)
  next
    case (Some p)
    obtain n bytes where p: "p = (n, bytes)" by (cases p)
    obtain b1 m1 b2 m2 where f: "fill_buffers lib n bytes bufs = (b1, m1)" "CHILD_ParseTunnelPoll lib i channel fs b1 = (b2, m2)" by fastforce
    have e: "bufs' = b2" "m = m1 + m2" using Cons.prems(2) Some p f by (auto simp: Let_def)
    have w: "payloads lib i channel (f # fs) = (n, bytes) # payloads lib i channel fs"
      using Some p by (simp add: payloads_def List.map_filter_simps)
    have "n \<le> length bytes" using Cons.prems(1) w by simp
    from fill_buffers_stream [OF assms(1) this f(1)] Cons.IH [OF _ f(2)] Cons.prems(1) w
    show ?thesis by (simp add: e buffer_size_def)
  qed
qed (simp add: payloads_def List.map_filter_simps)

text \<open>A read from a tunnel: the result of the frames that the device gave is that each of them for this servo and
  channel puts its bytes over the start of the buffers, in their order, and the count is the sum of what fits of each;
  buffers keep their sizes. With one such frame these are the bytes and their number; with several the later ones
  overwrite the earlier ones, and the count is more than what is there.\<close>

theorem tunnel_read:
  assumes "stream_reads lib" "\<forall>(n, bytes) \<in> set (payloads lib i channel fs). n \<le> length bytes"
    "CHILD_ParseTunnelPoll lib i channel fs bufs = (bufs', m)"
  shows "concat bufs' = fold overlay (payloads lib i channel fs) (concat bufs) \<and> map length bufs' = map length bufs \<and>
    m = sum_list (map (\<lambda>p. min (fst p) (buffer_size bufs)) (payloads lib i channel fs)) \<and>
    (\<forall>n bytes. payloads lib i channel fs = [(n, bytes)] \<longrightarrow> m \<le> buffer_size bufs \<and> take m (concat bufs') = take m bytes)"
proof -
  note p = ParseTunnelPoll_payloads [OF assms]
  have "buffer_size bufs = length (concat bufs)" by (simp add: buffer_size_def length_concat)
  then show ?thesis using p assms(2) by (auto simp: overlay_def min_def)
qed

text \<open>A read from a tunnel that runs between a transmission and its results takes the frames of the transmission away.\<close>

lemma tunnel_poll_replaces:
  assumes "CHILD_TunnelPoll lib opts dev k i channel s = Go (m, s')"
  shows "\<exists>inputs. wire s' = wire s @ inputs \<and> inputs \<noteq> [] \<and> rx_can (data s') = take (in_rx_can (last inputs)) (out_rx_can (dev (last inputs)))"
  using assms unfolding CHILD_TunnelPoll_def Let_def
  by (fastforce simp: rbind_Go case_prod_unfold split: if_splits)

section \<open>Instances\<close>

definition unit_lib :: "unit hat_library" where
  "unit_lib = \<lparr>input_default = \<lparr>in_tx_can = [], in_rx_can = 0, in_tx_rf = [], in_rx_rf = 0, in_force_can_check = 0, in_request_attitude = False,
       in_wait_for_attitude = False, in_request_attitude_detail = False, in_request_rf = False, in_timeout_ns = 0, in_min_tx_wait_ns = 0,
       in_rx_extra_wait_ns = 0\<rparr>,
     can_room = 64, request_bytes = (\<lambda>_. [0x11, 0]), wants_reply = (\<lambda>_. True), parse_reply = (\<lambda>bytes. if bytes = [] then [] else [(kMode, None)]),
     varuint = (\<lambda>n. [of_nat n]), read_varuint = (\<lambda>bytes. case bytes of [] \<Rightarrow> None | b # bs \<Rightarrow> Some (unat b, bs)),
     stream_read = (\<lambda>n bytes. (take n bytes, drop n bytes)), kClientToServer = 0x40, kServerToClient = 0x41, kClientPollServer = 0x42\<rparr>"

definition plain_opts :: hat_options where
  "plain_opts = \<lparr>query_timeout_s = 0, min_wait_s = 0, shutdown_timeout_s = 15, attitude_detail = False, force_bus = -1\<rparr>"

definition still :: raw_attitude where
  "still = \<lparr>ra_attitude = quaternion 1 0 0 0, ra_rate_dps = vzero, ra_accel_mps2 = vzero, ra_bias_dps = vzero,
     ra_attitude_uncertainty = quaternion 1 0 0 0, ra_bias_uncertainty_dps = vzero\<rparr>"

text \<open>A device with one servo, which answers every frame with a byte, and the attitude above.\<close>

definition one_servo :: "hat_input \<Rightarrow> hat_output" where
  "one_servo input = \<lparr>out_rx_can = map (\<lambda>f. \<lparr>cf_id = push_bit 8 (cf_id f AND 0xff), cf_bus = cf_bus f, cf_expect_reply = False, cf_data = [1]\<rparr>) (in_tx_can input),
     out_rx_rf = [], out_attitude = (if in_request_attitude input then Some still else None)\<rparr>"

lemma start_ok: "hat_ok (hat_start raw)" "hat_idle (hat_start raw)" "\<not> waiting_imu (hat_start raw)"
  by (simp_all add: hat_ok_def hat_idle_def hat_start_def slots16_def slot_default_def)

lemma unit_lib_fits: "requests_fit unit_lib rs"
  by (auto simp: requests_fit_def unit_lib_def)


definition some_slot :: rf_slot where
  "some_slot = \<lparr>sl_timestamp = None, sl_priority = 3, sl_size = 2, sl_data = [5, 6] @ replicate 14 0\<rparr>"


lemma hat_imu_order_witness:
  "\<exists>s'. imu_rounds unit_lib plain_opts one_servo 7 [(1, [(1, ())]), (2, [(1, ())])] (hat_start still) = Go s' \<and>
    imu s' = FinishAttitude 2 still"
proof -
  let ?rounds = "[(1, [(1, ())]), (2, [(1, ())])] :: (real \<times> (int \<times> unit) list) list"
  let ?s = "hat_start still :: unit hat"
  have off: "\<forall>f \<in> set (out_rx_can (one_servo input)). \<not> switch_off f" for input by (auto simp: one_servo_def switch_off_def)
  have st: "\<not> waiting_rf ?s" "\<not> exited ?s" "\<not> waiting_imu ?s" by (simp_all add: hat_start_def)
  have fits: "\<forall>(now, rs) \<in> set ?rounds. requests_fit unit_lib rs" by (simp add: unit_lib_fits)
  obtain s' where s': "imu_rounds unit_lib plain_opts one_servo 7 ?rounds ?s = Go s'" "\<not> exited s'"
    using imu_rounds_Go [where dev = one_servo and opts = plain_opts and k = 7, OF start_ok(1,2) st(1,2) fits off] by blast
  have "attitude_on_request one_servo" by (auto simp: attitude_on_request_def one_servo_def)
  note order = hat_imu_order [where lib = unit_lib and opts = plain_opts and k = 7, OF start_ok(1,2) this, THEN conjunct2, rule_format, of still ?rounds s']
  have "imu s' = FinishAttitude 2 (attitude (data ?s))" using order st(3) fits s' by simp
  then show ?thesis using s'(1) by (auto simp: hat_start_def)
qed

definition tunnel_bytes :: "u8 list \<Rightarrow> can_frame" where
  "tunnel_bytes bytes = \<lparr>cf_id = 0x200, cf_bus = 1, cf_expect_reply = False, cf_data = [0x41, 1, of_nat (length bytes)] @ bytes\<rparr>"

text \<open>Two frames with two bytes each: the last two are read, and the count is four.\<close>

lemma tunnel_read_witness:
  "CHILD_ParseTunnelPoll unit_lib 2 1 [tunnel_bytes [1, 2], tunnel_bytes [3, 4]] [[0, 0, 0], [0]] = ([[3, 4, 0], [0]], 4) \<and>
    fold overlay [(2, [1, 2]), (2, [3, 4])] [0, 0, 0, 0] = [3, 4, 0, 0]"
proof -
  let ?fs = "[tunnel_bytes [1, 2], tunnel_bytes [3, 4]]"
  have p: "payloads unit_lib 2 1 ?fs = [(2, [1, 2]), (2, [3, 4])]" by code_simp
  have c: "CHILD_ParseTunnelPoll unit_lib 2 1 ?fs [[0, 0, 0], [0]] = ([[3, 4, 0], [0]], 4)" by code_simp
  have "stream_reads unit_lib" by (simp add: stream_reads_def unit_lib_def)
  from tunnel_read [OF this _ c] p show ?thesis using c by simp
qed

end
