(* ===== verification/Telepresence.thy ===== *)
theory Telepresence
  imports TurretControl
begin

text \<open>
  The telepresence control, \<^verbatim>\<open>mech/telepresence_control.cc\<close> and \<^verbatim>\<open>telepresence_control.h\<close>, with the times of a cycle of
  \<^verbatim>\<open>mech/control_timing.h\<close>: two servos hold each other's angle, so that each side feels the torque of the other.

  The PID controller is that of mjlib (\<open>turret_library\<close>). A transmission uses the requests and the replies of the state
  while it runs; \<open>te_transmits\<close> counts those that have started and not ended. A failed assertion is \<open>Abort\<close>.
\<close>

section \<open>Times of a cycle\<close>

text \<open>Times are seconds; a time that was never set is \<open>None\<close>, and so are differences with it.\<close>

record timing =
  last_cycle_start :: "real option"
  cycle_start :: "real option"
  query_done :: "real option"
  status_done :: "real option"
  control_done :: "real option"
  command_done :: "real option"

record timing_status =
  query_s :: "real option"
  status_s :: "real option"
  control_s :: "real option"
  command_s :: "real option"
  cycle_s :: "real option"
  delta_s :: "real option"

definition seconds :: "real option \<Rightarrow> real option \<Rightarrow> real option" where
  "seconds a b = (case (a, b) of (Some x, Some y) \<Rightarrow> Some (x - y) | _ \<Rightarrow> None)"

definition ControlTiming :: "real option \<Rightarrow> real \<Rightarrow> timing" where
  "ControlTiming previous now = \<lparr>last_cycle_start = previous, cycle_start = Some now, query_done = None, status_done = None,
     control_done = None, command_done = None\<rparr>"

definition finish_query :: "real \<Rightarrow> timing \<Rightarrow> timing" where "finish_query now t = t\<lparr>query_done := Some now\<rparr>"
definition finish_status :: "real \<Rightarrow> timing \<Rightarrow> timing" where "finish_status now t = t\<lparr>status_done := Some now\<rparr>"
definition finish_control :: "real \<Rightarrow> timing \<Rightarrow> timing" where "finish_control now t = t\<lparr>control_done := Some now\<rparr>"
definition finish_command :: "real \<Rightarrow> timing \<Rightarrow> timing" where "finish_command now t = t\<lparr>command_done := Some now\<rparr>"

definition timing_report :: "timing \<Rightarrow> timing_status" where
  "timing_report t =
     \<lparr>query_s = seconds (query_done t) (cycle_start t), status_s = seconds (status_done t) (query_done t),
      control_s = seconds (control_done t) (status_done t), command_s = seconds (command_done t) (control_done t),
      cycle_s = seconds (command_done t) (cycle_start t), delta_s = seconds (cycle_start t) (last_cycle_start t)\<rparr>"

section \<open>Data\<close>

datatype tele_mode = kTeleStop | kTeleActive | kTeleFault

record 'c tele_parameters =
  te_period_s :: real
  te_max_torque_Nm :: real
  te_command_timeout_s :: real
  te_pid :: 'c
  te_id1 :: int
  te_id2 :: int
  te_id1_scale :: real

record tele_command =
  tm_priority :: int
  tm_mode :: tele_mode

record tele_drive =
  td_torque_Nm :: double
  td_velocity_dps :: double

record tele_control =
  tl_power :: bool
  tl_servo1 :: tele_drive
  tl_servo2 :: tele_drive

definition tele_off :: tele_control where
  "tele_off = \<lparr>tl_power = False, tl_servo1 = \<lparr>td_torque_Nm = Fin 0, td_velocity_dps = Fin 0\<rparr>,
     tl_servo2 = \<lparr>td_torque_Nm = Fin 0, td_velocity_dps = Fin 0\<rparr>\<rparr>"

text \<open>A request: its writes, and its reads by their first register, their number and the code of their type.\<close>

record tele_request =
  tr_id :: int
  tr_writes :: "reg_write list"
  tr_reads :: "(Register \<times> nat \<times> nat) list"

record 's tele =
  te_mode :: tele_mode
  te_fault :: "(int \<times> int) list"
  te_timestamp :: "real option"
  te_timing_status :: "timing_status option"
  servo1 :: gimbal
  servo2 :: gimbal
  te_pid_state :: 's
  te_command :: tele_command
  te_command_timestamp :: "real option"
  te_outstanding :: bool
  te_client_command :: "tele_request list"
  te_client_reply :: "reply list"
  te_transmits :: nat
  te_timing :: timing

definition tele_start :: "('c, 's) turret_library \<Rightarrow> real \<Rightarrow> 's tele" where
  "tele_start lib now =
     \<lparr>te_mode = kTeleStop, te_fault = [], te_timestamp = None, te_timing_status = None, servo1 = gimbal_default, servo2 = gimbal_default,
      te_pid_state = pid_start lib, te_command = \<lparr>tm_priority = 0, tm_mode = kTeleStop\<rparr>, te_command_timestamp = None,
      te_outstanding = False, te_client_command = [], te_client_reply = [], te_transmits = 0, te_timing = ControlTiming None now\<rparr>"

section \<open>Commands\<close>

definition tele_Command :: "'c tele_parameters \<Rightarrow> real \<Rightarrow> tele_command \<Rightarrow> 's tele \<Rightarrow> 's tele" where
  "tele_Command p now c s =
     (let higher_priority = (tm_priority c \<ge> tm_priority (te_command s));
          stale = (case te_command_timestamp s of None \<Rightarrow> False | Some t \<Rightarrow> now - t > te_command_timeout_s p)
      in if \<not> higher_priority \<and> \<not> stale then s
         else s\<lparr>te_command := c, te_command_timestamp := Some now\<rparr>)"

section \<open>Requests\<close>

definition tele_AddServoCommand :: "int \<Rightarrow> bool \<Rightarrow> double \<Rightarrow> double \<Rightarrow> 's tele \<Rightarrow> 's tele" where
  "tele_AddServoCommand i powered torque vel s =
     s\<lparr>te_client_command := te_client_command s @
         [\<lparr>tr_id = i,
           tr_writes = WriteSingle kMode (Int8 (servo_mode_code (if powered then ServoPosition else ServoStopped))) #
             (if powered
              then [WriteSingle kCommandFeedforwardTorque (WriteTorque torque kInt16),
                    WriteMultiple kCommandKpScale [WritePwm (Fin 0) kInt8, WritePwm (Fin 0) kInt8]]
              else []),
           tr_reads = [(kPosition, 3, 2)]\<rparr>]\<rparr>"

definition tele_Control :: "'c tele_parameters \<Rightarrow> real \<Rightarrow> tele_control \<Rightarrow> 's tele \<Rightarrow> 's tele" where
  "tele_Control p now control s =
     (let s = s\<lparr>te_timing := finish_control now (finish_status now (finish_query now (te_timing s))), te_client_command := []\<rparr>;
          s = tele_AddServoCommand (te_id1 p) (tl_power control) (td_torque_Nm (tl_servo1 control)) (td_velocity_dps (tl_servo1 control)) s;
          s = tele_AddServoCommand (te_id2 p) (tl_power control) (td_torque_Nm (tl_servo2 control)) (td_velocity_dps (tl_servo2 control)) s
      in s\<lparr>te_client_reply := [], te_transmits := te_transmits s + 1\<rparr>)"

section \<open>The modes\<close>

definition tele_DoControl_Stop :: "'c tele_parameters \<Rightarrow> real \<Rightarrow> 's tele \<Rightarrow> 's tele" where
  "tele_DoControl_Stop p now s = tele_Control p now tele_off s"

text \<open>The gains of the two sides, for the configured relation of them.\<close>

definition tele_scales :: "'c tele_parameters \<Rightarrow> real \<times> real" where
  "tele_scales p = (if te_id1_scale p > 1 then (1, 1 / te_id1_scale p) else (te_id1_scale p, 1))"

definition tele_DoControl_Active :: "('c, 's) turret_library \<Rightarrow> 'c tele_parameters \<Rightarrow> real \<Rightarrow> 's tele \<Rightarrow> 's tele" where
  "tele_DoControl_Active lib p now s =
     (let (torque_Nm, pid) = pid_apply lib (te_pid p) (te_pid_state s) (gs_angle_deg (servo1 s)) (gs_angle_deg (servo2 s))
            (gs_velocity_dps (servo1 s)) (gs_velocity_dps (servo2 s)) (1 / te_period_s p);
          (id1_scale, id2_scale) = tele_scales p
      in tele_Control p now
           \<lparr>tl_power = True, tl_servo1 = \<lparr>td_torque_Nm = dscale id1_scale torque_Nm, td_velocity_dps = Fin 0\<rparr>,
            tl_servo2 = \<lparr>td_torque_Nm = dscale id2_scale (dneg torque_Nm), td_velocity_dps = Fin 0\<rparr>\<rparr>
           (s\<lparr>te_pid_state := pid\<rparr>))"

definition tele_Fault :: "'c tele_parameters \<Rightarrow> real \<Rightarrow> (int \<times> int) list \<Rightarrow> 's tele \<Rightarrow> 's tele" where
  "tele_Fault p now message s = tele_DoControl_Stop p now (s\<lparr>te_mode := kTeleFault, te_fault := message\<rparr>)"

definition tele_MaybeChangeMode :: "'s tele \<Rightarrow> 's tele run" where
  "tele_MaybeChangeMode s =
     (let old_mode = te_mode s
      in rbind
           (case tm_mode (te_command s) of
              kTeleStop \<Rightarrow> Go (s\<lparr>te_mode := kTeleStop\<rparr>)
            | kTeleActive \<Rightarrow> if te_mode s = kTeleFault then Go s else Go (s\<lparr>te_mode := kTeleActive\<rparr>)
            | kTeleFault \<Rightarrow> Abort)
           (\<lambda>s. Go (if old_mode \<noteq> te_mode s \<and> old_mode = kTeleFault then s\<lparr>te_fault := []\<rparr> else s)))"

definition tele_RunControl :: "('c, 's) turret_library \<Rightarrow> 'c tele_parameters \<Rightarrow> real \<Rightarrow> 's tele \<Rightarrow> 's tele run" where
  "tele_RunControl lib p now s =
     rbind (if tm_mode (te_command s) \<noteq> te_mode s then tele_MaybeChangeMode s else Go s) (\<lambda>s.
       Go (case te_mode s of
             kTeleStop \<Rightarrow> tele_DoControl_Stop p now s
           | kTeleActive \<Rightarrow> tele_DoControl_Active lib p now s
           | kTeleFault \<Rightarrow> tele_DoControl_Stop p now s))"

section \<open>Status\<close>

definition tele_UpdateServo :: "reply \<Rightarrow> gimbal \<Rightarrow> gimbal run" where
  "tele_UpdateServo r servo =
     (let servo = servo\<lparr>gs_id := rp_id r\<rparr>; sign = 1
      in case rp_value r of
           None \<Rightarrow> Go servo
         | Some v \<Rightarrow>
             (case rp_reg r of
                kMode \<Rightarrow> rbind (read_int v) (\<lambda>i. Go (servo\<lparr>gs_mode := i\<rparr>))
              | kPosition \<Rightarrow> Go (servo\<lparr>gs_angle_deg := dscale sign (ReadPosition v)\<rparr>)
              | kVelocity \<Rightarrow> Go (servo\<lparr>gs_velocity_dps := dscale sign (ReadPosition v)\<rparr>)
              | kTorque \<Rightarrow> Go (servo\<lparr>gs_torque_Nm := dscale sign (ReadTorque v)\<rparr>)
              | kVoltage \<Rightarrow> Go (servo\<lparr>gs_voltage := ReadVoltage v\<rparr>)
              | kTemperature \<Rightarrow> Go (servo\<lparr>gs_temperature_C := ReadTemperature v\<rparr>)
              | kFaultReg \<Rightarrow> rbind (read_int v) (\<lambda>i. Go (servo\<lparr>gs_fault := i\<rparr>))
              | _ \<Rightarrow> Go servo))"

fun tele_replies :: "'c tele_parameters \<Rightarrow> reply list \<Rightarrow> 's tele \<Rightarrow> 's tele run" where
  "tele_replies p [] s = Go s"
| "tele_replies p (r # rs) s =
     (if rp_id r = te_id1 p then rbind (tele_UpdateServo r (servo1 s)) (\<lambda>g. tele_replies p rs (s\<lparr>servo1 := g\<rparr>))
      else if rp_id r = te_id2 p then rbind (tele_UpdateServo r (servo2 s)) (\<lambda>g. tele_replies p rs (s\<lparr>servo2 := g\<rparr>))
      else tele_replies p rs s)"

definition tele_faults :: "'s tele \<Rightarrow> (int \<times> int) list" where
  "tele_faults s = [(gs_id g, gs_fault g). g \<leftarrow> [servo1 s, servo2 s], gs_fault g \<noteq> 0]"

definition tele_UpdateStatus :: "'c tele_parameters \<Rightarrow> real \<Rightarrow> 's tele \<Rightarrow> 's tele run" where
  "tele_UpdateStatus p now s =
     rbind (tele_replies p (te_client_reply s) s) (\<lambda>s.
       Go (if te_mode s \<noteq> kTeleFault \<and> tele_faults s \<noteq> [] then tele_Fault p now (tele_faults s) s else s))"

section \<open>The cycle\<close>

definition tele_HandleTimer :: "('c, 's) turret_library \<Rightarrow> 'c tele_parameters \<Rightarrow> real \<Rightarrow> 's tele \<Rightarrow> 's tele run" where
  "tele_HandleTimer lib p now s =
     (if te_outstanding s then Go s
      else tele_RunControl lib p now (s\<lparr>te_outstanding := True, te_timing := ControlTiming (cycle_start (te_timing s)) now\<rparr>))"

definition tele_HandleCommand :: "'c tele_parameters \<Rightarrow> real \<Rightarrow> 's tele \<Rightarrow> 's tele run" where
  "tele_HandleCommand p now s =
     rbind (tele_UpdateStatus p now (s\<lparr>te_timing := finish_command now (te_timing s)\<rparr>)) (\<lambda>s.
       Go (s\<lparr>te_timestamp := Some now, te_timing_status := Some (timing_report (te_timing s)), te_outstanding := False\<rparr>))"

text \<open>What the event loop runs: the timer, the end of a transmission with its replies, and commands.\<close>

datatype tele_event = TeleTimer | TeleReplies "reply list" | TeleOperator tele_command

definition tele_step :: "('c, 's) turret_library \<Rightarrow> 'c tele_parameters \<Rightarrow> real \<Rightarrow> tele_event \<Rightarrow> 's tele \<Rightarrow> 's tele run" where
  "tele_step lib p now e s =
     (case e of
        TeleTimer \<Rightarrow> tele_HandleTimer lib p now s
      | TeleReplies rs \<Rightarrow>
          if te_transmits s > 0
          then tele_HandleCommand p now (s\<lparr>te_client_reply := rs, te_transmits := te_transmits s - 1\<rparr>) else Go s
      | TeleOperator c \<Rightarrow> Go (tele_Command p now c s))"

section \<open>The registers that are read\<close>

text \<open>Registers of \<^verbatim>\<open>mech/moteus.h\<close> by their numbers.\<close>

fun register_code :: "Register \<Rightarrow> nat" where
  "register_code kMode = 0x000" | "register_code kPosition = 0x001" | "register_code kVelocity = 0x002"
| "register_code kTorque = 0x003" | "register_code kQCurrent = 0x004" | "register_code kDCurrent = 0x005"
| "register_code kRezeroState = 0x00c" | "register_code kVoltage = 0x00d" | "register_code kTemperature = 0x00e"
| "register_code kFaultReg = 0x00f" | "register_code kCommandPosition = 0x020" | "register_code kCommandKpScale = 0x023"
| "register_code kPositionKp = 0x030" | "register_code kPositionKi = 0x031" | "register_code kPositionKd = 0x032"
| "register_code kPositionFeedforward = 0x033" | "register_code kPositionCommand = 0x034"
| "register_code kRegisterMapVersion = 0x102" | "register_code kSerialNumber1 = 0x120"
| "register_code kSerialNumber2 = 0x121" | "register_code kSerialNumber3 = 0x122" | "register_code kRezero = 0x130"
| "register_code (OtherRegister n) = n"

definition asked :: "tele_request list \<Rightarrow> reply \<Rightarrow> bool" where
  "asked requests r \<longleftrightarrow> (\<exists>q \<in> set requests. tr_id q = rp_id r \<and>
     (\<exists>(first, n, type) \<in> set (tr_reads q). register_code first \<le> register_code (rp_reg r) \<and> register_code (rp_reg r) < register_code first + n))"

end
