(* ===== verification/TelepresenceProps.thy ===== *)
theory TelepresenceProps
  imports Telepresence
begin

text \<open>
  What the telepresence control guarantees: power in the active mode only, what a fault does, the torques of the two sides
  and their limit, and that the replies to its own requests never show a fault.
\<close>

section \<open>Requests\<close>

definition tele_off_request :: "int \<Rightarrow> tele_request" where
  "tele_off_request i = \<lparr>tr_id = i, tr_writes = [WriteSingle kMode (Int8 (servo_mode_code ServoStopped))], tr_reads = [(kPosition, 3, 2)]\<rparr>"

definition tele_on_request :: "int \<Rightarrow> double \<Rightarrow> tele_request" where
  "tele_on_request i torque = \<lparr>tr_id = i,
     tr_writes = [WriteSingle kMode (Int8 (servo_mode_code ServoPosition)), WriteSingle kCommandFeedforwardTorque (WriteTorque torque kInt16),
       WriteMultiple kCommandKpScale [WritePwm (Fin 0) kInt8, WritePwm (Fin 0) kInt8]], tr_reads = [(kPosition, 3, 2)]\<rparr>"

definition tele_requests :: "'c tele_parameters \<Rightarrow> tele_control \<Rightarrow> tele_request list" where
  "tele_requests p c =
     (if tl_power c then [tele_on_request (te_id1 p) (td_torque_Nm (tl_servo1 c)), tele_on_request (te_id2 p) (td_torque_Nm (tl_servo2 c))]
      else [tele_off_request (te_id1 p), tele_off_request (te_id2 p)])"

lemma tele_Control_eq:
  "tele_Control p now c s = s\<lparr>te_timing := finish_control now (finish_status now (finish_query now (te_timing s))),
     te_client_command := tele_requests p c, te_client_reply := [], te_transmits := te_transmits s + 1\<rparr>"
  by (simp add: tele_Control_def tele_AddServoCommand_def Let_def tele_requests_def tele_off_request_def tele_on_request_def)

definition tele_powered :: "tele_request list \<Rightarrow> bool" where
  "tele_powered rs \<longleftrightarrow> (\<exists>r \<in> set rs. WriteSingle kMode (Int8 (servo_mode_code ServoStopped)) \<notin> set (tr_writes r))"

text \<open>What the controls of a mode send, and that only the mode, the text of the fault, the PID controller and what is sent
  change.\<close>

definition tele_measured :: "'s tele \<Rightarrow> gimbal \<times> gimbal \<times> tele_command \<times> bool" where
  "tele_measured s = (servo1 s, servo2 s, te_command s, te_outstanding s)"

lemma tele_stop_result:
  "tele_DoControl_Stop p now s = s\<lparr>te_timing := finish_control now (finish_status now (finish_query now (te_timing s))),
     te_client_command := [tele_off_request (te_id1 p), tele_off_request (te_id2 p)], te_client_reply := [], te_transmits := te_transmits s + 1\<rparr>"
  by (simp add: tele_DoControl_Stop_def tele_Control_eq tele_requests_def tele_off_def)

lemma tele_active_result:
  assumes "pid_apply lib (te_pid p) (te_pid_state s) (gs_angle_deg (servo1 s)) (gs_angle_deg (servo2 s))
    (gs_velocity_dps (servo1 s)) (gs_velocity_dps (servo2 s)) (1 / te_period_s p) = (torque, pid)"
  shows "tele_DoControl_Active lib p now s =
    s\<lparr>te_pid_state := pid, te_timing := finish_control now (finish_status now (finish_query now (te_timing s))),
      te_client_command := [tele_on_request (te_id1 p) (dscale (fst (tele_scales p)) torque),
        tele_on_request (te_id2 p) (dscale (snd (tele_scales p)) (dneg torque))],
      te_client_reply := [], te_transmits := te_transmits s + 1\<rparr>"
  using assms by (simp add: tele_DoControl_Active_def tele_Control_eq tele_requests_def case_prod_unfold Let_def)

lemma tele_powered_requests [simp]:
  "tele_powered [tele_on_request i a, tele_on_request j b]" "\<not> tele_powered [tele_off_request i, tele_off_request j]" "\<not> tele_powered []"
  by (auto simp: tele_powered_def tele_on_request_def tele_off_request_def kCommandFeedforwardTorque_def)

lemma tele_active_fields:
  "te_mode (tele_DoControl_Active lib p now s) = te_mode s" "te_fault (tele_DoControl_Active lib p now s) = te_fault s"
  "te_transmits (tele_DoControl_Active lib p now s) = te_transmits s + 1" "servo1 (tele_DoControl_Active lib p now s) = servo1 s"
  "servo2 (tele_DoControl_Active lib p now s) = servo2 s" "te_command (tele_DoControl_Active lib p now s) = te_command s"
  "te_outstanding (tele_DoControl_Active lib p now s) = te_outstanding s"
  "tele_powered (te_client_command (tele_DoControl_Active lib p now s))"
  by (cases "pid_apply lib (te_pid p) (te_pid_state s) (gs_angle_deg (servo1 s)) (gs_angle_deg (servo2 s))
    (gs_velocity_dps (servo1 s)) (gs_velocity_dps (servo2 s)) (1 / te_period_s p)"; simp add: tele_active_result)+

definition tele_mode_after :: "tele_mode \<Rightarrow> tele_mode \<Rightarrow> tele_mode" where
  "tele_mode_after old wanted = (if wanted = kTeleStop then kTeleStop else if old = kTeleFault then kTeleFault else kTeleActive)"

lemma tele_RunControl_result:
  assumes "tele_RunControl lib p now s = Go s'"
  shows "te_mode s' = tele_mode_after (te_mode s) (tm_mode (te_command s)) \<and> te_transmits s' = te_transmits s + 1 \<and>
    tele_measured s' = tele_measured s \<and> (tele_powered (te_client_command s') \<longleftrightarrow> te_mode s' = kTeleActive) \<and>
    te_fault s' = (if te_mode s = kTeleFault \<and> tm_mode (te_command s) = kTeleStop then [] else te_fault s) \<and>
    (te_mode s' = kTeleActive \<longrightarrow> tm_mode (te_command s) = kTeleActive)"
  using assms
  by (cases "tm_mode (te_command s)"; cases "te_mode s")
    (auto simp: tele_RunControl_def tele_MaybeChangeMode_def tele_mode_after_def tele_stop_result tele_active_fields tele_measured_def rbind_Go)

text \<open>The replies change the measured values only.\<close>

lemma tele_replies_frame:
  "tele_replies p rs s = Go s' \<Longrightarrow> \<exists>g h. s' = s\<lparr>servo1 := g, servo2 := h\<rparr>"
proof (induction rs arbitrary: s)
  case Nil
  then show ?case by (intro exI [of _ "servo1 s"] exI [of _ "servo2 s"]) simp
next
  case (Cons r rs)
  then show ?case by (fastforce simp: rbind_Go split: if_splits)
qed

lemma tele_HandleCommand_result:
  assumes "tele_HandleCommand p now s = Go s'"
  shows "\<not> te_outstanding s' \<and> te_command s' = te_command s \<and>
    (let new = te_mode s \<noteq> kTeleFault \<and> tele_faults s' \<noteq> []
     in te_mode s' = (if new then kTeleFault else te_mode s) \<and> te_fault s' = (if new then tele_faults s' else te_fault s) \<and>
        te_transmits s' = te_transmits s + (if new then 1 else 0) \<and>
        te_client_command s' = (if new then [tele_off_request (te_id1 p), tele_off_request (te_id2 p)] else te_client_command s))"
proof -
  obtain u where u: "tele_replies p (te_client_reply s) (s\<lparr>te_timing := finish_command now (te_timing s)\<rparr>) = Go u"
    and s': "s' = (let t = if te_mode u \<noteq> kTeleFault \<and> tele_faults u \<noteq> [] then tele_Fault p now (tele_faults u) u else u
      in t\<lparr>te_timestamp := Some now, te_timing_status := Some (timing_report (te_timing t)), te_outstanding := False\<rparr>)"
    using assms by (auto simp: tele_HandleCommand_def tele_UpdateStatus_def rbind_Go Let_def)
  obtain g h where e: "u = s\<lparr>te_timing := finish_command now (te_timing s), servo1 := g, servo2 := h\<rparr>"
    using tele_replies_frame [OF u] by auto
  show ?thesis unfolding s' e
    by (simp add: Let_def tele_Fault_def tele_stop_result tele_faults_def)
qed

section \<open>Reachable states\<close>

text \<open>Replies are those that \<open>ok\<close> allows for the requests.\<close>

inductive tele_reach :: "('c, 's) turret_library \<Rightarrow> 'c tele_parameters \<Rightarrow> (tele_request list \<Rightarrow> reply \<Rightarrow> bool) \<Rightarrow> 's tele \<Rightarrow> bool"
  for lib p ok where
  start: "tele_reach lib p ok (tele_start lib now)"
| step: "tele_reach lib p ok s \<Longrightarrow> \<forall>rs. e = TeleReplies rs \<longrightarrow> list_all (ok (te_client_command s)) rs \<Longrightarrow>
    tele_step lib p now e s = Go s' \<Longrightarrow> tele_reach lib p ok s'"

definition tele_inv :: "'s tele \<Rightarrow> bool" where
  "tele_inv s \<longleftrightarrow> (tele_powered (te_client_command s) \<longleftrightarrow> te_mode s = kTeleActive) \<and>
     (te_fault s \<noteq> [] \<longleftrightarrow> te_mode s = kTeleFault) \<and> (te_outstanding s \<longrightarrow> te_transmits s > 0)"

lemma tele_inv_frame [simp]:
  "tele_inv (s\<lparr>te_client_reply := rs\<rparr>) = tele_inv s" "tele_inv (tele_Command p now c s) = tele_inv s"
  by (simp_all add: tele_inv_def tele_Command_def Let_def)

lemma tele_step_inv:
  assumes "tele_step lib p now e s = Go s'" "tele_inv s"
  shows "tele_inv s'"
proof (cases e)
  case TeleTimer
  show ?thesis
  proof (cases "te_outstanding s")
    case False
    let ?s = "s\<lparr>te_outstanding := True, te_timing := ControlTiming (cycle_start (te_timing s)) now\<rparr>"
    have r: "tele_RunControl lib p now ?s = Go s'" using assms(1) TeleTimer False by (simp add: tele_step_def tele_HandleTimer_def)
    then have "te_mode ?s = kTeleFault \<or> tm_mode (te_command ?s) \<noteq> kTeleFault"
      by (auto simp: tele_RunControl_def tele_MaybeChangeMode_def rbind_Go split: if_splits)
    with tele_RunControl_result [OF r] assms(2) show ?thesis
      by (cases "te_mode s"; cases "tm_mode (te_command s)") (auto simp: tele_inv_def tele_mode_after_def)
  qed (use assms TeleTimer in \<open>simp add: tele_step_def tele_HandleTimer_def\<close>)
next
  case (TeleReplies rs)
  show ?thesis
  proof (cases "te_transmits s > 0")
    case True
    have "tele_HandleCommand p now (s\<lparr>te_client_reply := rs, te_transmits := te_transmits s - 1\<rparr>) = Go s'"
      using assms(1) TeleReplies True by (simp add: tele_step_def)
    from tele_HandleCommand_result [OF this] assms(2) show ?thesis by (auto simp: tele_inv_def Let_def)
  qed (use assms TeleReplies in \<open>simp add: tele_step_def\<close>)
qed (use assms in \<open>auto simp: tele_step_def\<close>)

lemma tele_reach_tele_inv: "tele_reach lib p ok s \<Longrightarrow> tele_inv s"
proof (induction rule: tele_reach.induct)
  case (start now)
  then show ?case by (simp add: tele_inv_def tele_start_def)
qed (rule tele_step_inv)


section \<open>Faults are not read\<close>

lemma asked_requests:
  assumes "asked rs r" "\<forall>q \<in> set rs. tr_reads q = [(kPosition, 3, 2)]"
  shows "rp_reg r \<in> {kPosition, kVelocity, kTorque} \<or> (\<exists>n. rp_reg r = OtherRegister n)"
  using assms by (cases "rp_reg r") (auto simp: asked_def)

definition tele_unread :: "gimbal \<Rightarrow> bool" where
  "tele_unread g \<longleftrightarrow> gs_fault g = 0 \<and> gs_mode g = 0 \<and> gs_voltage g = Fin 0 \<and> gs_temperature_C g = Fin 0"

lemma tele_UpdateServo_unread:
  assumes "tele_UpdateServo r g = Go g'" "rp_reg r \<in> {kPosition, kVelocity, kTorque} \<or> (\<exists>n. rp_reg r = OtherRegister n)" "tele_unread g"
  shows "tele_unread g'"
  using assms by (auto simp: tele_UpdateServo_def tele_unread_def Let_def split: option.splits)

lemma tele_replies_unread:
  assumes "tele_replies p rs s = Go s'" "list_all (\<lambda>r. rp_reg r \<in> {kPosition, kVelocity, kTorque} \<or> (\<exists>n. rp_reg r = OtherRegister n)) rs"
    "tele_unread (servo1 s)" "tele_unread (servo2 s)"
  shows "tele_unread (servo1 s') \<and> tele_unread (servo2 s')"
  using assms
proof (induction rs arbitrary: s)
  case (Cons r rs)
  have r: "rp_reg r \<in> {kPosition, kVelocity, kTorque} \<or> (\<exists>n. rp_reg r = OtherRegister n)" using Cons.prems(2) by simp
  have rest: "list_all (\<lambda>r. rp_reg r \<in> {kPosition, kVelocity, kTorque} \<or> (\<exists>n. rp_reg r = OtherRegister n)) rs" using Cons.prems(2) by simp
  consider g where "tele_UpdateServo r (servo1 s) = Go g" "tele_replies p rs (s\<lparr>servo1 := g\<rparr>) = Go s'"
    | g where "tele_UpdateServo r (servo2 s) = Go g" "tele_replies p rs (s\<lparr>servo2 := g\<rparr>) = Go s'" | "tele_replies p rs s = Go s'"
    using Cons.prems(1) by (auto simp: rbind_Go split: if_splits)
  then show ?case
  proof cases
    case (1 g)
    then show ?thesis using Cons.IH [OF 1(2) rest] tele_UpdateServo_unread [OF 1(1) r Cons.prems(3)] Cons.prems(4) by simp
  next
    case (2 g)
    then show ?thesis using Cons.IH [OF 2(2) rest] tele_UpdateServo_unread [OF 2(1) r Cons.prems(4)] Cons.prems(3) by simp
  next
    case 3
    then show ?thesis using Cons.IH [OF 3 rest] Cons.prems(3,4) by simp
  qed
qed simp

definition tele_blind :: "'s tele \<Rightarrow> bool" where
  "tele_blind s \<longleftrightarrow> (\<forall>q \<in> set (te_client_command s). tr_reads q = [(kPosition, 3, 2)]) \<and> tele_unread (servo1 s) \<and> tele_unread (servo2 s) \<and>
     te_mode s \<noteq> kTeleFault"

lemma tele_requests_reads: "\<forall>q \<in> set (tele_requests p c). tr_reads q = [(kPosition, 3, 2)]"
  by (simp add: tele_requests_def tele_on_request_def tele_off_request_def)

lemma tele_RunControl_reads:
  assumes "tele_RunControl lib p now s = Go s'"
  shows "\<forall>q \<in> set (te_client_command s'). tr_reads q = [(kPosition, 3, 2)]"
proof -
  obtain t where "s' = tele_DoControl_Stop p now t \<or> s' = tele_DoControl_Active lib p now t"
  proof -
    from assms obtain t where "s' = (case te_mode t of kTeleStop \<Rightarrow> tele_DoControl_Stop p now t
        | kTeleActive \<Rightarrow> tele_DoControl_Active lib p now t | kTeleFault \<Rightarrow> tele_DoControl_Stop p now t)"
      unfolding tele_RunControl_def rbind_Go by auto
    then show ?thesis using that by (cases "te_mode t") auto
  qed
  then show ?thesis
    by (cases "pid_apply lib (te_pid p) (te_pid_state t) (gs_angle_deg (servo1 t)) (gs_angle_deg (servo2 t))
      (gs_velocity_dps (servo1 t)) (gs_velocity_dps (servo2 t)) (1 / te_period_s p)")
      (auto simp: tele_stop_result tele_active_result tele_on_request_def tele_off_request_def)
qed

lemma tele_Command_blind: "tele_blind (tele_Command p now c s) = tele_blind s"
  by (simp add: tele_Command_def tele_blind_def Let_def)

lemma tele_blind_step:
  assumes "tele_step lib p now e s = Go s'" "tele_blind s" "\<forall>rs. e = TeleReplies rs \<longrightarrow> list_all (asked (te_client_command s)) rs"
  shows "tele_blind s'"
proof (cases e)
  case TeleTimer
  show ?thesis
  proof (cases "te_outstanding s")
    case False
    let ?s = "s\<lparr>te_outstanding := True, te_timing := ControlTiming (cycle_start (te_timing s)) now\<rparr>"
    have r: "tele_RunControl lib p now ?s = Go s'" using assms(1) TeleTimer False by (simp add: tele_step_def tele_HandleTimer_def)
    note c = tele_RunControl_result [OF r]
    have "servo1 s' = servo1 s" "servo2 s' = servo2 s" using c by (simp_all add: tele_measured_def)
    moreover have "te_mode s \<noteq> kTeleFault" using assms(2) by (simp add: tele_blind_def)
    then have "te_mode s' \<noteq> kTeleFault" using c [THEN conjunct1] by (simp add: tele_mode_after_def)
    ultimately show ?thesis using tele_RunControl_reads [OF r] assms(2) unfolding tele_blind_def by simp
  qed (use assms TeleTimer in \<open>simp add: tele_step_def tele_HandleTimer_def\<close>)
next
  case (TeleReplies rs)
  show ?thesis
  proof (cases "te_transmits s > 0")
    case True
    let ?s = "s\<lparr>te_client_reply := rs, te_transmits := te_transmits s - 1\<rparr>"
    have h: "tele_HandleCommand p now ?s = Go s'" using assms(1) TeleReplies True by (simp add: tele_step_def)
    have "list_all (\<lambda>r. rp_reg r \<in> {kPosition, kVelocity, kTorque} \<or> (\<exists>n. rp_reg r = OtherRegister n)) rs"
      using assms(2,3) TeleReplies asked_requests by (fastforce simp: tele_blind_def list_all_iff)
    moreover obtain u where "tele_replies p rs (?s\<lparr>te_timing := finish_command now (te_timing s)\<rparr>) = Go u" using h
      by (auto simp: tele_HandleCommand_def tele_UpdateStatus_def rbind_Go)
    ultimately have u: "tele_unread (servo1 u) \<and> tele_unread (servo2 u)" "tele_replies p rs (?s\<lparr>te_timing := finish_command now (te_timing s)\<rparr>) = Go u"
      using tele_replies_unread assms(2) unfolding tele_blind_def by fastforce+
    then have "tele_faults u = []" by (simp add: tele_unread_def tele_faults_def)
    then have "s' = u\<lparr>te_timestamp := Some now, te_timing_status := Some (timing_report (te_timing u)), te_outstanding := False\<rparr>"
      using h u(2) by (simp add: tele_HandleCommand_def tele_UpdateStatus_def)
    moreover from tele_replies_frame [OF u(2)] have "te_client_command u = te_client_command s" "te_mode u = te_mode s" by auto
    ultimately show ?thesis using assms(2) u(1) by (simp add: tele_blind_def)
  qed (use assms TeleReplies in \<open>simp add: tele_step_def\<close>)
next
  case (TeleOperator c)
  then show ?thesis using assms(1,2) by (auto simp: tele_step_def tele_Command_blind)
qed

text \<open>C25 (safety). While the servos reply to what they are asked, and to nothing else, the control never learns of a fault: in every
  reachable state the faults, the modes, the voltages and the temperatures of both servos are those of the start, and the fault
  mode is never entered.\<close>

theorem tele_faults_unread:
  assumes "tele_reach lib p asked s"
  shows "te_mode s \<noteq> kTeleFault \<and> te_fault s = [] \<and> tele_faults s = [] \<and> tele_unread (servo1 s) \<and> tele_unread (servo2 s)"
proof -
  have "tele_blind s"
    using assms
  proof (induction rule: tele_reach.induct)
    case (start now)
    then show ?case by (simp add: tele_blind_def tele_start_def tele_unread_def gimbal_default_def)
  next
    case (step s e now s')
    then show ?case using tele_blind_step by blast
  qed
  moreover have "te_fault s \<noteq> [] \<longleftrightarrow> te_mode s = kTeleFault" using tele_reach_tele_inv [OF assms] by (simp add: tele_inv_def)
  ultimately show ?thesis by (auto simp: tele_blind_def tele_unread_def tele_faults_def)
qed

section \<open>Torques\<close>

lemma tele_scales_bounds:
  assumes "0 < te_id1_scale p" "tele_scales p = (a, b)"
  shows "0 < a" "a \<le> 1" "0 < b" "b \<le> 1" "a = te_id1_scale p * b"
  using assms by (auto simp: tele_scales_def split: if_splits)

text \<open>A torque in a register of sixteen bits, as it is read.\<close>

definition torque_read :: "double \<Rightarrow> double" where
  "torque_read t = ReadTorque (WriteTorque t kInt16)"

lemma torque_read_step: "register_step 16 t (1 / 100) (torque_read t)"
  using scale_int_saturate [where 'w = 16, of "1 / 100" t]
  by (simp add: torque_read_def ReadTorque_def WriteTorque_def ScaleMapping_def ReadScale_def)


section \<open>Instances\<close>

definition bench_tele :: "(unit, unit) turret_library" where
  "bench_tele = \<lparr>dlimit = (\<lambda>x lo hi. x), pid_apply = (\<lambda>_ s measured desired _ _ _. (dminus desired measured, s)), pid_start = ()\<rparr>"

definition bench_sides :: "unit tele_parameters" where
  "bench_sides = \<lparr>te_period_s = 1 / 100, te_max_torque_Nm = 1, te_command_timeout_s = 1, te_pid = (), te_id1 = 1, te_id2 = 2, te_id1_scale = 2\<rparr>"

fun tele_run :: "(real \<times> tele_event) list \<Rightarrow> unit tele \<Rightarrow> unit tele run" where
  "tele_run [] s = Go s"
| "tele_run ((now, e) # es) s = rbind (tele_step bench_tele bench_sides now e s) (tele_run es)"

lemma tele_run_reach:
  assumes "tele_run es s = Go s'" "tele_reach bench_tele bench_sides (\<lambda>_ _. True) s"
  shows "tele_reach bench_tele bench_sides (\<lambda>_ _. True) s'"
  using assms
proof (induction es arbitrary: s)
  case (Cons x es)
  then obtain t where "tele_step bench_tele bench_sides (fst x) (snd x) s = Go t" "tele_run es t = Go s'"
    by (cases x) (auto simp: rbind_Go)
  then show ?case using Cons.IH tele_reach.step [OF Cons.prems(2), of "snd x" "fst x" t] by (simp add: list_all_iff)
qed simp

lemmas tele_run_simps = tele_step_def tele_HandleTimer_def tele_RunControl_def tele_MaybeChangeMode_def tele_stop_result tele_HandleCommand_def
  tele_UpdateStatus_def tele_UpdateServo_def read_int_def ReadInt_def tele_start_def gimbal_default_def tele_faults_def tele_Fault_def bench_sides_def
  tele_Command_def Let_def


lemma tele_faults_unread_witness:
  "\<exists>s. tele_reach bench_tele bench_sides asked s \<and> te_transmits s = 1 \<and> te_mode s \<noteq> kTeleFault"
proof -
  obtain s where s: "tele_step bench_tele bench_sides 1 TeleTimer (tele_start bench_tele 0) = Go s" "te_transmits s = 1"
    by (simp add: tele_run_simps)
  have "tele_reach bench_tele bench_sides asked s" using tele_reach.step [OF tele_reach.start _ s(1)] by blast
  with tele_faults_unread [OF this] s(2) show ?thesis by blast
qed


text \<open>A command of the fault mode stops the process, in any other mode.\<close>

lemma tele_fault_command_aborts:
  "tele_RunControl lib p now s = Abort \<longleftrightarrow> tm_mode (te_command s) = kTeleFault \<and> te_mode s \<noteq> kTeleFault"
  by (cases "tm_mode (te_command s)"; cases "te_mode s") (simp_all add: tele_RunControl_def tele_MaybeChangeMode_def)

end
