(* ===== verification/Commands.thy ===== *)
theory Commands
  imports TelepresenceProps QuadrupedLimits TurretProps
begin

text \<open>
  Which command a controller obeys. The walking robot, the turret and the telepresence control take commands from several
  clients, by priority and time; each has code of its own for it. The locale \<open>arbiter\<close> is the contract that the three share.
\<close>

section \<open>The contract\<close>

text \<open>Commands of the priority \<open>P\<close> that follow each other within the timeout, the first one at \<open>t\<close>, with commands of lower priorities
  among them; and the last one of that priority.\<close>

fun held :: "('c \<Rightarrow> int) \<Rightarrow> real \<Rightarrow> int \<Rightarrow> real \<Rightarrow> (real \<times> 'c) list \<Rightarrow> bool" where
  "held prio timeout P t [] = True"
| "held prio timeout P t ((now, c) # cs) =
     (if prio c = P then held prio timeout P now cs else prio c < P \<and> now - t \<le> timeout \<and> held prio timeout P t cs)"

definition holder :: "('c \<Rightarrow> int) \<Rightarrow> real \<times> 'c \<Rightarrow> (real \<times> 'c) list \<Rightarrow> real \<times> 'c" where
  "holder prio first cs = last (first # filter (\<lambda>(now, c). prio c = prio (snd first)) cs)"

definition takes :: "(real \<Rightarrow> 'c \<Rightarrow> 's \<Rightarrow> 's) \<Rightarrow> (real \<times> 'c) list \<Rightarrow> 's \<Rightarrow> 's" where
  "takes take_command cs s = foldl (\<lambda>s (now, c). take_command now c s) s cs"

text \<open>A command comes into force if its priority is not below that of the one in force, or if that one is older than the timeout.\<close>

locale arbiter =
  fixes prio :: "'c \<Rightarrow> int" and in_force :: "'s \<Rightarrow> 'c" and since :: "'s \<Rightarrow> real option" and timeout :: real
    and take_command :: "real \<Rightarrow> 'c \<Rightarrow> 's \<Rightarrow> 's"
  assumes taken: "prio (in_force s) \<le> prio c \<or> (\<exists>t. since s = Some t \<and> now - t > timeout) \<Longrightarrow>
      in_force (take_command now c s) = c \<and> since (take_command now c s) = Some now"
    and refused: "prio c < prio (in_force s) \<Longrightarrow> (\<And>t. since s = Some t \<Longrightarrow> now - t \<le> timeout) \<Longrightarrow> take_command now c s = s"
begin

lemma takes_held:
  assumes "in_force s = c" "since s = Some t" "prio c = P" "held prio timeout P t cs"
  shows "in_force (takes take_command cs s) = snd (holder prio (t, c) cs) \<and> since (takes take_command cs s) = Some (fst (holder prio (t, c) cs))"
  using assms
proof (induction cs arbitrary: s t c)
  case Nil
  then show ?case by (simp add: takes_def holder_def)
next
  case (Cons x cs)
  obtain now d where x: "x = (now, d)" by (cases x)
  show ?case
  proof (cases "prio d = P")
    case True
    have d: "in_force (take_command now d s) = d \<and> since (take_command now d s) = Some now" using Cons.prems True by (intro taken) simp
    have "held prio timeout P now cs" using Cons.prems(4) x True by simp
    from Cons.IH [OF conjunct1 [OF d] conjunct2 [OF d] True this] x True Cons.prems(3) show ?thesis by (simp add: takes_def holder_def)
  next
    case False
    then have "take_command now d s = s" using Cons.prems x by (intro refused) auto
    moreover have "held prio timeout P t cs" using Cons.prems(4) x False by simp
    ultimately show ?thesis using Cons.IH [OF Cons.prems(1-3)] x False Cons.prems(3) by (simp add: takes_def holder_def)
  qed
qed

lemma holds:
  assumes "prio (in_force s) \<le> prio c" "held prio timeout (prio c) t cs"
  shows "in_force (takes take_command ((t, c) # cs) s) = snd (holder prio (t, c) cs) \<and>
    (fst (holder prio (t, c) cs) + timeout < now \<longrightarrow> in_force (takes take_command ((t, c) # cs @ [(now, d)]) s) = d)"
proof -
  let ?s = "take_command t c s"
  have f: "in_force ?s = c" "since ?s = Some t" using taken [of s c t] assms(1) by blast+
  note h = takes_held [OF f refl assms(2)]
  have "in_force (take_command now d (takes take_command cs ?s)) = d" if "fst (holder prio (t, c) cs) + timeout < now"
    by (rule taken [THEN conjunct1]) (use h that in auto)
  then show ?thesis using h by (simp add: takes_def)
qed

end

section \<open>The three controllers\<close>

interpretation walker: arbiter priority current_command command_timestamp "command_timeout_s cfg" "Command cfg" for cfg
  by (unfold_locales; case_tac "command_timestamp s"; fastforce simp: Command_def command_stale_def)

interpretation gunner: arbiter tc_priority tu_command tu_command_timestamp "tp_command_timeout_s p" "turret_Command p" for p
  by (unfold_locales; case_tac "tu_command_timestamp s"; fastforce simp: turret_Command_def Let_def)

interpretation presence: arbiter tm_priority te_command te_command_timestamp "te_command_timeout_s p" "tele_Command p" for p
  by (unfold_locales; case_tac "te_command_timestamp s"; fastforce simp: tele_Command_def Let_def)

text \<open>C17 (safety). Whoever sends commands of a priority not below the one in force, at least once in each timeout, is obeyed: whatever
  others send at lower priorities in between, the command in force is the last one of that priority, in the walking robot, in
  the turret and in the telepresence control. Once the sender has been silent for longer than the timeout, the next command comes into
  force, whatever its priority.\<close>

theorem commands_held:
  fixes s :: "('g, 'p) quad" and u :: "'s tele" and w :: "'t turret"
  shows "(priority (current_command s) \<le> priority c \<and> held priority (command_timeout_s cfg) (priority c) t cs \<longrightarrow>
      current_command (takes (Command cfg) ((t, c) # cs) s) = snd (holder priority (t, c) cs) \<and>
      (fst (holder priority (t, c) cs) + command_timeout_s cfg < now \<longrightarrow> current_command (takes (Command cfg) ((t, c) # cs @ [(now, d)]) s) = d)) \<and>
    (tc_priority (tu_command w) \<le> tc_priority a \<and> held tc_priority (tp_command_timeout_s p) (tc_priority a) t as \<longrightarrow>
      tu_command (takes (turret_Command p) ((t, a) # as) w) = snd (holder tc_priority (t, a) as) \<and>
      (fst (holder tc_priority (t, a) as) + tp_command_timeout_s p < now \<longrightarrow>
         tu_command (takes (turret_Command p) ((t, a) # as @ [(now, b)]) w) = b)) \<and>
    (tm_priority (te_command u) \<le> tm_priority m \<and> held tm_priority (te_command_timeout_s q) (tm_priority m) t ms \<longrightarrow>
      te_command (takes (tele_Command q) ((t, m) # ms) u) = snd (holder tm_priority (t, m) ms) \<and>
      (fst (holder tm_priority (t, m) ms) + te_command_timeout_s q < now \<longrightarrow>
         te_command (takes (tele_Command q) ((t, m) # ms @ [(now, n)]) u) = n))"
  using walker.holds [of s c cfg t cs now d] gunner.holds [of w a p t as now b] presence.holds [of u m q t ms now n] by blast

definition tele_cmd :: "int \<Rightarrow> tele_mode \<Rightarrow> tele_command" where
  "tele_cmd n m = \<lparr>tm_priority = n, tm_mode = m\<rparr>"

lemma commands_held_witness:
  "te_command (takes (tele_Command bench_sides) [(0, tele_cmd 5 kTeleActive), (1 / 2, tele_cmd 1 kTeleStop), (4 / 5, tele_cmd 5 kTeleActive),
      (3 / 2, tele_cmd 1 kTeleStop)] (tele_start bench_tele 0)) = tele_cmd 5 kTeleActive \<and>
   te_command (takes (tele_Command bench_sides) [(0, tele_cmd 5 kTeleActive), (1 / 2, tele_cmd 1 kTeleStop), (4 / 5, tele_cmd 5 kTeleActive),
      (3 / 2, tele_cmd 1 kTeleStop), (2, tele_cmd 1 kTeleStop)] (tele_start bench_tele 0)) = tele_cmd 1 kTeleStop \<and>
   current_command (takes (Command bench_config) [(0, (command_default ())\<lparr>priority := 2\<rparr>), (1 / 2, command_default ())] (quad_start flat () ())) =
     (command_default ())\<lparr>priority := 2\<rparr> \<and>
   tu_command (takes (turret_Command bench_parameters) [(0, turret_command_default)] (turret_start bench_turret)) = turret_command_default"
proof -
  note h = commands_held [of "quad_start flat () ()" "(command_default ())\<lparr>priority := 2\<rparr>" bench_config 0 "[(1 / 2, command_default ())]" 0 "command_default ()"
      "turret_start bench_turret" turret_command_default bench_parameters "[]" turret_command_default
      "tele_start bench_tele 0" "tele_cmd 5 kTeleActive" bench_sides
      "[(1 / 2, tele_cmd 1 kTeleStop), (4 / 5, tele_cmd 5 kTeleActive), (3 / 2, tele_cmd 1 kTeleStop)]" "tele_cmd 1 kTeleStop"]
  note h2 = commands_held [where u = "tele_start bench_tele 0" and m = "tele_cmd 5 kTeleActive" and q = bench_sides and t = 0 and now = 2 and n = "tele_cmd 1 kTeleStop"
      and ms = "[(1 / 2, tele_cmd 1 kTeleStop), (4 / 5, tele_cmd 5 kTeleActive), (3 / 2, tele_cmd 1 kTeleStop)]", THEN conjunct2, THEN conjunct2]
  show ?thesis
    using h h2 by (simp add: holder_def tele_cmd_def tele_start_def bench_sides_def quad_start_def command_default_def bench_config_def
      turret_start_def turret_command_default_def)
qed

end
