(* ===== verification/Frames.thy ===== *)
theory Frames
  imports Pi3hat MammalIk QuadrupedModes
begin

text \<open>
  The frames of the walking robot: the body (B), the robot (R), the center of mass (M), the attitude (A), the terrain (T)
  and each leg (G), and what the controller computes with them. The sources are \<open>UpdateStatus\<close>, \<open>UpdateTerrain\<close>,
  \<open>ControlLegs_R\<close> and \<open>BackflipUpdateLegs\<close> of \<^verbatim>\<open>mech/quadruped_control.cc\<close>, \<^verbatim>\<open>mech/quadruped_context.h\<close>,
  \<^verbatim>\<open>mech/vertical_line_frame.h\<close>, \<^verbatim>\<open>mech/valid_leg_region.h\<close>, and the products with poses of \<^verbatim>\<open>mech/quadruped_command.h\<close>,
  \<^verbatim>\<open>quadruped_state.h\<close> and \<^verbatim>\<open>ik.h\<close>.

  In \<open>Quadruped\<close> these are the fields of the parameter \<open>geometry\<close>; \<open>frame_geometry\<close> at the end is the one of the code. Poses and
  rotations are those of Sophus, whose operations are the fields of \<open>sophus\<close>. The dynamics of DART, the fit of a plane of
  Eigen and the polygons of Boost are the fields of \<open>frame_library\<close>.
\<close>

section \<open>Poses\<close>

record ('q, 'p) sophus =
  so_of :: "Quaternion \<Rightarrow> 'q"
  so_act :: "'q \<Rightarrow> vec \<Rightarrow> vec"
  so_mul :: "'q \<Rightarrow> 'q \<Rightarrow> 'q"
  so_slerp :: "'q \<Rightarrow> real \<Rightarrow> 'q \<Rightarrow> 'q"
  so_quaternion :: "'q \<Rightarrow> Quaternion"
  se3 :: "'q \<Rightarrow> vec \<Rightarrow> 'p"
  so3 :: "'p \<Rightarrow> 'q"
  translation :: "'p \<Rightarrow> vec"
  se_act :: "'p \<Rightarrow> vec \<Rightarrow> vec"
  se_mul :: "'p \<Rightarrow> 'p \<Rightarrow> 'p"
  se_inv :: "'p \<Rightarrow> 'p"

definition so_id :: "('q, 'p) sophus \<Rightarrow> 'q" where
  "so_id S = so_of S (quaternion 1 0 0 0)"

definition se_id :: "('q, 'p) sophus \<Rightarrow> 'p" where
  "se_id S = se3 S (so_id S) vzero"

text \<open>\<open>KinematicRelation\<close>.\<close>

record 'p relation =
  kr_pose :: 'p
  kr_v :: vec
  kr_w :: vec

definition relation_default :: "('q, 'p) sophus \<Rightarrow> 'p relation" where
  "relation_default S = \<lparr>kr_pose = se_id S, kr_v = vzero, kr_w = vzero\<rparr>"

text \<open>Products of a pose with a leg command, a leg state and an effector.\<close>

definition leg_times :: "('q, 'p) sophus \<Rightarrow> 'p \<Rightarrow> leg_cmd \<Rightarrow> leg_cmd" where
  "leg_times S pose_AB leg_B =
     leg_B\<lparr>position := se_act S pose_AB (position leg_B), velocity := so_act S (so3 S pose_AB) (velocity leg_B),
       acceleration := so_act S (so3 S pose_AB) (acceleration leg_B), force_N := so_act S (so3 S pose_AB) (force_N leg_B),
       kp_N_m := so_act S (so3 S pose_AB) (kp_N_m leg_B), kd_N_m_s := so_act S (so3 S pose_AB) (kd_N_m_s leg_B)\<rparr>"

definition state_times :: "('q, 'p) sophus \<Rightarrow> 'p \<Rightarrow> leg_state \<Rightarrow> leg_state" where
  "state_times S pose_AB rhs_B =
     rhs_B\<lparr>ls_position := se_act S pose_AB (ls_position rhs_B), ls_velocity := so_act S (so3 S pose_AB) (ls_velocity rhs_B),
       ls_force_N := so_act S (so3 S pose_AB) (ls_force_N rhs_B)\<rparr>"

definition effector_times :: "('q, 'p) sophus \<Rightarrow> 'p \<Rightarrow> effector \<Rightarrow> effector" where
  "effector_times S lhs_AB rhs_B =
     rhs_B\<lparr>ef_pose := se_act S lhs_AB (ef_pose rhs_B), ef_velocity := so_act S (so3 S lhs_AB) (ef_velocity rhs_B),
       ef_force_N := so_act S (so3 S lhs_AB) (ef_force_N rhs_B)\<rparr>"

definition FindVerticalLinePlaneIntersect :: "('q, 'p) sophus \<Rightarrow> 'p \<Rightarrow> vec \<Rightarrow> vec \<Rightarrow> vec \<Rightarrow> vec" where
  "FindVerticalLinePlaneIntersect S frame_AB onplane_B normal_B query_A =
     (let onplane_A = se_act S frame_AB onplane_B;
          normal_A = vsub (se_act S frame_AB (vadd onplane_B normal_B)) onplane_A
      in if vz normal_A = 0 then query_A
         else query_A\<lparr>vz := vz onplane_A -
           ((vx query_A - vx onplane_A) * vx normal_A + (vy query_A - vy onplane_A) * vy normal_A) / vz normal_A\<rparr>)"

section \<open>Configuration and state\<close>

text \<open>A leg of the configuration, and the parameters of the frames.\<close>

record 'p mount =
  mt_leg :: int
  pose_BG :: 'p
  mt_ik :: ik_config

record 'p frame_config =
  fc_legs :: "'p mount list"
  center_of_mass_B :: vec
  rb_filter_constant_Hz :: real
  terrain_filter_s :: real
  fc_idle_x :: real
  fc_idle_y :: real
  su_pose_R :: vec
  su_shoulder_clearance_deg :: real

text \<open>\<open>QuadrupedState::Robot\<close>, without the desired motion and the voltage.\<close>

record 'p robot_frames =
  frame_RB :: "'p relation"
  frame_MB :: "'p relation"
  frame_AB :: "'p relation"
  terrain_rad :: "real \<times> real"
  tf_TA :: 'p

definition robot_frames_default :: "('q, 'p) sophus \<Rightarrow> 'p robot_frames" where
  "robot_frames_default S = \<lparr>frame_RB = relation_default S, frame_MB = relation_default S, frame_AB = relation_default S,
     terrain_rad = (0, 0), tf_TA = se_id S\<rparr>"

record frame_library =
  foot_position :: "ik_config \<Rightarrow> angles \<Rightarrow> vec"
  foot_velocity :: "ik_config \<Rightarrow> angles \<Rightarrow> angles \<Rightarrow> vec"
  foot_acceleration :: "ik_config \<Rightarrow> angles \<Rightarrow> angles \<Rightarrow> angles \<Rightarrow> vec"
  FitPlane :: "vec list \<Rightarrow> real \<times> real \<times> real"
  fl_ik :: ik_library
  merge_regions :: "(real \<times> real) list \<Rightarrow> (real \<times> real) list \<Rightarrow> (real \<times> real) list"
  in_polygon :: "(real \<times> real) list \<Rightarrow> real \<times> real \<Rightarrow> bool"

definition read_joint :: "state_joint \<Rightarrow> ik_joint" where
  "read_joint j = \<lparr>ij_id = sj_id j, ij_angle_deg = sj_angle_deg j, ij_torque_Nm = sj_torque_Nm j, ij_velocity_dps = sj_velocity_dps j\<rparr>"

section \<open>The legs and the attitude\<close>

text \<open>A leg as the joints have it: the acceleration of the foot by the torques, as a force. A joint that is missing is a failed
  assertion. The foot, its velocity and its acceleration for angles, velocities and torques are those of DART.\<close>

definition get_id :: "ik_joint list \<Rightarrow> int \<Rightarrow> ik_joint run" where
  "get_id angles i = (case find (\<lambda>j. ij_id j = i) angles of Some j \<Rightarrow> Go j | None \<Rightarrow> Abort)"

definition Forward_G :: "frame_library \<Rightarrow> ik_config \<Rightarrow> ik_joint list \<Rightarrow> effector run" where
  "Forward_G L cfg js =
     rbind (get_id js (il_id (mi_shoulder cfg))) (\<lambda>shoulder.
     rbind (get_id js (il_id (mi_femur cfg))) (\<lambda>femur.
     rbind (get_id js (il_id (mi_tibia cfg))) (\<lambda>tibia.
       let each = (\<lambda>f. (f shoulder, f femur, f tibia));
           q = each (\<lambda>j. dmap Radians (ij_angle_deg j));
           dq = each (\<lambda>j. dmap Radians (ij_velocity_dps j));
           no_torque_accel = foot_acceleration L cfg q dq (Fin 0, Fin 0, Fin 0);
           torque_accel = foot_acceleration L cfg q dq (each ij_torque_Nm)
       in Go \<lparr>ef_pose = foot_position L cfg q, ef_velocity = foot_velocity L cfg q dq,
              ef_force_N = vscale (10 ^ 6) (vsub torque_accel no_torque_accel)\<rparr>)))"

definition leg_state_default :: "int \<Rightarrow> leg_state" where
  "leg_state_default i = \<lparr>ls_leg = i, ls_position = vzero, ls_velocity = vzero, ls_force_N = vzero, ls_stance = 0\<rparr>"

definition sensed_leg :: "int \<Rightarrow> effector \<Rightarrow> leg_cmd list \<Rightarrow> leg_state \<Rightarrow> leg_state" where
  "sensed_leg i effector_B old_B st =
     (let st = st\<lparr>ls_leg := i, ls_position := ef_pose effector_B, ls_velocity := ef_velocity effector_B, ls_force_N := ef_force_N effector_B\<rparr>
      in case find (\<lambda>l. leg_id l = i) old_B of Some l \<Rightarrow> st\<lparr>ls_stance := stance l\<rparr> | None \<Rightarrow> st)"

fun sense_legs :: "('q, 'p) sophus \<Rightarrow> frame_library \<Rightarrow> ik_joint list \<Rightarrow> leg_cmd list \<Rightarrow> 'p mount list \<Rightarrow> leg_state list \<Rightarrow> leg_state list run" where
  "sense_legs S L js old_B [] legs = Go legs"
| "sense_legs S L js old_B (m # ms) legs =
     (let (k, legs) = find_or_make ls_leg leg_state_default (mt_leg m) legs
      in rbind (Forward_G L (mt_ik m) js) (\<lambda>effector_G.
           sense_legs S L js old_B ms
             (legs[k := sensed_leg (mt_leg m) (effector_times S (pose_BG m) effector_G) old_B (legs ! k)])))"

definition UpdateAttitude :: "('q, 'p) sophus \<Rightarrow> 'p frame_config \<Rightarrow> AttitudeData \<Rightarrow> 'p robot_frames \<Rightarrow> 'p robot_frames" where
  "UpdateAttitude S fc imu_data fr =
     (let CB = se3 S (so_id S) (vscale (- 1) (center_of_mass_B fc));
          AC = se3 S (so_of S (ad_attitude imu_data)) vzero;
          axis_MC = (euler_rad (ad_attitude imu_data))\<lparr>yaw := 0\<rparr>;
          MC = se3 S (so_of S (FromEuler (roll axis_MC) (pitch axis_MC) (yaw axis_MC))) vzero
      in fr\<lparr>frame_AB := (frame_AB fr)\<lparr>kr_pose := se_mul S AC CB, kr_w := vscale (pi / 180) (ad_rate_dps imu_data)\<rparr>,
            frame_MB := (frame_MB fr)\<lparr>kr_pose := se_mul S MC CB\<rparr>\<rparr>)"

section \<open>The terrain\<close>

text \<open>The feet in the attitude frame; one that is not pressed to the ground is put on the terrain that was estimated before.\<close>

definition stance_point :: "('q, 'p) sophus \<Rightarrow> config \<Rightarrow> 'p robot_frames \<Rightarrow> leg_state \<Rightarrow> vec" where
  "stance_point S cfg fr leg_B =
     (let p_A = se_act S (kr_pose (frame_AB fr)) (ls_position leg_B)
      in if ls_stance leg_B \<noteq> 1 \<or> vz (ls_force_N leg_B) < 1 / 8 * kGravity * mass_kg cfg
         then se_act S (se_inv S (tf_TA fr)) ((se_act S (tf_TA fr) p_A)\<lparr>vz := 0\<rparr>)
         else p_A)"

definition terrain_rotation :: "real \<times> real \<Rightarrow> Quaternion" where
  "terrain_rotation t = qmul (FromAxisAngle (fst t) 0 1 0) (FromAxisAngle (- snd t) 1 0 0)"

definition UpdateTerrain ::
  "('q, 'p) sophus \<Rightarrow> frame_library \<Rightarrow> config \<Rightarrow> 'p frame_config \<Rightarrow> leg_state list \<Rightarrow> leg_cmd list \<Rightarrow> 'p robot_frames \<Rightarrow> 'p robot_frames" where
  "UpdateTerrain S L cfg fc legs old_R fr =
     (let stance_A = map (stance_point S cfg fr) legs
      in if stance_A = [] \<or> old_R = [] then fr
         else
           (let (a, b, c) = FitPlane L stance_A;
                alpha = (1 / 2) powr (period_s cfg / terrain_filter_s fc);
                t = (alpha * fst (terrain_rad fr) + (1 - alpha) * arctan a, alpha * snd (terrain_rad fr) + (1 - alpha) * arctan b)
            in fr\<lparr>terrain_rad := t,
                  tf_TA := se3 S (so_of S (terrain_rotation t)) ((translation S (tf_TA fr))\<lparr>vz := - c\<rparr>)\<rparr>))"

text \<open>The part of \<open>UpdateStatus\<close> that follows the joints: legs, attitude, terrain.\<close>

definition sense_robot ::
  "('q, 'p) sophus \<Rightarrow> frame_library \<Rightarrow> config \<Rightarrow> 'p frame_config \<Rightarrow> AttitudeData \<Rightarrow> state_joint list \<Rightarrow> leg_cmd list \<Rightarrow> leg_cmd list \<Rightarrow>
    'p robot_frames \<Rightarrow> (leg_state list \<times> 'p robot_frames) run" where
  "sense_robot S L cfg fc imu_data js old_B old_R fr =
     rbind (sense_legs S L (map read_joint js) old_B (fc_legs fc) []) (\<lambda>legs.
       let legs = sort_key ls_leg legs
       in Go (legs, UpdateTerrain S L cfg fc legs old_R (UpdateAttitude S fc imu_data fr)))"

section \<open>The robot frame\<close>

definition LevelDesired :: "('q, 'p) sophus \<Rightarrow> 'p robot_frames \<Rightarrow> 'p" where
  "LevelDesired S fr =
     (let tf_AM = se_mul S (kr_pose (frame_AB fr)) (se_inv S (kr_pose (frame_MB fr)));
          tf_MB = kr_pose (frame_MB fr);
          tf_MT = se_mul S (se_inv S tf_AM) (se_inv S (tf_TA fr));
          tf_BM = se_inv S tf_MB;
          com_on_ground_M = FindVerticalLinePlaneIntersect S tf_MT vzero \<lparr>vx = 0, vy = 0, vz = 1\<rparr> vzero;
          p = se_act S tf_BM com_on_ground_M
      in se3 S (so_id S) \<lparr>vx = - vx p, vy = - vy p, vz = 0\<rparr>)"

definition rest_pose :: "('q, 'p) sophus \<Rightarrow> 'p \<Rightarrow> 'p \<Rightarrow> 'p" where
  "rest_pose S offset desired =
     se3 S (so_mul S (so3 S offset) (so3 S desired)) (vadd (translation S desired) (translation S offset))"

text \<open>The smoothing of \<open>ControlLegs_R\<close>; the desired velocities are zero.\<close>

definition filter_frame :: "('q, 'p) sophus \<Rightarrow> config \<Rightarrow> 'p frame_config \<Rightarrow> 'p \<Rightarrow> 'p robot_frames \<Rightarrow> 'p robot_frames" where
  "filter_frame S cfg fc desired fr =
     (let p = kr_pose (frame_RB fr); k = rb_filter_constant_Hz fc * period_s cfg;
          delta = vsub (translation S desired) (translation S p)
      in fr\<lparr>frame_RB := \<lparr>kr_pose = se3 S (so_slerp S (so3 S p) k (so3 S desired)) (vadd (translation S p) (vscale k delta)),
              kr_v = vzero, kr_w = vzero\<rparr>\<rparr>)"

text \<open>\<open>BackflipUpdateLegs\<close>. The pose of the body turns about the axis of the rear femurs; the forces are shared by the stances.\<close>

definition rear_x :: "('q, 'p) sophus \<Rightarrow> 'p frame_config \<Rightarrow> real" where
  "rear_x S fc =
     (let xs = map (\<lambda>m. vx (se_act S (pose_BG m) (il_pose (mi_shoulder (mt_ik m))))) (fc_legs fc) in fold min (tl xs) (hd xs))"

definition flip_leg :: "('q, 'p) sophus \<Rightarrow> config \<Rightarrow> backflip \<Rightarrow> real \<Rightarrow> real \<Rightarrow> 'p \<Rightarrow> 'p \<Rightarrow> 'p \<Rightarrow> leg_cmd \<Rightarrow> leg_cmd" where
  "flip_leg S cfg bs a stance_legs pose_RB delta_RB pose_rlegp_B leg =
     (let alpha_RB = \<lparr>vx = 0, vy = Radians (- pitch_accel_dps2 bs), vz = 0\<rparr>;
          omega_RB = \<lparr>vx = 0, vy = Radians (- pitch_rate_dps bs), vz = 0\<rparr>;
          p = se_act S pose_rlegp_B (se_act S (se_inv S pose_RB) (position leg))
      in if stance leg = 0
         then leg\<lparr>position := se_act S delta_RB (position leg), velocity := vscale (- 1) (vcross omega_RB p), force_N := vzero\<rparr>
         else leg\<lparr>position := (position leg)\<lparr>vz := vz (position leg) + bf_velocity bs * period_s cfg\<rparr>,
                  velocity := vadd (vcross omega_RB p) \<lparr>vx = 0, vy = 0, vz = bf_velocity bs\<rparr>,
                  force_N := vadd (vscale (stance leg * mass_kg cfg / stance_legs) (vcross alpha_RB p))
                    (vscale (stance leg / stance_legs) \<lparr>vx = 0, vy = 0, vz = mass_kg cfg * (kGravity + a)\<rparr>)\<rparr>)"

definition BackflipUpdateLegs ::
  "('q, 'p) sophus \<Rightarrow> config \<Rightarrow> 'p frame_config \<Rightarrow> backflip \<Rightarrow> real \<Rightarrow> leg_cmd list \<Rightarrow> 'p robot_frames \<Rightarrow> leg_cmd list \<times> 'p robot_frames" where
  "BackflipUpdateLegs S cfg fc bs a legs fr =
     (let pose_rleg_B = se3 S (so_id S) \<lparr>vx = - rear_x S fc, vy = 0, vz = 0\<rparr>;
          pose_rlegp_rleg = se3 S (so_of S (FromAxisAngle (Radians (pitch_deg bs)) 0 1 0)) vzero;
          pose_rlegp_B = se_mul S pose_rlegp_rleg pose_rleg_B;
          old_pose_RB = kr_pose (frame_RB fr);
          pose_RB = se_mul S (se_inv S pose_rleg_B) pose_rlegp_B;
          delta_RB = se_mul S (se_inv S old_pose_RB) pose_RB;
          stance_legs = sum_list (map stance legs)
      in (map (flip_leg S cfg bs a stance_legs pose_RB delta_RB pose_rlegp_B) legs,
          fr\<lparr>frame_RB := (frame_RB fr)\<lparr>kr_pose := pose_RB\<rparr>\<rparr>))"

section \<open>The legs of the context\<close>

text \<open>An angle of the answer; a foot in the axis of the femur, whose angle is not a number, has no place in \<open>context_leg\<close> and
  counts as a failed assertion.\<close>

definition get_resolved :: "ik_joint list \<Rightarrow> int \<Rightarrow> real run" where
  "get_resolved js i =
     (case find (\<lambda>j. ij_id j = i) js of Some j \<Rightarrow> (case ij_angle_deg j of Fin x \<Rightarrow> Go x | _ \<Rightarrow> Abort) | None \<Rightarrow> Abort)"

definition at_point :: "vec \<Rightarrow> effector" where
  "at_point p = \<lparr>ef_pose = p, ef_velocity = vzero, ef_force_N = vzero\<rparr>"

text \<open>The constructor of \<open>QuadrupedContext::Leg\<close>.\<close>

definition make_leg :: "('q, 'p) sophus \<Rightarrow> frame_library \<Rightarrow> 'p frame_config \<Rightarrow> real \<Rightarrow> 'p mount \<Rightarrow> context_leg run" where
  "make_leg S L fc height m =
     (let tf = translation S (pose_BG m);
          pose_RG = se_mul S (se_id S) (pose_BG m);
          r = su_pose_R fc;
          pose_R = \<lparr>vx = (if vx tf < 0 then - vx r else vx r), vy = (if vy tf < 0 then - vy r else vy r), vz = vz r\<rparr>;
          pose_G = se_act S (se_inv S pose_RG) pose_R
      in rbind (Inverse (fl_ik L) (mt_ik m) (at_point pose_G) None) (\<lambda>resolved.
           case resolved of
             None \<Rightarrow> Abort
           | Some js \<Rightarrow>
               rbind (get_resolved js (il_id (mi_shoulder (mt_ik m)))) (\<lambda>shoulder.
               rbind (get_resolved js (il_id (mi_femur (mt_ik m)))) (\<lambda>femur.
               rbind (get_resolved js (il_id (mi_tibia (mt_ik m)))) (\<lambda>tibia.
                 Go \<lparr>cl_leg = mt_leg m, shoulder_id = il_id (mi_shoulder (mt_ik m)), femur_id = il_id (mi_femur (mt_ik m)),
                     tibia_id = il_id (mi_tibia (mt_ik m)), at_rear = (vx tf < 0), stand_up_R = pose_R,
                     idle_R = \<lparr>vx = fc_idle_x fc * (if vx tf > 0 then 1 else - 1), vy = fc_idle_y fc * (if vy tf > 0 then 1 else - 1), vz = height\<rparr>,
                     shoulder_deg = shoulder, femur_deg = femur, tibia_deg = tibia,
                     shoulder_clearance_deg = (if vy tf < 0 then 1 else - 1) *
                       (if qz (so_quaternion S (so3 S (pose_BG m))) = 0 then 1 else - 1) * su_shoulder_clearance_deg fc\<rparr>)))))"

section \<open>The region of a leg\<close>

text \<open>\<open>ValidLegRegion\<close>. The searches go on as long as the leg reaches the next point; one that does not end is \<open>None\<close> in the
  recursion and \<open>Spin\<close> in its callers. \<open>reach\<close> is whether \<open>Inverse\<close> has an answer.\<close>

definition kXStep :: real where "kXStep = 1 / 100"
definition kYStep :: real where "kYStep = 1 / 100"

definition ik_reach :: "ik_library \<Rightarrow> ik_config \<Rightarrow> vec \<Rightarrow> bool run" where
  "ik_reach lib cfg p = rbind (Inverse lib cfg (at_point p) None) (\<lambda>r. Go (r \<noteq> None))"

definition ends :: "'a run option \<Rightarrow> 'a run" where
  "ends r = (case r of None \<Rightarrow> Spin | Some x \<Rightarrow> x)"

partial_function (option) scan_y_loop :: "(vec \<Rightarrow> bool run) \<Rightarrow> real \<Rightarrow> vec option \<Rightarrow> vec \<Rightarrow> vec option run option" where
  "scan_y_loop reach ydir old_G cur_G =
     (case reach cur_G of
        Go ok \<Rightarrow> if ok then scan_y_loop reach ydir (Some cur_G) (cur_G\<lparr>vy := vy cur_G + kYStep * ydir\<rparr>) else Some (Go old_G)
      | Abort \<Rightarrow> Some Abort
      | Spin \<Rightarrow> Some Spin)"

definition scan_y_G :: "(vec \<Rightarrow> bool run) \<Rightarrow> vec \<Rightarrow> real \<Rightarrow> vec option run" where
  "scan_y_G reach start_G ydir = ends (scan_y_loop reach ydir None start_G)"

definition FindSlice :: "(vec \<Rightarrow> bool run) \<Rightarrow> vec \<Rightarrow> (vec \<times> vec) option run" where
  "FindSlice reach start_G =
     rbind (scan_y_G reach start_G (- 1)) (\<lambda>maybe_first.
     rbind (scan_y_G reach start_G 1) (\<lambda>maybe_second.
       Go (case (maybe_first, maybe_second) of (Some a, Some b) \<Rightarrow> Some (a, b) | _ \<Rightarrow> None)))"

partial_function (option) scan_x_loop :: "(vec \<Rightarrow> bool run) \<Rightarrow> real \<Rightarrow> vec \<Rightarrow> (vec \<times> vec) list \<Rightarrow> (vec \<times> vec) list run option" where
  "scan_x_loop reach xdir cur_G plane =
     (case FindSlice reach (cur_G\<lparr>vx := vx cur_G + kXStep * xdir\<rparr>) of
        Go maybe_slice \<Rightarrow>
          (case maybe_slice of
             None \<Rightarrow> Some (Go plane)
           | Some sl \<Rightarrow> scan_x_loop reach xdir (cur_G\<lparr>vx := vx cur_G + kXStep * xdir\<rparr>) (plane @ [sl]))
      | Abort \<Rightarrow> Some Abort
      | Spin \<Rightarrow> Some Spin)"

definition polygon_of :: "(vec \<times> vec) list \<Rightarrow> (real \<times> real) list" where
  "polygon_of plane =
     (let plane = sort_key (\<lambda>sl. vx (fst sl)) plane
      in map (\<lambda>sl. head2 (snd sl)) plane @ map (\<lambda>sl. head2 (fst sl)) (rev plane))"

definition SearchPlane :: "(vec \<Rightarrow> bool run) \<Rightarrow> vec \<Rightarrow> (real \<times> real) list run" where
  "SearchPlane reach start_G =
     rbind (ends (scan_x_loop reach (- 1) start_G [])) (\<lambda>plane.
     rbind (ends (scan_x_loop reach 1 start_G plane)) (\<lambda>plane. Go (polygon_of plane)))"

definition ValidLegRegion :: "frame_library \<Rightarrow> ik_config \<Rightarrow> vec \<Rightarrow> real \<Rightarrow> (real \<times> real) list run" where
  "ValidLegRegion L cfg idle_G height =
     rbind (SearchPlane (ik_reach (fl_ik L) cfg) idle_G) (\<lambda>low.
     rbind (SearchPlane (ik_reach (fl_ik L) cfg) (idle_G\<lparr>vz := vz idle_G - height\<rparr>)) (\<lambda>high.
       Go (merge_regions L low high)))"

text \<open>The region that the context searches for a leg, with the body where the robot frame is.\<close>

definition leg_region :: "('q, 'p) sophus \<Rightarrow> frame_library \<Rightarrow> config \<Rightarrow> 'p mount \<Rightarrow> context_leg \<Rightarrow> (real \<times> real) list run" where
  "leg_region S L cfg m ctx =
     ValidLegRegion L (mt_ik m) (se_act S (se_mul S (se_inv S (pose_BG m)) (se_id S)) (idle_R ctx)) (lift_height (cf_walk cfg))"

section \<open>The geometry of the controller\<close>

definition mount_of :: "'p frame_config \<Rightarrow> int \<Rightarrow> 'p mount option" where
  "mount_of fc i = find (\<lambda>m. mt_leg m = i) (fc_legs fc)"

definition to_G :: "('q, 'p) sophus \<Rightarrow> 'p frame_config \<Rightarrow> context_leg \<Rightarrow> ('p \<Rightarrow> vec \<Rightarrow> vec) \<Rightarrow> vec \<Rightarrow> vec" where
  "to_G S fc ctx act v = (case mount_of fc (cl_leg ctx) of Some m \<Rightarrow> act (se_inv S (pose_BG m)) v | None \<Rightarrow> v)"

text \<open>The fields of the parameter of the controller. Its \<open>sense\<close> and \<open>leg_ik\<close> have no outcome for a failed assertion; the
  assertions of both are about joints that are missing, of which the controller has all when it gets there.\<close>

definition frame_geometry ::
  "('q, 'p) sophus \<Rightarrow> frame_library \<Rightarrow> config \<Rightarrow> 'p frame_config \<Rightarrow> (nat \<Rightarrow> (real \<times> real) list) \<Rightarrow> ('p robot_frames, 'p, AttitudeData) geometry" where
  "frame_geometry S L cfg fc regions =
     \<lparr>sense = (\<lambda>imu_data js old_B old_R fr. case sense_robot S L cfg fc imu_data js old_B old_R fr of Go r \<Rightarrow> r | _ \<Rightarrow> ([], fr)),
      reset_RB = (\<lambda>fr. fr\<lparr>frame_RB := relation_default S\<rparr>),
      reset_pose_RB = (\<lambda>fr. fr\<lparr>frame_RB := (frame_RB fr)\<lparr>kr_pose := se_id S\<rparr>\<rparr>),
      LevelDesiredRB = LevelDesired S,
      rest_RB = rest_pose S,
      filter_RB = filter_frame S cfg fc,
      leg_to_B = (\<lambda>fr. leg_times S (se_inv S (kr_pose (frame_RB fr)))),
      to_R = (\<lambda>fr. se_act S (kr_pose (frame_RB fr))),
      to_B = (\<lambda>fr. se_act S (se_inv S (kr_pose (frame_RB fr)))),
      gravity_B = (\<lambda>fr. se_act S (se_inv S (kr_pose (frame_MB fr))) \<lparr>vx = 0, vy = 0, vz = 1\<rparr>),
      leg_ik = (\<lambda>ctx ef js. case mount_of fc (cl_leg ctx) of
          None \<Rightarrow> None
        | Some m \<Rightarrow> (case Inverse (fl_ik L) (mt_ik m) (effector_times S (se_inv S (pose_BG m)) ef) (Some (map read_joint js)) of
            Go r \<Rightarrow> r | _ \<Rightarrow> None)),
      rb_still = (\<lambda>fr. vnorm (kr_v (frame_RB fr)) = 0 \<and> vnorm (kr_w (frame_RB fr)) = 0),
      state_to_R = (\<lambda>fr. state_times S (kr_pose (frame_RB fr))),
      R_to_G = (\<lambda>fr ctx v. to_G S fc ctx (se_act S) (se_act S (se_inv S (kr_pose (frame_RB fr))) v)),
      R_to_G_rot = (\<lambda>fr ctx v. to_G S fc ctx (\<lambda>p. so_act S (so3 S p)) (so_act S (so3 S (se_inv S (kr_pose (frame_RB fr)))) v)),
      region = regions,
      in_region = (\<lambda>i. in_polygon L (regions i)),
      flip_legs = (\<lambda>bs a legs fr. BackflipUpdateLegs S cfg fc bs a legs fr)\<rparr>"

end
