(* ===== verification/FramesProps.thy ===== *)
theory FramesProps
  imports Frames IkProps
begin

text \<open>
  The frames of the robot: the law of poses with an instance by quaternions, the direction of gravity, where the body is put
  over the terrain, how flat the terrain becomes, the forces of a back flip, and the search for the region of a leg.
\<close>

section \<open>Rotations about the axes\<close>

lemma half_circle: "k * (cos x * cos x) + k * (sin x * sin x) = k" for k x :: real
  by (simp flip: distrib_left power2_eq_square)

lemma Rotate_pitch:
  "Rotate (FromAxisAngle t 0 1 0) v = \<lparr>vx = cos t * vx v + sin t * vz v, vy = vy v, vz = cos t * vz v - sin t * vx v\<rparr>"
  by (simp add: FromAxisAngle_def Rotate_matrix apply_rows_def qmatrix_def vdot_def Let_def half_angle [of t] algebra_simps half_circle)

lemma Rotate_roll:
  "Rotate (FromAxisAngle t 1 0 0) v = \<lparr>vx = vx v, vy = cos t * vy v - sin t * vz v, vz = sin t * vy v + cos t * vz v\<rparr>"
  by (simp add: FromAxisAngle_def Rotate_matrix apply_rows_def qmatrix_def vdot_def Let_def half_angle [of t] algebra_simps half_circle)

text \<open>Turned about an axle across the body at \<open>xr\<close>.\<close>

definition turned_about :: "real \<Rightarrow> real \<Rightarrow> vec \<Rightarrow> vec" where
  "turned_about xr t v = \<lparr>vx = xr + cos t * (vx v - xr) + sin t * vz v, vy = vy v, vz = cos t * vz v - sin t * (vx v - xr)\<rparr>"

section \<open>Rigid motions\<close>

lemma vec_eqI: "vx u = vx v \<Longrightarrow> vy u = vy v \<Longrightarrow> vz u = vz v \<Longrightarrow> u = (v :: vec)"
  by (cases u; cases v) simp

lemma vadd_laws [simp]: "vadd v vzero = v" "vadd vzero v = v" "vadd b (vscale (- 1) b) = vzero" "vadd (vscale (- 1) b) b = vzero"
    "vscale (- 1) (vscale (- 1) b) = b"
  by (simp_all add: vadd_def vzero_def vscale_def)

lemma vadd_assoc: "vadd (vadd a b) c = vadd a (vadd b c)"
  by (simp add: vadd_def)

lemma vdot_zero: "vdot v v = 0 \<longleftrightarrow> v = vzero"
  by (cases v) (auto simp: vdot_def vzero_def add_nonneg_eq_0_iff sum_squares_eq_zero_iff)

text \<open>What Sophus promises of rotations and poses.\<close>

locale rigid_motions =
  fixes S :: "('q, 'p) sophus"
  assumes act: "se_act S p v = vadd (so_act S (so3 S p) v) (translation S p)"
    and parts: "so3 S (se3 S q t) = q" "translation S (se3 S q t) = t"
    and act_mul: "se_act S (se_mul S a b) v = se_act S a (se_act S b v)"
    and turn_mul: "so_act S (so3 S (se_mul S a b)) v = so_act S (so3 S a) (so_act S (so3 S b) v)"
    and inv_act: "se_act S (se_inv S p) (se_act S p v) = v" "se_act S p (se_act S (se_inv S p) v) = v"
    and turn_inv: "so_act S (so3 S (se_inv S p)) (so_act S (so3 S p) v) = v"
    and turn_dot: "vdot (so_act S q u) (so_act S q v) = vdot u v"
    and turn_of: "qnorm Q = 1 \<Longrightarrow> so_act S (so_of S Q) v = Rotate Q v"
begin

lemma id_turn [simp]: "so_act S (so_id S) v = v"
proof -
  have "qnorm (quaternion 1 0 0 0) = 1" by (simp add: qnorm_def)
  from turn_of [OF this] show ?thesis by (simp add: so_id_def Rotate_def qmul_def conjugated_def quaternion_def)
qed

lemma pose_act [simp]: "se_act S (se3 S q t) v = vadd (so_act S q v) t"
  by (simp add: act parts)

lemma id_act [simp]: "se_act S (se_id S) v = v"
  by (simp add: se_id_def vadd_def vzero_def)

lemma act_cancel: "se_act S p u = w \<Longrightarrow> se_act S (se_inv S p) w = u"
  using inv_act(1) by blast

lemma turn_zero [simp]: "so_act S q vzero = vzero"
proof -
  have "vdot (so_act S q vzero) (so_act S q vzero) = 0" by (simp add: turn_dot) (simp add: vdot_def vzero_def)
  then show ?thesis by (simp add: vdot_zero)
qed

lemma turn_inv_eq: "so_act S (so3 S p) u = w \<Longrightarrow> so_act S (so3 S (se_inv S p)) w = u"
  using turn_inv by blast

text \<open>The coordinate along a turned axis.\<close>

lemma turned_coordinate: "vz u = vdot (so_act S q \<lparr>vx = 0, vy = 0, vz = 1\<rparr>) (so_act S q u)"
  by (simp add: turn_dot) (simp add: vdot_def)

text \<open>The vertical line through a point meets the plane of a frame where the height in that frame is zero.\<close>

lemma line_meets_plane:
  assumes "vz (so_act S (so3 S F) \<lparr>vx = 0, vy = 0, vz = 1\<rparr>) \<noteq> 0"
  shows "vz (se_act S (se_inv S F) (FindVerticalLinePlaneIntersect S F vzero \<lparr>vx = 0, vy = 0, vz = 1\<rparr> q)) = 0"
proof -
  define n where "n = so_act S (so3 S F) \<lparr>vx = 0, vy = 0, vz = 1\<rparr>"
  define m where "m = FindVerticalLinePlaneIntersect S F vzero \<lparr>vx = 0, vy = 0, vz = 1\<rparr> q"
  define u where "u = se_act S (se_inv S F) m"
  have "vadd (so_act S (so3 S F) u) (translation S F) = m" by (simp add: u_def act [symmetric] inv_act)
  then have u: "so_act S (so3 S F) u = vsub m (translation S F)" by (auto simp: vadd_def vsub_def)
  have "vsub (se_act S F \<lparr>vx = 0, vy = 0, vz = 1\<rparr>) (se_act S F vzero) = n"
    by (simp add: act n_def [symmetric]) (simp add: vadd_def vsub_def)
  moreover have "vadd vzero \<lparr>vx = 0, vy = 0, vz = 1\<rparr> = \<lparr>vx = 0, vy = 0, vz = 1\<rparr>" "se_act S F vzero = translation S F"
    by (simp_all add: act)
  ultimately have m: "m = q\<lparr>vz := vz (translation S F) -
      ((vx q - vx (translation S F)) * vx n + (vy q - vy (translation S F)) * vy n) / vz n\<rparr>"
    using assms by (simp add: m_def FindVerticalLinePlaneIntersect_def Let_def n_def [symmetric])
  have "vz u = vdot n (vsub m (translation S F))" by (simp only: turned_coordinate [of u "so3 S F"] u n_def)
  also have "\<dots> = 0" using assms by (simp add: m vdot_def vsub_def n_def [symmetric] field_simps)
  finally show ?thesis by (simp add: u_def m_def)
qed

text \<open>Poses that do not turn.\<close>

lemma still_mul: "(\<And>v. so_act S (so3 S a) v = v) \<Longrightarrow> (\<And>v. so_act S (so3 S b) v = v) \<Longrightarrow> so_act S (so3 S (se_mul S a b)) v = v"
  by (simp add: turn_mul)

lemma still_inv: "(\<And>v. so_act S (so3 S a) v = v) \<Longrightarrow> so_act S (so3 S (se_inv S a)) v = v"
  by (rule turn_inv_eq)

lemma still_shift: "so_act S (so3 S (se3 S (so_id S) t)) v = v"
  by (simp add: parts)

text \<open>The robot frame that \<open>LevelDesired\<close> asks for: its origin is under the center of mass, on the terrain.\<close>

lemma level_point:
  defines "up \<equiv> \<lparr>vx = 0, vy = 0, vz = 1\<rparr>"
  assumes "MT = se_mul S (se_inv S (se_mul S (kr_pose (frame_AB fr)) (se_inv S (kr_pose (frame_MB fr))))) (se_inv S (tf_TA fr))"
    and "com = FindVerticalLinePlaneIntersect S MT vzero up vzero" "foot_B = se_act S (se_inv S (kr_pose (frame_MB fr))) com"
  shows "vx (se_act S (LevelDesired S fr) foot_B) = 0" "vy (se_act S (LevelDesired S fr) foot_B) = 0"
    "vz (se_act S (LevelDesired S fr) foot_B) = vz foot_B"
    "vx (se_act S (kr_pose (frame_MB fr)) foot_B) = 0" "vy (se_act S (kr_pose (frame_MB fr)) foot_B) = 0"
    "vz (so_act S (so3 S MT) up) \<noteq> 0 \<Longrightarrow> vz (se_act S (tf_TA fr) (se_act S (kr_pose (frame_AB fr)) foot_B)) = 0"
proof -
  have level: "LevelDesired S fr = se3 S (so_id S) \<lparr>vx = - vx foot_B, vy = - vy foot_B, vz = 0\<rparr>"
    by (simp add: LevelDesired_def Let_def assms)
  show "vx (se_act S (LevelDesired S fr) foot_B) = 0" "vy (se_act S (LevelDesired S fr) foot_B) = 0"
    "vz (se_act S (LevelDesired S fr) foot_B) = vz foot_B"
    by (simp_all add: level vadd_def)
  have com: "se_act S (kr_pose (frame_MB fr)) foot_B = com" by (simp add: assms(4) inv_act)
  show "vx (se_act S (kr_pose (frame_MB fr)) foot_B) = 0" "vy (se_act S (kr_pose (frame_MB fr)) foot_B) = 0"
    by (simp_all add: com assms(3) FindVerticalLinePlaneIntersect_def Let_def vzero_def)
  assume "vz (so_act S (so3 S MT) up) \<noteq> 0"
  then have "vz (se_act S (se_inv S MT) com) = 0" unfolding assms(3) up_def by (rule line_meets_plane)
  moreover have "se_act S MT (se_act S (tf_TA fr) (se_act S (kr_pose (frame_AB fr)) foot_B)) = com"
    by (simp add: assms(2) act_mul inv_act)
      (rule act_cancel, simp add: act_mul assms(4))
  ultimately show "vz (se_act S (tf_TA fr) (se_act S (kr_pose (frame_AB fr)) foot_B)) = 0" by (simp add: act_cancel)
qed

text \<open>The direction of gravity: the code applies the whole pose, not its rotation.\<close>

lemma gravity_offset:
  fixes fc :: "'p frame_config"
  defines "up \<equiv> \<lparr>vx = 0, vy = 0, vz = 1\<rparr>" and "MB \<equiv> \<lambda>fr. kr_pose (frame_MB (fr :: 'p robot_frames))"
  shows "se_act S (se_inv S (MB (UpdateAttitude S fc d fr))) up =
    vadd (so_act S (so3 S (se_inv S (MB (UpdateAttitude S fc d fr)))) up) (center_of_mass_B fc)"
proof -
  define P where "P = MB (UpdateAttitude S fc d fr)"
  define g where "g = se_act S (se_inv S P) up"
  define u where "u = vadd g (vscale (- 1) (center_of_mass_B fc))"
  obtain q where P: "P = se_mul S (se3 S q vzero) (se3 S (so_id S) (vscale (- 1) (center_of_mass_B fc)))"
    by (simp add: P_def MB_def UpdateAttitude_def Let_def)
  have "se_act S P g = up" by (simp add: g_def inv_act)
  then have "so_act S q u = up" by (simp add: P act_mul u_def)
  then have "so_act S (so3 S P) u = up" by (simp add: P turn_mul parts)
  then have "so_act S (so3 S (se_inv S P)) up = u" by (rule turn_inv_eq)
  moreover have "vadd u (center_of_mass_B fc) = g" by (simp add: u_def vadd_assoc)
  ultimately show ?thesis by (simp add: g_def P_def)
qed

text \<open>A plane in the attitude frame, seen from the terrain whose slopes are those of the plane.\<close>

lemma plane_height:
  assumes "terrain_rad fr' = (arctan a, arctan b)"
    "tf_TA fr' = se3 S (so_of S (terrain_rotation (arctan a, arctan b))) (t\<lparr>vz := - c\<rparr>)"
  shows "vz (se_act S (tf_TA fr') \<lparr>vx = x, vy = y, vz = a * x + b * y + c\<rparr>) =
    a * x * cos (arctan a) * (cos (arctan b) - 1) + c * (cos (arctan a) * cos (arctan b) - 1)"
proof -
  have u: "qnorm (terrain_rotation p) = 1" for p by (simp add: terrain_rotation_def qnorm_qmul qnorm_FromAxisAngle)
  have r: "Rotate (terrain_rotation p) v = Rotate (FromAxisAngle (fst p) 0 1 0) (Rotate (FromAxisAngle (- snd p) 1 0 0) v)" for p v
    by (simp add: terrain_rotation_def Rotate_qmul)
  have s: "sin (arctan k) = k * cos (arctan k)" for k by (simp add: sin_arctan cos_arctan)
  show ?thesis unfolding assms(2)
    by (simp add: turn_of u r Rotate_pitch Rotate_roll s vadd_def algebra_simps)
qed

text \<open>A pose that turns the body about an axle across it, at \<open>xr\<close>, by a pitch.\<close>

lemma flip_pose:
  assumes "legs'_fr' = BackflipUpdateLegs S cfg fc bs a legs fr" "xr = rear_x S fc" "t = Radians (pitch_deg bs)"
  shows "se_act S (kr_pose (frame_RB (snd legs'_fr'))) v =
    turned_about xr t v"
proof -
  have q: "qnorm (FromAxisAngle t 0 1 0) = 1" by (simp add: qnorm_FromAxisAngle)
  have i: "se_act S (se_inv S (se3 S (so_id S) \<lparr>vx = - xr, vy = 0, vz = 0\<rparr>)) w = vadd w \<lparr>vx = xr, vy = 0, vz = 0\<rparr>" for w
    by (rule act_cancel) (simp add: vadd_def)
  show ?thesis
    by (simp add: assms(1) BackflipUpdateLegs_def Let_def act_mul i assms(2,3) [symmetric])
       (simp add: turn_of q Rotate_pitch vadd_def turned_about_def algebra_simps)
qed

text \<open>How far in front of the axle a foot is.\<close>

lemma flip_lever:
  assumes "xr = rear_x S fc" "t = Radians (pitch_deg bs)"
  shows "vx (se_act S (se_mul S (se3 S (so_of S (FromAxisAngle t 0 1 0)) vzero) (se3 S (so_id S) \<lparr>vx = - xr, vy = 0, vz = 0\<rparr>)) b) =
    vx (turned_about xr t b) - xr"
proof -
  have q: "qnorm (FromAxisAngle t 0 1 0) = 1" by (simp add: qnorm_FromAxisAngle)
  show ?thesis by (simp add: act_mul) (simp add: turn_of q Rotate_pitch vadd_def turned_about_def algebra_simps)
qed

lemma flip_forces:
  assumes "BackflipUpdateLegs S cfg fc bs a legs fr = (legs', fr')" "xr = rear_x S fc" "t = Radians (pitch_deg bs)"
    and "n = sum_list (map stance legs)" "n \<noteq> 0"
    and "lever = (\<lambda>leg. vx (turned_about xr t (se_act S (se_inv S (kr_pose (frame_RB fr'))) (position leg))) - xr)"
  shows "sum_list (map (\<lambda>leg. vz (force_N leg)) legs') =
    mass_kg cfg * (kGravity + a) + mass_kg cfg * Radians (pitch_accel_dps2 bs) * (\<Sum>leg\<leftarrow>legs. stance leg * lever leg) / n"
proof -
  define m where "m = mass_kg cfg"
  define A where "A = Radians (pitch_accel_dps2 bs)"
  have minus: "Radians (- x) = - Radians x" for x by (simp add: Radians_def)
  have z: "vz vzero = 0" by (simp add: vzero_def)
  define leg' where "leg' = flip_leg S cfg bs a n (kr_pose (frame_RB fr')) (se_mul S (se_inv S (kr_pose (frame_RB fr))) (kr_pose (frame_RB fr')))
     (se_mul S (se3 S (so_of S (FromAxisAngle t 0 1 0)) vzero) (se3 S (so_id S) \<lparr>vx = - xr, vy = 0, vz = 0\<rparr>))"
  have legs': "legs' = map leg' legs"
    using assms(1) by (auto simp: BackflipUpdateLegs_def Let_def leg'_def assms(2-4))
  have force: "vz (force_N (leg' leg)) = stance leg * (m * (kGravity + a) / n) + stance leg * lever leg * (m * A / n)" for leg
    by (simp add: leg'_def flip_leg_def Let_def vadd_def vscale_def vcross_def z flip_lever [OF assms(2,3)] assms(6) m_def A_def minus)
  have "sum_list (map (\<lambda>leg. vz (force_N leg)) legs') =
      (\<Sum>leg\<leftarrow>legs. stance leg) * (m * (kGravity + a) / n) + (\<Sum>leg\<leftarrow>legs. stance leg * lever leg) * (m * A / n)"
    by (simp only: legs' map_map o_def force sum_list_addf sum_list_mult_const)
  then show ?thesis using assms(4,5) by (simp add: m_def A_def)
qed

text \<open>Two such poses about the same axle commute, which is why the code may multiply them in either order.\<close>

lemma flip_airborne:
  assumes old: "\<And>v. se_act S old v = turned_about xr u v"
    and new: "\<And>v. se_act S new v = turned_about xr t v"
  shows "se_act S (se_inv S new) (se_act S (se_mul S (se_inv S old) new) p) = se_act S (se_inv S old) p"
proof -
  define w where "w = se_act S (se_inv S old) p"
  have p: "p = se_act S old w" by (simp add: w_def inv_act)
  have "se_act S new (se_act S old w) = se_act S old (se_act S new w)"
    by (simp add: old new turned_about_def algebra_simps)
  then have "se_act S (se_inv S old) (se_act S new p) = se_act S new w" using p by (metis act_cancel)
  then show ?thesis by (metis act_cancel act_mul w_def)
qed

text \<open>A leg that goes to the body and back to the robot is where it was, and its vectors too.\<close>

lemma leg_there_and_back: "position (leg_times S p (leg_times S (se_inv S p) leg)) = position leg"
  by (simp add: leg_times_def inv_act)

end

text \<open>The instance: a rotation is a unit quaternion of \<open>Attitude\<close>, a pose a rotation and a translation.\<close>

typedef rotation = "{q :: Quaternion. qnorm q = 1}" morphisms quaternion_of Rotation
  by (rule exI [of _ "quaternion 1 0 0 0"]) (simp add: qnorm_def)

setup_lifting type_definition_rotation

lemma qnorm_normalized: "qnorm q \<noteq> 0 \<Longrightarrow> qnorm (qnormalized q) = 1"
proof -
  assume n: "qnorm q \<noteq> 0"
  have "(qnorm (qnormalized q))\<^sup>2 = ((qw q)\<^sup>2 + (qx q)\<^sup>2 + (qy q)\<^sup>2 + (qz q)\<^sup>2) / (qnorm q)\<^sup>2"
    unfolding qnorm_square [of "qnormalized q"] by (simp add: qnormalized_def Let_def power_divide add_divide_distrib)
  also have "\<dots> = (qnorm q)\<^sup>2 / (qnorm q)\<^sup>2" by (simp only: qnorm_square)
  finally have "(qnorm (qnormalized q))\<^sup>2 = 1" using n by simp
  then show ?thesis using qnorm_nonneg [of "qnormalized q"] by (simp add: power2_eq_1_iff)
qed

lemma qnorm_conjugated [simp]: "qnorm (conjugated q) = qnorm q"
  by (simp add: qnorm_def conjugated_def)

lift_definition rot_of :: "Quaternion \<Rightarrow> rotation" is "\<lambda>q. if qnorm q = 0 then quaternion 1 0 0 0 else qnormalized q"
  by (simp add: qnorm_normalized) (simp add: qnorm_def)

lift_definition rot_act :: "rotation \<Rightarrow> vec \<Rightarrow> vec" is Rotate .

lift_definition rot_mul :: "rotation \<Rightarrow> rotation \<Rightarrow> rotation" is qmul
  by (simp add: qnorm_qmul)

lift_definition rot_inv :: "rotation \<Rightarrow> rotation" is conjugated
  by simp

definition quat_sophus :: "(rotation, rotation \<times> vec) sophus" where
  "quat_sophus = \<lparr>so_of = rot_of, so_act = rot_act, so_mul = rot_mul, so_slerp = (\<lambda>a k b. if k = 1 then b else a), so_quaternion = quaternion_of,
     se3 = Pair, so3 = fst, translation = snd, se_act = (\<lambda>p v. vadd (rot_act (fst p) v) (snd p)),
     se_mul = (\<lambda>a b. (rot_mul (fst a) (fst b), vadd (rot_act (fst a) (snd b)) (snd a))),
     se_inv = (\<lambda>p. (rot_inv (fst p), vscale (- 1) (rot_act (rot_inv (fst p)) (snd p))))\<rparr>"

lemma rot_act_mul: "rot_act (rot_mul a b) v = rot_act a (rot_act b v)"
  by transfer (rule Rotate_qmul)

lemma Rotate_add: "Rotate q (vadd u v) = vadd (Rotate q u) (Rotate q v)"
  by (simp add: Rotate_matrix apply_rows_def qmatrix_def vdot_def vadd_def Let_def algebra_simps)

lemma Rotate_scale: "Rotate q (vscale k v) = vscale k (Rotate q v)"
  by (simp add: Rotate_matrix apply_rows_def qmatrix_def vdot_def vscale_def Let_def algebra_simps)

lemma rot_act_add: "rot_act q (vadd u v) = vadd (rot_act q u) (rot_act q v)"
  by transfer (rule Rotate_add)

lemma rot_act_scale: "rot_act q (vscale k v) = vscale k (rot_act q v)"
  by transfer (rule Rotate_scale)

lemma unit_square: "qnorm q = 1 \<Longrightarrow> (qw q)\<^sup>2 + (qx q)\<^sup>2 + (qy q)\<^sup>2 + (qz q)\<^sup>2 = 1"
  using qnorm_square [of q] by simp

lemma qmul_conjugated: "qnorm q = 1 \<Longrightarrow> qmul (conjugated q) q = quaternion 1 0 0 0" "qnorm q = 1 \<Longrightarrow> qmul q (conjugated q) = quaternion 1 0 0 0"
  using unit_square [of q] by (auto intro!: quaternion_eqI simp: qmul_def conjugated_def Let_def power2_eq_square algebra_simps)

lemma Rotate_one: "Rotate (quaternion 1 0 0 0) v = v"
  by (simp add: Rotate_def qmul_def conjugated_def quaternion_def)

lemma Rotate_back:
  assumes "qnorm q = 1"
  shows "Rotate (conjugated q) (Rotate q v) = v" "Rotate q (Rotate (conjugated q) v) = v"
  by (simp_all only: Rotate_qmul [symmetric] qmul_conjugated [OF assms] Rotate_one)

lemma vdot_norm: "vdot v v = (vnorm v)\<^sup>2"
  by (simp only: vnorm_square) (simp add: vdot_def power2_eq_square)

lemma vdot_polar: "vdot u v = (vdot (vadd u v) (vadd u v) - vdot u u - vdot v v) / 2"
  by (simp add: vdot_def vadd_def algebra_simps)

lemma Rotate_dot:
  assumes "qnorm q = 1"
  shows "vdot (Rotate q u) (Rotate q v) = vdot u v"
proof -
  have d: "vdot (Rotate q w) (Rotate q w) = vdot w w" for w by (simp add: vdot_norm vnorm_Rotate assms)
  show ?thesis by (simp only: vdot_polar [of "Rotate q u" "Rotate q v"] vdot_polar [of u v] Rotate_add [symmetric] d)
qed

lemma rot_back: "rot_act (rot_inv q) (rot_act q v) = v" "rot_act q (rot_act (rot_inv q) v) = v"
  by (transfer, simp add: Rotate_back)+

lemma rot_dot: "vdot (rot_act q u) (rot_act q v) = vdot u v"
  by transfer (rule Rotate_dot)

lemma qnormalized_unit: "qnorm q = 1 \<Longrightarrow> qnormalized q = q"
  by (simp add: qnormalized_def quaternion_eqI)

lemma rot_of_unit: "qnorm Q = 1 \<Longrightarrow> rot_act (rot_of Q) v = Rotate Q v"
  by transfer (simp add: qnormalized_unit)

interpretation quat: rigid_motions quat_sophus
  by unfold_locales
    (auto simp: quat_sophus_def rot_act_mul rot_act_add rot_act_scale rot_back rot_dot rot_of_unit vadd_assoc)

section \<open>A robot on the bench\<close>

definition bench_shift :: "real \<Rightarrow> real \<Rightarrow> rotation \<times> vec" where
  "bench_shift x z = se3 quat_sophus (so_id quat_sophus) \<lparr>vx = x, vy = 0, vz = z\<rparr>"

definition bench_frames :: "(rotation \<times> vec) robot_frames" where
  "bench_frames =
     \<lparr>frame_RB = \<lparr>kr_pose = bench_shift 0 0, kr_v = vzero, kr_w = vzero\<rparr>,
      frame_MB = \<lparr>kr_pose = bench_shift (-10) 0, kr_v = vzero, kr_w = vzero\<rparr>,
      frame_AB = \<lparr>kr_pose = bench_shift (-10) 0, kr_v = vzero, kr_w = vzero\<rparr>,
      terrain_rad = (arctan 1, arctan 0), tf_TA = bench_shift 0 200\<rparr>"

definition bench_frame_config :: "(rotation \<times> vec) frame_config" where
  "bench_frame_config =
     \<lparr>fc_legs = [\<lparr>mt_leg = 0, pose_BG = bench_shift 200 0, mt_ik = bench_leg\<rparr>, \<lparr>mt_leg = 1, pose_BG = bench_shift (-200) 0, mt_ik = bench_leg\<rparr>],
      center_of_mass_B = \<lparr>vx = 10, vy = 0, vz = 0\<rparr>, rb_filter_constant_Hz = 2, terrain_filter_s = 1 / 5, fc_idle_x = 150, fc_idle_y = 100,
      su_pose_R = \<lparr>vx = 150, vy = 100, vz = 0\<rparr>, su_shoulder_clearance_deg = 10\<rparr>"

definition bench_frame_library :: frame_library where
  "bench_frame_library =
     \<lparr>foot_position = (\<lambda>_ _. vzero), foot_velocity = (\<lambda>_ _ _. vzero), foot_acceleration = (\<lambda>_ _ _ _. vzero), FitPlane = (\<lambda>_. (1, 0, -200)), fl_ik = bench_library, merge_regions = (\<lambda>a b. a),
      in_polygon = (\<lambda>_ _. True)\<rparr>"

definition bench_attitude :: AttitudeData where
  "bench_attitude =
     \<lparr>ad_timestamp = 0, ad_attitude = FromEuler 0 (1 / 2) 0, ad_rate_dps = vzero, ad_euler_deg = \<lparr>roll = 0, pitch = 0, yaw = 0\<rparr>,
      ad_accel_mps2 = vzero, ad_bias_dps = vzero, ad_attitude_uncertainty = quaternion 1 0 0 0, ad_bias_uncertainty_dps = vzero\<rparr>"

definition bench_flip_legs :: "leg_cmd list" where
  "bench_flip_legs = [leg_default\<lparr>stance := 1, position := \<lparr>vx = 150, vy = 100, vz = 200\<rparr>\<rparr>, leg_default\<lparr>leg_id := 1, stance := 0\<rparr>]"

section \<open>The body over the terrain\<close>

text \<open>C8 (safety). The pose that \<open>LevelDesired\<close> asks for has the origin of the robot frame under the center of mass: the point
  where the vertical through the center of mass meets the terrain is on the vertical axis of the robot frame, at the same height
  as in the body frame, as long as the terrain is not upright.\<close>

theorem level_over_com:
  assumes "rigid_motions S" "up = \<lparr>vx = 0, vy = 0, vz = 1\<rparr>"
    and "MT = se_mul S (se_inv S (se_mul S (kr_pose (frame_AB fr)) (se_inv S (kr_pose (frame_MB fr))))) (se_inv S (tf_TA fr))"
    and "vz (so_act S (so3 S MT) up) \<noteq> 0"
  shows "\<exists>foot_B. vx (se_act S (kr_pose (frame_MB fr)) foot_B) = 0 \<and> vy (se_act S (kr_pose (frame_MB fr)) foot_B) = 0 \<and>
    vz (se_act S (tf_TA fr) (se_act S (kr_pose (frame_AB fr)) foot_B)) = 0 \<and>
    se_act S (LevelDesiredRB (frame_geometry S L cfg fc regions) fr) foot_B = \<lparr>vx = 0, vy = 0, vz = vz foot_B\<rparr>"
proof -
  note facts = rigid_motions.level_point [OF assms(1) assms(3) refl refl]
  show ?thesis
    using facts(4,5) facts(6) [OF assms(4) [unfolded assms(2)]] facts(1-3)
    by (intro exI conjI) (auto intro!: vec_eqI simp: frame_geometry_def)
qed

theorem level_over_com_witness:
  "\<exists>foot_B. vx (se_act quat_sophus (kr_pose (frame_MB bench_frames)) foot_B) = 0 \<and>
    vy (se_act quat_sophus (kr_pose (frame_MB bench_frames)) foot_B) = 0 \<and>
    vz (se_act quat_sophus (tf_TA bench_frames) (se_act quat_sophus (kr_pose (frame_AB bench_frames)) foot_B)) = 0 \<and>
    se_act quat_sophus (LevelDesiredRB (frame_geometry quat_sophus bench_frame_library bench_config bench_frame_config (\<lambda>_. [])) bench_frames)
      foot_B = \<lparr>vx = 0, vy = 0, vz = vz foot_B\<rparr>"
  by (rule level_over_com [OF quat.rigid_motions_axioms refl refl])
    (simp add: bench_frames_def bench_shift_def quat.still_mul quat.still_inv quat.still_shift)

text \<open>C24 (functional). The direction of gravity that the standing controller shares the weight with, \<open>gravity_B\<close>, is the direction
  of the vertical of length one plus the position of the center of mass in the body, because the code applies the pose of the
  frame, with its translation, to a direction.\<close>

theorem gravity_shifted:
  assumes "rigid_motions S" "up = \<lparr>vx = 0, vy = 0, vz = 1\<rparr>" "fr' = UpdateAttitude S fc d fr"
    and "down_to_up_B = so_act S (so3 S (se_inv S (kr_pose (frame_MB fr')))) up"
  shows "gravity_B (frame_geometry S L cfg fc regions) fr' = vadd down_to_up_B (center_of_mass_B fc) \<and> vnorm down_to_up_B = 1"
proof
  show "gravity_B (frame_geometry S L cfg fc regions) fr' = vadd down_to_up_B (center_of_mass_B fc)"
    using rigid_motions.gravity_offset [OF assms(1), of fc d fr] by (simp add: frame_geometry_def assms(2-4))
  have "vdot up up = 1" by (simp add: assms(2) vdot_def)
  then show "vnorm down_to_up_B = 1" by (simp add: vnorm_def assms(4) rigid_motions.turn_dot [OF assms(1)])
qed

theorem gravity_shifted_witness:
  "gravity_B (frame_geometry quat_sophus bench_frame_library bench_config bench_frame_config (\<lambda>_. []))
      (UpdateAttitude quat_sophus bench_frame_config bench_attitude bench_frames) =
    vadd (so_act quat_sophus (so3 quat_sophus (se_inv quat_sophus (kr_pose (frame_MB
      (UpdateAttitude quat_sophus bench_frame_config bench_attitude bench_frames))))) \<lparr>vx = 0, vy = 0, vz = 1\<rparr>) \<lparr>vx = 10, vy = 0, vz = 0\<rparr>"
  using gravity_shifted [where L = bench_frame_library and cfg = bench_config and fc = bench_frame_config and regions = "\<lambda>_. []"
      and d = bench_attitude and fr = bench_frames, OF quat.rigid_motions_axioms refl refl refl]
  by (simp add: bench_frame_config_def)

section \<open>The terrain and the back flip\<close>

text \<open>C23 (functional). Each update brings the slopes of the terrain closer to those of the plane through the feet by a constant
  factor, and once they agree a point of that plane is at the height \<open>a x cos \<alpha> (cos \<beta> - 1) + c (cos \<alpha> cos \<beta> - 1)\<close> of the
  terrain frame, where \<open>\<alpha>\<close> and \<open>\<beta>\<close> are the angles of the slopes: zero on level ground, and not on a slope.\<close>

theorem terrain_heights:
  assumes "rigid_motions S" "legs \<noteq> []" "old_R \<noteq> []" "FitPlane L (map (stance_point S cfg fr) legs) = (a, b, c)"
    and "fr' = UpdateTerrain S L cfg fc legs old_R fr" "alpha = (1 / 2) powr (period_s cfg / terrain_filter_s fc)"
  shows "fst (terrain_rad fr') - arctan a = alpha * (fst (terrain_rad fr) - arctan a) \<and>
    snd (terrain_rad fr') - arctan b = alpha * (snd (terrain_rad fr) - arctan b) \<and>
    (terrain_rad fr = (arctan a, arctan b) \<longrightarrow> vz (se_act S (tf_TA fr') \<lparr>vx = x, vy = y, vz = a * x + b * y + c\<rparr>) =
       a * x * cos (arctan a) * (cos (arctan b) - 1) + c * (cos (arctan a) * cos (arctan b) - 1))"
proof (intro conjI impI)
  have fr': "terrain_rad fr' = (alpha * fst (terrain_rad fr) + (1 - alpha) * arctan a, alpha * snd (terrain_rad fr) + (1 - alpha) * arctan b)"
    "tf_TA fr' = se3 S (so_of S (terrain_rotation (terrain_rad fr'))) ((translation S (tf_TA fr))\<lparr>vz := - c\<rparr>)"
    using assms(2-4) by (simp_all add: assms(5,6) UpdateTerrain_def Let_def)
  show "fst (terrain_rad fr') - arctan a = alpha * (fst (terrain_rad fr) - arctan a)"
    "snd (terrain_rad fr') - arctan b = alpha * (snd (terrain_rad fr) - arctan b)"
    by (simp_all add: fr'(1) algebra_simps)
  assume "terrain_rad fr = (arctan a, arctan b)"
  then have r: "terrain_rad fr' = (arctan a, arctan b)" by (simp add: fr'(1) algebra_simps)
  show "vz (se_act S (tf_TA fr') \<lparr>vx = x, vy = y, vz = a * x + b * y + c\<rparr>) =
       a * x * cos (arctan a) * (cos (arctan b) - 1) + c * (cos (arctan a) * cos (arctan b) - 1)"
    by (rule rigid_motions.plane_height [OF assms(1) r fr'(2) [unfolded r]])
qed

theorem terrain_heights_witness:
  defines "fr' \<equiv> UpdateTerrain quat_sophus bench_frame_library bench_config bench_frame_config [leg_state_default 0] [leg_default] bench_frames"
  shows "fst (terrain_rad fr') - arctan 1 = 0 \<and>
    vz (se_act quat_sophus (tf_TA fr') \<lparr>vx = 50, vy = 0, vz = 50 - 200\<rparr>) = - 200 * (sqrt 2 / 2 - 1)"
proof -
  have fit: "FitPlane bench_frame_library (map (stance_point quat_sophus bench_config bench_frames) [leg_state_default 0]) = (1, 0, -200)"
    by (simp add: bench_frame_library_def)
  note facts = terrain_heights [where x = 50 and y = 0, OF quat.rigid_motions_axioms _ _ fit refl refl,
      where fc = bench_frame_config and old_R = "[leg_default]", folded fr'_def]
  have r: "terrain_rad bench_frames = (arctan 1, arctan 0)" by (simp add: bench_frames_def)
  have "cos (arctan 1) = sqrt 2 / 2" by (simp add: arctan_one cos_45)
  then show ?thesis using facts by (simp add: r)
qed



section \<open>The region of a leg\<close>

text \<open>A search ends when every point has an answer and the points that are reached are bounded.\<close>

lemma scan_y_ends:
  assumes "\<And>p. \<exists>ok. reach p = Go ok" "\<And>p. reach p = Go True \<Longrightarrow> vz p = vz cur \<Longrightarrow> vy p * ydir \<le> B"
    and "ydir * ydir = 1" "B < vy cur * ydir + real n * kYStep"
  shows "\<exists>res. scan_y_loop reach ydir old cur = Some (Go res) \<and>
    (res = old \<and> reach cur = Go False \<or>
     (\<exists>p. res = Some p \<and> reach cur = Go True \<and> reach p = Go True \<and> vx p = vx cur \<and> vz p = vz cur))"
  using assms(2,4)
proof (induction n arbitrary: old cur)
  case 0
  then have "reach cur \<noteq> Go True" by force
  moreover obtain ok where "reach cur = Go ok" using assms(1) by blast
  ultimately have "reach cur = Go False" by (cases ok) simp_all
  then show ?case by (subst scan_y_loop.simps) simp
next
  case (Suc n)
  show ?case
  proof (cases "reach cur = Go True")
    case True
    let ?next = "cur\<lparr>vy := vy cur + kYStep * ydir\<rparr>"
    have "B < vy ?next * ydir + real n * kYStep" using Suc.prems(2) assms(3) by (simp add: algebra_simps)
    moreover have "\<And>p. reach p = Go True \<Longrightarrow> vz p = vz ?next \<Longrightarrow> vy p * ydir \<le> B" using Suc.prems(1) by simp
    ultimately show ?thesis using Suc.IH [of ?next "Some cur"] True by (subst scan_y_loop.simps) auto
  next
    case False
    then have "reach cur = Go False" using assms(1) [of cur] by auto
    then show ?thesis by (subst scan_y_loop.simps) simp
  qed
qed

lemma steps_reach: "\<exists>n. B < y + real n * kYStep"
proof -
  have "0 < kYStep" by (simp add: kYStep_def)
  then obtain n where "B - y < real n * kYStep" using reals_Archimedean3 by blast
  then show ?thesis by (intro exI [of _ n]) simp
qed

lemma slice_found:
  assumes "\<And>p. \<exists>ok. reach p = Go ok" "\<And>p. reach p = Go True \<Longrightarrow> vz p = vz cur \<Longrightarrow> \<bar>vy p\<bar> \<le> B"
  shows "FindSlice reach cur = Go None \<and> reach cur = Go False \<or>
    (\<exists>p q. FindSlice reach cur = Go (Some (p, q)) \<and> reach cur = Go True \<and> reach p = Go True \<and> reach q = Go True \<and>
       vz p = vz cur \<and> vz q = vz cur)"
proof -
  have scan: "\<exists>res. scan_y_G reach cur ydir = Go res \<and> (res = None \<and> reach cur = Go False \<or>
     (\<exists>p. res = Some p \<and> reach cur = Go True \<and> reach p = Go True \<and> vx p = vx cur \<and> vz p = vz cur))" if "ydir * ydir = 1" for ydir :: real
  proof -
    obtain n where n: "B < vy cur * ydir + real n * kYStep" using steps_reach by blast
    have "ydir = 1 \<or> ydir = -1" using that by (simp add: square_eq_1_iff)
    then have "\<And>p. reach p = Go True \<Longrightarrow> vz p = vz cur \<Longrightarrow> vy p * ydir \<le> B" using assms(2) by fastforce
    from scan_y_ends [where reach = reach and old = None, OF assms(1) this that n] show ?thesis by (auto simp: scan_y_G_def ends_def)
  qed
  show ?thesis using scan [of "-1"] scan [of 1] by (auto simp: FindSlice_def)
qed

lemma scan_x_ends:
  assumes "\<And>p. \<exists>ok. reach p = Go ok" "\<And>p. reach p = Go True \<Longrightarrow> vz p = vz cur \<Longrightarrow> \<bar>vx p\<bar> \<le> B \<and> \<bar>vy p\<bar> \<le> B"
    and "xdir * xdir = 1" "B < vx cur * xdir + real n * kXStep" "\<forall>(p, q) \<in> set plane. reachable p \<and> reachable q"
    and "reachable = (\<lambda>p. reach p = Go True \<and> vz p = vz cur)"
  shows "\<exists>plane'. scan_x_loop reach xdir cur plane = Some (Go plane') \<and> (\<forall>(p, q) \<in> set plane'. reachable p \<and> reachable q)"
  using assms(2,4-6)
proof (induction n arbitrary: cur plane)
  case 0
  let ?next = "cur\<lparr>vx := vx cur + kXStep * xdir\<rparr>"
  have "vx ?next * xdir = vx cur * xdir + kXStep" using assms(3) by (simp add: algebra_simps)
  then have "B < vx ?next * xdir" using 0(2) by (simp add: kXStep_def)
  moreover have "vx ?next * xdir \<le> \<bar>vx ?next\<bar>" using assms(3) by (auto simp: square_eq_1_iff)
  ultimately have "reach ?next \<noteq> Go True" using 0(1) [of ?next] by auto
  then have "FindSlice reach ?next = Go None" using slice_found [of reach ?next B] assms(1) 0(1) by auto
  then show ?case using 0(3) by (subst scan_x_loop.simps) simp
next
  case (Suc n)
  let ?next = "cur\<lparr>vx := vx cur + kXStep * xdir\<rparr>"
  have "B < vx ?next * xdir + real n * kXStep" using Suc.prems(2) assms(3) by (simp add: algebra_simps)
  note IH = Suc.IH [of ?next, simplified, OF Suc.prems(1) this [simplified] _ Suc.prems(4)]
  consider "FindSlice reach ?next = Go None" |
    (found) p q where "FindSlice reach ?next = Go (Some (p, q))" "reach p = Go True" "reach q = Go True" "vz p = vz cur" "vz q = vz cur"
    using slice_found [of reach ?next B] assms(1) Suc.prems(1) by auto
  then show ?case
  proof cases
    case 1
    then show ?thesis using Suc.prems(3) by (subst scan_x_loop.simps) simp
  next
    case found
    then show ?thesis using IH [of "plane @ [(p, q)]"] Suc.prems(3,4) by (subst scan_x_loop.simps) auto
  qed
qed

lemma polygon_points: "set (polygon_of plane) = (\<lambda>sl. head2 (snd sl)) ` set plane \<union> (\<lambda>sl. head2 (fst sl)) ` set plane"
  by (simp add: polygon_of_def Let_def)

lemma x_steps_reach: "\<exists>n. B < x + real n * kXStep"
  using steps_reach [of B x] by (simp add: kXStep_def kYStep_def)

lemma plane_found:
  assumes "\<And>p. \<exists>ok. reach p = Go ok" "\<And>p. reach p = Go True \<Longrightarrow> vz p = vz start \<Longrightarrow> \<bar>vx p\<bar> \<le> B \<and> \<bar>vy p\<bar> \<le> B"
  shows "\<exists>poly. SearchPlane reach start = Go poly \<and>
    (\<forall>v \<in> set poly. reach \<lparr>vx = fst v, vy = snd v, vz = vz start\<rparr> = Go True)"
proof -
  define reachable where "reachable = (\<lambda>p. reach p = Go True \<and> vz p = vz start)"
  obtain m where m: "B < vx start * -1 + real m * kXStep" using x_steps_reach by blast
  obtain n where n: "B < vx start * 1 + real n * kXStep" using x_steps_reach by blast
  obtain hind where hind: "scan_x_loop reach (- 1) start [] = Some (Go hind)" "\<forall>(p, q) \<in> set hind. reachable p \<and> reachable q"
    using scan_x_ends [where reach = reach and plane = "[]" and reachable = reachable, OF assms _ m] by (auto simp: reachable_def)
  obtain plane where plane: "scan_x_loop reach 1 start hind = Some (Go plane)" "\<forall>(p, q) \<in> set plane. reachable p \<and> reachable q"
    using scan_x_ends [where reach = reach and plane = hind and reachable = reachable, OF assms _ n] hind(2) by (auto simp: reachable_def)
  have "reach \<lparr>vx = fst v, vy = snd v, vz = vz start\<rparr> = Go True" if v: "v \<in> set (polygon_of plane)" for v
  proof -
    obtain sl where "sl \<in> set plane" "v = head2 (fst sl) \<or> v = head2 (snd sl)" using v
      by (auto simp: polygon_points)
    moreover from this(1) plane(2) have "reachable (fst sl)" "reachable (snd sl)" by auto
    ultimately obtain p where p: "reachable p" "v = head2 p" by blast
    then have "p = \<lparr>vx = fst v, vy = snd v, vz = vz start\<rparr>" by (auto intro!: vec_eqI simp: reachable_def head2_def)
    then show ?thesis using p(1) by (simp add: reachable_def)
  qed
  then show ?thesis by (auto simp: SearchPlane_def hind(1) plane(1) ends_def)
qed

text \<open>The leg has an answer for every point, and none for a point far away as long as the foot is below the axis of the femur.\<close>

lemma ik_reach_total: "clamps lib \<Longrightarrow> \<exists>ok. ik_reach lib cfg p = Go ok"
proof -
  assume c: "clamps lib"
  from shoulder_found [OF c refl, of cfg p] show ?thesis
  proof (elim disjE exE conjE)
    fix q
    assume "shoulder_rad lib cfg p = Go (Some q)"
    then have "shoulder_rad lib cfg (ef_pose (at_point p)) = Go (Some q)" by (simp add: at_point_def)
    from Inverse_returns [where current = None, OF c _ this] show ?thesis by (auto simp: ik_reach_def)
  next
    assume "shoulder_rad lib cfg p = Go None"
    then have "ik_reach lib cfg p = Go False" by (simp add: ik_reach_def Inverse_def at_point_def)
    then show ?thesis by blast
  qed
qed

lemma ik_reach_bounded:
  assumes "ik_reach lib cfg p = Go True" "\<bar>vy (il_pose (mi_shoulder cfg))\<bar> < vz p"
    and "B = \<bar>vz (il_pose (mi_femur cfg)) + vz (il_pose (mi_tibia cfg))\<bar> + \<bar>vx (il_pose (mi_shoulder cfg))\<bar> +
      \<bar>vz (il_pose (mi_shoulder cfg))\<bar> + \<bar>vy (il_pose (mi_shoulder cfg))\<bar>"
  shows "\<bar>vx p\<bar> \<le> B \<and> \<bar>vy p\<bar> \<le> B"
proof -
  define r where "r = vy (il_pose (mi_shoulder cfg))"
  define L where "L = vz (il_pose (mi_femur cfg)) + vz (il_pose (mi_tibia cfg))"
  obtain js where "Inverse lib cfg (at_point p) None = Go (Some js)"
    using assms(1) by (cases "Inverse lib cfg (at_point p) None") (auto simp: ik_reach_def)
  then obtain q femur q3 where "femur_tibia_rad lib cfg (leg_plane cfg p q) = Some (femur, q3)"
    by (elim Inverse_Some) (auto simp: at_point_def)
  then have "sqrt ((fst (leg_plane cfg p q))\<^sup>2 + (snd (leg_plane cfg p q))\<^sup>2) \<le> L"
    by (auto simp: femur_tibia_rad_def Let_def L_def case_prod_beta power2_eq_square split: if_splits)
  then have L: "\<bar>fst (leg_plane cfg p q)\<bar> \<le> L" "\<bar>snd (leg_plane cfg p q)\<bar> \<le> L"
    using real_sqrt_ge_abs1 real_sqrt_ge_abs2 order_trans by blast+
  have r: "\<bar>r * sin (- q)\<bar> \<le> \<bar>r\<bar>" "\<bar>r * cos (- q)\<bar> \<le> \<bar>r\<bar>" by (simp_all add: abs_mult mult_left_le)
  define Y where "Y = sqrt ((vy p - r * cos (- q))\<^sup>2 + (- vz p - r * sin (- q))\<^sup>2)"
  have Y: "\<bar>vy p - r * cos (- q)\<bar> \<le> Y" unfolding Y_def by (rule real_sqrt_ge_abs1)
  have "GetSign (- vz p - r * sin (- q)) = -1" using assms(2) r(1) by (auto simp: GetSign_def r_def)
  then have "leg_plane cfg p q = (- (vx p - vx (il_pose (mi_shoulder cfg))), - Y + vz (il_pose (mi_shoulder cfg)))"
    by (simp add: leg_plane_def Let_def r_def [symmetric] Y_def)
  with L have "\<bar>vx p\<bar> \<le> L + \<bar>vx (il_pose (mi_shoulder cfg))\<bar>" "\<bar>Y\<bar> \<le> L + \<bar>vz (il_pose (mi_shoulder cfg))\<bar>" by simp_all
  moreover from this(2) have "\<bar>vy p\<bar> \<le> L + \<bar>vz (il_pose (mi_shoulder cfg))\<bar> + \<bar>r\<bar>" using Y r(2) by linarith
  moreover have "L \<le> \<bar>L\<bar>" by simp
  ultimately have "\<bar>vx p\<bar> \<le> \<bar>L\<bar> + \<bar>vx (il_pose (mi_shoulder cfg))\<bar>" "\<bar>vy p\<bar> \<le> \<bar>L\<bar> + \<bar>vz (il_pose (mi_shoulder cfg))\<bar> + \<bar>r\<bar>"
    by linarith+
  then show ?thesis unfolding assms(3) r_def [symmetric] L_def [symmetric] by linarith
qed

text \<open>C10 (termination). The search for the region of a leg ends, in each of the two heights, as long as both are below the axis of the
  femur by more than its distance from the shoulder; and the leg reaches every corner of the polygon that it finds.\<close>

theorem leg_region_search:
  assumes "clamps lib" "\<bar>vy (il_pose (mi_shoulder cfg))\<bar> < vz start"
  shows "\<exists>poly. SearchPlane (ik_reach lib cfg) start = Go poly \<and>
    (\<forall>v \<in> set poly. ik_reach lib cfg \<lparr>vx = fst v, vy = snd v, vz = vz start\<rparr> = Go True)"
proof (rule plane_found [OF ik_reach_total [OF assms(1)]])
  fix p
  assume "ik_reach lib cfg p = Go True" "vz p = vz start"
  with assms(2) show "\<bar>vx p\<bar> \<le> \<bar>vz (il_pose (mi_femur cfg)) + vz (il_pose (mi_tibia cfg))\<bar> + \<bar>vx (il_pose (mi_shoulder cfg))\<bar> +
      \<bar>vz (il_pose (mi_shoulder cfg))\<bar> + \<bar>vy (il_pose (mi_shoulder cfg))\<bar> \<and>
    \<bar>vy p\<bar> \<le> \<bar>vz (il_pose (mi_femur cfg)) + vz (il_pose (mi_tibia cfg))\<bar> + \<bar>vx (il_pose (mi_shoulder cfg))\<bar> +
      \<bar>vz (il_pose (mi_shoulder cfg))\<bar> + \<bar>vy (il_pose (mi_shoulder cfg))\<bar>"
    by (intro ik_reach_bounded [OF _ _ refl]) simp_all
qed

theorem leg_region_search_witness:
  "\<exists>poly. SearchPlane (ik_reach bench_library bench_leg) \<lparr>vx = 0, vy = 0, vz = 3 / 2\<rparr> = Go poly \<and>
    (\<forall>v \<in> set poly. ik_reach bench_library bench_leg \<lparr>vx = fst v, vy = snd v, vz = 3 / 2\<rparr> = Go True)"
  using leg_region_search [OF bench_leg_ok(1), of bench_leg "\<lparr>vx = 0, vy = 0, vz = 3 / 2\<rparr>"] by (simp add: bench_leg_def vzero_def)

text \<open>At the height of the axis the foot is in it, the distance across does not count, and a search does not end.\<close>

lemma scan_y_endless:
  assumes "\<And>y. reach (cur\<lparr>vy := y\<rparr>) = Go True"
  shows "scan_y_loop reach ydir old cur = None"
proof -
  have "\<not> (\<forall>y. reach (cur\<lparr>vy := y\<rparr>) = Go True)" if "scan_y_loop reach ydir old cur = Some r" for r
    using that
  proof (rule scan_y_loop.raw_induct [where P = "\<lambda>reach ydir old cur r. \<not> (\<forall>y. reach (cur\<lparr>vy := y\<rparr>) = Go True)", rotated])
    fix scan :: "(vec \<Rightarrow> bool run) \<Rightarrow> real \<Rightarrow> vec option \<Rightarrow> vec \<Rightarrow> vec option run option"
      and reach :: "vec \<Rightarrow> bool run" and ydir :: real and old :: "vec option" and cur :: vec and r
    assume IH: "\<And>reach ydir old cur r. scan reach ydir old cur = Some r \<Longrightarrow> \<not> (\<forall>y. reach (cur\<lparr>vy := y\<rparr>) = Go True)"
      and body: "(case reach cur of Go ok \<Rightarrow> if ok then scan reach ydir (Some cur) (cur\<lparr>vy := vy cur + kYStep * ydir\<rparr>) else Some (Go old)
        | Abort \<Rightarrow> Some Abort | Spin \<Rightarrow> Some Spin) = Some r"
    show "\<not> (\<forall>y. reach (cur\<lparr>vy := y\<rparr>) = Go True)"
    proof
      assume all: "\<forall>y. reach (cur\<lparr>vy := y\<rparr>) = Go True"
      have "cur = cur\<lparr>vy := vy cur\<rparr>" by simp
      with all have "reach cur = Go True" by metis
      with body IH [of reach ydir "Some cur" "cur\<lparr>vy := vy cur + kYStep * ydir\<rparr>" r] all show False by simp
    qed
  qed
  with assms show ?thesis by (cases "scan_y_loop reach ydir old cur") auto
qed

lemma axis_search_endless:
  assumes "vy (il_pose (mi_shoulder cfg)) = 0" "clamps lib"
    and "sqrt ((vx (il_pose (mi_shoulder cfg)))\<^sup>2 + (vz (il_pose (mi_shoulder cfg)))\<^sup>2) \<le> vz (il_pose (mi_femur cfg)) + vz (il_pose (mi_tibia cfg))"
  shows "FindSlice (ik_reach lib cfg) vzero = Spin"
proof -
  have "ik_reach lib cfg (vzero\<lparr>vy := y\<rparr>) = Go True" for y
  proof -
    obtain q where q: "shoulder_rad lib cfg (ef_pose (at_point (vzero\<lparr>vy := y\<rparr>))) = Go (Some q)"
      by (simp add: shoulder_rad_def Let_def assms(1))
    have "hip_distance cfg (ef_pose (at_point (vzero\<lparr>vy := y\<rparr>))) q \<le> vz (il_pose (mi_femur cfg)) + vz (il_pose (mi_tibia cfg))"
      using assms(3) by (simp add: hip_distance_def leg_plane_def Let_def assms(1) at_point_def vzero_def GetSign_def)
    then show ?thesis using Inverse_returns [where current = None, OF assms(2) _ q] by (auto simp: ik_reach_def)
  qed
  then show ?thesis by (simp add: FindSlice_def scan_y_G_def scan_y_endless ends_def)
qed

end
